(* ===== verification/Prelude.thy ===== *)
theory Prelude
  imports Complex_Main "HOL-Library.AList"
begin

text \<open>
  Shared vocabulary of the development. Python exceptions are values of \<open>py_error\<close>;
  a function that can raise before it changes anything returns \<open>'a result\<close>, and one
  that can raise after it has changed its object returns the object beside the error.
  Python floats are read as exact reals, \<open>datetime\<close> values as microseconds. A \<open>dict\<close>
  whose order is observable is an association list updated in place; other dictionaries
  are maps. The locales state the contracts shared by several components: a dictionary,
  a machine that keeps an invariant, and a machine whose outputs account for a potential.
\<close>

named_theorems ledger_simps \<open>facts about accounting sums over dictionaries\<close>

datatype py_error =
    ValueError string
  | KeyError string
  | RuntimeError string
  | ZeroDivisionError
  | IntegrityError string
  | TypeError string
  | OperationalError string
  | OverflowError string

type_synonym 'a result = "py_error + 'a"

type_synonym datetime = int \<comment> \<open>microseconds since the epoch\<close>

type_synonym ('k, 'v) dict = "('k \<times> 'v) list"

definition total_seconds :: "int \<Rightarrow> real" where
  "total_seconds d = real_of_int d / 1000000"

definition bind_result :: "'a result \<Rightarrow> ('a \<Rightarrow> 'b result) \<Rightarrow> 'b result" where
  "bind_result r f = (case r of Inl e \<Rightarrow> Inl e | Inr a \<Rightarrow> f a)"

lemma bind_result_simps [simp]:
  "bind_result (Inl e) f = Inl e"
  "bind_result (Inr a) f = f a"
  by (simp_all add: bind_result_def)

lemma bind_result_Inr_iff:
  "bind_result r f = Inr b \<longleftrightarrow> (\<exists>a. r = Inr a \<and> f a = Inr b)"
  by (cases r) auto

definition py_div :: "real \<Rightarrow> real \<Rightarrow> real result" where
  "py_div a b = (if b = 0 then Inl ZeroDivisionError else Inr (a / b))"

lemma py_div_nonzero [simp]: "b \<noteq> 0 \<Longrightarrow> py_div a b = Inr (a / b)"
  by (simp add: py_div_def)

lemma py_div_Inr_iff: "py_div a b = Inr q \<longleftrightarrow> b \<noteq> 0 \<and> q = a / b"
  by (auto simp: py_div_def)

text \<open>Converting the elements of a sequence in order; the first failure is raised.\<close>

fun traverse :: "('a \<Rightarrow> 'b result) \<Rightarrow> 'a list \<Rightarrow> 'b list result" where
  "traverse f [] = Inr []"
| "traverse f (x # xs) = bind_result (f x) (\<lambda>y. bind_result (traverse f xs) (\<lambda>ys. Inr (y # ys)))"

lemma traverse_Inr: "traverse f xs = Inr ys \<longleftrightarrow> list_all2 (\<lambda>x y. f x = Inr y) xs ys"
  by (induction xs arbitrary: ys) (auto simp: bind_result_Inr_iff list_all2_Cons1)

text \<open>Python's \<open>x or y\<close> for an optional float: \<open>None\<close> and zero are both false.\<close>

definition or_float :: "real option \<Rightarrow> real \<Rightarrow> real" where
  "or_float x y = (case x of None \<Rightarrow> y | Some v \<Rightarrow> if v = 0 then y else v)"

definition or_default :: "'a option \<Rightarrow> 'a \<Rightarrow> 'a" where
  "or_default x y = (case x of None \<Rightarrow> y | Some v \<Rightarrow> v)"

lemma or_float_simps [simp]:
  "or_float None y = y"
  "v \<noteq> 0 \<Longrightarrow> or_float (Some v) y = v"
  "or_float (Some 0) y = y"
  by (simp_all add: or_float_def)

lemma or_default_simps [simp]:
  "or_default None y = y"
  "or_default (Some v) y = v"
  by (simp_all add: or_default_def)

text \<open>Order-preserving removal of duplicates, \<open>list(dict.fromkeys(xs))\<close>.\<close>

fun fromkeys_from :: "'a list \<Rightarrow> 'a list \<Rightarrow> 'a list" where
  "fromkeys_from seen [] = []"
| "fromkeys_from seen (x # xs) =
     (if x \<in> set seen then fromkeys_from seen xs else x # fromkeys_from (x # seen) xs)"

definition fromkeys :: "'a list \<Rightarrow> 'a list" where
  "fromkeys xs = fromkeys_from [] xs"

lemma set_fromkeys_from: "set (fromkeys_from seen xs) = set xs - set seen"
  by (induction seen xs rule: fromkeys_from.induct) auto

lemma distinct_fromkeys_from: "distinct (fromkeys_from seen xs)"
  by (induction seen xs rule: fromkeys_from.induct) (auto simp: set_fromkeys_from)

lemma set_fromkeys [simp]: "set (fromkeys xs) = set xs"
  by (simp add: fromkeys_def set_fromkeys_from)

lemma distinct_fromkeys [simp]: "distinct (fromkeys xs)"
  by (simp add: fromkeys_def distinct_fromkeys_from)

text \<open>Text: characters are the 8-bit ones of HOL, read as code points below 256. \<open>strip\<close> removes
  the white space Python strips among those, \<open>upper\<close> and \<open>lower\<close> map the ASCII letters, and \<open>nat_text\<close> is
  the decimal \<open>str(n)\<close>.\<close>

definition is_space :: "char \<Rightarrow> bool" where
  "is_space c = (of_char c \<in> {9..13 :: nat} \<union> {28..32} \<union> {133, 160})"

definition strip :: "string \<Rightarrow> string" where
  "strip s = rev (dropWhile is_space (rev (dropWhile is_space s)))"

definition upper_char :: "char \<Rightarrow> char" where
  "upper_char c = (if of_char c \<in> {97..122 :: nat} then char_of (of_char c - (32 :: nat)) else c)"

definition upper :: "string \<Rightarrow> string" where
  "upper s = map upper_char s"

definition lower_char :: "char \<Rightarrow> char" where
  "lower_char c = (if of_char c \<in> {65..90 :: nat} then char_of (of_char c + (32 :: nat)) else c)"

definition lower :: "string \<Rightarrow> string" where
  "lower s = map lower_char s"

definition removeprefix :: "string \<Rightarrow> string \<Rightarrow> string" where
  "removeprefix p s = (if take (length p) s = p then drop (length p) s else s)"

fun nat_text :: "nat \<Rightarrow> string" where
  "nat_text n = (if n < 10 then [char_of (48 + n)] else nat_text (n div 10) @ [char_of (48 + n mod 10)])"

declare nat_text.simps [simp del]

text \<open>What \<open>float(x)\<close> and \<open>math.isfinite\<close> can make of an argument of any type: a finite
  number, an infinity or NaN, or an exception.\<close>

datatype py_number = Number real | NonFinite | NotNumeric

fun finite_fraction :: "py_number \<Rightarrow> real" where
  "finite_fraction (Number x) = max 0 x"
| "finite_fraction NonFinite = 0"
| "finite_fraction NotNumeric = 0"

lemma finite_fraction_nonneg [simp]: "0 \<le> finite_fraction x"
  by (cases x) auto

text \<open>Rewriting one element of a table whose keys are distinct.\<close>

lemma sum_list_update_key [ledger_simps]:
  fixes f :: "'a \<Rightarrow> 'b::ab_group_add"
  assumes "distinct (map k xs)" and "x \<in> set xs"
  shows "sum_list (map (\<lambda>y. f (if k y = k x then g y else y)) xs) = sum_list (map f xs) - f x + f (g x)"
  using assms
proof (induction xs)
  case (Cons y ys)
  show ?case
  proof (cases "y = x")
    case True
    with Cons.prems have "\<forall>z\<in>set ys. k z \<noteq> k x" by (fastforce simp: image_iff)
    then have "map (\<lambda>z. f (if k z = k x then g z else z)) ys = map f ys"
      by (intro map_cong) auto
    with True show ?thesis by (simp only: list.map sum_list.Cons) simp
  next
    case False
    with Cons.prems have "k y \<noteq> k x" and "x \<in> set ys" by auto
    with Cons show ?thesis by simp
  qed
qed simp

lemma find_new: "\<forall>y\<in>set xs. \<not> P y \<Longrightarrow> P x \<Longrightarrow> find P (xs @ [x]) = Some x"
  by (induction xs) auto

lemma find_result: "find P xs = Some x \<Longrightarrow> x \<in> set xs \<and> P x"
  by (induction xs) (auto split: if_splits)

subsection \<open>Dictionaries\<close>

definition dict_get :: "('k, 'v) dict \<Rightarrow> 'k \<Rightarrow> 'v option" where
  "dict_get d k = map_of d k"

definition dict_set :: "'k \<Rightarrow> 'v \<Rightarrow> ('k, 'v) dict \<Rightarrow> ('k, 'v) dict" where
  "dict_set k v d = AList.update k v d"

definition dict_values :: "('k, 'v) dict \<Rightarrow> 'v list" where
  "dict_values d = map snd d"

definition dict_ok :: "('k, 'v) dict \<Rightarrow> bool" where
  "dict_ok d \<longleftrightarrow> distinct (map fst d)"

locale dictionary =
  fixes get :: "'m \<Rightarrow> 'k \<Rightarrow> 'v option"
    and put :: "'k \<Rightarrow> 'v \<Rightarrow> 'm \<Rightarrow> 'm"
    and ok :: "'m \<Rightarrow> bool"
  assumes get_put: "get (put k v m) k' = (if k' = k then Some v else get m k')"
    and ok_put: "ok m \<Longrightarrow> ok (put k v m)"
begin

lemma get_put_same: "get (put k v m) k = Some v"
  by (simp add: get_put)

lemma get_put_other: "k' \<noteq> k \<Longrightarrow> get (put k v m) k' = get m k'"
  by (simp add: get_put)

lemma put_shadow: "get (put k w (put k v m)) = get (put k w m)"
  by (rule ext) (simp add: get_put)

end

interpretation od: dictionary dict_get dict_set dict_ok
  by unfold_locales
    (auto simp: dict_get_def dict_set_def dict_ok_def update_conv' distinct_update)

lemmas dict_simps [simp] = od.get_put_same od.get_put_other

lemma dict_get_Nil [simp]: "dict_get [] k = None"
  by (simp add: dict_get_def)

lemma dict_ok_Nil [simp]: "dict_ok []"
  by (simp add: dict_ok_def)

lemma dict_set_Nil [simp]: "dict_set k v [] = [(k, v)]"
  by (simp add: dict_set_def)

lemma dict_set_Cons [simp]:
  "dict_set k v ((k', w) # d) = (if k' = k then (k, v) # d else (k', w) # dict_set k v d)"
  by (simp add: dict_set_def)

lemma dict_get_Cons [simp]:
  "dict_get ((k', w) # d) k = (if k = k' then Some w else dict_get d k)"
  by (simp add: dict_get_def)

lemma dict_get_in: "dict_get d k = Some v \<Longrightarrow> (k, v) \<in> set d"
  by (simp add: dict_get_def map_of_SomeD)

lemma dict_get_eq_None: "dict_get d k = None \<longleftrightarrow> k \<notin> fst ` set d"
  by (simp add: dict_get_def map_of_eq_None_iff)

lemma in_dict_get: "dict_ok d \<Longrightarrow> (k, v) \<in> set d \<Longrightarrow> dict_get d k = Some v"
  by (simp add: dict_ok_def dict_get_def)

lemma dict_set_fresh: "dict_get d k = None \<Longrightarrow> dict_set k v d = d @ [(k, v)]"
  by (induction d) (auto split: if_splits)

text \<open>Sums over the values of a dictionary, and how one write changes them.\<close>

definition dict_sum :: "('v \<Rightarrow> real) \<Rightarrow> ('k, 'v) dict \<Rightarrow> real" where
  "dict_sum f d = sum_list (map (\<lambda>(k, v). f v) d)"

lemma dict_sum_simps [simp]:
  "dict_sum f [] = 0"
  "dict_sum f ((k, v) # d) = f v + dict_sum f d"
  by (simp_all add: dict_sum_def)

lemma dict_sum_set_new [ledger_simps]:
  "dict_get d k = None \<Longrightarrow> dict_sum f (dict_set k v d) = dict_sum f d + f v"
  by (induction d) (auto split: if_splits)

lemma dict_sum_set_old [ledger_simps]:
  "dict_get d k = Some w \<Longrightarrow> dict_sum f (dict_set k v d) = dict_sum f d - f w + f v"
  by (induction d) (auto split: if_splits)

lemma dict_sum_nonneg: "(\<And>k v. (k, v) \<in> set d \<Longrightarrow> 0 \<le> f v) \<Longrightarrow> 0 \<le> dict_sum f d"
proof (induction d)
  case (Cons x d)
  then have "0 \<le> f (snd x)" and "0 \<le> dict_sum f d" by (cases x; auto)+
  then show ?case by (cases x) simp
qed simp

lemma set_dict_set: "set (dict_set k v d) \<subseteq> insert (k, v) (set d)"
  by (induction d) (auto split: if_splits)

lemma dict_set_all:
  "\<forall>(k, v) \<in> set d. P k v \<Longrightarrow> P k v \<Longrightarrow> \<forall>(k, v) \<in> set (dict_set k v d). P k v"
  using set_dict_set [of k v d] by blast

lemma list_all_True [simp]: "list_all (\<lambda>_. True) xs"
  by (induction xs) auto

subsection \<open>Screened collections\<close>

text \<open>
  \<open>for i, x in enumerate(xs)\<close>, and the contract of a loop that enters each acceptable element
  into a dictionary once and reports every other element with at least one error.
\<close>

fun enumerate_fold :: "(nat \<Rightarrow> 'a \<Rightarrow> 's \<Rightarrow> 's) \<Rightarrow> nat \<Rightarrow> 'a list \<Rightarrow> 's \<Rightarrow> 's" where
  "enumerate_fold step i [] s = s"
| "enumerate_fold step i (x # xs) s = enumerate_fold step (Suc i) xs (step i x s)"

lemma not_in_image: "a \<notin> f ` A \<longleftrightarrow> (\<forall>x\<in>A. f x \<noteq> a)"
  by auto

locale screening =
  fixes screen :: "nat \<Rightarrow> 'c \<Rightarrow> ('k, 'v) dict \<times> string list \<Rightarrow> ('k, 'v) dict \<times> string list"
    and wf :: "'c \<Rightarrow> bool"
    and key :: "'c \<Rightarrow> 'k"
    and norm :: "'c \<Rightarrow> 'v"
  assumes accept: "wf c \<Longrightarrow> dict_get d (key c) = None \<Longrightarrow> screen i c (d, es) = (d @ [(key c, norm c)], es)"
    and reject: "\<not> (wf c \<and> dict_get d (key c) = None) \<Longrightarrow> \<exists>e. e \<noteq> [] \<and> screen i c (d, es) = (d, es @ e)"
begin

definition entered :: "('k, 'v) dict \<Rightarrow> bool" where
  "entered d \<longleftrightarrow> dict_ok d \<and> (\<forall>(k, v)\<in>set d. \<exists>c. wf c \<and> k = key c \<and> v = norm c)"

lemma entered_step: "entered d \<Longrightarrow> entered (fst (screen i c (d, es)))"
  using accept [of c d i es] reject [of c d i es]
  by (cases "wf c \<and> dict_get d (key c) = None")
    (auto simp: entered_def dict_ok_def dict_get_eq_None)

lemma all_entered: "entered d \<Longrightarrow> entered (fst (enumerate_fold screen i cs (d, es)))"
proof (induction cs arbitrary: i d es)
  case (Cons c cs)
  with entered_step [of d i c es] show ?case by (cases "screen i c (d, es)") simp
qed simp

lemma errors_grow: "length es \<le> length (snd (enumerate_fold screen i cs (d, es)))"
proof (induction cs arbitrary: i d es)
  case (Cons c cs)
  have "length es \<le> length (snd (screen i c (d, es)))"
    using accept [of c d i es] reject [of c d i es]
    by (cases "wf c \<and> dict_get d (key c) = None") auto
  with Cons.IH [of "snd (screen i c (d, es))" "Suc i" "fst (screen i c (d, es))"] show ?case by simp
qed simp

lemma clean:
  "length (snd (enumerate_fold screen i cs (d, es))) = length es \<longleftrightarrow>
     (\<forall>c\<in>set cs. wf c \<and> dict_get d (key c) = None) \<and> distinct (map key cs)"
proof (induction cs arbitrary: i d es)
  case (Cons c cs)
  show ?case
  proof (cases "wf c \<and> dict_get d (key c) = None")
    case True
    have "dict_get (d @ [(key c, norm c)]) k = (case dict_get d k of None \<Rightarrow> dict_get [(key c, norm c)] k | r \<Rightarrow> r)" for k
      by (simp add: dict_get_def map_add_def split: option.splits)
    with True Cons.IH [of "Suc i" "d @ [(key c, norm c)]" es] show ?thesis
      by (auto simp: accept not_in_image split: option.splits if_splits)
  next
    case False
    then obtain e where e: "e \<noteq> []" "screen i c (d, es) = (d, es @ e)" using reject by blast
    with errors_grow [of "es @ e" "Suc i" cs d]
    have "length (snd (enumerate_fold screen i (c # cs) (d, es))) \<noteq> length es" by auto
    with False show ?thesis by auto
  qed
qed simp

lemma clean_result:
  "\<forall>c\<in>set cs. wf c \<and> dict_get d (key c) = None \<Longrightarrow> distinct (map key cs) \<Longrightarrow>
     enumerate_fold screen i cs (d, es) = (d @ map (\<lambda>c. (key c, norm c)) cs, es)"
proof (induction cs arbitrary: i d)
  case (Cons c cs)
  have "dict_get (d @ [(key c, norm c)]) (key c') = None" if "c' \<in> set cs" for c'
    using that Cons.prems by (auto simp: dict_get_def map_add_def not_in_image split: option.splits)
  with Cons show ?case by (simp add: accept)
qed simp

end

subsection \<open>Machines\<close>

text \<open>
  A deterministic machine: each event gives a new state and a list of outputs. A run
  threads the state through a list of events and concatenates the outputs.
\<close>

fun run_machine :: "('s \<Rightarrow> 'e \<Rightarrow> 's \<times> 'o list) \<Rightarrow> 's \<Rightarrow> 'e list \<Rightarrow> 's \<times> 'o list" where
  "run_machine step s [] = (s, [])"
| "run_machine step s (e # es) =
     (let (s', out) = step s e; (s'', outs) = run_machine step s' es in (s'', out @ outs))"

locale invariant_machine =
  fixes step :: "'s \<Rightarrow> 'e \<Rightarrow> 's \<times> 'o list"
    and allowed :: "'e \<Rightarrow> bool"
    and inv :: "'s \<Rightarrow> bool"
  assumes step_inv: "inv s \<Longrightarrow> allowed e \<Longrightarrow> inv (fst (step s e))"
begin

lemma run_inv: "inv s \<Longrightarrow> list_all allowed es \<Longrightarrow> inv (fst (run_machine step s es))"
proof (induction es arbitrary: s)
  case Nil
  then show ?case by simp
next
  case (Cons e es)
  then have "inv (fst (step s e))" by (simp add: step_inv)
  with Cons show ?case by (simp add: split_beta Let_def)
qed

end

text \<open>
  A potential accounts for the outputs: what a step emits is what the potential gains.
  Over a run the emitted weight is then the difference of two potentials, so a bounded
  potential bounds everything the machine ever emits.
\<close>

locale potential_machine = invariant_machine +
  fixes weight :: "'o \<Rightarrow> real"
    and potential :: "'s \<Rightarrow> real"
  assumes step_potential:
    "inv s \<Longrightarrow> allowed e \<Longrightarrow>
       sum_list (map weight (snd (step s e))) = potential (fst (step s e)) - potential s"
begin

lemma run_potential:
  "inv s \<Longrightarrow> list_all allowed es \<Longrightarrow>
     sum_list (map weight (snd (run_machine step s es)))
       = potential (fst (run_machine step s es)) - potential s"
proof (induction es arbitrary: s)
  case Nil
  then show ?case by simp
next
  case (Cons e es)
  then have "inv (fst (step s e))" by (simp add: step_inv)
  with Cons step_potential [of s e] show ?case by (simp add: split_beta Let_def)
qed

lemma run_bounded:
  assumes "inv s" and "list_all allowed es"
    and "0 \<le> potential s"
    and "potential (fst (run_machine step s es)) \<le> b"
  shows "sum_list (map weight (snd (run_machine step s es))) \<le> b"
  using run_potential [of s es] assms by simp

end

end
