(* ===== verification/Models.thy ===== *)
theory Models
  imports Prelude
begin

text \<open>
  The value types of \<open>models.py\<close> and the frozen configuration of \<open>config.py\<close>: wallet tiers,
  candidate states, trade intents, risk snapshots, signals, candidates, simulated fills,
  paper positions and trade outcomes.
\<close>

datatype wallet_tier = Tier_S | Tier_A | Tier_B | Tier_REJECT

datatype candidate_status =
    WAITING_CONFIRMATION | CONFIRMED | REJECTED | EXPIRED | CLOSED

datatype intent_kind =
    OPEN_STARTER | OPEN_FULL | ADD_CONFIRMATION | EXIT_STARTER | EXIT_THESIS
  | EXIT_STOP | HARVEST | EXIT_RUNNER

fun intent_kind_value :: "intent_kind \<Rightarrow> string" where
  "intent_kind_value OPEN_STARTER = ''open_starter''"
| "intent_kind_value OPEN_FULL = ''open_full''"
| "intent_kind_value ADD_CONFIRMATION = ''add_confirmation''"
| "intent_kind_value EXIT_STARTER = ''exit_starter''"
| "intent_kind_value EXIT_THESIS = ''exit_thesis''"
| "intent_kind_value EXIT_STOP = ''exit_stop''"
| "intent_kind_value HARVEST = ''harvest''"
| "intent_kind_value EXIT_RUNNER = ''exit_runner''"

record risk_snapshot =
  rs_observed_at :: datetime
  early_buyers_exiting :: bool
  bundled_launch :: bool
  sniper_heavy :: bool
  abnormal_sell_pressure :: bool
  common_funded_early_wallet_cluster :: bool
  scout_deployer_connection :: bool
  dangerous_authority :: bool
  unacceptable_liquidity :: bool
  stale :: bool

definition blockers :: "risk_snapshot \<Rightarrow> string list" where
  "blockers r = map fst (filter snd
     [(''early_buyers_exiting'', early_buyers_exiting r),
      (''bundled_launch'', bundled_launch r),
      (''sniper_heavy'', sniper_heavy r),
      (''abnormal_sell_pressure'', abnormal_sell_pressure r),
      (''common_funded_early_wallet_cluster'', common_funded_early_wallet_cluster r),
      (''scout_deployer_connection'', scout_deployer_connection r),
      (''dangerous_authority'', dangerous_authority r),
      (''unacceptable_liquidity'', unacceptable_liquidity r),
      (''stale'', stale r)])"

definition clean :: "risk_snapshot \<Rightarrow> bool" where
  "clean r = (blockers r = [])"

lemma clean_iff:
  "clean r \<longleftrightarrow> \<not> early_buyers_exiting r \<and> \<not> bundled_launch r \<and> \<not> sniper_heavy r
     \<and> \<not> abnormal_sell_pressure r \<and> \<not> common_funded_early_wallet_cluster r
     \<and> \<not> scout_deployer_connection r \<and> \<not> dangerous_authority r
     \<and> \<not> unacceptable_liquidity r \<and> \<not> stale r"
  by (auto simp: clean_def blockers_def split: if_splits)

text \<open>A snapshot with every flag at its default, for concrete runs.\<close>

definition clean_snapshot :: "datetime \<Rightarrow> risk_snapshot" where
  "clean_snapshot t = \<lparr>rs_observed_at = t, early_buyers_exiting = False,
     bundled_launch = False, sniper_heavy = False, abnormal_sell_pressure = False,
     common_funded_early_wallet_cluster = False, scout_deployer_connection = False,
     dangerous_authority = False, unacceptable_liquidity = False, stale = False\<rparr>"

lemma clean_snapshot_clean [simp]: "clean (clean_snapshot t)"
  by (simp add: clean_iff clean_snapshot_def)

record wallet_touch =
  wt_token_mint :: string
  wt_wallet :: string
  wt_entity_id :: string
  wt_observed_at :: datetime
  wt_reference_price :: real
  wt_market_cap_usd :: "real option"
  wt_tier :: wallet_tier
  wt_historically_eligible :: bool

record confirmation =
  cn_token_mint :: string
  cn_wallet :: string
  cn_entity_id :: string
  cn_observed_at :: datetime
  cn_reference_price :: real
  cn_historically_eligible :: bool

record trade_intent =
  ti_kind :: intent_kind
  ti_token_mint :: string
  ti_observed_at :: datetime
  ti_fraction_of_full_position :: real
  ti_reason :: string

record candidate =
  ca_token_mint :: string
  ca_scout_wallet :: string
  ca_scout_entity_id :: string
  ca_scout_tier :: wallet_tier
  ca_first_touch_at :: datetime
  ca_scout_reference_price :: real
  ca_risk_at_entry :: risk_snapshot
  ca_status :: candidate_status
  ca_confirmed_at :: "datetime option"
  ca_confirmation_wallet :: "string option"
  ca_confirmation_entity_id :: "string option"
  ca_full_entry_reference_price :: "real option"
  ca_harvest_triggered :: bool
  ca_runner_high_water_price :: "real option"
  ca_closed_reason :: "string option"

datatype fill_side = Buy | Sell

record simulated_fill =
  fl_token_mint :: string
  fl_side :: fill_side
  fl_observed_at :: datetime
  fl_reference_price :: real
  fl_fill_price :: real
  fl_notional_usd :: real
  fl_units :: real
  fl_execution_drag_usd :: real
  fl_intent :: intent_kind

record paper_position =
  po_token_mint :: string
  po_scout_wallet :: string
  po_opened_at :: datetime
  po_units :: real
  po_cost_basis_usd :: real
  po_entry_capital_usd :: real
  po_realized_pnl_usd :: real
  po_harvest_hit :: bool
  po_runner_units :: real
  po_high_water_price :: "real option"
  po_closed_at :: "datetime option"
  po_closed_reason :: "string option"
  po_fills :: "simulated_fill list"

definition new_position :: "string \<Rightarrow> string \<Rightarrow> datetime \<Rightarrow> paper_position" where
  "new_position mint wallet opened =
     \<lparr>po_token_mint = mint, po_scout_wallet = wallet, po_opened_at = opened,
      po_units = 0, po_cost_basis_usd = 0, po_entry_capital_usd = 0,
      po_realized_pnl_usd = 0, po_harvest_hit = False, po_runner_units = 0,
      po_high_water_price = None, po_closed_at = None, po_closed_reason = None,
      po_fills = []\<rparr>"

definition average_entry_price :: "paper_position \<Rightarrow> real option" where
  "average_entry_price p =
     (if po_units p > 0 then Some (po_cost_basis_usd p / po_units p) else None)"

definition is_open :: "paper_position \<Rightarrow> bool" where
  "is_open p = (po_units p > 0 \<and> po_closed_at p = None)"

record trade_outcome =
  to_token_mint :: string
  to_scout_wallet :: string
  to_opened_at :: datetime
  to_closed_at :: datetime
  to_starting_nav_usd :: real
  to_ending_nav_usd :: real
  to_net_pnl_usd :: real
  to_return_on_starting_nav :: real
  to_harvest_hit :: bool
  to_closed_reason :: string

subsection \<open>Configuration\<close>

record strategy_config =
  cf_version :: string
  cf_paper_only :: bool
  cf_initial_capital_usd :: real
  cf_bankroll_risk_fraction :: real
  cf_catastrophic_stop_fraction :: real
  cf_starter_fraction :: real
  cf_confirmation_window_seconds :: real
  cf_max_chase_fraction :: real
  cf_stagnation_check_seconds :: real
  cf_thesis_timeout_seconds :: real
  cf_harvest_gain_fraction :: real
  cf_harvest_fraction :: real
  cf_runner_fraction :: real
  cf_runner_trailing_drawdown_fraction :: real
  cf_execution_drag_per_side_fraction :: real
  cf_certification_min_closed_trades :: nat
  cf_certification_confidence :: real
  cf_certification_break_even_hit_rate :: real

definition BASELINE :: strategy_config where
  "BASELINE = \<lparr>cf_version = ''roi-convergence-v3.1-forward-1'',
     cf_paper_only = True,
     cf_initial_capital_usd = 500,
     cf_bankroll_risk_fraction = 75 / 10000,
     cf_catastrophic_stop_fraction = 30 / 100,
     cf_starter_fraction = 30 / 100,
     cf_confirmation_window_seconds = 20,
     cf_max_chase_fraction = 15 / 100,
     cf_stagnation_check_seconds = 90,
     cf_thesis_timeout_seconds = 180,
     cf_harvest_gain_fraction = 50 / 100,
     cf_harvest_fraction = 70 / 100,
     cf_runner_fraction = 30 / 100,
     cf_runner_trailing_drawdown_fraction = 40 / 100,
     cf_execution_drag_per_side_fraction = 25 / 1000,
     cf_certification_min_closed_trades = 300,
     cf_certification_confidence = 95 / 100,
     cf_certification_break_even_hit_rate = 5749 / 10000\<rparr>"

definition full_position_fraction_of_nav :: "strategy_config \<Rightarrow> real result" where
  "full_position_fraction_of_nav cf =
     py_div (cf_bankroll_risk_fraction cf) (cf_catastrophic_stop_fraction cf)"

text \<open>What the numeric fields of a usable configuration satisfy.\<close>

definition config_ok :: "strategy_config \<Rightarrow> bool" where
  "config_ok cf \<longleftrightarrow>
     0 < cf_initial_capital_usd cf \<and> 0 \<le> cf_bankroll_risk_fraction cf
   \<and> 0 < cf_catastrophic_stop_fraction cf
   \<and> 0 \<le> cf_starter_fraction cf \<and> cf_starter_fraction cf \<le> 1
   \<and> 0 \<le> cf_harvest_fraction cf \<and> cf_harvest_fraction cf \<le> 1
   \<and> 0 \<le> cf_execution_drag_per_side_fraction cf
   \<and> cf_execution_drag_per_side_fraction cf \<le> 1"

lemma BASELINE_simps [simp]:
  "cf_paper_only BASELINE"
  "cf_initial_capital_usd BASELINE = 500"
  "cf_bankroll_risk_fraction BASELINE = 75 / 10000"
  "cf_catastrophic_stop_fraction BASELINE = 30 / 100"
  "cf_starter_fraction BASELINE = 30 / 100"
  "cf_confirmation_window_seconds BASELINE = 20"
  "cf_max_chase_fraction BASELINE = 15 / 100"
  "cf_stagnation_check_seconds BASELINE = 90"
  "cf_thesis_timeout_seconds BASELINE = 180"
  "cf_harvest_gain_fraction BASELINE = 50 / 100"
  "cf_harvest_fraction BASELINE = 70 / 100"
  "cf_runner_trailing_drawdown_fraction BASELINE = 40 / 100"
  "cf_execution_drag_per_side_fraction BASELINE = 25 / 1000"
  "cf_certification_min_closed_trades BASELINE = 300"
  "cf_certification_break_even_hit_rate BASELINE = 5749 / 10000"
  by (simp_all add: BASELINE_def)

lemma BASELINE_ok [simp]: "config_ok BASELINE"
  by (simp add: config_ok_def)

lemma config_ok_sizing:
  "config_ok cf \<Longrightarrow> \<exists>f\<ge>0. full_position_fraction_of_nav cf = Inr f"
  by (auto simp: config_ok_def full_position_fraction_of_nav_def)

end
