(* ===== verification/Strategy.thy ===== *)
theory Strategy
  imports Models
begin

text \<open>
  The frozen forward baseline of \<open>strategy.py\<close>: a deterministic state machine over the
  candidates, keyed by token mint. \<open>first_touch\<close>, \<open>confirm\<close> and \<open>on_clock\<close> follow the
  three methods of \<open>RoiConvergenceStrategy\<close>; the two that divide by a price raise before
  they change anything, so their error carries no state. The lemmas give the permitted
  status transitions, the exact guard of every transition, and three potentials (position
  opened, exits, harvests) that account for every intent the machine ever emits.
\<close>

record strategy =
  st_config :: strategy_config
  st_candidates :: "string \<rightharpoonup> candidate"

definition new_strategy :: "strategy_config \<Rightarrow> strategy" where
  "new_strategy cf = \<lparr>st_config = cf, st_candidates = Map.empty\<rparr>"

definition put_candidate :: "string \<Rightarrow> candidate \<Rightarrow> strategy \<Rightarrow> strategy" where
  "put_candidate m c s = s\<lparr>st_candidates := (st_candidates s)(m \<mapsto> c)\<rparr>"

definition new_candidate :: "wallet_touch \<Rightarrow> risk_snapshot \<Rightarrow> candidate" where
  "new_candidate w r = \<lparr>ca_token_mint = wt_token_mint w, ca_scout_wallet = wt_wallet w,
     ca_scout_entity_id = wt_entity_id w, ca_scout_tier = wt_tier w,
     ca_first_touch_at = wt_observed_at w, ca_scout_reference_price = wt_reference_price w,
     ca_risk_at_entry = r, ca_status = WAITING_CONFIRMATION, ca_confirmed_at = None,
     ca_confirmation_wallet = None, ca_confirmation_entity_id = None,
     ca_full_entry_reference_price = None, ca_harvest_triggered = False,
     ca_runner_high_water_price = None, ca_closed_reason = None\<rparr>"

fun join_commas :: "string list \<Rightarrow> string" where
  "join_commas [] = ''''"
| "join_commas [x] = x"
| "join_commas (x # xs) = x @ '','' @ join_commas xs"

definition intent :: "intent_kind \<Rightarrow> string \<Rightarrow> datetime \<Rightarrow> real \<Rightarrow> string \<Rightarrow> trade_intent" where
  "intent k m t f why = \<lparr>ti_kind = k, ti_token_mint = m, ti_observed_at = t,
     ti_fraction_of_full_position = f, ti_reason = why\<rparr>"

definition first_touch ::
  "strategy \<Rightarrow> wallet_touch \<Rightarrow> risk_snapshot \<Rightarrow> strategy \<times> trade_intent list" where
  "first_touch s w r =
     (if st_candidates s (wt_token_mint w) \<noteq> None then (s, [])
      else if \<not> wt_historically_eligible w \<or> wt_tier w \<notin> {Tier_S, Tier_A} then (s, [])
      else let c = new_candidate w r in
        if \<not> clean r then
          (put_candidate (wt_token_mint w)
             (c\<lparr>ca_status := REJECTED,
                ca_closed_reason := Some (''risk_veto:'' @ join_commas (blockers r))\<rparr>) s, [])
        else if wt_tier w = Tier_S then
          (put_candidate (wt_token_mint w) c s,
           [intent OPEN_STARTER (wt_token_mint w) (wt_observed_at w)
              (cf_starter_fraction (st_config s)) ''clean S-tier first touch''])
        else (put_candidate (wt_token_mint w) c s, []))"

definition confirm ::
  "strategy \<Rightarrow> confirmation \<Rightarrow> risk_snapshot \<Rightarrow> (strategy \<times> trade_intent list) result" where
  "confirm s n r =
     (case st_candidates s (cn_token_mint n) of
        None \<Rightarrow> Inr (s, [])
      | Some c \<Rightarrow>
          if ca_status c \<noteq> WAITING_CONFIRMATION then Inr (s, [])
          else let age = total_seconds (cn_observed_at n - ca_first_touch_at c) in
            if age < 0 \<or> age > cf_confirmation_window_seconds (st_config s)
               \<or> \<not> cn_historically_eligible n then Inr (s, [])
            else if cn_entity_id n = ca_scout_entity_id c \<or> \<not> clean r then Inr (s, [])
            else bind_result (py_div (cn_reference_price n) (ca_scout_reference_price c))
              (\<lambda>q. if q - 1 > cf_max_chase_fraction (st_config s) then Inr (s, [])
                else let c' = c\<lparr>ca_status := CONFIRMED,
                        ca_confirmed_at := Some (cn_observed_at n),
                        ca_confirmation_wallet := Some (cn_wallet n),
                        ca_confirmation_entity_id := Some (cn_entity_id n),
                        ca_full_entry_reference_price := Some (cn_reference_price n)\<rparr>
                  in Inr (put_candidate (cn_token_mint n) c' s,
                    [if ca_scout_tier c = Tier_S
                     then intent ADD_CONFIRMATION (cn_token_mint n) (cn_observed_at n)
                            (1 - cf_starter_fraction (st_config s))
                            ''independent confirmation for S-tier starter''
                     else intent OPEN_FULL (cn_token_mint n) (cn_observed_at n) 1
                            ''independent confirmation for A-tier signal''])))"

definition close_candidate :: "candidate \<Rightarrow> string \<Rightarrow> candidate" where
  "close_candidate c why = c\<lparr>ca_status := CLOSED, ca_closed_reason := Some why\<rparr>"

text \<open>The part of \<open>on_clock\<close> that runs for a confirmed candidate with a price.\<close>

definition on_clock_confirmed ::
  "strategy \<Rightarrow> string \<Rightarrow> datetime \<Rightarrow> real \<Rightarrow> candidate \<Rightarrow> (strategy \<times> trade_intent list) result" where
  "on_clock_confirmed s m t price c =
     (let cf = st_config s;
          entry = or_float (ca_full_entry_reference_price c) (ca_scout_reference_price c);
          trade_age = total_seconds (t - or_default (ca_confirmed_at c) (ca_first_touch_at c))
      in bind_result (py_div price entry) (\<lambda>q.
        let gross_return = q - 1 in
        if \<not> ca_harvest_triggered c \<and> gross_return \<le> - cf_catastrophic_stop_fraction cf then
          Inr (put_candidate m (close_candidate c ''catastrophic_stop'') s,
               [intent EXIT_STOP m t 0 ''-30% catastrophic stop''])
        else if \<not> ca_harvest_triggered c \<and> gross_return \<ge> cf_harvest_gain_fraction cf then
          Inr (put_candidate m (c\<lparr>ca_harvest_triggered := True,
                                  ca_runner_high_water_price := Some price\<rparr>) s,
               [intent HARVEST m t (cf_harvest_fraction cf) ''+50% harvest; retain 30% runner''])
        else if ca_harvest_triggered c then
          (let high = max (or_float (ca_runner_high_water_price c) price) price;
               c' = c\<lparr>ca_runner_high_water_price := Some high\<rparr>;
               trail = or_float (Some high) price
                         * (1 - cf_runner_trailing_drawdown_fraction cf)
           in if price \<le> trail then
                Inr (put_candidate m (close_candidate c' ''runner_trailing_stop'') s,
                     [intent EXIT_RUNNER m t 0 ''40% runner trailing drawdown''])
              else Inr (put_candidate m c' s, []))
        else if trade_age \<ge> cf_stagnation_check_seconds cf \<and> gross_return \<le> 0 then
          Inr (put_candidate m (close_candidate c ''stagnation_exit'') s,
               [intent EXIT_THESIS m t 0 ''non-positive after 90 seconds''])
        else if trade_age \<ge> cf_thesis_timeout_seconds cf then
          Inr (put_candidate m (close_candidate c ''thesis_timeout'') s,
               [intent EXIT_THESIS m t 0 ''+50% thesis not reached within 180 seconds''])
        else Inr (s, [])))"

definition on_clock ::
  "strategy \<Rightarrow> string \<Rightarrow> datetime \<Rightarrow> real option \<Rightarrow> (strategy \<times> trade_intent list) result" where
  "on_clock s m t price =
     (case st_candidates s m of
        None \<Rightarrow> Inr (s, [])
      | Some c \<Rightarrow>
          if ca_status c \<in> {REJECTED, EXPIRED, CLOSED} then Inr (s, [])
          else if ca_status c = WAITING_CONFIRMATION
               \<and> total_seconds (t - ca_first_touch_at c)
                   > cf_confirmation_window_seconds (st_config s) then
            Inr (put_candidate m (c\<lparr>ca_status := EXPIRED,
                                    ca_closed_reason := Some ''confirmation_timeout''\<rparr>) s,
                 if ca_scout_tier c = Tier_S
                 then [intent EXIT_STARTER m t 0 ''no independent confirmation within 20 seconds'']
                 else [])
          else (case price of
             None \<Rightarrow> Inr (s, [])
           | Some p \<Rightarrow>
               if ca_status c \<noteq> CONFIRMED then Inr (s, [])
               else on_clock_confirmed s m t p c))"

subsection \<open>Events and runs\<close>

datatype strategy_event =
    Touch wallet_touch risk_snapshot
  | Confirm confirmation risk_snapshot
  | Clock string datetime "real option"

fun strategy_call :: "strategy \<Rightarrow> strategy_event \<Rightarrow> (strategy \<times> trade_intent list) result" where
  "strategy_call s (Touch w r) = Inr (first_touch s w r)"
| "strategy_call s (Confirm n r) = confirm s n r"
| "strategy_call s (Clock m t p) = on_clock s m t p"

text \<open>A call that raises leaves the object as it was and returns no intents.\<close>

definition strategy_step :: "strategy \<Rightarrow> strategy_event \<Rightarrow> strategy \<times> trade_intent list" where
  "strategy_step s e = (case strategy_call s e of Inl _ \<Rightarrow> (s, []) | Inr r \<Rightarrow> r)"

lemmas strategy_defs =
  first_touch_def confirm_def on_clock_def on_clock_confirmed_def put_candidate_def
  new_candidate_def close_candidate_def intent_def Let_def bind_result_def

lemmas strategy_splits =
  if_splits option.splits sum.splits prod.splits

lemma put_candidate_simps [simp]:
  "st_config (put_candidate m c s) = st_config s"
  "st_candidates (put_candidate m c s) k = (if k = m then Some c else st_candidates s k)"
  by (simp_all add: put_candidate_def)

lemma intent_simps [simp]:
  "ti_kind (intent k m t f why) = k"
  "ti_token_mint (intent k m t f why) = m"
  "ti_observed_at (intent k m t f why) = t"
  "ti_fraction_of_full_position (intent k m t f why) = f"
  "ti_reason (intent k m t f why) = why"
  by (simp_all add: intent_def)

lemma close_candidate_simps [simp]:
  "ca_status (close_candidate c why) = CLOSED"
  "ca_scout_tier (close_candidate c why) = ca_scout_tier c"
  "ca_harvest_triggered (close_candidate c why) = ca_harvest_triggered c"
  "ca_scout_wallet (close_candidate c why) = ca_scout_wallet c"
  by (simp_all add: close_candidate_def)

lemma new_candidate_simps [simp]:
  "ca_status (new_candidate w r) = WAITING_CONFIRMATION"
  "ca_scout_tier (new_candidate w r) = wt_tier w"
  "ca_harvest_triggered (new_candidate w r) = False"
  "ca_scout_wallet (new_candidate w r) = wt_wallet w"
  "ca_risk_at_entry (new_candidate w r) = r"
  by (simp_all add: new_candidate_def)


fun event_mint :: "strategy_event \<Rightarrow> string" where
  "event_mint (Touch w r) = wt_token_mint w"
| "event_mint (Confirm n r) = cn_token_mint n"
| "event_mint (Clock m t p) = m"

subsection \<open>The invariant of a candidate\<close>

definition confirmed_ok :: "strategy_config \<Rightarrow> candidate \<Rightarrow> bool" where
  "confirmed_ok cf c \<longleftrightarrow>
     (\<exists>t e p. ca_confirmed_at c = Some t \<and> ca_confirmation_entity_id c = Some e
        \<and> ca_full_entry_reference_price c = Some p
        \<and> e \<noteq> ca_scout_entity_id c
        \<and> 0 \<le> total_seconds (t - ca_first_touch_at c)
        \<and> total_seconds (t - ca_first_touch_at c) \<le> cf_confirmation_window_seconds cf
        \<and> ca_scout_reference_price c \<noteq> 0
        \<and> p / ca_scout_reference_price c - 1 \<le> cf_max_chase_fraction cf)"

definition candidate_ok :: "strategy_config \<Rightarrow> candidate \<Rightarrow> bool" where
  "candidate_ok cf c \<longleftrightarrow>
     ca_scout_tier c \<in> {Tier_S, Tier_A}
   \<and> (clean (ca_risk_at_entry c) \<longleftrightarrow> ca_status c \<noteq> REJECTED)
   \<and> (ca_status c \<in> {CONFIRMED, CLOSED} \<longrightarrow> confirmed_ok cf c)
   \<and> (ca_status c \<notin> {CONFIRMED, CLOSED} \<longrightarrow> \<not> ca_harvest_triggered c)
   \<and> (ca_harvest_triggered c \<longrightarrow> ca_runner_high_water_price c \<noteq> None)"

definition strategy_ok :: "strategy_config \<Rightarrow> strategy \<Rightarrow> bool" where
  "strategy_ok cf s \<longleftrightarrow>
     st_config s = cf \<and> (\<forall>m c. st_candidates s m = Some c \<longrightarrow> candidate_ok cf c)"

lemma strategy_ok_new [simp]: "strategy_ok cf (new_strategy cf)"
  by (simp add: strategy_ok_def new_strategy_def)

lemma strategy_ok_put:
  "strategy_ok cf s \<Longrightarrow> candidate_ok cf c \<Longrightarrow> strategy_ok cf (put_candidate m c s)"
  by (simp add: strategy_ok_def)

lemma strategy_okD: "strategy_ok cf s \<Longrightarrow> st_candidates s m = Some c \<Longrightarrow> candidate_ok cf c"
  by (simp add: strategy_ok_def)

lemma first_touch_ok: "strategy_ok cf s \<Longrightarrow> strategy_ok cf (fst (first_touch s w r))"
  by (auto simp: first_touch_def Let_def candidate_ok_def intro!: strategy_ok_put)

lemma confirm_ok:
  assumes ok: "strategy_ok cf s" and call: "confirm s n r = Inr (s', out)"
  shows "strategy_ok cf s'"
proof -
  from ok have "st_config s = cf" by (simp add: strategy_ok_def)
  with call ok show ?thesis
    by (auto simp: confirm_def Let_def bind_result_Inr_iff py_div_Inr_iff candidate_ok_def
        confirmed_ok_def dest!: strategy_okD split: option.splits if_splits
        intro!: strategy_ok_put)
qed

lemma candidate_ok_updates:
  "candidate_ok cf c \<Longrightarrow> ca_status c = CONFIRMED \<Longrightarrow> candidate_ok cf (close_candidate c why)"
  "candidate_ok cf c \<Longrightarrow> ca_status c = CONFIRMED \<Longrightarrow>
     candidate_ok cf (c\<lparr>ca_harvest_triggered := True, ca_runner_high_water_price := Some p\<rparr>)"
  "candidate_ok cf c \<Longrightarrow> candidate_ok cf (c\<lparr>ca_runner_high_water_price := Some p\<rparr>)"
  "candidate_ok cf c \<Longrightarrow> ca_status c = WAITING_CONFIRMATION \<Longrightarrow>
     candidate_ok cf (c\<lparr>ca_status := EXPIRED, ca_closed_reason := w\<rparr>)"
  by (auto simp: candidate_ok_def confirmed_ok_def close_candidate_def)

lemma on_clock_confirmed_ok:
  assumes "strategy_ok cf s" and "on_clock_confirmed s m t p c = Inr (s', out)"
    and "candidate_ok cf c" and "ca_status c = CONFIRMED"
  shows "strategy_ok cf s'"
  using assms
  by (auto simp: on_clock_confirmed_def Let_def bind_result_Inr_iff candidate_ok_updates
      split: if_splits intro!: strategy_ok_put)

text \<open>A call of \<open>on_clock\<close> either runs the confirmed part, lapses a waiting candidate, or does nothing.\<close>

lemma on_clock_cases:
  assumes "on_clock s m t po = Inr (s', out)"
  obtains (idle) "s' = s" "out = []"
  | (lapse) c where "st_candidates s m = Some c" "ca_status c = WAITING_CONFIRMATION"
      "cf_confirmation_window_seconds (st_config s) < total_seconds (t - ca_first_touch_at c)"
      "s' = put_candidate m (c\<lparr>ca_status := EXPIRED,
              ca_closed_reason := Some ''confirmation_timeout''\<rparr>) s"
      "out = (if ca_scout_tier c = Tier_S
              then [intent EXIT_STARTER m t 0 ''no independent confirmation within 20 seconds'']
              else [])"
  | (confirmed) c p where "st_candidates s m = Some c" "ca_status c = CONFIRMED" "po = Some p"
      "on_clock_confirmed s m t p c = Inr (s', out)"
proof (cases "st_candidates s m")
  case None
  with assms idle show ?thesis by (simp add: on_clock_def)
next
  case (Some c)
  note call = assms [unfolded on_clock_def Some option.case]
  show ?thesis
  proof (cases "ca_status c = CONFIRMED")
    case True
    show ?thesis
    proof (cases po)
      case None
      with call True show ?thesis by (intro idle) auto
    next
      case (Some p)
      with call True have "on_clock_confirmed s m t p c = Inr (s', out)" by simp
      with \<open>st_candidates s m = Some c\<close> True Some show ?thesis by (rule confirmed)
    qed
  next
    case False
    show ?thesis
    proof (cases "ca_status c = WAITING_CONFIRMATION \<and>
        cf_confirmation_window_seconds (st_config s) < total_seconds (t - ca_first_touch_at c)")
      case True
      with call show ?thesis by (intro lapse [OF Some]) auto
    next
      case Late: False
      with call False show ?thesis by (intro idle) (auto split: option.splits if_splits)
    qed
  qed
qed

lemma on_clock_ok:
  assumes ok: "strategy_ok cf s" and call: "on_clock s m t p = Inr (s', out)"
  shows "strategy_ok cf s'"
  using call
proof (cases rule: on_clock_cases)
  case idle
  with ok show ?thesis by simp
next
  case (lapse c)
  with ok show ?thesis by (simp add: strategy_ok_put strategy_okD candidate_ok_updates)
next
  case (confirmed c q)
  from ok confirmed(4) strategy_okD [OF ok confirmed(1)] confirmed(2) show ?thesis
    by (rule on_clock_confirmed_ok)
qed

lemma strategy_call_ok:
  "strategy_ok cf s \<Longrightarrow> strategy_call s e = Inr (s', out) \<Longrightarrow> strategy_ok cf s'"
proof (induction e)
  case (Touch w r)
  then show ?case using first_touch_ok [of cf s w r] by simp
next
  case (Confirm n r)
  then show ?case using confirm_ok [of cf s n r s' out] by simp
next
  case (Clock m t p)
  then show ?case using on_clock_ok [of cf s m t p s' out] by simp
qed

lemma strategy_step_ok: "strategy_ok cf s \<Longrightarrow> strategy_ok cf (fst (strategy_step s e))"
  by (cases "strategy_call s e") (auto simp: strategy_step_def dest: strategy_call_ok)

subsection \<open>The abstract lifecycle of one mint\<close>

text \<open>
  What the baseline promises about one token, without prices, clocks or wallets: the
  phases a mint passes through and the only intents each move may emit. The boolean of
  \<open>Waiting\<close> and \<open>Lapsed\<close> says whether a starter was bought, that of \<open>Holding\<close> and
  \<open>Done\<close> whether the harvest has happened.
\<close>

datatype phase =
    Absent | Vetoed | Waiting bool | Lapsed bool | Holding bool | Done bool

inductive phase_step ::
  "strategy_config \<Rightarrow> phase \<Rightarrow> (intent_kind \<times> real) list \<Rightarrow> phase \<Rightarrow> bool"
  for cf where
  stay: "phase_step cf p [] p"
| veto: "phase_step cf Absent [] Vetoed"
| watch: "phase_step cf Absent [] (Waiting False)"
| starter: "phase_step cf Absent [(OPEN_STARTER, cf_starter_fraction cf)] (Waiting True)"
| add: "phase_step cf (Waiting True) [(ADD_CONFIRMATION, 1 - cf_starter_fraction cf)] (Holding False)"
| full: "phase_step cf (Waiting False) [(OPEN_FULL, 1)] (Holding False)"
| lapse_starter: "phase_step cf (Waiting True) [(EXIT_STARTER, 0)] (Lapsed True)"
| lapse: "phase_step cf (Waiting False) [] (Lapsed False)"
| stop: "phase_step cf (Holding False) [(EXIT_STOP, 0)] (Done False)"
| thesis: "phase_step cf (Holding False) [(EXIT_THESIS, 0)] (Done False)"
| harvest: "phase_step cf (Holding False) [(HARVEST, cf_harvest_fraction cf)] (Holding True)"
| runner: "phase_step cf (Holding True) [(EXIT_RUNNER, 0)] (Done True)"

inductive_simps phase_step_from:
  "phase_step cf Vetoed out p" "phase_step cf (Lapsed b) out p" "phase_step cf (Done b) out p"

definition phase_of :: "candidate option \<Rightarrow> phase" where
  "phase_of co = (case co of None \<Rightarrow> Absent
     | Some c \<Rightarrow> (case ca_status c of
         REJECTED \<Rightarrow> Vetoed
       | WAITING_CONFIRMATION \<Rightarrow> Waiting (ca_scout_tier c = Tier_S)
       | EXPIRED \<Rightarrow> Lapsed (ca_scout_tier c = Tier_S)
       | CONFIRMED \<Rightarrow> Holding (ca_harvest_triggered c)
       | CLOSED \<Rightarrow> Done (ca_harvest_triggered c)))"

definition kinds :: "trade_intent list \<Rightarrow> (intent_kind \<times> real) list" where
  "kinds is = map (\<lambda>i. (ti_kind i, ti_fraction_of_full_position i)) is"

lemma kinds_simps [simp]:
  "kinds [] = []"
  "kinds (i # is) = (ti_kind i, ti_fraction_of_full_position i) # kinds is"
  by (simp_all add: kinds_def)

definition refines_phase ::
  "strategy_config \<Rightarrow> string \<Rightarrow> strategy \<Rightarrow> strategy \<Rightarrow> trade_intent list \<Rightarrow> bool" where
  "refines_phase cf m s s' out \<longleftrightarrow>
     st_config s' = st_config s
   \<and> (\<forall>k. k \<noteq> m \<longrightarrow> st_candidates s' k = st_candidates s k)
   \<and> (\<forall>i\<in>set out. ti_token_mint i = m)
   \<and> phase_step cf (phase_of (st_candidates s m)) (kinds out) (phase_of (st_candidates s' m))"

lemma refines_phase_refl [simp]: "refines_phase cf m s s []"
  by (simp add: refines_phase_def phase_step.stay)

lemma refines_phase_put:
  assumes "phase_step cf (phase_of (st_candidates s m)) (kinds out) (phase_of (Some c))"
    and "\<forall>i\<in>set out. ti_token_mint i = m"
  shows "refines_phase cf m s (put_candidate m c s) out"
  using assms by (simp add: refines_phase_def)

lemma first_touch_refines:
  "refines_phase (st_config s) (wt_token_mint w) s (fst (first_touch s w r)) (snd (first_touch s w r))"
  by (auto simp: first_touch_def Let_def phase_of_def intro!: refines_phase_put phase_step.intros)

lemma confirm_refines:
  assumes ok: "strategy_ok cf s" and call: "confirm s n r = Inr (s', out)"
  shows "refines_phase cf (cn_token_mint n) s s' out"
proof -
  have "st_config s = cf" and
    "\<And>c. st_candidates s (cn_token_mint n) = Some c \<Longrightarrow> ca_status c = WAITING_CONFIRMATION
        \<Longrightarrow> \<not> ca_harvest_triggered c"
    using ok by (auto simp: strategy_ok_def candidate_ok_def)
  with call show ?thesis
    by (auto simp: confirm_def Let_def bind_result_Inr_iff phase_of_def
        split: option.splits if_splits intro!: refines_phase_put phase_step.intros)
qed

lemma on_clock_confirmed_refines:
  assumes "on_clock_confirmed s m t p c = Inr (s', out)"
    and "st_candidates s m = Some c" and "ca_status c = CONFIRMED"
  shows "refines_phase (st_config s) m s s' out"
  using assms
  by (auto simp: on_clock_confirmed_def Let_def bind_result_Inr_iff phase_of_def
      split: if_splits intro!: refines_phase_put phase_step.intros)

lemma on_clock_refines:
  assumes "on_clock s m t p = Inr (s', out)"
  shows "refines_phase (st_config s) m s s' out"
  using assms
proof (cases rule: on_clock_cases)
  case idle
  then show ?thesis by simp
next
  case (lapse c)
  then show ?thesis
    by (auto simp: phase_of_def intro!: refines_phase_put phase_step.intros)
next
  case (confirmed c q)
  from confirmed(4,1,2) show ?thesis by (rule on_clock_confirmed_refines)
qed

lemma strategy_call_refines:
  assumes "strategy_ok cf s" and "strategy_call s e = Inr (s', out)"
  shows "refines_phase cf (event_mint e) s s' out"
  using assms(2)
proof (induction e)
  case (Touch w r)
  then show ?case using first_touch_refines [of s w r] assms(1) by (simp add: strategy_ok_def)
next
  case (Confirm n r)
  then show ?case using confirm_refines [OF assms(1)] by simp
next
  case (Clock m t p)
  then show ?case using on_clock_refines [of s m t p] assms(1) by (simp add: strategy_ok_def)
qed

lemma strategy_step_refines_phase:
  "strategy_ok cf s \<Longrightarrow>
     refines_phase cf (event_mint e) s (fst (strategy_step s e)) (snd (strategy_step s e))"
  by (cases "strategy_call s e") (auto simp: strategy_step_def dest: strategy_call_refines)

subsection \<open>Potentials\<close>

definition weigh :: "(intent_kind \<Rightarrow> real \<Rightarrow> real) \<Rightarrow> string \<Rightarrow> trade_intent \<Rightarrow> real" where
  "weigh f m i = (if ti_token_mint i = m
     then f (ti_kind i) (ti_fraction_of_full_position i) else 0)"

fun open_amount :: "intent_kind \<Rightarrow> real \<Rightarrow> real" where
  "open_amount OPEN_STARTER f = f"
| "open_amount OPEN_FULL f = f"
| "open_amount ADD_CONFIRMATION f = f"
| "open_amount _ f = 0"

fun exit_amount :: "intent_kind \<Rightarrow> real \<Rightarrow> real" where
  "exit_amount EXIT_STARTER f = 1"
| "exit_amount EXIT_THESIS f = 1"
| "exit_amount EXIT_STOP f = 1"
| "exit_amount EXIT_RUNNER f = 1"
| "exit_amount _ f = 0"

fun harvest_amount :: "intent_kind \<Rightarrow> real \<Rightarrow> real" where
  "harvest_amount HARVEST f = 1"
| "harvest_amount _ f = 0"

fun opened :: "strategy_config \<Rightarrow> phase \<Rightarrow> real" where
  "opened cf (Waiting b) = (if b then cf_starter_fraction cf else 0)"
| "opened cf (Lapsed b) = (if b then cf_starter_fraction cf else 0)"
| "opened cf (Holding b) = 1"
| "opened cf (Done b) = 1"
| "opened cf _ = 0"

fun exited :: "phase \<Rightarrow> real" where
  "exited (Lapsed b) = (if b then 1 else 0)"
| "exited (Done b) = 1"
| "exited _ = 0"

fun harvested :: "phase \<Rightarrow> real" where
  "harvested (Holding b) = (if b then 1 else 0)"
| "harvested (Done b) = (if b then 1 else 0)"
| "harvested _ = 0"

definition amount :: "(intent_kind \<Rightarrow> real \<Rightarrow> real) \<Rightarrow> (intent_kind \<times> real) list \<Rightarrow> real" where
  "amount f ks = sum_list (map (\<lambda>(k, x). f k x) ks)"

lemma amount_simps [simp]:
  "amount f [] = 0"
  "amount f ((k, x) # ks) = f k x + amount f ks"
  by (simp_all add: amount_def)

lemma phase_step_amounts:
  assumes "phase_step cf p ks q"
  shows "amount open_amount ks = opened cf q - opened cf p"
    and "amount exit_amount ks = exited q - exited p"
    and "amount harvest_amount ks = harvested q - harvested p"
  using assms by (cases; simp)+

lemma weigh_same:
  "\<forall>i\<in>set out. ti_token_mint i = m \<Longrightarrow> sum_list (map (weigh f m) out) = amount f (kinds out)"
  by (induction out) (auto simp: weigh_def)

lemma weigh_other:
  "\<forall>i\<in>set out. ti_token_mint i = m' \<Longrightarrow> m' \<noteq> m \<Longrightarrow> sum_list (map (weigh f m) out) = 0"
  by (induction out) (auto simp: weigh_def)

lemma step_potential_lift:
  assumes ok: "strategy_ok cf s"
    and lift: "\<And>p ks q. phase_step cf p ks q \<Longrightarrow> amount f ks = g q - g p"
  shows "sum_list (map (weigh f m) (snd (strategy_step s e)))
    = g (phase_of (st_candidates (fst (strategy_step s e)) m)) - g (phase_of (st_candidates s m))"
proof (cases "event_mint e = m")
  case True
  with strategy_step_refines_phase [OF ok, of e] show ?thesis
    by (auto simp: refines_phase_def weigh_same intro: lift)
next
  case False
  with strategy_step_refines_phase [OF ok, of e] show ?thesis
    by (auto simp: refines_phase_def intro: weigh_other)
qed

interpretation exposure: potential_machine strategy_step "\<lambda>_. True" "strategy_ok cf"
    "weigh open_amount m" "\<lambda>s. opened cf (phase_of (st_candidates s m))" for cf m
  by unfold_locales (simp_all add: strategy_step_ok step_potential_lift phase_step_amounts(1))

interpretation exits: potential_machine strategy_step "\<lambda>_. True" "strategy_ok cf"
    "weigh exit_amount m" "\<lambda>s. exited (phase_of (st_candidates s m))" for cf m
  by unfold_locales (simp_all add: strategy_step_ok step_potential_lift phase_step_amounts(2))

interpretation harvests: potential_machine strategy_step "\<lambda>_. True" "strategy_ok cf"
    "weigh harvest_amount m" "\<lambda>s. harvested (phase_of (st_candidates s m))" for cf m
  by unfold_locales (simp_all add: strategy_step_ok step_potential_lift phase_step_amounts(3))

lemma opened_bounds:
  "0 \<le> cf_starter_fraction cf \<Longrightarrow> cf_starter_fraction cf \<le> 1 \<Longrightarrow> 0 \<le> opened cf p \<and> opened cf p \<le> 1"
  by (cases p) auto

lemma exited_bounds: "0 \<le> exited p \<and> exited p \<le> 1"
  by (cases p) auto

lemma harvested_bounds: "0 \<le> harvested p \<and> harvested p \<le> 1"
  by (cases p) auto

abbreviation run_strategy :: "strategy \<Rightarrow> strategy_event list \<Rightarrow> strategy \<times> trade_intent list" where
  "run_strategy \<equiv> run_machine strategy_step"

lemma phase_of_new [simp]: "phase_of (st_candidates (new_strategy cf) m) = Absent"
  by (simp add: new_strategy_def phase_of_def)


lemma run_strategy_ok: "strategy_ok cf (fst (run_strategy (new_strategy cf) es))"
  by (rule exposure.run_inv) simp_all

subsection \<open>A concrete run\<close>

definition demo_touch :: wallet_touch where
  "demo_touch = \<lparr>wt_token_mint = ''M'', wt_wallet = ''W'', wt_entity_id = ''E1'',
     wt_observed_at = 0, wt_reference_price = 1, wt_market_cap_usd = None, wt_tier = Tier_S,
     wt_historically_eligible = True\<rparr>"

definition demo_confirmation :: confirmation where
  "demo_confirmation = \<lparr>cn_token_mint = ''M'', cn_wallet = ''V'', cn_entity_id = ''E2'',
     cn_observed_at = 5000000, cn_reference_price = 11 / 10, cn_historically_eligible = True\<rparr>"

definition demo_confirmed :: candidate where
  "demo_confirmed = (new_candidate demo_touch (clean_snapshot 0))\<lparr>ca_status := CONFIRMED,
     ca_confirmed_at := Some 5000000, ca_confirmation_wallet := Some ''V'',
     ca_confirmation_entity_id := Some ''E2'',
     ca_full_entry_reference_price := Some (11 / 10)\<rparr>"

lemma demo_confirmed_status [simp]: "ca_status demo_confirmed = CONFIRMED"
  by (simp add: demo_confirmed_def)

lemma demo_first_touch:
  "first_touch (new_strategy BASELINE) demo_touch (clean_snapshot 0)
     = (put_candidate ''M'' (new_candidate demo_touch (clean_snapshot 0)) (new_strategy BASELINE),
        [intent OPEN_STARTER ''M'' 0 (30 / 100) ''clean S-tier first touch''])"
  by (simp add: first_touch_def new_strategy_def demo_touch_def)

lemma demo_confirm:
  "confirm (put_candidate ''M'' (new_candidate demo_touch (clean_snapshot 0)) (new_strategy BASELINE))
       demo_confirmation (clean_snapshot 1)
     = Inr (put_candidate ''M'' demo_confirmed
              (put_candidate ''M'' (new_candidate demo_touch (clean_snapshot 0)) (new_strategy BASELINE)),
        [intent ADD_CONFIRMATION ''M'' 5000000 (1 - 30 / 100)
           ''independent confirmation for S-tier starter''])"
  by (simp add: confirm_def new_strategy_def demo_touch_def demo_confirmation_def
      demo_confirmed_def total_seconds_def new_candidate_def)

definition demo_events :: "strategy_event list" where
  "demo_events = [Touch demo_touch (clean_snapshot 0), Confirm demo_confirmation (clean_snapshot 1)]"

lemma demo_run:
  "run_strategy (new_strategy BASELINE) demo_events
     = (put_candidate ''M'' demo_confirmed
          (put_candidate ''M'' (new_candidate demo_touch (clean_snapshot 0)) (new_strategy BASELINE)),
        [intent OPEN_STARTER ''M'' 0 (30 / 100) ''clean S-tier first touch'',
         intent ADD_CONFIRMATION ''M'' 5000000 (1 - 30 / 100)
           ''independent confirmation for S-tier starter''])"
  by (simp add: demo_events_def strategy_step_def demo_first_touch demo_confirm)

subsection \<open>Properties\<close>

text \<open>C13. After any history of calls, every further call of the strategy (a raising one
  included) touches only the mint of its event and moves that mint along the abstract
  lifecycle, emitting exactly the intents that move allows: no intent for another mint,
  no second opening, nothing after a veto, a lapse or a close.\<close>

theorem strategy_refines_lifecycle:
  "refines_phase cf (event_mint e) (fst (run_strategy (new_strategy cf) es))
     (fst (strategy_step (fst (run_strategy (new_strategy cf) es)) e))
     (snd (strategy_step (fst (run_strategy (new_strategy cf) es)) e))"
  by (rule strategy_step_refines_phase) (rule run_strategy_ok)

text \<open>C36. The fractions of a full position that the strategy ever asks to buy of one mint
  add up to the exposure of the phase the mint has reached, so never to more than one full
  position, whatever signals, confirmations and clock ticks arrive and in whatever order.\<close>

theorem strategy_exposure_bounded:
  assumes "0 \<le> cf_starter_fraction cf" and "cf_starter_fraction cf \<le> 1"
  shows "sum_list (map (weigh open_amount m) (snd (run_strategy (new_strategy cf) es)))
           = opened cf (phase_of (st_candidates (fst (run_strategy (new_strategy cf) es)) m))
       \<and> sum_list (map (weigh open_amount m) (snd (run_strategy (new_strategy cf) es))) \<le> 1"
  using exposure.run_potential [of cf "new_strategy cf" es m] opened_bounds [OF assms] by simp

theorem strategy_exposure_bounded_witness:
  "sum_list (map (weigh open_amount ''M'') (snd (run_strategy (new_strategy BASELINE) demo_events))) = 1
   \<and> opened BASELINE (phase_of
       (st_candidates (fst (run_strategy (new_strategy BASELINE) demo_events)) ''M'')) = 1"
  using strategy_exposure_bounded [of BASELINE "''M''" demo_events]
  by (simp add: BASELINE_ok [unfolded config_ok_def] demo_run demo_confirmed_def phase_of_def)

text \<open>Over any run, the strategy emits at most one exit and at most one harvest for a
  mint, and it has emitted the exit exactly when the mint is closed or a bought starter has
  lapsed.\<close>

theorem strategy_single_exit_and_harvest:
  "sum_list (map (weigh exit_amount m) (snd (run_strategy (new_strategy cf) es)))
     = exited (phase_of (st_candidates (fst (run_strategy (new_strategy cf) es)) m))
   \<and> sum_list (map (weigh exit_amount m) (snd (run_strategy (new_strategy cf) es))) \<le> 1
   \<and> sum_list (map (weigh harvest_amount m) (snd (run_strategy (new_strategy cf) es))) \<le> 1"
  using exits.run_potential [of cf "new_strategy cf" es m] exited_bounds
    harvests.run_potential [of cf "new_strategy cf" es m] harvested_bounds by simp

text \<open>In every reachable state a confirmed or closed candidate was confirmed by an
  entity other than the scout's, within the confirmation window, at a price at most the
  chase limit above the scout's, on a token whose risk snapshot was clean at first touch.\<close>

theorem confirmed_candidates_independent:
  assumes "st_candidates (fst (run_strategy (new_strategy cf) es)) m = Some c"
    and "ca_status c \<in> {CONFIRMED, CLOSED}"
  shows "clean (ca_risk_at_entry c) \<and> (\<exists>t e p. ca_confirmed_at c = Some t
     \<and> ca_confirmation_entity_id c = Some e \<and> ca_full_entry_reference_price c = Some p
     \<and> e \<noteq> ca_scout_entity_id c
     \<and> 0 \<le> total_seconds (t - ca_first_touch_at c)
     \<and> total_seconds (t - ca_first_touch_at c) \<le> cf_confirmation_window_seconds cf
     \<and> p / ca_scout_reference_price c - 1 \<le> cf_max_chase_fraction cf)"
proof -
  have "candidate_ok cf c" using run_strategy_ok assms(1) by (rule strategy_okD)
  with assms(2) show ?thesis by (auto simp: candidate_ok_def confirmed_ok_def)
qed

theorem confirmed_candidates_independent_witness:
  "\<exists>t e p. ca_confirmed_at demo_confirmed = Some t
     \<and> ca_confirmation_entity_id demo_confirmed = Some e
     \<and> ca_full_entry_reference_price demo_confirmed = Some p
     \<and> e \<noteq> ca_scout_entity_id demo_confirmed
     \<and> total_seconds (t - ca_first_touch_at demo_confirmed) \<le> 20
     \<and> p / ca_scout_reference_price demo_confirmed - 1 \<le> 15 / 100"
  using confirmed_candidates_independent [of BASELINE demo_events "''M''" demo_confirmed]
  by (auto simp: demo_run demo_confirmed_status)

text \<open>A confirmation that does not raise buys exactly when a candidate is waiting, the
  confirmation is eligible, timely and from another entity, the risk snapshot is clean and
  the price is within the chase limit; then it emits one intent that completes the position.\<close>

theorem confirm_buys_iff:
  "(\<exists>s' i. confirm s n r = Inr (s', [i])) \<longleftrightarrow>
     (\<exists>c. st_candidates s (cn_token_mint n) = Some c \<and> ca_status c = WAITING_CONFIRMATION
        \<and> 0 \<le> total_seconds (cn_observed_at n - ca_first_touch_at c)
        \<and> total_seconds (cn_observed_at n - ca_first_touch_at c)
             \<le> cf_confirmation_window_seconds (st_config s)
        \<and> cn_historically_eligible n \<and> cn_entity_id n \<noteq> ca_scout_entity_id c \<and> clean r
        \<and> ca_scout_reference_price c \<noteq> 0
        \<and> cn_reference_price n / ca_scout_reference_price c - 1
             \<le> cf_max_chase_fraction (st_config s))"
  by (auto simp: confirm_def Let_def bind_result_Inr_iff py_div_Inr_iff
      split: option.splits if_splits)

text \<open>For a confirmed candidate with a positive entry price, the clock decides by price
  alone before the harvest (stop below the loss limit, harvest above the gain), by the
  trailing high after it, and otherwise by age, in this order of precedence.\<close>

theorem clock_decision_by_price:
  assumes "st_candidates s m = Some c" and "ca_status c = CONFIRMED"
    and "ca_full_entry_reference_price c = Some entry" and "0 < entry"
    and "ca_runner_high_water_price c = Some high \<or> \<not> ca_harvest_triggered c"
    and "0 < high" and "0 < price"
    and "cf = st_config s"
    and "age = total_seconds (t - or_default (ca_confirmed_at c) (ca_first_touch_at c))"
  shows "\<exists>s' out. on_clock s m t (Some price) = Inr (s', out) \<and> map ti_kind out =
    (if \<not> ca_harvest_triggered c \<and> price \<le> entry * (1 - cf_catastrophic_stop_fraction cf)
       then [EXIT_STOP]
     else if \<not> ca_harvest_triggered c \<and> entry * (1 + cf_harvest_gain_fraction cf) \<le> price
       then [HARVEST]
     else if ca_harvest_triggered c then
       (if price \<le> max high price * (1 - cf_runner_trailing_drawdown_fraction cf)
        then [EXIT_RUNNER] else [])
     else if cf_stagnation_check_seconds cf \<le> age \<and> price \<le> entry then [EXIT_THESIS]
     else if cf_thesis_timeout_seconds cf \<le> age then [EXIT_THESIS]
     else [])"
proof -
  have stop: "price / entry - 1 \<le> - f \<longleftrightarrow> price \<le> entry * (1 - f)" for f
    using \<open>0 < entry\<close> by (simp add: field_simps)
  have gain: "f \<le> price / entry - 1 \<longleftrightarrow> entry * (1 + f) \<le> price" for f
    using \<open>0 < entry\<close> by (simp add: field_simps)
  have flat: "price / entry - 1 \<le> 0 \<longleftrightarrow> price \<le> entry"
    using \<open>0 < entry\<close> by (simp add: field_simps)
  have high: "ca_harvest_triggered c \<Longrightarrow> ca_runner_high_water_price c = Some high"
    and pos: "max high price \<noteq> 0" "high \<noteq> 0" using assms(5,6,7) by auto
  show ?thesis
    using assms(1-4,8,9)
    by (simp add: on_clock_def on_clock_confirmed_def Let_def stop gain flat high pos)
qed

theorem clock_decision_by_price_witness:
  "\<exists>s' out. on_clock (put_candidate ''M'' demo_confirmed (new_strategy BASELINE))
      ''M'' 6000000 (Some (1 / 2)) = Inr (s', out) \<and> map ti_kind out = [EXIT_STOP]"
  using clock_decision_by_price [of "put_candidate ''M'' demo_confirmed (new_strategy BASELINE)"
      "''M''" demo_confirmed "11 / 10" 1 "1 / 2" BASELINE _ 6000000]
  by (simp add: demo_confirmed_def new_strategy_def)

end
