(* ===== verification/Authority.thy ===== *)
theory Authority
  imports Prelude
begin

text \<open>
  \<open>strategy_v51_authority.py\<close>: the canonical economic authority is a JSON document that is
  refused unless its identity, epoch and pipeline match the constants of the module and it
  stays paper-only. The document is the record \<open>authority_payload\<close> (the keys this
  development reads, with the types the shipped document gives them); reading the file and
  the SHA-256 fingerprint are not modelled.
\<close>

definition AUTHORITY_ID :: string where
  "AUTHORITY_ID = ''roi-convergence-v5.1-consolidated-proof-1''"

definition STRATEGY_VERSION :: string where
  "STRATEGY_VERSION = ''roi-convergence-v5.1-context-exactness-1''"

definition ECONOMIC_FREEZE_EPOCH :: string where
  "ECONOMIC_FREEZE_EPOCH = ''v51-consolidated-proof-20260905''"

definition PIPELINE_STAGES :: "string list" where
  "PIPELINE_STAGES = [''ingestion'', ''candidate'', ''context'', ''execution_evidence'',
     ''decision'', ''position'', ''settlement'', ''learning'']"

record hazard_burden =
  hb_minimum_independent_outcomes :: nat
  hb_minimum_exact_outcomes :: nat
  hb_minimum_expected_log_growth :: real
  hb_bootstrap_size_multiplier :: real

record authority_payload =
  au_authority_id :: "string option"
  au_strategy_version :: "string option"
  au_economic_freeze_epoch :: "string option"
  au_pipeline_stages :: "string list option"
  au_paper_only :: bool
  au_live_money_authority :: bool
  au_signing_available :: bool
  au_transaction_submission_available :: bool
  au_research_family_priority :: "string list"
  au_immature_family_max_weight :: real
  au_latency_hard_max_seconds :: real
  au_hazard_evidence_burden :: "string \<rightharpoonup> hazard_burden"

definition authority :: "authority_payload \<Rightarrow> authority_payload result" where
  "authority p =
     (if au_authority_id p \<noteq> Some AUTHORITY_ID
        then Inl (RuntimeError ''canonical v5.1 authority id mismatch'')
      else if au_strategy_version p \<noteq> Some STRATEGY_VERSION
        then Inl (RuntimeError ''canonical v5.1 strategy version mismatch'')
      else if au_economic_freeze_epoch p \<noteq> Some ECONOMIC_FREEZE_EPOCH
        then Inl (RuntimeError ''canonical v5.1 economic epoch mismatch'')
      else if au_pipeline_stages p \<noteq> Some PIPELINE_STAGES
        then Inl (RuntimeError ''canonical v5.1 pipeline stage mismatch'')
      else if \<not> au_paper_only p \<or> au_live_money_authority p
        then Inl (RuntimeError ''canonical v5.1 authority crossed the paper-only boundary'')
      else if au_signing_available p \<or> au_transaction_submission_available p
        then Inl (RuntimeError ''canonical v5.1 authority exposed execution authority'')
      else Inr p)"

lemma authority_Inr_iff:
  "authority p = Inr q \<longleftrightarrow> q = p
     \<and> au_authority_id p = Some AUTHORITY_ID \<and> au_strategy_version p = Some STRATEGY_VERSION
     \<and> au_economic_freeze_epoch p = Some ECONOMIC_FREEZE_EPOCH
     \<and> au_pipeline_stages p = Some PIPELINE_STAGES
     \<and> au_paper_only p \<and> \<not> au_live_money_authority p
     \<and> \<not> au_signing_available p \<and> \<not> au_transaction_submission_available p"
  by (auto simp: authority_def)

definition hazard_bin :: "real option \<Rightarrow> string option \<Rightarrow> string" where
  "hazard_bin severity signature =
     (let sev = or_float severity 0;
          sig = (case signature of None \<Rightarrow> ''clean'' | Some t \<Rightarrow> if t = '''' then ''clean'' else t)
      in if sig = ''clean'' \<and> sev \<le> 0 then ''clean''
         else let value = max 0 (min 1 sev) in
           if value < 20 / 100 then ''low''
           else if value < 45 / 100 then ''moderate''
           else if value < 70 / 100 then ''high''
           else ''extreme'')"

definition hazard_requirements ::
  "authority_payload \<Rightarrow> real option \<Rightarrow> string option \<Rightarrow> (hazard_burden \<times> string) result" where
  "hazard_requirements p severity signature =
     (let label = hazard_bin severity signature in
      bind_result (authority p) (\<lambda>a.
        case au_hazard_evidence_burden a label of
          None \<Rightarrow> Inl (KeyError label)
        | Some b \<Rightarrow> Inr (b, label)))"

text \<open>The shipped document, \<open>strategy_v51_authority.json\<close>.\<close>

definition shipped_burden :: "string \<rightharpoonup> hazard_burden" where
  "shipped_burden = map_of
     [(''clean'', \<lparr>hb_minimum_independent_outcomes = 30, hb_minimum_exact_outcomes = 10,
        hb_minimum_expected_log_growth = 0, hb_bootstrap_size_multiplier = 1\<rparr>),
      (''low'', \<lparr>hb_minimum_independent_outcomes = 36, hb_minimum_exact_outcomes = 12,
        hb_minimum_expected_log_growth = 25 / 100000, hb_bootstrap_size_multiplier = 80 / 100\<rparr>),
      (''moderate'', \<lparr>hb_minimum_independent_outcomes = 45, hb_minimum_exact_outcomes = 15,
        hb_minimum_expected_log_growth = 50 / 100000, hb_bootstrap_size_multiplier = 60 / 100\<rparr>),
      (''high'', \<lparr>hb_minimum_independent_outcomes = 60, hb_minimum_exact_outcomes = 18,
        hb_minimum_expected_log_growth = 100 / 100000, hb_bootstrap_size_multiplier = 40 / 100\<rparr>),
      (''extreme'', \<lparr>hb_minimum_independent_outcomes = 90, hb_minimum_exact_outcomes = 24,
        hb_minimum_expected_log_growth = 200 / 100000, hb_bootstrap_size_multiplier = 25 / 100\<rparr>)]"

definition shipped_authority :: authority_payload where
  "shipped_authority = \<lparr>au_authority_id = Some AUTHORITY_ID,
     au_strategy_version = Some STRATEGY_VERSION,
     au_economic_freeze_epoch = Some ECONOMIC_FREEZE_EPOCH,
     au_pipeline_stages = Some PIPELINE_STAGES,
     au_paper_only = True, au_live_money_authority = False,
     au_signing_available = False, au_transaction_submission_available = False,
     au_research_family_priority =
       [''PUMP_AMM'', ''RAYDIUM'', ''FOMO_CLEAN'', ''FOMO_HAZARD'', ''PUMP_FUN'', ''ROBINHOOD_CHAIN''],
     au_immature_family_max_weight = 25 / 100,
     au_latency_hard_max_seconds = 20,
     au_hazard_evidence_burden = shipped_burden\<rparr>"

lemma shipped_authority_ok [simp]: "authority shipped_authority = Inr shipped_authority"
  by (simp add: authority_Inr_iff shipped_authority_def)

lemma hazard_bin_cases:
  "hazard_bin sev sig \<in> {''clean'', ''low'', ''moderate'', ''high'', ''extreme''}"
  by (simp add: hazard_bin_def Let_def)

text \<open>With the shipped document every label resolves, so the lookup never raises, and a more
  severe hazard never needs fewer outcomes nor gets a larger bootstrap size.\<close>

lemma shipped_requirements_total:
  "\<exists>b. hazard_requirements shipped_authority sev sig = Inr (b, hazard_bin sev sig)"
  using hazard_bin_cases [of sev sig]
  by (auto simp: hazard_requirements_def Let_def shipped_burden_def)
    (simp_all add: shipped_authority_def shipped_burden_def)

end
