(* ===== verification/Allocation.thy ===== *)
theory Allocation
  imports Authority "HOL-Library.Product_Lexorder" "HOL-Library.List_Lexorder"
    "HOL-Library.Char_ord"
begin

text \<open>
  The pure functions of \<open>portfolio.py\<close>: the drawdown of an equity curve, the aggregate
  exposure of a weighting, the allocation of paper capital to strategy families and the
  read-only correlation diagnostic. Python's tuple and string comparison in \<open>sorted\<close> is
  the lexicographic order of the library theories imported here.
\<close>

subsection \<open>Drawdown\<close>

fun max_drawdown_loop :: "real \<Rightarrow> real \<Rightarrow> real list \<Rightarrow> real" where
  "max_drawdown_loop peak worst [] = worst"
| "max_drawdown_loop peak worst (raw # xs) =
     (let value = max 0 raw; peak' = max peak value
      in max_drawdown_loop peak' (if peak' > 0 then max worst (1 - value / peak') else worst) xs)"

definition max_drawdown :: "real list \<Rightarrow> real" where
  "max_drawdown curve = max_drawdown_loop 0 0 curve"

text \<open>The textbook quantity: the largest relative fall from an earlier point to a later one.\<close>

definition fall :: "real \<Rightarrow> real \<Rightarrow> real" where
  "fall hi lo = 1 - max 0 lo / hi"

lemma max_drawdown_loop_range:
  "0 \<le> peak \<Longrightarrow> 0 \<le> worst \<Longrightarrow> worst \<le> 1 \<Longrightarrow>
     worst \<le> max_drawdown_loop peak worst xs \<and> max_drawdown_loop peak worst xs \<le> 1"
proof (induction peak worst xs rule: max_drawdown_loop.induct)
  case (2 peak worst raw xs)
  define v where "v = max 0 raw"
  define peak' where "peak' = max peak v"
  define worst' where "worst' = (if peak' > 0 then max worst (1 - v / peak') else worst)"
  have nn: "0 \<le> v" "0 \<le> peak'" using 2 by (auto simp: v_def peak'_def)
  then have "0 \<le> v / peak'" by simp
  then have "worst \<le> worst'" "0 \<le> worst'" "worst' \<le> 1"
    using "2.prems" by (auto simp: worst'_def)
  moreover have "max_drawdown_loop peak worst (raw # xs) = max_drawdown_loop peak' worst' xs"
    by (simp add: v_def peak'_def worst'_def Let_def)
  moreover have "worst' \<le> max_drawdown_loop peak' worst' xs \<and> max_drawdown_loop peak' worst' xs \<le> 1"
    using "2.IH" [OF v_def peak'_def] nn calculation by (auto simp: worst'_def)
  ultimately show ?case by simp
qed simp

lemma max_drawdown_loop_ge_peak:
  "0 \<le> peak \<Longrightarrow> 0 \<le> worst \<Longrightarrow> worst \<le> 1 \<Longrightarrow> 0 < hi \<Longrightarrow> hi \<le> peak \<Longrightarrow> lo \<in> set xs \<Longrightarrow>
     fall hi lo \<le> max_drawdown_loop peak worst xs"
proof (induction xs arbitrary: peak worst)
  case (Cons raw xs)
  define v where "v = max 0 raw"
  define peak' where "peak' = max peak v"
  define worst' where "worst' = max worst (1 - v / peak')"
  have pos: "0 < peak'" "hi \<le> peak'" "0 \<le> v" using Cons.prems
    by (auto simp: peak'_def v_def)
  then have "0 \<le> v / peak'" by simp
  then have w: "0 \<le> worst'" "worst' \<le> 1" using Cons.prems by (auto simp: worst'_def)
  have unf: "max_drawdown_loop peak worst (raw # xs) = max_drawdown_loop peak' worst' xs"
    using pos by (simp add: v_def peak'_def worst'_def Let_def)
  show ?case
  proof (cases "lo \<in> set xs")
    case True
    with Cons.IH [of peak' worst'] pos w Cons.prems(4) show ?thesis unfolding unf by simp
  next
    case False
    with Cons.prems have "lo = raw" by simp
    then have "fall hi lo \<le> 1 - v / peak'"
      using pos Cons.prems by (simp add: fall_def v_def frac_le)
    also have "\<dots> \<le> max_drawdown_loop peak' worst' xs"
      using max_drawdown_loop_range [of peak' worst' xs] w pos by (simp add: worst'_def)
    finally show ?thesis unfolding unf .
  qed
qed simp

lemma max_drawdown_loop_ge:
  "0 \<le> peak \<Longrightarrow> 0 \<le> worst \<Longrightarrow> worst \<le> 1 \<Longrightarrow> 0 < hi \<Longrightarrow>
     fall hi lo \<le> max_drawdown_loop peak worst (pre @ hi # mid @ lo # post)"
proof (induction pre arbitrary: peak worst)
  case Nil
  define peak' where "peak' = max peak (max 0 hi)"
  define worst' where "worst' = max worst (1 - max 0 hi / peak')"
  have pos: "0 < peak'" "hi \<le> peak'" using Nil by (auto simp: peak'_def)
  then have "0 \<le> max 0 hi / peak'" by simp
  then have w: "0 \<le> worst'" "worst' \<le> 1" using Nil by (auto simp: worst'_def)
  have "max_drawdown_loop peak worst (hi # mid @ lo # post)
      = max_drawdown_loop peak' worst' (mid @ lo # post)"
    using pos by (simp add: peak'_def worst'_def Let_def)
  with max_drawdown_loop_ge_peak [of peak' worst' hi lo "mid @ lo # post"] pos w Nil
  show ?case by simp
next
  case (Cons raw pre)
  define peak' where "peak' = max peak (max 0 raw)"
  define worst' where "worst' = (if peak' > 0 then max worst (1 - max 0 raw / peak') else worst)"
  have p: "0 \<le> peak'" using Cons.prems by (simp add: peak'_def)
  then have "0 \<le> max 0 raw / peak'" by simp
  then have w: "0 \<le> worst'" "worst' \<le> 1" using Cons.prems by (auto simp: worst'_def)
  have "max_drawdown_loop peak worst ((raw # pre) @ hi # mid @ lo # post)
      = max_drawdown_loop peak' worst' (pre @ hi # mid @ lo # post)"
    by (simp add: peak'_def worst'_def Let_def)
  with Cons.IH [of peak' worst'] p w Cons.prems show ?case by simp
qed

lemma max_drawdown_loop_attained:
  "0 \<le> peak \<Longrightarrow> max_drawdown_loop peak worst xs = worst
    \<or> (\<exists>lo \<in> set xs. 0 < peak \<and> max_drawdown_loop peak worst xs = fall peak lo)
    \<or> (\<exists>pre hi mid lo post. xs = pre @ hi # mid @ lo # post \<and> 0 < hi
          \<and> max_drawdown_loop peak worst xs = fall hi lo)
    \<or> max_drawdown_loop peak worst xs = 0"
proof (induction peak worst xs rule: max_drawdown_loop.induct)
  case (2 peak worst raw xs)
  define v where "v = max 0 raw"
  define peak' where "peak' = max peak v"
  define worst' where "worst' = (if peak' > 0 then max worst (1 - v / peak') else worst)"
  define r where "r = max_drawdown_loop peak' worst' xs"
  have unf: "max_drawdown_loop peak worst (raw # xs) = r"
    by (simp add: v_def peak'_def worst'_def r_def Let_def)
  have peak'0: "0 \<le> peak'" using 2 by (auto simp: peak'_def)
  have src: "peak' = peak \<or> (peak' = raw \<and> 0 < raw)" using "2.prems"
    by (auto simp: peak'_def v_def max_def)
  have head: "worst' = worst \<or> (0 < peak \<and> worst' = fall peak raw) \<or> worst' = 0"
    using src by (auto simp: worst'_def max_def fall_def v_def split: if_splits)
  have IH: "r = worst' \<or> (\<exists>lo\<in>set xs. 0 < peak' \<and> r = fall peak' lo)
      \<or> (\<exists>pre hi mid lo post. xs = pre @ hi # mid @ lo # post \<and> 0 < hi \<and> r = fall hi lo) \<or> r = 0"
    unfolding r_def worst'_def using "2.IH" [OF v_def peak'_def] peak'0 by simp
  show ?case unfolding unf
    using IH
  proof (elim disjE)
    assume "r = worst'"
    with head show "r = worst \<or> (\<exists>lo\<in>set (raw # xs). 0 < peak \<and> r = fall peak lo)
      \<or> (\<exists>pre hi mid lo post. raw # xs = pre @ hi # mid @ lo # post \<and> 0 < hi \<and> r = fall hi lo)
      \<or> r = 0" by auto
  next
    assume "\<exists>lo\<in>set xs. 0 < peak' \<and> r = fall peak' lo"
    then obtain lo where lo: "lo \<in> set xs" "0 < peak'" "r = fall peak' lo" by blast
    then obtain mid post where "xs = mid @ lo # post" by (meson split_list)
    with lo src show "r = worst \<or> (\<exists>lo\<in>set (raw # xs). 0 < peak \<and> r = fall peak lo)
      \<or> (\<exists>pre hi mid lo post. raw # xs = pre @ hi # mid @ lo # post \<and> 0 < hi \<and> r = fall hi lo)
      \<or> r = 0" by (metis append_Nil list.set_intros(2))
  next
    assume "\<exists>pre hi mid lo post. xs = pre @ hi # mid @ lo # post \<and> 0 < hi \<and> r = fall hi lo"
    then show "r = worst \<or> (\<exists>lo\<in>set (raw # xs). 0 < peak \<and> r = fall peak lo)
      \<or> (\<exists>pre hi mid lo post. raw # xs = pre @ hi # mid @ lo # post \<and> 0 < hi \<and> r = fall hi lo)
      \<or> r = 0" by (metis append_Cons)
  qed simp
qed simp


subsection \<open>Exposure and family allocation\<close>

record exposure_report =
  er_family_weights :: "(string, real) dict"
  er_invested_weight :: real
  er_cash_weight :: real
  er_family_count :: nat
  er_paper_only :: bool
  er_live_money_authority :: bool

definition aggregate_exposure :: "(string, real) dict \<Rightarrow> exposure_report" where
  "aggregate_exposure weights =
     (let normalized = map (\<lambda>(name, v). (name, max 0 v)) weights;
          invested = min 1 (sum_list (map snd normalized))
      in \<lparr>er_family_weights = normalized, er_invested_weight = invested,
          er_cash_weight = max 0 (1 - invested), er_family_count = length normalized,
          er_paper_only = True, er_live_money_authority = False\<rparr>)"

fun index_or_length :: "'a \<Rightarrow> 'a list \<Rightarrow> nat" where
  "index_or_length x [] = 0"
| "index_or_length x (y # ys) = (if x = y then 0 else Suc (index_or_length x ys))"

definition score_of :: "(string, real) dict \<Rightarrow> string \<Rightarrow> real" where
  "score_of scores family = or_default (dict_get scores family) 0"

definition ranking_key ::
  "string list \<Rightarrow> (string, real) dict \<Rightarrow> string \<Rightarrow> real \<times> nat \<times> string" where
  "ranking_key priority scores family =
     (- score_of scores family, index_or_length family priority, family)"

fun allocate_loop :: "real \<Rightarrow> (string \<Rightarrow> real) \<Rightarrow> real \<Rightarrow> real \<Rightarrow> string list \<Rightarrow> (string, real) dict" where
  "allocate_loop cap score tot remaining [] = []"
| "allocate_loop cap score tot remaining (family # rest) =
     (let raw = (if tot > 0 then score family / tot else 0);
          weight = min (min cap raw) remaining;
          later = allocate_loop cap score tot (max 0 (remaining - weight)) rest
      in if weight > 0 then (family, weight) # later else later)"

record allocation =
  al_research_family_ranking :: "string list"
  al_paper_allocation_weights :: "(string, real) dict"
  al_paper_cash_weight :: real
  al_invested_weight :: real
  al_active_family_cap :: real
  al_allocation_policy_changed :: bool
  al_paper_only :: bool
  al_live_money_authority :: bool

definition family_ranking :: "string list \<Rightarrow> (string, real) dict \<Rightarrow> string list" where
  "family_ranking priority scores =
     sort_key (ranking_key priority scores) (remdups (priority @ map fst scores))"

definition allocate_family_capital ::
  "authority_payload \<Rightarrow> (string, real) dict \<Rightarrow> string list option \<Rightarrow> real option
     \<Rightarrow> allocation result" where
  "allocate_family_capital payload scores priority family_cap =
     bind_result (authority payload) (\<lambda>spec.
       let ordered_priority = (case priority of None \<Rightarrow> au_research_family_priority spec
             | Some [] \<Rightarrow> au_research_family_priority spec | Some p \<Rightarrow> p);
           cap = or_default family_cap (au_immature_family_max_weight spec)
       in if cap < 0 \<or> cap > 1 then Inl (ValueError ''family_cap must be within [0, 1]'')
       else let ordered = family_ranking ordered_priority scores;
                positive = filter (\<lambda>f. score_of scores f > 0) ordered;
                tot = sum_list (map (score_of scores) positive);
                weights = allocate_loop cap (score_of scores) tot 1 positive;
                exposure = aggregate_exposure weights
            in Inr \<lparr>al_research_family_ranking = ordered,
                     al_paper_allocation_weights = weights,
                     al_paper_cash_weight = er_cash_weight exposure,
                     al_invested_weight = er_invested_weight exposure,
                     al_active_family_cap = cap, al_allocation_policy_changed = False,
                     al_paper_only = True, al_live_money_authority = False\<rparr>)"

record excessive_pair =
  xp_left :: string
  xp_right :: string
  xp_correlation :: real

record correlation_report =
  cr_mature_pair_count :: nat
  cr_unknown_pairs :: "(string \<times> string) list"
  cr_excessive_pairs :: "excessive_pair list"

fun correlation_loop ::
  "string list \<Rightarrow> real \<Rightarrow> ((string \<times> string) \<times> real option) list \<Rightarrow> correlation_report
     \<Rightarrow> correlation_report" where
  "correlation_loop active limit [] r = r"
| "correlation_loop active limit (((left, right), raw) # rest) r =
     (if left \<notin> set active \<or> right \<notin> set active \<or> left = right
      then correlation_loop active limit rest r
      else case raw of
        None \<Rightarrow> correlation_loop active limit rest
                  (r\<lparr>cr_unknown_pairs := cr_unknown_pairs r @ [(left, right)]\<rparr>)
      | Some v \<Rightarrow> correlation_loop active limit rest
          (let r' = r\<lparr>cr_mature_pair_count := Suc (cr_mature_pair_count r)\<rparr> in
           if \<bar>v\<bar> > limit then r'\<lparr>cr_excessive_pairs := cr_excessive_pairs r' @
                 [\<lparr>xp_left = left, xp_right = right, xp_correlation = v\<rparr>]\<rparr>
           else r'))"

definition correlation_cap_diagnostic ::
  "(string, real) dict \<Rightarrow> ((string \<times> string) \<times> real option) list \<Rightarrow> real \<Rightarrow> correlation_report" where
  "correlation_cap_diagnostic weights correlations limit =
     correlation_loop (map fst (filter (\<lambda>(name, w). w > 0) weights)) limit correlations
       \<lparr>cr_mature_pair_count = 0, cr_unknown_pairs = [], cr_excessive_pairs = []\<rparr>"

subsection \<open>What the allocation amounts to\<close>

text \<open>
  The reference: every family with a positive score gets its share of the total score, cut
  at the cap. The loop also cuts at the capital that remains; that cut never binds.
\<close>

definition capped_share :: "real \<Rightarrow> (string \<Rightarrow> real) \<Rightarrow> real \<Rightarrow> string \<Rightarrow> real" where
  "capped_share cap score tot family = min cap (score family / tot)"

lemma allocate_loop_eq:
  assumes "0 < tot" and "0 \<le> cap"
    and "\<forall>f\<in>set fs. 0 < score f"
    and "sum_list (map score fs) / tot \<le> remaining"
  shows "allocate_loop cap score tot remaining fs
    = filter (\<lambda>(f, w). 0 < w) (map (\<lambda>f. (f, capped_share cap score tot f)) fs)"
  using assms(3,4)
proof (induction fs arbitrary: remaining)
  case (Cons f fs)
  let ?raw = "score f / tot" and ?rest = "sum_list (map score fs) / tot"
  have "0 \<le> sum_list (map score fs)" using Cons.prems by (intro sum_list_nonneg) auto
  then have rest0: "0 \<le> ?rest" using assms(1) by simp
  have split: "?raw + ?rest \<le> remaining" using Cons.prems by (simp add: add_divide_distrib)
  then have w: "min (min cap ?raw) remaining = capped_share cap score tot f"
    using rest0 by (simp add: capped_share_def)
  have "?rest \<le> max 0 (remaining - capped_share cap score tot f)"
    using split by (simp add: capped_share_def)
  then have "allocate_loop cap score tot (max 0 (remaining - capped_share cap score tot f)) fs
      = filter (\<lambda>(f, w). 0 < w) (map (\<lambda>f. (f, capped_share cap score tot f)) fs)"
    using Cons by simp
  then show ?case using assms(1) by (simp add: Let_def w del: min_less_iff_conj)
qed simp

lemma capped_share_sum:
  assumes "0 < tot" and "0 \<le> cap" and "\<forall>f\<in>set fs. 0 < score f"
  shows "sum_list (map snd (filter (\<lambda>(f, w). 0 < w)
            (map (\<lambda>f. (f, capped_share cap score tot f)) fs)))
          \<le> sum_list (map score fs) / tot"
  using assms(3)
proof (induction fs)
  case (Cons f fs)
  have "capped_share cap score tot f \<le> score f / tot" by (simp add: capped_share_def)
  moreover have "0 \<le> score f / tot" using Cons.prems assms(1) by simp
  ultimately show ?case using Cons by (auto simp: add_divide_distrib)
qed simp

lemma ranking_set: "set (family_ranking priority scores) = set priority \<union> fst ` set scores"
  by (simp add: family_ranking_def)

lemma ranking_distinct: "distinct (family_ranking priority scores)"
  by (simp add: family_ranking_def)

lemma ranking_by_score:
  "sorted_wrt (\<lambda>f g. score_of scores g \<le> score_of scores f) (family_ranking priority scores)"
proof -
  have "sorted (map (ranking_key priority scores) (family_ranking priority scores))"
    by (simp add: family_ranking_def)
  then have "sorted_wrt (\<lambda>f g. ranking_key priority scores f \<le> ranking_key priority scores g)
      (family_ranking priority scores)" by (simp add: sorted_map)
  then show ?thesis
    by (rule sorted_wrt_mono_rel [rotated]) (auto simp: ranking_key_def)
qed

lemma positive_total:
  assumes "positive = filter (\<lambda>f. score_of scores f > 0) ordered" and "positive \<noteq> []"
  shows "0 < sum_list (map (score_of scores) positive)"
proof -
  obtain f fs where p: "positive = f # fs" using assms(2) by (cases positive) auto
  have "\<forall>g\<in>set positive. 0 < score_of scores g" using assms(1) by auto
  then have "0 < score_of scores f" and "\<forall>x\<in>set (map (score_of scores) fs). 0 \<le> x"
    using p by (auto simp: less_imp_le)
  then have "0 < score_of scores f" and "0 \<le> sum_list (map (score_of scores) fs)"
    by (simp_all only: sum_list_nonneg)
  then show ?thesis using p by simp
qed

subsection \<open>Properties\<close>

text \<open>The drawdown of an equity curve is a fraction between zero and one, it is at least
  every relative fall from a positive earlier value to a later one, and unless it is zero it
  is such a fall.\<close>

theorem max_drawdown_is_largest_fall:
  "0 \<le> max_drawdown curve \<and> max_drawdown curve \<le> 1
   \<and> (\<forall>pre hi mid lo post. \<not> (curve = pre @ hi # mid @ lo # post \<and> 0 < hi)
        \<or> fall hi lo \<le> max_drawdown curve)
   \<and> (max_drawdown curve = 0 \<or> (\<exists>pre hi mid lo post. curve = pre @ hi # mid @ lo # post
        \<and> 0 < hi \<and> max_drawdown curve = fall hi lo))"
  using max_drawdown_loop_range [of 0 0 curve] max_drawdown_loop_attained [of 0 0 curve]
    max_drawdown_loop_ge [of 0 0]
  by (auto simp: max_drawdown_def)

theorem max_drawdown_is_largest_fall_witness:
  "1 / 2 \<le> max_drawdown [100, 120, 60, 90]"
proof -
  have "[100, 120, 60, 90] = [100] @ 120 # [] @ 60 # [90::real]" by simp
  then have "fall 120 60 \<le> max_drawdown [100, 120, 60, 90]"
    using max_drawdown_is_largest_fall [of "[100, 120, 60, 90]"] zero_less_numeral by blast
  then show ?thesis by (simp add: fall_def)
qed

text \<open>When the allocation succeeds, each family with a positive score gets exactly its
  share of the total score cut at the cap, no other family gets anything, and the weights
  and the cash weight are a partition of one.\<close>

theorem allocation_is_capped_proportional:
  assumes "allocate_family_capital payload scores priority family_cap = Inr a"
  shows "\<exists>cap. 0 \<le> cap \<and> cap \<le> 1 \<and> al_active_family_cap a = cap
    \<and> al_paper_allocation_weights a = filter (\<lambda>(f, w). 0 < w)
        (map (\<lambda>f. (f, capped_share cap (score_of scores)
             (sum_list (map (score_of scores)
                (filter (\<lambda>f. 0 < score_of scores f) (al_research_family_ranking a)))) f))
          (filter (\<lambda>f. 0 < score_of scores f) (al_research_family_ranking a)))
    \<and> al_invested_weight a = sum_list (map snd (al_paper_allocation_weights a))
    \<and> al_invested_weight a \<le> 1
    \<and> al_paper_cash_weight a = 1 - al_invested_weight a"
proof -
  obtain spec where a: "authority payload = Inr spec"
    using assms by (auto simp: allocate_family_capital_def bind_result_Inr_iff)
  define cap where "cap = or_default family_cap (au_immature_family_max_weight spec)"
  define pri where "pri = (case priority of None \<Rightarrow> au_research_family_priority spec
             | Some [] \<Rightarrow> au_research_family_priority spec | Some p \<Rightarrow> p)"
  define pos where "pos = filter (\<lambda>f. 0 < score_of scores f) (family_ranking pri scores)"
  define tot where "tot = sum_list (map (score_of scores) pos)"
  define ws where "ws = allocate_loop cap (score_of scores) tot 1 pos"
  have cap: "0 \<le> cap" "cap \<le> 1" using assms a
    by (auto simp: allocate_family_capital_def Let_def cap_def split: if_splits)
  have r: "al_research_family_ranking a = family_ranking pri scores"
      "al_active_family_cap a = cap" "al_paper_allocation_weights a = ws"
      "al_invested_weight a = er_invested_weight (aggregate_exposure ws)"
      "al_paper_cash_weight a = er_cash_weight (aggregate_exposure ws)"
    using assms a cap unfolding ws_def tot_def pos_def cap_def pri_def
    by (auto simp: allocate_family_capital_def Let_def)
  have scores_pos: "\<forall>f\<in>set pos. 0 < score_of scores f" by (simp add: pos_def)
  let ?ref = "filter (\<lambda>(f, w). 0 < w) (map (\<lambda>f. (f, capped_share cap (score_of scores) tot f)) pos)"
  have ws: "ws = ?ref \<and> sum_list (map snd ws) \<le> 1"
  proof (cases "pos = []")
    case False
    then have t: "0 < tot" unfolding tot_def by (rule positive_total [OF pos_def])
    then have "ws = ?ref" unfolding ws_def
      using cap scores_pos by (intro allocate_loop_eq) (auto simp: tot_def)
    moreover have "sum_list (map snd ?ref) \<le> sum_list (map (score_of scores) pos) / tot"
      using t cap scores_pos by (intro capped_share_sum) auto
    ultimately show ?thesis using t by (simp add: tot_def)
  qed (simp add: ws_def)
  then have nn: "\<forall>p\<in>set ws. 0 \<le> snd p" by auto
  then have norm: "map (\<lambda>(n, v). (n, max 0 v)) ws = ws" by (auto intro!: map_idI)
  have "0 \<le> sum_list (map snd ws)" using nn by (auto intro!: sum_list_nonneg)
  with conjunct2 [OF ws] have "er_invested_weight (aggregate_exposure ws) = sum_list (map snd ws)"
      "er_cash_weight (aggregate_exposure ws) = 1 - sum_list (map snd ws)"
    unfolding aggregate_exposure_def norm Let_def by simp_all
  with r ws cap show ?thesis by (auto simp: pos_def tot_def)
qed

lemma demo_allocation:
  "\<exists>a. allocate_family_capital shipped_authority [(''RAYDIUM'', 3), (''PUMP_AMM'', 1)] None None = Inr a"
  by (simp add: allocate_family_capital_def Let_def)
    (simp add: shipped_authority_def)

theorem allocation_is_capped_proportional_witness:
  "\<exists>a. allocate_family_capital shipped_authority [(''RAYDIUM'', 3), (''PUMP_AMM'', 1)] None None = Inr a
     \<and> al_invested_weight a \<le> 1 \<and> al_paper_cash_weight a = 1 - al_invested_weight a"
proof -
  obtain a where a: "allocate_family_capital shipped_authority
      [(''RAYDIUM'', 3), (''PUMP_AMM'', 1)] None None = Inr a"
    using demo_allocation by blast
  from allocation_is_capped_proportional [OF this] a show ?thesis by auto
qed

text \<open>The published ranking is a permutation of the prioritised and scored families, each
  listed once and none before a family with a higher score.\<close>

theorem allocation_ranking_sound:
  assumes "allocate_family_capital payload scores (Some (p # ps)) family_cap = Inr a"
  shows "distinct (al_research_family_ranking a)
    \<and> set (al_research_family_ranking a) = set (p # ps) \<union> fst ` set scores
    \<and> sorted_wrt (\<lambda>f g. score_of scores g \<le> score_of scores f) (al_research_family_ranking a)"
proof -
  have "al_research_family_ranking a = family_ranking (p # ps) scores"
    using assms by (auto simp: allocate_family_capital_def bind_result_Inr_iff Let_def split: if_splits)
  then show ?thesis by (simp add: ranking_set ranking_distinct ranking_by_score)
qed

theorem allocation_ranking_sound_witness:
  "\<exists>a. allocate_family_capital shipped_authority [] (Some [''A'']) (Some (1 / 4)) = Inr a
     \<and> set (al_research_family_ranking a) = {''A''}"
proof -
  obtain a where a: "allocate_family_capital shipped_authority [] (Some [''A'']) (Some (1 / 4)) = Inr a"
    by (simp add: allocate_family_capital_def Let_def)
  from allocation_ranking_sound [OF this] a show ?thesis by auto
qed

end
