(* ===== verification/Portfolio.thy ===== *)
theory Portfolio
  imports Models Allocation
begin

text \<open>
  Paper execution and the capital ledger: \<open>execution.py\<close>, the stateful half of
  \<open>portfolio.py\<close> and the exact-entry path of \<open>execution_realism.py\<close>. The ledger is a record;
  \<open>PaperPortfolio.apply\<close> takes the portfolio together with the context variable that holds
  one observed exact entry, and returns the exception it raised, if any, beside the state it
  left, because a raise can follow the registration of a position.
\<close>

subsection \<open>Execution simulator\<close>

definition sim_buy ::
  "strategy_config \<Rightarrow> string \<Rightarrow> datetime \<Rightarrow> real \<Rightarrow> real \<Rightarrow> intent_kind \<Rightarrow> simulated_fill result" where
  "sim_buy cf mint t reference_price notional k =
     (let drag = cf_execution_drag_per_side_fraction cf;
          fill_price = reference_price * (1 + drag)
      in bind_result (py_div notional fill_price) (\<lambda>units.
         bind_result (py_div notional reference_price) (\<lambda>ideal_units.
           Inr \<lparr>fl_token_mint = mint, fl_side = Buy, fl_observed_at = t,
                fl_reference_price = reference_price, fl_fill_price = fill_price,
                fl_notional_usd = notional, fl_units = units,
                fl_execution_drag_usd = max 0 ((ideal_units - units) * reference_price),
                fl_intent = k\<rparr>)))"

definition sim_sell ::
  "strategy_config \<Rightarrow> string \<Rightarrow> datetime \<Rightarrow> real \<Rightarrow> real \<Rightarrow> intent_kind \<Rightarrow> simulated_fill" where
  "sim_sell cf mint t reference_price units k =
     (let drag = cf_execution_drag_per_side_fraction cf;
          fill_price = reference_price * (1 - drag);
          notional = units * fill_price
      in \<lparr>fl_token_mint = mint, fl_side = Sell, fl_observed_at = t,
          fl_reference_price = reference_price, fl_fill_price = fill_price,
          fl_notional_usd = notional, fl_units = units,
          fl_execution_drag_usd = max 0 (units * reference_price - notional),
          fl_intent = k\<rparr>)"

subsection \<open>The capital ledger\<close>

record ledger =
  ld_initial_capital_usd :: real
  ld_cash_usd :: real
  ld_positions :: "(string, paper_position) dict"
  ld_closed :: "trade_outcome list"
  ld_pending_exits :: "string list"
  ld_family_by_mint :: "(string, string) dict"
  ld_context_by_mint :: "(string, string) dict"
  ld_equity_history :: "real list"

definition new_ledger :: "real \<Rightarrow> ledger result" where
  "new_ledger capital =
     (if capital \<le> 0 then Inl (ValueError ''initial paper capital must be positive'')
      else Inr \<lparr>ld_initial_capital_usd = capital, ld_cash_usd = capital, ld_positions = [],
                ld_closed = [], ld_pending_exits = [], ld_family_by_mint = [],
                ld_context_by_mint = [], ld_equity_history = [capital]\<rparr>)"

definition mark_price :: "(string \<rightharpoonup> real) \<Rightarrow> string \<Rightarrow> paper_position \<Rightarrow> real" where
  "mark_price marks mint p = or_default (marks mint) (or_float (average_entry_price p) 0)"

definition ledger_nav :: "(string \<rightharpoonup> real) \<Rightarrow> ledger \<Rightarrow> real" where
  "ledger_nav marks l = ld_cash_usd l + sum_list (map (\<lambda>(mint, p).
     if is_open p then po_units p * mark_price marks mint p else 0) (ld_positions l))"

definition capital_committed_usd :: "ledger \<Rightarrow> real" where
  "capital_committed_usd l =
     dict_sum (\<lambda>p. if is_open p then max 0 (po_cost_basis_usd p) else 0) (ld_positions l)"

definition realized_pnl_usd :: "ledger \<Rightarrow> real" where
  "realized_pnl_usd l = dict_sum po_realized_pnl_usd (ld_positions l)"

definition unrealized_pnl_usd :: "(string \<rightharpoonup> real) \<Rightarrow> ledger \<Rightarrow> real" where
  "unrealized_pnl_usd marks l = sum_list (map (\<lambda>(mint, p).
     if is_open p then po_units p * mark_price marks mint p - po_cost_basis_usd p else 0)
     (ld_positions l))"

definition all_fills :: "ledger \<Rightarrow> simulated_fill list" where
  "all_fills l = concat (map po_fills (dict_values (ld_positions l)))"

definition register_position :: "paper_position \<Rightarrow> string \<Rightarrow> string \<Rightarrow> ledger \<Rightarrow> ledger" where
  "register_position p family ctx l = l\<lparr>
     ld_positions := dict_set (po_token_mint p) p (ld_positions l),
     ld_family_by_mint := dict_set (po_token_mint p) family (ld_family_by_mint l),
     ld_context_by_mint := dict_set (po_token_mint p) ctx (ld_context_by_mint l)\<rparr>"

definition mark_exit_pending :: "string \<Rightarrow> ledger \<Rightarrow> ledger" where
  "mark_exit_pending mint l =
     (case dict_get (ld_positions l) mint of
        Some p \<Rightarrow> if is_open p then
            l\<lparr>ld_pending_exits := List.insert mint (ld_pending_exits l)\<rparr> else l
      | None \<Rightarrow> l)"

definition clear_exit_pending :: "string \<Rightarrow> ledger \<Rightarrow> ledger" where
  "clear_exit_pending mint l = l\<lparr>ld_pending_exits := removeAll mint (ld_pending_exits l)\<rparr>"

definition record_equity :: "(string \<rightharpoonup> real) \<Rightarrow> ledger \<Rightarrow> ledger" where
  "record_equity marks l = l\<lparr>ld_equity_history := ld_equity_history l @ [ledger_nav marks l]\<rparr>"

record ledger_snapshot =
  sn_initial_capital_usd :: real
  sn_cash_usd :: real
  sn_strategy_nav_usd :: real
  sn_capital_committed_usd :: real
  sn_realized_pnl_usd :: real
  sn_unrealized_pnl_usd :: real
  sn_open_paper_position_count :: nat
  sn_simulated_fill_count :: nat
  sn_pending_exits :: "string list"
  sn_family_capital_committed_usd :: "(string, real) dict"
  sn_max_drawdown :: real
  sn_paper_only :: bool
  sn_live_money_authority :: bool

fun family_commitment ::
  "(string, string) dict \<Rightarrow> paper_position list \<Rightarrow> (string, real) dict \<Rightarrow> (string, real) dict" where
  "family_commitment fams [] acc = acc"
| "family_commitment fams (p # ps) acc =
     (let family = or_default (dict_get fams (po_token_mint p)) ''unclassified'' in
      family_commitment fams ps
        (dict_set family (or_default (dict_get acc family) 0 + max 0 (po_cost_basis_usd p)) acc))"

definition snapshot :: "(string \<rightharpoonup> real) \<Rightarrow> ledger \<Rightarrow> ledger_snapshot" where
  "snapshot marks l =
     (let open_positions = filter is_open (dict_values (ld_positions l)) in
      \<lparr>sn_initial_capital_usd = ld_initial_capital_usd l, sn_cash_usd = ld_cash_usd l,
       sn_strategy_nav_usd = ledger_nav marks l,
       sn_capital_committed_usd = capital_committed_usd l,
       sn_realized_pnl_usd = realized_pnl_usd l,
       sn_unrealized_pnl_usd = unrealized_pnl_usd marks l,
       sn_open_paper_position_count = length open_positions,
       sn_simulated_fill_count = length (all_fills l),
       sn_pending_exits = sort (ld_pending_exits l),
       sn_family_capital_committed_usd =
         family_commitment (ld_family_by_mint l) open_positions [],
       sn_max_drawdown = max_drawdown (ld_equity_history l),
       sn_paper_only = True, sn_live_money_authority = False\<rparr>)"

definition put_position :: "string \<Rightarrow> paper_position \<Rightarrow> ledger \<Rightarrow> ledger" where
  "put_position mint p l = l\<lparr>ld_positions := dict_set mint p (ld_positions l)\<rparr>"

subsection \<open>The portfolio\<close>

record portfolio =
  pf_config :: strategy_config
  pf_ledger :: ledger

definition new_portfolio :: "strategy_config \<Rightarrow> portfolio result" where
  "new_portfolio cf =
     (if \<not> cf_paper_only cf then Inl (ValueError ''paper_only must remain true'')
      else bind_result (new_ledger (cf_initial_capital_usd cf))
        (\<lambda>l. Inr \<lparr>pf_config = cf, pf_ledger = l\<rparr>))"

definition full_position_notional :: "(string \<rightharpoonup> real) \<Rightarrow> portfolio \<Rightarrow> real result" where
  "full_position_notional marks pf =
     bind_result (full_position_fraction_of_nav (pf_config pf))
       (\<lambda>f. Inr (ledger_nav marks (pf_ledger pf) * f))"

definition sold_units :: "paper_position \<Rightarrow> real \<Rightarrow> real" where
  "sold_units p requested = max 0 (min requested (po_units p))"

definition DUST_UNITS :: real where
  "DUST_UNITS = 1 / 10 ^ 15"

text \<open>\<open>_sell\<close> returns the cash received and the changed position.\<close>

definition sell_position ::
  "strategy_config \<Rightarrow> paper_position \<Rightarrow> trade_intent \<Rightarrow> real \<Rightarrow> real \<Rightarrow> real \<times> paper_position" where
  "sell_position cf p i reference_price requested =
     (let units = sold_units p requested in
      if units \<le> 0 then (0, p)
      else let basis_released = po_cost_basis_usd p * (units / po_units p);
               fill = sim_sell cf (po_token_mint p) (ti_observed_at i) reference_price units (ti_kind i);
               p' = p\<lparr>po_realized_pnl_usd := po_realized_pnl_usd p + (fl_notional_usd fill - basis_released),
                      po_units := po_units p - units,
                      po_cost_basis_usd := po_cost_basis_usd p - basis_released,
                      po_fills := po_fills p @ [fill]\<rparr>;
               p'' = (if po_units p' \<le> DUST_UNITS
                      then p'\<lparr>po_units := 0, po_cost_basis_usd := 0\<rparr> else p')
           in (fl_notional_usd fill, p''))"

definition outcome_of :: "paper_position \<Rightarrow> datetime \<Rightarrow> string \<Rightarrow> trade_outcome" where
  "outcome_of p t reason =
     (let committed = po_entry_capital_usd p; pnl = po_realized_pnl_usd p in
      \<lparr>to_token_mint = po_token_mint p, to_scout_wallet = po_scout_wallet p,
       to_opened_at = po_opened_at p, to_closed_at = t, to_starting_nav_usd = committed,
       to_ending_nav_usd = committed + pnl, to_net_pnl_usd = pnl,
       to_return_on_starting_nav = (if committed \<noteq> 0 then pnl / committed else 0),
       to_harvest_hit = po_harvest_hit p, to_closed_reason = reason\<rparr>)"

definition close_position :: "datetime \<Rightarrow> string \<Rightarrow> paper_position \<Rightarrow> paper_position" where
  "close_position t reason p = p\<lparr>po_closed_at := Some t, po_closed_reason := Some reason\<rparr>"

definition is_opening :: "intent_kind \<Rightarrow> bool" where
  "is_opening k \<longleftrightarrow> k \<in> {OPEN_STARTER, OPEN_FULL, ADD_CONFIRMATION}"

definition is_exit :: "intent_kind \<Rightarrow> bool" where
  "is_exit k \<longleftrightarrow> k \<in> {EXIT_STARTER, EXIT_THESIS, EXIT_STOP, EXIT_RUNNER}"

subsection \<open>Exact entries\<close>

record observed_entry =
  oe_token_mint :: string
  oe_stage :: string
  oe_completed_at :: datetime
  oe_input_lamports :: int
  oe_input_sol :: real
  oe_input_usd :: real
  oe_order_effective_price_sol :: real
  oe_order_out_token_units :: real
  oe_order_drift_fraction :: real
  oe_router :: string
  oe_route_fee_bps :: int
  oe_signature_fee_lamports :: int
  oe_prioritization_fee_lamports :: int
  oe_rent_fee_lamports :: int
  oe_network_fee_lamports :: int
  oe_network_fee_usd :: real
  oe_final_quote_latency_ms :: real
  oe_final_chain_to_quote_ms :: real
  oe_simulation_ok :: bool

definition isclose :: "real \<Rightarrow> real \<Rightarrow> real \<Rightarrow> real \<Rightarrow> bool" where
  "isclose a b rel_tol abs_tol \<longleftrightarrow> \<bar>a - b\<bar> \<le> max (rel_tol * max \<bar>a\<bar> \<bar>b\<bar>) abs_tol"

definition entry_tolerance :: "real \<Rightarrow> real" where
  "entry_tolerance notional = max (1 / 10 ^ 6) (notional * (1 / 10 ^ 6))"

definition exact_evidence_valid :: "observed_entry \<Rightarrow> real \<Rightarrow> bool" where
  "exact_evidence_valid ev reference_price \<longleftrightarrow>
     oe_simulation_ok ev \<and> oe_order_effective_price_sol ev > 0
   \<and> oe_order_out_token_units ev > 0 \<and> oe_input_usd ev > 0
   \<and> isclose reference_price (oe_order_effective_price_sol ev) (1 / 10 ^ 9) (1 / 10 ^ 15)"

text \<open>The context variable \<open>_CURRENT_ENTRY_EXECUTION\<close> beside the portfolio it feeds.\<close>

record paper_runtime =
  rt_entry :: "observed_entry option"
  rt_portfolio :: portfolio

definition with_ledger :: "(ledger \<Rightarrow> ledger) \<Rightarrow> paper_runtime \<Rightarrow> paper_runtime" where
  "with_ledger f rt = rt\<lparr>rt_portfolio := (rt_portfolio rt)
     \<lparr>pf_ledger := f (pf_ledger (rt_portfolio rt))\<rparr>\<rparr>"

abbreviation rt_ledger :: "paper_runtime \<Rightarrow> ledger" where
  "rt_ledger rt \<equiv> pf_ledger (rt_portfolio rt)"

abbreviation rt_config :: "paper_runtime \<Rightarrow> strategy_config" where
  "rt_config rt \<equiv> pf_config (rt_portfolio rt)"

text \<open>Look the position up, or register an empty one first.\<close>

definition ensure_position :: "trade_intent \<Rightarrow> string \<Rightarrow> string \<Rightarrow> string \<Rightarrow> ledger \<Rightarrow> ledger" where
  "ensure_position i scout_wallet family ctx l =
     (case dict_get (ld_positions l) (ti_token_mint i) of
        Some p \<Rightarrow> l
      | None \<Rightarrow> register_position
          (new_position (ti_token_mint i) scout_wallet (ti_observed_at i)) family ctx l)"

text \<open>Book a bought fill: cash out, units and cost basis in, one equity point.\<close>

definition book_entry :: "string \<Rightarrow> real \<Rightarrow> simulated_fill \<Rightarrow> real \<Rightarrow> ledger \<Rightarrow> ledger" where
  "book_entry mint cost fill mark l =
     (case dict_get (ld_positions l) mint of
        None \<Rightarrow> l
      | Some p \<Rightarrow> record_equity [mint \<mapsto> mark]
          (put_position mint
             (p\<lparr>po_units := po_units p + fl_units fill,
                po_cost_basis_usd := po_cost_basis_usd p + cost,
                po_entry_capital_usd := po_entry_capital_usd p + cost,
                po_fills := po_fills p @ [fill]\<rparr>)
             (l\<lparr>ld_cash_usd := ld_cash_usd l - cost\<rparr>)))"

definition apply_exact_entry_if_available ::
  "paper_runtime \<Rightarrow> trade_intent \<Rightarrow> string \<Rightarrow> real \<Rightarrow> string \<Rightarrow> string
     \<Rightarrow> bool result \<times> paper_runtime" where
  "apply_exact_entry_if_available rt i scout_wallet reference_price family ctx =
     (case rt_entry rt of
        None \<Rightarrow> (Inr False, rt)
      | Some ev \<Rightarrow>
        if \<not> is_opening (ti_kind i) \<or> oe_token_mint ev \<noteq> ti_token_mint i then (Inr False, rt)
        else let rt1 = rt\<lparr>rt_entry := None\<rparr> in
          if \<not> exact_evidence_valid ev reference_price then (Inr True, rt1)
          else let network_fee = max 0 (oe_network_fee_usd ev);
                   notional = max 0 (oe_input_usd ev);
                   units = max 0 (oe_order_out_token_units ev);
                   price = oe_order_effective_price_sol ev
          in case full_position_notional [ti_token_mint i \<mapsto> price] (rt_portfolio rt1) of
             Inl e \<Rightarrow> (Inl e, rt1)
           | Inr full \<Rightarrow>
             let intended = max 0 (full * ti_fraction_of_full_position i);
                 available = max 0 (ld_cash_usd (rt_ledger rt1) - network_fee);
                 tol = entry_tolerance notional
             in if \<not> isclose notional intended (1 / 10 ^ 6) tol
                   \<or> \<not> notional \<le> available + tol \<or> units \<le> 0 then (Inr True, rt1)
                else (Inr True, with_ledger
                  (\<lambda>l. book_entry (ti_token_mint i) (notional + network_fee)
                     \<lparr>fl_token_mint = ti_token_mint i, fl_side = Buy,
                      fl_observed_at = ti_observed_at i, fl_reference_price = price,
                      fl_fill_price = price, fl_notional_usd = notional, fl_units = units,
                      fl_execution_drag_usd = network_fee, fl_intent = ti_kind i\<rparr> price
                     (ensure_position i scout_wallet family ctx l)) rt1))"

subsection \<open>Applying an intent\<close>

definition apply_opening ::
  "paper_runtime \<Rightarrow> trade_intent \<Rightarrow> string \<Rightarrow> real \<Rightarrow> string \<Rightarrow> string
     \<Rightarrow> py_error option \<times> paper_runtime" where
  "apply_opening rt i scout_wallet reference_price family ctx =
     (case apply_exact_entry_if_available rt i scout_wallet reference_price family ctx of
        (Inl e, rt1) \<Rightarrow> (Some e, rt1)
      | (Inr True, rt1) \<Rightarrow> (None, rt1)
      | (Inr False, rt1) \<Rightarrow>
          let rt2 = with_ledger (ensure_position i scout_wallet family ctx) rt1 in
          (case full_position_notional [ti_token_mint i \<mapsto> reference_price] (rt_portfolio rt2) of
             Inl e \<Rightarrow> (Some e, rt2)
           | Inr full \<Rightarrow>
             let notional = min (ld_cash_usd (rt_ledger rt2)) (full * ti_fraction_of_full_position i) in
             if notional \<le> 0 then (None, rt2)
             else (case sim_buy (rt_config rt2) (ti_token_mint i) (ti_observed_at i)
                          reference_price notional (ti_kind i) of
                 Inl e \<Rightarrow> (Some e, rt2)
               | Inr fill \<Rightarrow> (None, with_ledger
                   (book_entry (ti_token_mint i) notional fill reference_price) rt2))))"

definition apply_harvest :: "strategy_config \<Rightarrow> trade_intent \<Rightarrow> real \<Rightarrow> paper_position \<Rightarrow> ledger \<Rightarrow> ledger" where
  "apply_harvest cf i reference_price p l =
     (let (received, p') = sell_position cf (p\<lparr>po_harvest_hit := True\<rparr>) i reference_price
                             (po_units p * cf_harvest_fraction cf);
          p'' = p'\<lparr>po_runner_units := po_units p', po_high_water_price := Some reference_price\<rparr>
      in record_equity [ti_token_mint i \<mapsto> reference_price]
           (put_position (ti_token_mint i) p''
             (l\<lparr>ld_cash_usd := ld_cash_usd l + received\<rparr>)))"

definition exit_reason :: "trade_intent \<Rightarrow> string" where
  "exit_reason i = (if ti_reason i = '''' then intent_kind_value (ti_kind i) else ti_reason i)"

definition apply_exit :: "strategy_config \<Rightarrow> trade_intent \<Rightarrow> real \<Rightarrow> paper_position \<Rightarrow> ledger \<Rightarrow> ledger" where
  "apply_exit cf i reference_price p l =
     (let l1 = mark_exit_pending (po_token_mint p) l;
          (received, p') = sell_position cf p i reference_price (po_units p);
          p'' = close_position (ti_observed_at i) (exit_reason i) p';
          l2 = put_position (ti_token_mint i) p'' (l1\<lparr>ld_cash_usd := ld_cash_usd l1 + received\<rparr>);
          l3 = l2\<lparr>ld_closed := ld_closed l2 @ [outcome_of p' (ti_observed_at i) (exit_reason i)]\<rparr>
      in record_equity [ti_token_mint i \<mapsto> reference_price]
           (clear_exit_pending (po_token_mint p) l3))"

definition portfolio_apply ::
  "paper_runtime \<Rightarrow> trade_intent \<Rightarrow> string \<Rightarrow> real \<Rightarrow> string \<Rightarrow> string
     \<Rightarrow> py_error option \<times> paper_runtime" where
  "portfolio_apply rt i scout_wallet reference_price family ctx =
     (if is_opening (ti_kind i) then apply_opening rt i scout_wallet reference_price family ctx
      else case dict_get (ld_positions (rt_ledger rt)) (ti_token_mint i) of
        None \<Rightarrow> (None, rt)
      | Some p \<Rightarrow>
          if \<not> is_open p then (None, rt)
          else if ti_kind i = HARVEST then
            (None, with_ledger (apply_harvest (rt_config rt) i reference_price p) rt)
          else if is_exit (ti_kind i) then
            (None, with_ledger (apply_exit (rt_config rt) i reference_price p) rt)
          else (None, rt))"

subsection \<open>Accounting lemmas\<close>

text \<open>
  What the books owe: cash plus the cost basis of the positions, less the initial capital
  and the realised profit. Every operation keeps it, but for the basis that \<open>_sell\<close> writes
  off when a partial sale leaves less than \<open>1e-15\<close> units.
\<close>

definition ledger_balance :: "ledger \<Rightarrow> real" where
  "ledger_balance l = ld_cash_usd l + dict_sum po_cost_basis_usd (ld_positions l)
     - ld_initial_capital_usd l - realized_pnl_usd l"

definition sell_dust :: "paper_position \<Rightarrow> real \<Rightarrow> real" where
  "sell_dust p requested =
     (let units = sold_units p requested in
      if units > 0 \<and> po_units p - units \<le> DUST_UNITS
      then po_cost_basis_usd p * (1 - units / po_units p) else 0)"

lemma DUST_UNITS_pos [simp]: "0 < DUST_UNITS"
  by (simp add: DUST_UNITS_def)

lemma sold_units_bounds:
  "0 \<le> sold_units p req"
  "0 < sold_units p req \<Longrightarrow> sold_units p req \<le> po_units p"
  by (auto simp: sold_units_def max_def min_def split: if_splits)

lemma sold_units_all [simp]: "0 < po_units p \<Longrightarrow> sold_units p (po_units p) = po_units p"
  by (simp add: sold_units_def)

lemma sold_units_harvest_hit [simp]: "sold_units (p\<lparr>po_harvest_hit := b\<rparr>) req = sold_units p req"
  by (simp add: sold_units_def)

lemma sold_fraction:
  assumes "0 < sold_units p req"
  shows "0 \<le> sold_units p req / po_units p" and "sold_units p req / po_units p \<le> 1"
  using sold_units_bounds [of p req] assms by simp_all

lemma sell_position_balance:
  "fst (sell_position cf p i price req) + po_cost_basis_usd (snd (sell_position cf p i price req))
     - po_realized_pnl_usd (snd (sell_position cf p i price req))
   = po_cost_basis_usd p - po_realized_pnl_usd p - sell_dust p req"
  using sold_units_bounds [of p req]
  by (simp add: sell_position_def sell_dust_def sim_sell_def Let_def algebra_simps)

lemma sell_position_frame [simp]:
  "po_token_mint (snd (sell_position cf p i price req)) = po_token_mint p"
  "po_closed_at (snd (sell_position cf p i price req)) = po_closed_at p"
  "po_entry_capital_usd (snd (sell_position cf p i price req)) = po_entry_capital_usd p"
  "po_scout_wallet (snd (sell_position cf p i price req)) = po_scout_wallet p"
  "po_opened_at (snd (sell_position cf p i price req)) = po_opened_at p"
  by (simp_all add: sell_position_def Let_def)

lemma sell_dust_all [simp]: "0 < po_units p \<Longrightarrow> sell_dust p (po_units p) = 0"
  by (simp add: sell_dust_def Let_def)

lemma sell_dust_harvest_hit [simp]: "sell_dust (p\<lparr>po_harvest_hit := b\<rparr>) req = sell_dust p req"
  by (simp add: sell_dust_def Let_def)

lemma sell_dust_nonneg: "0 \<le> po_cost_basis_usd p \<Longrightarrow> 0 \<le> sell_dust p req"
  unfolding sell_dust_def Let_def
  using sold_fraction [of p req] by (auto intro!: mult_nonneg_nonneg simp del: divide_le_eq_1_pos)

lemma sell_position_basis:
  assumes "0 \<le> po_cost_basis_usd p"
  shows "0 \<le> po_cost_basis_usd (snd (sell_position cf p i price req))"
proof -
  have "0 < sold_units p req \<Longrightarrow>
      po_cost_basis_usd p * (sold_units p req / po_units p) \<le> po_cost_basis_usd p"
    using sold_fraction [of p req] assms by (metis mult_left_le)
  with assms show ?thesis by (simp add: sell_position_def Let_def)
qed

lemma sell_position_units:
  "0 \<le> po_units p \<Longrightarrow> 0 \<le> po_units (snd (sell_position cf p i price req))"
  using sold_units_bounds [of p req] by (simp add: sell_position_def Let_def)

lemma sell_position_received:
  "config_ok cf \<Longrightarrow> 0 \<le> price \<Longrightarrow> 0 \<le> fst (sell_position cf p i price req)"
  by (simp add: sell_position_def sim_sell_def Let_def config_ok_def)

lemma sell_position_all:
  "0 < po_units p \<Longrightarrow> po_units (snd (sell_position cf p i price (po_units p))) = 0
     \<and> po_cost_basis_usd (snd (sell_position cf p i price (po_units p))) = 0"
  by (simp add: sell_position_def Let_def)

lemma record_equity_simps [simp]:
  "ld_cash_usd (record_equity m l) = ld_cash_usd l"
  "ld_positions (record_equity m l) = ld_positions l"
  "ld_initial_capital_usd (record_equity m l) = ld_initial_capital_usd l"
  "ld_closed (record_equity m l) = ld_closed l"
  by (simp_all add: record_equity_def)

lemma pending_simps [simp]:
  "ld_cash_usd (mark_exit_pending m l) = ld_cash_usd l"
  "ld_positions (mark_exit_pending m l) = ld_positions l"
  "ld_initial_capital_usd (mark_exit_pending m l) = ld_initial_capital_usd l"
  "ld_closed (mark_exit_pending m l) = ld_closed l"
  "ld_cash_usd (clear_exit_pending m l) = ld_cash_usd l"
  "ld_positions (clear_exit_pending m l) = ld_positions l"
  "ld_initial_capital_usd (clear_exit_pending m l) = ld_initial_capital_usd l"
  "ld_closed (clear_exit_pending m l) = ld_closed l"
  by (simp_all add: mark_exit_pending_def clear_exit_pending_def split: option.splits)

lemma put_position_simps [simp]:
  "ld_cash_usd (put_position m p l) = ld_cash_usd l"
  "ld_positions (put_position m p l) = dict_set m p (ld_positions l)"
  "ld_initial_capital_usd (put_position m p l) = ld_initial_capital_usd l"
  "ld_closed (put_position m p l) = ld_closed l"
  by (simp_all add: put_position_def)

lemma new_position_simps [simp]:
  "po_token_mint (new_position m w t) = m" "po_units (new_position m w t) = 0"
  "po_cost_basis_usd (new_position m w t) = 0" "po_realized_pnl_usd (new_position m w t) = 0"
  "po_closed_at (new_position m w t) = None" "po_entry_capital_usd (new_position m w t) = 0"
  by (simp_all add: new_position_def)

lemma ensure_position_simps [simp]:
  "ld_cash_usd (ensure_position i w f c l) = ld_cash_usd l"
  "ld_initial_capital_usd (ensure_position i w f c l) = ld_initial_capital_usd l"
  "ld_closed (ensure_position i w f c l) = ld_closed l"
  "dict_sum po_cost_basis_usd (ld_positions (ensure_position i w f c l))
     = dict_sum po_cost_basis_usd (ld_positions l)"
  "dict_sum po_realized_pnl_usd (ld_positions (ensure_position i w f c l))
     = dict_sum po_realized_pnl_usd (ld_positions l)"
  by (simp_all add: ensure_position_def register_position_def ledger_simps split: option.splits)

lemma ensure_position_get:
  "dict_get (ld_positions (ensure_position i w f c l)) (ti_token_mint i)
     = Some (or_default (dict_get (ld_positions l) (ti_token_mint i))
         (new_position (ti_token_mint i) w (ti_observed_at i)))"
  by (simp add: ensure_position_def register_position_def split: option.splits)

lemma ledger_balance_simps [simp]:
  "ledger_balance (record_equity marks l) = ledger_balance l"
  "ledger_balance (mark_exit_pending m l) = ledger_balance l"
  "ledger_balance (clear_exit_pending m l) = ledger_balance l"
  "ledger_balance (ensure_position i w f c l) = ledger_balance l"
  "ledger_balance (l\<lparr>ld_closed := cs\<rparr>) = ledger_balance l"
  "ledger_balance (l\<lparr>ld_cash_usd := x\<rparr>) = ledger_balance l - ld_cash_usd l + x"
  by (simp_all add: ledger_balance_def realized_pnl_usd_def)

lemma ledger_balance_put:
  "dict_get (ld_positions l) m = Some p \<Longrightarrow>
     ledger_balance (put_position m p' l) = ledger_balance l
       - (po_cost_basis_usd p - po_realized_pnl_usd p)
       + (po_cost_basis_usd p' - po_realized_pnl_usd p')"
  by (simp add: ledger_balance_def realized_pnl_usd_def ledger_simps)

lemma with_ledger_simps [simp]:
  "rt_ledger (with_ledger f rt) = f (rt_ledger rt)"
  "rt_config (with_ledger f rt) = rt_config rt"
  "rt_entry (with_ledger f rt) = rt_entry rt"
  by (simp_all add: with_ledger_def)

lemma book_entry_balance [simp]: "ledger_balance (book_entry m c fill mark l) = ledger_balance l"
  by (simp add: book_entry_def ledger_balance_put split: option.splits)

lemma apply_harvest_balance:
  assumes "dict_get (ld_positions l) (ti_token_mint i) = Some p"
  shows "ledger_balance (apply_harvest cf i price p l)
    = ledger_balance l - sell_dust p (po_units p * cf_harvest_fraction cf)"
  using sell_position_balance [of cf "p\<lparr>po_harvest_hit := True\<rparr>" i price "po_units p * cf_harvest_fraction cf"]
    assms
  by (simp add: apply_harvest_def split_beta Let_def ledger_balance_put)

lemma apply_exit_balance:
  assumes "dict_get (ld_positions l) (ti_token_mint i) = Some p" and "is_open p"
  shows "ledger_balance (apply_exit cf i price p l) = ledger_balance l"
proof -
  have "0 < po_units p" using assms(2) by (simp add: is_open_def)
  with sell_position_balance [of cf p i price "po_units p"] assms(1) show ?thesis
    by (simp add: apply_exit_def split_beta Let_def ledger_balance_put close_position_def)
qed

text \<open>Every outcome of the exact-entry path, named.\<close>

lemma exact_entry_cases:
  obtains (pass) "apply_exact_entry_if_available rt i w price f c = (Inr False, rt)"
  | (refused) r where "apply_exact_entry_if_available rt i w price f c = (r, rt\<lparr>rt_entry := None\<rparr>)"
      "r \<noteq> Inr False"
  | (booked) ev full where
      "rt_entry rt = Some ev" "oe_token_mint ev = ti_token_mint i" "is_opening (ti_kind i)"
      "exact_evidence_valid ev price"
      "full_position_notional [ti_token_mint i \<mapsto> oe_order_effective_price_sol ev] (rt_portfolio rt) = Inr full"
      "isclose (oe_input_usd ev) (max 0 (full * ti_fraction_of_full_position i)) (1 / 10 ^ 6)
         (entry_tolerance (oe_input_usd ev))"
      "oe_input_usd ev \<le> max 0 (ld_cash_usd (rt_ledger rt) - max 0 (oe_network_fee_usd ev))
         + entry_tolerance (oe_input_usd ev)"
      "apply_exact_entry_if_available rt i w price f c =
        (Inr True, with_ledger
          (\<lambda>l. book_entry (ti_token_mint i) (oe_input_usd ev + max 0 (oe_network_fee_usd ev))
             \<lparr>fl_token_mint = ti_token_mint i, fl_side = Buy, fl_observed_at = ti_observed_at i,
              fl_reference_price = oe_order_effective_price_sol ev,
              fl_fill_price = oe_order_effective_price_sol ev,
              fl_notional_usd = oe_input_usd ev, fl_units = oe_order_out_token_units ev,
              fl_execution_drag_usd = max 0 (oe_network_fee_usd ev), fl_intent = ti_kind i\<rparr>
             (oe_order_effective_price_sol ev) (ensure_position i w f c l))
          (rt\<lparr>rt_entry := None\<rparr>))"
proof (cases "rt_entry rt")
  case None
  then show ?thesis by (intro pass) (simp add: apply_exact_entry_if_available_def)
next
  case (Some ev)
  note call = apply_exact_entry_if_available_def [of rt i w price f c, unfolded Some option.case]
  show ?thesis
  proof (cases "is_opening (ti_kind i) \<and> oe_token_mint ev = ti_token_mint i")
    case False
    then show ?thesis by (intro pass) (auto simp: call)
  next
    case hit: True
    show ?thesis
    proof (cases "exact_evidence_valid ev price")
      case False
      with hit show ?thesis by (intro refused [of "Inr True"]) (auto simp: call)
    next
      case valid: True
      then have pos: "0 < oe_input_usd ev" "0 < oe_order_out_token_units ev"
        by (simp_all add: exact_evidence_valid_def)
      let ?full = "full_position_notional [ti_token_mint i \<mapsto> oe_order_effective_price_sol ev] (rt_portfolio rt)"
      show ?thesis
      proof (cases ?full)
        case (Inl e)
        with hit valid show ?thesis by (intro refused [of "Inl e"]) (auto simp: call Let_def)
      next
        case (Inr full)
        show ?thesis
        proof (cases "isclose (oe_input_usd ev) (max 0 (full * ti_fraction_of_full_position i)) (1 / 10 ^ 6)
             (entry_tolerance (oe_input_usd ev))
            \<and> oe_input_usd ev \<le> max 0 (ld_cash_usd (rt_ledger rt) - max 0 (oe_network_fee_usd ev))
                + entry_tolerance (oe_input_usd ev)")
          case True
          with hit valid Inr pos Some show ?thesis
            by (intro booked [of ev full]) (auto simp: call Let_def)
        next
          case False
          with hit valid Inr pos show ?thesis
            by (intro refused [of "Inr True"]) (auto simp: call Let_def)
        qed
      qed
    qed
  qed
qed

lemma full_position_notional_ensure:
  "rt_config (with_ledger f rt) = rt_config rt" by simp

text \<open>And every outcome of \<open>apply\<close>: nothing, a fresh empty position, an entry, a harvest, an exit.\<close>

lemma apply_cases:
  obtains (same) e ent where "portfolio_apply rt i w price f c = (e, rt\<lparr>rt_entry := ent\<rparr>)"
      "ent = rt_entry rt \<or> ent = None"
  | (registered) e where "portfolio_apply rt i w price f c
        = (e, with_ledger (ensure_position i w f c) rt)" "is_opening (ti_kind i)"
  | (entered) full fill where "is_opening (ti_kind i)"
      "full_position_notional [ti_token_mint i \<mapsto> price]
         (rt_portfolio (with_ledger (ensure_position i w f c) rt)) = Inr full"
      "0 < min (ld_cash_usd (rt_ledger rt)) (full * ti_fraction_of_full_position i)"
      "sim_buy (rt_config rt) (ti_token_mint i) (ti_observed_at i) price
         (min (ld_cash_usd (rt_ledger rt)) (full * ti_fraction_of_full_position i)) (ti_kind i)
         = Inr fill"
      "portfolio_apply rt i w price f c = (None, with_ledger
         (book_entry (ti_token_mint i)
            (min (ld_cash_usd (rt_ledger rt)) (full * ti_fraction_of_full_position i)) fill price)
         (with_ledger (ensure_position i w f c) rt))"
  | (exact) ev fill where "is_opening (ti_kind i)" "rt_entry rt = Some ev"
      "exact_evidence_valid ev price"
      "fl_units fill = oe_order_out_token_units ev"
      "oe_input_usd ev \<le> max 0 (ld_cash_usd (rt_ledger rt) - max 0 (oe_network_fee_usd ev))
         + entry_tolerance (oe_input_usd ev)"
      "portfolio_apply rt i w price f c = (None, with_ledger
         (\<lambda>l. book_entry (ti_token_mint i) (oe_input_usd ev + max 0 (oe_network_fee_usd ev))
            fill (oe_order_effective_price_sol ev) (ensure_position i w f c l))
         (rt\<lparr>rt_entry := None\<rparr>))"
  | (harvest) p where "dict_get (ld_positions (rt_ledger rt)) (ti_token_mint i) = Some p"
      "is_open p" "ti_kind i = HARVEST"
      "portfolio_apply rt i w price f c
         = (None, with_ledger (apply_harvest (rt_config rt) i price p) rt)"
  | (exit) p where "dict_get (ld_positions (rt_ledger rt)) (ti_token_mint i) = Some p"
      "is_open p" "is_exit (ti_kind i)"
      "portfolio_apply rt i w price f c
         = (None, with_ledger (apply_exit (rt_config rt) i price p) rt)"
proof (cases "is_opening (ti_kind i)")
  case False
  note call = portfolio_apply_def [of rt i w price f c]
  show ?thesis
  proof (cases "dict_get (ld_positions (rt_ledger rt)) (ti_token_mint i)")
    case None
    with False show ?thesis by (intro same [of None "rt_entry rt"]) (simp_all add: call)
  next
    case (Some p)
    show ?thesis
    proof (cases "is_open p")
      case opened: True
      consider "ti_kind i = HARVEST" | "ti_kind i \<noteq> HARVEST" "is_exit (ti_kind i)"
        | "ti_kind i \<noteq> HARVEST" "\<not> is_exit (ti_kind i)" by blast
      then show ?thesis
      proof cases
        case 1
        with Some opened False show ?thesis by (intro harvest [of p]) (simp_all add: call)
      next
        case 2
        with Some opened False show ?thesis by (intro exit [of p]) (simp_all add: call)
      next
        case 3
        with Some opened False show ?thesis
          by (intro same [of None "rt_entry rt"]) (simp_all add: call)
      qed
    next
      case False
      with Some \<open>\<not> is_opening (ti_kind i)\<close> show ?thesis
        by (intro same [of None "rt_entry rt"]) (simp_all add: call)
    qed
  qed
next
  case openk: True
  then have call: "portfolio_apply rt i w price f c = apply_opening rt i w price f c"
    by (simp add: portfolio_apply_def)
  show ?thesis
  proof (cases rule: exact_entry_cases [of rt i w price f c])
    case pass
    let ?rt2 = "with_ledger (ensure_position i w f c) rt"
    show ?thesis
    proof (cases "full_position_notional [ti_token_mint i \<mapsto> price] (rt_portfolio ?rt2)")
      case (Inl e)
      with pass openk show ?thesis
        by (intro registered [of "Some e"]) (simp_all add: call apply_opening_def)
    next
      case (Inr full)
      let ?n = "min (ld_cash_usd (rt_ledger rt)) (full * ti_fraction_of_full_position i)"
      let ?buy = "sim_buy (rt_config rt) (ti_token_mint i) (ti_observed_at i) price ?n (ti_kind i)"
      have run: "apply_opening rt i w price f c = (if ?n \<le> 0 then (None, ?rt2)
          else (case ?buy of Inl e \<Rightarrow> (Some e, ?rt2)
            | Inr fill \<Rightarrow> (None, with_ledger (book_entry (ti_token_mint i) ?n fill price) ?rt2)))"
        using pass Inr by (simp add: apply_opening_def Let_def)
      show ?thesis
      proof (cases "?n \<le> 0")
        case True
        with run openk show ?thesis by (intro registered [of None]) (simp_all add: call)
      next
        case some: False
        show ?thesis
        proof (cases ?buy)
          case (Inl e)
          with run some openk show ?thesis
            by (intro registered [of "Some e"]) (simp_all only: call if_False sum.case)
        next
          case (Inr fill)
          have "0 < ?n" using some by (simp only: not_le)
          from openk \<open>full_position_notional _ _ = Inr full\<close> this Inr show ?thesis
            by (rule entered) (use run some Inr in \<open>simp only: call if_False sum.case\<close>)
        qed
      qed
    qed
  next
    case (refused r)
    then show ?thesis
      by (cases r) (auto simp: call apply_opening_def intro!: same split: bool.splits)
  next
    case (booked ev full)
    show ?thesis
      by (rule exact [OF openk booked(1,4) _ booked(7)])
        (auto simp: call apply_opening_def booked(8))
  qed
qed

subsection \<open>The portfolio as a machine\<close>

record apply_call =
  ac_intent :: trade_intent
  ac_scout_wallet :: string
  ac_reference_price :: real
  ac_family :: string
  ac_context :: string

definition do_apply :: "paper_runtime \<Rightarrow> apply_call \<Rightarrow> paper_runtime" where
  "do_apply rt a = snd (portfolio_apply rt (ac_intent a) (ac_scout_wallet a)
     (ac_reference_price a) (ac_family a) (ac_context a))"

text \<open>The outputs of a step are the trade outcomes it appended.\<close>

definition portfolio_step :: "paper_runtime \<Rightarrow> apply_call \<Rightarrow> paper_runtime \<times> trade_outcome list" where
  "portfolio_step rt a = (do_apply rt a,
     drop (length (ld_closed (rt_ledger rt))) (ld_closed (rt_ledger (do_apply rt a))))"

definition harvest_dust :: "paper_runtime \<Rightarrow> trade_intent \<Rightarrow> real" where
  "harvest_dust rt i =
     (case dict_get (ld_positions (rt_ledger rt)) (ti_token_mint i) of
        Some p \<Rightarrow> if ti_kind i = HARVEST \<and> is_open p
          then sell_dust p (po_units p * cf_harvest_fraction (rt_config rt)) else 0
      | None \<Rightarrow> 0)"

lemma kinds_disjoint:
  "is_opening k \<Longrightarrow> k \<noteq> HARVEST" "is_exit k \<Longrightarrow> k \<noteq> HARVEST"
  "is_opening k \<Longrightarrow> \<not> is_exit k"
  by (auto simp: is_opening_def is_exit_def)

lemma apply_closed_harvest_none:
  "is_opening (ti_kind i) \<Longrightarrow> harvest_dust rt i = 0"
  by (auto simp: harvest_dust_def kinds_disjoint split: option.splits)

lemma rt_entry_update [simp]:
  "rt_ledger (rt\<lparr>rt_entry := ent\<rparr>) = rt_ledger rt" "rt_config (rt\<lparr>rt_entry := ent\<rparr>) = rt_config rt"
  by simp_all

lemma harvest_dust_nonneg:
  assumes "\<And>p. dict_get (ld_positions (rt_ledger rt)) (ti_token_mint i) = Some p
      \<Longrightarrow> 0 \<le> po_cost_basis_usd p"
  shows "0 \<le> harvest_dust rt i"
  using assms by (auto simp: harvest_dust_def sell_dust_nonneg split: option.splits)

subsection \<open>Positions that owe nothing\<close>

definition positions_all :: "(paper_position \<Rightarrow> bool) \<Rightarrow> ledger \<Rightarrow> bool" where
  "positions_all P l \<longleftrightarrow> (\<forall>m p. dict_get (ld_positions l) m = Some p \<longrightarrow> P p)"

lemma positions_allD: "positions_all P l \<Longrightarrow> dict_get (ld_positions l) m = Some p \<Longrightarrow> P p"
  by (auto simp: positions_all_def)

lemma positions_all_simps [simp]:
  "positions_all P (record_equity mk l) = positions_all P l"
  "positions_all P (mark_exit_pending m l) = positions_all P l"
  "positions_all P (clear_exit_pending m l) = positions_all P l"
  "positions_all P (l\<lparr>ld_closed := cs\<rparr>) = positions_all P l"
  "positions_all P (l\<lparr>ld_cash_usd := x\<rparr>) = positions_all P l"
  by (simp_all add: positions_all_def)

lemma positions_all_put: "positions_all P l \<Longrightarrow> P p \<Longrightarrow> positions_all P (put_position m p l)"
  by (auto simp: positions_all_def od.get_put split: if_splits)

lemma positions_all_ensure:
  "positions_all P l \<Longrightarrow> (\<And>m w t. P (new_position m w t)) \<Longrightarrow> positions_all P (ensure_position i w f c l)"
  by (auto simp: ensure_position_def register_position_def positions_all_def od.get_put
      split: option.splits if_splits)

definition bought :: "real \<Rightarrow> simulated_fill \<Rightarrow> paper_position \<Rightarrow> paper_position" where
  "bought cost fill p = p\<lparr>po_units := po_units p + fl_units fill,
     po_cost_basis_usd := po_cost_basis_usd p + cost,
     po_entry_capital_usd := po_entry_capital_usd p + cost, po_fills := po_fills p @ [fill]\<rparr>"

lemma positions_all_book:
  "positions_all P l \<Longrightarrow> (\<And>p. P p \<Longrightarrow> P (bought cost fill p)) \<Longrightarrow>
     positions_all P (book_entry m cost fill mark l)"
  by (auto simp: book_entry_def bought_def split: option.splits
      intro!: positions_all_put dest: positions_allD)

lemma book_entry_cash:
  "dict_get (ld_positions l) m \<noteq> None \<Longrightarrow> ld_cash_usd (book_entry m cost fill mark l) = ld_cash_usd l - cost"
  by (auto simp: book_entry_def)

abbreviation basis_ok :: "paper_position \<Rightarrow> bool" where
  "basis_ok p \<equiv> 0 \<le> po_cost_basis_usd p"

abbreviation units_ok :: "paper_position \<Rightarrow> bool" where
  "units_ok p \<equiv> 0 \<le> po_units p"

lemma apply_harvest_positions:
  assumes "positions_all P l" and "dict_get (ld_positions l) (ti_token_mint i) = Some p"
    and "\<And>req x y z. P p \<Longrightarrow> P ((snd (sell_position cf (p\<lparr>po_harvest_hit := x\<rparr>) i price req))
           \<lparr>po_runner_units := y, po_high_water_price := z\<rparr>)"
  shows "positions_all P (apply_harvest cf i price p l)"
  using assms positions_allD [OF assms(1,2)]
  by (auto simp: apply_harvest_def split_beta Let_def intro!: positions_all_put)

lemma apply_exit_positions:
  assumes "positions_all P l" and "dict_get (ld_positions l) (ti_token_mint i) = Some p"
    and "\<And>req. P p \<Longrightarrow> P (close_position (ti_observed_at i) (exit_reason i)
           (snd (sell_position cf p i price req)))"
  shows "positions_all P (apply_exit cf i price p l)"
  using assms positions_allD [OF assms(1,2)]
  by (auto simp: apply_exit_def split_beta Let_def intro!: positions_all_put)

lemma sim_buy_units:
  "sim_buy cf m t price n k = Inr fill \<Longrightarrow> 0 < n \<Longrightarrow> 0 < price \<Longrightarrow> config_ok cf \<Longrightarrow> 0 < fl_units fill"
  by (auto simp: sim_buy_def Let_def bind_result_Inr_iff py_div_Inr_iff config_ok_def)

lemma apply_basis:
  assumes inv: "positions_all basis_ok (rt_ledger rt)"
  shows "positions_all basis_ok (rt_ledger (snd (portfolio_apply rt i w price f c)))"
proof (cases rule: apply_cases [of rt i w price f c])
  case (same e ent)
  with inv show ?thesis by simp
next
  case (registered e)
  with inv show ?thesis by (simp add: positions_all_ensure)
next
  case (entered full fill)
  then show ?thesis
    using inv by (auto simp: bought_def intro!: positions_all_book positions_all_ensure)
next
  case (exact ev fill)
  then show ?thesis
    using inv by (auto simp: bought_def exact_evidence_valid_def intro!: positions_all_book positions_all_ensure)
next
  case (harvest p)
  with inv show ?thesis
    by (auto intro!: apply_harvest_positions simp: sell_position_basis)
next
  case (exit p)
  with inv show ?thesis
    by (auto intro!: apply_exit_positions simp: sell_position_basis close_position_def)
qed

lemma apply_balance:
  "ledger_balance (rt_ledger (snd (portfolio_apply rt i w price f c)))
     = ledger_balance (rt_ledger rt) - harvest_dust rt i"
proof (cases rule: apply_cases [of rt i w price f c])
  case (same e ent)
  show ?thesis
  proof (cases "harvest_dust rt i = 0")
    case True
    with same show ?thesis by simp
  next
    case False
    then obtain p where p: "dict_get (ld_positions (rt_ledger rt)) (ti_token_mint i) = Some p"
      "ti_kind i = HARVEST" "is_open p"
      by (auto simp: harvest_dust_def split: option.splits if_splits)
    then have "portfolio_apply rt i w price f c
        = (None, with_ledger (apply_harvest (rt_config rt) i price p) rt)"
      by (auto simp: portfolio_apply_def is_opening_def)
    with p show ?thesis by (simp add: apply_harvest_balance harvest_dust_def)
  qed
next
  case (registered e)
  then show ?thesis by (simp add: apply_closed_harvest_none)
next
  case (entered full fill)
  then show ?thesis by (simp add: apply_closed_harvest_none)
next
  case (exact ev fill)
  then show ?thesis by (simp add: apply_closed_harvest_none)
next
  case (harvest p)
  then show ?thesis by (simp add: apply_harvest_balance harvest_dust_def)
next
  case (exit p)
  then show ?thesis
    by (simp add: apply_exit_balance harvest_dust_def kinds_disjoint)
qed

definition no_money_created :: "paper_runtime \<Rightarrow> bool" where
  "no_money_created rt \<longleftrightarrow>
     positions_all basis_ok (rt_ledger rt) \<and> ledger_balance (rt_ledger rt) \<le> 0"

definition solvent :: "paper_runtime \<Rightarrow> bool" where
  "solvent rt \<longleftrightarrow> config_ok (rt_config rt) \<and> rt_entry rt = None
     \<and> 0 \<le> ld_cash_usd (rt_ledger rt) \<and> positions_all units_ok (rt_ledger rt)"

lemma apply_no_money_created:
  assumes "no_money_created rt"
  shows "no_money_created (snd (portfolio_apply rt i w price f c))"
proof -
  have "positions_all basis_ok (rt_ledger rt)" using assms by (simp add: no_money_created_def)
  then have "0 \<le> harvest_dust rt i" by (intro harvest_dust_nonneg) (rule positions_allD)
  with assms apply_basis apply_balance [of rt i w price f c] show ?thesis
    by (auto simp: no_money_created_def)
qed

lemma apply_solvent:
  assumes inv: "solvent rt" and price: "0 < price"
  shows "solvent (snd (portfolio_apply rt i w price f c))"
proof (cases rule: apply_cases [of rt i w price f c])
  case (same e ent)
  with inv show ?thesis by (auto simp: solvent_def)
next
  case (registered e)
  with inv show ?thesis by (simp add: solvent_def positions_all_ensure)
next
  case (entered full fill)
  let ?n = "min (ld_cash_usd (rt_ledger rt)) (full * ti_fraction_of_full_position i)"
  have "0 < fl_units fill" using entered inv price
    by (auto intro: sim_buy_units [of "rt_config rt"] simp: solvent_def simp del: min_less_iff_conj)
  then have "positions_all units_ok (book_entry (ti_token_mint i) ?n fill price
      (ensure_position i w f c (rt_ledger rt)))"
    using inv by (auto simp: bought_def solvent_def intro!: positions_all_book positions_all_ensure)
  with entered inv show ?thesis by (simp add: solvent_def book_entry_cash ensure_position_get)
next
  case (exact ev fill)
  with inv show ?thesis by (simp add: solvent_def)
next
  case (harvest p)
  have "positions_all units_ok (apply_harvest (rt_config rt) i price p (rt_ledger rt))"
    using harvest inv by (auto intro!: apply_harvest_positions simp: sell_position_units solvent_def)
  with harvest inv price show ?thesis
    by (simp add: solvent_def apply_harvest_def split_beta Let_def sell_position_received)
next
  case (exit p)
  have "positions_all units_ok (apply_exit (rt_config rt) i price p (rt_ledger rt))"
    using exit inv
    by (auto intro!: apply_exit_positions simp: sell_position_units close_position_def solvent_def)
  with exit inv price show ?thesis
    by (simp add: solvent_def apply_exit_def split_beta Let_def sell_position_received)
qed

interpretation books: invariant_machine portfolio_step "\<lambda>_. True" no_money_created
  by unfold_locales (simp add: portfolio_step_def do_apply_def apply_no_money_created)

interpretation purse: invariant_machine portfolio_step "\<lambda>a. 0 < ac_reference_price a" solvent
  by unfold_locales (simp add: portfolio_step_def do_apply_def apply_solvent)

definition fresh_runtime :: "portfolio \<Rightarrow> paper_runtime" where
  "fresh_runtime pf = \<lparr>rt_entry = None, rt_portfolio = pf\<rparr>"

lemma new_portfolio_Inr:
  "new_portfolio cf = Inr pf \<longleftrightarrow> cf_paper_only cf \<and> 0 < cf_initial_capital_usd cf
     \<and> pf = \<lparr>pf_config = cf, pf_ledger = \<lparr>ld_initial_capital_usd = cf_initial_capital_usd cf,
           ld_cash_usd = cf_initial_capital_usd cf, ld_positions = [], ld_closed = [],
           ld_pending_exits = [], ld_family_by_mint = [], ld_context_by_mint = [],
           ld_equity_history = [cf_initial_capital_usd cf]\<rparr>\<rparr>"
  by (auto simp: new_portfolio_def new_ledger_def)

lemma fresh_invariants:
  assumes "new_portfolio cf = Inr pf"
  shows "no_money_created (fresh_runtime pf)"
    and "config_ok cf \<Longrightarrow> solvent (fresh_runtime pf)"
  using assms by (auto simp: new_portfolio_Inr fresh_runtime_def no_money_created_def solvent_def
      positions_all_def ledger_balance_def realized_pnl_usd_def)

definition demo_portfolio :: portfolio where
  "demo_portfolio = \<lparr>pf_config = BASELINE, pf_ledger = \<lparr>ld_initial_capital_usd = 500,
     ld_cash_usd = 500, ld_positions = [], ld_closed = [], ld_pending_exits = [],
     ld_family_by_mint = [], ld_context_by_mint = [], ld_equity_history = [500]\<rparr>\<rparr>"

lemma demo_portfolio_new [simp]: "new_portfolio BASELINE = Inr demo_portfolio"
  by (simp add: new_portfolio_Inr demo_portfolio_def)

definition demo_open :: apply_call where
  "demo_open = \<lparr>ac_intent = \<lparr>ti_kind = OPEN_FULL, ti_token_mint = ''M'', ti_observed_at = 0,
       ti_fraction_of_full_position = 1, ti_reason = ''go''\<rparr>, ac_scout_wallet = ''W'',
     ac_reference_price = 2, ac_family = ''legacy_runtime'', ac_context = ''unclassified''\<rparr>"

subsection \<open>Properties\<close>

text \<open>Applying any intent, whether it succeeds, is refused or raises, leaves cash plus
  cost basis less initial capital and realised profit exactly where it was; the one exception
  is a harvest that leaves no more than the dust threshold, which writes off exactly the cost
  basis of the dust.\<close>

theorem apply_keeps_books:
  "ledger_balance (rt_ledger (snd (portfolio_apply rt i w price f c)))
     = ledger_balance (rt_ledger rt) - harvest_dust rt i"
  by (rule apply_balance)

text \<open>No sequence of intents at any prices, with or without exact-entry evidence, creates
  money: from a new portfolio, cash plus the cost basis of the positions never exceeds the
  initial capital plus the realised profit.\<close>

theorem portfolio_creates_no_money:
  assumes "new_portfolio cf = Inr pf"
    and "rt = fst (run_machine portfolio_step (fresh_runtime pf) calls)"
  shows "ld_cash_usd (rt_ledger rt) + dict_sum po_cost_basis_usd (ld_positions (rt_ledger rt))
     \<le> ld_initial_capital_usd (rt_ledger rt) + realized_pnl_usd (rt_ledger rt)"
  using books.run_inv [OF fresh_invariants(1) [OF assms(1)], of calls] assms(2)
  by (simp add: no_money_created_def ledger_balance_def)

theorem portfolio_creates_no_money_witness:
  "ld_cash_usd (rt_ledger (fst (run_machine portfolio_step (fresh_runtime demo_portfolio) [demo_open])))
     \<le> 500"
proof -
  let ?rt = "fst (run_machine portfolio_step (fresh_runtime demo_portfolio) [demo_open])"
  have "ld_cash_usd (rt_ledger ?rt) + dict_sum po_cost_basis_usd (ld_positions (rt_ledger ?rt))
      \<le> ld_initial_capital_usd (rt_ledger ?rt) + realized_pnl_usd (rt_ledger ?rt)"
    by (rule portfolio_creates_no_money [OF demo_portfolio_new refl])
  then show ?thesis
    by (simp add: portfolio_step_def do_apply_def portfolio_apply_def apply_opening_def demo_open_def
        fresh_runtime_def demo_portfolio_def apply_exact_entry_if_available_def is_opening_def
        ensure_position_def register_position_def new_position_def full_position_notional_def
        full_position_fraction_of_nav_def ledger_nav_def is_open_def mark_price_def with_ledger_def
        sim_buy_def Let_def book_entry_def put_position_def record_equity_def realized_pnl_usd_def)
qed

text \<open>As long as no exact-entry evidence is consumed and the reference prices are positive,
  paper cash never becomes negative and no position ever holds negative units.\<close>

theorem portfolio_stays_solvent:
  assumes "new_portfolio cf = Inr pf" and "config_ok cf"
    and "list_all (\<lambda>a. 0 < ac_reference_price a) calls"
    and "rt = fst (run_machine portfolio_step (fresh_runtime pf) calls)"
  shows "0 \<le> ld_cash_usd (rt_ledger rt)
    \<and> (\<forall>m p. dict_get (ld_positions (rt_ledger rt)) m = Some p \<longrightarrow> 0 \<le> po_units p)"
  using purse.run_inv [OF fresh_invariants(2) [OF assms(1,2)] assms(3)] assms(4)
  by (simp add: solvent_def positions_all_def)

theorem portfolio_stays_solvent_witness:
  "0 \<le> ld_cash_usd (rt_ledger (fst (run_machine portfolio_step (fresh_runtime demo_portfolio) [demo_open])))"
  using portfolio_stays_solvent [OF demo_portfolio_new BASELINE_ok, of "[demo_open]"]
  by (simp add: demo_open_def)

text \<open>An exit intent for an open position sells all of it at the drag-reduced price, zeroes
  its units and cost basis, marks it closed, and appends exactly one outcome whose return is
  attributed to the capital committed to the position, not to the portfolio's value.\<close>

theorem exit_settles_position:
  assumes "dict_get (ld_positions (rt_ledger rt)) (ti_token_mint i) = Some p" and "is_open p"
    and "is_exit (ti_kind i)"
    and "price' = price * (1 - cf_execution_drag_per_side_fraction (rt_config rt))"
    and "l = rt_ledger (snd (portfolio_apply rt i w price f c))"
  shows "ld_cash_usd l = ld_cash_usd (rt_ledger rt) + po_units p * price'
    \<and> (\<exists>q out. dict_get (ld_positions l) (ti_token_mint i) = Some q
         \<and> po_units q = 0 \<and> po_cost_basis_usd q = 0 \<and> po_closed_at q = Some (ti_observed_at i)
         \<and> ld_closed l = ld_closed (rt_ledger rt) @ [out]
         \<and> to_starting_nav_usd out = po_entry_capital_usd p
         \<and> to_net_pnl_usd out = po_realized_pnl_usd p + po_units p * price' - po_cost_basis_usd p
         \<and> to_ending_nav_usd out = to_starting_nav_usd out + to_net_pnl_usd out
         \<and> (po_entry_capital_usd p = 0 \<or>
            to_return_on_starting_nav out * po_entry_capital_usd p = to_net_pnl_usd out))"
proof -
  have pos: "0 < po_units p" using assms(2) by (simp add: is_open_def)
  have l: "l = apply_exit (rt_config rt) i price p (rt_ledger rt)"
    using assms kinds_disjoint by (auto simp: portfolio_apply_def)
  have recv: "fst (sell_position (rt_config rt) p i price (po_units p)) = po_units p * price'"
    and pnl: "po_realized_pnl_usd (snd (sell_position (rt_config rt) p i price (po_units p)))
        = po_realized_pnl_usd p + po_units p * price' - po_cost_basis_usd p"
    using pos assms(4) by (simp_all add: sell_position_def sim_sell_def Let_def)
  show ?thesis
    using sell_position_all [OF pos, of "rt_config rt" i price]
    by (simp add: l apply_exit_def split_beta Let_def recv close_position_def outcome_of_def pnl)
qed

definition demo_position :: paper_position where
  "demo_position = (new_position ''M'' ''W'' 0)
     \<lparr>po_units := 10, po_cost_basis_usd := 20, po_entry_capital_usd := 20\<rparr>"

definition demo_holding :: paper_runtime where
  "demo_holding = with_ledger (put_position ''M'' demo_position) (fresh_runtime demo_portfolio)"

theorem exit_settles_position_witness:
  "ld_cash_usd (rt_ledger (snd (portfolio_apply demo_holding
      \<lparr>ti_kind = EXIT_STOP, ti_token_mint = ''M'', ti_observed_at = 9,
       ti_fraction_of_full_position = 0, ti_reason = ''stop''\<rparr> ''W'' 1 ''f'' ''c''))) = 500 + 975 / 100"
  using exit_settles_position [of demo_holding
      "\<lparr>ti_kind = EXIT_STOP, ti_token_mint = ''M'', ti_observed_at = 9,
        ti_fraction_of_full_position = 0, ti_reason = ''stop''\<rparr>" demo_position "975 / 1000" 1 _ "''W''" "''f''" "''c''"]
  by (simp add: demo_holding_def demo_position_def is_open_def is_exit_def new_position_def
      fresh_runtime_def demo_portfolio_def put_position_def with_ledger_def)

text \<open>Exact-entry evidence for the mint of an opening intent is consumed whatever happens,
  and then either the ledger is untouched or one fill of exactly the quoted units and amount is
  booked. The booked amount can exceed the cash that is left after the network fee by no more
  than the numeric tolerance, so cash ends no lower than that tolerance below zero when the fee
  itself is covered.\<close>

theorem exact_entry_consumed_and_bounded:
  assumes "rt_entry rt = Some ev" and "is_opening (ti_kind i)"
    and "oe_token_mint ev = ti_token_mint i"
    and "apply_exact_entry_if_available rt i w price f c = (r, rt')"
  shows "rt_entry rt' = None \<and> r \<noteq> Inr False
    \<and> (rt_ledger rt' = rt_ledger rt
       \<or> ld_cash_usd (rt_ledger rt') = ld_cash_usd (rt_ledger rt)
            - oe_input_usd ev - max 0 (oe_network_fee_usd ev)
          \<and> (ld_cash_usd (rt_ledger rt) < max 0 (oe_network_fee_usd ev)
             \<or> - entry_tolerance (oe_input_usd ev) \<le> ld_cash_usd (rt_ledger rt')))"
proof (cases rule: exact_entry_cases [of rt i w price f c])
  case pass
  have "fst (apply_exact_entry_if_available rt i w price f c) \<noteq> Inr False"
    using assms(1-3) by (auto simp: apply_exact_entry_if_available_def Let_def split: sum.splits)
  with pass show ?thesis by simp
next
  case (refused r')
  with assms show ?thesis by auto
next
  case (booked ev' full)
  with assms show ?thesis
    by (auto simp: book_entry_cash ensure_position_get)
qed

definition demo_evidence :: observed_entry where
  "demo_evidence = \<lparr>oe_token_mint = ''M'', oe_stage = ''full'', oe_completed_at = 0,
     oe_input_lamports = 1, oe_input_sol = 1, oe_input_usd = 12, oe_order_effective_price_sol = 2,
     oe_order_out_token_units = 6, oe_order_drift_fraction = 0, oe_router = ''r'',
     oe_route_fee_bps = 0, oe_signature_fee_lamports = 0, oe_prioritization_fee_lamports = 0,
     oe_rent_fee_lamports = 0, oe_network_fee_lamports = 0, oe_network_fee_usd = 0,
     oe_final_quote_latency_ms = 0, oe_final_chain_to_quote_ms = 0, oe_simulation_ok = True\<rparr>"

theorem exact_entry_consumed_and_bounded_witness:
  "\<exists>r rt'. apply_exact_entry_if_available
       ((fresh_runtime demo_portfolio)\<lparr>rt_entry := Some demo_evidence\<rparr>)
       (ac_intent demo_open) ''W'' 2 ''f'' ''c'' = (r, rt') \<and> rt_entry rt' = None"
proof -
  let ?rt = "(fresh_runtime demo_portfolio)\<lparr>rt_entry := Some demo_evidence\<rparr>"
  obtain r rt' where run: "apply_exact_entry_if_available ?rt (ac_intent demo_open) ''W'' 2 ''f'' ''c'' = (r, rt')"
    by fastforce
  have "rt_entry rt' = None"
    using exact_entry_consumed_and_bounded [OF _ _ _ run]
    by (simp add: is_opening_def demo_open_def demo_evidence_def)
  with run show ?thesis by blast
qed

end
