(* ===== verification/Engine.thy ===== *)
theory Engine
  imports Strategy Portfolio "HOL-Library.Sublist"
begin

text \<open>
  \<open>engine.py\<close>: \<open>PaperTradingEngine\<close> feeds signals and prices to the strategy, applies the
  intents to the paper portfolio and appends everything to the event store. The engine relies
  on the portfolio through the contract of the locale \<open>position_book\<close>, discharged here for
  \<open>portfolio_apply\<close>; together with the lifecycle that the strategy refines it gives that a
  closed position stays closed and empty and that a mint settles at most once.
\<close>

datatype log_event =
    LogFirstTouch wallet_touch risk_snapshot string
  | LogConfirmation confirmation risk_snapshot
  | LogPrice string datetime real
  | LogTradeIntent trade_intent real
  | LogTradeOutcome trade_outcome

record engine =
  en_strategy :: strategy
  en_runtime :: paper_runtime
  en_store :: "log_event list option"
  en_marks :: "string \<rightharpoonup> real"

definition append_event :: "log_event \<Rightarrow> engine \<Rightarrow> engine" where
  "append_event ev g = g\<lparr>en_store := map_option (\<lambda>log. log @ [ev]) (en_store g)\<rparr>"

definition engine_apply ::
  "paper_runtime \<Rightarrow> trade_intent \<Rightarrow> string \<Rightarrow> real \<Rightarrow> py_error option \<times> paper_runtime" where
  "engine_apply rt i scout_wallet price =
     portfolio_apply rt i scout_wallet price ''legacy_runtime'' ''unclassified''"

text \<open>The loop over the intents of one call; a raise leaves the rest unapplied.\<close>

fun apply_intents :: "engine \<Rightarrow> string \<Rightarrow> real \<Rightarrow> trade_intent list \<Rightarrow> py_error option \<times> engine" where
  "apply_intents g scout_wallet price [] = (None, g)"
| "apply_intents g scout_wallet price (i # is) =
     (case engine_apply (en_runtime g) i scout_wallet price of
        (Some e, rt) \<Rightarrow> (Some e, g\<lparr>en_runtime := rt\<rparr>)
      | (None, rt) \<Rightarrow> apply_intents (append_event (LogTradeIntent i price) (g\<lparr>en_runtime := rt\<rparr>))
                        scout_wallet price is)"

fun append_outcomes :: "trade_outcome list \<Rightarrow> engine \<Rightarrow> engine" where
  "append_outcomes [] g = g"
| "append_outcomes (out # outs) g = append_outcomes outs (append_event (LogTradeOutcome out) g)"

definition on_first_touch ::
  "engine \<Rightarrow> wallet_touch \<Rightarrow> risk_snapshot \<Rightarrow> real option \<Rightarrow> py_error option \<times> engine" where
  "on_first_touch g w r execution_price =
     (let price = or_default execution_price (wt_reference_price w);
          g1 = append_event (LogFirstTouch w r (cf_version (st_config (en_strategy g))))
                 (g\<lparr>en_marks := (en_marks g)(wt_token_mint w \<mapsto> price)\<rparr>);
          (s', is) = first_touch (en_strategy g1) w r
      in apply_intents (g1\<lparr>en_strategy := s'\<rparr>) (wt_wallet w) price is)"

definition on_confirmation ::
  "engine \<Rightarrow> confirmation \<Rightarrow> risk_snapshot \<Rightarrow> real option \<Rightarrow> py_error option \<times> engine" where
  "on_confirmation g n r execution_price =
     (let price = or_default execution_price (cn_reference_price n);
          g1 = append_event (LogConfirmation n r)
                 (g\<lparr>en_marks := (en_marks g)(cn_token_mint n \<mapsto> price)\<rparr>);
          scout = (case st_candidates (en_strategy g1) (cn_token_mint n) of
                     Some c \<Rightarrow> ca_scout_wallet c | None \<Rightarrow> cn_wallet n)
      in case confirm (en_strategy g1) n r of
           Inl e \<Rightarrow> (Some e, g1)
         | Inr (s', is) \<Rightarrow> apply_intents (g1\<lparr>en_strategy := s'\<rparr>) scout price is)"

definition raise_high_water :: "string \<Rightarrow> real \<Rightarrow> ledger \<Rightarrow> ledger" where
  "raise_high_water m price l =
     (case dict_get (ld_positions l) m of
        None \<Rightarrow> l
      | Some p \<Rightarrow>
          if is_open p \<and> po_harvest_hit p then
            put_position m (p\<lparr>po_high_water_price :=
              Some (max (or_float (po_high_water_price p) price) price)\<rparr>) l
          else l)"

definition on_price :: "engine \<Rightarrow> string \<Rightarrow> datetime \<Rightarrow> real \<Rightarrow> py_error option \<times> engine" where
  "on_price g m t price =
     (let g1 = append_event (LogPrice m t price) (g\<lparr>en_marks := (en_marks g)(m \<mapsto> price)\<rparr>);
          scout = (case st_candidates (en_strategy g1) m of
                     Some c \<Rightarrow> ca_scout_wallet c | None \<Rightarrow> ''unknown'');
          g2 = g1\<lparr>en_runtime := with_ledger (raise_high_water m price) (en_runtime g1)\<rparr>;
          before_closed = length (ld_closed (rt_ledger (en_runtime g2)))
      in case on_clock (en_strategy g2) m t (Some price) of
           Inl e \<Rightarrow> (Some e, g2)
         | Inr (s', is) \<Rightarrow>
             (case apply_intents (g2\<lparr>en_strategy := s'\<rparr>) scout price is of
                (Some e, g3) \<Rightarrow> (Some e, g3)
              | (None, g3) \<Rightarrow> (None, append_outcomes
                  (drop before_closed (ld_closed (rt_ledger (en_runtime g3)))) g3)))"

definition nav_usd :: "engine \<Rightarrow> real" where
  "nav_usd g = ledger_nav (en_marks g) (rt_ledger (en_runtime g))"

definition new_engine :: "strategy_config \<Rightarrow> engine result" where
  "new_engine cf = bind_result (new_portfolio cf) (\<lambda>pf.
     Inr \<lparr>en_strategy = new_strategy cf, en_runtime = fresh_runtime pf, en_store = Some [],
          en_marks = Map.empty\<rparr>)"

text \<open>Every call a client can make; exact-entry evidence may arrive or be cleared between them.\<close>

datatype engine_event =
    ETouch wallet_touch risk_snapshot "real option"
  | EConfirm confirmation risk_snapshot "real option"
  | EPrice string datetime real
  | EEvidence "observed_entry option"

fun engine_call :: "engine \<Rightarrow> engine_event \<Rightarrow> py_error option \<times> engine" where
  "engine_call g (ETouch w r x) = on_first_touch g w r x"
| "engine_call g (EConfirm n r x) = on_confirmation g n r x"
| "engine_call g (EPrice m t price) = on_price g m t price"
| "engine_call g (EEvidence ev) = (None, g\<lparr>en_runtime := (en_runtime g)\<lparr>rt_entry := ev\<rparr>\<rparr>)"

text \<open>A raise is reported to the caller, who keeps using the same object.\<close>

definition engine_step :: "engine \<Rightarrow> engine_event \<Rightarrow> engine \<times> py_error list" where
  "engine_step g e = (case engine_call g e of (x, g') \<Rightarrow> (g', (case x of None \<Rightarrow> [] | Some y \<Rightarrow> [y])))"

subsection \<open>The contract between engine and portfolio\<close>

definition outcomes_for :: "string \<Rightarrow> trade_outcome list \<Rightarrow> nat" where
  "outcomes_for m outs = length (filter (\<lambda>out. to_token_mint out = m) outs)"

fun terminal :: "phase \<Rightarrow> bool" where
  "terminal (Lapsed b) = True"
| "terminal (Done b) = True"
| "terminal _ = False"

locale position_book =
  fixes settle :: "'b \<Rightarrow> trade_intent \<Rightarrow> string \<Rightarrow> real \<Rightarrow> py_error option \<times> 'b"
    and position :: "'b \<Rightarrow> string \<Rightarrow> paper_position option"
    and outcomes :: "'b \<Rightarrow> trade_outcome list"
    and keyed :: "'b \<Rightarrow> bool"
  assumes keyed_apply: "keyed b \<Longrightarrow> keyed (snd (settle b i w x))"
    and other_mint: "m \<noteq> ti_token_mint i \<Longrightarrow> position (snd (settle b i w x)) m = position b m"
    and keeps_open: "\<not> is_exit (ti_kind i) \<Longrightarrow>
        outcomes (snd (settle b i w x)) = outcomes b
      \<and> (\<forall>q. position (snd (settle b i w x)) (ti_token_mint i) = Some q \<longrightarrow> po_closed_at q \<noteq> None \<longrightarrow>
           (\<exists>p. position b (ti_token_mint i) = Some p \<and> po_closed_at p \<noteq> None))"
    and exit_settles: "keyed b \<Longrightarrow> is_exit (ti_kind i) \<Longrightarrow>
        (outcomes (snd (settle b i w x)) = outcomes b
           \<and> position (snd (settle b i w x)) (ti_token_mint i) = position b (ti_token_mint i))
      \<or> (\<exists>out q. outcomes (snd (settle b i w x)) = outcomes b @ [out]
           \<and> to_token_mint out = ti_token_mint i
           \<and> position (snd (settle b i w x)) (ti_token_mint i) = Some q \<and> po_units q = 0)"
begin

text \<open>What holds of one mint whose candidate is in phase \<open>ph\<close>.\<close>

definition tracked :: "'b \<Rightarrow> string \<Rightarrow> phase \<Rightarrow> bool" where
  "tracked b m ph \<longleftrightarrow>
     (\<forall>p. position b m = Some p \<longrightarrow> po_closed_at p \<noteq> None \<longrightarrow> terminal ph \<and> po_units p = 0)
   \<and> real (outcomes_for m (outcomes b)) \<le> exited ph"

lemma exit_amount_iff: "exit_amount k x = (if is_exit k then 1 else 0)"
  by (cases k) (simp_all add: is_exit_def)

lemma phase_step_single:
  assumes "phase_step cf ph [(k, x)] ph'"
  shows "\<not> terminal ph" and "exited ph = 0" and "is_exit k \<Longrightarrow> terminal ph'"
    and "exited ph' = (if is_exit k then 1 else 0)"
  using assms by (cases; simp add: is_exit_def)+

lemma tracked_apply:
  assumes tr: "tracked b (ti_token_mint i) ph" and k: "keyed b"
    and st: "phase_step cf ph [(ti_kind i, f)] ph'"
  shows "tracked (snd (settle b i w x)) (ti_token_mint i) ph'"
proof (cases "is_exit (ti_kind i)")
  case False
  with tr keeps_open [of i b w x] phase_step_single [OF st] show ?thesis
    by (fastforce simp: tracked_def)
next
  case True
  with exit_settles [OF k True, of w x] tr phase_step_single [OF st] show ?thesis
    by (auto simp: tracked_def outcomes_for_def)
qed

lemma tracked_other:
  assumes tr: "tracked b m ph" and k: "keyed b" and ne: "m \<noteq> ti_token_mint i"
  shows "tracked (snd (settle b i w x)) m ph"
proof -
  have "outcomes_for m (outcomes (snd (settle b i w x))) = outcomes_for m (outcomes b)"
    using exit_settles [OF k, of i w x] keeps_open [of i b w x] ne
    by (cases "is_exit (ti_kind i)") (auto simp: outcomes_for_def)
  with tr other_mint [OF ne, of b w x] show ?thesis by (simp add: tracked_def)
qed

lemma tracked_stay: "tracked b m ph \<Longrightarrow> phase_step cf ph [] ph' \<Longrightarrow> tracked b m ph'"
  using phase_step_amounts(2) [of cf ph "[]" ph']
  by (auto simp: tracked_def elim: phase_step.cases)

end

subsection \<open>The portfolio honours the contract\<close>

definition ledger_keyed :: "ledger \<Rightarrow> bool" where
  "ledger_keyed l \<longleftrightarrow> (\<forall>m p. dict_get (ld_positions l) m = Some p \<longrightarrow> po_token_mint p = m)"

lemma ledger_keyed_put:
  "ledger_keyed l \<Longrightarrow> po_token_mint p = m \<Longrightarrow> ledger_keyed (put_position m p l)"
  by (auto simp: ledger_keyed_def od.get_put split: if_splits)

lemma ledger_keyed_simps [simp]:
  "ledger_keyed (record_equity mk l) = ledger_keyed l"
  "ledger_keyed (mark_exit_pending m l) = ledger_keyed l"
  "ledger_keyed (clear_exit_pending m l) = ledger_keyed l"
  "ledger_keyed (l\<lparr>ld_closed := cs\<rparr>) = ledger_keyed l"
  "ledger_keyed (l\<lparr>ld_cash_usd := y\<rparr>) = ledger_keyed l"
  by (simp_all add: ledger_keyed_def)

lemma ledger_keyed_ensure: "ledger_keyed l \<Longrightarrow> ledger_keyed (ensure_position i w f c l)"
  by (auto simp: ensure_position_def register_position_def ledger_keyed_def od.get_put
      split: option.splits if_splits)

lemma ledger_keyed_book: "ledger_keyed l \<Longrightarrow> ledger_keyed (book_entry m cost fill mark l)"
  by (auto simp: book_entry_def split: option.splits intro!: ledger_keyed_put)
    (simp add: ledger_keyed_def)

lemma ledger_keyedD: "ledger_keyed l \<Longrightarrow> dict_get (ld_positions l) m = Some p \<Longrightarrow> po_token_mint p = m"
  by (simp add: ledger_keyed_def)

lemma apply_keyed:
  assumes "ledger_keyed (rt_ledger rt)"
  shows "ledger_keyed (rt_ledger (snd (portfolio_apply rt i w price f c)))"
proof (cases rule: apply_cases [of rt i w price f c])
  case (harvest p)
  with assms ledger_keyedD [OF assms harvest(1)] show ?thesis
    by (auto simp: apply_harvest_def split_beta Let_def intro!: ledger_keyed_put)
next
  case (exit p)
  with assms ledger_keyedD [OF assms exit(1)] show ?thesis
    by (auto simp: apply_exit_def split_beta Let_def close_position_def intro!: ledger_keyed_put)
qed (use assms in \<open>simp_all add: ledger_keyed_ensure ledger_keyed_book\<close>)

lemma ensure_position_other:
  "m \<noteq> ti_token_mint i \<Longrightarrow>
     dict_get (ld_positions (ensure_position i w f c l)) m = dict_get (ld_positions l) m"
  by (simp add: ensure_position_def register_position_def split: option.splits)

lemma book_entry_other:
  "m' \<noteq> m \<Longrightarrow> dict_get (ld_positions (book_entry m cost fill mark l)) m' = dict_get (ld_positions l) m'"
  by (simp add: book_entry_def split: option.splits)

lemma book_entry_get:
  "dict_get (ld_positions l) m = Some p \<Longrightarrow>
     dict_get (ld_positions (book_entry m cost fill mark l)) m = Some (bought cost fill p)"
  by (simp add: book_entry_def bought_def)

lemma book_entry_closed [simp]: "ld_closed (book_entry m cost fill mark l) = ld_closed l"
  by (simp add: book_entry_def split: option.splits)

lemma apply_other:
  assumes "m \<noteq> ti_token_mint i"
  shows "dict_get (ld_positions (rt_ledger (snd (portfolio_apply rt i w price f c)))) m
    = dict_get (ld_positions (rt_ledger rt)) m"
  using assms
  by (cases rule: apply_cases [of rt i w price f c])
    (simp_all add: ensure_position_other book_entry_other apply_harvest_def apply_exit_def
      split_beta Let_def)

lemma or_default_new_closed:
  "po_closed_at (or_default x (new_position m w t)) \<noteq> None \<Longrightarrow> \<exists>p. x = Some p \<and> po_closed_at p \<noteq> None"
  by (cases x) simp_all

lemma apply_not_exit:
  assumes "\<not> is_exit (ti_kind i)"
    and l_def: "l = rt_ledger (snd (portfolio_apply rt i w price f c))"
  shows "ld_closed l = ld_closed (rt_ledger rt)
    \<and> (\<forall>q. dict_get (ld_positions l) (ti_token_mint i) = Some q \<longrightarrow> po_closed_at q \<noteq> None \<longrightarrow>
        (\<exists>p. dict_get (ld_positions (rt_ledger rt)) (ti_token_mint i) = Some p \<and> po_closed_at p \<noteq> None))"
proof (cases rule: apply_cases [of rt i w price f c])
  case (same e ent)
  then show ?thesis by (auto simp: l_def)
next
  case (registered e)
  then show ?thesis using or_default_new_closed by (simp add: l_def ensure_position_get)
next
  case (entered full fill)
  then show ?thesis using or_default_new_closed
    by (simp add: l_def ensure_position_get book_entry_get bought_def)
next
  case (exact ev fill)
  then show ?thesis using or_default_new_closed
    by (simp add: l_def ensure_position_get book_entry_get bought_def)
next
  case (harvest p)
  then show ?thesis by (simp add: l_def apply_harvest_def split_beta Let_def)
next
  case (exit p)
  with assms(1) show ?thesis by simp
qed

lemma apply_is_exit:
  assumes "ledger_keyed (rt_ledger rt)" and "is_exit (ti_kind i)"
    and l_def: "l = rt_ledger (snd (portfolio_apply rt i w price f c))"
  shows "(ld_closed l = ld_closed (rt_ledger rt)
      \<and> dict_get (ld_positions l) (ti_token_mint i) = dict_get (ld_positions (rt_ledger rt)) (ti_token_mint i))
    \<or> (\<exists>out q. ld_closed l = ld_closed (rt_ledger rt) @ [out] \<and> to_token_mint out = ti_token_mint i
        \<and> dict_get (ld_positions l) (ti_token_mint i) = Some q \<and> po_units q = 0)"
proof (cases rule: apply_cases [of rt i w price f c])
  case (exit p)
  then have "0 < po_units p" by (simp add: is_open_def)
  with exit sell_position_all [of p "rt_config rt" i price] ledger_keyedD [OF assms(1) exit(1)]
  show ?thesis
    by (simp add: l_def apply_exit_def split_beta Let_def close_position_def outcome_of_def)
qed (use assms(2) kinds_disjoint in \<open>auto simp: l_def\<close>)

lemmas apply_not_exit_now = apply_not_exit [OF _ refl]
lemmas apply_is_exit_now = apply_is_exit [OF _ _ refl]

interpretation book: position_book engine_apply
    "\<lambda>rt. dict_get (ld_positions (rt_ledger rt))" "\<lambda>rt. ld_closed (rt_ledger rt)"
    "\<lambda>rt. ledger_keyed (rt_ledger rt)"
proof (unfold_locales, goal_cases)
  case 1
  then show ?case by (simp add: engine_apply_def apply_keyed)
next
  case 2
  then show ?case by (simp add: engine_apply_def apply_other)
next
  case (3 i b w x)
  then show ?case unfolding engine_apply_def by (rule apply_not_exit_now)
next
  case (4 b i w x)
  then show ?case unfolding engine_apply_def by (rule apply_is_exit_now)
qed

subsection \<open>The engine keeps it\<close>

definition engine_ok :: "strategy_config \<Rightarrow> engine \<Rightarrow> bool" where
  "engine_ok cf g \<longleftrightarrow> strategy_ok cf (en_strategy g)
     \<and> ledger_keyed (rt_ledger (en_runtime g))
     \<and> no_money_created (en_runtime g)
     \<and> (\<forall>m. book.tracked (en_runtime g) m (phase_of (st_candidates (en_strategy g) m)))"

lemma append_event_simps [simp]:
  "en_strategy (append_event ev g) = en_strategy g"
  "en_runtime (append_event ev g) = en_runtime g"
  "en_marks (append_event ev g) = en_marks g"
  by (simp_all add: append_event_def)

lemma append_outcomes_simps [simp]:
  "en_strategy (append_outcomes outs g) = en_strategy g"
  "en_runtime (append_outcomes outs g) = en_runtime g"
  by (induction outs g rule: append_outcomes.induct) simp_all

lemma engine_ok_cong:
  "en_strategy g' = en_strategy g \<Longrightarrow> en_runtime g' = en_runtime g \<Longrightarrow> engine_ok cf g' = engine_ok cf g"
  by (simp add: engine_ok_def)

lemma apply_intents_single:
  "en_strategy (snd (apply_intents g w x [i])) = en_strategy g"
  "en_runtime (snd (apply_intents g w x [i])) = snd (engine_apply (en_runtime g) i w x)"
  by (simp_all split: prod.splits option.splits)

lemma phase_step_length:
  assumes "phase_step cf ph ks ph'"
  shows "ks = [] \<or> (\<exists>k x. ks = [(k, x)])"
  using assms by cases auto

lemma kinds_single: "kinds out = [(k, x)] \<Longrightarrow> \<exists>i. out = [i] \<and> ti_kind i = k"
  by (cases out; cases "tl out") (auto simp: kinds_def)

lemma apply_intents_ok:
  assumes ok: "engine_ok cf g" and st': "strategy_ok cf s'"
    and ref: "refines_phase cf m (en_strategy g) s' out"
  shows "engine_ok cf (snd (apply_intents (g\<lparr>en_strategy := s'\<rparr>) w x out))"
proof -
  let ?s = "en_strategy g" and ?rt = "en_runtime g"
  have step: "phase_step cf (phase_of (st_candidates ?s m)) (kinds out) (phase_of (st_candidates s' m))"
    and others: "\<And>m'. m' \<noteq> m \<Longrightarrow> st_candidates s' m' = st_candidates ?s m'"
    and mints: "\<forall>i\<in>set out. ti_token_mint i = m" using ref by (auto simp: refines_phase_def)
  have tr: "\<And>m'. book.tracked ?rt m' (phase_of (st_candidates ?s m'))"
    and keyed: "ledger_keyed (rt_ledger ?rt)" and books: "no_money_created ?rt"
    using ok by (auto simp: engine_ok_def)
  from phase_step_length [OF step] show ?thesis
  proof (elim disjE exE)
    assume "kinds out = []"
    then have "out = []" by (simp add: kinds_def)
    moreover have "book.tracked ?rt m' (phase_of (st_candidates s' m'))" for m'
      using tr [of m'] step \<open>out = []\<close> others [of m'] book.tracked_stay [of ?rt m]
      by (cases "m' = m") auto
    ultimately show ?thesis using st' keyed books by (simp add: engine_ok_def)
  next
    fix k f assume "kinds out = [(k, f)]"
    then obtain i where out: "out = [i]" "ti_kind i = k" using kinds_single by blast
    then have i: "ti_token_mint i = m" using mints by simp
    let ?rt' = "snd (engine_apply ?rt i w x)"
    have "book.tracked ?rt' m' (phase_of (st_candidates s' m'))" for m'
    proof (cases "m' = m")
      case True
      with tr [of m] keyed step i out \<open>kinds out = [(k, f)]\<close> show ?thesis
        using book.tracked_apply [of ?rt i "phase_of (st_candidates ?s m)" cf f
            "phase_of (st_candidates s' m)" w x] by simp
    next
      case False
      with tr [of m'] keyed i others [of m'] show ?thesis
        using book.tracked_other [of ?rt m' _ i w x] by simp
    qed
    moreover have "ledger_keyed (rt_ledger ?rt')" using keyed by (rule book.keyed_apply)
    moreover have "no_money_created ?rt'"
      using books by (simp add: engine_apply_def apply_no_money_created)
    ultimately show ?thesis using st' unfolding out(1) engine_ok_def apply_intents_single by simp
  qed
qed

lemma raise_high_water_frame:
  "ld_closed (raise_high_water m x l) = ld_closed l"
  "ledger_balance (raise_high_water m x l) = ledger_balance l"
  "ledger_keyed l \<Longrightarrow> ledger_keyed (raise_high_water m x l)"
  "dict_get (ld_positions (raise_high_water m x l)) m' = Some q \<Longrightarrow>
     \<exists>p. dict_get (ld_positions l) m' = Some p \<and> po_closed_at q = po_closed_at p
        \<and> po_units q = po_units p \<and> po_cost_basis_usd q = po_cost_basis_usd p"
  by (auto simp: raise_high_water_def ledger_balance_put od.get_put ledger_keyedD
      split: option.splits if_splits intro!: ledger_keyed_put)

lemma raise_high_water_ok:
  assumes "engine_ok cf g"
  shows "engine_ok cf (g\<lparr>en_runtime := with_ledger (raise_high_water m x) (en_runtime g)\<rparr>)"
proof -
  let ?l = "rt_ledger (en_runtime g)"
  have "positions_all basis_ok (raise_high_water m x ?l)"
    using assms raise_high_water_frame(4) [of m x ?l]
    by (fastforce simp: engine_ok_def no_money_created_def positions_all_def)
  moreover have "book.tracked (with_ledger (raise_high_water m x) (en_runtime g)) m'
      (phase_of (st_candidates (en_strategy g) m'))" for m'
    using assms raise_high_water_frame(4) [of m x ?l m']
    by (fastforce simp: engine_ok_def book.tracked_def raise_high_water_frame(1))
  ultimately show ?thesis using assms
    by (simp add: engine_ok_def no_money_created_def raise_high_water_frame)
qed

lemma on_first_touch_ok:
  assumes ok: "engine_ok cf g"
  shows "engine_ok cf (snd (on_first_touch g w r x))"
proof -
  define price where "price = or_default x (wt_reference_price w)"
  define g1 where "g1 = append_event (LogFirstTouch w r (cf_version (st_config (en_strategy g))))
                 (g\<lparr>en_marks := (en_marks g)(wt_token_mint w \<mapsto> price)\<rparr>)"
  have ok1: "engine_ok cf g1" using ok by (simp add: engine_ok_def g1_def)
  then have s: "strategy_ok cf (en_strategy g1)" by (simp add: engine_ok_def)
  obtain s' out where run: "first_touch (en_strategy g1) w r = (s', out)" by fastforce
  have "refines_phase cf (wt_token_mint w) (en_strategy g1) s' out"
    using first_touch_refines [of "en_strategy g1" w r] s run by (simp add: strategy_ok_def)
  moreover have "strategy_ok cf s'" using first_touch_ok [OF s, of w r] run by simp
  ultimately have "engine_ok cf (snd (apply_intents (g1\<lparr>en_strategy := s'\<rparr>) (wt_wallet w) price out))"
    by (intro apply_intents_ok [OF ok1])
  then show ?thesis using run
    by (simp only: on_first_touch_def Let_def price_def [symmetric] g1_def [symmetric] split_conv)
qed

lemma on_confirmation_ok:
  assumes ok: "engine_ok cf g"
  shows "engine_ok cf (snd (on_confirmation g n r x))"
proof -
  define price where "price = or_default x (cn_reference_price n)"
  define g1 where "g1 = append_event (LogConfirmation n r)
                 (g\<lparr>en_marks := (en_marks g)(cn_token_mint n \<mapsto> price)\<rparr>)"
  have ok1: "engine_ok cf g1" using ok by (simp add: engine_ok_def g1_def)
  then have s: "strategy_ok cf (en_strategy g1)" by (simp add: engine_ok_def)
  note unfold = on_confirmation_def Let_def price_def [symmetric] g1_def [symmetric]
  show ?thesis
  proof (cases "confirm (en_strategy g1) n r")
    case (Inl e)
    with ok1 show ?thesis by (simp only: unfold sum.case snd_conv)
  next
    case (Inr res)
    obtain s' out where run: "confirm (en_strategy g1) n r = Inr (s', out)"
      using Inr by (cases res) simp
    have "engine_ok cf (snd (apply_intents (g1\<lparr>en_strategy := s'\<rparr>) scout price out))" for scout
      using confirm_refines [OF s run] confirm_ok [OF s run] by (intro apply_intents_ok [OF ok1])
    then show ?thesis using run by (simp only: unfold sum.case split_conv)
  qed
qed

lemma on_price_ok:
  assumes ok: "engine_ok cf g"
  shows "engine_ok cf (snd (on_price g m t x))"
proof -
  define g1 where "g1 = append_event (LogPrice m t x) (g\<lparr>en_marks := (en_marks g)(m \<mapsto> x)\<rparr>)"
  define g2 where "g2 = g1\<lparr>en_runtime := with_ledger (raise_high_water m x) (en_runtime g1)\<rparr>"
  define scout where "scout = (case st_candidates (en_strategy g1) m of
                     Some c \<Rightarrow> ca_scout_wallet c | None \<Rightarrow> ''unknown'')"
  have "engine_ok cf g1" using ok by (simp add: engine_ok_def g1_def)
  then have ok2: "engine_ok cf g2" unfolding g2_def by (rule raise_high_water_ok)
  then have s: "strategy_ok cf (en_strategy g2)" by (simp add: engine_ok_def)
  note unfold = on_price_def Let_def g1_def [symmetric] g2_def [symmetric] scout_def [symmetric]
  show ?thesis
  proof (cases "on_clock (en_strategy g2) m t (Some x)")
    case (Inl e)
    with ok2 show ?thesis by (simp only: unfold sum.case snd_conv)
  next
    case (Inr res)
    obtain s' out where run: "on_clock (en_strategy g2) m t (Some x) = Inr (s', out)"
      using Inr by (cases res) simp
    have ref: "refines_phase cf m (en_strategy g2) s' out"
      using on_clock_refines [OF run] s by (simp add: strategy_ok_def)
    obtain e g3 where app: "apply_intents (g2\<lparr>en_strategy := s'\<rparr>) scout x out = (e, g3)" by fastforce
    have ok3: "engine_ok cf g3"
      using apply_intents_ok [OF ok2 on_clock_ok [OF s run] ref, of scout x] app by simp
    then have "engine_ok cf (append_outcomes outs g3)" for outs by (simp add: engine_ok_def)
    with ok3 run app show ?thesis
      by (cases e) (simp_all only: unfold sum.case split_conv option.case snd_conv)
  qed
qed

lemma engine_call_ok: "engine_ok cf g \<Longrightarrow> engine_ok cf (snd (engine_call g e))"
proof (cases e)
  case (EEvidence ev)
  moreover assume "engine_ok cf g"
  ultimately show ?thesis by (simp add: engine_ok_def book.tracked_def no_money_created_def)
qed (simp_all add: on_first_touch_ok on_confirmation_ok on_price_ok)

interpretation engine_machine: invariant_machine engine_step "\<lambda>_. True" "engine_ok cf" for cf
  by unfold_locales (use engine_call_ok in \<open>simp add: engine_step_def split_beta\<close>)

lemma new_engine_ok: "new_engine cf = Inr g \<Longrightarrow> engine_ok cf g"
  by (auto simp: new_engine_def bind_result_Inr_iff new_portfolio_Inr engine_ok_def fresh_runtime_def
      ledger_keyed_def book.tracked_def outcomes_for_def no_money_created_def positions_all_def
      ledger_balance_def realized_pnl_usd_def)

subsection \<open>The log\<close>

definition log_of :: "engine \<Rightarrow> log_event list" where
  "log_of g = or_default (en_store g) []"

lemma append_event_prefix: "prefix (log_of g) (log_of (append_event ev g))"
  by (cases "en_store g") (simp_all add: log_of_def append_event_def)

lemma log_of_cong: "en_store g' = en_store g \<Longrightarrow> log_of g' = log_of g"
  by (simp add: log_of_def)

lemma apply_intents_prefix: "prefix (log_of g) (log_of (snd (apply_intents g w x is)))"
proof (induction g w x "is" rule: apply_intents.induct)
  case (2 g w x i "is")
  obtain e rt where app: "engine_apply (en_runtime g) i w x = (e, rt)" by fastforce
  show ?case
  proof (cases e)
    case None
    then have "prefix (log_of (append_event (LogTradeIntent i x) (g\<lparr>en_runtime := rt\<rparr>)))
        (log_of (snd (apply_intents g w x (i # is))))" using "2.IH" app by simp
    moreover have "prefix (log_of g) (log_of (append_event (LogTradeIntent i x) (g\<lparr>en_runtime := rt\<rparr>)))"
      using append_event_prefix [of "g\<lparr>en_runtime := rt\<rparr>"] by (simp add: log_of_def)
    ultimately show ?thesis by (blast intro: prefix_order.order_trans)
  next
    case (Some y)
    with app show ?thesis by (simp add: log_of_def)
  qed
qed simp

lemma append_outcomes_prefix: "prefix (log_of g) (log_of (append_outcomes outs g))"
  by (induction outs g rule: append_outcomes.induct)
    (auto intro: prefix_order.order_trans append_event_prefix)

lemma log_append_event:
  "log_of (append_event ev g) = (if en_store g = None then [] else log_of g @ [ev])"
  by (cases "en_store g") (simp_all add: log_of_def append_event_def)

lemma log_None: "en_store g = None \<Longrightarrow> log_of g = []"
  by (simp add: log_of_def)

lemma first_event_prefix:
  assumes "g1 = append_event ev (g\<lparr>en_marks := mk\<rparr>)" and "en_store g2 = en_store g1"
  shows "prefix (log_of g) (log_of g2)"
  using assms append_event_prefix [of "g\<lparr>en_marks := mk\<rparr>" ev] by (simp add: log_of_def)

lemma engine_call_prefix: "prefix (log_of g) (log_of (snd (engine_call g e)))"
proof (cases e)
  case (ETouch w r x)
  define price where "price = or_default x (wt_reference_price w)"
  define g1 where "g1 = append_event (LogFirstTouch w r (cf_version (st_config (en_strategy g))))
                 (g\<lparr>en_marks := (en_marks g)(wt_token_mint w \<mapsto> price)\<rparr>)"
  obtain s' out where run: "first_touch (en_strategy g1) w r = (s', out)" by fastforce
  have "prefix (log_of g) (log_of (g1\<lparr>en_strategy := s'\<rparr>))"
    by (rule first_event_prefix [OF g1_def]) simp
  also have "prefix \<dots> (log_of (snd (apply_intents (g1\<lparr>en_strategy := s'\<rparr>) (wt_wallet w) price out)))"
    by (rule apply_intents_prefix)
  finally show ?thesis using run ETouch
    by (simp only: engine_call.simps on_first_touch_def Let_def price_def [symmetric]
        g1_def [symmetric] split_conv)
next
  case (EConfirm n r x)
  define price where "price = or_default x (cn_reference_price n)"
  define g1 where "g1 = append_event (LogConfirmation n r)
                 (g\<lparr>en_marks := (en_marks g)(cn_token_mint n \<mapsto> price)\<rparr>)"
  note unfold = engine_call.simps on_confirmation_def Let_def price_def [symmetric] g1_def [symmetric]
  have p1: "prefix (log_of g) (log_of g1)" by (rule first_event_prefix [OF g1_def]) simp
  show ?thesis
  proof (cases "confirm (en_strategy g1) n r")
    case (Inl err)
    with p1 show ?thesis unfolding EConfirm by (simp only: unfold sum.case snd_conv)
  next
    case (Inr res)
    obtain s' out where run: "confirm (en_strategy g1) n r = Inr (s', out)"
      using Inr by (cases res) simp
    have "prefix (log_of g) (log_of (snd (apply_intents (g1\<lparr>en_strategy := s'\<rparr>) scout price out)))" for scout
      using first_event_prefix [OF g1_def, of "g1\<lparr>en_strategy := s'\<rparr>"] apply_intents_prefix
      by (metis (no_types, lifting) engine.simps(3) engine.update_convs(1) engine.surjective
          prefix_order.order_trans)
    then show ?thesis using run unfolding EConfirm by (simp only: unfold sum.case split_conv)
  qed
next
  case (EPrice m t x)
  define g1 where "g1 = append_event (LogPrice m t x) (g\<lparr>en_marks := (en_marks g)(m \<mapsto> x)\<rparr>)"
  define g2 where "g2 = g1\<lparr>en_runtime := with_ledger (raise_high_water m x) (en_runtime g1)\<rparr>"
  define scout where "scout = (case st_candidates (en_strategy g1) m of
                     Some c \<Rightarrow> ca_scout_wallet c | None \<Rightarrow> ''unknown'')"
  note unfold = engine_call.simps on_price_def Let_def g1_def [symmetric] g2_def [symmetric]
    scout_def [symmetric]
  have p2: "prefix (log_of g) (log_of (g2\<lparr>en_strategy := s'\<rparr>))" "prefix (log_of g) (log_of g2)" for s'
    by (rule first_event_prefix [OF g1_def]; simp add: g2_def)+
  show ?thesis
  proof (cases "on_clock (en_strategy g2) m t (Some x)")
    case (Inl err)
    with p2 show ?thesis unfolding EPrice by (simp only: unfold sum.case snd_conv)
  next
    case (Inr res)
    obtain s' out where run: "on_clock (en_strategy g2) m t (Some x) = Inr (s', out)"
      using Inr by (cases res) simp
    obtain err g3 where app: "apply_intents (g2\<lparr>en_strategy := s'\<rparr>) scout x out = (err, g3)" by fastforce
    have p3: "prefix (log_of g) (log_of g3)"
      using p2(1) [of s'] apply_intents_prefix [of "g2\<lparr>en_strategy := s'\<rparr>" scout x out] app
      by (metis prefix_order.order_trans snd_conv)
    then have "prefix (log_of g) (log_of (append_outcomes outs g3))" for outs
      using append_outcomes_prefix prefix_order.order_trans by blast
    with p3 run app show ?thesis unfolding EPrice
      by (cases err) (simp_all only: unfold sum.case split_conv option.case snd_conv)
  qed
next
  case (EEvidence ev)
  then show ?thesis by (simp add: log_of_def)
qed

definition demo_engine :: engine where
  "demo_engine = \<lparr>en_strategy = new_strategy BASELINE, en_runtime = fresh_runtime demo_portfolio,
     en_store = Some [], en_marks = Map.empty\<rparr>"

lemma demo_engine_new [simp]: "new_engine BASELINE = Inr demo_engine"
  by (simp add: new_engine_def demo_engine_def)

subsection \<open>Properties\<close>

text \<open>C2. In every state the engine can reach, through any signals, prices, exact-entry
  evidence and exceptions, a closed paper position holds no units, its mint has left the
  strategy's live phases for good, and each mint has settled at most once.\<close>

theorem engine_settles_once:
  assumes "new_engine cf = Inr g0" and "g = fst (run_machine engine_step g0 events)"
  shows "(\<forall>p t. dict_get (ld_positions (rt_ledger (en_runtime g))) m = Some p \<and> po_closed_at p = Some t \<longrightarrow>
            po_units p = 0 \<and> terminal (phase_of (st_candidates (en_strategy g) m)))
      \<and> outcomes_for m (ld_closed (rt_ledger (en_runtime g))) \<le> 1"
proof -
  have "engine_ok cf g"
    using engine_machine.run_inv [OF new_engine_ok [OF assms(1)], of events] assms(2) by simp
  then have "book.tracked (en_runtime g) m (phase_of (st_candidates (en_strategy g) m))"
    by (simp add: engine_ok_def)
  with exited_bounds [of "phase_of (st_candidates (en_strategy g) m)"] show ?thesis
    by (auto simp: book.tracked_def)
qed

theorem engine_settles_once_witness:
  "outcomes_for ''M'' (ld_closed (rt_ledger (en_runtime (fst (run_machine engine_step demo_engine
      [ETouch demo_touch (clean_snapshot 0) None, EPrice ''M'' 21000000 1]))))) \<le> 1"
  using engine_settles_once [OF demo_engine_new refl] by blast



text \<open>Every engine call, one that raises included, only appends to the evidence log: what
  was recorded before stays as it was, in place and in order.\<close>

theorem engine_log_append_only:
  "prefix (log_of g) (log_of (fst (run_machine engine_step g events)))"
proof (induction events arbitrary: g)
  case (Cons e es)
  have "prefix (log_of g) (log_of (fst (engine_step g e)))"
    using engine_call_prefix [of g e] by (simp add: engine_step_def split_beta)
  with Cons [of "fst (engine_step g e)"] show ?case
    by (auto simp: split_beta Let_def intro: prefix_order.order_trans)
qed simp

end
