(* ===== verification/Certification.thy ===== *)
theory Certification
  imports Models
begin

text \<open>
  \<open>certification.py\<close>: the profitability certificate over closed paper trades. The profit
  factor can be infinite (\<open>math.inf\<close>), so it is a \<open>profit_ratio\<close>. The lemmas show that the
  Wilson bound lies between zero and the hit rate, and what a certificate guarantees about the
  trades behind it.
\<close>

definition WILSON_Z :: real where
  "WILSON_Z = 1959963984540054 / 10 ^ 15"

definition wilson_lower :: "nat \<Rightarrow> nat \<Rightarrow> real \<Rightarrow> real" where
  "wilson_lower successes n z =
     (if n = 0 then 0
      else let p = real successes / real n;
               denom = 1 + z * z / real n;
               centre = p + z * z / (2 * real n);
               margin = z * sqrt ((p * (1 - p) + z * z / (4 * real n)) / real n)
           in max 0 ((centre - margin) / denom))"

datatype profit_ratio = Finite real | Infinite

fun ratio_le_one :: "profit_ratio \<Rightarrow> bool" where
  "ratio_le_one (Finite x) = (x \<le> 1)"
| "ratio_le_one Infinite = False"

record certification_report =
  ce_status :: string
  ce_closed_trades :: nat
  ce_unique_tokens :: nat
  ce_hit_rate :: real
  ce_hit_rate_wilson_lower :: real
  ce_total_pnl_usd :: real
  ce_profit_factor :: profit_ratio
  ce_geometric_growth :: real
  ce_pnl_ex_best_trade_usd :: real
  ce_pnl_ex_best_scout_usd :: real
  ce_blockers :: "string list"

fun pnl_by_scout :: "trade_outcome list \<Rightarrow> (string, real) dict \<Rightarrow> (string, real) dict" where
  "pnl_by_scout [] acc = acc"
| "pnl_by_scout (x # xs) acc = pnl_by_scout xs
     (dict_set (to_scout_wallet x)
        (or_default (dict_get acc (to_scout_wallet x)) 0 + to_net_pnl_usd x) acc)"

fun max_default :: "real \<Rightarrow> real list \<Rightarrow> real" where
  "max_default d [] = d"
| "max_default d (x # xs) = foldl max x xs"

definition total_pnl :: "trade_outcome list \<Rightarrow> real" where
  "total_pnl xs = sum_list (map to_net_pnl_usd xs)"

definition certify_evaluate :: "strategy_config \<Rightarrow> trade_outcome list \<Rightarrow> certification_report" where
  "certify_evaluate cf xs =
     (let n = length xs;
          hits = length (filter to_harvest_hit xs);
          hit_rate = (if n \<noteq> 0 then real hits / real n else 0);
          lower = wilson_lower hits n WILSON_Z;
          gains = sum_list (map (\<lambda>x. max 0 (to_net_pnl_usd x)) xs);
          losses = - sum_list (map (\<lambda>x. min 0 (to_net_pnl_usd x)) xs);
          profit_factor = (if losses > 0 then Finite (gains / losses)
                           else if gains > 0 then Infinite else Finite 0);
          pnl = total_pnl xs;
          growth = (if xs \<noteq> [] then prod_list (map (\<lambda>x. 1 + to_return_on_starting_nav x) xs) - 1 else 0);
          best_trade = max_default 0 (map to_net_pnl_usd xs);
          ex_trade = pnl - max 0 best_trade;
          best_scout = max_default 0 (dict_values (pnl_by_scout xs []));
          ex_scout = pnl - max 0 best_scout;
          tokens = length (remdups (map to_token_mint xs));
          blocked =
            (if n < cf_certification_min_closed_trades cf then [''minimum_300_closed_trades_not_met''] else [])
          @ (if tokens < cf_certification_min_closed_trades cf then [''minimum_300_independent_tokens_not_met''] else [])
          @ (if pnl \<le> 0 then [''aggregate_net_pnl_not_positive''] else [])
          @ (if growth \<le> 0 then [''geometric_growth_not_positive''] else [])
          @ (if ratio_le_one profit_factor then [''profit_factor_not_above_one''] else [])
          @ (if lower \<le> cf_certification_break_even_hit_rate cf then [''wilson_lower_hit_rate_not_above_break_even''] else [])
          @ (if ex_trade \<le> 0 then [''profitability_depends_on_best_trade''] else [])
          @ (if ex_scout \<le> 0 then [''profitability_depends_on_best_scout''] else [])
      in \<lparr>ce_status = (if blocked = [] then ''certified'' else ''collecting_or_failed''),
          ce_closed_trades = n, ce_unique_tokens = tokens, ce_hit_rate = hit_rate,
          ce_hit_rate_wilson_lower = lower, ce_total_pnl_usd = pnl,
          ce_profit_factor = profit_factor, ce_geometric_growth = growth,
          ce_pnl_ex_best_trade_usd = ex_trade, ce_pnl_ex_best_scout_usd = ex_scout,
          ce_blockers = blocked\<rparr>)"

subsection \<open>Helper facts\<close>

lemma foldl_max_ge: "x \<le> foldl max (x::real) xs \<and> (\<forall>y\<in>set xs. y \<le> foldl max x xs)"
proof (induction xs arbitrary: x)
  case (Cons y ys)
  from Cons [of "max x y"] show ?case by auto
qed simp

lemma max_default_ge: "y \<in> set xs \<Longrightarrow> y \<le> max_default d xs"
  using foldl_max_ge by (cases xs) auto

definition scout_pnl :: "string \<Rightarrow> trade_outcome list \<Rightarrow> real" where
  "scout_pnl s xs = sum_list (map to_net_pnl_usd (filter (\<lambda>x. to_scout_wallet x = s) xs))"

lemma pnl_by_scout_get:
  "or_default (dict_get (pnl_by_scout xs acc) s) 0 = or_default (dict_get acc s) 0 + scout_pnl s xs"
proof (induction xs acc rule: pnl_by_scout.induct)
  case (2 x xs acc)
  then show ?case by (cases "to_scout_wallet x = s") (simp_all add: scout_pnl_def)
qed (simp add: scout_pnl_def)

lemma pnl_by_scout_dom:
  "dict_get (pnl_by_scout xs acc) s = None \<longleftrightarrow> dict_get acc s = None \<and> s \<notin> to_scout_wallet ` set xs"
proof (induction xs acc rule: pnl_by_scout.induct)
  case (2 x xs acc)
  then show ?case by (cases "to_scout_wallet x = s") auto
qed simp

lemma scout_pnl_in_values:
  assumes "s \<in> to_scout_wallet ` set xs"
  shows "scout_pnl s xs \<in> set (dict_values (pnl_by_scout xs []))"
proof -
  obtain v where v: "dict_get (pnl_by_scout xs []) s = Some v"
    using pnl_by_scout_dom [of xs "[]" s] assms by auto
  then have "v = scout_pnl s xs" using pnl_by_scout_get [of xs "[]" s] by simp
  with dict_get_in [OF v] show ?thesis by (force simp: dict_values_def)
qed

lemma wilson_lower_le_rate:
  assumes "successes \<le> n" and "0 < n" and "0 \<le> z"
  shows "0 \<le> wilson_lower successes n z \<and> wilson_lower successes n z \<le> real successes / real n"
proof -
  define p where "p = real successes / real n"
  define N where "N = real n"
  define margin where "margin = z * sqrt ((p * (1 - p) + z * z / (4 * N)) / N)"
  have N: "0 < N" using assms by (simp add: N_def)
  have p: "0 \<le> p" "p \<le> 1" using assms by (simp_all add: p_def)
  have "(z / (2 * N))\<^sup>2 = (z * z / (4 * N)) / N" by (simp add: power2_eq_square)
  also have "\<dots> \<le> (p * (1 - p) + z * z / (4 * N)) / N"
    using p N by (intro divide_right_mono) simp_all
  finally have "z / (2 * N) \<le> sqrt ((p * (1 - p) + z * z / (4 * N)) / N)"
    by (rule real_le_rsqrt)
  then have m: "z * (z / (2 * N)) \<le> margin" unfolding margin_def
    using assms(3) by (rule mult_left_mono)
  have "p + z * z / (2 * N) - margin \<le> p" using m by simp
  also have "\<dots> \<le> p * (1 + z * z / N)" using p N by (simp add: algebra_simps)
  finally have "(p + z * z / (2 * N) - margin) / (1 + z * z / N) \<le> p"
    using N by (intro divide_le_eq [THEN iffD2]) (auto simp: add_pos_nonneg mult.commute)
  then have "wilson_lower successes n z \<le> max 0 p"
    using assms(2) by (auto simp only: wilson_lower_def Let_def p_def N_def margin_def max_def split: if_splits)
  moreover have "0 \<le> wilson_lower successes n z"
    by (simp add: wilson_lower_def Let_def)
  ultimately show ?thesis using p by (simp add: p_def)
qed

subsection \<open>Properties\<close>

text \<open>A report certifies exactly when it lists no blocker, and a certified set of trades
  has at least the required number of trades on as many distinct tokens, a hit rate above the
  break-even rate, and stays profitable after removing any one trade or any one scout wallet.\<close>

theorem certified_is_robust:
  assumes "ce_status (certify_evaluate cf xs) = ''certified''"
    and "0 < cf_certification_min_closed_trades cf"
  shows "cf_certification_min_closed_trades cf \<le> length xs
    \<and> cf_certification_min_closed_trades cf \<le> card (to_token_mint ` set xs)
    \<and> 0 < total_pnl xs
    \<and> cf_certification_break_even_hit_rate cf
        < real (length (filter to_harvest_hit xs)) / real (length xs)
    \<and> (\<forall>x\<in>set xs. 0 < total_pnl xs - to_net_pnl_usd x)
    \<and> (\<forall>s\<in>to_scout_wallet ` set xs. 0 < total_pnl xs - scout_pnl s xs)"
proof -
  have no: "ce_blockers (certify_evaluate cf xs) = []"
    using assms(1) by (simp add: certify_evaluate_def Let_def split: if_splits)
  have n: "cf_certification_min_closed_trades cf \<le> length xs"
      "cf_certification_min_closed_trades cf \<le> length (remdups (map to_token_mint xs))"
      "0 < total_pnl xs"
      "cf_certification_break_even_hit_rate cf
         < wilson_lower (length (filter to_harvest_hit xs)) (length xs) WILSON_Z"
      "0 < total_pnl xs - max 0 (max_default 0 (map to_net_pnl_usd xs))"
      "0 < total_pnl xs - max 0 (max_default 0 (dict_values (pnl_by_scout xs [])))"
    using no by (auto simp: certify_evaluate_def Let_def split: if_splits)
  have "0 < length xs" using n(1) assms(2) by linarith
  then have rate: "wilson_lower (length (filter to_harvest_hit xs)) (length xs) WILSON_Z
      \<le> real (length (filter to_harvest_hit xs)) / real (length xs)"
    using wilson_lower_le_rate [of "length (filter to_harvest_hit xs)" "length xs" WILSON_Z]
    by (simp add: WILSON_Z_def)
  have trade: "\<forall>x\<in>set xs. to_net_pnl_usd x \<le> max_default 0 (map to_net_pnl_usd xs)"
    by (simp add: max_default_ge)
  have scout: "\<forall>s\<in>to_scout_wallet ` set xs.
      scout_pnl s xs \<le> max_default 0 (dict_values (pnl_by_scout xs []))"
    using scout_pnl_in_values by (blast intro: max_default_ge)
  have "card (to_token_mint ` set xs) = length (remdups (map to_token_mint xs))"
    by (metis length_remdups_card_conv set_map)
  with n rate trade scout show ?thesis by fastforce
qed

text \<open>A two-trade certificate under a configuration that asks for one trade.\<close>

definition demo_cert_config :: strategy_config where
  "demo_cert_config = BASELINE\<lparr>cf_certification_min_closed_trades := 1,
     cf_certification_break_even_hit_rate := 1 / 10\<rparr>"

definition demo_win :: "string \<Rightarrow> string \<Rightarrow> trade_outcome" where
  "demo_win mint scout = \<lparr>to_token_mint = mint, to_scout_wallet = scout, to_opened_at = 0,
     to_closed_at = 1, to_starting_nav_usd = 10, to_ending_nav_usd = 15, to_net_pnl_usd = 5,
     to_return_on_starting_nav = 1 / 2, to_harvest_hit = True, to_closed_reason = ''x''\<rparr>"

lemma demo_wilson: "1 / 10 < wilson_lower 2 2 WILSON_Z"
proof -
  have "sqrt ((1 * (1 - 1) + WILSON_Z * WILSON_Z / (4 * 2)) / 2) = WILSON_Z / 4"
    by (rule real_sqrt_unique) (simp_all add: WILSON_Z_def power2_eq_square)
  then show ?thesis by (simp add: wilson_lower_def Let_def) (simp add: WILSON_Z_def)
qed

theorem certified_is_robust_witness:
  "0 < total_pnl [demo_win ''A'' ''S'', demo_win ''B'' ''T''] - scout_pnl ''S''
        [demo_win ''A'' ''S'', demo_win ''B'' ''T'']"
proof -
  let ?xs = "[demo_win ''A'' ''S'', demo_win ''B'' ''T'']"
  have "ce_status (certify_evaluate demo_cert_config ?xs) = ''certified''"
    using demo_wilson by (simp add: certify_evaluate_def Let_def demo_cert_config_def demo_win_def
        total_pnl_def dict_values_def numeral_2_eq_2)
  then have "\<forall>s\<in>to_scout_wallet ` set ?xs. 0 < total_pnl ?xs - scout_pnl s ?xs"
    using certified_is_robust [of demo_cert_config ?xs] by (simp add: demo_cert_config_def)
  then show ?thesis by (simp add: demo_win_def)
qed

text \<open>The Wilson bound used by the certificate is a probability no greater than the
  observed hit rate, for any number of hits among a positive number of trades.\<close>

theorem wilson_lower_bounds:
  assumes "successes \<le> n" and "0 < n"
  shows "0 \<le> wilson_lower successes n WILSON_Z
    \<and> wilson_lower successes n WILSON_Z \<le> real successes / real n"
  using wilson_lower_le_rate [OF assms, of WILSON_Z] by (simp add: WILSON_Z_def)

theorem wilson_lower_bounds_witness:
  "wilson_lower 1 4 WILSON_Z \<le> 1 / 4"
  using wilson_lower_bounds [of 1 4] by simp

end
