(* ===== verification/Capital.thy ===== *)
theory Capital
  imports Prelude "HOL-Library.Product_Lexorder"
begin

text \<open>
  The atomic paper-capital store (\<open>v51_atomic_paper_capital.py\<close>). Each SQLite table is the
  list of its rows in insertion order. No statement of the module deletes a row, so the
  next AUTOINCREMENT id is the row count plus one. A call runs inside one BEGIN IMMEDIATE
  transaction under the store's lock: it is one atomic step, a rollback leaves the old
  tables, and concurrent callers are the interleavings of such steps. The context of a
  call holds what the code reads from outside: the outcomes of its attempts to begin
  the transaction, the clock and the elapsed time.
\<close>

definition CANONICAL_PORTFOLIO_ID :: string where
  "CANONICAL_PORTFOLIO_ID = ''roi-convergence-paper-500-v1''"

definition BUSY_RETRY_LIMIT :: nat where
  "BUSY_RETRY_LIMIT = 8"

datatype reservation_status = Active | Settled | Cancelled | Rejected

fun status_text :: "reservation_status \<Rightarrow> string" where
  "status_text Active = ''active''"
| "status_text Settled = ''settled''"
| "status_text Cancelled = ''cancelled''"
| "status_text Rejected = ''rejected''"

record reservation_row =
  rr_id :: nat
  rr_release_commit :: string
  rr_reservation_id :: string
  rr_lane :: string
  rr_candidate_id :: string
  rr_requested_fraction :: real
  rr_reserved_fraction :: real
  rr_capacity_fraction :: real
  rr_status :: reservation_status
  rr_reason :: string
  rr_net_return :: "real option"
  rr_realized_contribution :: "real option"
  rr_created_at :: datetime
  rr_updated_at :: datetime
  rr_paper_only :: bool
  rr_live_money_authority :: bool
  rr_portfolio_id :: string

record settlement_row =
  sr_id :: nat
  sr_release_commit :: string
  sr_settlement_id :: string
  sr_reservation_id :: string
  sr_net_return :: real
  sr_realized_contribution :: real
  sr_settled_at :: datetime
  sr_paper_only :: bool
  sr_live_money_authority :: bool
  sr_portfolio_id :: string

record lifecycle_row =
  lr_id :: nat
  lr_release_commit :: string
  lr_candidate_id :: string
  lr_event_key :: string
  lr_stage :: string
  lr_payload_json :: string
  lr_created_at :: datetime
  lr_paper_only :: bool
  lr_live_money_authority :: bool

record metric_row =
  mt_id :: nat
  mt_release_commit :: string
  mt_operation :: string
  mt_busy_retries :: nat
  mt_write_latency_ms :: real
  mt_created_at :: datetime

record capital_store =
  cs_reservations :: "reservation_row list"
  cs_settlements :: "settlement_row list"
  cs_events :: "lifecycle_row list"
  cs_metrics :: "metric_row list"

definition empty_capital_store :: capital_store where
  "empty_capital_store = \<lparr>cs_reservations = [], cs_settlements = [], cs_events = [], cs_metrics = []\<rparr>"

datatype begin_attempt = Began | Busy | Refused string

record call_context =
  cc_attempts :: "begin_attempt list"
  cc_elapsed_ms :: real
  cc_now :: datetime

text \<open>\<open>_begin_immediate\<close>: \<open>attempts\<close> are the outcomes of the successive tries; once they are
  used up the next try begins.\<close>

fun begin_immediate :: "nat \<Rightarrow> begin_attempt list \<Rightarrow> nat result" where
  "begin_immediate retries [] = Inr retries"
| "begin_immediate retries (Began # _) = Inr retries"
| "begin_immediate retries (Refused e # _) = Inl (OperationalError e)"
| "begin_immediate retries (Busy # rest) =
     (if Suc retries > BUSY_RETRY_LIMIT then Inl (OperationalError ''database is locked'')
      else begin_immediate (Suc retries) rest)"

definition metric :: "call_context \<Rightarrow> string \<Rightarrow> string \<Rightarrow> nat \<Rightarrow> capital_store \<Rightarrow> capital_store" where
  "metric c release operation retries s = s\<lparr>cs_metrics := cs_metrics s @
     [\<lparr>mt_id = Suc (length (cs_metrics s)), mt_release_commit = release, mt_operation = operation,
       mt_busy_retries = retries, mt_write_latency_ms = max 0 (cc_elapsed_ms c),
       mt_created_at = cc_now c\<rparr>]\<rparr>"

fun status_rank :: "reservation_status \<Rightarrow> nat" where
  "status_rank Active = 0"
| "status_rank Settled = 1"
| "status_rank Cancelled = 2"
| "status_rank Rejected = 3"

definition canonical_reservations :: "capital_store \<Rightarrow> string \<Rightarrow> reservation_row list" where
  "canonical_reservations s rid =
     sort_key (\<lambda>r. (status_rank (rr_status r), - int (rr_id r)))
       (filter (\<lambda>r. rr_portfolio_id r = CANONICAL_PORTFOLIO_ID \<and> rr_reservation_id r = rid)
          (cs_reservations s))"

definition active_rows :: "reservation_row list \<Rightarrow> reservation_row list" where
  "active_rows rows = filter (\<lambda>r. rr_status r = Active) rows"

text \<open>The sum of one table column over the canonical rows with one status.\<close>

definition reserved_sum :: "reservation_status \<Rightarrow> reservation_row list \<Rightarrow> real" where
  "reserved_sum st rows = sum_list (map rr_reserved_fraction
     (filter (\<lambda>r. rr_portfolio_id r = CANONICAL_PORTFOLIO_ID \<and> rr_status r = st) rows))"

definition reserve_decision :: "real \<Rightarrow> real \<Rightarrow> real \<Rightarrow> bool \<Rightarrow> real \<Rightarrow> real \<times> reservation_status \<times> string" where
  "reserve_decision requested capacity minimum allow_downsize active0 =
     (let active = max 0 active0;
          available = max 0 (capacity - active);
          reserved = (if allow_downsize then min requested available
                      else if requested \<le> available then requested else 0)
      in if reserved \<le> 0 \<or> reserved + 1 / 10 ^ 12 < minimum
           then (0, Rejected, ''paper_capital_exhausted_or_below_minimum'')
         else if reserved + 1 / 10 ^ 12 < requested then (reserved, Active, ''paper_capital_downsized'')
         else (reserved, Active, ''paper_capital_reserved''))"

record reserve_reply =
  rp_row :: reservation_row
  rp_idempotent_replay :: bool
  rp_busy_retries :: nat
  rp_replay_requested_release :: "string option"

text \<open>The row that a call for a new identity inserts.\<close>

definition new_reservation ::
  "call_context \<Rightarrow> string \<Rightarrow> string \<Rightarrow> string \<Rightarrow> string \<Rightarrow> real \<Rightarrow> real \<Rightarrow> real \<Rightarrow> bool
     \<Rightarrow> capital_store \<Rightarrow> reservation_row" where
  "new_reservation c release rid lane candidate requested capacity minimum allow_downsize s =
     (let (reserved, status, reason) = reserve_decision requested capacity minimum allow_downsize
            (reserved_sum Active (cs_reservations s))
      in \<lparr>rr_id = Suc (length (cs_reservations s)), rr_release_commit = release,
          rr_reservation_id = rid, rr_lane = lane, rr_candidate_id = candidate,
          rr_requested_fraction = requested, rr_reserved_fraction = reserved,
          rr_capacity_fraction = capacity, rr_status = status, rr_reason = reason,
          rr_net_return = None, rr_realized_contribution = None,
          rr_created_at = cc_now c, rr_updated_at = cc_now c, rr_paper_only = True,
          rr_live_money_authority = False, rr_portfolio_id = CANONICAL_PORTFOLIO_ID\<rparr>)"

definition reserve_paper_capital ::
  "call_context \<Rightarrow> string \<Rightarrow> string \<Rightarrow> string \<Rightarrow> string \<Rightarrow> py_number \<Rightarrow> py_number \<Rightarrow> bool \<Rightarrow> py_number
     \<Rightarrow> capital_store \<Rightarrow> reserve_reply result \<times> capital_store" where
  "reserve_paper_capital c release rid lane candidate requested_fraction capacity_fraction
       allow_downsize minimum_fraction s =
     (let requested = finite_fraction requested_fraction;
          capacity = finite_fraction capacity_fraction;
          minimum = finite_fraction minimum_fraction
      in if rid = [] \<or> candidate = [] \<or> lane = []
           then (Inl (ValueError ''reservation_id_lane_candidate_required''), s)
         else case begin_immediate 0 (cc_attempts c) of
           Inl e \<Rightarrow> (Inl e, s)
         | Inr retries \<Rightarrow>
           let existing_rows = canonical_reservations s rid in
           if existing_rows \<noteq> [] then
             (let active = active_rows existing_rows in
              if length active > 1
                then (Inl (RuntimeError ''paper_capital_duplicate_active_reservation_identity''), s)
              else (Inr \<lparr>rp_row = (if active \<noteq> [] then hd active else hd existing_rows),
                         rp_idempotent_replay = True, rp_busy_retries = retries,
                         rp_replay_requested_release = Some release\<rparr>,
                    metric c release ''reserve_replay'' retries s))
           else
             (let row = new_reservation c release rid lane candidate requested capacity minimum
                          allow_downsize s
              in if \<exists>r\<in>set (cs_reservations s). rr_release_commit r = release \<and> rr_reservation_id r = rid
                   then (Inl (IntegrityError ''UNIQUE(release_commit,reservation_id)''), s)
                 else
                   (let s' = metric c release ''reserve'' retries
                               (s\<lparr>cs_reservations := cs_reservations s @ [row]\<rparr>) in
                    case find (\<lambda>r. rr_portfolio_id r = CANONICAL_PORTFOLIO_ID
                           \<and> rr_release_commit r = release \<and> rr_reservation_id r = rid) (cs_reservations s') of
                      None \<Rightarrow> (Inl (TypeError ''NoneType object is not iterable''), s')
                    | Some r \<Rightarrow> (Inr \<lparr>rp_row = r, rp_idempotent_replay = False,
                        rp_busy_retries = retries, rp_replay_requested_release = None\<rparr>, s'))))"

definition update_active :: "nat \<Rightarrow> (reservation_row \<Rightarrow> reservation_row) \<Rightarrow> capital_store \<Rightarrow> capital_store" where
  "update_active i f s = s\<lparr>cs_reservations :=
     map (\<lambda>r. if rr_id r = i \<and> rr_status r = Active then f r else r) (cs_reservations s)\<rparr>"

definition active_rowcount :: "nat \<Rightarrow> capital_store \<Rightarrow> nat" where
  "active_rowcount i s = length (filter (\<lambda>r. rr_id r = i \<and> rr_status r = Active) (cs_reservations s))"

definition cancel_paper_capital ::
  "call_context \<Rightarrow> string \<Rightarrow> string \<Rightarrow> string \<Rightarrow> capital_store \<Rightarrow> bool result \<times> capital_store" where
  "cancel_paper_capital c release rid reason s =
     (case begin_immediate 0 (cc_attempts c) of
        Inl e \<Rightarrow> (Inl e, s)
      | Inr retries \<Rightarrow>
        let active = active_rows (canonical_reservations s rid) in
        if length active > 1
          then (Inl (RuntimeError ''paper_capital_duplicate_active_reservation_identity''), s)
        else if active = [] then (Inr False, metric c release ''cancel_replay'' retries s)
        else (let i = rr_id (hd active) in
              (Inr (active_rowcount i s = 1),
               metric c release ''cancel'' retries
                 (update_active i (\<lambda>r. r\<lparr>rr_status := Cancelled, rr_reason := reason,
                    rr_updated_at := cc_now c\<rparr>) s))))"

record settle_reply =
  se_row :: settlement_row
  se_idempotent_replay :: bool
  se_busy_retries :: nat
  se_replay_requested_release :: "string option"
  se_settled_by_release :: "string option"

text \<open>\<open>SELECT * ... WHERE portfolio_id=? AND reservation_id=? ORDER BY id DESC\<close>.\<close>

definition settlements_of :: "capital_store \<Rightarrow> string \<Rightarrow> settlement_row list" where
  "settlements_of s rid = rev (sort_key sr_id
     (filter (\<lambda>t. sr_portfolio_id t = CANONICAL_PORTFOLIO_ID \<and> sr_reservation_id t = rid)
        (cs_settlements s)))"

definition insert_settlement :: "settlement_row \<Rightarrow> capital_store \<Rightarrow> capital_store result" where
  "insert_settlement t s =
     (if \<exists>u\<in>set (cs_settlements s). sr_release_commit u = sr_release_commit t
            \<and> (sr_settlement_id u = sr_settlement_id t \<or> sr_reservation_id u = sr_reservation_id t)
      then Inl (IntegrityError ''UNIQUE(release_commit,settlement_id)'')
      else Inr (s\<lparr>cs_settlements := cs_settlements s @ [t]\<rparr>))"

fun finite_return :: "py_number \<Rightarrow> real result" where
  "finite_return (Number x) = Inr x"
| "finite_return NonFinite = Inl (ValueError ''finite_net_return_required'')"
| "finite_return NotNumeric = Inl (TypeError ''float() argument'')"

definition settle_paper_capital ::
  "call_context \<Rightarrow> string \<Rightarrow> string \<Rightarrow> string \<Rightarrow> py_number \<Rightarrow> capital_store
     \<Rightarrow> settle_reply result \<times> capital_store" where
  "settle_paper_capital c release rid settlement_id net_return s =
     (case finite_return net_return of Inl e \<Rightarrow> (Inl e, s) | Inr v \<Rightarrow>
      case begin_immediate 0 (cc_attempts c) of Inl e \<Rightarrow> (Inl e, s) | Inr retries \<Rightarrow>
      let rows = canonical_reservations s rid;
          active = active_rows rows;
          existing = settlements_of s rid
      in if length active > 1
           then (Inl (RuntimeError ''paper_capital_duplicate_active_reservation_identity''), s)
         else if active = [] then
           (if existing \<noteq> [] then
              (Inr \<lparr>se_row = hd existing, se_idempotent_replay = True, se_busy_retries = retries,
                    se_replay_requested_release = Some release, se_settled_by_release = None\<rparr>,
               metric c release ''settle_replay'' retries s)
            else if rows = [] then (Inl (KeyError ''paper_capital_reservation_missing''), s)
            else (Inl (RuntimeError (''paper_capital_reservation_not_active:''
                         @ status_text (rr_status (hd rows)))), s))
         else if existing \<noteq> []
           then (Inl (RuntimeError ''paper_capital_active_reservation_already_has_settlement''), s)
         else
           (let reservation = hd active;
                fraction = max 0 (rr_reserved_fraction reservation);
                contribution = fraction * v;
                t = \<lparr>sr_id = Suc (length (cs_settlements s)),
                  sr_release_commit = rr_release_commit reservation, sr_settlement_id = settlement_id,
                  sr_reservation_id = rid, sr_net_return = v, sr_realized_contribution = contribution,
                  sr_settled_at = cc_now c, sr_paper_only = True, sr_live_money_authority = False,
                  sr_portfolio_id = CANONICAL_PORTFOLIO_ID\<rparr>
            in case insert_settlement t s of
                 Inl e \<Rightarrow> (Inl e, s)
               | Inr s1 \<Rightarrow>
                 let s2 = metric c release ''settle'' retries
                   (update_active (rr_id reservation) (\<lambda>r. r\<lparr>rr_status := Settled,
                      rr_reason := ''paper_capital_settled'', rr_net_return := Some v,
                      rr_realized_contribution := Some contribution, rr_updated_at := cc_now c\<rparr>) s1)
                 in case settlements_of s2 rid of
                      [] \<Rightarrow> (Inl (TypeError ''NoneType object is not iterable''), s2)
                    | newest # _ \<Rightarrow>
                        (Inr \<lparr>se_row = newest, se_idempotent_replay = False, se_busy_retries = retries,
                           se_replay_requested_release = None, se_settled_by_release = Some release\<rparr>, s2)))"

text \<open>\<open>INSERT OR IGNORE\<close>: the returned flag tells whether the row is new. \<open>payload\<close> is the text
  of the payload that \<open>json.dumps\<close> gives.\<close>

definition record_lifecycle_event ::
  "call_context \<Rightarrow> string \<Rightarrow> string \<Rightarrow> string \<Rightarrow> string \<Rightarrow> string \<Rightarrow> capital_store \<Rightarrow> bool \<times> capital_store" where
  "record_lifecycle_event c release candidate event_key stage payload s =
     (if \<exists>r\<in>set (cs_events s). lr_release_commit r = release \<and> lr_candidate_id r = candidate
            \<and> lr_event_key r = event_key
      then (False, s)
      else (True, s\<lparr>cs_events := cs_events s @
        [\<lparr>lr_id = Suc (length (cs_events s)), lr_release_commit = release, lr_candidate_id = candidate,
          lr_event_key = event_key, lr_stage = stage, lr_payload_json = payload,
          lr_created_at = cc_now c, lr_paper_only = True, lr_live_money_authority = False\<rparr>]\<rparr>))"

definition lifecycle_events :: "capital_store \<Rightarrow> string \<Rightarrow> string \<Rightarrow> lifecycle_row list" where
  "lifecycle_events s release candidate = sort_key lr_id
     (filter (\<lambda>r. lr_release_commit r = release \<and> lr_candidate_id r = candidate) (cs_events s))"

record capital_report =
  cr_reporting_release_commit :: string
  cr_portfolio_id :: string
  cr_capacity_fraction :: real
  cr_active_reserved_fraction :: real
  cr_available_fraction :: real
  cr_reservation_status :: "(string, nat \<times> real) dict"
  cr_active_release_count :: nat
  cr_duplicate_active_identity_count :: nat
  cr_settlement_count :: nat
  cr_realized_return_contribution :: real
  cr_paper_nav_multiplier :: real
  cr_capital_conserved :: bool
  cr_sqlite_busy_retries :: nat
  cr_max_write_latency_ms :: real
  cr_avg_write_latency_ms :: real

definition canonical_rows :: "capital_store \<Rightarrow> reservation_row list" where
  "canonical_rows s = filter (\<lambda>r. rr_portfolio_id r = CANONICAL_PORTFOLIO_ID) (cs_reservations s)"

definition group_by_status :: "reservation_row list \<Rightarrow> (string, nat \<times> real) dict" where
  "group_by_status rows =
     map (\<lambda>st. (status_text st,
                 (length (filter (\<lambda>r. rr_status r = st) rows),
                  sum_list (map rr_reserved_fraction (filter (\<lambda>r. rr_status r = st) rows)))))
       (filter (\<lambda>st. st \<in> rr_status ` set rows) [Active, Cancelled, Rejected, Settled])"

definition capital_reconciliation :: "capital_store \<Rightarrow> string \<Rightarrow> py_number \<Rightarrow> capital_report" where
  "capital_reconciliation s release capacity_fraction =
     (let capacity = finite_fraction capacity_fraction;
          by_status = group_by_status (canonical_rows s);
          settlements = filter (\<lambda>t. sr_portfolio_id t = CANONICAL_PORTFOLIO_ID) (cs_settlements s);
          active_canonical = active_rows (canonical_rows s);
          active_release = length (remdups (map rr_release_commit active_canonical));
          duplicate_count = length (filter
            (\<lambda>rid. length (filter (\<lambda>r. rr_reservation_id r = rid) active_canonical) > 1)
            (remdups (map rr_reservation_id active_canonical)));
          metrics = filter (\<lambda>m. mt_release_commit m = release) (cs_metrics s);
          active = (case dict_get by_status ''active'' of None \<Rightarrow> 0 | Some (n, fraction) \<Rightarrow> fraction);
          realized = sum_list (map sr_realized_contribution settlements)
      in \<lparr>cr_reporting_release_commit = release, cr_portfolio_id = CANONICAL_PORTFOLIO_ID,
          cr_capacity_fraction = capacity, cr_active_reserved_fraction = active,
          cr_available_fraction = max 0 (capacity - active), cr_reservation_status = by_status,
          cr_active_release_count = active_release,
          cr_duplicate_active_identity_count = duplicate_count,
          cr_settlement_count = length settlements,
          cr_realized_return_contribution = realized, cr_paper_nav_multiplier = 1 + realized,
          cr_capital_conserved = (active \<le> capacity + 1 / 10 ^ 12 \<and> duplicate_count = 0),
          cr_sqlite_busy_retries = sum_list (map mt_busy_retries metrics),
          cr_max_write_latency_ms = foldl max 0 (map mt_write_latency_ms metrics),
          cr_avg_write_latency_ms = (if metrics = [] then 0
            else sum_list (map mt_write_latency_ms metrics) / real (length metrics))\<rparr>)"

subsection \<open>The store as a machine\<close>

datatype capital_event =
    CReserve call_context string string string string py_number py_number bool py_number
  | CCancel call_context string string string
  | CSettle call_context string string string py_number
  | CRecord call_context string string string string string

text \<open>The output of a step is the contribution that a first settlement realises.\<close>

fun capital_step :: "capital_store \<Rightarrow> capital_event \<Rightarrow> capital_store \<times> real list" where
  "capital_step s (CReserve c release rid lane candidate requested capacity allow minimum) =
     (snd (reserve_paper_capital c release rid lane candidate requested capacity allow minimum s), [])"
| "capital_step s (CCancel c release rid reason) = (snd (cancel_paper_capital c release rid reason s), [])"
| "capital_step s (CSettle c release rid sid v) =
     (case settle_paper_capital c release rid sid v s of
        (Inl e, s') \<Rightarrow> (s', [])
      | (Inr reply, s') \<Rightarrow> (s', if se_idempotent_replay reply then [] else [sr_realized_contribution (se_row reply)]))"
| "capital_step s (CRecord c release candidate key stage payload) =
     (snd (record_lifecycle_event c release candidate key stage payload s), [])"

fun capacity_within :: "real \<Rightarrow> capital_event \<Rightarrow> bool" where
  "capacity_within b (CReserve c release rid lane candidate requested capacity allow minimum) =
     (finite_fraction capacity \<le> b)"
| "capacity_within b _ = True"

text \<open>What every reachable store satisfies: one row per reservation identity, all canonical,
  ids in insertion order, active fractions within the bound, and one settlement row
  exactly for each settled reservation, with its contribution.\<close>

definition rows_ok :: "reservation_row list \<Rightarrow> bool" where
  "rows_ok rows \<longleftrightarrow> distinct (map rr_id rows) \<and> distinct (map rr_reservation_id rows)
     \<and> (\<forall>r\<in>set rows. rr_portfolio_id r = CANONICAL_PORTFOLIO_ID \<and> 0 \<le> rr_reserved_fraction r
          \<and> rr_id r \<le> length rows)"

definition settled_ok :: "capital_store \<Rightarrow> bool" where
  "settled_ok s \<longleftrightarrow> distinct (map sr_reservation_id (cs_settlements s))
     \<and> (\<forall>t\<in>set (cs_settlements s). sr_portfolio_id t = CANONICAL_PORTFOLIO_ID
          \<and> (\<exists>r\<in>set (cs_reservations s). rr_reservation_id r = sr_reservation_id t \<and> rr_status r = Settled
              \<and> sr_realized_contribution t = rr_reserved_fraction r * sr_net_return t))
     \<and> (\<forall>r\<in>set (cs_reservations s). rr_status r = Settled
          \<longrightarrow> rr_reservation_id r \<in> sr_reservation_id ` set (cs_settlements s))"

definition capital_ok :: "real \<Rightarrow> capital_store \<Rightarrow> bool" where
  "capital_ok b s \<longleftrightarrow> rows_ok (cs_reservations s) \<and> settled_ok s
     \<and> reserved_sum Active (cs_reservations s) \<le> b"

subsection \<open>Facts about the tables\<close>

lemma status_text_inj [simp]: "status_text a = status_text b \<longleftrightarrow> a = b"
  by (cases a; cases b) simp_all

lemma metric_simps [simp]:
  "cs_reservations (metric c release oper n s) = cs_reservations s"
  "cs_settlements (metric c release oper n s) = cs_settlements s"
  "cs_events (metric c release oper n s) = cs_events s"
  by (simp_all add: metric_def)

lemma settlements_of_metric [simp]: "settlements_of (metric c release oper n s) rid = settlements_of s rid"
  by (simp add: settlements_of_def)

lemma settled_ok_metric [simp]: "settled_ok (metric c release oper n s) = settled_ok s"
  by (simp add: settled_ok_def)

lemma filter_key_unique:
  "distinct (map k xs) \<Longrightarrow> x \<in> set xs \<Longrightarrow> filter (\<lambda>y. k y = k x) xs = [x]"
proof (induction xs)
  case (Cons y ys)
  show ?case
  proof (cases "y = x")
    case True
    with Cons.prems have "\<forall>z\<in>set ys. k z \<noteq> k x" by (fastforce simp: image_iff)
    then have "filter (\<lambda>z. k z = k x) ys = []" by (simp add: filter_empty_conv)
    with True show ?thesis by simp
  next
    case False
    with Cons.prems have "k y \<noteq> k x" and "x \<in> set ys" by auto
    with Cons show ?thesis by simp
  qed
qed simp

lemma set_filter_missing: "i \<notin> k ` set xs \<Longrightarrow> filter (\<lambda>x. P x \<and> k x = i) xs = []"
  by (auto simp: filter_empty_conv)

lemma canonical_missing:
  "rid \<notin> rr_reservation_id ` set (cs_reservations s) \<Longrightarrow> canonical_reservations s rid = []"
  using set_filter_missing [of rid rr_reservation_id "cs_reservations s"]
  by (simp add: canonical_reservations_def)

lemma canonical_present:
  assumes "rows_ok (cs_reservations s)" and "r \<in> set (cs_reservations s)"
  shows "canonical_reservations s (rr_reservation_id r) = [r]"
proof -
  have "filter (\<lambda>y. rr_portfolio_id y = CANONICAL_PORTFOLIO_ID \<and> rr_reservation_id y = rr_reservation_id r)
          (cs_reservations s) = filter (\<lambda>y. rr_reservation_id y = rr_reservation_id r) (cs_reservations s)"
    using assms(1) by (auto simp: rows_ok_def intro: filter_cong)
  also have "\<dots> = [r]" using assms by (intro filter_key_unique) (simp_all add: rows_ok_def)
  finally show ?thesis by (simp add: canonical_reservations_def)
qed

lemma canonical_cases:
  assumes "rows_ok (cs_reservations s)"
  obtains (missing) "rid \<notin> rr_reservation_id ` set (cs_reservations s)"
      and "canonical_reservations s rid = []"
  | (present) r where "r \<in> set (cs_reservations s)" and "rr_reservation_id r = rid"
      and "canonical_reservations s rid = [r]"
proof (cases "rid \<in> rr_reservation_id ` set (cs_reservations s)")
  case True
  then show ?thesis using canonical_present [OF assms] present by auto
next
  case False
  then show ?thesis using canonical_missing missing by blast
qed

lemma settlements_missing:
  "rid \<notin> sr_reservation_id ` set (cs_settlements s) \<Longrightarrow> settlements_of s rid = []"
  using set_filter_missing [of rid sr_reservation_id "cs_settlements s"]
  by (simp add: settlements_of_def)

lemma settlements_present:
  assumes "settled_ok s" and "t \<in> set (cs_settlements s)"
  shows "settlements_of s (sr_reservation_id t) = [t]"
proof -
  have "filter (\<lambda>u. sr_portfolio_id u = CANONICAL_PORTFOLIO_ID \<and> sr_reservation_id u = sr_reservation_id t)
          (cs_settlements s) = filter (\<lambda>u. sr_reservation_id u = sr_reservation_id t) (cs_settlements s)"
    using assms(1) by (auto simp: settled_ok_def intro: filter_cong)
  also have "\<dots> = [t]" using assms by (intro filter_key_unique) (simp_all add: settled_ok_def)
  finally show ?thesis by (simp add: settlements_of_def)
qed

lemma settled_iff:
  assumes "rows_ok (cs_reservations s)" and "settled_ok s" and "r \<in> set (cs_reservations s)"
  shows "rr_status r = Settled \<longleftrightarrow> rr_reservation_id r \<in> sr_reservation_id ` set (cs_settlements s)"
proof
  assume "rr_reservation_id r \<in> sr_reservation_id ` set (cs_settlements s)"
  then obtain r' where r': "r' \<in> set (cs_reservations s)" "rr_reservation_id r' = rr_reservation_id r"
      "rr_status r' = Settled"
    using assms(2) by (fastforce simp: settled_ok_def)
  with assms(1,3) have "r' = r" by (auto simp: rows_ok_def distinct_map dest: inj_onD)
  with r' show "rr_status r = Settled" by simp
qed (use assms in \<open>simp add: settled_ok_def\<close>)

lemma reserved_sum_alt:
  "reserved_sum st rows = sum_list (map (\<lambda>r. if rr_portfolio_id r = CANONICAL_PORTFOLIO_ID \<and> rr_status r = st
     then rr_reserved_fraction r else 0) rows)"
  by (simp add: reserved_sum_def sum_list_map_filter')

lemma reserved_sum_append [simp]:
  "reserved_sum st (xs @ ys) = reserved_sum st xs + reserved_sum st ys"
  by (simp add: reserved_sum_alt)

lemma reserved_sum_single [simp]:
  "reserved_sum st [r] = (if rr_portfolio_id r = CANONICAL_PORTFOLIO_ID \<and> rr_status r = st
     then rr_reserved_fraction r else 0)"
  by (simp add: reserved_sum_alt)

lemma reserved_sum_nonneg: "rows_ok rows \<Longrightarrow> 0 \<le> reserved_sum st rows"
  by (auto simp: reserved_sum_alt rows_ok_def intro!: sum_list_nonneg)

text \<open>One row rewritten in place, its identity kept.\<close>

definition rewrite_row :: "reservation_row \<Rightarrow> (reservation_row \<Rightarrow> reservation_row) \<Rightarrow> reservation_row list \<Rightarrow> reservation_row list" where
  "rewrite_row r f rows = map (\<lambda>y. if rr_id y = rr_id r then f y else y) rows"

definition keeps_identity :: "(reservation_row \<Rightarrow> reservation_row) \<Rightarrow> bool" where
  "keeps_identity f \<longleftrightarrow> (\<forall>r. rr_id (f r) = rr_id r \<and> rr_reservation_id (f r) = rr_reservation_id r
     \<and> rr_portfolio_id (f r) = rr_portfolio_id r \<and> rr_reserved_fraction (f r) = rr_reserved_fraction r)"

lemma update_active_rewrite:
  assumes "rows_ok (cs_reservations s)" and "r \<in> set (cs_reservations s)" and "rr_status r = Active"
  shows "update_active (rr_id r) f s = s\<lparr>cs_reservations := rewrite_row r f (cs_reservations s)\<rparr>"
    and "active_rowcount (rr_id r) s = 1"
proof -
  have u: "y = r" if "y \<in> set (cs_reservations s)" "rr_id y = rr_id r" for y
    using that assms(1,2) by (auto simp: rows_ok_def distinct_map dest: inj_onD)
  then have "map (\<lambda>y. if rr_id y = rr_id r \<and> rr_status y = Active then f y else y) (cs_reservations s)
      = rewrite_row r f (cs_reservations s)"
    using assms(3) unfolding rewrite_row_def by (intro map_cong) auto
  then show "update_active (rr_id r) f s = s\<lparr>cs_reservations := rewrite_row r f (cs_reservations s)\<rparr>"
    by (simp add: update_active_def)
  have "filter (\<lambda>y. rr_id y = rr_id r \<and> rr_status y = Active) (cs_reservations s)
      = filter (\<lambda>y. rr_id y = rr_id r) (cs_reservations s)"
    using u assms(3) by (auto intro: filter_cong)
  also have "\<dots> = [r]" using assms by (intro filter_key_unique) (simp_all add: rows_ok_def)
  finally show "active_rowcount (rr_id r) s = 1" by (simp add: active_rowcount_def)
qed

lemma rewrite_row_set:
  assumes "rows_ok rows" and "r \<in> set rows"
  shows "set (rewrite_row r f rows) = insert (f r) (set rows - {r})"
proof -
  have "\<forall>y\<in>set rows. rr_id y = rr_id r \<longleftrightarrow> y = r"
    using assms by (auto simp: rows_ok_def distinct_map dest: inj_onD)
  with assms(2) show ?thesis by (auto simp: rewrite_row_def image_iff)
qed

lemma rewrite_row_ok:
  assumes "rows_ok rows" and "keeps_identity f"
  shows "rows_ok (rewrite_row r f rows)"
proof -
  have "map rr_id (rewrite_row r f rows) = map rr_id rows"
    and "map rr_reservation_id (rewrite_row r f rows) = map rr_reservation_id rows"
    using assms(2) by (auto simp: rewrite_row_def keeps_identity_def)
  moreover have "length (rewrite_row r f rows) = length rows" by (simp add: rewrite_row_def)
  ultimately show ?thesis
    using assms unfolding rows_ok_def
    by (auto simp: rewrite_row_def keeps_identity_def simp del: map_map)
qed

lemma rewrite_row_released:
  assumes "rows_ok rows" and "r \<in> set rows" and "rr_status r = Active" and "rr_status (f r) \<noteq> Active"
  shows "reserved_sum Active (rewrite_row r f rows) = reserved_sum Active rows - rr_reserved_fraction r"
proof -
  have "distinct (map rr_id rows)" "rr_portfolio_id r = CANONICAL_PORTFOLIO_ID"
    using assms by (auto simp: rows_ok_def)
  with sum_list_update_key [of rr_id rows r
      "\<lambda>r. if rr_portfolio_id r = CANONICAL_PORTFOLIO_ID \<and> rr_status r = Active then rr_reserved_fraction r else 0" f]
      assms(2-4)
  show ?thesis by (simp add: reserved_sum_alt rewrite_row_def comp_def)
qed

subsection \<open>What one call does\<close>

lemma reserve_decision_cases:
  assumes "reserve_decision requested capacity minimum allow active = (g, st, why)"
    and "0 \<le> active" and "active \<le> capacity \<or> 0 \<le> capacity"
  shows "(st = Rejected \<and> g = 0) \<or> (st = Active \<and> 0 < g \<and> g \<le> requested \<and> active + g \<le> capacity)"
  using assms by (auto simp: reserve_decision_def Let_def max_def min_def split: if_splits)

lemma reserve_decision_grant:
  assumes "0 \<le> active" and "available = max 0 (capacity - active)"
    and "grant = (if al then min requested available else if requested \<le> available then requested else 0)"
  shows "fst (reserve_decision requested capacity minimum al active)
        = (if 0 < grant \<and> minimum \<le> grant + 1 / 10 ^ 12 then grant else 0)"
    and "fst (snd (reserve_decision requested capacity minimum al active))
        = (if 0 < grant \<and> minimum \<le> grant + 1 / 10 ^ 12 then Active else Rejected)"
proof -
  have "max 0 active = active" using assms(1) by simp
  then have "reserve_decision requested capacity minimum al active =
     (if grant \<le> 0 \<or> grant + 1 / 10 ^ 12 < minimum
           then (0, Rejected, ''paper_capital_exhausted_or_below_minimum'')
         else if grant + 1 / 10 ^ 12 < requested then (grant, Active, ''paper_capital_downsized'')
         else (grant, Active, ''paper_capital_reserved''))"
    by (simp only: reserve_decision_def Let_def assms(2,3) [symmetric])
  then show "fst (reserve_decision requested capacity minimum al active)
        = (if 0 < grant \<and> minimum \<le> grant + 1 / 10 ^ 12 then grant else 0)"
    and "fst (snd (reserve_decision requested capacity minimum al active))
        = (if 0 < grant \<and> minimum \<le> grant + 1 / 10 ^ 12 then Active else Rejected)"
    by (simp_all only: split: if_splits) (simp_all add: not_le not_less)
qed

lemma new_reservation_simps [simp]:
  "rr_id (new_reservation c release rid lane cand q cap mn al s) = Suc (length (cs_reservations s))"
  "rr_release_commit (new_reservation c release rid lane cand q cap mn al s) = release"
  "rr_reservation_id (new_reservation c release rid lane cand q cap mn al s) = rid"
  "rr_portfolio_id (new_reservation c release rid lane cand q cap mn al s) = CANONICAL_PORTFOLIO_ID"
  "rr_requested_fraction (new_reservation c release rid lane cand q cap mn al s) = q"
  by (simp_all add: new_reservation_def split_beta Let_def)

lemma new_reservation_cases:
  assumes "rows_ok (cs_reservations s)" and "0 \<le> capacity"
    and row_def: "row = new_reservation c release rid lane cand requested capacity minimum allow s"
  shows "(rr_status row = Rejected \<and> rr_reserved_fraction row = 0)
    \<or> (rr_status row = Active \<and> 0 < rr_reserved_fraction row \<and> rr_reserved_fraction row \<le> requested
        \<and> reserved_sum Active (cs_reservations s) + rr_reserved_fraction row \<le> capacity)"
proof -
  obtain g st why where d: "reserve_decision requested capacity minimum allow
      (reserved_sum Active (cs_reservations s)) = (g, st, why)"
    by (cases "reserve_decision requested capacity minimum allow
      (reserved_sum Active (cs_reservations s))")
  from reserve_decision_cases [OF d reserved_sum_nonneg [OF assms(1)]] assms(2) d show ?thesis
    by (simp add: row_def new_reservation_def)
qed

lemma reserve_present:
  assumes "rows_ok (cs_reservations s)" and "r \<in> set (cs_reservations s)"
    and "begin_immediate 0 (cc_attempts c) = Inr k"
    and "rr_reservation_id r \<noteq> []" "candidate \<noteq> []" "lane \<noteq> []"
  shows "reserve_paper_capital c release (rr_reservation_id r) lane candidate q cap al mn s
    = (Inr \<lparr>rp_row = r, rp_idempotent_replay = True, rp_busy_retries = k,
             rp_replay_requested_release = Some release\<rparr>,
       metric c release ''reserve_replay'' k s)"
  using assms canonical_present [OF assms(1,2)]
  by (simp add: reserve_paper_capital_def Let_def active_rows_def)

lemma reserve_missing:
  assumes "rid \<notin> rr_reservation_id ` set (cs_reservations s)"
    and "begin_immediate 0 (cc_attempts c) = Inr k"
    and "rid \<noteq> []" "candidate \<noteq> []" "lane \<noteq> []"
    and row_def: "row = new_reservation c release rid lane candidate (finite_fraction q)
             (finite_fraction cap) (finite_fraction mn) al s"
  shows "reserve_paper_capital c release rid lane candidate q cap al mn s
    = (Inr \<lparr>rp_row = row, rp_idempotent_replay = False, rp_busy_retries = k,
             rp_replay_requested_release = None\<rparr>,
       metric c release ''reserve'' k (s\<lparr>cs_reservations := cs_reservations s @ [row]\<rparr>))"
proof -
  have none: "\<not> (\<exists>r\<in>set (cs_reservations s). rr_release_commit r = release \<and> rr_reservation_id r = rid)"
    using assms(1) by auto
  have "find (\<lambda>r. rr_portfolio_id r = CANONICAL_PORTFOLIO_ID \<and> rr_release_commit r = release
      \<and> rr_reservation_id r = rid) (cs_reservations s @ [row]) = Some row"
    using assms(1) by (intro find_new) (auto simp: row_def)
  then show ?thesis
    using assms(1-5) none canonical_missing [OF assms(1)]
    by (simp add: reserve_paper_capital_def Let_def row_def [symmetric] del: new_reservation_simps)
qed

lemma reserve_error:
  assumes "rid = [] \<or> candidate = [] \<or> lane = [] \<or> begin_immediate 0 (cc_attempts c) = Inl e"
  shows "snd (reserve_paper_capital c release rid lane candidate q cap al mn s) = s
    \<and> isl (fst (reserve_paper_capital c release rid lane candidate q cap al mn s))"
  using assms by (auto simp: reserve_paper_capital_def Let_def)

lemma cancel_active:
  assumes "rows_ok (cs_reservations s)" and "r \<in> set (cs_reservations s)" and "rr_status r = Active"
    and "begin_immediate 0 (cc_attempts c) = Inr k"
  shows "cancel_paper_capital c release (rr_reservation_id r) reason s
    = (Inr True, metric c release ''cancel'' k (s\<lparr>cs_reservations :=
         rewrite_row r (\<lambda>r. r\<lparr>rr_status := Cancelled, rr_reason := reason, rr_updated_at := cc_now c\<rparr>)
           (cs_reservations s)\<rparr>))"
  using assms canonical_present [OF assms(1,2)] update_active_rewrite [OF assms(1-3)]
  by (simp add: cancel_paper_capital_def Let_def active_rows_def)

lemma cancel_inactive:
  assumes "rows_ok (cs_reservations s)" and "begin_immediate 0 (cc_attempts c) = Inr k"
    and "\<forall>r\<in>set (cs_reservations s). rr_reservation_id r = rid \<longrightarrow> rr_status r \<noteq> Active"
  shows "cancel_paper_capital c release rid reason s
    = (Inr False, metric c release ''cancel_replay'' k s)"
  using assms by (cases rule: canonical_cases [OF assms(1), of rid])
    (auto simp: cancel_paper_capital_def Let_def active_rows_def)

text \<open>The store and the settlement row after the first settlement of an active row.\<close>

definition settled_by :: "call_context \<Rightarrow> string \<Rightarrow> real \<Rightarrow> reservation_row \<Rightarrow> capital_store \<Rightarrow> settlement_row" where
  "settled_by c sid v r s = \<lparr>sr_id = Suc (length (cs_settlements s)),
     sr_release_commit = rr_release_commit r, sr_settlement_id = sid,
     sr_reservation_id = rr_reservation_id r, sr_net_return = v,
     sr_realized_contribution = max 0 (rr_reserved_fraction r) * v, sr_settled_at = cc_now c,
     sr_paper_only = True, sr_live_money_authority = False, sr_portfolio_id = CANONICAL_PORTFOLIO_ID\<rparr>"

definition after_settlement :: "call_context \<Rightarrow> string \<Rightarrow> real \<Rightarrow> reservation_row \<Rightarrow> capital_store \<Rightarrow> capital_store" where
  "after_settlement c sid v r s = s\<lparr>
     cs_settlements := cs_settlements s @ [settled_by c sid v r s],
     cs_reservations := rewrite_row r (\<lambda>y. y\<lparr>rr_status := Settled,
       rr_reason := ''paper_capital_settled'', rr_net_return := Some v,
       rr_realized_contribution := Some (max 0 (rr_reserved_fraction r) * v),
       rr_updated_at := cc_now c\<rparr>) (cs_reservations s)\<rparr>"

lemma settle_unsettled:
  assumes ok: "rows_ok (cs_reservations s)" and unsettled: "rr_reservation_id r \<notin> sr_reservation_id ` set (cs_settlements s)"
    and r: "r \<in> set (cs_reservations s)" "rr_status r = Active"
    and k: "begin_immediate 0 (cc_attempts c) = Inr k"
    and fresh: "\<forall>t\<in>set (cs_settlements s). sr_release_commit t = rr_release_commit r \<longrightarrow> sr_settlement_id t \<noteq> sid"
  shows "settle_paper_capital c release (rr_reservation_id r) sid (Number v) s
    = (Inr \<lparr>se_row = settled_by c sid v r s, se_idempotent_replay = False, se_busy_retries = k,
             se_replay_requested_release = None, se_settled_by_release = Some release\<rparr>,
       metric c release ''settle'' k (after_settlement c sid v r s))"
proof -
  have none: "settlements_of s (rr_reservation_id r) = []" by (rule settlements_missing [OF unsettled])
  have u: "insert_settlement (settled_by c sid v r s) s
      = Inr (s\<lparr>cs_settlements := cs_settlements s @ [settled_by c sid v r s]\<rparr>)"
    using fresh unsettled by (force simp: insert_settlement_def settled_by_def)
  have one: "filter (\<lambda>t. sr_portfolio_id t = CANONICAL_PORTFOLIO_ID \<and> sr_reservation_id t = rr_reservation_id r)
      (cs_settlements s) = []"
    by (rule set_filter_missing [OF unsettled])
  have "settlements_of (after_settlement c sid v r s) (rr_reservation_id r) = [settled_by c sid v r s]"
    using one by (simp add: settlements_of_def after_settlement_def settled_by_def)
  then show ?thesis
    using canonical_present [OF ok r(1)] r k none u
      update_active_rewrite(1) [of "s\<lparr>cs_settlements := cs_settlements s @ [settled_by c sid v r s]\<rparr>" r] ok
    by (simp add: settle_paper_capital_def Let_def active_rows_def settled_by_def [symmetric]
        after_settlement_def)
qed

lemma settle_active:
  assumes ok: "rows_ok (cs_reservations s)" "settled_ok s"
    and r: "r \<in> set (cs_reservations s)" "rr_status r = Active"
    and k: "begin_immediate 0 (cc_attempts c) = Inr k"
    and fresh: "\<forall>t\<in>set (cs_settlements s). sr_release_commit t = rr_release_commit r \<longrightarrow> sr_settlement_id t \<noteq> sid"
  shows "settle_paper_capital c release (rr_reservation_id r) sid (Number v) s
    = (Inr \<lparr>se_row = settled_by c sid v r s, se_idempotent_replay = False, se_busy_retries = k,
             se_replay_requested_release = None, se_settled_by_release = Some release\<rparr>,
       metric c release ''settle'' k (after_settlement c sid v r s))"
proof (rule settle_unsettled [OF ok(1) _ r k fresh])
  show "rr_reservation_id r \<notin> sr_reservation_id ` set (cs_settlements s)"
    using settled_iff [OF ok r(1)] r(2) by simp
qed

lemma settle_conflict:
  assumes ok: "rows_ok (cs_reservations s)" "settled_ok s"
    and r: "r \<in> set (cs_reservations s)" "rr_status r = Active"
    and k: "begin_immediate 0 (cc_attempts c) = Inr k"
    and used: "t \<in> set (cs_settlements s)" "sr_release_commit t = rr_release_commit r" "sr_settlement_id t = sid"
  shows "settle_paper_capital c release (rr_reservation_id r) sid (Number v) s
    = (Inl (IntegrityError ''UNIQUE(release_commit,settlement_id)''), s)"
proof -
  have "rr_reservation_id r \<notin> sr_reservation_id ` set (cs_settlements s)"
    using settled_iff [OF ok r(1)] r(2) by simp
  then have "settlements_of s (rr_reservation_id r) = []" by (rule settlements_missing)
  moreover have "insert_settlement (settled_by c sid v r s) s
      = Inl (IntegrityError ''UNIQUE(release_commit,settlement_id)'')"
    using used by (force simp: insert_settlement_def settled_by_def)
  ultimately show ?thesis
    using canonical_present [OF ok(1) r(1)] r k
    by (simp add: settle_paper_capital_def Let_def active_rows_def settled_by_def)
qed

lemma settle_replay:
  assumes ok: "rows_ok (cs_reservations s)" "settled_ok s"
    and t: "t \<in> set (cs_settlements s)"
    and k: "begin_immediate 0 (cc_attempts c) = Inr k"
  shows "settle_paper_capital c release (sr_reservation_id t) sid (Number v) s
    = (Inr \<lparr>se_row = t, se_idempotent_replay = True, se_busy_retries = k,
             se_replay_requested_release = Some release, se_settled_by_release = None\<rparr>,
       metric c release ''settle_replay'' k s)"
proof -
  obtain r where r: "r \<in> set (cs_reservations s)" "rr_reservation_id r = sr_reservation_id t"
      "rr_status r = Settled"
    using ok(2) t by (fastforce simp: settled_ok_def)
  with canonical_present [OF ok(1) r(1)] settlements_present [OF ok(2) t] k show ?thesis
    by (simp add: settle_paper_capital_def Let_def active_rows_def)
qed

lemma settle_missing:
  assumes "rows_ok (cs_reservations s)" "settled_ok s"
    and "rid \<notin> rr_reservation_id ` set (cs_reservations s)"
    and "begin_immediate 0 (cc_attempts c) = Inr k"
  shows "settle_paper_capital c release rid sid (Number v) s
    = (Inl (KeyError ''paper_capital_reservation_missing''), s)"
proof -
  have "sr_reservation_id ` set (cs_settlements s) \<subseteq> rr_reservation_id ` set (cs_reservations s)"
  proof
    fix i assume "i \<in> sr_reservation_id ` set (cs_settlements s)"
    then obtain t where "t \<in> set (cs_settlements s)" and i: "i = sr_reservation_id t" by blast
    with assms(2) obtain r where "r \<in> set (cs_reservations s)" and "rr_reservation_id r = i"
      unfolding settled_ok_def by blast
    then show "i \<in> rr_reservation_id ` set (cs_reservations s)" by blast
  qed
  then have "rid \<notin> sr_reservation_id ` set (cs_settlements s)" using assms(3) by blast
  from settlements_missing [OF this] canonical_missing [OF assms(3)] assms(4) show ?thesis
    by (simp add: settle_paper_capital_def Let_def active_rows_def)
qed

lemma settle_withdrawn:
  assumes ok: "rows_ok (cs_reservations s)" "settled_ok s"
    and r: "r \<in> set (cs_reservations s)" "rr_status r = Cancelled \<or> rr_status r = Rejected"
    and k: "begin_immediate 0 (cc_attempts c) = Inr k"
  shows "settle_paper_capital c release (rr_reservation_id r) sid (Number v) s
    = (Inl (RuntimeError (''paper_capital_reservation_not_active:'' @ status_text (rr_status r))), s)"
proof -
  have "rr_reservation_id r \<notin> sr_reservation_id ` set (cs_settlements s)"
    using settled_iff [OF ok r(1)] r(2) by auto
  from settlements_missing [OF this] canonical_present [OF ok(1) r(1)] r(2) k show ?thesis
    by (auto simp: settle_paper_capital_def Let_def active_rows_def)
qed

lemma settle_error:
  assumes "finite_return v = Inl e \<or> begin_immediate 0 (cc_attempts c) = Inl e"
  shows "snd (settle_paper_capital c release rid sid v s) = s
    \<and> isl (fst (settle_paper_capital c release rid sid v s))"
  using assms by (auto simp: settle_paper_capital_def split: sum.splits)

subsection \<open>The invariant\<close>

lemma capital_ok_metric [simp]: "capital_ok b (metric c release oper n s) = capital_ok b s"
  by (simp add: capital_ok_def)

lemma capital_ok_record: "capital_ok b s \<Longrightarrow> capital_ok b (snd (record_lifecycle_event c release cand key stage p s))"
  by (simp add: capital_ok_def settled_ok_def record_lifecycle_event_def)

lemma capital_ok_insert:
  assumes ok: "capital_ok b s" and fresh: "rid \<notin> rr_reservation_id ` set (cs_reservations s)"
    and cap: "0 \<le> capacity" "capacity \<le> b"
  shows "capital_ok b (s\<lparr>cs_reservations := cs_reservations s @
    [new_reservation c release rid lane cand q capacity mn al s]\<rparr>)"
proof -
  define row where "row = new_reservation c release rid lane cand q capacity mn al s"
  have rows: "rows_ok (cs_reservations s)" and st: "settled_ok s"
    and sum: "reserved_sum Active (cs_reservations s) \<le> b" using ok by (simp_all add: capital_ok_def)
  note row = new_reservation_cases [OF rows cap(1) row_def]
  have "\<forall>r\<in>set (cs_reservations s). rr_id r \<noteq> Suc (length (cs_reservations s))"
    using rows by (fastforce simp: rows_ok_def)
  then have "rows_ok (cs_reservations s @ [row])"
    using rows fresh row by (auto simp: rows_ok_def row_def)
  moreover have "settled_ok (s\<lparr>cs_reservations := cs_reservations s @ [row]\<rparr>)"
    using st row by (auto simp: settled_ok_def)
  moreover have "reserved_sum Active (cs_reservations s @ [row]) \<le> b"
    using sum row cap(2) by (auto simp: row_def)
  ultimately show ?thesis by (simp add: capital_ok_def row_def)
qed

lemma capital_ok_rewrite:
  assumes ok: "capital_ok b s" and r: "r \<in> set (cs_reservations s)" "rr_status r = Active"
    and f: "keeps_identity f" "rr_status (f r) \<noteq> Active"
  shows "rows_ok (rewrite_row r f (cs_reservations s))
    \<and> reserved_sum Active (rewrite_row r f (cs_reservations s)) \<le> b"
proof -
  have rows: "rows_ok (cs_reservations s)" and sum: "reserved_sum Active (cs_reservations s) \<le> b"
    using ok by (simp_all add: capital_ok_def)
  have "0 \<le> rr_reserved_fraction r" using rows r by (simp add: rows_ok_def)
  with rewrite_row_ok [OF rows f(1)] rewrite_row_released [of "cs_reservations s" r f, OF rows r f(2)] sum
  show ?thesis by simp
qed

lemma capital_ok_cancel:
  assumes ok: "capital_ok b s" and r: "r \<in> set (cs_reservations s)" "rr_status r = Active"
    and f: "keeps_identity f" "rr_status (f r) = Cancelled"
  shows "capital_ok b (s\<lparr>cs_reservations := rewrite_row r f (cs_reservations s)\<rparr>)"
proof -
  have rows: "rows_ok (cs_reservations s)" and st: "settled_ok s" using ok by (simp_all add: capital_ok_def)
  have "settled_ok (s\<lparr>cs_reservations := rewrite_row r f (cs_reservations s)\<rparr>)"
    using st r(2) f(2) unfolding settled_ok_def
    by (simp add: rewrite_row_set [OF rows r(1)]) (metis Diff_iff insertCI reservation_status.distinct(1) singletonD)
  with capital_ok_rewrite [OF ok r f(1)] f(2) show ?thesis by (simp add: capital_ok_def)
qed

lemma capital_ok_settle:
  assumes ok: "capital_ok b s" and r: "r \<in> set (cs_reservations s)" "rr_status r = Active"
  shows "capital_ok b (after_settlement c sid v r s)"
proof -
  define f :: "reservation_row \<Rightarrow> reservation_row" where "f = (\<lambda>y. y\<lparr>rr_status := Settled, rr_reason := ''paper_capital_settled'',
    rr_net_return := Some v, rr_realized_contribution := Some (max 0 (rr_reserved_fraction r) * v),
    rr_updated_at := cc_now c\<rparr>)"
  have f: "keeps_identity f" "rr_status (f y) = Settled" for y by (simp_all add: f_def keeps_identity_def)
  have rows: "rows_ok (cs_reservations s)" and st: "settled_ok s" using ok by (simp_all add: capital_ok_def)
  have new: "rr_reservation_id r \<notin> sr_reservation_id ` set (cs_settlements s)"
    using settled_iff [OF rows st r(1)] r(2) by simp
  have pos: "max 0 (rr_reserved_fraction r) = rr_reserved_fraction r"
    using rows r(1) by (simp add: rows_ok_def)
  have res: "cs_reservations (after_settlement c sid v r s) = rewrite_row r f (cs_reservations s)"
    and set: "cs_settlements (after_settlement c sid v r s) = cs_settlements s @ [settled_by c sid v r s]"
    by (simp_all add: after_settlement_def f_def)
  have t: "sr_reservation_id (settled_by c sid v r s) = rr_reservation_id (f r)"
    "sr_portfolio_id (settled_by c sid v r s) = CANONICAL_PORTFOLIO_ID"
    "sr_realized_contribution (settled_by c sid v r s) = rr_reserved_fraction (f r) * sr_net_return (settled_by c sid v r s)"
    using pos by (simp_all add: settled_by_def f_def)
  have keep: "\<exists>y\<in>set (cs_reservations s) - {r}. rr_reservation_id y = sr_reservation_id u \<and> rr_status y = Settled
      \<and> sr_realized_contribution u = rr_reserved_fraction y * sr_net_return u"
    if "u \<in> set (cs_settlements s)" for u
    using st that r(2) by (fastforce simp: settled_ok_def)
  have "settled_ok (after_settlement c sid v r s)"
    unfolding settled_ok_def res set rewrite_row_set [OF rows r(1)]
    using st new t keep f(2) [of r] by (auto simp: settled_ok_def f_def)
  with capital_ok_rewrite [OF ok r f(1)] f(2) res show ?thesis by (simp add: capital_ok_def)
qed

lemma capital_ok_reserve:
  assumes ok: "capital_ok b s" and cap: "finite_fraction cap \<le> b"
  shows "capital_ok b (snd (reserve_paper_capital c release rid lane cand q cap al mn s))"
proof (cases "rid = [] \<or> cand = [] \<or> lane = []")
  case False
  then have ne: "rid \<noteq> []" "cand \<noteq> []" "lane \<noteq> []" by simp_all
  have rows: "rows_ok (cs_reservations s)" using ok by (simp add: capital_ok_def)
  show ?thesis
  proof (cases "begin_immediate 0 (cc_attempts c)")
    case (Inl e)
    with reserve_error [of rid cand lane c e release q cap al mn s] ok show ?thesis by simp
  next
    case (Inr k)
    show ?thesis using rows
    proof (cases rule: canonical_cases [where rid = rid])
      case missing
      with reserve_missing [OF missing(1) Inr ne refl] capital_ok_insert [OF ok missing(1) _ cap]
      show ?thesis by simp
    next
      case (present r)
      with reserve_present [OF rows present(1) Inr _ ne(2,3)] ne(1) ok show ?thesis by force
    qed
  qed
next
  case True
  then have "snd (reserve_paper_capital c release rid lane cand q cap al mn s) = s"
    by (auto simp: reserve_paper_capital_def Let_def)
  with ok show ?thesis by simp
qed

lemma capital_ok_cancel_call:
  assumes ok: "capital_ok b s"
  shows "capital_ok b (snd (cancel_paper_capital c release rid reason s))"
proof (cases "begin_immediate 0 (cc_attempts c)")
  case (Inl e)
  with ok show ?thesis by (simp add: cancel_paper_capital_def)
next
  case (Inr k)
  have rows: "rows_ok (cs_reservations s)" using ok by (simp add: capital_ok_def)
  show ?thesis
  proof (cases "\<exists>r\<in>set (cs_reservations s). rr_reservation_id r = rid \<and> rr_status r = Active")
    case True
    then obtain r where r: "r \<in> set (cs_reservations s)" "rr_status r = Active" and i: "rid = rr_reservation_id r"
      by blast
    show ?thesis unfolding i cancel_active [OF rows r Inr]
      using capital_ok_cancel [OF ok r] by (simp add: keeps_identity_def)
  next
    case False
    then show ?thesis using cancel_inactive [OF rows Inr, of rid] ok by auto
  qed
qed

definition realized_total :: "capital_store \<Rightarrow> real" where
  "realized_total s = sum_list (map sr_realized_contribution (cs_settlements s))"

lemma realized_total_metric [simp]: "realized_total (metric c release oper n s) = realized_total s"
  by (simp add: realized_total_def)

lemma reserve_keeps_settlements [simp]:
  "cs_settlements (snd (reserve_paper_capital c release rid lane cand q cap al mn s)) = cs_settlements s"
  by (auto simp: reserve_paper_capital_def Let_def split: sum.splits option.splits)

lemma cancel_keeps_settlements [simp]:
  "cs_settlements (snd (cancel_paper_capital c release rid reason s)) = cs_settlements s"
  by (auto simp: cancel_paper_capital_def Let_def update_active_def split: sum.splits)

text \<open>Every settlement call on a good store: nothing changes, or only a metric is added, or an
  active row is settled for the first time.\<close>

lemma settle_cases:
  assumes ok: "capital_ok b s"
  obtains (failed) e where "settle_paper_capital c release rid sid v s = (Inl e, s)"
  | (replay) t k where "t \<in> set (cs_settlements s)"
      "settle_paper_capital c release rid sid v s
        = (Inr \<lparr>se_row = t, se_idempotent_replay = True, se_busy_retries = k,
             se_replay_requested_release = Some release, se_settled_by_release = None\<rparr>,
           metric c release ''settle_replay'' k s)"
  | (first) r x k where "r \<in> set (cs_reservations s)" "rr_status r = Active" "rr_reservation_id r = rid"
      "settle_paper_capital c release rid sid v s
        = (Inr \<lparr>se_row = settled_by c sid x r s, se_idempotent_replay = False, se_busy_retries = k,
             se_replay_requested_release = None, se_settled_by_release = Some release\<rparr>,
           metric c release ''settle'' k (after_settlement c sid x r s))"
proof (cases "finite_return v")
  case (Inl e)
  then show ?thesis using failed by (simp add: settle_paper_capital_def)
next
  case (Inr x)
  then have v: "v = Number x" by (cases v) simp_all
  have rows: "rows_ok (cs_reservations s)" and st: "settled_ok s" using ok by (simp_all add: capital_ok_def)
  show ?thesis
  proof (cases "begin_immediate 0 (cc_attempts c)")
    case (Inl e)
    then show ?thesis using failed v by (simp add: settle_paper_capital_def)
  next
    case (Inr k)
    show ?thesis using rows
    proof (cases rule: canonical_cases [where rid = rid])
      case missing
      then show ?thesis using failed settle_missing [OF rows st missing(1) Inr] v by simp
    next
      case (present r)
      show ?thesis
      proof (cases "rr_status r")
        case Active
        show ?thesis
          using settle_active [OF rows st present(1) Active Inr] settle_conflict [OF rows st present(1) Active Inr]
            first [OF present(1) Active present(2)] failed present(2) v by blast
      next
        case Settled
        then obtain t where "t \<in> set (cs_settlements s)" "sr_reservation_id t = rid"
          using settled_iff [OF rows st present(1)] present(2) by auto
        then show ?thesis using replay settle_replay [OF rows st _ Inr] v by blast
      qed (use settle_withdrawn [OF rows st present(1) _ Inr] failed present(2) v in auto)
    qed
  qed
qed

interpretation capital_machine: potential_machine capital_step "capacity_within b" "capital_ok b"
    "\<lambda>x. x" realized_total for b
proof
  fix s e assume ok: "capital_ok b s" and allowed: "capacity_within b e"
  show "capital_ok b (fst (capital_step s e))"
  proof (cases e)
    case (CSettle c release rid sid v)
    show ?thesis unfolding CSettle
      by (cases rule: settle_cases [OF ok, of c release rid sid v]) (simp_all add: ok capital_ok_settle)
  qed (use ok allowed in \<open>simp_all add: capital_ok_reserve capital_ok_cancel_call capital_ok_record\<close>)
  show "sum_list (map (\<lambda>x. x) (snd (capital_step s e))) = realized_total (fst (capital_step s e)) - realized_total s"
  proof (cases e)
    case (CSettle c release rid sid v)
    show ?thesis unfolding CSettle
      by (cases rule: settle_cases [OF ok, of c release rid sid v])
        (simp_all add: realized_total_def after_settlement_def)
  qed (simp_all add: realized_total_def record_lifecycle_event_def)
qed

lemma capital_ok_empty: "0 \<le> b \<Longrightarrow> capital_ok b empty_capital_store"
  by (simp add: capital_ok_def rows_ok_def settled_ok_def reserved_sum_def empty_capital_store_def)

lemma capital_run_ok:
  "0 \<le> b \<Longrightarrow> list_all (capacity_within b) events \<Longrightarrow>
     capital_ok b (fst (run_machine capital_step empty_capital_store events))"
  by (rule capital_machine.run_inv [OF capital_ok_empty])

lemma reconciliation_active:
  "cr_active_reserved_fraction (capital_reconciliation s release cap) = reserved_sum Active (cs_reservations s)"
proof -
  have "filter (\<lambda>r. rr_status r = Active) (canonical_rows s)
      = filter (\<lambda>r. rr_portfolio_id r = CANONICAL_PORTFOLIO_ID \<and> rr_status r = Active) (cs_reservations s)"
    by (simp add: canonical_rows_def conj_commute)
  moreover have "Active \<notin> rr_status ` set (canonical_rows s)
      \<Longrightarrow> filter (\<lambda>r. rr_status r = Active) (canonical_rows s) = []"
    by (force simp: filter_empty_conv)
  ultimately show ?thesis
    by (auto simp: capital_reconciliation_def Let_def group_by_status_def reserved_sum_def)
qed

lemma reconciliation_duplicates:
  assumes "rows_ok (cs_reservations s)"
  shows "cr_duplicate_active_identity_count (capital_reconciliation s release cap) = 0"
proof -
  have "\<not> 1 < length (filter (\<lambda>r. rr_reservation_id r = rid) (active_rows (canonical_rows s)))" for rid
  proof -
    let ?f = "filter (\<lambda>r. rr_reservation_id r = rid) (active_rows (canonical_rows s))"
    have "distinct (map rr_reservation_id (active_rows (canonical_rows s)))"
      using assms by (simp add: rows_ok_def active_rows_def canonical_rows_def distinct_map_filter)
    then have "distinct (map rr_reservation_id ?f)" by (rule distinct_map_filter)
    moreover have "set (map rr_reservation_id ?f) \<subseteq> {rid}" by auto
    ultimately have "length (map rr_reservation_id ?f) \<le> card {rid}"
      by (metis card_mono distinct_card finite.emptyI finite.insertI)
    then show ?thesis by simp
  qed
  then show ?thesis by (simp add: capital_reconciliation_def Let_def filter_empty_conv)
qed

definition demo_context :: call_context where
  "demo_context = \<lparr>cc_attempts = [Busy, Began], cc_elapsed_ms = 3, cc_now = 7\<rparr>"

definition demo_reserve :: "string \<Rightarrow> string \<Rightarrow> real \<Rightarrow> capital_event" where
  "demo_reserve release rid x = CReserve demo_context release rid ''lane'' ''cand'' (Number x) (Number 1) True (Number 0)"

subsection \<open>Properties\<close>

text \<open>C1. Whatever sequence of reservations, cancellations, settlements and lifecycle records is
  applied to an empty store, by any releases and with failing transactions included, the
  active reserved fractions never sum to more than the largest capacity passed to a
  reservation, every reservation identity has one row, and reconciliation against at least
  that capacity reports the capital as conserved and the rest as available.\<close>

theorem capital_never_oversubscribed:
  assumes "0 \<le> b" and "list_all (capacity_within b) events" and "b \<le> finite_fraction capacity"
    and "s = fst (run_machine capital_step empty_capital_store events)"
  shows "reserved_sum Active (cs_reservations s) \<le> b
    \<and> distinct (map rr_reservation_id (cs_reservations s))
    \<and> cr_capital_conserved (capital_reconciliation s release capacity)
    \<and> cr_available_fraction (capital_reconciliation s release capacity)
        = finite_fraction capacity - reserved_sum Active (cs_reservations s)"
proof -
  have ok: "rows_ok (cs_reservations s)" "reserved_sum Active (cs_reservations s) \<le> b"
    using capital_run_ok [OF assms(1,2)] assms(4) by (simp_all add: capital_ok_def)
  have conserved: "cr_capital_conserved (capital_reconciliation s release capacity) \<longleftrightarrow>
      cr_active_reserved_fraction (capital_reconciliation s release capacity) \<le> finite_fraction capacity + 1 / 10 ^ 12
      \<and> cr_duplicate_active_identity_count (capital_reconciliation s release capacity) = 0"
    and available: "cr_available_fraction (capital_reconciliation s release capacity)
      = max 0 (finite_fraction capacity - cr_active_reserved_fraction (capital_reconciliation s release capacity))"
    by (simp_all only: capital_reconciliation_def Let_def capital_report.simps)
  show ?thesis
    using ok assms(3) conserved available reconciliation_active reconciliation_duplicates [OF ok(1)]
    by (simp add: rows_ok_def)
qed

theorem capital_never_oversubscribed_witness:
  "cr_capital_conserved (capital_reconciliation
     (fst (run_machine capital_step empty_capital_store [demo_reserve ''r1'' ''a'' (3 / 4), demo_reserve ''r2'' ''b'' (1 / 2)]))
     ''r2'' (Number 1))"
  using capital_never_oversubscribed [of 1
      "[demo_reserve ''r1'' ''a'' (3 / 4), demo_reserve ''r2'' ''b'' (1 / 2)]" "Number 1" _ "''r2''", OF _ _ _ refl]
  by (simp add: demo_reserve_def)

text \<open>In a reachable store, a call that reaches its transaction with a new reservation
  identity grants \<open>min requested available\<close> (or all or nothing when downsizing is not allowed)
  unless nothing or too little is left, and a call that repeats an identity, from any
  release and with any request, returns the original row and leaves every row as it was.\<close>

theorem reserve_grants_once:
  assumes "0 \<le> b" and "list_all (capacity_within b) events"
    and "s = fst (run_machine capital_step empty_capital_store events)"
    and "begin_immediate 0 (cc_attempts c) = Inr k"
    and "rid \<noteq> []" "candidate \<noteq> []" "lane \<noteq> []"
    and "available = max 0 (finite_fraction cap - reserved_sum Active (cs_reservations s))"
    and "grant = (if al then min (finite_fraction q) available
                  else if finite_fraction q \<le> available then finite_fraction q else 0)"
  shows "case reserve_paper_capital c release rid lane candidate q cap al mn s of
      (Inl e, s') \<Rightarrow> False
    | (Inr reply, s') \<Rightarrow>
        rr_reservation_id (rp_row reply) = rid
      \<and> (if rid \<in> rr_reservation_id ` set (cs_reservations s)
         then rp_idempotent_replay reply \<and> rp_row reply \<in> set (cs_reservations s)
            \<and> cs_reservations s' = cs_reservations s
         else \<not> rp_idempotent_replay reply \<and> cs_reservations s' = cs_reservations s @ [rp_row reply]
            \<and> (if 0 < grant \<and> finite_fraction mn \<le> grant + 1 / 10 ^ 12
               then rr_status (rp_row reply) = Active \<and> rr_reserved_fraction (rp_row reply) = grant
               else rr_status (rp_row reply) = Rejected \<and> rr_reserved_fraction (rp_row reply) = 0))"
proof -
  have rows: "rows_ok (cs_reservations s)"
    using capital_run_ok [OF assms(1,2)] assms(3) by (simp add: capital_ok_def)
  then have pos: "0 \<le> reserved_sum Active (cs_reservations s)" by (rule reserved_sum_nonneg)
  show ?thesis using rows
  proof (cases rule: canonical_cases [where rid = rid])
    case missing
    have "rr_status (new_reservation c release rid lane candidate (finite_fraction q)
             (finite_fraction cap) (finite_fraction mn) al s) = (if 0 < grant \<and> finite_fraction mn \<le> grant + 1 / 10 ^ 12
               then Active else Rejected)"
      and "rr_reserved_fraction (new_reservation c release rid lane candidate (finite_fraction q)
             (finite_fraction cap) (finite_fraction mn) al s) = (if 0 < grant \<and> finite_fraction mn \<le> grant + 1 / 10 ^ 12
               then grant else 0)"
      using reserve_decision_grant [OF pos assms(8,9), of "finite_fraction mn"]
      by (simp_all add: new_reservation_def split_beta Let_def)
    then show ?thesis using missing(1)
      by (simp add: reserve_missing [OF missing(1) assms(4-7) refl])
  next
    case (present r)
    then show ?thesis
      using reserve_present [OF rows present(1) assms(4) _ assms(6,7)] assms(5) by force
  qed
qed

theorem reserve_grants_once_witness:
  "case reserve_paper_capital demo_context ''r1'' ''a'' ''lane'' ''cand'' (Number 2) (Number 1) True (Number 0) empty_capital_store
    of (Inl e, s') \<Rightarrow> False
     | (Inr reply, s') \<Rightarrow> rr_reserved_fraction (rp_row reply) = 1"
  using reserve_grants_once [where b = 1 and events = "[]" and s = empty_capital_store
      and c = demo_context and k = 1 and rid = "''a''" and candidate = "''cand''" and lane = "''lane''"
      and available = 1 and cap = "Number 1" and grant = 1 and al = True and q = "Number 2"
      and release = "''r1''" and mn = "Number 0"]
  by (simp add: demo_context_def empty_capital_store_def reserved_sum_def BUSY_RETRY_LIMIT_def split: sum.splits prod.splits)

text \<open>C25. In a reachable store, settling an active reservation with a settlement id its release
  has not used pays the reserved fraction times the net return; afterwards any settlement
  call for that reservation that reaches its transaction returns the same settlement row
  and changes neither the reservations nor the settlements.\<close>

theorem settlement_happens_once:
  assumes "0 \<le> b" and "list_all (capacity_within b) events"
    and "s = fst (run_machine capital_step empty_capital_store events)"
    and "r \<in> set (cs_reservations s)" and "rr_status r = Active"
    and "begin_immediate 0 (cc_attempts c) = Inr k"
    and "\<forall>t\<in>set (cs_settlements s). sr_release_commit t = rr_release_commit r \<longrightarrow> sr_settlement_id t \<noteq> sid"
    and "begin_immediate 0 (cc_attempts c2) = Inr k2"
  shows "case settle_paper_capital c release (rr_reservation_id r) sid (Number v) s of
      (Inl e, s1) \<Rightarrow> False
    | (Inr reply, s1) \<Rightarrow>
        \<not> se_idempotent_replay reply
      \<and> sr_realized_contribution (se_row reply) = rr_reserved_fraction r * v
      \<and> reserved_sum Active (cs_reservations s1) = reserved_sum Active (cs_reservations s) - rr_reserved_fraction r
      \<and> (case settle_paper_capital c2 release2 (rr_reservation_id r) sid2 (Number v2) s1 of
           (Inl e, s2) \<Rightarrow> False
         | (Inr reply2, s2) \<Rightarrow> se_idempotent_replay reply2 \<and> se_row reply2 = se_row reply
             \<and> cs_reservations s2 = cs_reservations s1 \<and> cs_settlements s2 = cs_settlements s1)"
proof -
  have ok: "capital_ok b s" using capital_run_ok [OF assms(1,2)] assms(3) by simp
  then have rows: "rows_ok (cs_reservations s)" and st: "settled_ok s" by (simp_all add: capital_ok_def)
  define s1 where "s1 = metric c release ''settle'' k (after_settlement c sid v r s)"
  have ok1: "rows_ok (cs_reservations s1)" "settled_ok s1"
    using capital_ok_settle [OF ok assms(4,5), of c sid v] by (simp_all add: s1_def capital_ok_def)
  have t: "settled_by c sid v r s \<in> set (cs_settlements s1)"
      "sr_reservation_id (settled_by c sid v r s) = rr_reservation_id r"
    by (simp_all add: s1_def after_settlement_def settled_by_def)
  have pos: "max 0 (rr_reserved_fraction r) = rr_reserved_fraction r"
    using rows assms(4) by (simp add: rows_ok_def)
  have "reserved_sum Active (cs_reservations s1) = reserved_sum Active (cs_reservations s) - rr_reserved_fraction r"
    using rewrite_row_released [OF rows assms(4,5)] by (simp add: s1_def after_settlement_def)
  then show ?thesis
    using settle_active [OF rows st assms(4-7), of release v]
      settle_replay [OF ok1 t(1) assms(8), of release2 sid2 v2] pos t(2)
    by (simp add: s1_def [symmetric]) (simp add: settled_by_def)
qed

definition demo_row :: reservation_row where
  "demo_row = new_reservation demo_context ''r1'' ''a'' ''lane'' ''cand'' (1 / 2) 1 0 True empty_capital_store"

definition demo_store :: capital_store where
  "demo_store = fst (run_machine capital_step empty_capital_store [demo_reserve ''r1'' ''a'' (1 / 2)])"

lemma demo_begin: "begin_immediate 0 (cc_attempts demo_context) = Inr 1"
  by (simp add: demo_context_def BUSY_RETRY_LIMIT_def)

lemma demo_store_simps [simp]:
  "cs_reservations demo_store = [demo_row]" "cs_settlements demo_store = []"
  using reserve_missing [of "''a''" empty_capital_store demo_context 1 "''cand''" "''lane''" demo_row
      "''r1''" "Number (1 / 2)" "Number 1" "Number 0" True, OF _ demo_begin]
  by (simp_all add: demo_store_def demo_reserve_def demo_row_def empty_capital_store_def)

lemma demo_row_fields [simp]:
  "rr_status demo_row = Active" "rr_reserved_fraction demo_row = 1 / 2" "rr_reservation_id demo_row = ''a''"
  by (simp_all add: demo_row_def new_reservation_def reserve_decision_def empty_capital_store_def reserved_sum_def)

theorem settlement_happens_once_witness:
  "case settle_paper_capital demo_context ''r2'' ''a'' ''s1'' (Number (1 / 5)) demo_store of
     (Inl e, s1) \<Rightarrow> False
   | (Inr reply, s1) \<Rightarrow> sr_realized_contribution (se_row reply) = 1 / 10"
proof -
  have "list_all (capacity_within 1) [demo_reserve ''r1'' ''a'' (1 / 2)]" by (simp add: demo_reserve_def)
  from settlement_happens_once [where r = demo_row and sid = "''s1''" and release = "''r2''" and v = "1 / 5"
      and ?release2.0 = "''r3''" and ?sid2.0 = "''s2''" and ?v2.0 = 1,
      OF zero_le_one this demo_store_def _ _ demo_begin _ demo_begin]
  show ?thesis by (auto simp: split_beta split: sum.splits)
qed

text \<open>In a reachable store a settlement that is not due is refused and changes nothing: an
  unknown reservation is a \<open>KeyError\<close>, a cancelled or rejected one a \<open>RuntimeError\<close> naming its
  status, a settlement id its release already used an \<open>IntegrityError\<close>, a return that is not
  finite an error before the transaction begins.\<close>

theorem settlement_refused:
  assumes "0 \<le> b" and "list_all (capacity_within b) events"
    and "s = fst (run_machine capital_step empty_capital_store events)"
    and "begin_immediate 0 (cc_attempts c) = Inr k"
  shows "(rid \<notin> rr_reservation_id ` set (cs_reservations s) \<longrightarrow>
        settle_paper_capital c release rid sid (Number v) s
          = (Inl (KeyError ''paper_capital_reservation_missing''), s))
    \<and> (\<forall>r\<in>set (cs_reservations s).
        (rr_status r \<in> {Cancelled, Rejected} \<longrightarrow>
          settle_paper_capital c release (rr_reservation_id r) sid (Number v) s
            = (Inl (RuntimeError (''paper_capital_reservation_not_active:'' @ status_text (rr_status r))), s))
      \<and> (rr_status r = Active \<and> (\<exists>t\<in>set (cs_settlements s).
            sr_release_commit t = rr_release_commit r \<and> sr_settlement_id t = sid) \<longrightarrow>
          settle_paper_capital c release (rr_reservation_id r) sid (Number v) s
            = (Inl (IntegrityError ''UNIQUE(release_commit,settlement_id)''), s)))
    \<and> settle_paper_capital c release rid sid NonFinite s = (Inl (ValueError ''finite_net_return_required''), s)"
proof -
  have "capital_ok b s" using capital_run_ok [OF assms(1,2)] assms(3) by simp
  then have ok: "rows_ok (cs_reservations s)" "settled_ok s" by (simp_all add: capital_ok_def)
  have "settle_paper_capital c release rid sid NonFinite s = (Inl (ValueError ''finite_net_return_required''), s)"
    by (simp add: settle_paper_capital_def)
  then show ?thesis
    using settle_missing [OF ok _ assms(4)] settle_withdrawn [OF ok _ _ assms(4)]
      settle_conflict [OF ok _ _ assms(4)] by blast
qed

theorem settlement_refused_witness:
  "settle_paper_capital demo_context ''r2'' ''a'' ''s1'' (Number (1 / 5)) empty_capital_store
     = (Inl (KeyError ''paper_capital_reservation_missing''), empty_capital_store)"
  using settlement_refused [where b = 1 and events = "[]" and s = empty_capital_store and c = demo_context
      and k = 1 and rid = "''a''" and sid = "''s1''" and release = "''r2''" and v = "1 / 5"]
  by (simp add: demo_context_def empty_capital_store_def BUSY_RETRY_LIMIT_def)

text \<open>The contributions that first settlements pay out over any run are exactly the realised
  contribution that reconciliation reports: the paper value multiplier is one plus their sum,
  and the number of settlements is the number of settled reservations.\<close>

theorem settled_returns_are_counted_once:
  assumes "0 \<le> b" and "list_all (capacity_within b) events"
    and "(s, paid) = run_machine capital_step empty_capital_store events"
  shows "cr_realized_return_contribution (capital_reconciliation s release cap) = sum_list paid
    \<and> cr_paper_nav_multiplier (capital_reconciliation s release cap) = 1 + sum_list paid
    \<and> cr_settlement_count (capital_reconciliation s release cap)
        = length (filter (\<lambda>r. rr_status r = Settled) (cs_reservations s))"
proof -
  have s: "s = fst (run_machine capital_step empty_capital_store events)"
    and p: "paid = snd (run_machine capital_step empty_capital_store events)"
    using assms(3) by (metis fst_conv, metis snd_conv)
  have ok: "rows_ok (cs_reservations s)" "settled_ok s"
    using capital_run_ok [OF assms(1,2)] s by (simp_all add: capital_ok_def)
  have paid: "sum_list paid = realized_total s"
    using capital_machine.run_potential [OF capital_ok_empty [OF assms(1)] assms(2)] s p
    by (simp add: realized_total_def empty_capital_store_def)
  have all: "filter (\<lambda>t. sr_portfolio_id t = CANONICAL_PORTFOLIO_ID) (cs_settlements s) = cs_settlements s"
    using ok(2) by (simp add: settled_ok_def filter_id_conv)
  let ?settled = "filter (\<lambda>r. rr_status r = Settled) (cs_reservations s)"
  have "set (map rr_reservation_id ?settled) = set (map sr_reservation_id (cs_settlements s))"
    using ok(2) unfolding settled_ok_def by (simp add: set_eq_iff image_iff) metis
  moreover have "distinct (map rr_reservation_id ?settled)"
    using ok(1) by (simp add: rows_ok_def distinct_map_filter)
  moreover have "distinct (map sr_reservation_id (cs_settlements s))"
    using ok(2) by (simp add: settled_ok_def)
  ultimately have "length (map sr_reservation_id (cs_settlements s)) = length (map rr_reservation_id ?settled)"
    by (metis distinct_card)
  then show ?thesis
    using paid by (simp add: capital_reconciliation_def Let_def all realized_total_def)
qed

theorem settled_returns_are_counted_once_witness:
  "cr_paper_nav_multiplier (capital_reconciliation
     (fst (run_machine capital_step empty_capital_store [demo_reserve ''r1'' ''a'' (1 / 2)])) ''r1'' (Number 1)) = 1"
  using settled_returns_are_counted_once [of 1 "[demo_reserve ''r1'' ''a'' (1 / 2)]"
      "fst (run_machine capital_step empty_capital_store [demo_reserve ''r1'' ''a'' (1 / 2)])"
      "snd (run_machine capital_step empty_capital_store [demo_reserve ''r1'' ''a'' (1 / 2)])" "''r1''" "Number 1"]
  by (simp add: demo_reserve_def)

end
