(* ===== verification/Lanes.thy ===== *)
theory Lanes
  imports Prelude
begin

text \<open>
  The five-lane contract of the v5.2 pipeline (\<open>v52_lane_contract.py\<close>) and the continuation
  observation boundary (\<open>v52_continuation_capture.py\<close>). The lane table is the ordered
  dictionary of the source; a lookup of a lane or a surface either finds its unique
  descriptor or raises. \<open>capture_continuation\<close> validates one observation and classifies it;
  numeric fields arrive as \<open>py_number\<close> because the code converts them with \<open>float\<close>.
\<close>

subsection \<open>The lane table\<close>

record lane_descriptor =
  de_lane :: string
  de_economic_surface :: string
  de_venue :: string
  de_lifecycle :: string
  de_strategy_lane :: string
  de_family :: string
  de_surface_aliases :: "string list"

definition lane_entry ::
  "string \<Rightarrow> string \<Rightarrow> string \<Rightarrow> string \<Rightarrow> string \<Rightarrow> string \<Rightarrow> string list \<Rightarrow> string \<times> lane_descriptor" where
  "lane_entry lane surface venue lifecycle strategy_lane family aliases =
     (lane, \<lparr>de_lane = lane, de_economic_surface = surface, de_venue = venue, de_lifecycle = lifecycle,
             de_strategy_lane = strategy_lane, de_family = family, de_surface_aliases = aliases\<rparr>)"

definition LANE_DESCRIPTORS :: "(string, lane_descriptor) dict" where
  "LANE_DESCRIPTORS =
     [lane_entry ''pump_fun'' ''SOLANA'' ''PUMP_FUN'' ''bonding_curve''
        ''elite_wallet_continuation'' ''PUMP_FUN'' [''PUMP_FUN''],
      lane_entry ''pump_amm'' ''SOLANA'' ''PUMP_AMM'' ''early_post_graduation''
        ''graduation_continuation'' ''PUMP_AMM'' [''PUMP_AMM'', ''PUMPSWAP''],
      lane_entry ''raydium'' ''SOLANA'' ''RAYDIUM'' ''post_migration''
        ''raydium_cross_venue_persistence'' ''RAYDIUM'' [''RAYDIUM''],
      lane_entry ''fomo'' ''FOMO'' ''PUMP_AMM'' ''early_post_graduation''
        ''fomo_continuation'' ''FOMO_CLEAN'' [''FOMO''],
      lane_entry ''robinhood'' ''ROBINHOOD_CHAIN'' ''UNISWAP_V3'' ''new_weth_pool''
        ''robinhood_entity_continuation'' ''ROBINHOOD_ENTITY'' [''ROBINHOOD_CHAIN'']]"

definition CANONICAL_LANES :: "string list" where
  "CANONICAL_LANES = map fst LANE_DESCRIPTORS"

definition lane_of_descriptor :: "string \<Rightarrow> lane_descriptor result" where
  "lane_of_descriptor lane =
     (case dict_get LANE_DESCRIPTORS lane of
        None \<Rightarrow> Inl (ValueError ''lane_unsupported'')
      | Some d \<Rightarrow> Inr d)"

fun surface_loop :: "string \<Rightarrow> (string \<times> lane_descriptor) list \<Rightarrow> string result" where
  "surface_loop v [] = Inl (ValueError ''surface_unsupported'')"
| "surface_loop v ((lane, item) # rest) =
     (if v \<in> set (de_surface_aliases item) then Inr lane else surface_loop v rest)"

definition canonical_lane_for_surface :: "string \<Rightarrow> string result" where
  "canonical_lane_for_surface surface = surface_loop (upper (strip surface)) LANE_DESCRIPTORS"

subsection \<open>Continuation capture\<close>

definition IMMEDIATE_COPY_MAX_SECONDS :: real where
  "IMMEDIATE_COPY_MAX_SECONDS = 20"

definition HIGH_CHASE_OBSERVE_ONLY_THRESHOLD :: real where
  "HIGH_CHASE_OBSERVE_ONLY_THRESHOLD = 2 / 5"

definition SUPPORTED_SURFACES :: "string list" where
  "SUPPORTED_SURFACES = [''PUMP_FUN'', ''PUMP_AMM'', ''PUMPSWAP'', ''RAYDIUM'', ''FOMO'', ''ROBINHOOD_CHAIN'']"

record continuation_observation =
  ob_source_signature :: string
  ob_asset_id :: string
  ob_surface :: string
  ob_lifecycle :: string
  ob_latency_seconds :: py_number
  ob_chase_fraction :: py_number
  ob_exact_entry_quote_available :: bool
  ob_exact_exit_quote_available :: bool
  ob_structurally_exitable :: bool
  ob_residual_return_fraction :: "py_number option"

record continuation_capture =
  cc_classification :: string
  cc_reasons :: "string list"
  cc_source_signature :: string
  cc_asset_id :: string
  cc_surface :: string
  cc_lifecycle :: string
  cc_latency_seconds :: real
  cc_latency_band :: string
  cc_chase_fraction :: real
  cc_chase_band :: string
  cc_exact_entry_quote_available :: bool
  cc_exact_exit_quote_available :: bool
  cc_structurally_exitable :: bool
  cc_executable_snapshot :: bool
  cc_residual_return_fraction :: "real option"
  cc_research_only :: bool
  cc_entry_authority :: bool
  cc_direct_promotion_authority :: bool
  cc_incumbent_authority_changed :: bool
  cc_paper_only :: bool
  cc_live_money_authority :: bool
  cc_signing_available :: bool
  cc_transaction_submission_available :: bool

fun finite_nonnegative :: "string \<Rightarrow> py_number \<Rightarrow> real result" where
  "finite_nonnegative field (Number x) =
     (if x < 0 then Inl (ValueError (field @ ''_invalid'')) else Inr x)"
| "finite_nonnegative field _ = Inl (ValueError (field @ ''_invalid''))"

fun finite_optional :: "string \<Rightarrow> py_number option \<Rightarrow> real option result" where
  "finite_optional field None = Inr None"
| "finite_optional field (Some (Number x)) = Inr (Some x)"
| "finite_optional field (Some _) = Inl (ValueError (field @ ''_invalid''))"

definition latency_band :: "py_number \<Rightarrow> string result" where
  "latency_band seconds = bind_result (finite_nonnegative ''latency_seconds'' seconds) (\<lambda>v. Inr
     (if v \<le> 5 then ''le_5s''
      else if v \<le> 10 then ''5_10s''
      else if v \<le> IMMEDIATE_COPY_MAX_SECONDS then ''10_20s''
      else if v \<le> 60 then ''20_60s_research_only''
      else if v \<le> 120 then ''1_2m_research_only''
      else if v \<le> 300 then ''2_5m_research_only''
      else ''gt_5m_research_only''))"

definition chase_band :: "py_number \<Rightarrow> string result" where
  "chase_band fraction = bind_result (finite_nonnegative ''chase_fraction'' fraction) (\<lambda>v. Inr
     (if v \<le> 15 / 100 then ''le_15pct''
      else if v \<le> 25 / 100 then ''15_25pct_challenger''
      else if v \<le> HIGH_CHASE_OBSERVE_ONLY_THRESHOLD then ''25_40pct_challenger''
      else ''gt_40pct_observe_only''))"

definition capture_reasons :: "continuation_observation \<Rightarrow> real \<Rightarrow> real \<Rightarrow> string list" where
  "capture_reasons ob latency chase =
     (if latency > IMMEDIATE_COPY_MAX_SECONDS then [''post_20s_immediate_copy_window_research_only''] else [])
   @ (if chase > HIGH_CHASE_OBSERVE_ONLY_THRESHOLD then [''gt_40pct_chase_observe_only''] else [])
   @ (if \<not> ob_exact_entry_quote_available ob then [''exact_entry_quote_missing''] else [])
   @ (if \<not> ob_exact_exit_quote_available ob then [''exact_exit_quote_missing''] else [])
   @ (if \<not> ob_structurally_exitable ob then [''structurally_unexitable''] else [])"

definition capture_classification :: "continuation_observation \<Rightarrow> real \<Rightarrow> real \<Rightarrow> string" where
  "capture_classification ob latency chase =
     (if \<not> ob_structurally_exitable ob then ''structurally_unexitable_research_only''
      else if \<not> ob_exact_entry_quote_available ob \<or> \<not> ob_exact_exit_quote_available ob
        then ''non_executable_quote_research_only''
      else if latency > IMMEDIATE_COPY_MAX_SECONDS \<or> chase > HIGH_CHASE_OBSERVE_ONLY_THRESHOLD
        then ''challenger_observe_only''
      else ''continuation_candidate_observed'')"

definition capture_continuation :: "continuation_observation \<Rightarrow> continuation_capture result" where
  "capture_continuation ob =
     (let signature = strip (ob_source_signature ob);
          asset_id = strip (ob_asset_id ob);
          surface = upper (strip (ob_surface ob));
          lifecycle = strip (ob_lifecycle ob)
      in if signature = [] then Inl (ValueError ''source_signature_missing'')
         else if asset_id = [] then Inl (ValueError ''asset_id_missing'')
         else if surface \<notin> set SUPPORTED_SURFACES then Inl (ValueError ''surface_unsupported'')
         else if lifecycle = [] then Inl (ValueError ''lifecycle_missing'')
         else bind_result (finite_nonnegative ''latency_seconds'' (ob_latency_seconds ob)) (\<lambda>latency.
              bind_result (finite_nonnegative ''chase_fraction'' (ob_chase_fraction ob)) (\<lambda>chase.
              bind_result (finite_optional ''residual_return_fraction'' (ob_residual_return_fraction ob)) (\<lambda>residual.
              bind_result (latency_band (Number latency)) (\<lambda>lband.
              bind_result (chase_band (Number chase)) (\<lambda>cband.
              Inr \<lparr>cc_classification = capture_classification ob latency chase,
                cc_reasons = capture_reasons ob latency chase,
                cc_source_signature = signature, cc_asset_id = asset_id, cc_surface = surface,
                cc_lifecycle = lifecycle, cc_latency_seconds = latency, cc_latency_band = lband,
                cc_chase_fraction = chase, cc_chase_band = cband,
                cc_exact_entry_quote_available = ob_exact_entry_quote_available ob,
                cc_exact_exit_quote_available = ob_exact_exit_quote_available ob,
                cc_structurally_exitable = ob_structurally_exitable ob,
                cc_executable_snapshot = (ob_exact_entry_quote_available ob
                  \<and> ob_exact_exit_quote_available ob \<and> ob_structurally_exitable ob),
                cc_residual_return_fraction = residual, cc_research_only = True,
                cc_entry_authority = False, cc_direct_promotion_authority = False,
                cc_incumbent_authority_changed = False, cc_paper_only = True,
                cc_live_money_authority = False, cc_signing_available = False,
                cc_transaction_submission_available = False\<rparr>))))))"

subsection \<open>Properties\<close>

text \<open>The surface table inverts the lane descriptors: a surface name, read without case and
  surrounding white space, resolves to a lane exactly when it is one of that lane's
  aliases, every alias of every descriptor resolves to its own lane, and any other name is
  refused.\<close>

theorem surface_lookup_inverts_descriptors:
  "canonical_lane_for_surface s = Inr lane \<longleftrightarrow>
     (\<exists>d. lane_of_descriptor lane = Inr d \<and> upper (strip s) \<in> set (de_surface_aliases d))"
  by (auto simp: canonical_lane_for_surface_def lane_of_descriptor_def LANE_DESCRIPTORS_def lane_entry_def
      split: if_splits)

text \<open>A captured observation is a continuation candidate exactly when no reason is listed
  against it: it can be entered and left at exact quotes, is structurally exitable, and lies
  within the copy window and chase limit, which is also what its bands say. No capture, of
  any class, carries entry authority.\<close>

theorem candidate_iff_no_reason:
  assumes "capture_continuation ob = Inr c"
  shows "(cc_classification c = ''continuation_candidate_observed'' \<longleftrightarrow> cc_reasons c = [])
    \<and> (cc_reasons c = [] \<longleftrightarrow> cc_executable_snapshot c
         \<and> cc_latency_band c \<in> {''le_5s'', ''5_10s'', ''10_20s''}
         \<and> cc_chase_band c \<noteq> ''gt_40pct_observe_only'')
    \<and> 0 \<le> cc_latency_seconds c \<and> 0 \<le> cc_chase_fraction c
    \<and> cc_surface c \<in> set SUPPORTED_SURFACES \<and> \<not> cc_entry_authority c"
proof -
  obtain latency chase lband cband where
    n: "finite_nonnegative ''latency_seconds'' (ob_latency_seconds ob) = Inr latency"
       "finite_nonnegative ''chase_fraction'' (ob_chase_fraction ob) = Inr chase"
    and b: "latency_band (Number latency) = Inr lband" "chase_band (Number chase) = Inr cband"
    and c: "cc_classification c = capture_classification ob latency chase"
      "cc_reasons c = capture_reasons ob latency chase" "cc_latency_band c = lband" "cc_chase_band c = cband"
      "cc_latency_seconds c = latency" "cc_chase_fraction c = chase"
      "cc_executable_snapshot c \<longleftrightarrow> ob_exact_entry_quote_available ob
         \<and> ob_exact_exit_quote_available ob \<and> ob_structurally_exitable ob"
      "cc_surface c \<in> set SUPPORTED_SURFACES" "\<not> cc_entry_authority c"
    using assms by (auto simp: capture_continuation_def Let_def bind_result_Inr_iff split: if_splits)
  have pos: "0 \<le> latency" "0 \<le> chase"
    using n by (cases "ob_latency_seconds ob"; cases "ob_chase_fraction ob"; simp split: if_splits)+
  have "capture_classification ob latency chase = ''continuation_candidate_observed''
      \<longleftrightarrow> capture_reasons ob latency chase = []"
    by (auto simp: capture_classification_def capture_reasons_def)
  moreover have "lband \<in> {''le_5s'', ''5_10s'', ''10_20s''} \<longleftrightarrow> latency \<le> IMMEDIATE_COPY_MAX_SECONDS"
    using b(1) pos by (auto simp: latency_band_def IMMEDIATE_COPY_MAX_SECONDS_def split: if_splits)
  moreover have "cband \<noteq> ''gt_40pct_observe_only'' \<longleftrightarrow> chase \<le> HIGH_CHASE_OBSERVE_ONLY_THRESHOLD"
    using b(2) pos by (auto simp: chase_band_def HIGH_CHASE_OBSERVE_ONLY_THRESHOLD_def split: if_splits)
  moreover have "capture_reasons ob latency chase = [] \<longleftrightarrow> cc_executable_snapshot c
      \<and> latency \<le> IMMEDIATE_COPY_MAX_SECONDS \<and> chase \<le> HIGH_CHASE_OBSERVE_ONLY_THRESHOLD"
    by (auto simp: capture_reasons_def c(7))
  ultimately show ?thesis using pos c by simp
qed

definition demo_observation :: continuation_observation where
  "demo_observation = \<lparr>ob_source_signature = ''sig'', ob_asset_id = ''asset'', ob_surface = ''fomo '',
     ob_lifecycle = ''new'', ob_latency_seconds = Number 3, ob_chase_fraction = Number (1 / 10),
     ob_exact_entry_quote_available = True, ob_exact_exit_quote_available = True,
     ob_structurally_exitable = True, ob_residual_return_fraction = None\<rparr>"

lemma demo_text:
  "upper (strip ''fomo '') = ''FOMO''" "strip ''sig'' = ''sig''" "strip ''asset'' = ''asset''" "strip ''new'' = ''new''"
  by code_simp+

theorem candidate_iff_no_reason_witness:
  "\<exists>c. capture_continuation demo_observation = Inr c \<and> cc_surface c = ''FOMO'' \<and> \<not> cc_entry_authority c"
proof -
  obtain c where c: "capture_continuation demo_observation = Inr c" and "cc_surface c = ''FOMO''"
    by (simp add: capture_continuation_def demo_observation_def demo_text Let_def
        SUPPORTED_SURFACES_def latency_band_def chase_band_def)
  with candidate_iff_no_reason [OF c] show ?thesis by blast
qed

end
