(* ===== verification/Accounting.thy ===== *)
theory Accounting
  imports Lanes "HOL-Library.List_Lexorder" "HOL-Library.Char_ord"
begin

text \<open>
  Lossless candidate accounting (\<open>v52_lossless_candidate_accounting.py\<close>): the observed
  candidates and the accounting records are screened into dictionaries, every rejected
  element leaving at least one error text, and then reconciled lane by lane. The
  per-lane dictionaries of the source always hold the five canonical lanes; they are
  functions here, updated at one lane.
\<close>

datatype terminal_disposition = EXITED | PERMANENTLY_REJECTED | EXPIRED | INVALIDATED

fun disposition_text :: "terminal_disposition \<Rightarrow> string" where
  "disposition_text EXITED = ''exited''"
| "disposition_text PERMANENTLY_REJECTED = ''permanently_rejected''"
| "disposition_text EXPIRED = ''expired''"
| "disposition_text INVALIDATED = ''invalidated''"

definition known_disposition :: "string \<Rightarrow> bool" where
  "known_disposition raw \<longleftrightarrow>
     raw \<in> set (map disposition_text [EXITED, PERMANENTLY_REJECTED, EXPIRED, INVALIDATED])"

record observed_candidate =
  oc_candidate_id :: string
  oc_lane :: string

record accounting_record =
  ar_candidate_id :: string
  ar_lane :: string
  ar_active :: bool
  ar_terminal_disposition :: "string option"

record lane_accounting =
  la_lane :: string
  la_observed_candidate_count :: nat
  la_active_candidate_count :: nat
  la_terminal_candidate_count :: nat
  la_accounted_candidate_count :: nat
  la_unexplained_disappearance_count :: nat
  la_unexplained_candidate_ids :: "string list"
  la_unexpected_candidate_count :: nat
  la_unexpected_candidate_ids :: "string list"

record lossless_accounting =
  lo_lanes :: "(string, lane_accounting) dict"
  lo_observed_candidate_count :: nat
  lo_active_candidate_count :: nat
  lo_terminal_candidate_count :: nat
  lo_accounted_candidate_count :: nat
  lo_unexplained_disappearance_count :: nat
  lo_unexplained_candidate_ids :: "string list"
  lo_unexpected_candidate_count :: nat
  lo_unexpected_candidate_ids :: "string list"
  lo_validation_errors :: "string list"
  lo_accounting_valid :: bool
  lo_certification_ready :: bool

subsection \<open>Screening\<close>

text \<open>\<open>_text\<close> and \<open>_lane\<close> append to the shared error list.\<close>

definition text_field :: "string option \<Rightarrow> string \<Rightarrow> string \<Rightarrow> string list \<Rightarrow> string option \<times> string list" where
  "text_field v field context errors =
     (let text = strip (or_default v [])
      in if text = [] then (None, errors @ [context @ '':'' @ field @ ''_missing''])
         else (Some text, errors))"

definition lane_field :: "string \<Rightarrow> string \<Rightarrow> string list \<Rightarrow> string option \<times> string list" where
  "lane_field v context errors =
     (case text_field (Some v) ''lane'' context errors of
        (None, errors) \<Rightarrow> (None, errors)
      | (Some lane, errors) \<Rightarrow>
          if lane \<notin> set CANONICAL_LANES then (None, errors @ [context @ '':unknown_lane:'' @ lane])
          else (Some lane, errors))"

definition screen_observed ::
  "nat \<Rightarrow> observed_candidate \<Rightarrow> (string, string) dict \<times> string list \<Rightarrow> (string, string) dict \<times> string list" where
  "screen_observed index candidate = (\<lambda>(observed, errors).
     (let context = ''observed['' @ nat_text index @ '']'';
          (candidate_id, errors) = text_field (Some (oc_candidate_id candidate)) ''candidate_id'' context errors;
          (lane, errors) = lane_field (oc_lane candidate) context errors
      in case (candidate_id, lane) of
           (Some i, Some l) \<Rightarrow>
             (case dict_get observed i of
                Some l0 \<Rightarrow>
                  if l0 \<noteq> l then (observed, errors @ [context @ '':candidate_lane_conflict:'' @ i @ '':'' @ l0 @ ''!='' @ l])
                  else (observed, errors @ [context @ '':duplicate_candidate_id:'' @ i])
              | None \<Rightarrow> (dict_set i l observed, errors))
         | _ \<Rightarrow> (observed, errors)))"

definition normalize_observed :: "observed_candidate list \<Rightarrow> string list \<Rightarrow> (string, string) dict \<times> string list" where
  "normalize_observed candidates errors = enumerate_fold screen_observed 0 candidates ([], errors)"

definition enter_record ::
  "string \<Rightarrow> accounting_record \<Rightarrow> (string, accounting_record) dict \<times> string list
     \<Rightarrow> (string, accounting_record) dict \<times> string list" where
  "enter_record context current = (\<lambda>(normalized, errors).
     (case dict_get normalized (ar_candidate_id current) of
        Some previous \<Rightarrow>
          if previous \<noteq> current
          then (normalized, errors @ [context @ '':conflicting_accounting_record:'' @ ar_candidate_id current])
          else (normalized, errors @ [context @ '':duplicate_accounting_record:'' @ ar_candidate_id current])
      | None \<Rightarrow> (dict_set (ar_candidate_id current) current normalized, errors)))"

definition screen_record ::
  "nat \<Rightarrow> accounting_record \<Rightarrow> (string, accounting_record) dict \<times> string list
     \<Rightarrow> (string, accounting_record) dict \<times> string list" where
  "screen_record index r = (\<lambda>(normalized, errors).
     (let context = ''record['' @ nat_text index @ '']'';
          (candidate_id, errors) = text_field (Some (ar_candidate_id r)) ''candidate_id'' context errors;
          (lane, errors) = lane_field (ar_lane r) context errors
      in case (candidate_id, lane) of
           (Some i, Some l) \<Rightarrow>
             if ar_active r then
               (if ar_terminal_disposition r \<notin> {None, Some []}
                then (normalized, errors @ [context @ '':active_record_has_terminal_disposition:'' @ i])
                else enter_record context \<lparr>ar_candidate_id = i, ar_lane = l, ar_active = True,
                       ar_terminal_disposition = None\<rparr> (normalized, errors))
             else
               (case text_field (ar_terminal_disposition r) ''terminal_disposition'' context errors of
                  (None, errors) \<Rightarrow> (normalized, errors)
                | (Some raw, errors) \<Rightarrow>
                    if \<not> known_disposition raw
                    then (normalized, errors @ [context @ '':unknown_terminal_disposition:'' @ raw])
                    else enter_record context \<lparr>ar_candidate_id = i, ar_lane = l, ar_active = False,
                           ar_terminal_disposition = Some raw\<rparr> (normalized, errors))
         | _ \<Rightarrow> (normalized, errors)))"

definition normalize_records ::
  "accounting_record list \<Rightarrow> string list \<Rightarrow> (string, accounting_record) dict \<times> string list" where
  "normalize_records records errors = enumerate_fold screen_record 0 records ([], errors)"

subsection \<open>Reconciliation\<close>

record reconcile_state =
  rs_unexplained :: "string list"
  rs_active_count :: nat
  rs_terminal_count :: nat
  rs_lane_unexplained :: "string \<Rightarrow> string list"
  rs_lane_active :: "string \<Rightarrow> nat"
  rs_lane_terminal :: "string \<Rightarrow> nat"
  rs_errors :: "string list"

definition lose :: "string \<Rightarrow> string \<Rightarrow> reconcile_state \<Rightarrow> reconcile_state" where
  "lose candidate_id lane st = st\<lparr>rs_unexplained := rs_unexplained st @ [candidate_id],
     rs_lane_unexplained := (rs_lane_unexplained st)(lane := rs_lane_unexplained st lane @ [candidate_id])\<rparr>"

fun reconcile_observed ::
  "(string, accounting_record) dict \<Rightarrow> (string, string) dict \<Rightarrow> reconcile_state \<Rightarrow> reconcile_state" where
  "reconcile_observed records [] st = st"
| "reconcile_observed records ((candidate_id, lane) # rest) st = reconcile_observed records rest
     (case dict_get records candidate_id of
        None \<Rightarrow> lose candidate_id lane st
      | Some r \<Rightarrow>
          if ar_lane r \<noteq> lane then
            lose candidate_id lane (st\<lparr>rs_errors := rs_errors st
              @ [''candidate_lane_conflict:'' @ candidate_id @ '':'' @ lane @ ''!='' @ ar_lane r]\<rparr>)
          else if ar_active r then
            st\<lparr>rs_active_count := rs_active_count st + 1,
               rs_lane_active := (rs_lane_active st)(lane := rs_lane_active st lane + 1)\<rparr>
          else
            st\<lparr>rs_terminal_count := rs_terminal_count st + 1,
               rs_lane_terminal := (rs_lane_terminal st)(lane := rs_lane_terminal st lane + 1)\<rparr>)"

definition initial_state :: "string list \<Rightarrow> reconcile_state" where
  "initial_state errors = \<lparr>rs_unexplained = [], rs_active_count = 0, rs_terminal_count = 0,
     rs_lane_unexplained = (\<lambda>_. []), rs_lane_active = (\<lambda>_. 0), rs_lane_terminal = (\<lambda>_. 0),
     rs_errors = errors\<rparr>"

definition unexpected_records ::
  "(string, string) dict \<Rightarrow> (string, accounting_record) dict \<Rightarrow> (string \<times> accounting_record) list" where
  "unexpected_records observed records = filter (\<lambda>(i, r). dict_get observed i = None) records"

definition lane_summary ::
  "(string, string) dict \<Rightarrow> (string \<times> accounting_record) list \<Rightarrow> reconcile_state \<Rightarrow> string \<Rightarrow> lane_accounting" where
  "lane_summary observed unexpected st lane =
     (let active = rs_lane_active st lane;
          terminal = rs_lane_terminal st lane;
          unexplained_ids = sort (rs_lane_unexplained st lane);
          unexpected_ids = sort (map fst (filter (\<lambda>(i, r). ar_lane r = lane) unexpected))
      in \<lparr>la_lane = lane,
          la_observed_candidate_count = length (filter (\<lambda>v. v = lane) (dict_values observed)),
          la_active_candidate_count = active, la_terminal_candidate_count = terminal,
          la_accounted_candidate_count = active + terminal,
          la_unexplained_disappearance_count = length unexplained_ids,
          la_unexplained_candidate_ids = unexplained_ids,
          la_unexpected_candidate_count = length unexpected_ids,
          la_unexpected_candidate_ids = unexpected_ids\<rparr>)"

definition reconcile_candidates ::
  "observed_candidate list \<Rightarrow> accounting_record list \<Rightarrow> lossless_accounting" where
  "reconcile_candidates observed_candidates accounting_records =
     (let (observed, errors) = normalize_observed observed_candidates [];
          (records, errors) = normalize_records accounting_records errors;
          st = reconcile_observed records observed (initial_state errors);
          unexpected = unexpected_records observed records;
          lanes = map (\<lambda>lane. (lane, lane_summary observed unexpected st lane)) CANONICAL_LANES;
          unexplained_ids = sort (rs_unexplained st);
          unexpected_ids = sort (map fst unexpected);
          unexplained_count = length unexplained_ids;
          errors = rs_errors st
            @ (if sum_list (map la_unexplained_disappearance_count (dict_values lanes)) \<noteq> unexplained_count
               then [''aggregate_unexplained_count_mismatch''] else [])
            @ (if sum_list (map la_observed_candidate_count (dict_values lanes)) \<noteq> length observed
               then [''aggregate_observed_count_mismatch''] else [])
            @ (if rs_active_count st + rs_terminal_count st + unexplained_count \<noteq> length observed
               then [''candidate_conservation_mismatch''] else []);
          accounting_valid = (errors = [] \<and> unexpected_ids = [])
      in \<lparr>lo_lanes = lanes, lo_observed_candidate_count = length observed,
          lo_active_candidate_count = rs_active_count st,
          lo_terminal_candidate_count = rs_terminal_count st,
          lo_accounted_candidate_count = rs_active_count st + rs_terminal_count st,
          lo_unexplained_disappearance_count = unexplained_count,
          lo_unexplained_candidate_ids = unexplained_ids,
          lo_unexpected_candidate_count = length unexpected_ids,
          lo_unexpected_candidate_ids = unexpected_ids, lo_validation_errors = errors,
          lo_accounting_valid = accounting_valid,
          lo_certification_ready = (accounting_valid \<and> unexplained_count = 0)\<rparr>)"

text \<open>The hard gate that \<open>attach_lossless_accounting\<close> adds to a lane matrix; \<open>matrix_lanes\<close> are the
  keys of the matrix's \<open>lanes\<close> mapping.\<close>

record accounting_gate =
  ag_hard_readiness_gate_passed :: bool
  ag_readiness_blockers :: "string list"
  ag_unexplained_disappearance_count :: nat
  ag_candidate_accounting :: lossless_accounting

definition attach_lossless_accounting :: "string list \<Rightarrow> lossless_accounting \<Rightarrow> accounting_gate" where
  "attach_lossless_accounting matrix_lanes accounting =
     (let matrix_valid = (set matrix_lanes = set CANONICAL_LANES)
      in \<lparr>ag_hard_readiness_gate_passed = (matrix_valid \<and> lo_certification_ready accounting
            \<and> lo_unexplained_disappearance_count accounting = 0),
          ag_readiness_blockers =
              (if \<not> matrix_valid then [''five_lane_matrix_incomplete''] else [])
            @ (if lo_validation_errors accounting \<noteq> [] then [''candidate_accounting_invalid''] else [])
            @ (if lo_unexpected_candidate_count accounting \<noteq> 0 then [''unexpected_candidate_records''] else [])
            @ (if lo_unexplained_disappearance_count accounting \<noteq> 0
               then [''unexplained_candidate_disappearance''] else []),
          ag_unexplained_disappearance_count = lo_unexplained_disappearance_count accounting,
          ag_candidate_accounting = accounting\<rparr>)"

subsection \<open>The screening loops meet the contract\<close>

definition observed_wf :: "observed_candidate \<Rightarrow> bool" where
  "observed_wf c \<longleftrightarrow> strip (oc_candidate_id c) \<noteq> [] \<and> strip (oc_lane c) \<in> set CANONICAL_LANES"

definition record_wf :: "accounting_record \<Rightarrow> bool" where
  "record_wf r \<longleftrightarrow> strip (ar_candidate_id r) \<noteq> [] \<and> strip (ar_lane r) \<in> set CANONICAL_LANES
     \<and> (if ar_active r then ar_terminal_disposition r \<in> {None, Some []}
        else known_disposition (strip (or_default (ar_terminal_disposition r) [])))"

definition normal_record :: "accounting_record \<Rightarrow> accounting_record" where
  "normal_record r = \<lparr>ar_candidate_id = strip (ar_candidate_id r), ar_lane = strip (ar_lane r),
     ar_active = ar_active r, ar_terminal_disposition =
       (if ar_active r then None else Some (strip (or_default (ar_terminal_disposition r) [])))\<rparr>"

lemma lanes_nonempty: "l \<in> set CANONICAL_LANES \<Longrightarrow> l \<noteq> []"
  by (auto simp: CANONICAL_LANES_def LANE_DESCRIPTORS_def lane_entry_def)

lemma dispositions_nonempty: "known_disposition d \<Longrightarrow> d \<noteq> []"
  by (auto simp: known_disposition_def)

lemma lane_field_ok: "strip v \<in> set CANONICAL_LANES \<Longrightarrow> lane_field v context es = (Some (strip v), es)"
  using lanes_nonempty by (auto simp: lane_field_def text_field_def Let_def)

lemma lane_field_bad: "strip v \<notin> set CANONICAL_LANES \<Longrightarrow> \<exists>e. e \<noteq> [] \<and> lane_field v context es = (None, es @ e)"
  by (auto simp: lane_field_def text_field_def Let_def)

lemma text_field_cases:
  "text_field (Some v) field context es =
     (if strip v = [] then (None, es @ [context @ '':'' @ field @ ''_missing'']) else (Some (strip v), es))"
  by (simp add: text_field_def Let_def)

interpretation observed_screen: screening screen_observed observed_wf
    "\<lambda>c. strip (oc_candidate_id c)" "\<lambda>c. strip (oc_lane c)"
proof
  fix c :: observed_candidate and d :: "(string, string) dict" and i :: nat and es :: "string list"
  show "screen_observed i c (d, es) = (d @ [(strip (oc_candidate_id c), strip (oc_lane c))], es)"
    if "observed_wf c" "dict_get d (strip (oc_candidate_id c)) = None"
    using that by (simp add: observed_wf_def screen_observed_def text_field_cases lane_field_ok Let_def dict_set_fresh)
  show "\<exists>e. e \<noteq> [] \<and> screen_observed i c (d, es) = (d, es @ e)"
    if bad: "\<not> (observed_wf c \<and> dict_get d (strip (oc_candidate_id c)) = None)"
  proof (cases "strip (oc_lane c) \<in> set CANONICAL_LANES")
    case True
    with bad show ?thesis
      by (auto simp: observed_wf_def screen_observed_def text_field_cases lane_field_ok Let_def)
  next
    case False
    let ?ctx = "''observed['' @ nat_text i @ '']''"
    obtain e where "e \<noteq> []"
      "lane_field (oc_lane c) ?ctx (snd (text_field (Some (oc_candidate_id c)) ''candidate_id'' ?ctx es))
        = (None, snd (text_field (Some (oc_candidate_id c)) ''candidate_id'' ?ctx es) @ e)"
      using lane_field_bad [OF False] by blast
    then show ?thesis
      by (auto simp: screen_observed_def text_field_cases Let_def split_beta)
  qed
qed

lemma enter_record_cases:
  "enter_record context r (d, es) =
     (if dict_get d (ar_candidate_id r) = None then (d @ [(ar_candidate_id r, r)], es)
      else (d, es @ [context @ (if the (dict_get d (ar_candidate_id r)) \<noteq> r
        then '':conflicting_accounting_record:'' else '':duplicate_accounting_record:'') @ ar_candidate_id r]))"
  by (auto simp: enter_record_def dict_set_fresh split: option.splits)

lemma screen_record_bad_field:
  assumes "strip (ar_candidate_id r) = [] \<or> strip (ar_lane r) \<notin> set CANONICAL_LANES"
  shows "\<exists>e. e \<noteq> [] \<and> screen_record i r (d, es) = (d, es @ e)"
proof (cases "strip (ar_lane r) \<in> set CANONICAL_LANES")
  case True
  with assms show ?thesis by (simp add: screen_record_def text_field_cases lane_field_ok Let_def)
next
  case False
  let ?ctx = "''record['' @ nat_text i @ '']''"
  obtain e where "e \<noteq> []"
    "lane_field (ar_lane r) ?ctx (snd (text_field (Some (ar_candidate_id r)) ''candidate_id'' ?ctx es))
      = (None, snd (text_field (Some (ar_candidate_id r)) ''candidate_id'' ?ctx es) @ e)"
    using lane_field_bad [OF False] by blast
  then show ?thesis by (auto simp: screen_record_def text_field_cases Let_def split_beta)
qed

lemma text_field_default:
  "text_field v field context es = text_field (Some (or_default v [])) field context es"
  by (cases v) (simp_all add: text_field_def)

interpretation record_screen: screening screen_record record_wf
    "\<lambda>r. strip (ar_candidate_id r)" normal_record
proof
  fix r :: accounting_record and d :: "(string, accounting_record) dict" and i :: nat and es :: "string list"
  show "screen_record i r (d, es) = (d @ [(strip (ar_candidate_id r), normal_record r)], es)"
    if "record_wf r" "dict_get d (strip (ar_candidate_id r)) = None"
    using that dispositions_nonempty
    by (auto simp: record_wf_def screen_record_def text_field_cases lane_field_ok Let_def enter_record_cases
        normal_record_def text_field_default [of "ar_terminal_disposition r"] split: if_splits)
  show "\<exists>e. e \<noteq> [] \<and> screen_record i r (d, es) = (d, es @ e)"
    if bad: "\<not> (record_wf r \<and> dict_get d (strip (ar_candidate_id r)) = None)"
  proof (cases "strip (ar_candidate_id r) = [] \<or> strip (ar_lane r) \<notin> set CANONICAL_LANES")
    case True
    then show ?thesis by (rule screen_record_bad_field)
  next
    case False
    then have ok: "strip (ar_candidate_id r) \<noteq> []" "strip (ar_lane r) \<in> set CANONICAL_LANES" by simp_all
    show ?thesis
    proof (cases "ar_active r")
      case True
      with bad ok show ?thesis
        by (auto simp: record_wf_def screen_record_def text_field_cases lane_field_ok Let_def enter_record_cases)
    next
      case False
      with bad ok show ?thesis
        by (auto simp: record_wf_def screen_record_def text_field_cases lane_field_ok Let_def enter_record_cases
            text_field_default [of "ar_terminal_disposition r"])
    qed
  qed
qed

subsection \<open>What the reconciliation loop counts\<close>

definition matched :: "(string, accounting_record) dict \<Rightarrow> string \<times> string \<Rightarrow> bool" where
  "matched records x \<longleftrightarrow> (\<exists>r. dict_get records (fst x) = Some r \<and> ar_lane r = snd x)"

definition matched_active :: "(string, accounting_record) dict \<Rightarrow> string \<times> string \<Rightarrow> bool" where
  "matched_active records x \<longleftrightarrow> (\<exists>r. dict_get records (fst x) = Some r \<and> ar_lane r = snd x \<and> ar_active r)"

definition matched_terminal :: "(string, accounting_record) dict \<Rightarrow> string \<times> string \<Rightarrow> bool" where
  "matched_terminal records x \<longleftrightarrow> (\<exists>r. dict_get records (fst x) = Some r \<and> ar_lane r = snd x \<and> \<not> ar_active r)"

lemmas matched_defs = matched_def matched_active_def matched_terminal_def

lemma reconcile_counts:
  "rs_unexplained (reconcile_observed records obs st)
     = rs_unexplained st @ map fst (filter (\<lambda>x. \<not> matched records x) obs)"
  "rs_active_count (reconcile_observed records obs st)
     = rs_active_count st + length (filter (matched_active records) obs)"
  "rs_terminal_count (reconcile_observed records obs st)
     = rs_terminal_count st + length (filter (matched_terminal records) obs)"
  by (induction records obs st rule: reconcile_observed.induct)
    (auto simp: lose_def matched_defs split: option.splits)

lemma reconcile_lane_counts:
  "rs_lane_unexplained (reconcile_observed records obs st) l
     = rs_lane_unexplained st l @ map fst (filter (\<lambda>x. \<not> matched records x \<and> snd x = l) obs)"
  "rs_lane_active (reconcile_observed records obs st) l
     = rs_lane_active st l + length (filter (\<lambda>x. matched_active records x \<and> snd x = l) obs)"
  "rs_lane_terminal (reconcile_observed records obs st) l
     = rs_lane_terminal st l + length (filter (\<lambda>x. matched_terminal records x \<and> snd x = l) obs)"
  by (induction records obs st rule: reconcile_observed.induct)
    (auto simp: lose_def matched_defs split: option.splits)

lemma reconcile_errors:
  "length (rs_errors (reconcile_observed records obs st)) = length (rs_errors st)
     + length (filter (\<lambda>(i, l). \<exists>r. dict_get records i = Some r \<and> ar_lane r \<noteq> l) obs)"
  by (induction records obs st rule: reconcile_observed.induct) (auto simp: lose_def split: option.splits)

lemma matched_partition:
  "length (filter (\<lambda>x. matched_active records x \<and> P x) obs) + length (filter (\<lambda>x. matched_terminal records x \<and> P x) obs)
     + length (filter (\<lambda>x. \<not> matched records x \<and> P x) obs) = length (filter P obs)"
  by (induction obs) (auto simp: matched_defs)

text \<open>Counting by lane, over lanes that are all canonical.\<close>

lemma sum_over_lanes:
  assumes "distinct ls" and "\<forall>x\<in>set xs. f x \<in> set ls"
  shows "(\<Sum>l\<leftarrow>ls. length (filter (\<lambda>x. P x \<and> f x = l) xs)) = length (filter P xs)"
  using assms(2)
proof (induction xs)
  case (Cons x xs)
  have "(\<Sum>l\<leftarrow>ls. length (filter (\<lambda>y. P y \<and> f y = l) (x # xs)))
      = (\<Sum>l\<leftarrow>ls. (if P x \<and> f x = l then 1 else 0) + length (filter (\<lambda>y. P y \<and> f y = l) xs))"
    by (rule arg_cong [where f = sum_list], rule map_cong) auto
  also have "\<dots> = (\<Sum>l\<leftarrow>ls. if P x \<and> f x = l then 1 else 0) + (\<Sum>l\<leftarrow>ls. length (filter (\<lambda>y. P y \<and> f y = l) xs))"
    by (rule sum_list_addf)
  also have "(\<Sum>l\<leftarrow>ls. if P x \<and> f x = l then (1::nat) else 0) = (if P x then 1 else 0)"
  proof (cases "P x")
    case True
    have "f x \<in> set ls" using Cons.prems by simp
    with assms(1) have "(\<Sum>l\<leftarrow>ls. if f x = l then (1::nat) else 0) = 1"
    proof (induction ls)
      case (Cons a ls)
      then show ?case by (cases "f x = a") (auto intro!: sum_list_0 simp: sum_list_eq_0_iff)
    qed simp
    with True show ?thesis by simp
  qed simp
  finally show ?case using Cons by simp
qed simp

lemma lanes_distinct: "distinct CANONICAL_LANES"
  by (simp add: CANONICAL_LANES_def LANE_DESCRIPTORS_def lane_entry_def)

lemma observed_entered:
  "observed_screen.entered (fst (normalize_observed cs es))"
  unfolding normalize_observed_def by (rule observed_screen.all_entered) (simp add: observed_screen.entered_def)

lemma records_entered:
  "record_screen.entered (fst (normalize_records rs es))"
  unfolding normalize_records_def by (rule record_screen.all_entered) (simp add: record_screen.entered_def)

lemma observed_lanes:
  "observed_screen.entered obs \<Longrightarrow> \<forall>x\<in>set obs. snd x \<in> set CANONICAL_LANES"
  by (auto simp: observed_screen.entered_def observed_wf_def)

lemma record_lanes:
  "record_screen.entered recs \<Longrightarrow> \<forall>x\<in>set recs. ar_lane (snd x) \<in> set CANONICAL_LANES"
  by (auto simp: record_screen.entered_def record_wf_def normal_record_def)

subsection \<open>The report in closed form\<close>

lemma reconcile_state_of:
  assumes "observed_screen.entered obs"
    and st_def: "st = reconcile_observed recs obs (initial_state es)"
  shows "rs_active_count st + rs_terminal_count st + length (rs_unexplained st) = length obs"
    and "(\<Sum>l\<leftarrow>CANONICAL_LANES. length (rs_lane_unexplained st l)) = length (rs_unexplained st)"
    and "(\<Sum>l\<leftarrow>CANONICAL_LANES. length (filter (\<lambda>v. v = l) (dict_values obs))) = length obs"
    and "\<forall>l. rs_lane_active st l + rs_lane_terminal st l + length (rs_lane_unexplained st l)
           = length (filter (\<lambda>v. v = l) (dict_values obs))"
proof -
  have vals: "length (filter (\<lambda>v. v = l) (dict_values obs)) = length (filter (\<lambda>x. snd x = l) obs)" for l
    by (simp add: dict_values_def filter_map comp_def)
  show "rs_active_count st + rs_terminal_count st + length (rs_unexplained st) = length obs"
    using matched_partition [of recs "\<lambda>_. True" obs]
    by (simp add: st_def reconcile_counts initial_state_def)
  show "(\<Sum>l\<leftarrow>CANONICAL_LANES. length (rs_lane_unexplained st l)) = length (rs_unexplained st)"
    using sum_over_lanes [OF lanes_distinct observed_lanes [OF assms(1)], of "\<lambda>x. \<not> matched recs x"]
    by (simp add: st_def reconcile_counts reconcile_lane_counts initial_state_def)
  show "(\<Sum>l\<leftarrow>CANONICAL_LANES. length (filter (\<lambda>v. v = l) (dict_values obs))) = length obs"
    using sum_over_lanes [OF lanes_distinct observed_lanes [OF assms(1)], of "\<lambda>x. True"]
    by (simp add: vals)
  show "\<forall>l. rs_lane_active st l + rs_lane_terminal st l + length (rs_lane_unexplained st l)
           = length (filter (\<lambda>v. v = l) (dict_values obs))"
    using matched_partition [of recs _ obs]
    by (simp add: vals st_def reconcile_lane_counts initial_state_def)
qed

text \<open>The two dictionaries of one reconciliation and its final loop state.\<close>

definition screened_observed :: "observed_candidate list \<Rightarrow> (string, string) dict" where
  "screened_observed os = fst (normalize_observed os [])"

definition screened_records :: "observed_candidate list \<Rightarrow> accounting_record list \<Rightarrow> (string, accounting_record) dict" where
  "screened_records os rs = fst (normalize_records rs (snd (normalize_observed os [])))"

definition final_state :: "observed_candidate list \<Rightarrow> accounting_record list \<Rightarrow> reconcile_state" where
  "final_state os rs = reconcile_observed (screened_records os rs) (screened_observed os)
     (initial_state (snd (normalize_records rs (snd (normalize_observed os [])))))"

lemma reconcile_report:
  defines "rep \<equiv> \<lambda>os rs. reconcile_candidates os rs"
  shows "lo_observed_candidate_count (rep os rs) = length (screened_observed os)"
    and "lo_active_candidate_count (rep os rs) = rs_active_count (final_state os rs)"
    and "lo_terminal_candidate_count (rep os rs) = rs_terminal_count (final_state os rs)"
    and "lo_unexplained_candidate_ids (rep os rs) = sort (rs_unexplained (final_state os rs))"
    and "lo_unexplained_disappearance_count (rep os rs) = length (rs_unexplained (final_state os rs))"
    and "lo_unexpected_candidate_ids (rep os rs)
          = sort (map fst (unexpected_records (screened_observed os) (screened_records os rs)))"
    and "lo_lanes (rep os rs) = map (\<lambda>l. (l, lane_summary (screened_observed os)
          (unexpected_records (screened_observed os) (screened_records os rs)) (final_state os rs) l)) CANONICAL_LANES"
    and "lo_validation_errors (rep os rs) = rs_errors (final_state os rs)"
    and "lo_certification_ready (rep os rs) \<longleftrightarrow> rs_errors (final_state os rs) = []
          \<and> unexpected_records (screened_observed os) (screened_records os rs) = []
          \<and> rs_unexplained (final_state os rs) = []"
proof -
  obtain obs es where o: "normalize_observed os [] = (obs, es)" by fastforce
  obtain recs es' where r: "normalize_records rs es = (recs, es')" by fastforce
  note names = screened_observed_def screened_records_def final_state_def
  have so: "screened_observed os = obs" and sr: "screened_records os rs = recs"
    and fs: "final_state os rs = reconcile_observed recs obs (initial_state es')"
    by (simp_all add: names o r)
  have ent: "observed_screen.entered obs"
    using observed_entered [of os "[]"] o by simp
  note count = reconcile_state_of [OF ent fs]
  have lanes: "sum_list (map la_unexplained_disappearance_count (dict_values
      (map (\<lambda>l. (l, lane_summary obs (unexpected_records obs recs) (final_state os rs) l)) CANONICAL_LANES)))
      = length (rs_unexplained (final_state os rs))"
    "sum_list (map la_observed_candidate_count (dict_values
      (map (\<lambda>l. (l, lane_summary obs (unexpected_records obs recs) (final_state os rs) l)) CANONICAL_LANES)))
      = length obs"
    using count(2,3) by (simp_all add: dict_values_def comp_def lane_summary_def Let_def)
  have rep: "rep os rs = (let lanes = map (\<lambda>l. (l, lane_summary obs (unexpected_records obs recs) (final_state os rs) l)) CANONICAL_LANES in
     \<lparr>lo_lanes = lanes, lo_observed_candidate_count = length obs,
          lo_active_candidate_count = rs_active_count (final_state os rs),
          lo_terminal_candidate_count = rs_terminal_count (final_state os rs),
          lo_accounted_candidate_count = rs_active_count (final_state os rs) + rs_terminal_count (final_state os rs),
          lo_unexplained_disappearance_count = length (rs_unexplained (final_state os rs)),
          lo_unexplained_candidate_ids = sort (rs_unexplained (final_state os rs)),
          lo_unexpected_candidate_count = length (unexpected_records obs recs),
          lo_unexpected_candidate_ids = sort (map fst (unexpected_records obs recs)),
          lo_validation_errors = rs_errors (final_state os rs),
          lo_accounting_valid = (rs_errors (final_state os rs) = [] \<and> sort (map fst (unexpected_records obs recs)) = []),
          lo_certification_ready = ((rs_errors (final_state os rs) = [] \<and> sort (map fst (unexpected_records obs recs)) = [])
             \<and> length (rs_unexplained (final_state os rs)) = 0)\<rparr>)"
    using count(1)
    by (simp only: rep_def reconcile_candidates_def o r split_conv Let_def fs [symmetric] lanes length_sort length_map
        simp_thms if_False append_Nil2 if_not_P not_not)
  have nil: "sort (map fst xs) = [] \<longleftrightarrow> xs = []" for xs :: "(string \<times> accounting_record) list"
    by (metis length_0_conv length_map length_sort)
  show "lo_observed_candidate_count (rep os rs) = length (screened_observed os)"
    and "lo_active_candidate_count (rep os rs) = rs_active_count (final_state os rs)"
    and "lo_terminal_candidate_count (rep os rs) = rs_terminal_count (final_state os rs)"
    and "lo_unexplained_candidate_ids (rep os rs) = sort (rs_unexplained (final_state os rs))"
    and "lo_unexplained_disappearance_count (rep os rs) = length (rs_unexplained (final_state os rs))"
    and "lo_unexpected_candidate_ids (rep os rs)
          = sort (map fst (unexpected_records (screened_observed os) (screened_records os rs)))"
    and "lo_lanes (rep os rs) = map (\<lambda>l. (l, lane_summary (screened_observed os)
          (unexpected_records (screened_observed os) (screened_records os rs)) (final_state os rs) l)) CANONICAL_LANES"
    and "lo_validation_errors (rep os rs) = rs_errors (final_state os rs)"
    and "lo_certification_ready (rep os rs) \<longleftrightarrow> rs_errors (final_state os rs) = []
          \<and> unexpected_records (screened_observed os) (screened_records os rs) = []
          \<and> rs_unexplained (final_state os rs) = []"
    by (simp_all add: rep Let_def so sr nil)
qed

subsection \<open>When nothing is reported\<close>

definition observed_clean :: "observed_candidate list \<Rightarrow> bool" where
  "observed_clean os \<longleftrightarrow> list_all observed_wf os \<and> distinct (map (\<lambda>c. strip (oc_candidate_id c)) os)"

definition records_clean :: "accounting_record list \<Rightarrow> bool" where
  "records_clean rs \<longleftrightarrow> list_all record_wf rs \<and> distinct (map (\<lambda>r. strip (ar_candidate_id r)) rs)"

lemma normalize_clean:
  "snd (normalize_records rs (snd (normalize_observed os []))) = [] \<longleftrightarrow> observed_clean os \<and> records_clean rs"
proof -
  have 1: "snd (normalize_observed os []) = [] \<longleftrightarrow> observed_clean os"
    using observed_screen.clean [of 0 os "[]" "[]"]
    by (simp add: normalize_observed_def observed_clean_def list_all_iff)
  have "length es \<le> length (snd (normalize_records rs es))" for es
    using record_screen.errors_grow [of es 0 rs "[]"] by (simp add: normalize_records_def)
  then have 2: "snd (normalize_records rs es) = [] \<Longrightarrow> es = []" for es
    by (metis le_zero_eq length_0_conv)
  have 3: "snd (normalize_records rs []) = [] \<longleftrightarrow> records_clean rs"
    using record_screen.clean [of 0 rs "[]" "[]"]
    by (simp add: normalize_records_def records_clean_def list_all_iff)
  from 1 2 3 show ?thesis by (metis (no_types))
qed

lemma screened_clean:
  assumes "observed_clean os"
  shows "screened_observed os = map (\<lambda>c. (strip (oc_candidate_id c), strip (oc_lane c))) os"
    and "records_clean rs \<Longrightarrow> screened_records os rs = map (\<lambda>r. (strip (ar_candidate_id r), normal_record r)) rs"
proof -
  have o: "normalize_observed os [] = (map (\<lambda>c. (strip (oc_candidate_id c), strip (oc_lane c))) os, [])"
    using observed_screen.clean_result [of os "[]" 0 "[]"] assms
    by (simp add: normalize_observed_def observed_clean_def list_all_iff)
  then show "screened_observed os = map (\<lambda>c. (strip (oc_candidate_id c), strip (oc_lane c))) os"
    by (simp add: screened_observed_def)
  show "screened_records os rs = map (\<lambda>r. (strip (ar_candidate_id r), normal_record r)) rs" if "records_clean rs"
    using record_screen.clean_result [of rs "[]" 0 "[]"] that o
    by (simp add: screened_records_def normalize_records_def records_clean_def list_all_iff)
qed

lemma final_errors:
  "rs_errors (final_state os rs) = [] \<longleftrightarrow> observed_clean os \<and> records_clean rs
     \<and> (\<forall>(i, l)\<in>set (screened_observed os). \<forall>r. dict_get (screened_records os rs) i = Some r \<longrightarrow> ar_lane r = l)"
proof -
  have "rs_errors (final_state os rs) = [] \<longleftrightarrow> length (rs_errors (final_state os rs)) = 0" by simp
  also have "\<dots> \<longleftrightarrow> snd (normalize_records rs (snd (normalize_observed os []))) = []
      \<and> (\<forall>(i, l)\<in>set (screened_observed os). \<forall>r. dict_get (screened_records os rs) i = Some r \<longrightarrow> ar_lane r = l)"
    by (auto simp: final_state_def reconcile_errors initial_state_def filter_empty_conv)
  finally show ?thesis by (simp only: normalize_clean conj_assoc)
qed

definition observed_pairs :: "observed_candidate list \<Rightarrow> (string \<times> string) set" where
  "observed_pairs os = (\<lambda>c. (strip (oc_candidate_id c), strip (oc_lane c))) ` set os"

definition record_pairs :: "accounting_record list \<Rightarrow> (string \<times> string) set" where
  "record_pairs rs = (\<lambda>r. (strip (ar_candidate_id r), strip (ar_lane r))) ` set rs"

lemma clean_record_get:
  assumes "records_clean rs"
  shows "dict_get (map (\<lambda>r. (strip (ar_candidate_id r), normal_record r)) rs) i = Some v
     \<longleftrightarrow> (\<exists>r\<in>set rs. strip (ar_candidate_id r) = i \<and> v = normal_record r)"
proof -
  have ok: "dict_ok (map (\<lambda>r. (strip (ar_candidate_id r), normal_record r)) rs)"
    using assms by (simp add: dict_ok_def records_clean_def comp_def)
  show ?thesis
  proof
    assume "dict_get (map (\<lambda>r. (strip (ar_candidate_id r), normal_record r)) rs) i = Some v"
    from dict_get_in [OF this] show "\<exists>r\<in>set rs. strip (ar_candidate_id r) = i \<and> v = normal_record r" by auto
  qed (use in_dict_get [OF ok] in force)
qed

lemma ready_iff_pairs:
  "lo_certification_ready (reconcile_candidates os rs) \<longleftrightarrow>
     observed_clean os \<and> records_clean rs \<and> observed_pairs os = record_pairs rs"
proof (cases "observed_clean os \<and> records_clean rs")
  case False
  then show ?thesis by (auto simp: reconcile_report final_errors)
next
  case True
  define obs recs where "obs = screened_observed os" and "recs = screened_records os rs"
  have obs: "obs = map (\<lambda>c. (strip (oc_candidate_id c), strip (oc_lane c))) os"
    and recs: "recs = map (\<lambda>r. (strip (ar_candidate_id r), normal_record r)) rs"
    using screened_clean True by (simp_all add: obs_def recs_def)
  have unexp: "unexpected_records obs recs = [] \<longleftrightarrow> fst ` record_pairs rs \<subseteq> fst ` observed_pairs os"
    by (force simp: unexpected_records_def filter_empty_conv obs recs dict_get_eq_None record_pairs_def
        observed_pairs_def image_image)
  have get: "dict_get recs i = Some v \<longleftrightarrow> (\<exists>r\<in>set rs. strip (ar_candidate_id r) = i \<and> v = normal_record r)" for i v
    using clean_record_get True recs by simp
  have pairs: "set obs = observed_pairs os" by (auto simp: obs observed_pairs_def)
  have lane: "ar_lane (normal_record r) = strip (ar_lane r)" for r by (simp add: normal_record_def)
  have "matched recs (i, l) \<longleftrightarrow> (i, l) \<in> record_pairs rs" for i l
    by (auto simp: matched_def get record_pairs_def lane image_iff)
  then have lost: "rs_unexplained (final_state os rs) = [] \<longleftrightarrow> observed_pairs os \<subseteq> record_pairs rs"
    by (auto simp: final_state_def reconcile_counts initial_state_def filter_empty_conv
        recs_def [symmetric] obs_def [symmetric] pairs)
  have inj: "l = l'" if "(i, l) \<in> record_pairs rs" "(i, l') \<in> record_pairs rs" for i l l'
    using that True by (auto simp: record_pairs_def records_clean_def distinct_map dest: inj_onD)
  have conflict: "(\<forall>(i, l)\<in>set obs. \<forall>r. dict_get recs i = Some r \<longrightarrow> ar_lane r = l)
     \<longleftrightarrow> (\<forall>i l l'. (i, l) \<in> observed_pairs os \<longrightarrow> (i, l') \<in> record_pairs rs \<longrightarrow> l' = l)"
    (is "?all \<longleftrightarrow> _")
  proof (intro iffI allI impI)
    fix i l l' assume all: ?all and o: "(i, l) \<in> observed_pairs os" and "(i, l') \<in> record_pairs rs"
    then obtain r where "r \<in> set rs" "strip (ar_candidate_id r) = i" "l' = strip (ar_lane r)"
      by (auto simp: record_pairs_def)
    then have "dict_get recs i = Some (normal_record r)" and "ar_lane (normal_record r) = l'"
      using get lane by auto
    with all o show "l' = l" unfolding pairs by blast
  qed (auto simp: pairs get lane record_pairs_def)
  have "lo_certification_ready (reconcile_candidates os rs) \<longleftrightarrow>
      (\<forall>i l l'. (i, l) \<in> observed_pairs os \<longrightarrow> (i, l') \<in> record_pairs rs \<longrightarrow> l' = l)
      \<and> fst ` record_pairs rs \<subseteq> fst ` observed_pairs os \<and> observed_pairs os \<subseteq> record_pairs rs"
    using True conflict unexp lost by (simp add: reconcile_report final_errors obs_def recs_def)
  also have "\<dots> \<longleftrightarrow> observed_pairs os = record_pairs rs"
    (is "?lhs \<longleftrightarrow> _")
  proof
    assume L: ?lhs
    have "record_pairs rs \<subseteq> observed_pairs os"
    proof (intro subrelI)
      fix i l' assume r: "(i, l') \<in> record_pairs rs"
      then have "i \<in> fst ` record_pairs rs" by force
      with L obtain l where o: "(i, l) \<in> observed_pairs os" by auto
      with L r have "l' = l" by blast
      with o show "(i, l') \<in> observed_pairs os" by simp
    qed
    with L show "observed_pairs os = record_pairs rs" by blast
  next
    assume eq: "observed_pairs os = record_pairs rs"
    show ?lhs unfolding eq using inj by blast
  qed
  finally show ?thesis using True by simp
qed

subsection \<open>Properties\<close>


text \<open>The hard readiness gate passes exactly when the lane matrix has the five lanes, every
  observed candidate and every record is well formed, no identity occurs twice on either
  side, and records and observations name the same candidates in the same lanes; and it
  passes exactly when it lists no blocker.\<close>

theorem gate_passes_iff_books_match:
  "let gate = attach_lossless_accounting m (reconcile_candidates os rs) in
     (ag_hard_readiness_gate_passed gate \<longleftrightarrow>
        set m = set CANONICAL_LANES \<and> list_all observed_wf os \<and> list_all record_wf rs
      \<and> distinct (map (\<lambda>c. strip (oc_candidate_id c)) os) \<and> distinct (map (\<lambda>r. strip (ar_candidate_id r)) rs)
      \<and> observed_pairs os = record_pairs rs)
    \<and> (ag_hard_readiness_gate_passed gate \<longleftrightarrow> ag_readiness_blockers gate = [])"
proof -
  let ?a = "reconcile_candidates os rs"
  have ready: "lo_certification_ready ?a \<longleftrightarrow> lo_validation_errors ?a = [] \<and> lo_unexpected_candidate_count ?a = 0
      \<and> lo_unexplained_disappearance_count ?a = 0"
    by (simp add: reconcile_candidates_def Let_def split_beta del: length_sort)
  let ?g = "attach_lossless_accounting m ?a"
  have "ag_hard_readiness_gate_passed ?g \<longleftrightarrow> set m = set CANONICAL_LANES \<and> lo_certification_ready ?a"
    using ready by (auto simp: attach_lossless_accounting_def Let_def)
  moreover have "ag_readiness_blockers ?g = [] \<longleftrightarrow> set m = set CANONICAL_LANES \<and> lo_certification_ready ?a"
    using ready by (simp add: attach_lossless_accounting_def Let_def)
  ultimately show ?thesis
    using ready_iff_pairs [of os rs] by (auto simp: Let_def observed_clean_def records_clean_def)
qed

end
