(* ===== verification/Storage.thy ===== *)
theory Storage
  imports Prelude "HOL-Library.Product_Lexorder" "HOL-Library.List_Lexorder" "HOL-Library.Char_ord"
begin

text \<open>
  The append-only event store (\<open>storage.py\<close>): a hash-chained event log and the point-in-time
  tables. A table is the list of its rows in insertion order; rows are never deleted, so the
  next AUTOINCREMENT id is the row count plus one. Stored timestamps are ISO texts of UTC
  stamps, whose text order is the time order; they are read as \<open>datetime\<close>. SHA-256 is the
  parameter \<open>sha\<close>, and the JSON text of an event payload is given. Evidence payloads are
  kept as values, which \<open>json.loads\<close> returns as \<open>json.dumps\<close> wrote them.
\<close>

text \<open>The payloads that are written to the evidence table: the fields of the six evidence
  dataclasses of \<open>risk.py\<close>, its only writer.\<close>

datatype evidence =
    Authority_evidence bool bool \<comment> \<open>\<open>mint_authority_active\<close>, \<open>freeze_authority_active\<close>\<close>
  | Liquidity_evidence real "real option" \<comment> \<open>\<open>liquidity_usd\<close>, \<open>market_cap_usd\<close>\<close>
  | Launch_evidence bool bool \<comment> \<open>\<open>bundled_launch\<close>, \<open>sniper_heavy\<close>\<close>
  | Flow_evidence bool bool \<comment> \<open>\<open>early_buyers_exiting\<close>, \<open>abnormal_sell_pressure\<close>\<close>
  | Funding_evidence "string list" \<comment> \<open>\<open>early_buyer_wallets\<close>\<close>
  | Deployer_evidence "string option" \<comment> \<open>\<open>deployer_wallet\<close>\<close>

record event_row =
  ev_event_type :: string
  ev_observed_at :: string
  ev_payload_json :: string
  ev_previous_hash :: "string option"
  ev_lineage_hash :: string

record profile_row =
  pr_wallet :: string
  pr_entity_id :: string
  pr_tier :: string
  pr_first_touch_sample_size :: int
  pr_historically_eligible :: bool
  pr_updated_at :: datetime

record swap_row =
  sw_signature :: string
  sw_slot :: int
  sw_observed_at :: datetime
  sw_received_at :: datetime
  sw_wallet :: string
  sw_token_mint :: string
  sw_side :: string
  sw_token_amount :: real
  sw_native_amount_sol :: real
  sw_reference_price_sol :: real
  sw_ingestion_latency_ms :: real
  sw_source :: string

record touch_row =
  tr_token_mint :: string
  tr_signature :: string
  tr_wallet :: string
  tr_entity_id :: string
  tr_tier :: string
  tr_observed_at :: datetime
  tr_reference_price_sol :: real

record evidence_row =
  er_id :: nat
  er_token_mint :: string
  er_dimension :: string
  er_observed_at :: datetime
  er_received_at :: datetime
  er_source :: string
  er_payload :: evidence

record link_row =
  lk_id :: nat
  lk_wallet_a :: string
  lk_wallet_b :: string
  lk_relationship :: string
  lk_confidence :: real
  lk_observed_at :: datetime
  lk_received_at :: datetime
  lk_source :: string

record event_store =
  es_events :: "event_row list"
  es_wallet_profiles :: "(string, profile_row) dict"
  es_normalized_swaps :: "swap_row list"
  es_token_first_touches :: "touch_row list"
  es_risk_evidence :: "evidence_row list"
  es_entity_links :: "link_row list"

definition empty_event_store :: event_store where
  "empty_event_store = \<lparr>es_events = [], es_wallet_profiles = [], es_normalized_swaps = [],
     es_token_first_touches = [], es_risk_evidence = [], es_entity_links = []\<rparr>"

subsection \<open>The hash chain\<close>

definition lineage_message :: "string option \<Rightarrow> string \<Rightarrow> string \<Rightarrow> string \<Rightarrow> string" where
  "lineage_message previous event_type observed_at raw =
     or_default previous [] @ ''|'' @ event_type @ ''|'' @ observed_at @ ''|'' @ raw"

definition last_lineage :: "event_row list \<Rightarrow> string option" where
  "last_lineage rows = (if rows = [] then None else Some (ev_lineage_hash (last rows)))"

definition store_append ::
  "(string \<Rightarrow> string) \<Rightarrow> string \<Rightarrow> string \<Rightarrow> string \<Rightarrow> event_store \<Rightarrow> string result \<times> event_store" where
  "store_append sha event_type observed_at raw s =
     (let previous = last_lineage (es_events s);
          lineage = sha (lineage_message previous event_type observed_at raw)
      in if lineage \<in> ev_lineage_hash ` set (es_events s)
         then (Inl (IntegrityError ''UNIQUE(lineage_hash)''), s)
         else (Inr lineage, s\<lparr>es_events := es_events s @
                [\<lparr>ev_event_type = event_type, ev_observed_at = observed_at, ev_payload_json = raw,
                  ev_previous_hash = previous, ev_lineage_hash = lineage\<rparr>]\<rparr>))"

fun verify_rows :: "(string \<Rightarrow> string) \<Rightarrow> string option \<Rightarrow> event_row list \<Rightarrow> bool" where
  "verify_rows sha previous [] = True"
| "verify_rows sha previous (r # rest) =
     (if ev_previous_hash r \<noteq> previous then False
      else if sha (lineage_message previous (ev_event_type r) (ev_observed_at r) (ev_payload_json r))
                \<noteq> ev_lineage_hash r then False
      else verify_rows sha (Some (ev_lineage_hash r)) rest)"

definition store_verify :: "(string \<Rightarrow> string) \<Rightarrow> event_store \<Rightarrow> bool" where
  "store_verify sha s = verify_rows sha None (es_events s)"

subsection \<open>The tables\<close>

definition upsert_wallet_profile :: "profile_row \<Rightarrow> event_store \<Rightarrow> event_store" where
  "upsert_wallet_profile p s = s\<lparr>es_wallet_profiles := dict_set (pr_wallet p) p (es_wallet_profiles s)\<rparr>"

definition wallet_profile :: "event_store \<Rightarrow> string \<Rightarrow> profile_row option" where
  "wallet_profile s wallet = dict_get (es_wallet_profiles s) wallet"

text \<open>\<open>INSERT OR IGNORE\<close>: a row whose unique key is present leaves the table as it was; the flag
  is \<open>rowcount == 1\<close>.\<close>

definition record_swap :: "swap_row \<Rightarrow> event_store \<Rightarrow> bool \<times> event_store" where
  "record_swap w s =
     (if \<exists>v\<in>set (es_normalized_swaps s). sw_signature v = sw_signature w \<and> sw_wallet v = sw_wallet w
           \<and> sw_token_mint v = sw_token_mint w \<and> sw_side v = sw_side w
      then (False, s)
      else (True, s\<lparr>es_normalized_swaps := es_normalized_swaps s @ [w]\<rparr>))"

definition claim_first_touch :: "touch_row \<Rightarrow> event_store \<Rightarrow> bool \<times> event_store" where
  "claim_first_touch t s =
     (if \<exists>u\<in>set (es_token_first_touches s). tr_token_mint u = tr_token_mint t
      then (False, s)
      else (True, s\<lparr>es_token_first_touches := es_token_first_touches s @ [t]\<rparr>))"

definition stored_first_touch :: "event_store \<Rightarrow> string \<Rightarrow> touch_row option" where
  "stored_first_touch s mint = find (\<lambda>t. tr_token_mint t = mint) (es_token_first_touches s)"

definition record_risk_evidence ::
  "string \<Rightarrow> string \<Rightarrow> datetime \<Rightarrow> datetime \<Rightarrow> string \<Rightarrow> evidence \<Rightarrow> event_store \<Rightarrow> bool \<times> event_store" where
  "record_risk_evidence mint dimension observed_at received_at source payload s =
     (if \<exists>r\<in>set (es_risk_evidence s). er_token_mint r = mint \<and> er_dimension r = dimension
           \<and> er_observed_at r = observed_at \<and> er_source r = source
      then (False, s)
      else (True, s\<lparr>es_risk_evidence := es_risk_evidence s @
        [\<lparr>er_id = Suc (length (es_risk_evidence s)), er_token_mint = mint, er_dimension = dimension,
          er_observed_at = observed_at, er_received_at = received_at, er_source = source,
          er_payload = payload\<rparr>]\<rparr>))"

text \<open>\<open>ORDER BY observed_at DESC, id DESC LIMIT 1\<close>.\<close>

definition latest_risk_evidence :: "event_store \<Rightarrow> string \<Rightarrow> string \<Rightarrow> datetime \<Rightarrow> evidence_row option" where
  "latest_risk_evidence s mint dimension as_of =
     (let rows = sort_key (\<lambda>r. (er_observed_at r, er_id r))
            (filter (\<lambda>r. er_token_mint r = mint \<and> er_dimension r = dimension \<and> er_received_at r \<le> as_of)
               (es_risk_evidence s))
      in if rows = [] then None else Some (last rows))"

definition record_entity_link ::
  "string \<Rightarrow> string \<Rightarrow> string \<Rightarrow> real \<Rightarrow> datetime \<Rightarrow> datetime \<Rightarrow> string \<Rightarrow> event_store \<Rightarrow> bool \<times> event_store" where
  "record_entity_link wallet_a wallet_b relationship confidence observed_at received_at source s =
     (let left = min wallet_a wallet_b; right = max wallet_a wallet_b
      in if \<exists>r\<in>set (es_entity_links s). lk_wallet_a r = left \<and> lk_wallet_b r = right
             \<and> lk_relationship r = relationship \<and> lk_observed_at r = observed_at \<and> lk_source r = source
         then (False, s)
         else (True, s\<lparr>es_entity_links := es_entity_links s @
           [\<lparr>lk_id = Suc (length (es_entity_links s)), lk_wallet_a = left, lk_wallet_b = right,
             lk_relationship = relationship, lk_confidence = confidence, lk_observed_at = observed_at,
             lk_received_at = received_at, lk_source = source\<rparr>]\<rparr>))"

definition entity_neighbors :: "event_store \<Rightarrow> string \<Rightarrow> datetime \<Rightarrow> real \<Rightarrow> link_row list" where
  "entity_neighbors s wallet as_of min_confidence =
     sort_key (\<lambda>r. (lk_received_at r, lk_id r))
       (filter (\<lambda>r. lk_received_at r \<le> as_of \<and> min_confidence \<le> lk_confidence r
                 \<and> (lk_wallet_a r = wallet \<or> lk_wallet_b r = wallet))
          (es_entity_links s))"

definition evidence_counts :: "event_store \<Rightarrow> (string, nat) dict" where
  "evidence_counts s =
     [(''events'', length (es_events s)), (''wallet_profiles'', length (es_wallet_profiles s)),
      (''normalized_swaps'', length (es_normalized_swaps s)),
      (''token_first_touches'', length (es_token_first_touches s)),
      (''risk_evidence'', length (es_risk_evidence s)), (''entity_links'', length (es_entity_links s))]"

subsection \<open>The store as a machine\<close>

datatype store_event =
    SAppend string string string
  | SProfile profile_row
  | SSwap swap_row
  | SClaim touch_row
  | SEvidence string string datetime datetime string evidence
  | SLink string string string real datetime datetime string

text \<open>The output is the list of first touches that a claim won.\<close>

fun store_step :: "(string \<Rightarrow> string) \<Rightarrow> event_store \<Rightarrow> store_event \<Rightarrow> event_store \<times> touch_row list" where
  "store_step sha s (SAppend ty stamp raw) = (snd (store_append sha ty stamp raw s), [])"
| "store_step sha s (SProfile p) = (upsert_wallet_profile p s, [])"
| "store_step sha s (SSwap w) = (snd (record_swap w s), [])"
| "store_step sha s (SClaim t) = (let (won, s') = claim_first_touch t s in (s', if won then [t] else []))"
| "store_step sha s (SEvidence mint dimension obs rcv src p) = (snd (record_risk_evidence mint dimension obs rcv src p s), [])"
| "store_step sha s (SLink a b rel conf obs rcv src) = (snd (record_entity_link a b rel conf obs rcv src s), [])"

definition store_ok :: "(string \<Rightarrow> string) \<Rightarrow> event_store \<Rightarrow> bool" where
  "store_ok sha s \<longleftrightarrow> store_verify sha s \<and> distinct (map tr_token_mint (es_token_first_touches s))"

lemma last_lineage_snoc [simp]: "last_lineage (rows @ [r]) = Some (ev_lineage_hash r)"
  by (simp add: last_lineage_def)

lemma verify_rows_append:
  "verify_rows sha p (xs @ ys) \<longleftrightarrow> verify_rows sha p xs \<and>
     verify_rows sha (if xs = [] then p else Some (ev_lineage_hash (last xs))) ys"
  by (induction xs arbitrary: p) auto

lemma verify_snoc:
  "verify_rows sha None (xs @ [r]) \<longleftrightarrow> verify_rows sha None xs \<and> ev_previous_hash r = last_lineage xs
     \<and> ev_lineage_hash r = sha (lineage_message (ev_previous_hash r) (ev_event_type r) (ev_observed_at r) (ev_payload_json r))"
  by (auto simp: verify_rows_append last_lineage_def)

lemma store_append_ok: "store_verify sha s \<Longrightarrow> store_verify sha (snd (store_append sha ty stamp raw s))"
  by (simp add: store_verify_def store_append_def Let_def verify_snoc)

interpretation store_machine: invariant_machine "store_step sha" "\<lambda>_. True" "store_ok sha" for sha
proof
  fix s e assume ok: "store_ok sha s"
  show "store_ok sha (fst (store_step sha s e))"
  proof (cases e)
    case (SAppend ty stamp raw)
    with ok store_append_ok [of sha s ty stamp raw] show ?thesis
      by (simp add: store_ok_def) (simp add: store_append_def Let_def)
  next
    case (SClaim t)
    with ok show ?thesis
      by (auto simp: store_ok_def claim_first_touch_def store_verify_def)
  qed (use ok in \<open>simp_all add: store_ok_def store_verify_def upsert_wallet_profile_def record_swap_def
      record_risk_evidence_def record_entity_link_def Let_def\<close>)
qed

subsection \<open>Properties\<close>

lemma split_at_bar:
  assumes "b \<notin> set xs" and "b \<notin> set xs'" and "xs @ b # ys = xs' @ b # ys'"
  shows "xs = xs' \<and> ys = ys'"
  using assms
proof (induction xs arbitrary: xs')
  case Nil
  then show ?case by (cases xs') auto
next
  case (Cons x xs)
  then show ?case by (cases xs') auto
qed

definition bar_free :: "event_row \<Rightarrow> bool" where
  "bar_free r \<longleftrightarrow> CHR ''|'' \<notin> set (ev_event_type r) \<and> CHR ''|'' \<notin> set (ev_observed_at r)"

lemma message_injective:
  assumes "CHR ''|'' \<notin> set (or_default p [])" "CHR ''|'' \<notin> set (or_default p' [])"
    and "bar_free r" "bar_free r'"
    and "lineage_message p (ev_event_type r) (ev_observed_at r) (ev_payload_json r)
       = lineage_message p' (ev_event_type r') (ev_observed_at r') (ev_payload_json r')"
  shows "or_default p [] = or_default p' [] \<and> ev_event_type r = ev_event_type r'
    \<and> ev_observed_at r = ev_observed_at r' \<and> ev_payload_json r = ev_payload_json r'"
proof -
  have "or_default p [] @ CHR ''|'' # (ev_event_type r @ CHR ''|'' # (ev_observed_at r @ CHR ''|'' # ev_payload_json r))
      = or_default p' [] @ CHR ''|'' # (ev_event_type r' @ CHR ''|'' # (ev_observed_at r' @ CHR ''|'' # ev_payload_json r'))"
    using assms(5) by (simp add: lineage_message_def)
  from split_at_bar [OF assms(1,2) this] assms(3,4) show ?thesis
    by (metis bar_free_def split_at_bar)
qed

definition hash_collision :: "(string \<Rightarrow> string) \<Rightarrow> bool" where
  "hash_collision sha \<longleftrightarrow> (\<exists>x y. x \<noteq> y \<and> sha x = sha y)"


definition demo_event :: event_row where
  "demo_event = \<lparr>ev_event_type = ''price'', ev_observed_at = ''t'', ev_payload_json = ''{}'',
     ev_previous_hash = None, ev_lineage_hash = ''0''\<rparr>"


text \<open>Whatever operations an empty store goes through, its event log verifies, its first-touch
  table is the list of claims that won, in order, at most one claim wins per token, and a
  lookup returns the winning claim from then on.\<close>

theorem first_touch_claimed_once:
  "let (s, won) = run_machine (store_step sha) empty_event_store events in
     store_verify sha s \<and> es_token_first_touches s = won \<and> distinct (map tr_token_mint won)
   \<and> (stored_first_touch s mint = Some t \<longleftrightarrow> t \<in> set won \<and> tr_token_mint t = mint)"
proof -
  obtain s won where run: "run_machine (store_step sha) empty_event_store events = (s, won)" by fastforce
  have "store_ok sha empty_event_store" by (simp add: store_ok_def store_verify_def empty_event_store_def)
  from store_machine.run_inv [OF this, of events] run have ok: "store_ok sha s" by (simp add: list_all_True)
  have table: "es_token_first_touches (fst (run_machine (store_step sha) s0 es))
      = es_token_first_touches s0 @ snd (run_machine (store_step sha) s0 es)" for s0 es
  proof (induction es arbitrary: s0)
    case (Cons e es)
    have "es_token_first_touches (fst (store_step sha s0 e)) = es_token_first_touches s0 @ snd (store_step sha s0 e)"
      by (cases e) (simp_all add: store_append_def upsert_wallet_profile_def record_swap_def claim_first_touch_def
          record_risk_evidence_def record_entity_link_def Let_def)
    with Cons show ?case by (simp add: split_beta Let_def)
  qed simp
  from table [of empty_event_store events] run have won: "es_token_first_touches s = won"
    by (simp add: empty_event_store_def)
  have dist: "distinct (map tr_token_mint won)" using ok won by (simp add: store_ok_def)
  have "find (\<lambda>t. tr_token_mint t = mint) ts = Some t \<longleftrightarrow> t \<in> set ts \<and> tr_token_mint t = mint"
    if "distinct (map tr_token_mint ts)" for ts
    using that by (induction ts) (auto simp: image_iff)
  with dist won ok run show ?thesis by (simp add: stored_first_touch_def store_ok_def)
qed

end
