(* ===== verification/Risk.thy ===== *)
theory Risk
  imports Storage Models
begin

text \<open>
  Token risk intelligence (\<open>risk.py\<close>): wallets are collapsed into entities along recorded
  links, evidence is recorded per dimension, and a risk snapshot is composed from the latest
  evidence known at the decision time, or withheld when a dimension is missing or stale.
  The wallet registry is an argument (the entity id of a wallet's profile); the environment
  record holds SHA-256 and the texts that \<open>isoformat\<close> and \<open>json.dumps\<close> give for the event log.
\<close>

datatype risk_dimension = AUTHORITY | LIQUIDITY | LAUNCH | FLOW | FUNDING | DEPLOYER

fun dimension_text :: "risk_dimension \<Rightarrow> string" where
  "dimension_text AUTHORITY = ''authority''"
| "dimension_text LIQUIDITY = ''liquidity''"
| "dimension_text LAUNCH = ''launch''"
| "dimension_text FLOW = ''flow''"
| "dimension_text FUNDING = ''funding''"
| "dimension_text DEPLOYER = ''deployer''"

definition REQUIRED_DIMENSIONS :: "risk_dimension list" where
  "REQUIRED_DIMENSIONS = [AUTHORITY, LIQUIDITY, LAUNCH, FLOW, FUNDING, DEPLOYER]"

record risk_policy =
  rp_authority_max_age_seconds :: real
  rp_liquidity_max_age_seconds :: real
  rp_launch_max_age_seconds :: real
  rp_flow_max_age_seconds :: real
  rp_funding_max_age_seconds :: real
  rp_deployer_max_age_seconds :: real
  rp_min_liquidity_usd :: real
  rp_min_liquidity_market_cap_fraction :: real
  rp_confirmed_entity_link_confidence :: real

definition DEFAULT_POLICY :: risk_policy where
  "DEFAULT_POLICY = \<lparr>rp_authority_max_age_seconds = 60, rp_liquidity_max_age_seconds = 5,
     rp_launch_max_age_seconds = 30, rp_flow_max_age_seconds = 5, rp_funding_max_age_seconds = 30,
     rp_deployer_max_age_seconds = 60, rp_min_liquidity_usd = 1500,
     rp_min_liquidity_market_cap_fraction = 2 / 100, rp_confirmed_entity_link_confidence = 95 / 100\<rparr>"

fun max_age :: "risk_policy \<Rightarrow> risk_dimension \<Rightarrow> real" where
  "max_age p AUTHORITY = rp_authority_max_age_seconds p"
| "max_age p LIQUIDITY = rp_liquidity_max_age_seconds p"
| "max_age p LAUNCH = rp_launch_max_age_seconds p"
| "max_age p FLOW = rp_flow_max_age_seconds p"
| "max_age p FUNDING = rp_funding_max_age_seconds p"
| "max_age p DEPLOYER = rp_deployer_max_age_seconds p"

record entity_link =
  el_wallet_a :: string
  el_wallet_b :: string
  el_relationship :: string
  el_confidence :: real
  el_observed_at :: datetime
  el_received_at :: datetime
  el_source :: string

record risk_env =
  rv_sha :: "string \<Rightarrow> string"
  rv_isoformat :: "datetime \<Rightarrow> string"
  rv_link_json :: "entity_link \<Rightarrow> string"
  rv_evidence_json :: "evidence_row \<Rightarrow> string"

subsection \<open>Entities\<close>

definition record_link :: "risk_env \<Rightarrow> entity_link \<Rightarrow> event_store \<Rightarrow> bool result \<times> event_store" where
  "record_link v link s =
     (if el_wallet_a link = el_wallet_b link then (Inr False, s)
      else if \<not> (0 \<le> el_confidence link \<and> el_confidence link \<le> 1)
        then (Inl (ValueError ''entity-link confidence must be between 0 and 1''), s)
      else
        (let (inserted, s1) = record_entity_link (el_wallet_a link) (el_wallet_b link) (el_relationship link)
               (el_confidence link) (el_observed_at link) (el_received_at link) (el_source link) s
         in if inserted then
              (case store_append (rv_sha v) ''entity_link'' (rv_isoformat v (el_received_at link)) (rv_link_json v link) s1 of
                 (Inl e, s2) \<Rightarrow> (Inl e, s2)
               | (Inr _, s2) \<Rightarrow> (Inr True, s2))
            else (Inr False, s1)))"

definition other_wallet :: "string \<Rightarrow> link_row \<Rightarrow> string" where
  "other_wallet current r = (if lk_wallet_a r = current then lk_wallet_b r else lk_wallet_a r)"

text \<open>The inner loop of \<open>component\<close>: \<open>seen\<close> and \<open>pending\<close> as lists, \<open>pending\<close> a stack with its top
  at the end.\<close>

fun push_unseen :: "string \<Rightarrow> link_row list \<Rightarrow> string list \<times> string list \<Rightarrow> string list \<times> string list" where
  "push_unseen current [] (seen, pending) = (seen, pending)"
| "push_unseen current (r # rows) (seen, pending) =
     (let other = other_wallet current r
      in if other \<in> set seen then push_unseen current rows (seen, pending)
         else push_unseen current rows (other # seen, pending @ [other]))"

definition linked_wallets :: "event_store \<Rightarrow> string set" where
  "linked_wallets s = lk_wallet_a ` set (es_entity_links s) \<union> lk_wallet_b ` set (es_entity_links s)"

lemma finite_linked_wallets [simp]: "finite (linked_wallets s)"
  by (simp add: linked_wallets_def)

lemma neighbor_iff:
  "r \<in> set (entity_neighbors s w t m) \<longleftrightarrow> r \<in> set (es_entity_links s) \<and> lk_received_at r \<le> t
     \<and> m \<le> lk_confidence r \<and> (lk_wallet_a r = w \<or> lk_wallet_b r = w)"
  by (auto simp: entity_neighbors_def)

lemma other_linked: "r \<in> set (entity_neighbors s w t m) \<Longrightarrow> other_wallet w r \<in> linked_wallets s"
  by (auto simp: neighbor_iff other_wallet_def linked_wallets_def)

lemma push_unseen_split:
  "\<exists>new. snd (push_unseen w rows (seen, pending)) = pending @ new
     \<and> set (fst (push_unseen w rows (seen, pending))) = set seen \<union> set new
     \<and> set seen \<union> set new = set seen \<union> other_wallet w ` set rows
     \<and> distinct new \<and> set new \<inter> set seen = {}"
proof (induction rows arbitrary: seen pending)
  case (Cons r rows)
  show ?case
  proof (cases "other_wallet w r \<in> set seen")
    case True
    with Cons [of seen pending] show ?thesis by auto
  next
    case False
    from Cons [of "other_wallet w r # seen" "pending @ [other_wallet w r]"] obtain new where
      "snd (push_unseen w rows (other_wallet w r # seen, pending @ [other_wallet w r])) = (pending @ [other_wallet w r]) @ new"
      "set (fst (push_unseen w rows (other_wallet w r # seen, pending @ [other_wallet w r])))
        = set (other_wallet w r # seen) \<union> set new"
      "set (other_wallet w r # seen) \<union> set new = set (other_wallet w r # seen) \<union> other_wallet w ` set rows"
      "distinct new" "set new \<inter> set (other_wallet w r # seen) = {}" by blast
    with False show ?thesis by (intro exI [of _ "other_wallet w r # new"]) (auto simp: Let_def)
  qed
qed simp

lemma push_unseen_measure:
  assumes "other_wallet w ` set rows \<subseteq> W" and "finite W"
    and "push_unseen w rows (seen, pending) = (seen', pending')"
  shows "length pending' + 2 * card (W - set seen') \<le> length pending + 2 * card (W - set seen)"
proof -
  obtain new where new: "pending' = pending @ new" "set seen' = set seen \<union> set new"
      "set seen \<union> set new = set seen \<union> other_wallet w ` set rows" "distinct new" "set new \<inter> set seen = {}"
    using push_unseen_split [of w rows seen pending] assms(3) by auto
  have sub: "set new \<subseteq> W - set seen" using new(3,5) assms(1) by blast
  have len: "length new = card (set new)" using distinct_card [OF new(4)] by simp
  have "card (W - set seen - set new) = card (W - set seen) - card (set new)"
    using sub by (intro card_Diff_subset) simp_all
  moreover have "card (set new) \<le> card (W - set seen)" using sub assms(2) by (intro card_mono) simp_all
  moreover have "W - set seen' = W - set seen - set new" using new(2) by blast
  ultimately show ?thesis using new(1) len by simp
qed

function component_loop :: "event_store \<Rightarrow> datetime \<Rightarrow> real \<Rightarrow> string list \<Rightarrow> string list \<Rightarrow> string list" where
  "component_loop s as_of min_confidence seen pending =
     (if pending = [] then seen
      else (let current = last pending;
                (seen', pending') = push_unseen current (entity_neighbors s current as_of min_confidence)
                                      (seen, butlast pending)
            in component_loop s as_of min_confidence seen' pending'))"
  by pat_completeness auto
termination
proof (relation "measure (\<lambda>(s, t, m, seen, pending). length pending + 2 * card (linked_wallets s - set seen))")
  fix s t m seen pending current x seen' pending'
  assume ne: "(pending :: string list) \<noteq> []" and "current = last pending"
    and x: "x = push_unseen current (entity_neighbors s current t m) (seen, butlast pending)"
    and "(seen', pending') = x"
  then have "length pending' + 2 * card (linked_wallets s - set seen')
      \<le> length (butlast pending) + 2 * card (linked_wallets s - set seen)"
    by (intro push_unseen_measure) (auto intro: other_linked)
  with ne show "((s, t, m, seen', pending'), s, t, m, seen, pending)
      \<in> measure (\<lambda>(s, t, m, seen, pending). length pending + 2 * card (linked_wallets s - set seen))"
    by (cases pending rule: rev_cases) auto
qed simp

declare component_loop.simps [simp del]

definition component :: "event_store \<Rightarrow> real \<Rightarrow> string \<Rightarrow> datetime \<Rightarrow> string set" where
  "component s min_confidence wallet as_of = set (component_loop s as_of min_confidence [wallet] [wallet])"

definition truthy :: "string option \<Rightarrow> bool" where
  "truthy x \<longleftrightarrow> x \<notin> {None, Some []}"

definition entity_id_for ::
  "(string \<Rightarrow> string option) \<Rightarrow> event_store \<Rightarrow> real \<Rightarrow> string \<Rightarrow> string option \<Rightarrow> datetime \<Rightarrow> string" where
  "entity_id_for registry s min_confidence wallet fallback as_of =
     (let members = component s min_confidence wallet as_of;
          anchors = the ` Set.filter truthy (insert fallback (registry ` members))
      in if anchors \<noteq> {} then Min anchors else ''graph:'' @ Min members)"

definition same_entity ::
  "event_store \<Rightarrow> real \<Rightarrow> string \<Rightarrow> string \<Rightarrow> datetime \<Rightarrow> string option \<Rightarrow> string option \<Rightarrow> bool" where
  "same_entity s min_confidence wallet_a wallet_b as_of fallback_a fallback_b =
     (if wallet_a = wallet_b then True
      else if truthy fallback_a \<and> truthy fallback_b \<and> fallback_a = fallback_b then True
      else wallet_b \<in> component s min_confidence wallet_a as_of)"

record component_summary =
  cs_wallet :: string
  cs_entity_id :: string
  cs_wallets :: "string list"

definition component_summary ::
  "(string \<Rightarrow> string option) \<Rightarrow> event_store \<Rightarrow> real \<Rightarrow> string \<Rightarrow> datetime \<Rightarrow> component_summary" where
  "component_summary registry s min_confidence wallet as_of =
     \<lparr>cs_wallet = wallet,
      cs_entity_id = entity_id_for registry s min_confidence wallet (registry wallet) as_of,
      cs_wallets = sorted_list_of_set (component s min_confidence wallet as_of)\<rparr>"

subsection \<open>Recording evidence\<close>

definition record_evidence ::
  "risk_env \<Rightarrow> string \<Rightarrow> risk_dimension \<Rightarrow> evidence \<Rightarrow> datetime \<Rightarrow> datetime option \<Rightarrow> datetime \<Rightarrow> string
     \<Rightarrow> event_store \<Rightarrow> bool result \<times> event_store" where
  "record_evidence v mint dimension payload observed_at received now source s =
     (let received_at = or_default received now;
          (inserted, s1) = record_risk_evidence mint (dimension_text dimension) observed_at received_at source payload s
      in if inserted then
           (case store_append (rv_sha v) ''risk_evidence'' (rv_isoformat v received_at)
                   (rv_evidence_json v (last (es_risk_evidence s1))) s1 of
              (Inl e, s2) \<Rightarrow> (Inl e, s2)
            | (Inr _, s2) \<Rightarrow> (Inr True, s2))
         else (Inr False, s1))"

definition record_authority where
  "record_authority v mint mint_active freeze_active observed received now source s =
     record_evidence v mint AUTHORITY (Authority_evidence mint_active freeze_active) observed received now source s"

definition record_liquidity where
  "record_liquidity v mint liquidity_usd market_cap_usd observed received now source s =
     (if liquidity_usd < 0 \<or> (\<exists>m \<in> set_option market_cap_usd. m \<le> 0)
      then (Inl (ValueError ''invalid liquidity/market-cap evidence''), s)
      else record_evidence v mint LIQUIDITY (Liquidity_evidence liquidity_usd market_cap_usd)
             observed received now source s)"

definition record_launch where
  "record_launch v mint bundled sniper observed received now source s =
     record_evidence v mint LAUNCH (Launch_evidence bundled sniper) observed received now source s"

definition record_flow where
  "record_flow v mint exiting sell_pressure observed received now source s =
     record_evidence v mint FLOW (Flow_evidence exiting sell_pressure) observed received now source s"

definition record_funding where
  "record_funding v mint wallets observed received now source s =
     record_evidence v mint FUNDING (Funding_evidence wallets) observed received now source s"

definition record_deployer where
  "record_deployer v mint deployer observed received now source s =
     record_evidence v mint DEPLOYER (Deployer_evidence deployer) observed received now source s"

text \<open>Calls in sequence: the first exception ends the sequence, what was recorded stays.\<close>

fun in_sequence :: "('s \<Rightarrow> 'a result \<times> 's) list \<Rightarrow> 's \<Rightarrow> py_error option \<times> 's" where
  "in_sequence [] s = (None, s)"
| "in_sequence (f # fs) s = (case f s of (Inl e, s') \<Rightarrow> (Some e, s') | (Inr _, s') \<Rightarrow> in_sequence fs s')"

definition record_bundle where
  "record_bundle v mint mint_active freeze_active liquidity_usd market_cap_usd bundled sniper exiting
       sell_pressure wallets deployer observed received now source s =
     (let received_at = Some (or_default received now) in in_sequence
       [record_authority v mint mint_active freeze_active observed received_at now source,
        record_liquidity v mint liquidity_usd market_cap_usd observed received_at now source,
        record_launch v mint bundled sniper observed received_at now source,
        record_flow v mint exiting sell_pressure observed received_at now source,
        record_funding v mint wallets observed received_at now source,
        record_deployer v mint deployer observed received_at now source] s)"

subsection \<open>The snapshot\<close>

fun latest_loop ::
  "event_store \<Rightarrow> risk_policy \<Rightarrow> string \<Rightarrow> datetime \<Rightarrow> risk_dimension list
     \<Rightarrow> (risk_dimension, evidence_row) dict \<Rightarrow> (risk_dimension, evidence_row) dict option" where
  "latest_loop s p mint decision_at [] rows = Some rows"
| "latest_loop s p mint decision_at (d # ds) rows =
     (case latest_risk_evidence s mint (dimension_text d) decision_at of
        None \<Rightarrow> None
      | Some raw \<Rightarrow>
          let age = total_seconds (decision_at - er_observed_at raw)
          in if age < 0 \<or> age > max_age p d then None
             else latest_loop s p mint decision_at ds (dict_set d raw rows))"

definition latest_complete ::
  "event_store \<Rightarrow> risk_policy \<Rightarrow> string \<Rightarrow> datetime \<Rightarrow> (risk_dimension, evidence_row) dict option" where
  "latest_complete s p mint decision_at = latest_loop s p mint decision_at REQUIRED_DIMENSIONS []"

text \<open>\<open>_bool\<close>: the boolean field of a payload, an error when the payload has no such field.\<close>

definition payload_fields :: "evidence \<Rightarrow> (string, bool) dict" where
  "payload_fields e = (case e of
      Authority_evidence m f \<Rightarrow> [(''mint_authority_active'', m), (''freeze_authority_active'', f)]
    | Launch_evidence b sn \<Rightarrow> [(''bundled_launch'', b), (''sniper_heavy'', sn)]
    | Flow_evidence x a \<Rightarrow> [(''early_buyers_exiting'', x), (''abnormal_sell_pressure'', a)]
    | _ \<Rightarrow> [])"

definition payload_bool :: "evidence \<Rightarrow> string \<Rightarrow> bool result" where
  "payload_bool e key = (case dict_get (payload_fields e) key of
      None \<Rightarrow> Inl (ValueError (''risk evidence missing boolean field '' @ key))
    | Some b \<Rightarrow> Inr b)"

definition thin_liquidity :: "risk_policy \<Rightarrow> evidence \<Rightarrow> bool result" where
  "thin_liquidity p e = (case e of
      Liquidity_evidence liquidity_usd market_cap_usd \<Rightarrow>
        (let thin = (liquidity_usd < rp_min_liquidity_usd p)
         in Inr (case market_cap_usd of
              None \<Rightarrow> thin
            | Some m \<Rightarrow> if m > 0 then thin \<or> liquidity_usd / m < rp_min_liquidity_market_cap_fraction p else thin))
    | _ \<Rightarrow> Inl (KeyError ''liquidity_usd''))"

definition early_wallets :: "evidence \<Rightarrow> string list" where
  "early_wallets e = (case e of
      Funding_evidence wallets \<Rightarrow> fromkeys (filter (\<lambda>w. w \<noteq> []) wallets)
    | _ \<Rightarrow> [])"

definition deployer_of :: "evidence \<Rightarrow> string option" where
  "deployer_of e = (case e of Deployer_evidence d \<Rightarrow> (if truthy d then d else None) | _ \<Rightarrow> None)"

fun common_cluster :: "(string \<Rightarrow> string option) \<Rightarrow> event_store \<Rightarrow> real \<Rightarrow> datetime \<Rightarrow> string list \<Rightarrow> bool" where
  "common_cluster registry s m as_of [] = False"
| "common_cluster registry s m as_of (a # ws) =
     (if list_ex (\<lambda>b. same_entity s m a b as_of (registry a) (registry b)) ws then True
      else common_cluster registry s m as_of ws)"

definition row_payload :: "(risk_dimension, evidence_row) dict \<Rightarrow> risk_dimension \<Rightarrow> evidence" where
  "row_payload rows d = er_payload (the (dict_get rows d))"

definition latest_observed :: "(risk_dimension, evidence_row) dict \<Rightarrow> datetime" where
  "latest_observed rows = Max (set (map er_observed_at (dict_values rows)))"

definition compose_snapshot ::
  "(string \<Rightarrow> string option) \<Rightarrow> event_store \<Rightarrow> risk_policy \<Rightarrow> real \<Rightarrow> datetime \<Rightarrow> string option \<Rightarrow> string option
     \<Rightarrow> (risk_dimension, evidence_row) dict \<Rightarrow> risk_snapshot result" where
  "compose_snapshot registry s p m observed_at scout_wallet scout_entity_id rows =
     bind_result (thin_liquidity p (row_payload rows LIQUIDITY)) (\<lambda>thin.
     (let cluster = common_cluster registry s m observed_at (early_wallets (row_payload rows FUNDING));
          deployer = deployer_of (row_payload rows DEPLOYER);
          scout_deployer = (truthy scout_wallet \<and> truthy deployer \<and>
            same_entity s m (the scout_wallet) (the deployer) observed_at scout_entity_id (registry (the deployer)));
          flow = row_payload rows FLOW; launch = row_payload rows LAUNCH; authority = row_payload rows AUTHORITY
      in bind_result (payload_bool flow ''early_buyers_exiting'') (\<lambda>exiting.
         bind_result (payload_bool launch ''bundled_launch'') (\<lambda>bundled.
         bind_result (payload_bool launch ''sniper_heavy'') (\<lambda>sniper.
         bind_result (payload_bool flow ''abnormal_sell_pressure'') (\<lambda>abnormal.
         bind_result (payload_bool authority ''mint_authority_active'') (\<lambda>mint_active.
         bind_result (if mint_active then Inr True else payload_bool authority ''freeze_authority_active'') (\<lambda>dangerous.
         Inr \<lparr>rs_observed_at = latest_observed rows, early_buyers_exiting = exiting,
           bundled_launch = bundled, sniper_heavy = sniper, abnormal_sell_pressure = abnormal,
           common_funded_early_wallet_cluster = cluster, scout_deployer_connection = scout_deployer,
           dangerous_authority = dangerous, unacceptable_liquidity = thin, stale = False\<rparr>))))))))"

definition risk_snapshot_of ::
  "(string \<Rightarrow> string option) \<Rightarrow> event_store \<Rightarrow> risk_policy \<Rightarrow> real \<Rightarrow> string \<Rightarrow> datetime \<Rightarrow> string option \<Rightarrow> string option
     \<Rightarrow> risk_snapshot option result" where
  "risk_snapshot_of registry s p m mint observed_at scout_wallet scout_entity_id =
     (case latest_complete s p mint observed_at of
        None \<Rightarrow> Inr None
      | Some rows \<Rightarrow> bind_result (compose_snapshot registry s p m observed_at scout_wallet scout_entity_id rows)
                       (\<lambda>snap. Inr (Some snap)))"

record readiness =
  rd_complete :: bool
  rd_fresh :: bool
  rd_present :: "(string, bool) dict"
  rd_fresh_dimensions :: "(string, bool) dict"

definition readiness_of :: "event_store \<Rightarrow> risk_policy \<Rightarrow> string \<Rightarrow> datetime \<Rightarrow> readiness" where
  "readiness_of s p mint as_of =
     (let latest = (\<lambda>d. latest_risk_evidence s mint (dimension_text d) as_of);
          present = map (\<lambda>d. (dimension_text d, latest d \<noteq> None)) REQUIRED_DIMENSIONS;
          fresh = map (\<lambda>d. (dimension_text d, case latest d of
             None \<Rightarrow> False
           | Some raw \<Rightarrow> let age = total_seconds (as_of - er_observed_at raw)
                         in 0 \<le> age \<and> age \<le> max_age p d)) REQUIRED_DIMENSIONS
      in \<lparr>rd_complete = list_all id (dict_values present), rd_fresh = list_all id (dict_values fresh),
          rd_present = present, rd_fresh_dimensions = fresh\<rparr>)"

subsection \<open>Components are connected components\<close>

definition link_rel :: "event_store \<Rightarrow> real \<Rightarrow> datetime \<Rightarrow> (string \<times> string) set" where
  "link_rel s m t = {(a, b). \<exists>r\<in>set (es_entity_links s). lk_received_at r \<le> t \<and> m \<le> lk_confidence r
     \<and> (lk_wallet_a r = a \<and> lk_wallet_b r = b \<or> lk_wallet_a r = b \<and> lk_wallet_b r = a)}"

lemma link_rel_sym: "(a, b) \<in> link_rel s m t \<Longrightarrow> (b, a) \<in> link_rel s m t"
  by (auto simp: link_rel_def)

lemma linked_sym: "(a, b) \<in> (link_rel s m t)\<^sup>* \<Longrightarrow> (b, a) \<in> (link_rel s m t)\<^sup>*"
  by (induction rule: rtrancl_induct) (auto intro: link_rel_sym converse_rtrancl_into_rtrancl)

lemma neighbors_rel: "other_wallet w ` set (entity_neighbors s w t m) = {b. (w, b) \<in> link_rel s m t}"
proof (intro set_eqI iffI)
  fix b assume "b \<in> other_wallet w ` set (entity_neighbors s w t m)"
  then obtain r where r: "r \<in> set (entity_neighbors s w t m)" and b: "b = other_wallet w r" by blast
  then have "lk_wallet_a r = w \<and> lk_wallet_b r = b \<or> lk_wallet_a r = b \<and> lk_wallet_b r = w"
    by (simp add: other_wallet_def neighbor_iff) argo
  with r show "b \<in> {b. (w, b) \<in> link_rel s m t}" unfolding link_rel_def neighbor_iff by blast
next
  fix b assume "b \<in> {b. (w, b) \<in> link_rel s m t}"
  then obtain r where "r \<in> set (es_entity_links s)" "lk_received_at r \<le> t" "m \<le> lk_confidence r"
    and ends: "lk_wallet_a r = w \<and> lk_wallet_b r = b \<or> lk_wallet_a r = b \<and> lk_wallet_b r = w"
    unfolding link_rel_def by blast
  then have "r \<in> set (entity_neighbors s w t m)" by (auto simp: neighbor_iff)
  moreover have "other_wallet w r = b" using ends by (auto simp: other_wallet_def)
  ultimately show "b \<in> other_wallet w ` set (entity_neighbors s w t m)" by blast
qed

lemma component_loop_reaches:
  assumes "set pending \<subseteq> set seen" and "start \<in> set seen"
    and "\<forall>x\<in>set seen. (start, x) \<in> (link_rel s m t)\<^sup>*"
    and "\<forall>x\<in>set seen - set pending. \<forall>y. (x, y) \<in> link_rel s m t \<longrightarrow> y \<in> set seen"
  shows "set (component_loop s t m seen pending) = {x. (start, x) \<in> (link_rel s m t)\<^sup>*}"
  using assms
proof (induction s t m seen pending rule: component_loop.induct)
  case (1 s t m seen pending)
  show ?case
  proof (cases "pending = []")
    case True
    have "y \<in> set seen" if "(start, y) \<in> (link_rel s m t)\<^sup>*" for y
      using that 1(3,5) True by (induction rule: rtrancl_induct) auto
    with 1(4) True show ?thesis by (auto simp: component_loop.simps)
  next
    case False
    define w where "w = last pending"
    obtain seen' pending' where p: "push_unseen w (entity_neighbors s w t m) (seen, butlast pending) = (seen', pending')"
      by fastforce
    obtain new where new: "pending' = butlast pending @ new" "set seen' = set seen \<union> set new"
      "set seen \<union> set new = set seen \<union> {b. (w, b) \<in> link_rel s m t}"
      using push_unseen_split [of w "entity_neighbors s w t m" seen "butlast pending"] p neighbors_rel by auto
    have w: "w \<in> set seen" using False 1(2) by (auto simp: w_def)
    have split: "set pending = insert w (set (butlast pending))"
      using False append_butlast_last_id [of pending] unfolding w_def by (metis list.set(2) rotate1.simps(2) set_rotate1)
    have "set (component_loop s t m seen' pending') = {x. (start, x) \<in> (link_rel s m t)\<^sup>*}"
    proof (rule 1(1) [OF False w_def p [symmetric, unfolded w_def, folded w_def] refl])
      show "set pending' \<subseteq> set seen'" using 1(2) new split by auto
      show "start \<in> set seen'" using 1(3) new by simp
      show "\<forall>x\<in>set seen'. (start, x) \<in> (link_rel s m t)\<^sup>*"
        using 1(4) w new(2,3) by (auto intro: rtrancl_into_rtrancl)
      show "\<forall>x\<in>set seen' - set pending'. \<forall>y. (x, y) \<in> link_rel s m t \<longrightarrow> y \<in> set seen'"
      proof (intro ballI allI impI)
        fix x y assume x: "x \<in> set seen' - set pending'" and xy: "(x, y) \<in> link_rel s m t"
        then have "x \<in> set seen" "x \<notin> set (butlast pending)" using new(1,2) by auto
        then consider "x = w" | "x \<in> set seen - set pending" using split by auto
        then show "y \<in> set seen'"
        proof cases
          case 1
          with xy have "y \<in> {b. (w, b) \<in> link_rel s m t}" by simp
          with new(2,3) show ?thesis by blast
        next
          case 2
          with xy "1.prems"(4) new(2) show ?thesis by blast
        qed
      qed
    qed
    with False p show ?thesis by (simp add: component_loop.simps [of s t m seen pending] w_def)
  qed
qed

lemma component_eq: "component s m w t = {x. (w, x) \<in> (link_rel s m t)\<^sup>*}"
  unfolding component_def by (rule component_loop_reaches) simp_all

subsection \<open>What the snapshot rests on\<close>

definition fresh_row :: "event_store \<Rightarrow> risk_policy \<Rightarrow> string \<Rightarrow> datetime \<Rightarrow> risk_dimension \<Rightarrow> bool" where
  "fresh_row s p mint t d \<longleftrightarrow> (\<exists>r. latest_risk_evidence s mint (dimension_text d) t = Some r
     \<and> 0 \<le> total_seconds (t - er_observed_at r) \<and> total_seconds (t - er_observed_at r) \<le> max_age p d)"

definition latest_row :: "event_store \<Rightarrow> string \<Rightarrow> datetime \<Rightarrow> risk_dimension \<Rightarrow> evidence_row" where
  "latest_row s mint t d = the (latest_risk_evidence s mint (dimension_text d) t)"

lemma latest_loop_iff:
  assumes "distinct ds" and "\<forall>d\<in>set ds. dict_get acc d = None"
  shows "latest_loop s p mint t ds acc = Some rows \<longleftrightarrow>
    (\<forall>d\<in>set ds. fresh_row s p mint t d) \<and> rows = acc @ map (\<lambda>d. (d, latest_row s mint t d)) ds"
  using assms
proof (induction ds arbitrary: acc)
  case (Cons d ds)
  show ?case
  proof (cases "latest_risk_evidence s mint (dimension_text d) t")
    case None
    then show ?thesis by (simp add: fresh_row_def)
  next
    case (Some r)
    have "\<forall>d'\<in>set ds. dict_get (acc @ [(d, r)]) d' = None"
      using Cons.prems by (auto simp: dict_get_eq_None)
    moreover have "dict_set d r acc = acc @ [(d, r)]" using Cons.prems by (simp add: dict_set_fresh)
    ultimately show ?thesis
      using Cons Some by (auto simp: fresh_row_def latest_row_def Let_def not_less)
  qed
qed auto

lemma all_dimensions: "(\<forall>d\<in>set REQUIRED_DIMENSIONS. P d) \<longleftrightarrow> (\<forall>d. P d)"
  by (auto simp: REQUIRED_DIMENSIONS_def) (metis risk_dimension.exhaust)

lemma latest_complete_iff:
  "latest_complete s p mint t = Some rows \<longleftrightarrow>
     (\<forall>d. fresh_row s p mint t d) \<and> rows = map (\<lambda>d. (d, latest_row s mint t d)) REQUIRED_DIMENSIONS"
  unfolding latest_complete_def all_dimensions [symmetric]
  by (subst latest_loop_iff) (simp_all add: REQUIRED_DIMENSIONS_def)

lemma readiness_fresh_iff: "rd_fresh (readiness_of s p mint t) \<longleftrightarrow> (\<forall>d. fresh_row s p mint t d)"
  unfolding all_dimensions [symmetric]
  by (auto simp: readiness_of_def Let_def dict_values_def list_all_iff fresh_row_def split: option.splits)

lemma sorted_last:
  fixes ks :: "'a::linorder list"
  shows "sorted ks \<Longrightarrow> k \<in> set ks \<Longrightarrow> k \<le> last ks"
  by (induction ks) (auto split: if_splits)

lemma latest_risk_evidence_Some:
  assumes "latest_risk_evidence s mint dimension t = Some r"
  shows "r \<in> set (es_risk_evidence s) \<and> er_token_mint r = mint \<and> er_dimension r = dimension \<and> er_received_at r \<le> t
    \<and> (\<forall>q\<in>set (es_risk_evidence s). er_token_mint q = mint \<and> er_dimension q = dimension \<and> er_received_at q \<le> t
         \<longrightarrow> er_observed_at q \<le> er_observed_at r)"
proof -
  let ?xs = "filter (\<lambda>r. er_token_mint r = mint \<and> er_dimension r = dimension \<and> er_received_at r \<le> t) (es_risk_evidence s)"
  let ?k = "\<lambda>r :: evidence_row. (er_observed_at r, er_id r)"
  have ne: "sort_key ?k ?xs \<noteq> []" and r: "r = last (sort_key ?k ?xs)"
    using assms by (auto simp: latest_risk_evidence_def Let_def split: if_splits)
  have mem: "r \<in> set ?xs" using last_in_set [OF ne] r by (simp only: set_sort)
  have "?k q \<le> ?k r" if "q \<in> set ?xs" for q
  proof -
    have "last (map ?k (sort_key ?k ?xs)) = ?k r" using ne r by (simp add: last_map)
    moreover have "?k q \<in> set (map ?k (sort_key ?k ?xs))" using that by simp
    ultimately show ?thesis using sorted_last [OF sorted_sort_key [of ?k ?xs], of "?k q"] by simp
  qed
  then have "er_observed_at q \<le> er_observed_at r" if "q \<in> set ?xs" for q
    using that by (force simp: less_eq_prod_def)
  with mem show ?thesis by auto
qed

text \<open>Pairs drawn from a list with a new head, for a symmetric relation.\<close>

lemma ex_pair_Cons:
  assumes "w \<notin> A" and "\<And>a b. R a b = R b a"
  shows "(\<exists>a\<in>insert w A. \<exists>b\<in>insert w A. a \<noteq> b \<and> R a b)
    \<longleftrightarrow> (\<exists>b\<in>A. R w b) \<or> (\<exists>a\<in>A. \<exists>b\<in>A. a \<noteq> b \<and> R a b)" (is "?l \<longleftrightarrow> ?r")
proof
  assume ?l
  then obtain a b where ab: "a \<in> insert w A" "b \<in> insert w A" "a \<noteq> b" "R a b" by blast
  then show ?r
  proof (cases "b = w")
    case True
    with ab assms(2) [of a b] show ?thesis by auto
  next
    case False
    with ab show ?thesis by auto
  qed
next
  assume ?r
  with assms(1) show ?l by auto
qed

text \<open>A store that later receives more evidence and links, all after time \<open>t\<close>.\<close>

definition extends_after :: "datetime \<Rightarrow> event_store \<Rightarrow> event_store \<Rightarrow> bool" where
  "extends_after t s s' \<longleftrightarrow>
     (\<exists>ev. es_risk_evidence s' = es_risk_evidence s @ ev \<and> list_all (\<lambda>r. t < er_received_at r) ev)
   \<and> (\<exists>lk. es_entity_links s' = es_entity_links s @ lk \<and> list_all (\<lambda>r. t < lk_received_at r) lk)"

lemma latest_extends:
  assumes "extends_after t s s'"
  shows "latest_risk_evidence s' mint dimension t = latest_risk_evidence s mint dimension t"
proof -
  obtain ev where "es_risk_evidence s' = es_risk_evidence s @ ev" "list_all (\<lambda>r. t < er_received_at r) ev"
    using assms by (auto simp: extends_after_def)
  moreover from this have "filter (\<lambda>r. er_token_mint r = mint \<and> er_dimension r = dimension \<and> er_received_at r \<le> t) ev = []"
    by (auto simp: list_all_iff filter_empty_conv)
  ultimately show ?thesis by (simp add: latest_risk_evidence_def)
qed

lemma component_extends:
  assumes "extends_after t s s'"
  shows "component s' m w t = component s m w t"
proof -
  obtain lk where "es_entity_links s' = es_entity_links s @ lk" "list_all (\<lambda>r. t < lk_received_at r) lk"
    using assms by (auto simp: extends_after_def)
  then have "link_rel s' m t = link_rel s m t"
    by (auto simp: link_rel_def list_all_iff not_le)
  then show ?thesis by (simp add: component_eq)
qed

lemma same_entity_extends: "extends_after t s s' \<Longrightarrow> same_entity s' m a b t = same_entity s m a b t"
  by (intro ext) (simp add: same_entity_def component_extends)

lemma common_cluster_extends: "extends_after t s s' \<Longrightarrow> common_cluster reg s' m t ws = common_cluster reg s m t ws"
  by (induction ws) (simp_all add: same_entity_extends)

lemma same_entity_sym: "same_entity s m a b t x y = same_entity s m b a t y x"
  by (auto simp: same_entity_def component_eq dest: linked_sym)

lemma common_cluster_iff:
  "distinct ws \<Longrightarrow> common_cluster reg s m t ws \<longleftrightarrow>
     (\<exists>a\<in>set ws. \<exists>b\<in>set ws. a \<noteq> b \<and> same_entity s m a b t (reg a) (reg b))"
proof (induction ws)
  case (Cons w ws)
  have sym: "same_entity s m a b t (reg a) (reg b) = same_entity s m b a t (reg b) (reg a)" for a b
    by (rule same_entity_sym)
  from Cons show ?case
    using ex_pair_Cons [of w "set ws" "\<lambda>a b. same_entity s m a b t (reg a) (reg b)", OF _ sym]
    by (simp add: list_ex_iff)
qed simp

subsection \<open>Properties\<close>

text \<open>C38. The wallets collected from one wallet are exactly those connected to it by links that
  were received by then with enough confidence. Members of one component have the same
  component and, without a fallback, the same entity id; without a fallback two wallets are
  the same entity exactly when they are connected.\<close>

theorem component_is_connected:
  "component s m w t = {x. (w, x) \<in> (link_rel s m t)\<^sup>*}
   \<and> (x \<in> component s m w t \<longrightarrow> component s m x t = component s m w t
        \<and> entity_id_for reg s m x None t = entity_id_for reg s m w None t)
   \<and> same_entity s m w x t None None = (x \<in> component s m w t)"
proof -
  have "component s m x t = component s m w t" if "x \<in> component s m w t"
    using that unfolding component_eq by (auto intro: rtrancl_trans linked_sym)
  then show ?thesis
    by (auto simp: component_eq entity_id_for_def same_entity_def truthy_def)
qed

definition demo_risk_store :: event_store where
  "demo_risk_store = snd (record_entity_link ''w1'' ''w2'' ''funded_by'' 1 0 0 ''src'' empty_event_store)"

theorem component_is_connected_witness:
  "entity_id_for (\<lambda>w. if w = ''w2'' then Some ''E'' else None) demo_risk_store (95 / 100) ''w2'' None 10
     = entity_id_for (\<lambda>w. if w = ''w2'' then Some ''E'' else None) demo_risk_store (95 / 100) ''w1'' None 10"
proof -
  have "(''w1'', ''w2'') \<in> link_rel demo_risk_store (95 / 100) 10"
    by (simp add: link_rel_def demo_risk_store_def record_entity_link_def empty_event_store_def Let_def min_def max_def)
  then have "''w2'' \<in> component demo_risk_store (95 / 100) ''w1'' 10" by (auto simp: component_eq)
  with component_is_connected [of demo_risk_store "95 / 100" "''w1''" 10 "''w2''"] show ?thesis by blast
qed

text \<open>No look-ahead: a snapshot for a decision time is the same, errors included, whatever
  evidence and links the store receives after that time.\<close>

theorem snapshot_no_lookahead:
  assumes "extends_after t s s'"
  shows "risk_snapshot_of reg s' p m mint t scout scout_entity = risk_snapshot_of reg s p m mint t scout scout_entity"
proof -
  have "latest_complete s' p mint t = latest_complete s p mint t"
    unfolding latest_complete_def
  proof -
    show "latest_loop s' p mint t ds acc = latest_loop s p mint t ds acc" for ds acc
      by (induction ds arbitrary: acc) (simp_all add: latest_extends [OF assms] Let_def split: option.splits)
  qed
  moreover have "compose_snapshot reg s' p m t scout scout_entity rows = compose_snapshot reg s p m t scout scout_entity rows" for rows
    by (simp add: compose_snapshot_def common_cluster_extends [OF assms] same_entity_extends [OF assms])
  ultimately show ?thesis by (simp add: risk_snapshot_of_def split: option.split)
qed

theorem snapshot_no_lookahead_witness:
  "risk_snapshot_of (\<lambda>_. None) (snd (record_entity_link ''w1'' ''w3'' ''funded_by'' 1 20 20 ''src'' demo_risk_store))
      DEFAULT_POLICY (95 / 100) ''M'' 10 (Some ''w1'') None
    = risk_snapshot_of (\<lambda>_. None) demo_risk_store DEFAULT_POLICY (95 / 100) ''M'' 10 (Some ''w1'') None"
  by (rule snapshot_no_lookahead)
    (simp add: extends_after_def record_entity_link_def demo_risk_store_def empty_event_store_def Let_def)

lemma snapshot_rows:
  assumes "risk_snapshot_of reg s p m mint t scout scout_entity = Inr (Some snap)"
  shows "(\<forall>d. fresh_row s p mint t d) \<and>
    compose_snapshot reg s p m t scout scout_entity (map (\<lambda>d. (d, latest_row s mint t d)) REQUIRED_DIMENSIONS) = Inr snap"
proof -
  obtain rows where rows: "latest_complete s p mint t = Some rows"
    and comp: "compose_snapshot reg s p m t scout scout_entity rows = Inr snap"
    using assms by (auto simp: risk_snapshot_of_def bind_result_Inr_iff split: option.splits)
  from rows [unfolded latest_complete_iff] comp show ?thesis by simp
qed

lemma composed_fields:
  assumes "compose_snapshot reg s p m t scout scout_entity rows = Inr snap"
  shows "rs_observed_at snap = latest_observed rows" "\<not> stale snap"
    "common_funded_early_wallet_cluster snap = common_cluster reg s m t (early_wallets (row_payload rows FUNDING))"
    "scout_deployer_connection snap \<longleftrightarrow> (let deployer = deployer_of (row_payload rows DEPLOYER) in
       truthy scout \<and> truthy deployer \<and> same_entity s m (the scout) (the deployer) t scout_entity (reg (the deployer)))"
  using assms by (auto simp: compose_snapshot_def bind_result_Inr_iff Let_def)

lemma required_get:
  "dict_get (map (\<lambda>d. (d, f d)) REQUIRED_DIMENSIONS) d = Some (f d)"
  by (cases d) (simp_all add: REQUIRED_DIMENSIONS_def)

text \<open>C29. A snapshot is withheld exactly when readiness is not fresh. A snapshot that is given is
  never marked stale, and each dimension of it rests on a row for the token that was received
  by the decision time, is the newest observation known by then, lies within the dimension's
  age limit, and is not newer than the snapshot's own observation time, which is not in the
  future.\<close>

theorem snapshot_rests_on_fresh_evidence:
  "(risk_snapshot_of reg s p m mint t scout scout_entity \<noteq> Inr None \<longleftrightarrow> rd_fresh (readiness_of s p mint t))
   \<and> (risk_snapshot_of reg s p m mint t scout scout_entity = Inr (Some snap) \<longrightarrow>
        \<not> stale snap \<and> rs_observed_at snap \<le> t
      \<and> (\<forall>d. \<exists>r\<in>set (es_risk_evidence s). er_token_mint r = mint \<and> er_dimension r = dimension_text d
           \<and> er_received_at r \<le> t \<and> total_seconds (t - er_observed_at r) \<le> max_age p d
           \<and> er_observed_at r \<le> rs_observed_at snap
           \<and> (\<forall>q\<in>set (es_risk_evidence s). er_token_mint q = mint \<and> er_dimension q = dimension_text d
                \<and> er_received_at q \<le> t \<longrightarrow> er_observed_at q \<le> er_observed_at r)))"
proof (intro conjI impI)
  show "risk_snapshot_of reg s p m mint t scout scout_entity \<noteq> Inr None \<longleftrightarrow> rd_fresh (readiness_of s p mint t)"
  proof (cases "latest_complete s p mint t")
    case None
    then have "\<not> (\<forall>d. fresh_row s p mint t d)" using latest_complete_iff [of s p mint t] by fastforce
    with None show ?thesis by (simp add: risk_snapshot_of_def readiness_fresh_iff)
  next
    case (Some rows)
    then have "\<forall>d. fresh_row s p mint t d" using latest_complete_iff [of s p mint t] by blast
    with Some show ?thesis
      by (auto simp: risk_snapshot_of_def readiness_fresh_iff bind_result_def split: sum.splits)
  qed
next
  assume snap: "risk_snapshot_of reg s p m mint t scout scout_entity = Inr (Some snap)"
  let ?rows = "map (\<lambda>d. (d, latest_row s mint t d)) REQUIRED_DIMENSIONS"
  have fresh: "\<And>d. fresh_row s p mint t d" and comp: "compose_snapshot reg s p m t scout scout_entity ?rows = Inr snap"
    using snapshot_rows [OF snap] by simp_all
  note fields = composed_fields [OF comp]
  have obs: "rs_observed_at snap = Max ((\<lambda>d. er_observed_at (latest_row s mint t d)) ` UNIV)"
  proof -
    have "set REQUIRED_DIMENSIONS = UNIV" using all_dimensions [of "\<lambda>d. d \<in> set REQUIRED_DIMENSIONS"] by auto
    then show ?thesis
      by (simp add: fields(1) latest_observed_def dict_values_def comp_def image_image)
  qed
  have fin: "finite (UNIV :: risk_dimension set)"
    using all_dimensions [of "\<lambda>d. d \<in> set REQUIRED_DIMENSIONS"] by (auto intro: finite_subset [of _ "set REQUIRED_DIMENSIONS"])
  have row: "latest_risk_evidence s mint (dimension_text d) t = Some (latest_row s mint t d)
      \<and> 0 \<le> total_seconds (t - er_observed_at (latest_row s mint t d))
      \<and> total_seconds (t - er_observed_at (latest_row s mint t d)) \<le> max_age p d" for d
    using fresh [of d] by (auto simp: fresh_row_def latest_row_def)
  have le: "er_observed_at (latest_row s mint t d) \<le> t" for d
    using row [of d] by (simp add: total_seconds_def)
  show "\<not> stale snap" by (rule fields(2))
  show "rs_observed_at snap \<le> t" using le fin by (simp add: obs)
  show "\<forall>d. \<exists>r\<in>set (es_risk_evidence s). er_token_mint r = mint \<and> er_dimension r = dimension_text d
      \<and> er_received_at r \<le> t \<and> total_seconds (t - er_observed_at r) \<le> max_age p d
      \<and> er_observed_at r \<le> rs_observed_at snap
      \<and> (\<forall>q\<in>set (es_risk_evidence s). er_token_mint q = mint \<and> er_dimension q = dimension_text d
           \<and> er_received_at q \<le> t \<longrightarrow> er_observed_at q \<le> er_observed_at r)"
  proof
    fix d
    have "er_observed_at (latest_row s mint t d) \<le> rs_observed_at snap" using fin by (simp add: obs)
    with row [of d] latest_risk_evidence_Some [of s mint "dimension_text d" t "latest_row s mint t d"]
    show "\<exists>r\<in>set (es_risk_evidence s). er_token_mint r = mint \<and> er_dimension r = dimension_text d
      \<and> er_received_at r \<le> t \<and> total_seconds (t - er_observed_at r) \<le> max_age p d
      \<and> er_observed_at r \<le> rs_observed_at snap
      \<and> (\<forall>q\<in>set (es_risk_evidence s). er_token_mint q = mint \<and> er_dimension q = dimension_text d
           \<and> er_received_at q \<le> t \<longrightarrow> er_observed_at q \<le> er_observed_at r)" by blast
  qed
qed

text \<open>In a given snapshot the cluster flag is set exactly when two different early buyers have
  the same registered entity or are connected by links, and the deployer flag exactly when
  the scout is the deployer, shares its registered entity, or is connected to it.\<close>

theorem snapshot_entity_flags:
  assumes "risk_snapshot_of reg s p m mint t scout scout_entity = Inr (Some snap)"
    and "wallets = set (early_wallets (er_payload (latest_row s mint t FUNDING)))"
    and "same = (\<lambda>a b x y. (\<exists>e. e \<noteq> [] \<and> x = Some e \<and> y = Some e) \<or> (a, b) \<in> (link_rel s m t)\<^sup>*)"
  shows "(common_funded_early_wallet_cluster snap \<longleftrightarrow>
       (\<exists>a b. a \<in> wallets \<and> b \<in> wallets \<and> a \<noteq> b \<and> same a b (reg a) (reg b)))
    \<and> (scout_deployer_connection snap \<longleftrightarrow>
       (\<exists>w d. scout = Some w \<and> w \<noteq> [] \<and> deployer_of (er_payload (latest_row s mint t DEPLOYER)) = Some d
          \<and> same w d scout_entity (reg d)))"
proof -
  let ?rows = "map (\<lambda>d. (d, latest_row s mint t d)) REQUIRED_DIMENSIONS"
  have comp: "compose_snapshot reg s p m t scout scout_entity ?rows = Inr snap"
    using snapshot_rows [OF assms(1)] by simp
  have entity: "same_entity s m a b t x y \<longleftrightarrow> same a b x y" for a b x y
    by (auto simp: same_entity_def truthy_def assms(3) component_eq)
  have "distinct (early_wallets e)" for e by (simp add: early_wallets_def split: evidence.splits)
  then have "common_funded_early_wallet_cluster snap \<longleftrightarrow>
      (\<exists>a\<in>wallets. \<exists>b\<in>wallets. a \<noteq> b \<and> same a b (reg a) (reg b))"
    using composed_fields(3) [OF comp] by (simp add: common_cluster_iff row_payload_def required_get assms(2) entity)
  moreover have "truthy (deployer_of e) \<longleftrightarrow> deployer_of e \<noteq> None" for e
    by (auto simp: deployer_of_def truthy_def split: evidence.splits)
  then have "scout_deployer_connection snap \<longleftrightarrow>
      (\<exists>w d. scout = Some w \<and> w \<noteq> [] \<and> deployer_of (er_payload (latest_row s mint t DEPLOYER)) = Some d
          \<and> same w d scout_entity (reg d))"
    using composed_fields(4) [OF comp]
    by (auto simp: Let_def row_payload_def required_get entity truthy_def)
  ultimately show ?thesis by blast
qed

definition demo_evidence_row :: "risk_dimension \<Rightarrow> evidence \<Rightarrow> evidence_row" where
  "demo_evidence_row d e = \<lparr>er_id = 1, er_token_mint = ''M'', er_dimension = dimension_text d,
     er_observed_at = 0, er_received_at = 0, er_source = ''src'', er_payload = e\<rparr>"

definition demo_evidence_store :: event_store where
  "demo_evidence_store = empty_event_store\<lparr>es_risk_evidence :=
     [demo_evidence_row AUTHORITY (Authority_evidence False False),
      demo_evidence_row LIQUIDITY (Liquidity_evidence 2000 (Some 50000)),
      demo_evidence_row LAUNCH (Launch_evidence False False),
      demo_evidence_row FLOW (Flow_evidence False False),
      demo_evidence_row FUNDING (Funding_evidence [''w1'', ''w2'']),
      demo_evidence_row DEPLOYER (Deployer_evidence None)]\<rparr>"

lemma demo_snapshot:
  "risk_snapshot_of (\<lambda>_. None) demo_evidence_store DEFAULT_POLICY (95 / 100) ''M'' 1 None None
     = Inr (Some (clean_snapshot 0))"
  by (simp add: risk_snapshot_of_def latest_complete_def REQUIRED_DIMENSIONS_def latest_risk_evidence_def
      demo_evidence_store_def empty_event_store_def demo_evidence_row_def total_seconds_def DEFAULT_POLICY_def
      compose_snapshot_def thin_liquidity_def row_payload_def early_wallets_def fromkeys_def deployer_of_def
      truthy_def payload_bool_def payload_fields_def latest_observed_def dict_values_def clean_snapshot_def
      same_entity_def component_def component_loop.simps entity_neighbors_def)

theorem snapshot_rests_on_fresh_evidence_witness:
  "\<not> stale (clean_snapshot 0) \<and> rd_fresh (readiness_of demo_evidence_store DEFAULT_POLICY ''M'' 1)"
  using snapshot_rests_on_fresh_evidence [of "\<lambda>_. None" demo_evidence_store DEFAULT_POLICY "95 / 100" "''M''" 1
      None None "clean_snapshot 0"] demo_snapshot by simp

theorem snapshot_entity_flags_witness:
  "\<not> common_funded_early_wallet_cluster (clean_snapshot 0) \<and>
     (''w1'', ''w2'') \<notin> (link_rel demo_evidence_store (95 / 100) 1)\<^sup>*"
proof -
  have "latest_row demo_evidence_store ''M'' 1 FUNDING = demo_evidence_row FUNDING (Funding_evidence [''w1'', ''w2''])"
    by (simp add: latest_row_def latest_risk_evidence_def demo_evidence_store_def empty_event_store_def demo_evidence_row_def)
  then have w: "early_wallets (er_payload (latest_row demo_evidence_store ''M'' 1 FUNDING)) = [''w1'', ''w2'']"
    by (simp add: demo_evidence_row_def early_wallets_def fromkeys_def)
  have "\<not> common_funded_early_wallet_cluster (clean_snapshot 0)" by (simp add: clean_snapshot_def)
  with snapshot_entity_flags [OF demo_snapshot refl refl] w show ?thesis by fastforce
qed

end
