(* ===== verification/Refinement.thy ===== *)
theory Refinement
  imports Lanes "HOL-Library.Multiset" "HOL-Library.Product_Lexorder" "HOL-Library.List_Lexorder" "HOL-Library.Char_ord"
begin

text \<open>
  The final refinement layer of the v5.2 challenger (\<open>v52_final_refinement.py\<close>): expiring
  continuation epochs, state hysteresis, velocity-sensitive quote freshness, stressed exit
  capacity, flow-to-price response, competition for portfolio capital, and the alpha-loss
  curve. Numeric arguments arrive as \<open>py_number\<close> and pass the validators of the module; the
  power \<open>0.5 ** x\<close> is \<open>powr\<close>.
\<close>

definition DYNAMIC_QUOTE_CALM_MAX_SECONDS :: real where "DYNAMIC_QUOTE_CALM_MAX_SECONDS = 8"
definition DYNAMIC_QUOTE_FLOOR_SECONDS :: real where "DYNAMIC_QUOTE_FLOOR_SECONDS = 3 / 4"
definition ALPHA_LOSS_DELAYS_SECONDS :: "nat list" where
  "ALPHA_LOSS_DELAYS_SECONDS = [1, 2, 5, 10, 20, 30, 60]"

subsection \<open>Validators\<close>

fun finite_field :: "py_number \<Rightarrow> string \<Rightarrow> real result" where
  "finite_field (Number x) field = Inr x"
| "finite_field _ field = Inl (ValueError (field @ ''_invalid''))"

definition nonnegative_field :: "py_number \<Rightarrow> string \<Rightarrow> real result" where
  "nonnegative_field v field = bind_result (finite_field v field) (\<lambda>x.
     if x < 0 then Inl (ValueError (field @ ''_invalid'')) else Inr x)"

definition fraction_field :: "py_number \<Rightarrow> string \<Rightarrow> real result" where
  "fraction_field v field = bind_result (nonnegative_field v field) (\<lambda>x.
     if x > 1 then Inl (ValueError (field @ ''_invalid'')) else Inr x)"

definition required_text :: "string \<Rightarrow> string \<Rightarrow> string result" where
  "required_text v field = (let text = strip v in
     if text = [] then Inl (ValueError (field @ ''_missing'')) else Inr text)"

definition clamp01 :: "real \<Rightarrow> real" where
  "clamp01 v = max 0 (min 1 v)"

lemma finite_field_Inr [simp]: "finite_field v field = Inr x \<longleftrightarrow> v = Number x"
  by (cases v) auto

lemma nonnegative_field_Inr [simp]: "nonnegative_field v field = Inr x \<longleftrightarrow> v = Number x \<and> 0 \<le> x"
  by (cases v) (auto simp: nonnegative_field_def)

lemma fraction_field_Inr [simp]: "fraction_field v field = Inr x \<longleftrightarrow> v = Number x \<and> 0 \<le> x \<and> x \<le> 1"
  by (cases v) (auto simp: fraction_field_def nonnegative_field_def)

subsection \<open>Continuation epochs\<close>

record derived_signal =
  sg_name :: string
  sg_value :: py_number
  sg_confidence :: py_number
  sg_freshness_seconds :: py_number
  sg_provenance :: "string list"

text \<open>\<open>DerivedSignal.validated\<close>; its result carries the converted numbers.\<close>

record valid_signal =
  vs_name :: string
  vs_value :: real
  vs_confidence :: real
  vs_freshness_seconds :: real
  vs_provenance :: "string list"

definition validate_signal :: "derived_signal \<Rightarrow> valid_signal result" where
  "validate_signal g =
     bind_result (required_text (sg_name g) ''signal_name'') (\<lambda>name.
     bind_result (finite_field (sg_value g) ''signal_value'') (\<lambda>v.
     bind_result (fraction_field (sg_confidence g) ''signal_confidence'') (\<lambda>confidence.
     bind_result (nonnegative_field (sg_freshness_seconds g) ''signal_freshness_seconds'') (\<lambda>freshness.
     if sg_provenance g = [] then Inl (ValueError ''signal_provenance_missing'')
     else bind_result (traverse (\<lambda>item. required_text item ''signal_provenance'') (sg_provenance g)) (\<lambda>items.
       Inr \<lparr>vs_name = strip (sg_name g), vs_value = v, vs_confidence = confidence,
            vs_freshness_seconds = freshness, vs_provenance = fromkeys items\<rparr>)))))"

record continuation_epoch =
  ep_candidate_id :: string
  ep_epoch_id :: string
  ep_created_at_seconds :: py_number
  ep_reference_price :: py_number
  ep_evidence :: "derived_signal list"
  ep_half_life_seconds :: py_number
  ep_expiry_seconds :: py_number

record epoch_assessment =
  ea_epoch_id :: string
  ea_age_seconds :: real
  ea_active :: bool
  ea_expired :: bool
  ea_decayed_confidence :: real
  ea_new_epoch_required :: bool
  ea_reason :: string

text \<open>\<open>ContinuationEpoch.validated\<close>: the creation time, half life, expiry and signals as numbers.\<close>

definition validate_epoch :: "continuation_epoch \<Rightarrow> (real \<times> real \<times> real \<times> valid_signal list) result" where
  "validate_epoch ep =
     bind_result (required_text (ep_candidate_id ep) ''candidate_id'') (\<lambda>_.
     bind_result (required_text (ep_epoch_id ep) ''epoch_id'') (\<lambda>_.
     bind_result (nonnegative_field (ep_created_at_seconds ep) ''created_at_seconds'') (\<lambda>created.
     bind_result (finite_field (ep_reference_price ep) ''reference_price'') (\<lambda>price.
     if price \<le> 0 then Inl (ValueError ''reference_price_invalid'') else
     bind_result (nonnegative_field (ep_half_life_seconds ep) ''half_life_seconds'') (\<lambda>half_life.
     bind_result (nonnegative_field (ep_expiry_seconds ep) ''expiry_seconds'') (\<lambda>expiry.
     if half_life \<le> 0 \<or> expiry \<le> 0 then Inl (ValueError ''epoch_decay_invalid'')
     else if ep_evidence ep = [] then Inl (ValueError ''epoch_evidence_missing'')
     else bind_result (traverse validate_signal (ep_evidence ep)) (\<lambda>signals.
       Inr (created, half_life, expiry, signals))))))))"

definition mean_of :: "real list \<Rightarrow> real" where
  "mean_of xs = sum_list xs / real (length xs)"

definition decayed_confidence :: "real \<Rightarrow> valid_signal list \<Rightarrow> real \<Rightarrow> real" where
  "decayed_confidence half_life signals age =
     (let raw_confidence = mean_of (map vs_confidence signals);
          freshness_penalty = mean_of (map (\<lambda>g. (1 / 2) powr (vs_freshness_seconds g / half_life)) signals);
          age_penalty = (1 / 2) powr (age / half_life)
      in clamp01 (raw_confidence * freshness_penalty * age_penalty))"

definition assess_continuation_epoch :: "continuation_epoch \<Rightarrow> py_number \<Rightarrow> epoch_assessment result" where
  "assess_continuation_epoch ep now_seconds =
     bind_result (validate_epoch ep) (\<lambda>(created, half_life, expiry, signals).
     bind_result (nonnegative_field now_seconds ''now_seconds'') (\<lambda>now.
     (let age = max 0 (now - created);
          decayed = decayed_confidence half_life signals age;
          expired = (age > expiry)
      in Inr \<lparr>ea_epoch_id = ep_epoch_id ep, ea_age_seconds = age, ea_active = (\<not> expired),
           ea_expired = expired, ea_decayed_confidence = (if expired then 0 else decayed),
           ea_new_epoch_required = expired,
           ea_reason = (if expired then ''continuation_epoch_expired_new_evidence_required''
                        else ''continuation_epoch_active'')\<rparr>)))"

subsection \<open>State hysteresis\<close>

definition state_rank :: "string \<Rightarrow> nat option" where
  "state_rank st = dict_get [(''developing'', 0), (''pre_actionable'', 1), (''actionable'', 2)] st"

record lifecycle_transition =
  lt_previous_state :: string
  lt_proposed_state :: string
  lt_resulting_state :: string
  lt_transition_applied :: bool
  lt_entry_consideration_allowed :: bool
  lt_confirmation_count :: int
  lt_reason :: string

definition apply_state_hysteresis ::
  "string \<Rightarrow> string \<Rightarrow> int \<Rightarrow> string \<Rightarrow> string option \<Rightarrow> int \<Rightarrow> bool \<Rightarrow> lifecycle_transition result" where
  "apply_state_hysteresis previous_state proposed_state confirmation_count signal_fingerprint
       last_entry_signal_fingerprint required hard_structural_deterioration =
     bind_result (required_text previous_state ''previous_state'') (\<lambda>previous.
     bind_result (required_text proposed_state ''proposed_state'') (\<lambda>proposed.
     case (state_rank previous, state_rank proposed) of
       (Some rank_previous, Some rank_proposed) \<Rightarrow>
         if confirmation_count < 0 \<or> required \<le> 0 then Inl (ValueError ''confirmation_count_invalid'')
         else bind_result (required_text signal_fingerprint ''signal_fingerprint'') (\<lambda>fingerprint.
           if hard_structural_deterioration then
             (let resulting = (if rank_proposed < rank_previous then proposed else ''developing'')
              in Inr \<lparr>lt_previous_state = previous, lt_proposed_state = proposed,
                   lt_resulting_state = resulting, lt_transition_applied = (resulting \<noteq> previous),
                   lt_entry_consideration_allowed = False, lt_confirmation_count = confirmation_count,
                   lt_reason = ''hard_structural_deterioration_immediate_demotion''\<rparr>)
           else
             (let improving = (rank_proposed > rank_previous);
                  deteriorating = (rank_proposed < rank_previous)
              in if improving \<and> confirmation_count < required then
                   Inr \<lparr>lt_previous_state = previous, lt_proposed_state = proposed,
                     lt_resulting_state = previous, lt_transition_applied = False,
                     lt_entry_consideration_allowed = False, lt_confirmation_count = confirmation_count,
                     lt_reason = ''improvement_waiting_for_corroboration''\<rparr>
                 else
                   (let resulting = (if improving \<or> deteriorating then proposed else previous);
                        duplicate = (resulting = ''actionable''
                          \<and> fingerprint = or_default last_entry_signal_fingerprint []);
                        allowed = (resulting = ''actionable'' \<and> \<not> duplicate)
                    in Inr \<lparr>lt_previous_state = previous, lt_proposed_state = proposed,
                         lt_resulting_state = resulting, lt_transition_applied = (resulting \<noteq> previous),
                         lt_entry_consideration_allowed = allowed, lt_confirmation_count = confirmation_count,
                         lt_reason = (if duplicate then ''duplicate_marginal_signal_suppressed''
                           else if resulting \<noteq> previous then ''transition_confirmed''
                           else ''state_held'')\<rparr>)))
     | _ \<Rightarrow> Inl (ValueError ''lifecycle_state_unsupported'')))"

subsection \<open>Quote freshness and exit capacity\<close>

record quote_freshness =
  qf_dynamic_max_age_seconds :: real
  qf_total_latency_seconds :: real
  qf_hard_max_respected :: bool
  qf_dynamically_fresh :: bool
  qf_acceptable :: bool
  qf_reason :: string

definition dynamic_quote_max_age_seconds :: "py_number \<Rightarrow> real result" where
  "dynamic_quote_max_age_seconds price_velocity_per_second =
     bind_result (finite_field price_velocity_per_second ''price_velocity_per_second'') (\<lambda>x.
     (let velocity = \<bar>x\<bar>; soft_limit = DYNAMIC_QUOTE_CALM_MAX_SECONDS / (1 + 80 * velocity)
      in Inr (min IMMEDIATE_COPY_MAX_SECONDS (max DYNAMIC_QUOTE_FLOOR_SECONDS soft_limit))))"

definition assess_quote_freshness ::
  "py_number \<Rightarrow> py_number \<Rightarrow> py_number \<Rightarrow> py_number \<Rightarrow> quote_freshness result" where
  "assess_quote_freshness velocity signal_to_quote quote_to_decision decision_to_fill =
     bind_result (nonnegative_field signal_to_quote ''signal_to_quote_seconds'') (\<lambda>a.
     bind_result (nonnegative_field quote_to_decision ''quote_to_decision_seconds'') (\<lambda>b.
     bind_result (nonnegative_field decision_to_fill ''decision_to_fill_seconds'') (\<lambda>c.
     (let latency = a + b + c
      in bind_result (dynamic_quote_max_age_seconds velocity) (\<lambda>dynamic_max.
         (let hard_ok = (latency \<le> IMMEDIATE_COPY_MAX_SECONDS);
              dynamic_ok = (latency \<le> dynamic_max);
              acceptable = (hard_ok \<and> dynamic_ok)
          in Inr \<lparr>qf_dynamic_max_age_seconds = dynamic_max, qf_total_latency_seconds = latency,
               qf_hard_max_respected = hard_ok, qf_dynamically_fresh = dynamic_ok,
               qf_acceptable = acceptable,
               qf_reason = (if acceptable then ''quote_chain_fresh''
                 else if \<not> hard_ok then ''hard_20s_latency_ceiling_exceeded''
                 else ''velocity_sensitive_quote_freshness_failed'')\<rparr>))))))"

record exit_capacity =
  xc_requested_position_notional :: real
  xc_exact_sell_depth_notional :: real
  xc_worst_degraded_depth_notional :: real
  xc_maximum_position_notional :: real
  xc_depth_utilization_limit :: real
  xc_passed :: bool
  xc_scenario_fractions :: "real list"

definition stress_exit_capacity ::
  "py_number \<Rightarrow> py_number \<Rightarrow> py_number list \<Rightarrow> py_number \<Rightarrow> exit_capacity result" where
  "stress_exit_capacity requested_position exact_sell_depth scenario_fractions utilization_limit =
     bind_result (nonnegative_field requested_position ''requested_position_notional'') (\<lambda>requested.
     bind_result (nonnegative_field exact_sell_depth ''exact_sell_depth_notional'') (\<lambda>depth.
     bind_result (fraction_field utilization_limit ''depth_utilization_limit'') (\<lambda>utilization.
     if utilization \<le> 0 then Inl (ValueError ''depth_utilization_limit_invalid'') else
     bind_result (traverse (\<lambda>item. fraction_field item ''scenario_fraction'') scenario_fractions) (\<lambda>scenarios.
     if scenarios = [] \<or> list_ex (\<lambda>item. item \<le> 0) scenarios
       then Inl (ValueError ''scenario_fractions_invalid'')
     else
       (let worst_depth = depth * Min (set scenarios);
            maximum = worst_depth * utilization
        in Inr \<lparr>xc_requested_position_notional = requested, xc_exact_sell_depth_notional = depth,
             xc_worst_degraded_depth_notional = worst_depth, xc_maximum_position_notional = maximum,
             xc_depth_utilization_limit = utilization, xc_passed = (requested \<le> maximum),
             xc_scenario_fractions = scenarios\<rparr>)))))"

subsection \<open>Flow-to-price response\<close>

record flow_response =
  fr_price_change_per_net_buy_dollar :: "real option"
  fr_price_change_per_new_buyer :: "real option"
  fr_marginal_buy_response_ratio :: "real option"
  fr_seller_absorption_fraction :: "real option"
  fr_exhaustion_risk :: bool

definition flow_to_price_response ::
  "py_number \<Rightarrow> py_number \<Rightarrow> int \<Rightarrow> py_number option \<Rightarrow> flow_response result" where
  "flow_to_price_response price_change_fraction independent_net_buy new_buyers prior_response =
     bind_result (finite_field price_change_fraction ''price_change_fraction'') (\<lambda>price_change.
     bind_result (finite_field independent_net_buy ''independent_net_buy_notional'') (\<lambda>net_buy.
     if new_buyers < 0 then Inl (ValueError ''new_independent_buyers_invalid'') else
     (let per_dollar = (if net_buy > 0 then Some (price_change / net_buy) else None);
          per_buyer = (if new_buyers > 0 then Some (price_change / of_int new_buyers) else None)
      in bind_result (case prior_response of
             None \<Rightarrow> Inr (None, None, False)
           | Some p \<Rightarrow> bind_result (finite_field p ''prior_price_change_per_net_buy_dollar'') (\<lambda>prior. Inr
               (case per_dollar of
                  None \<Rightarrow> (None, None, False)
                | Some d \<Rightarrow>
                    if prior > 0 then
                      (let ratio = d / prior
                       in (Some ratio, Some (clamp01 (1 - max 0 ratio)), net_buy > 0 \<and> ratio < 1 / 2))
                    else (None, None, False))))
         (\<lambda>(ratio, absorption, exhaustion).
           (let stalled = (net_buy > 0 \<and> price_change \<le> 0)
            in Inr \<lparr>fr_price_change_per_net_buy_dollar = per_dollar,
                 fr_price_change_per_new_buyer = per_buyer, fr_marginal_buy_response_ratio = ratio,
                 fr_seller_absorption_fraction = (if stalled then Some 1 else absorption),
                 fr_exhaustion_risk = (if stalled then True else exhaustion)\<rparr>)))))"

subsection \<open>Competition for portfolio capital\<close>

record opportunity =
  op_candidate_id :: string
  op_expected_residual_return_fraction :: py_number
  op_confidence :: py_number
  op_execution_quality :: py_number
  op_tail_risk_cost :: py_number
  op_requested_notional :: py_number
  op_creator_cluster :: "string option"
  op_funder_cluster :: "string option"
  op_wallet_cluster :: "string option"
  op_graduation_cohort :: "string option"
  op_venue :: "string option"

fun number_of :: "py_number \<Rightarrow> real" where
  "number_of (Number x) = x"
| "number_of _ = 0"

definition validate_opportunity :: "opportunity \<Rightarrow> opportunity result" where
  "validate_opportunity c =
     bind_result (required_text (op_candidate_id c) ''candidate_id'') (\<lambda>_.
     bind_result (finite_field (op_expected_residual_return_fraction c) ''expected_residual_return_fraction'') (\<lambda>_.
     bind_result (fraction_field (op_confidence c) ''confidence'') (\<lambda>_.
     bind_result (fraction_field (op_execution_quality c) ''execution_quality'') (\<lambda>_.
     bind_result (nonnegative_field (op_tail_risk_cost c) ''tail_risk_cost'') (\<lambda>risk.
     if risk \<le> 0 then Inl (ValueError ''tail_risk_cost_invalid'') else
     bind_result (nonnegative_field (op_requested_notional c) ''requested_notional'') (\<lambda>_. Inr c))))))"

text \<open>The score and the cluster keys of a validated candidate, whose numbers are all finite.\<close>

definition base_score :: "opportunity \<Rightarrow> real" where
  "base_score c = max 0 (number_of (op_expected_residual_return_fraction c)) * number_of (op_confidence c)
     * number_of (op_execution_quality c) / number_of (op_tail_risk_cost c)"

definition cluster_keys :: "opportunity \<Rightarrow> string set" where
  "cluster_keys c = set (map (\<lambda>(kind, v). kind @ '':'' @ or_default v [])
     (filter (\<lambda>(kind, v). strip (or_default v []) \<noteq> [])
       [(''creator'', op_creator_cluster c), (''funder'', op_funder_cluster c),
        (''wallet'', op_wallet_cluster c), (''cohort'', op_graduation_cohort c), (''venue'', op_venue c)]))"

record opportunity_allocation =
  oa_candidate_id :: string
  oa_base_score :: real
  oa_competition_score :: real
  oa_overlap_count :: nat
  oa_allocated_notional :: real
  oa_rank :: nat

definition overlap_with :: "string set \<Rightarrow> opportunity \<Rightarrow> nat" where
  "overlap_with selected c = card (cluster_keys c \<inter> selected)"

definition competition_score :: "string set \<Rightarrow> opportunity \<Rightarrow> real" where
  "competition_score selected c = base_score c / (1 + real (overlap_with selected c))"

text \<open>\<open>max\<close> with a key returns the first element whose key is largest.\<close>

fun best_of :: "('a \<Rightarrow> 'k::linorder) \<Rightarrow> 'a \<Rightarrow> 'a list \<Rightarrow> 'a" where
  "best_of k x [] = x"
| "best_of k x (y # ys) = best_of k (if k x < k y then y else x) ys"

definition best_opportunity :: "string set \<Rightarrow> opportunity \<Rightarrow> opportunity list \<Rightarrow> opportunity" where
  "best_opportunity selected c cs = best_of
     (\<lambda>x. (competition_score selected x, - int (card (cluster_keys x)), op_candidate_id x)) c cs"

lemma best_of_mem: "best_of k x ys \<in> set (x # ys)"
  by (induction k x ys rule: best_of.induct) auto

lemma best_of_max: "y \<in> set (x # ys) \<Longrightarrow> k y \<le> k (best_of k x ys)"
proof (induction k x ys arbitrary: y rule: best_of.induct)
  case (2 k x z ys)
  have "k z \<le> k (if k x < k z then z else x)" and "k x \<le> k (if k x < k z then z else x)" by auto
  moreover have "k (if k x < k z then z else x) \<le> k (best_of k (if k x < k z then z else x) ys)"
    using 2(1) [of "if k x < k z then z else x"] by simp
  ultimately show ?case using 2 by (auto intro: order_trans)
qed auto

lemma best_opportunity_mem: "best_opportunity selected c cs \<in> set (c # cs)"
  unfolding best_opportunity_def by (rule best_of_mem)

function compete_loop ::
  "opportunity list \<Rightarrow> string set \<Rightarrow> real \<Rightarrow> nat \<Rightarrow> opportunity_allocation list" where
  "compete_loop [] selected remaining rank = []"
| "compete_loop (c # cs) selected remaining rank =
     (let item = best_opportunity selected c cs;
          adjusted = competition_score selected item;
          allocation = (if adjusted > 0 then min (number_of (op_requested_notional item)) remaining else 0)
      in \<lparr>oa_candidate_id = op_candidate_id item, oa_base_score = base_score item,
          oa_competition_score = adjusted, oa_overlap_count = overlap_with selected item,
          oa_allocated_notional = allocation, oa_rank = rank\<rparr>
         # compete_loop (remove1 item (c # cs))
             (if allocation > 0 then selected \<union> cluster_keys item else selected)
             (remaining - allocation) (Suc rank))"
  by pat_completeness auto
termination
proof (relation "measure (\<lambda>(cs, sel, rem, rk). length cs)", goal_cases)
  case (2 c cs selected remaining rank item adjusted allocation)
  then have "item \<in> set (c # cs)" using best_opportunity_mem by metis
  then show ?case by (simp only: in_measure split_conv length_remove1 if_True) simp
qed simp

declare compete_loop.simps(2) [simp del]

definition compete_for_portfolio_capital ::
  "opportunity list \<Rightarrow> py_number \<Rightarrow> py_number \<Rightarrow> py_number \<Rightarrow> string list \<Rightarrow> opportunity_allocation list result" where
  "compete_for_portfolio_capital candidates portfolio_notional current_family cap_fraction existing =
     bind_result (traverse validate_opportunity candidates) (\<lambda>rows.
     if \<not> distinct (map op_candidate_id rows) then Inl (ValueError ''duplicate_candidate_id'') else
     bind_result (nonnegative_field portfolio_notional ''portfolio_notional'') (\<lambda>portfolio.
     bind_result (nonnegative_field current_family ''current_immature_family_notional'') (\<lambda>current.
     bind_result (fraction_field cap_fraction ''immature_family_cap_fraction'') (\<lambda>cap.
     Inr (compete_loop rows (set existing) (max 0 (portfolio * cap - current)) 1)))))"

subsection \<open>The alpha-loss curve\<close>

record alpha_loss_point =
  ap_delay_seconds :: nat
  ap_executable_residual_upside_fraction :: real
  ap_alpha_lost_vs_1s_fraction :: real

record alpha_loss_curve =
  ac_points :: "alpha_loss_point list"
  ac_fastest_material_loss_window_seconds :: "nat option"

definition time_to_alpha_loss_curve :: "(nat \<rightharpoonup> py_number) \<Rightarrow> py_number \<Rightarrow> alpha_loss_curve result" where
  "time_to_alpha_loss_curve residual_by_delay material_loss_fraction =
     bind_result (fraction_field material_loss_fraction ''material_loss_fraction'') (\<lambda>threshold.
     (case filter (\<lambda>d. residual_by_delay d = None) ALPHA_LOSS_DELAYS_SECONDS of
        d # _ \<Rightarrow> Inl (ValueError (''alpha_loss_delay_missing:'' @ nat_text d))
      | [] \<Rightarrow> bind_result (traverse (\<lambda>d. finite_field (the (residual_by_delay d))
                 (''residual_upside_'' @ nat_text d @ ''s'')) ALPHA_LOSS_DELAYS_SECONDS) (\<lambda>residuals.
          (let baseline = hd residuals;
               points = map2 (\<lambda>d r. \<lparr>ap_delay_seconds = d, ap_executable_residual_upside_fraction = r,
                 ap_alpha_lost_vs_1s_fraction = max 0 (baseline - r)\<rparr>) ALPHA_LOSS_DELAYS_SECONDS residuals
           in Inr \<lparr>ac_points = points, ac_fastest_material_loss_window_seconds =
                map_option ap_delay_seconds
                  (find (\<lambda>p. ap_alpha_lost_vs_1s_fraction p \<ge> threshold) (tl points))\<rparr>))))"

subsection \<open>Facts about the competition\<close>

definition valid_opportunity :: "opportunity \<Rightarrow> bool" where
  "valid_opportunity c \<longleftrightarrow> 0 \<le> number_of (op_confidence c) \<and> 0 \<le> number_of (op_execution_quality c)
     \<and> 0 < number_of (op_tail_risk_cost c) \<and> 0 \<le> number_of (op_requested_notional c)"

lemma validate_opportunity_Inr: "validate_opportunity c = Inr c' \<Longrightarrow> c' = c \<and> valid_opportunity c"
  by (auto simp: validate_opportunity_def valid_opportunity_def bind_result_Inr_iff split: if_splits)

lemma base_score_nonneg: "valid_opportunity c \<Longrightarrow> 0 \<le> base_score c"
  by (simp add: valid_opportunity_def base_score_def)

lemma finite_cluster_keys [simp]: "finite (cluster_keys c)"
  by (simp add: cluster_keys_def)

lemma competition_score_antimono:
  assumes "valid_opportunity c" and "selected \<subseteq> selected'"
  shows "competition_score selected' c \<le> competition_score selected c"
proof -
  have "overlap_with selected c \<le> overlap_with selected' c"
    unfolding overlap_with_def using assms(2) by (intro card_mono) auto
  then show ?thesis
    unfolding competition_score_def using base_score_nonneg [OF assms(1)]
    by (intro divide_left_mono) (simp_all add: add_pos_nonneg)
qed

lemma best_opportunity_max:
  assumes "c' \<in> set (c # cs)"
  shows "competition_score selected c' \<le> competition_score selected (best_opportunity selected c cs)"
  using best_of_max [OF assms, of "\<lambda>x. (competition_score selected x, - int (card (cluster_keys x)), op_candidate_id x)"]
  by (auto simp: best_opportunity_def less_eq_prod_def)

text \<open>One round of the competition.\<close>

lemma compete_round:
  assumes "cs \<noteq> []"
  obtains item a selected' where
    "item \<in> set cs" "\<And>c. c \<in> set cs \<Longrightarrow> competition_score selected c \<le> competition_score selected item"
    "a = (if competition_score selected item > 0 then min (number_of (op_requested_notional item)) remaining else 0)"
    "selected \<subseteq> selected'"
    "compete_loop cs selected remaining rank =
       \<lparr>oa_candidate_id = op_candidate_id item, oa_base_score = base_score item,
        oa_competition_score = competition_score selected item, oa_overlap_count = overlap_with selected item,
        oa_allocated_notional = a, oa_rank = rank\<rparr>
       # compete_loop (remove1 item cs) selected' (remaining - a) (Suc rank)"
proof -
  obtain c cs' where cs: "cs = c # cs'" using assms by (cases cs) auto
  show thesis
    by (rule that [of "best_opportunity selected c cs'", OF _ _ refl, where selected' =
        "if (if competition_score selected (best_opportunity selected c cs') > 0
             then min (number_of (op_requested_notional (best_opportunity selected c cs'))) remaining else 0) > 0
         then selected \<union> cluster_keys (best_opportunity selected c cs') else selected"])
      (use best_opportunity_mem [of selected c cs'] best_opportunity_max [of _ c cs' selected]
        in \<open>auto simp: cs compete_loop.simps(2) Let_def simp del: remove1.simps\<close>)
qed

lemma compete_scores_bounded:
  assumes "\<forall>c\<in>set cs. valid_opportunity c \<and> competition_score selected c \<le> b"
  shows "\<forall>x\<in>set (compete_loop cs selected remaining rank). oa_competition_score x \<le> b"
  using assms
proof (induction "length cs" arbitrary: cs selected remaining rank)
  case (Suc n)
  then have "cs \<noteq> []" by auto
  then obtain item a selected' where r: "item \<in> set cs" "selected \<subseteq> selected'"
    "compete_loop cs selected remaining rank =
       \<lparr>oa_candidate_id = op_candidate_id item, oa_base_score = base_score item,
        oa_competition_score = competition_score selected item, oa_overlap_count = overlap_with selected item,
        oa_allocated_notional = a, oa_rank = rank\<rparr>
       # compete_loop (remove1 item cs) selected' (remaining - a) (Suc rank)"
    by (rule compete_round) blast
  have "n = length (remove1 item cs)" using r(1) Suc(2) by (simp add: length_remove1)
  moreover have "\<forall>c\<in>set (remove1 item cs). valid_opportunity c \<and> competition_score selected' c \<le> b"
    using Suc.prems competition_score_antimono [OF _ r(2)]
    by (meson in_set_remove1 notin_set_remove1 order_trans set_remove1_subset subsetD)
  ultimately have "\<forall>x\<in>set (compete_loop (remove1 item cs) selected' (remaining - a) (Suc rank)). oa_competition_score x \<le> b"
    by (rule Suc(1))
  with r Suc.prems show ?case by simp
qed simp

lemma compete_loop_sound:
  assumes "\<forall>c\<in>set cs. valid_opportunity c" and "0 \<le> remaining"
  shows "sum_list (map oa_allocated_notional (compete_loop cs selected remaining rank)) \<le> remaining
    \<and> (\<forall>x\<in>set (compete_loop cs selected remaining rank). \<exists>c\<in>set cs. oa_candidate_id x = op_candidate_id c
         \<and> 0 \<le> oa_allocated_notional x \<and> oa_allocated_notional x \<le> number_of (op_requested_notional c))
    \<and> mset (map oa_candidate_id (compete_loop cs selected remaining rank)) = mset (map op_candidate_id cs)
    \<and> map oa_rank (compete_loop cs selected remaining rank) = [rank..<rank + length cs]
    \<and> sorted_wrt (\<ge>) (map oa_competition_score (compete_loop cs selected remaining rank))"
  using assms
proof (induction "length cs" arbitrary: cs selected remaining rank)
  case (Suc n)
  then have "cs \<noteq> []" by auto
  then obtain item a selected' where item: "item \<in> set cs"
    and best: "\<And>c. c \<in> set cs \<Longrightarrow> competition_score selected c \<le> competition_score selected item"
    and a: "a = (if competition_score selected item > 0 then min (number_of (op_requested_notional item)) remaining else 0)"
    and sel: "selected \<subseteq> selected'"
    and eq: "compete_loop cs selected remaining rank =
       \<lparr>oa_candidate_id = op_candidate_id item, oa_base_score = base_score item,
        oa_competition_score = competition_score selected item, oa_overlap_count = overlap_with selected item,
        oa_allocated_notional = a, oa_rank = rank\<rparr>
       # compete_loop (remove1 item cs) selected' (remaining - a) (Suc rank)"
    by (rule compete_round) blast
  have valid: "valid_opportunity item" using Suc.prems(1) item by blast
  then have amount: "0 \<le> a" "a \<le> number_of (op_requested_notional item)" "a \<le> remaining"
    using Suc.prems(2) by (simp_all add: a valid_opportunity_def)
  have rest: "set (remove1 item cs) \<subseteq> set cs" by (rule set_remove1_subset)
  have len: "n = length (remove1 item cs)" using item Suc(2) by (simp add: length_remove1)
  have bound: "\<forall>c\<in>set (remove1 item cs). valid_opportunity c \<and> competition_score selected' c \<le> competition_score selected item"
    using Suc.prems(1) rest best competition_score_antimono [OF _ sel] by (meson order_trans subsetD)
  note IH = Suc(1) [OF len, of "remaining - a" selected' "Suc rank"]
  have scores: "\<forall>x\<in>set (compete_loop (remove1 item cs) selected' (remaining - a) (Suc rank)).
      oa_competition_score x \<le> competition_score selected item"
    by (rule compete_scores_bounded [OF bound])
  have ids: "mset (map op_candidate_id cs) = {#op_candidate_id item#} + mset (map op_candidate_id (remove1 item cs))"
    using item by (metis (no_types, lifting) image_mset_add_mset image_mset_single add_mset_add_single union_commute
        mset_map mset_remove1 insert_DiffM in_multiset_in_set)
  have ranks: "[rank..<rank + length cs] = rank # [Suc rank..<Suc rank + length (remove1 item cs)]"
  proof -
    have "rank + length cs = Suc rank + length (remove1 item cs)" using len Suc(2) by simp
    moreover have "[rank..<rank + length cs] = rank # [Suc rank..<rank + length cs]"
      using \<open>cs \<noteq> []\<close> by (intro upt_conv_Cons) simp
    ultimately show ?thesis by (simp only:)
  qed
  have IH: "sum_list (map oa_allocated_notional (compete_loop (remove1 item cs) selected' (remaining - a) (Suc rank))) \<le> remaining - a"
    "\<forall>x\<in>set (compete_loop (remove1 item cs) selected' (remaining - a) (Suc rank)). \<exists>c\<in>set (remove1 item cs).
       oa_candidate_id x = op_candidate_id c \<and> 0 \<le> oa_allocated_notional x
       \<and> oa_allocated_notional x \<le> number_of (op_requested_notional c)"
    "mset (map oa_candidate_id (compete_loop (remove1 item cs) selected' (remaining - a) (Suc rank)))
       = mset (map op_candidate_id (remove1 item cs))"
    "map oa_rank (compete_loop (remove1 item cs) selected' (remaining - a) (Suc rank))
       = [Suc rank..<Suc rank + length (remove1 item cs)]"
    "sorted_wrt (\<ge>) (map oa_competition_score (compete_loop (remove1 item cs) selected' (remaining - a) (Suc rank)))"
    using IH bound amount(3) by auto
  show ?case unfolding eq
  proof (intro conjI)
    show "\<forall>x\<in>set (\<lparr>oa_candidate_id = op_candidate_id item, oa_base_score = base_score item,
        oa_competition_score = competition_score selected item, oa_overlap_count = overlap_with selected item,
        oa_allocated_notional = a, oa_rank = rank\<rparr>
       # compete_loop (remove1 item cs) selected' (remaining - a) (Suc rank)).
       \<exists>c\<in>set cs. oa_candidate_id x = op_candidate_id c \<and> 0 \<le> oa_allocated_notional x
         \<and> oa_allocated_notional x \<le> number_of (op_requested_notional c)"
      using IH(2) item amount rest by (simp add: subset_iff) metis
  qed (use IH scores ids ranks in \<open>simp_all del: upt_Suc\<close>)
qed simp

subsection \<open>Properties\<close>

text \<open>C35. Competition never oversubscribes the family cap: the allocations of all candidates sum to
  at most what the cap leaves, every input candidate is ranked exactly once in the order of
  the ranks, none gets more than it requested, and competition scores never increase down
  the ranking although cluster overlap is re-scored in each round.\<close>

theorem competition_respects_cap:
  assumes "compete_for_portfolio_capital candidates (Number portfolio) (Number current) (Number cap) existing = Inr als"
  shows "sum_list (map oa_allocated_notional als) \<le> max 0 (portfolio * cap - current)
    \<and> mset (map oa_candidate_id als) = mset (map op_candidate_id candidates)
    \<and> distinct (map oa_candidate_id als)
    \<and> map oa_rank als = [1..<1 + length candidates]
    \<and> (\<forall>x\<in>set als. \<exists>c\<in>set candidates. oa_candidate_id x = op_candidate_id c \<and> 0 \<le> oa_allocated_notional x
         \<and> oa_allocated_notional x \<le> number_of (op_requested_notional c))
    \<and> sorted_wrt (\<ge>) (map oa_competition_score als)"
proof -
  obtain rows where rows: "traverse validate_opportunity candidates = Inr rows"
    and dist: "distinct (map op_candidate_id rows)"
    and als: "als = compete_loop rows (set existing) (max 0 (portfolio * cap - current)) 1"
    using assms by (auto simp: compete_for_portfolio_capital_def bind_result_Inr_iff split: if_splits)
  have "list_all2 (\<lambda>x y. y = x \<and> valid_opportunity x) candidates rows"
    using rows unfolding traverse_Inr by (rule list_all2_mono) (use validate_opportunity_Inr in auto)
  then have eq: "rows = candidates" and valid: "\<forall>c\<in>set candidates. valid_opportunity c"
    by (induction rule: list_all2_induct) auto
  have "distinct (map oa_candidate_id als) \<longleftrightarrow> distinct (map op_candidate_id rows)"
    if "mset (map oa_candidate_id als) = mset (map op_candidate_id rows)"
    using mset_eq_imp_distinct_iff [OF that] .
  then show ?thesis
    using compete_loop_sound [of candidates "max 0 (portfolio * cap - current)" "set existing" 1] valid dist
    unfolding als eq by simp
qed

definition demo_opportunity :: "string \<Rightarrow> real \<Rightarrow> opportunity" where
  "demo_opportunity i x = \<lparr>op_candidate_id = i, op_expected_residual_return_fraction = Number x,
     op_confidence = Number 1, op_execution_quality = Number 1, op_tail_risk_cost = Number 1,
     op_requested_notional = Number 100, op_creator_cluster = Some ''c1'', op_funder_cluster = None,
     op_wallet_cluster = None, op_graduation_cohort = None, op_venue = None\<rparr>"

lemma demo_ids: "strip ''a'' = ''a''" "strip ''b'' = ''b''"
  by code_simp+

theorem competition_respects_cap_witness:
  "\<exists>als. compete_for_portfolio_capital [demo_opportunity ''a'' 1, demo_opportunity ''b'' 2]
       (Number 500) (Number 0) (Number (1 / 4)) [] = Inr als \<and> sum_list (map oa_allocated_notional als) \<le> 125"
proof -
  obtain als where als: "compete_for_portfolio_capital [demo_opportunity ''a'' 1, demo_opportunity ''b'' 2]
       (Number 500) (Number 0) (Number (1 / 4)) [] = Inr als"
    by (simp add: compete_for_portfolio_capital_def validate_opportunity_def demo_opportunity_def
        required_text_def demo_ids nonnegative_field_def fraction_field_def)
  with competition_respects_cap [OF als] show ?thesis by auto
qed

text \<open>Hysteresis: a state only improves, to the proposed state, after the required number of
  confirmations and never under hard structural deterioration; a proposal to deteriorate is
  followed at once; entry is considered exactly when the resulting state is actionable, there
  is no hard deterioration, and the signal differs from the one of the last entry.\<close>

theorem hysteresis_guards_improvement:
  assumes "apply_state_hysteresis previous proposed confirmations fingerprint last_fingerprint required hard = Inr tr"
  shows "\<exists>before after result.
      state_rank (lt_previous_state tr) = Some before \<and> state_rank (lt_proposed_state tr) = Some after
    \<and> state_rank (lt_resulting_state tr) = Some result
    \<and> (before < result \<longrightarrow> \<not> hard \<and> required \<le> confirmations \<and> lt_resulting_state tr = lt_proposed_state tr)
    \<and> (after < before \<longrightarrow> lt_resulting_state tr = lt_proposed_state tr)
    \<and> (hard \<longrightarrow> result < before \<or> before = 0)
    \<and> (lt_entry_consideration_allowed tr \<longleftrightarrow> lt_resulting_state tr = ''actionable'' \<and> \<not> hard
         \<and> strip fingerprint \<noteq> or_default last_fingerprint [])"
proof -
  have eval: "bind_result (required_text v field) g = Inr tr \<longleftrightarrow> strip v \<noteq> [] \<and> g (strip v) = Inr tr" for v field g
    by (simp add: required_text_def Let_def)
  have body: "(case (state_rank (strip previous), state_rank (strip proposed)) of
      (Some rp, Some rq) \<Rightarrow> True | _ \<Rightarrow> False)"
    using assms unfolding apply_state_hysteresis_def eval
    by (cases "state_rank (strip previous)"; cases "state_rank (strip proposed)") simp_all
  then obtain rp rq where ranks: "state_rank (strip previous) = Some rp" "state_rank (strip proposed) = Some rq"
    by (auto split: option.splits)
  have developing: "state_rank ''developing'' = Some 0" by (simp add: state_rank_def)
  have actionable: "state_rank st = Some n \<Longrightarrow> st = ''actionable'' \<longleftrightarrow> n = 2" "state_rank st = Some n \<Longrightarrow> n \<le> 2" for st n
    by (auto simp: state_rank_def split: if_splits)
  have fields: "lt_previous_state tr = strip previous" "lt_proposed_state tr = strip proposed"
    using assms ranks by (auto simp: apply_state_hysteresis_def eval Let_def split: if_splits)
  show ?thesis
  proof (cases hard)
    case True
    then have "lt_resulting_state tr = (if rq < rp then strip proposed else ''developing'')"
      and "\<not> lt_entry_consideration_allowed tr"
      using assms ranks by (auto simp: apply_state_hysteresis_def eval Let_def split: if_splits)
    with True fields ranks developing show ?thesis
      by - (rule exI [of _ rp], rule exI [of _ rq], rule exI [of _ "if rq < rp then rq else 0"], auto)
  next
    case False
    show ?thesis
    proof (cases "rp < rq \<and> confirmations < required")
      case True
      then have "lt_resulting_state tr = strip previous" and "\<not> lt_entry_consideration_allowed tr"
        using assms ranks False by (auto simp: apply_state_hysteresis_def eval Let_def split: if_splits)
      moreover have "rp \<noteq> 2" using True actionable(2) [OF ranks(2)] by simp
      ultimately show ?thesis using fields ranks False True actionable(1) [OF ranks(1)]
        by - (rule exI [of _ rp], rule exI [of _ rq], rule exI [of _ rp], simp)
    next
      case confirmed: False
      then have "lt_resulting_state tr = (if rp = rq then strip previous else strip proposed)"
        and "lt_entry_consideration_allowed tr \<longleftrightarrow> lt_resulting_state tr = ''actionable''
          \<and> strip fingerprint \<noteq> or_default last_fingerprint []"
        using assms ranks False by (auto simp: apply_state_hysteresis_def eval Let_def split: if_splits)
      with fields ranks False confirmed show ?thesis
        by - (rule exI [of _ rp], rule exI [of _ rq], rule exI [of _ rq], auto)
    qed
  qed
qed

theorem hysteresis_guards_improvement_witness:
  "\<exists>tr. apply_state_hysteresis ''developing'' ''actionable'' 1 ''fp'' None 2 False = Inr tr
     \<and> lt_resulting_state tr = ''developing''"
proof -
  have "strip ''developing'' = ''developing''" "strip ''actionable'' = ''actionable''" "strip ''fp'' = ''fp''"
    by code_simp+
  then obtain tr where tr: "apply_state_hysteresis ''developing'' ''actionable'' 1 ''fp'' None 2 False = Inr tr"
    and same: "lt_previous_state tr = ''developing''" "lt_resulting_state tr = lt_previous_state tr"
    by (simp add: apply_state_hysteresis_def required_text_def Let_def state_rank_def)
  from hysteresis_guards_improvement [OF tr] tr same show ?thesis by auto
qed

text \<open>A quote chain is acceptable exactly when its total latency is within the dynamic limit,
  which lies between three quarters of a second and eight seconds, well inside the hard
  ceiling, and which never grows when the price moves faster.\<close>

theorem quote_freshness_tightens_with_velocity:
  assumes "assess_quote_freshness (Number v) (Number a) (Number b) (Number c) = Inr q"
    and "\<bar>v\<bar> \<le> \<bar>w\<bar>"
  shows "3 / 4 \<le> qf_dynamic_max_age_seconds q \<and> qf_dynamic_max_age_seconds q \<le> 8
    \<and> qf_total_latency_seconds q = a + b + c
    \<and> (qf_acceptable q \<longleftrightarrow> a + b + c \<le> qf_dynamic_max_age_seconds q)
    \<and> (\<exists>limit. dynamic_quote_max_age_seconds (Number w) = Inr limit \<and> limit \<le> qf_dynamic_max_age_seconds q)"
proof -
  define soft where "soft = (\<lambda>x::real. 8 / (1 + 80 * \<bar>x\<bar>))"
  have limit: "dynamic_quote_max_age_seconds (Number x) = Inr (max (3 / 4) (soft x))" for x
  proof -
    have "soft x \<le> 8" by (simp add: soft_def divide_le_eq add_pos_nonneg)
    then have "min 20 (max (3 / 4) (soft x)) = max (3 / 4) (soft x)" by simp
    moreover have "8 / (1 + 80 * \<bar>x\<bar>) = soft x" by (simp add: soft_def)
    ultimately show ?thesis
      by (simp only: dynamic_quote_max_age_seconds_def Let_def IMMEDIATE_COPY_MAX_SECONDS_def
          DYNAMIC_QUOTE_CALM_MAX_SECONDS_def DYNAMIC_QUOTE_FLOOR_SECONDS_def finite_field.simps bind_result_simps)
  qed
  have "soft v \<le> 8" by (simp add: soft_def divide_le_eq add_pos_nonneg)
  moreover have "soft w \<le> soft v" unfolding soft_def
    using assms(2) by (intro divide_left_mono) (simp_all add: add_pos_nonneg)
  moreover have q: "qf_dynamic_max_age_seconds q = max (3 / 4) (soft v)" "qf_total_latency_seconds q = a + b + c"
    "qf_acceptable q \<longleftrightarrow> a + b + c \<le> IMMEDIATE_COPY_MAX_SECONDS \<and> a + b + c \<le> max (3 / 4) (soft v)"
    using assms(1) by (auto simp: assess_quote_freshness_def bind_result_Inr_iff Let_def limit)
  ultimately show ?thesis by (auto simp: limit IMMEDIATE_COPY_MAX_SECONDS_def)
qed

theorem quote_freshness_tightens_with_velocity_witness:
  "\<exists>q. assess_quote_freshness (Number 0) (Number 1) (Number 1) (Number 1) = Inr q \<and> qf_acceptable q
     \<and> qf_dynamic_max_age_seconds q \<le> 8"
proof -
  obtain q where q: "assess_quote_freshness (Number 0) (Number 1) (Number 1) (Number 1) = Inr q" "qf_acceptable q"
    by (simp add: assess_quote_freshness_def nonnegative_field_def dynamic_quote_max_age_seconds_def Let_def
        IMMEDIATE_COPY_MAX_SECONDS_def DYNAMIC_QUOTE_CALM_MAX_SECONDS_def DYNAMIC_QUOTE_FLOOR_SECONDS_def)
  with quote_freshness_tightens_with_velocity [OF q(1), of 1] show ?thesis by auto
qed

text \<open>A position passes the exit stress exactly when, in every scenario, it fits into the
  allowed share of the sell depth that the scenario leaves.\<close>

lemma exit_stress_is_worst_case:
  assumes "stress_exit_capacity (Number requested) (Number depth) (map Number scenarios) (Number share) = Inr x"
  shows "(xc_passed x \<longleftrightarrow> list_all (\<lambda>f. requested \<le> depth * f * share) scenarios)
    \<and> (xc_passed x \<longleftrightarrow> requested \<le> xc_maximum_position_notional x)
    \<and> 0 \<le> xc_maximum_position_notional x \<and> xc_maximum_position_notional x \<le> depth * share"
proof -
  have scen: "traverse (\<lambda>item. fraction_field item field) (map Number xs) = Inr ys \<Longrightarrow>
      ys = xs \<and> (\<forall>f\<in>set xs. 0 \<le> f \<and> f \<le> 1)" for field xs ys
    by (induction xs arbitrary: ys) (auto simp: bind_result_Inr_iff)
  have f: "scenarios \<noteq> []" "\<forall>f\<in>set scenarios. 0 < f \<and> f \<le> 1" "0 \<le> depth" "0 < share"
    and x: "xc_maximum_position_notional x = depth * Min (set scenarios) * share"
      "xc_passed x \<longleftrightarrow> requested \<le> depth * Min (set scenarios) * share"
    using assms
    by (auto simp: stress_exit_capacity_def bind_result_Inr_iff Let_def list_ex_iff not_le
        dest!: scen split: if_splits)
  let ?m = "Min (set scenarios)"
  have m: "?m \<in> set scenarios" and le: "\<forall>f\<in>set scenarios. ?m \<le> f" using f(1) by simp_all
  have "depth * ?m * share \<le> depth * f * share" if "f \<in> set scenarios" for f
    using le that f(3,4) by (intro mult_right_mono mult_left_mono) simp_all
  then have "list_all (\<lambda>f. requested \<le> depth * f * share) scenarios \<longleftrightarrow> requested \<le> depth * ?m * share"
    using m by (auto simp: list_all_iff intro: order_trans)
  moreover have "depth * ?m * share \<le> depth * 1 * share"
    using f m by (intro mult_right_mono mult_left_mono) simp_all
  moreover have "0 \<le> depth * ?m * share" using f m by (simp add: less_imp_le)
  ultimately show ?thesis using x by simp
qed

end
