(* ===== verification/Upside.thy ===== *)
theory Upside
  imports Lanes
begin

text \<open>
  The upside-capture mechanics (\<open>v52_upside_capture.py\<close>): a starter, scaling into strength,
  staged de-risking, a runner, and a second-leg re-entry, each planned from amount-specific
  quotes. A record of the source whose numbers are checked is a record over its number
  type: \<open>py_number\<close> as it is given, \<open>real\<close> once \<open>validated\<close> has accepted it, so a planner
  computes with validated numbers only. A planner returns the action, or the
  error of the first validation that fails.
\<close>

subsection \<open>Validation\<close>

definition upside_fraction :: "string \<Rightarrow> bool \<Rightarrow> py_number \<Rightarrow> real result" where
  "upside_fraction field allow_zero v = bind_result (finite_nonnegative field v) (\<lambda>x.
     if x > 1 \<or> \<not> allow_zero \<and> x \<le> 0 then Inl (ValueError (field @ ''_invalid'')) else Inr x)"

record 'n capture_policy =
  up_starter_fraction_of_target :: 'n
  up_max_scale_fraction_of_target :: 'n
  up_first_derisk_fraction_of_position :: 'n
  up_second_derisk_fraction_of_position :: 'n
  up_runner_fraction_of_target :: 'n
  up_minimum_exit_depth_coverage_ratio :: 'n

definition validate_policy :: "py_number capture_policy \<Rightarrow> real capture_policy result" where
  "validate_policy p =
     bind_result (upside_fraction ''starter_fraction_of_target'' False (up_starter_fraction_of_target p)) (\<lambda>starter.
     bind_result (upside_fraction ''max_scale_fraction_of_target'' False (up_max_scale_fraction_of_target p)) (\<lambda>scale.
     bind_result (upside_fraction ''first_derisk_fraction_of_position'' False (up_first_derisk_fraction_of_position p)) (\<lambda>first.
     bind_result (upside_fraction ''second_derisk_fraction_of_position'' False (up_second_derisk_fraction_of_position p)) (\<lambda>second.
     bind_result (upside_fraction ''runner_fraction_of_target'' True (up_runner_fraction_of_target p)) (\<lambda>runner.
     bind_result (finite_nonnegative ''minimum_exit_depth_coverage_ratio'' (up_minimum_exit_depth_coverage_ratio p)) (\<lambda>coverage.
     if coverage < 1 then Inl (ValueError ''minimum_exit_depth_coverage_ratio_invalid'')
     else Inr \<lparr>up_starter_fraction_of_target = starter, up_max_scale_fraction_of_target = scale,
            up_first_derisk_fraction_of_position = first, up_second_derisk_fraction_of_position = second,
            up_runner_fraction_of_target = runner, up_minimum_exit_depth_coverage_ratio = coverage\<rparr>))))))"

record 'n quote_snapshot =
  qs_latency_seconds :: 'n
  qs_chase_fraction :: 'n
  qs_exact_buy_quote_available :: bool
  qs_exact_sell_quote_available :: bool
  qs_structurally_exitable :: bool
  qs_buy_quote_notional :: 'n
  qs_sell_quote_notional :: 'n
  qs_executable_sell_depth_notional :: 'n

definition validate_quote :: "py_number quote_snapshot \<Rightarrow> real quote_snapshot result" where
  "validate_quote q =
     bind_result (finite_nonnegative ''latency_seconds'' (qs_latency_seconds q)) (\<lambda>latency.
     bind_result (finite_nonnegative ''chase_fraction'' (qs_chase_fraction q)) (\<lambda>chase.
     bind_result (finite_nonnegative ''buy_quote_notional'' (qs_buy_quote_notional q)) (\<lambda>buy.
     bind_result (finite_nonnegative ''sell_quote_notional'' (qs_sell_quote_notional q)) (\<lambda>sell.
     bind_result (finite_nonnegative ''executable_sell_depth_notional'' (qs_executable_sell_depth_notional q)) (\<lambda>depth.
     Inr \<lparr>qs_latency_seconds = latency, qs_chase_fraction = chase,
       qs_exact_buy_quote_available = qs_exact_buy_quote_available q,
       qs_exact_sell_quote_available = qs_exact_sell_quote_available q,
       qs_structurally_exitable = qs_structurally_exitable q, qs_buy_quote_notional = buy,
       qs_sell_quote_notional = sell, qs_executable_sell_depth_notional = depth\<rparr>)))))"

record forward_evidence =
  fe_mark_price :: py_number
  fe_new_forward_evidence :: bool
  fe_independent_buying_accelerating :: bool
  fe_wallet_quality_improving :: bool
  fe_liquidity_improving :: bool
  fe_sell_depth_improving :: bool
  fe_concentration_improving :: bool
  fe_hazard_declining :: bool
  fe_buyer_breadth_expanding :: bool
  fe_incremental_slippage_acceptable :: bool
  fe_continuation_healthy :: bool
  fe_independent_participation_persists :: bool
  fe_seller_pressure_controlled :: bool
  fe_hazards_acceptable :: bool
  fe_attention_decay :: bool
  fe_weakening_price_structure :: bool
  fe_structural_hard_stop :: bool

definition strength_evidence_count :: "forward_evidence \<Rightarrow> nat" where
  "strength_evidence_count e = length (filter id
     [fe_independent_buying_accelerating e, fe_wallet_quality_improving e, fe_liquidity_improving e,
      fe_sell_depth_improving e, fe_concentration_improving e, fe_hazard_declining e,
      fe_buyer_breadth_expanding e, fe_incremental_slippage_acceptable e])"

record 'n capture_position =
  cp_candidate_id :: string
  cp_lane :: string
  cp_target_notional :: 'n
  cp_position_notional :: 'n
  cp_last_add_price :: 'n
  cp_lifecycle_state :: string
  cp_derisk_stage :: int
  cp_impulse_id :: string

definition validate_position :: "py_number capture_position \<Rightarrow> real capture_position result" where
  "validate_position p =
     (if strip (cp_candidate_id p) = [] then Inl (ValueError ''candidate_id_missing'')
      else if strip (cp_lane p) \<notin> set CANONICAL_LANES then Inl (ValueError ''lane_unsupported'')
      else bind_result (finite_nonnegative ''target_notional'' (cp_target_notional p)) (\<lambda>target.
           bind_result (finite_nonnegative ''position_notional'' (cp_position_notional p)) (\<lambda>position.
           bind_result (finite_nonnegative ''last_add_price'' (cp_last_add_price p)) (\<lambda>last_add.
           if cp_derisk_stage p \<notin> {0, 1, 2} then Inl (ValueError ''derisk_stage_invalid'')
           else if strip (cp_impulse_id p) = [] then Inl (ValueError ''impulse_id_missing'')
           else Inr \<lparr>cp_candidate_id = cp_candidate_id p, cp_lane = cp_lane p, cp_target_notional = target,
                  cp_position_notional = position, cp_last_add_price = last_add,
                  cp_lifecycle_state = cp_lifecycle_state p, cp_derisk_stage = cp_derisk_stage p,
                  cp_impulse_id = cp_impulse_id p\<rparr>))))"

record capture_action =
  ac_action :: string
  ac_reasons :: "string list"
  ac_notional_change :: real
  ac_resulting_position_notional :: real
  ac_resulting_lifecycle_state :: string
  ac_resulting_derisk_stage :: int
  ac_liquidity_cap_notional :: real

record second_leg_evidence =
  sl_new_impulse_id :: string
  sl_consolidation_confirmed :: bool
  sl_new_independent_buyers :: bool
  sl_liquidity_expanding :: bool
  sl_renewed_acceleration :: bool

subsection \<open>Quotes, blockers and actions\<close>

definition DUST_NOTIONAL :: real where
  "DUST_NOTIONAL = 1 / 10 ^ 12"

text \<open>The size that actual sell depth admits, on validated numbers.\<close>

definition depth_limited :: "real \<Rightarrow> real quote_snapshot \<Rightarrow> real capture_policy \<Rightarrow> real" where
  "depth_limited target q p =
     (let depth_cap = qs_executable_sell_depth_notional q / up_minimum_exit_depth_coverage_ratio p
      in max 0 (min (min target depth_cap) (qs_sell_quote_notional q)))"

definition liquidity_cap_notional ::
  "py_number \<Rightarrow> py_number quote_snapshot \<Rightarrow> py_number capture_policy \<Rightarrow> real result" where
  "liquidity_cap_notional target_notional quote policy =
     bind_result (validate_policy policy) (\<lambda>p.
     bind_result (validate_quote quote) (\<lambda>q.
     bind_result (finite_nonnegative ''target_notional'' target_notional) (\<lambda>target.
     Inr (depth_limited target q p))))"

definition buy_blockers :: "real quote_snapshot \<Rightarrow> real \<Rightarrow> real \<Rightarrow> string list" where
  "buy_blockers q buy_notional resulting =
     (if qs_latency_seconds q > IMMEDIATE_COPY_MAX_SECONDS then [''latency_above_20s''] else [])
   @ (if qs_chase_fraction q > HIGH_CHASE_OBSERVE_ONLY_THRESHOLD then [''gt_40pct_chase_observe_only''] else [])
   @ (if \<not> qs_exact_buy_quote_available q then [''exact_buy_quote_missing''] else [])
   @ (if \<not> qs_exact_sell_quote_available q then [''exact_sell_quote_missing''] else [])
   @ (if \<not> qs_structurally_exitable q then [''structurally_unexitable''] else [])
   @ (if qs_buy_quote_notional q + DUST_NOTIONAL < buy_notional then [''buy_quote_notional_insufficient''] else [])
   @ (if qs_sell_quote_notional q + DUST_NOTIONAL < resulting then [''sell_quote_notional_insufficient''] else [])"

definition sell_blockers :: "real quote_snapshot \<Rightarrow> real \<Rightarrow> string list" where
  "sell_blockers q sell_notional =
     (if qs_latency_seconds q > IMMEDIATE_COPY_MAX_SECONDS then [''latency_above_20s''] else [])
   @ (if \<not> qs_exact_sell_quote_available q then [''exact_sell_quote_missing''] else [])
   @ (if \<not> qs_structurally_exitable q then [''structurally_unexitable''] else [])
   @ (if qs_sell_quote_notional q + DUST_NOTIONAL < sell_notional then [''sell_quote_notional_insufficient''] else [])
   @ (if qs_executable_sell_depth_notional q + DUST_NOTIONAL < sell_notional then [''sell_depth_insufficient''] else [])"

definition mk_action :: "string \<Rightarrow> string list \<Rightarrow> real \<Rightarrow> real \<Rightarrow> string \<Rightarrow> int \<Rightarrow> real \<Rightarrow> capture_action" where
  "mk_action action reasons change resulting lifecycle stage cap =
     \<lparr>ac_action = action, ac_reasons = reasons, ac_notional_change = change,
      ac_resulting_position_notional = max 0 resulting, ac_resulting_lifecycle_state = lifecycle,
      ac_resulting_derisk_stage = stage, ac_liquidity_cap_notional = max 0 cap\<rparr>"

subsection \<open>The planners\<close>

definition plan_starter ::
  "string \<Rightarrow> string \<Rightarrow> py_number \<Rightarrow> py_number \<Rightarrow> string \<Rightarrow> py_number quote_snapshot \<Rightarrow> py_number capture_policy
     \<Rightarrow> capture_action result" where
  "plan_starter candidate_id lane target_notional mark_price impulse_id quote policy =
     bind_result (validate_policy policy) (\<lambda>p.
     bind_result (validate_quote quote) (\<lambda>q.
     if strip candidate_id = [] then Inl (ValueError ''candidate_id_missing'')
     else if strip lane \<notin> set CANONICAL_LANES then Inl (ValueError ''lane_unsupported'')
     else bind_result (finite_nonnegative ''target_notional'' target_notional) (\<lambda>target.
     bind_result (finite_nonnegative ''mark_price'' mark_price) (\<lambda>_.
     if strip impulse_id = [] then Inl (ValueError ''impulse_id_missing'')
     else
       (let cap = depth_limited target q p;
            requested = target * up_starter_fraction_of_target p;
            starter = min (min requested cap) (qs_buy_quote_notional q);
            blockers = buy_blockers q starter starter
              @ (if starter \<le> 0 then [''no_executable_starter_size''] else [])
        in Inr (if blockers \<noteq> []
             then mk_action (if blockers = [''gt_40pct_chase_observe_only''] then ''observe_only'' else ''starter_blocked'')
                    blockers 0 0 ''pre_actionable'' 0 cap
             else mk_action ''starter'' [''starter_fractional_entry''] starter starter ''entered'' 0 cap))))))"

definition scale_reasons :: "real capture_position \<Rightarrow> forward_evidence \<Rightarrow> real \<Rightarrow> string list" where
  "scale_reasons s e mark_price =
     (if cp_position_notional s \<le> 0 then [''no_open_position''] else [])
   @ (if fe_structural_hard_stop e then [''structural_hard_stop''] else [])
   @ (if \<not> fe_new_forward_evidence e then [''no_new_forward_evidence''] else [])
   @ (if strength_evidence_count e \<le> 0 then [''no_strength_evidence''] else [])
   @ (if \<not> fe_continuation_healthy e then [''continuation_not_healthy''] else [])
   @ (if \<not> fe_hazards_acceptable e then [''hazards_not_acceptable_for_scale''] else [])
   @ (if mark_price + DUST_NOTIONAL < cp_last_add_price s then [''averaging_down_prohibited''] else [])"

definition plan_scale_in ::
  "py_number capture_position \<Rightarrow> py_number quote_snapshot \<Rightarrow> forward_evidence \<Rightarrow> py_number capture_policy
     \<Rightarrow> capture_action result" where
  "plan_scale_in position quote e policy =
     bind_result (validate_position position) (\<lambda>s.
     bind_result (validate_policy policy) (\<lambda>p.
     bind_result (validate_quote quote) (\<lambda>q.
     bind_result (finite_nonnegative ''mark_price'' (fe_mark_price e)) (\<lambda>mark_price.
     (let cap = depth_limited (cp_target_notional s) q p;
          room = max 0 (cap - cp_position_notional s);
          planned = min (min (min (cp_target_notional s * up_max_scale_fraction_of_target p) room)
                          (qs_buy_quote_notional q))
                      (max 0 (qs_sell_quote_notional q - cp_position_notional s));
          projected = cp_position_notional s + planned;
          reasons = scale_reasons s e mark_price @ buy_blockers q planned projected
            @ (if planned \<le> 0 then [''no_liquidity_adjusted_scale_room''] else [])
      in Inr (if reasons \<noteq> []
           then mk_action ''scale_blocked'' (fromkeys reasons) 0 (cp_position_notional s)
                  (cp_lifecycle_state s) (cp_derisk_stage s) cap
           else mk_action ''scale_in'' [''new_forward_evidence_confirmed'', ''two_sided_requote_confirmed'']
                  planned projected ''scaling'' (cp_derisk_stage s) cap))))))"

definition runner_conditions :: "forward_evidence \<Rightarrow> bool" where
  "runner_conditions e \<longleftrightarrow> fe_continuation_healthy e \<and> fe_independent_participation_persists e
     \<and> fe_seller_pressure_controlled e \<and> fe_hazards_acceptable e \<and> \<not> fe_attention_decay e
     \<and> \<not> fe_structural_hard_stop e"

definition sell_action ::
  "real capture_position \<Rightarrow> real quote_snapshot \<Rightarrow> real \<Rightarrow> string \<Rightarrow> string list \<Rightarrow> string \<Rightarrow> int \<Rightarrow> real \<Rightarrow> capture_action" where
  "sell_action s q sell_notional action reasons lifecycle stage cap =
     (let blockers = sell_blockers q sell_notional in
      if blockers \<noteq> []
      then mk_action ''exit_blocked'' blockers 0 (cp_position_notional s) (cp_lifecycle_state s) (cp_derisk_stage s) cap
      else
        (let resulting = max 0 (cp_position_notional s - sell_notional)
         in if resulting \<le> DUST_NOTIONAL
            then mk_action action reasons (- sell_notional) 0 ''reentry_watch'' stage cap
            else mk_action action reasons (- sell_notional) resulting lifecycle stage cap))"

text \<open>Keeping a runner: the code writes this branch twice, with and without deterioration.\<close>

definition enter_runner ::
  "real capture_position \<Rightarrow> real quote_snapshot \<Rightarrow> real capture_policy \<Rightarrow> real \<Rightarrow> capture_action" where
  "enter_runner s q p cap =
     (let runner_target = min (cp_position_notional s) (cp_target_notional s * up_runner_fraction_of_target p);
          sell_amount = max 0 (cp_position_notional s - runner_target)
      in if sell_amount \<le> DUST_NOTIONAL
         then mk_action ''enter_runner'' [''runner_conditions_healthy''] 0 (cp_position_notional s) ''runner'' 2 cap
         else sell_action s q sell_amount ''enter_runner''
                [''runner_conditions_healthy'', ''runner_fraction_retained''] ''runner'' 2 cap)"

definition deterioration :: "forward_evidence \<Rightarrow> bool" where
  "deterioration e \<longleftrightarrow> fe_attention_decay e \<and> fe_weakening_price_structure e
     \<or> \<not> fe_seller_pressure_controlled e \<or> \<not> fe_hazards_acceptable e"

text \<open>The decision of \<open>plan_position_management\<close> once its arguments are validated.\<close>

definition manage_position ::
  "real capture_position \<Rightarrow> real quote_snapshot \<Rightarrow> forward_evidence \<Rightarrow> real capture_policy \<Rightarrow> capture_action" where
  "manage_position s q e p =
     (let cap = depth_limited (cp_target_notional s) q p;
          held = cp_position_notional s;
          stage = cp_derisk_stage s
      in if held \<le> 0 then mk_action ''hold_reentry_watch'' [''no_open_position''] 0 0 ''reentry_watch'' stage cap
         else if cp_lifecycle_state s = ''runner'' then
           (if runner_conditions e
            then mk_action ''hold_runner'' [''runner_conditions_healthy''] 0 held ''runner'' stage cap
            else sell_action s q held ''exit_runner'' [''runner_conditions_failed''] ''reentry_watch'' stage cap)
         else if fe_structural_hard_stop e then
           sell_action s q held ''full_exit'' [''structural_hard_stop''] ''reentry_watch'' stage cap
         else if \<not> deterioration e then
           (if stage \<ge> 2 \<and> runner_conditions e then enter_runner s q p cap
            else mk_action ''hold'' [''no_exit_trigger''] 0 held (cp_lifecycle_state s) stage cap)
         else if stage = 0 then
           sell_action s q (held * up_first_derisk_fraction_of_position p) ''stage_derisk_1''
             [''deterioration_detected''] ''de_risking'' 1 cap
         else if stage = 1 then
           sell_action s q (held * up_second_derisk_fraction_of_position p) ''stage_derisk_2''
             [''persistent_deterioration''] ''de_risking'' 2 cap
         else if runner_conditions e then enter_runner s q p cap
         else sell_action s q held ''full_exit'' [''deterioration_persisted_after_staged_derisk'']
                ''reentry_watch'' 2 cap)"

definition plan_position_management ::
  "py_number capture_position \<Rightarrow> py_number quote_snapshot \<Rightarrow> forward_evidence \<Rightarrow> py_number capture_policy
     \<Rightarrow> capture_action result" where
  "plan_position_management position quote e policy =
     bind_result (validate_position position) (\<lambda>s.
     bind_result (validate_policy policy) (\<lambda>p.
     bind_result (validate_quote quote) (\<lambda>q.
     bind_result (finite_nonnegative ''mark_price'' (fe_mark_price e)) (\<lambda>_.
     Inr (manage_position s q e p)))))"

definition reentry_reasons :: "real capture_position \<Rightarrow> forward_evidence \<Rightarrow> second_leg_evidence \<Rightarrow> string list" where
  "reentry_reasons s e leg =
     (let new_impulse = strip (sl_new_impulse_id leg) in
      (if new_impulse = [] then [''new_impulse_id_missing'']
       else if new_impulse = cp_impulse_id s then [''second_leg_must_use_new_impulse''] else [])
    @ (if \<not> sl_consolidation_confirmed leg then [''consolidation_not_confirmed''] else [])
    @ (if \<not> sl_new_independent_buyers leg then [''new_independent_buyers_missing''] else [])
    @ (if \<not> sl_liquidity_expanding leg then [''liquidity_expansion_missing''] else [])
    @ (if \<not> sl_renewed_acceleration leg then [''renewed_acceleration_missing''] else [])
    @ (if \<not> fe_continuation_healthy e then [''continuation_not_healthy''] else [])
    @ (if \<not> fe_hazards_acceptable e then [''hazards_not_acceptable_for_reentry''] else [])
    @ (if fe_structural_hard_stop e then [''structural_hard_stop''] else []))"

definition plan_second_leg_reentry ::
  "py_number capture_position \<Rightarrow> py_number quote_snapshot \<Rightarrow> forward_evidence \<Rightarrow> second_leg_evidence
     \<Rightarrow> py_number capture_policy \<Rightarrow> capture_action result" where
  "plan_second_leg_reentry exited_position quote e leg policy =
     bind_result (validate_position exited_position) (\<lambda>s.
     bind_result (validate_policy policy) (\<lambda>p.
     bind_result (validate_quote quote) (\<lambda>q.
     (let cap = depth_limited (cp_target_notional s) q p in
      if cp_position_notional s > DUST_NOTIONAL
      then Inr (mk_action ''reentry_blocked'' [''prior_position_still_open''] 0 (cp_position_notional s)
                  (cp_lifecycle_state s) (cp_derisk_stage s) cap)
      else
        (let requested = cp_target_notional s * up_starter_fraction_of_target p;
             starter = min (min requested cap) (qs_buy_quote_notional q);
             deduped = fromkeys (reentry_reasons s e leg @ buy_blockers q starter starter
               @ (if starter \<le> 0 then [''no_executable_reentry_size''] else []))
         in Inr (if deduped \<noteq> []
              then mk_action (if deduped = [''gt_40pct_chase_observe_only''] then ''observe_only'' else ''reentry_blocked'')
                     deduped 0 0 ''reentry_watch'' 0 cap
              else mk_action ''reentry_starter'' [''fresh_second_leg_confirmed'', ''two_sided_requote_confirmed'']
                     starter starter ''entered'' 0 cap))))))"

subsection \<open>What validation gives\<close>

lemma finite_nonnegative_Inr [simp]: "finite_nonnegative field v = Inr x \<longleftrightarrow> v = Number x \<and> 0 \<le> x"
  by (cases v) auto

lemma upside_fraction_Inr [simp]:
  "upside_fraction field z v = Inr x \<longleftrightarrow> v = Number x \<and> 0 \<le> x \<and> x \<le> 1 \<and> (z \<or> 0 < x)"
  by (cases v) (auto simp: upside_fraction_def)

definition policy_ok :: "real capture_policy \<Rightarrow> bool" where
  "policy_ok p \<longleftrightarrow> up_starter_fraction_of_target p \<in> {0<..1} \<and> up_max_scale_fraction_of_target p \<in> {0<..1}
     \<and> up_first_derisk_fraction_of_position p \<in> {0<..1} \<and> up_second_derisk_fraction_of_position p \<in> {0<..1}
     \<and> up_runner_fraction_of_target p \<in> {0..1} \<and> 1 \<le> up_minimum_exit_depth_coverage_ratio p"

definition quote_ok :: "real quote_snapshot \<Rightarrow> bool" where
  "quote_ok q \<longleftrightarrow> 0 \<le> qs_latency_seconds q \<and> 0 \<le> qs_chase_fraction q \<and> 0 \<le> qs_buy_quote_notional q
     \<and> 0 \<le> qs_sell_quote_notional q \<and> 0 \<le> qs_executable_sell_depth_notional q"

definition position_ok :: "real capture_position \<Rightarrow> bool" where
  "position_ok s \<longleftrightarrow> 0 \<le> cp_target_notional s \<and> 0 \<le> cp_position_notional s \<and> 0 \<le> cp_last_add_price s
     \<and> cp_derisk_stage s \<in> {0, 1, 2}"

lemma validate_policy_ok: "validate_policy p = Inr p' \<Longrightarrow> policy_ok p'"
  by (auto simp: validate_policy_def bind_result_Inr_iff policy_ok_def split: if_splits)

lemma validate_quote_ok: "validate_quote q = Inr q' \<Longrightarrow> quote_ok q'"
  by (auto simp: validate_quote_def bind_result_Inr_iff quote_ok_def)

lemma validate_position_ok: "validate_position s = Inr s' \<Longrightarrow> position_ok s'"
  by (auto simp: validate_position_def bind_result_Inr_iff position_ok_def split: if_splits)

lemmas validated = validate_policy_ok validate_quote_ok validate_position_ok

lemma DUST_NOTIONAL_pos [simp]: "0 < DUST_NOTIONAL" "0 \<le> DUST_NOTIONAL"
  by (simp_all add: DUST_NOTIONAL_def)

lemma mk_action_simps [simp]:
  "ac_action (mk_action a rs c r l st cap) = a"
  "ac_reasons (mk_action a rs c r l st cap) = rs"
  "ac_notional_change (mk_action a rs c r l st cap) = c"
  "ac_resulting_position_notional (mk_action a rs c r l st cap) = max 0 r"
  "ac_resulting_lifecycle_state (mk_action a rs c r l st cap) = l"
  "ac_resulting_derisk_stage (mk_action a rs c r l st cap) = st"
  by (simp_all add: mk_action_def)

text \<open>The size cap is within the target, the covered depth and the sell quote.\<close>

lemma depth_limited_bounds:
  assumes "0 \<le> target" and "quote_ok q" and "policy_ok p"
  shows "0 \<le> depth_limited target q p" and "depth_limited target q p \<le> target"
    and "depth_limited target q p \<le> qs_sell_quote_notional q"
    and "depth_limited target q p * up_minimum_exit_depth_coverage_ratio p \<le> qs_executable_sell_depth_notional q"
proof -
  have cov: "1 \<le> up_minimum_exit_depth_coverage_ratio p" using assms(3) by (simp add: policy_ok_def)
  have depth: "0 \<le> qs_executable_sell_depth_notional q" "0 \<le> qs_sell_quote_notional q"
    using assms(2) by (simp_all add: quote_ok_def)
  have nn: "0 \<le> qs_executable_sell_depth_notional q / up_minimum_exit_depth_coverage_ratio p"
    using cov depth(1) by simp
  show "0 \<le> depth_limited target q p" by (simp add: depth_limited_def Let_def)
  show "depth_limited target q p \<le> target" "depth_limited target q p \<le> qs_sell_quote_notional q"
    using assms(1) depth(2) nn by (auto simp: depth_limited_def Let_def)
  have "depth_limited target q p \<le> qs_executable_sell_depth_notional q / up_minimum_exit_depth_coverage_ratio p"
    using assms(1) depth(2) nn by (auto simp: depth_limited_def Let_def)
  then show "depth_limited target q p * up_minimum_exit_depth_coverage_ratio p \<le> qs_executable_sell_depth_notional q"
    using cov by (simp add: pos_le_divide_eq)
qed

text \<open>A quote that can sell an amount can sell less.\<close>

lemma sell_blockers_smaller: "sell_blockers q h = [] \<Longrightarrow> x \<le> h \<Longrightarrow> sell_blockers q x = []"
  by (auto simp: sell_blockers_def split: if_splits)

text \<open>Deterioration excludes the runner conditions: the staged exit always ends in a full exit,
  and the second runner branch of the code is never taken.\<close>

lemma deterioration_no_runner: "deterioration e \<Longrightarrow> \<not> runner_conditions e"
  by (auto simp: deterioration_def runner_conditions_def)

subsection \<open>Selling\<close>

definition reduces :: "real capture_position \<Rightarrow> capture_action \<Rightarrow> bool" where
  "reduces s a \<longleftrightarrow> ac_notional_change a \<le> 0 \<and> 0 \<le> ac_resulting_position_notional a
     \<and> ac_resulting_position_notional a \<le> cp_position_notional s
     \<and> \<bar>cp_position_notional s + ac_notional_change a - ac_resulting_position_notional a\<bar> \<le> DUST_NOTIONAL
     \<and> cp_derisk_stage s \<le> ac_resulting_derisk_stage a \<and> ac_resulting_derisk_stage a \<in> {0, 1, 2}"

lemma sell_action_reduces:
  assumes "position_ok s" and "0 \<le> x" and "x \<le> cp_position_notional s"
    and "cp_derisk_stage s \<le> st" and "st \<in> {0, 1, 2}"
  shows "reduces s (sell_action s q x a rs l st cap)"
    and "ac_notional_change (sell_action s q x a rs l st cap) < 0
      \<Longrightarrow> sell_blockers q (- ac_notional_change (sell_action s q x a rs l st cap)) = []"
  using assms by (auto simp: sell_action_def reduces_def position_ok_def Let_def)

lemma sell_all:
  assumes "position_ok s" and "sell_blockers q (cp_position_notional s) = []"
  shows "ac_resulting_position_notional (sell_action s q (cp_position_notional s) a rs l st cap) = 0"
    and "ac_resulting_lifecycle_state (sell_action s q (cp_position_notional s) a rs l st cap) = ''reentry_watch''"
  using assms by (simp_all add: sell_action_def Let_def)

lemma runner_amount:
  fixes held t :: real
  assumes "0 \<le> held" and "0 \<le> t"
  shows "0 \<le> max 0 (held - min held t)" and "max 0 (held - min held t) \<le> held"
  using assms by auto

lemma enter_runner_reduces:
  assumes "position_ok s" and "policy_ok p" and "cp_derisk_stage s \<le> 2"
  shows "reduces s (enter_runner s q p cap)"
    and "ac_notional_change (enter_runner s q p cap) < 0
      \<Longrightarrow> sell_blockers q (- ac_notional_change (enter_runner s q p cap)) = []"
proof -
  have held: "0 \<le> cp_position_notional s" and "0 \<le> cp_target_notional s * up_runner_fraction_of_target p"
    using assms by (auto simp: position_ok_def policy_ok_def)
  note amount = runner_amount [OF this]
  show "reduces s (enter_runner s q p cap)"
  proof (cases "max 0 (cp_position_notional s - min (cp_position_notional s)
      (cp_target_notional s * up_runner_fraction_of_target p)) \<le> DUST_NOTIONAL")
    case True
    then show ?thesis using held assms(3) by (simp add: enter_runner_def Let_def reduces_def)
  next
    case False
    with sell_action_reduces(1) [OF assms(1) amount assms(3)] show ?thesis
      by (simp add: enter_runner_def Let_def)
  qed
  show "sell_blockers q (- ac_notional_change (enter_runner s q p cap)) = []"
    if neg: "ac_notional_change (enter_runner s q p cap) < 0"
  proof (cases "max 0 (cp_position_notional s - min (cp_position_notional s)
      (cp_target_notional s * up_runner_fraction_of_target p)) \<le> DUST_NOTIONAL")
    case True
    with neg show ?thesis by (simp add: enter_runner_def Let_def)
  next
    case False
    with neg sell_action_reduces(2) [OF assms(1) amount assms(3)] show ?thesis
      by (simp add: enter_runner_def Let_def)
  qed
qed

lemma fraction_of_held:
  fixes h f :: real
  assumes "0 \<le> h" and "f \<in> {0<..1}"
  shows "0 \<le> h * f" and "h * f \<le> h"
  using assms by (auto intro: mult_left_le)

lemma hold_reduces: "position_ok s \<Longrightarrow> reduces s (mk_action a rs 0 (cp_position_notional s) l (cp_derisk_stage s) cap)"
  by (simp add: reduces_def position_ok_def)

lemma manage_reduces:
  assumes "position_ok s" and "policy_ok p"
  shows "reduces s (manage_position s q e p)"
proof -
  have st: "cp_derisk_stage s \<in> {0, 1, 2}" "cp_derisk_stage s \<le> 2" and held: "0 \<le> cp_position_notional s"
    using assms(1) by (auto simp: position_ok_def)
  have fr: "up_first_derisk_fraction_of_position p \<in> {0<..1}" "up_second_derisk_fraction_of_position p \<in> {0<..1}"
    using assms(2) by (simp_all add: policy_ok_def)
  note parts = fraction_of_held [OF held fr(1)] fraction_of_held [OF held fr(2)]
  have empty: "cp_position_notional s \<le> 0 \<Longrightarrow> reduces s (mk_action a rs 0 0 l (cp_derisk_stage s) cap)" for a rs l cap
    using st held by (simp add: reduces_def)
  show ?thesis
    using sell_action_reduces(1) [OF assms(1) held order_refl] sell_action_reduces(1) [OF assms(1)] parts st
      enter_runner_reduces(1) [OF assms st(2)] hold_reduces [OF assms(1)] empty
    by (simp add: manage_position_def Let_def) auto
qed

lemma manage_sells_executably:
  assumes "position_ok s" and "policy_ok p" and "ac_notional_change (manage_position s q e p) < 0"
  shows "sell_blockers q (- ac_notional_change (manage_position s q e p)) = []"
proof -
  have st: "cp_derisk_stage s \<in> {0, 1, 2}" "cp_derisk_stage s \<le> 2" and held: "0 \<le> cp_position_notional s"
    using assms(1) by (auto simp: position_ok_def)
  have fr: "up_first_derisk_fraction_of_position p \<in> {0<..1}" "up_second_derisk_fraction_of_position p \<in> {0<..1}"
    using assms(2) by (simp_all add: policy_ok_def)
  note parts = fraction_of_held [OF held fr(1)] fraction_of_held [OF held fr(2)]
  show ?thesis
    using assms(3) sell_action_reduces(2) [OF assms(1) held order_refl] sell_action_reduces(2) [OF assms(1)] parts st
      enter_runner_reduces(2) [OF assms(1,2) st(2)]
    by (simp add: manage_position_def Let_def split: if_splits) auto
qed

subsection \<open>Runs of the manager\<close>

text \<open>A caller carries the outcome of one action into the next position.\<close>

definition follow :: "py_number capture_position \<Rightarrow> capture_action \<Rightarrow> py_number capture_position" where
  "follow s a = s\<lparr>cp_position_notional := Number (ac_resulting_position_notional a),
     cp_lifecycle_state := ac_resulting_lifecycle_state a, cp_derisk_stage := ac_resulting_derisk_stage a\<rparr>"

fun manage_run ::
  "py_number capture_policy \<Rightarrow> py_number capture_position \<Rightarrow> (py_number quote_snapshot \<times> forward_evidence) list
     \<Rightarrow> py_number capture_position result" where
  "manage_run policy s [] = Inr s"
| "manage_run policy s ((quote, e) # rest) =
     bind_result (plan_position_management s quote e policy) (\<lambda>a. manage_run policy (follow s a) rest)"

text \<open>A step that asks for selling and lets an amount be sold.\<close>

definition sellable_deterioration :: "real \<Rightarrow> py_number quote_snapshot \<times> forward_evidence \<Rightarrow> bool" where
  "sellable_deterioration held = (\<lambda>(quote, e). deterioration e
     \<and> (\<exists>q. validate_quote quote = Inr q \<and> sell_blockers q held = [])
     \<and> (\<exists>m. finite_nonnegative ''mark_price'' (fe_mark_price e) = Inr m))"

lemma follow_valid:
  assumes "validate_position s = Inr v" and "reduces v a"
  shows "\<exists>v'. validate_position (follow s a) = Inr v'
    \<and> cp_position_notional v' = ac_resulting_position_notional a
    \<and> cp_lifecycle_state v' = ac_resulting_lifecycle_state a \<and> cp_derisk_stage v' = ac_resulting_derisk_stage a"
  using assms by (auto simp: validate_position_def follow_def reduces_def bind_result_Inr_iff split: if_splits)

text \<open>One deteriorating step: the position closes or the stage advances.\<close>

lemma deteriorating_step:
  assumes "position_ok s" and "policy_ok p" and "deterioration e" and "sell_blockers q held = []"
    and "cp_position_notional s \<le> held"
  shows "ac_resulting_position_notional (manage_position s q e p) = 0
           \<and> ac_resulting_lifecycle_state (manage_position s q e p) = ''reentry_watch''
       \<or> cp_derisk_stage s < 2 \<and> ac_resulting_derisk_stage (manage_position s q e p) = cp_derisk_stage s + 1"
proof -
  have st: "cp_derisk_stage s \<in> {0, 1, 2}" and nn: "0 \<le> cp_position_notional s"
    using assms(1) by (auto simp: position_ok_def)
  have all: "sell_blockers q (cp_position_notional s) = []" by (rule sell_blockers_smaller [OF assms(4,5)])
  have fr: "up_first_derisk_fraction_of_position p \<in> {0<..1}" "up_second_derisk_fraction_of_position p \<in> {0<..1}"
    using assms(2) by (simp_all add: policy_ok_def)
  have part: "sell_blockers q (cp_position_notional s * up_first_derisk_fraction_of_position p) = []"
    "sell_blockers q (cp_position_notional s * up_second_derisk_fraction_of_position p) = []"
    using sell_blockers_smaller [OF all] fraction_of_held [OF nn fr(1)] fraction_of_held [OF nn fr(2)] by auto
  note whole = sell_all [OF assms(1) all]
  have stage: "ac_resulting_derisk_stage (sell_action s q x a rs l n cap) = n" if "sell_blockers q x = []" for x a rs l n cap
    using that by (simp add: sell_action_def Let_def)
  show ?thesis
    using st nn deterioration_no_runner [OF assms(3)] assms(3) part whole stage
    by (simp add: manage_position_def Let_def)
qed

lemma manage_run_closes:
  assumes "validate_policy policy = Inr p" and "validate_position s = Inr v" and "cp_position_notional v \<le> held"
    and "\<forall>step\<in>set steps. sellable_deterioration held step"
    and "cp_position_notional v = 0 \<and> cp_lifecycle_state v = ''reentry_watch'' \<or> nat (3 - cp_derisk_stage v) \<le> length steps"
  shows "\<exists>final. manage_run policy s steps = Inr final \<and> cp_position_notional final = Number 0
    \<and> cp_lifecycle_state final = ''reentry_watch''"
  using assms(2-5)
proof (induction steps arbitrary: s v)
  case Nil
  have "cp_derisk_stage v \<le> 2" using validate_position_ok [OF Nil.prems(1)] by (auto simp: position_ok_def)
  with Nil show ?case by (auto simp: validate_position_def bind_result_Inr_iff split: if_splits)
next
  case (Cons step steps)
  obtain quote e where step: "step = (quote, e)" by (cases step)
  then obtain q m where q: "deterioration e" "validate_quote quote = Inr q" "sell_blockers q held = []"
    "finite_nonnegative ''mark_price'' (fe_mark_price e) = Inr m"
    using Cons.prems(3) by (auto simp: sellable_deterioration_def)
  let ?a = "manage_position v q e p"
  have ok: "position_ok v" "policy_ok p" using validated Cons.prems(1) assms(1) by auto
  have plan: "plan_position_management s quote e policy = Inr ?a"
    using Cons.prems(1) assms(1) q(2,4) by (simp add: plan_position_management_def)
  obtain v' where v': "validate_position (follow s ?a) = Inr v'"
    "cp_position_notional v' = ac_resulting_position_notional ?a"
    "cp_lifecycle_state v' = ac_resulting_lifecycle_state ?a" "cp_derisk_stage v' = ac_resulting_derisk_stage ?a"
    using follow_valid [OF Cons.prems(1) manage_reduces [OF ok]] by blast
  have "cp_position_notional v' \<le> held"
    using manage_reduces [OF ok, of q e] v'(2) Cons.prems(2) by (simp add: reduces_def)
  moreover have "cp_position_notional v' = 0 \<and> cp_lifecycle_state v' = ''reentry_watch''
      \<or> nat (3 - cp_derisk_stage v') \<le> length steps"
  proof (cases "cp_position_notional v = 0")
    case True
    then have "?a = mk_action ''hold_reentry_watch'' [''no_open_position''] 0 0 ''reentry_watch'' (cp_derisk_stage v)
        (depth_limited (cp_target_notional v) q p)"
      by (simp add: manage_position_def Let_def)
    with v' show ?thesis by simp
  next
    case False
    with deteriorating_step [OF ok q(1,3) Cons.prems(2)] v' Cons.prems(4) show ?thesis by auto
  qed
  ultimately show ?case using Cons.IH [OF v'(1)] Cons.prems(3) by (simp add: step plan)
qed

subsection \<open>Properties\<close>

text \<open>Position management only ever reduces a position: a plan that returns never buys, books
  the amount sold against the position up to the dust it writes off, never moves the
  de-risking stage back, and sells only what the quote of that instant can execute. A hard
  stop with an executable quote closes the whole position.\<close>

theorem management_only_reduces:
  assumes "plan_position_management position quote e policy = Inr a"
  shows "\<exists>s q. validate_position position = Inr s \<and> validate_quote quote = Inr q
    \<and> ac_notional_change a \<le> 0 \<and> 0 \<le> ac_resulting_position_notional a
    \<and> ac_resulting_position_notional a \<le> cp_position_notional s
    \<and> \<bar>cp_position_notional s + ac_notional_change a - ac_resulting_position_notional a\<bar> \<le> DUST_NOTIONAL
    \<and> cp_derisk_stage s \<le> ac_resulting_derisk_stage a \<and> ac_resulting_derisk_stage a \<in> {0, 1, 2}
    \<and> (ac_notional_change a < 0 \<longrightarrow> sell_blockers q (- ac_notional_change a) = [])
    \<and> (fe_structural_hard_stop e \<and> sell_blockers q (cp_position_notional s) = []
         \<longrightarrow> ac_resulting_position_notional a = 0)"
proof -
  obtain s q p where s: "validate_position position = Inr s" "validate_policy policy = Inr p"
    "validate_quote quote = Inr q" "a = manage_position s q e p"
    using assms by (auto simp: plan_position_management_def bind_result_Inr_iff)
  then have ok: "position_ok s" "policy_ok p" using validated by auto
  have "ac_resulting_position_notional a = 0"
    if stop: "fe_structural_hard_stop e" "sell_blockers q (cp_position_notional s) = []"
    using stop sell_all(1) [OF ok(1) stop(2)] s(4)
    by (simp add: manage_position_def runner_conditions_def Let_def)
  with s(1,3,4) manage_reduces [OF ok] manage_sells_executably [OF ok] show ?thesis
    unfolding reduces_def by blast
qed

definition demo_policy :: "py_number capture_policy" where
  "demo_policy = \<lparr>up_starter_fraction_of_target = Number (1 / 4), up_max_scale_fraction_of_target = Number (1 / 2),
     up_first_derisk_fraction_of_position = Number (1 / 2), up_second_derisk_fraction_of_position = Number (1 / 2),
     up_runner_fraction_of_target = Number (1 / 10), up_minimum_exit_depth_coverage_ratio = Number 2\<rparr>"

definition demo_capture :: "py_number capture_position" where
  "demo_capture = \<lparr>cp_candidate_id = ''c'', cp_lane = ''fomo'', cp_target_notional = Number 100,
     cp_position_notional = Number 40, cp_last_add_price = Number 1, cp_lifecycle_state = ''scaling'',
     cp_derisk_stage = 0, cp_impulse_id = ''i''\<rparr>"

definition demo_quote :: "py_number quote_snapshot" where
  "demo_quote = \<lparr>qs_latency_seconds = Number 2, qs_chase_fraction = Number (1 / 10),
     qs_exact_buy_quote_available = True, qs_exact_sell_quote_available = True, qs_structurally_exitable = True,
     qs_buy_quote_notional = Number 200, qs_sell_quote_notional = Number 200,
     qs_executable_sell_depth_notional = Number 400\<rparr>"

definition demo_forward :: "bool \<Rightarrow> forward_evidence" where
  "demo_forward healthy = \<lparr>fe_mark_price = Number 1, fe_new_forward_evidence = True,
     fe_independent_buying_accelerating = True, fe_wallet_quality_improving = False,
     fe_liquidity_improving = False, fe_sell_depth_improving = False, fe_concentration_improving = False,
     fe_hazard_declining = False, fe_buyer_breadth_expanding = False, fe_incremental_slippage_acceptable = False,
     fe_continuation_healthy = True, fe_independent_participation_persists = True,
     fe_seller_pressure_controlled = healthy, fe_hazards_acceptable = True, fe_attention_decay = False,
     fe_weakening_price_structure = False, fe_structural_hard_stop = False\<rparr>"

lemmas demo_upside = demo_policy_def demo_capture_def demo_quote_def demo_forward_def

lemma demo_strip: "strip ''c'' = ''c''" "strip ''i'' = ''i''" "strip ''j'' = ''j''" "strip ''fomo'' = ''fomo''" "''fomo'' \<in> set CANONICAL_LANES"
  by (simp_all add: strip_def is_space_def) code_simp

lemma demo_validated:
  "\<exists>p. validate_policy demo_policy = Inr p" "\<exists>q. validate_quote demo_quote = Inr q \<and> sell_blockers q 40 = []"
  "\<exists>s. validate_position demo_capture = Inr s \<and> cp_position_notional s = 40"
  by (simp_all add: demo_upside demo_strip validate_policy_def upside_fraction_def validate_quote_def
      validate_position_def sell_blockers_def DUST_NOTIONAL_def IMMEDIATE_COPY_MAX_SECONDS_def)

theorem management_only_reduces_witness:
  "\<exists>a s. plan_position_management demo_capture demo_quote (demo_forward False) demo_policy = Inr a
     \<and> validate_position demo_capture = Inr s \<and> ac_resulting_position_notional a \<le> cp_position_notional s"
proof -
  obtain a where "plan_position_management demo_capture demo_quote (demo_forward False) demo_policy = Inr a"
    using demo_validated by (auto simp: plan_position_management_def demo_forward_def)
  with management_only_reduces [OF this] show ?thesis by blast
qed

text \<open>C30. Under persistent deterioration a position is closed in at most three management steps: if
  every step reports deterioration, has a valid mark price and a quote that could sell what was held at the
  start, then running the planner, each action carried into the next position, returns a
  position of zero that waits for re-entry, whatever stage and lifecycle it started in.\<close>

theorem deterioration_closes_position:
  assumes "validate_policy policy = Inr p" and "validate_position position = Inr s"
    and "\<forall>step\<in>set steps. sellable_deterioration (cp_position_notional s) step"
    and "3 \<le> length steps"
  shows "\<exists>final. manage_run policy position steps = Inr final \<and> cp_position_notional final = Number 0
    \<and> cp_lifecycle_state final = ''reentry_watch''"
proof -
  have "0 \<le> cp_derisk_stage s" using validate_position_ok [OF assms(2)] by (auto simp: position_ok_def)
  with assms(4) have "nat (3 - cp_derisk_stage s) \<le> length steps" by simp
  then show ?thesis by (intro manage_run_closes [OF assms(1,2) order_refl assms(3)]) simp
qed

theorem deterioration_closes_position_witness:
  "\<exists>final. manage_run demo_policy demo_capture (replicate 3 (demo_quote, demo_forward False)) = Inr final
     \<and> cp_position_notional final = Number 0 \<and> cp_lifecycle_state final = ''reentry_watch''"
proof -
  obtain p s where p: "validate_policy demo_policy = Inr p" and s: "validate_position demo_capture = Inr s"
      "cp_position_notional s = 40"
    using demo_validated by blast
  have "sellable_deterioration (cp_position_notional s) (demo_quote, demo_forward False)"
    using demo_validated(2) s(2) by (simp add: sellable_deterioration_def demo_forward_def deterioration_def)
  then show ?thesis by (intro deterioration_closes_position [OF p s(1)]) simp_all
qed

text \<open>A purchase that its quote and its sell depth cover.\<close>

definition covered_buy ::
  "py_number quote_snapshot \<Rightarrow> py_number capture_policy \<Rightarrow> real \<Rightarrow> real \<Rightarrow> capture_action \<Rightarrow> bool" where
  "covered_buy quote policy target held a \<longleftrightarrow> (\<exists>q p. validate_quote quote = Inr q \<and> validate_policy policy = Inr p
     \<and> ac_resulting_position_notional a = held + ac_notional_change a
     \<and> ac_resulting_position_notional a \<le> target
     \<and> ac_resulting_position_notional a \<le> qs_sell_quote_notional q
     \<and> ac_resulting_position_notional a * up_minimum_exit_depth_coverage_ratio p \<le> qs_executable_sell_depth_notional q
     \<and> ac_notional_change a \<le> qs_buy_quote_notional q
     \<and> qs_latency_seconds q \<le> IMMEDIATE_COPY_MAX_SECONDS
     \<and> qs_chase_fraction q \<le> HIGH_CHASE_OBSERVE_ONLY_THRESHOLD
     \<and> qs_exact_buy_quote_available q \<and> qs_exact_sell_quote_available q \<and> qs_structurally_exitable q)"

lemma buy_blockers_Nil:
  "buy_blockers q n r = [] \<Longrightarrow> qs_latency_seconds q \<le> IMMEDIATE_COPY_MAX_SECONDS
     \<and> qs_chase_fraction q \<le> HIGH_CHASE_OBSERVE_ONLY_THRESHOLD
     \<and> qs_exact_buy_quote_available q \<and> qs_exact_sell_quote_available q \<and> qs_structurally_exitable q"
  by (auto simp: buy_blockers_def split: if_splits)

lemma within_covered:
  assumes "0 \<le> target" "quote_ok q" "policy_ok p" and "0 \<le> r" "r \<le> depth_limited target q p"
  shows "r \<le> target" "r \<le> qs_sell_quote_notional q"
    "r * up_minimum_exit_depth_coverage_ratio p \<le> qs_executable_sell_depth_notional q"
proof -
  note cap = depth_limited_bounds [OF assms(1-3)]
  show "r \<le> target" "r \<le> qs_sell_quote_notional q" using cap assms(5) by linarith+
  have "r * up_minimum_exit_depth_coverage_ratio p \<le> depth_limited target q p * up_minimum_exit_depth_coverage_ratio p"
    using assms(3,5) by (intro mult_right_mono) (auto simp: policy_ok_def)
  with cap(4) show "r * up_minimum_exit_depth_coverage_ratio p \<le> qs_executable_sell_depth_notional q" by linarith
qed

lemma covered_buyI:
  assumes "validate_quote quote = Inr q" "validate_policy policy = Inr p" "0 \<le> target"
    and "ac_resulting_position_notional a = held + ac_notional_change a" "0 \<le> ac_resulting_position_notional a"
    and "ac_resulting_position_notional a \<le> depth_limited target q p"
    and "ac_notional_change a \<le> qs_buy_quote_notional q" "buy_blockers q n r = []"
  shows "covered_buy quote policy target held a"
proof -
  have "quote_ok q" "policy_ok p" using assms(1,2) validated by auto
  from within_covered [OF assms(3) this assms(5,6)] buy_blockers_Nil [OF assms(8)] assms(1,2,4,7) show ?thesis
    unfolding covered_buy_def by blast
qed

lemma fromkeys_Nil [simp]: "fromkeys xs = [] \<longleftrightarrow> xs = []"
  by (metis set_empty set_fromkeys)

lemma starter_covered:
  assumes "plan_starter candidate lane (Number target) mark impulse quote policy = Inr a" and "0 < ac_notional_change a"
  shows "covered_buy quote policy target 0 a"
proof -
  obtain p q where pq: "validate_policy policy = Inr p" "validate_quote quote = Inr q" "0 \<le> target"
    using assms(1) by (auto simp: plan_starter_def bind_result_Inr_iff split: if_splits)
  obtain st where st: "st = min (min (target * up_starter_fraction_of_target p) (depth_limited target q p)) (qs_buy_quote_notional q)"
    by blast
  have "buy_blockers q st st = [] \<and> 0 < st \<and> ac_notional_change a = st \<and> ac_resulting_position_notional a = st"
    using assms pq by (auto simp: plan_starter_def bind_result_Inr_iff Let_def st [symmetric] split: if_splits)
  moreover have "st \<le> depth_limited target q p" "st \<le> qs_buy_quote_notional q" unfolding st by auto
  ultimately show ?thesis using covered_buyI [OF pq(2,1,3)] by auto
qed

lemma scale_in_covered:
  assumes "plan_scale_in position quote e policy = Inr a" and "0 < ac_notional_change a"
  shows "\<exists>s m. validate_position position = Inr s \<and> fe_mark_price e = Number m
    \<and> covered_buy quote policy (cp_target_notional s) (cp_position_notional s) a \<and> scale_reasons s e m = []"
proof -
  obtain s p q m where v: "validate_position position = Inr s" "validate_policy policy = Inr p"
    "validate_quote quote = Inr q" "fe_mark_price e = Number m"
    using assms(1) by (auto simp: plan_scale_in_def bind_result_Inr_iff)
  have ok: "0 \<le> cp_target_notional s" "0 \<le> cp_position_notional s" "quote_ok q" "policy_ok p"
    using validated v by (auto simp: position_ok_def)
  obtain planned where pl: "planned = min (min (min (cp_target_notional s * up_max_scale_fraction_of_target p)
        (max 0 (depth_limited (cp_target_notional s) q p - cp_position_notional s))) (qs_buy_quote_notional q))
        (max 0 (qs_sell_quote_notional q - cp_position_notional s))"
    by blast
  have bought: "scale_reasons s e m = [] \<and> buy_blockers q planned (cp_position_notional s + planned) = [] \<and> 0 < planned
      \<and> ac_notional_change a = planned \<and> ac_resulting_position_notional a = cp_position_notional s + planned"
    using assms v ok(2) by (auto simp: plan_scale_in_def bind_result_Inr_iff Let_def pl [symmetric] split: if_splits)
  have "planned \<le> max 0 (depth_limited (cp_target_notional s) q p - cp_position_notional s)"
    and buy: "planned \<le> qs_buy_quote_notional q" unfolding pl by auto
  then have "cp_position_notional s + planned \<le> depth_limited (cp_target_notional s) q p" using bought by linarith
  with bought buy ok have "covered_buy quote policy (cp_target_notional s) (cp_position_notional s) a"
    by (intro covered_buyI [OF v(3,2)]) auto
  with v bought show ?thesis by blast
qed

lemma reentry_covered:
  assumes "plan_second_leg_reentry position quote e leg policy = Inr a" and "0 < ac_notional_change a"
  shows "\<exists>s. validate_position position = Inr s \<and> cp_position_notional s \<le> DUST_NOTIONAL
    \<and> covered_buy quote policy (cp_target_notional s) 0 a \<and> reentry_reasons s e leg = []"
proof -
  obtain s p q where v: "validate_position position = Inr s" "validate_policy policy = Inr p"
    "validate_quote quote = Inr q"
    using assms(1) by (auto simp: plan_second_leg_reentry_def bind_result_Inr_iff)
  have ok: "0 \<le> cp_target_notional s" using validated v by (auto simp: position_ok_def)
  obtain st where st: "st = min (min (cp_target_notional s * up_starter_fraction_of_target p)
      (depth_limited (cp_target_notional s) q p)) (qs_buy_quote_notional q)"
    by blast
  have "cp_position_notional s \<le> DUST_NOTIONAL \<and> reentry_reasons s e leg = [] \<and> buy_blockers q st st = [] \<and> 0 < st
      \<and> ac_notional_change a = st \<and> ac_resulting_position_notional a = st"
    using assms v by (auto simp: plan_second_leg_reentry_def bind_result_Inr_iff Let_def st [symmetric] split: if_splits)
  moreover have "st \<le> depth_limited (cp_target_notional s) q p" "st \<le> qs_buy_quote_notional q" unfolding st by auto
  ultimately show ?thesis using covered_buyI [OF v(3,2) ok] v(1) by auto
qed

lemma scale_reasons_Nil:
  "scale_reasons s e m = [] \<longleftrightarrow> 0 < cp_position_notional s \<and> \<not> fe_structural_hard_stop e \<and> fe_new_forward_evidence e
     \<and> 0 < strength_evidence_count e \<and> fe_continuation_healthy e \<and> fe_hazards_acceptable e
     \<and> cp_last_add_price s \<le> m + DUST_NOTIONAL"
  by (auto simp: scale_reasons_def not_le not_less)

lemma reentry_reasons_Nil:
  "reentry_reasons s e leg = [] \<longleftrightarrow> strip (sl_new_impulse_id leg) \<notin> {[], cp_impulse_id s}
     \<and> sl_consolidation_confirmed leg \<and> sl_new_independent_buyers leg \<and> sl_liquidity_expanding leg
     \<and> sl_renewed_acceleration leg \<and> fe_continuation_healthy e \<and> fe_hazards_acceptable e
     \<and> \<not> fe_structural_hard_stop e"
  by (auto simp: reentry_reasons_def Let_def)

text \<open>Every planned purchase is small enough to leave again: whichever of the three planners buys,
  the resulting position is within the target, the sell quote and the sell depth divided by
  the coverage ratio, the purchase is within the buy quote, both quotes are exact, fresh and
  within the chase limit. A scale-in needs an open position, new and strengthening evidence
  and no averaging down; a re-entry needs a closed position and a new confirmed impulse.\<close>

theorem upside_buys_are_covered:
  assumes "0 < ac_notional_change a"
  shows "(plan_starter candidate lane (Number target) mark impulse quote policy = Inr a
      \<longrightarrow> covered_buy quote policy target 0 a)
    \<and> (plan_scale_in position quote e policy = Inr a
      \<longrightarrow> (\<exists>s m. validate_position position = Inr s \<and> fe_mark_price e = Number m
        \<and> covered_buy quote policy (cp_target_notional s) (cp_position_notional s) a
        \<and> 0 < cp_position_notional s \<and> fe_new_forward_evidence e \<and> 0 < strength_evidence_count e
        \<and> \<not> fe_structural_hard_stop e \<and> cp_last_add_price s \<le> m + DUST_NOTIONAL))
    \<and> (plan_second_leg_reentry position quote e leg policy = Inr a
      \<longrightarrow> (\<exists>s. validate_position position = Inr s \<and> cp_position_notional s \<le> DUST_NOTIONAL
        \<and> covered_buy quote policy (cp_target_notional s) 0 a
        \<and> strip (sl_new_impulse_id leg) \<notin> {[], cp_impulse_id s} \<and> sl_consolidation_confirmed leg
        \<and> sl_new_independent_buyers leg \<and> sl_liquidity_expanding leg \<and> sl_renewed_acceleration leg))"
proof (intro conjI impI)
  show "covered_buy quote policy target 0 a" if "plan_starter candidate lane (Number target) mark impulse quote policy = Inr a"
    by (rule starter_covered [OF that assms])
next
  assume "plan_scale_in position quote e policy = Inr a"
  from scale_in_covered [OF this assms] obtain s m where "validate_position position = Inr s" "fe_mark_price e = Number m"
    "covered_buy quote policy (cp_target_notional s) (cp_position_notional s) a" "scale_reasons s e m = []" by blast
  then show "\<exists>s m. validate_position position = Inr s \<and> fe_mark_price e = Number m
        \<and> covered_buy quote policy (cp_target_notional s) (cp_position_notional s) a
        \<and> 0 < cp_position_notional s \<and> fe_new_forward_evidence e \<and> 0 < strength_evidence_count e
        \<and> \<not> fe_structural_hard_stop e \<and> cp_last_add_price s \<le> m + DUST_NOTIONAL"
    by (simp add: scale_reasons_Nil)
next
  assume "plan_second_leg_reentry position quote e leg policy = Inr a"
  from reentry_covered [OF this assms] obtain s where "validate_position position = Inr s"
    "cp_position_notional s \<le> DUST_NOTIONAL" "covered_buy quote policy (cp_target_notional s) 0 a"
    "reentry_reasons s e leg = []" by blast
  then show "\<exists>s. validate_position position = Inr s \<and> cp_position_notional s \<le> DUST_NOTIONAL
        \<and> covered_buy quote policy (cp_target_notional s) 0 a
        \<and> strip (sl_new_impulse_id leg) \<notin> {[], cp_impulse_id s} \<and> sl_consolidation_confirmed leg
        \<and> sl_new_independent_buyers leg \<and> sl_liquidity_expanding leg \<and> sl_renewed_acceleration leg"
    by (simp add: reentry_reasons_Nil)
qed

theorem upside_buys_are_covered_witness:
  "\<exists>a s m. plan_scale_in demo_capture demo_quote (demo_forward True) demo_policy = Inr a
     \<and> 0 < ac_notional_change a \<and> validate_position demo_capture = Inr s \<and> fe_mark_price (demo_forward True) = Number m
     \<and> cp_last_add_price s \<le> m + DUST_NOTIONAL"
proof -
  define p :: "real capture_policy" where "p = \<lparr>up_starter_fraction_of_target = 1 / 4,
    up_max_scale_fraction_of_target = 1 / 2, up_first_derisk_fraction_of_position = 1 / 2,
    up_second_derisk_fraction_of_position = 1 / 2, up_runner_fraction_of_target = 1 / 10,
    up_minimum_exit_depth_coverage_ratio = 2\<rparr>"
  define q :: "real quote_snapshot" where "q = \<lparr>qs_latency_seconds = 2, qs_chase_fraction = 1 / 10,
    qs_exact_buy_quote_available = True, qs_exact_sell_quote_available = True, qs_structurally_exitable = True,
    qs_buy_quote_notional = 200, qs_sell_quote_notional = 200, qs_executable_sell_depth_notional = 400\<rparr>"
  define s :: "real capture_position" where "s = \<lparr>cp_candidate_id = ''c'', cp_lane = ''fomo'',
    cp_target_notional = 100, cp_position_notional = 40, cp_last_add_price = 1, cp_lifecycle_state = ''scaling'',
    cp_derisk_stage = 0, cp_impulse_id = ''i''\<rparr>"
  have valid: "validate_policy demo_policy = Inr p" "validate_quote demo_quote = Inr q"
    "validate_position demo_capture = Inr s"
    by (simp_all add: demo_upside demo_strip validate_policy_def upside_fraction_def validate_quote_def
        validate_position_def p_def q_def s_def)
  have cap: "depth_limited 100 q p = 100" by (simp add: depth_limited_def p_def q_def)
  have "scale_reasons s (demo_forward True) 1 = []"
    by (simp add: scale_reasons_Nil s_def demo_forward_def strength_evidence_count_def)
  moreover have "buy_blockers q 50 90 = []"
    by (simp add: buy_blockers_def q_def DUST_NOTIONAL_def IMMEDIATE_COPY_MAX_SECONDS_def HIGH_CHASE_OBSERVE_ONLY_THRESHOLD_def)
  ultimately have "plan_scale_in demo_capture demo_quote (demo_forward True) demo_policy
      = Inr (mk_action ''scale_in'' [''new_forward_evidence_confirmed'', ''two_sided_requote_confirmed''] 50 90 ''scaling'' 0 100)"
    using cap by (simp add: plan_scale_in_def valid) (simp add: demo_forward_def s_def p_def q_def)
  then obtain a where a: "plan_scale_in demo_capture demo_quote (demo_forward True) demo_policy = Inr a"
    "0 < ac_notional_change a" by (metis mk_action_simps(3) zero_less_numeral)
  with upside_buys_are_covered [OF a(2)] show ?thesis by blast
qed

end
