(* ===== verification/Curve.thy ===== *)
theory Curve
  imports Prelude
begin

text \<open>
  The Robinhood-chain core (\<open>robinhood_chain_core.py\<close>): the ABI word codec, the curve buy and
  sell quotes with their integer arithmetic, the quoter calldata, and the classification of
  context returns. The chain is external: \<open>eth_call\<close> and \<open>selector\<close> are arguments, functions
  from a call to its raw answer, since no operation repeats a call. Python integers are \<open>int\<close>,
  \<open>//\<close> is \<open>div\<close>.
\<close>

subsection \<open>Words\<close>

definition hex_digit :: "char \<Rightarrow> nat option" where
  "hex_digit c = (let n = of_char c :: nat in
     if 48 \<le> n \<and> n \<le> 57 then Some (n - 48)
     else if 97 \<le> n \<and> n \<le> 102 then Some (n - 87)
     else if 65 \<le> n \<and> n \<le> 70 then Some (n - 55)
     else None)"

definition hex_char :: "nat \<Rightarrow> char" where
  "hex_char d = char_of (if d < 10 then 48 + d else 87 + d)"

text \<open>The digits of \<open>int(s, 16)\<close> after the prefix: single underscores may separate digits.\<close>

fun hex_loop :: "bool \<Rightarrow> nat \<Rightarrow> string \<Rightarrow> nat option" where
  "hex_loop need_digit acc [] = (if need_digit then None else Some acc)"
| "hex_loop need_digit acc (c # cs) =
     (case hex_digit c of
        Some d \<Rightarrow> hex_loop False (16 * acc + d) cs
      | None \<Rightarrow> if c = CHR ''_'' \<and> \<not> need_digit then hex_loop True acc cs else None)"

definition hex_text :: "string \<Rightarrow> nat result" where
  "hex_text s = (let digits = rev (dropWhile is_space (rev s)) in
     case (if digits = [] then None else hex_loop False 0 digits) of
       None \<Rightarrow> Inl (ValueError ''invalid literal for int() with base 16'')
     | Some n \<Rightarrow> Inr n)"

text \<open>\<open>_uint\<close> on a word, which \<open>_words\<close> has given its \<open>0x\<close> prefix.\<close>

definition uint_word :: "string \<Rightarrow> int result" where
  "uint_word word = bind_result (hex_text (removeprefix ''0x'' word)) (\<lambda>n. Inr (int n))"

definition signed_word :: "string \<Rightarrow> nat \<Rightarrow> int result" where
  "signed_word word bits = bind_result (uint_word word) (\<lambda>v0.
     (let limit = 2 ^ bits; sign = 2 ^ (bits - 1); v = v0 mod limit
      in Inr (if v div sign mod 2 = 1 then v - limit else v)))"

fun chunks :: "nat \<Rightarrow> string \<Rightarrow> string list" where
  "chunks 0 s = []"
| "chunks (Suc n) s = take 64 s # chunks n (drop 64 s)"

definition words :: "string \<Rightarrow> string list" where
  "words data = (let raw = removeprefix ''0x'' data in
     if length raw mod 64 \<noteq> 0 then []
     else map (\<lambda>w. ''0x'' @ w) (chunks (length raw div 64) raw))"

fun hex_of :: "nat \<Rightarrow> nat \<Rightarrow> string" where
  "hex_of 0 v = []"
| "hex_of (Suc n) v = hex_of n (v div 16) @ [hex_char (v mod 16)]"

definition word_uint :: "int \<Rightarrow> string result" where
  "word_uint v0 = (let v = (if v0 < 0 then 2 ^ 256 + v0 else v0) in
     if v < 0 \<or> 2 ^ 256 \<le> v then Inl (OverflowError ''int too big to convert'')
     else Inr (hex_of 64 (nat v)))"

definition word_bool :: "bool \<Rightarrow> string result" where
  "word_bool b = word_uint (if b then 1 else 0)"

definition clean_address :: "string option \<Rightarrow> string" where
  "clean_address v = (let raw = lower (or_default v []) in
     if take 2 raw = ''0x'' \<and> length raw = 42 then raw else [])"

definition word_address :: "string \<Rightarrow> string" where
  "word_address word = (let raw = removeprefix ''0x'' (lower word) in
     if length raw \<noteq> 64 then [] else ''0x'' @ drop 24 raw)"

definition word_addr :: "string \<Rightarrow> string result" where
  "word_addr v = (let raw = removeprefix ''0x'' (clean_address (Some v)) in
     if length raw \<noteq> 40 then Inl (ValueError ''invalid EVM address'')
     else Inr (replicate 24 (CHR ''0'') @ raw))"

subsection \<open>The codec contract\<close>

text \<open>The words of a join, the first that fails raising its error.\<close>

fun join_words :: "string result list \<Rightarrow> string result" where
  "join_words [] = Inr []"
| "join_words (w # ws) = bind_result w (\<lambda>a. bind_result (join_words ws) (\<lambda>b. Inr (a @ b)))"

lemma chunks_concat:
  "list_all (\<lambda>w. length w = 64) ws \<Longrightarrow> chunks (length ws) (concat ws) = ws"
  by (induction ws) simp_all

lemma length_concat_words: "list_all (\<lambda>w. length w = 64) ws \<Longrightarrow> length (concat ws) = 64 * length ws"
  by (induction ws) simp_all

lemma words_concat:
  assumes "list_all (\<lambda>w. length w = 64) ws"
  shows "words (''0x'' @ concat ws) = map (\<lambda>w. ''0x'' @ w) ws"
  using chunks_concat [OF assms] length_concat_words [OF assms]
  by (simp add: words_def removeprefix_def Let_def)

lemma join_words_Inr: "join_words (map Inr ws) = Inr (concat ws)"
  by (induction ws) simp_all

text \<open>One kind of ABI word: a value in range is written as 64 characters and read back from the
  prefixed word. Payloads of many words are then read back word by word.\<close>

locale word_codec =
  fixes encode :: "'v \<Rightarrow> string result"
    and decode :: "string \<Rightarrow> 'v result"
    and in_range :: "'v \<Rightarrow> bool"
  assumes round_trip: "in_range v \<Longrightarrow> \<exists>w. encode v = Inr w \<and> length w = 64 \<and> decode (''0x'' @ w) = Inr v"
begin

lemma encoded_words:
  "list_all in_range vs \<Longrightarrow> \<exists>ws. map encode vs = map Inr ws \<and> list_all (\<lambda>w. length w = 64) ws
     \<and> list_all2 (\<lambda>w v. decode (''0x'' @ w) = Inr v) ws vs"
proof (induction vs)
  case (Cons v vs)
  then obtain ws where "map encode vs = map Inr ws" "list_all (\<lambda>w. length w = 64) ws"
    "list_all2 (\<lambda>w v. decode (''0x'' @ w) = Inr v) ws vs" by auto
  moreover obtain w where "encode v = Inr w" "length w = 64" "decode (''0x'' @ w) = Inr v"
    using round_trip Cons.prems by auto
  ultimately show ?case by (intro exI [of _ "w # ws"]) simp
qed simp

lemma payload_round_trip:
  assumes "list_all in_range vs"
  shows "\<exists>payload. join_words (map encode vs) = Inr payload \<and> length payload = 64 * length vs
     \<and> list_all2 (\<lambda>w v. decode w = Inr v) (words (''0x'' @ payload)) vs"
proof -
  obtain ws where ws: "map encode vs = map Inr ws" "list_all (\<lambda>w. length w = 64) ws"
    "list_all2 (\<lambda>w v. decode (''0x'' @ w) = Inr v) ws vs"
    using encoded_words [OF assms] by blast
  have "length ws = length vs" using ws(1) by (metis length_map)
  with ws join_words_Inr [of ws] words_concat [OF ws(2)] length_concat_words [OF ws(2)] show ?thesis
    by (simp add: list_all2_map1)
qed

end

lemma hex_digit_char [simp]: "d < 16 \<Longrightarrow> hex_digit (hex_char d) = Some d"
  by (auto simp: hex_digit_def hex_char_def Let_def)

lemma hex_char_no_space [simp]: "d < 16 \<Longrightarrow> \<not> is_space (hex_char d)"
  by (auto simp: is_space_def hex_char_def)

lemma length_hex_of [simp]: "length (hex_of n v) = n"
  by (induction n arbitrary: v) simp_all

lemma hex_loop_hex_of:
  "v < 16 ^ n \<Longrightarrow> hex_loop False acc (hex_of n v @ rest) = hex_loop False (acc * 16 ^ n + v) rest"
proof (induction n arbitrary: v acc rest)
  case (Suc n)
  then have "v div 16 < 16 ^ n" by (simp add: less_mult_imp_div_less mult.commute)
  with Suc.IH [OF this, of acc "hex_char (v mod 16) # rest"] show ?case by (simp add: algebra_simps)
qed simp

lemma hex_text_hex_of:
  assumes "v < 16 ^ Suc n"
  shows "hex_text (hex_of (Suc n) v) = Inr v"
  using hex_loop_hex_of [OF assms, of 0 "[]"] by (simp add: hex_text_def Let_def del: power_Suc)

lemma uint_word_round_trip:
  assumes "0 \<le> v" "v < 2 ^ 256"
  shows "word_uint v = Inr (hex_of 64 (nat v)) \<and> uint_word (''0x'' @ hex_of 64 (nat v)) = Inr v"
proof -
  have "nat v < nat (2 ^ 256)" using assms by (subst nat_mono_iff) simp_all
  then have "nat v < 16 ^ Suc 63" by simp
  from hex_text_hex_of [OF this] assms show ?thesis
    by (simp add: word_uint_def uint_word_def removeprefix_def Let_def not_le numeral_eq_Suc del: hex_of.simps power_Suc)
qed

lemma signed_word_round_trip:
  assumes "- (2 ^ 255) \<le> v" "v < 2 ^ 255"
  shows "\<exists>w. word_uint v = Inr w \<and> length w = 64 \<and> signed_word (''0x'' @ w) 256 = Inr v"
proof -
  define u where "u = (if v < 0 then 2 ^ 256 + v else v)"
  have u: "0 \<le> u" "u < 2 ^ 256" using assms by (auto simp: u_def)
  have "word_uint v = word_uint u" using u by (simp add: word_uint_def u_def Let_def)
  moreover have "signed_word (''0x'' @ hex_of 64 (nat u)) 256 = Inr v"
  proof -
    have "u mod 2 ^ 256 = u" using u by simp
    moreover have "u div 2 ^ 255 mod 2 = 1 \<longleftrightarrow> v < 0"
    proof (cases "v < 0")
      case True
      then have "u div 2 ^ 255 = 1" using assms by (intro int_div_pos_eq [where r = "u - 2 ^ 255"]) (auto simp: u_def)
      with True show ?thesis by simp
    next
      case False
      then have "u div 2 ^ 255 = 0" using assms by (simp add: u_def)
      with False show ?thesis by simp
    qed
    moreover have "(if v < 0 then u - 2 ^ 256 else u) = v" by (simp add: u_def)
    ultimately show ?thesis
      using conjunct2 [OF uint_word_round_trip [OF u]]
      by (simp only: signed_word_def bind_result_simps Let_def diff_numeral_Suc) simp
  qed
  ultimately show ?thesis using conjunct1 [OF uint_word_round_trip [OF u]] by auto
qed

definition canonical_address :: "string \<Rightarrow> bool" where
  "canonical_address a \<longleftrightarrow> a \<noteq> [] \<and> clean_address (Some a) = a"

lemma lower_char_idem [simp]: "lower_char (lower_char c) = lower_char c"
  by (auto simp: lower_char_def)

lemma address_word_round_trip:
  assumes "canonical_address a"
  shows "\<exists>w. word_addr a = Inr w \<and> length w = 64 \<and> Inr (word_address (''0x'' @ w)) = (Inr a :: string result)"
proof -
  have a: "lower a = a" "take 2 a = ''0x''" "length a = 42"
    using assms by (auto simp: canonical_address_def clean_address_def Let_def split: if_splits)
  define raw where "raw = drop 2 a"
  have split: "a = ''0x'' @ raw" using a(2) by (metis append_take_drop_id raw_def)
  then have len: "length raw = 40" and low: "lower raw = raw" using a by (simp_all add: lower_def)
  have "clean_address (Some a) = a" using assms by (simp add: canonical_address_def)
  then have "word_addr a = Inr (replicate 24 (CHR ''0'') @ raw)"
    using split len by (simp add: word_addr_def removeprefix_def Let_def)
  moreover have "lower (''0x'' @ replicate 24 (CHR ''0'') @ raw) = ''0x'' @ replicate 24 (CHR ''0'') @ raw"
    using low by (simp add: lower_def lower_char_def)
  then have "word_address (''0x'' @ replicate 24 (CHR ''0'') @ raw) = a"
    using split len by (simp add: word_address_def removeprefix_def Let_def)
  ultimately show ?thesis using len by simp
qed

interpretation uint_codec: word_codec word_uint uint_word "\<lambda>v. 0 \<le> v \<and> v < 2 ^ 256"
  by unfold_locales (use uint_word_round_trip length_hex_of in blast)

interpretation signed_codec: word_codec word_uint "\<lambda>w. signed_word w 256" "\<lambda>v. - (2 ^ 255) \<le> v \<and> v < 2 ^ 255"
  by unfold_locales (use signed_word_round_trip in blast)

interpretation address_codec: word_codec word_addr "\<lambda>w. Inr (word_address w)" canonical_address
  by unfold_locales (rule address_word_round_trip)

subsection \<open>Curve quotes\<close>

record curve_quote =
  cq_tokens_out :: int
  cq_spent :: int
  cq_refund :: int
  cq_fee_bps :: int
  cq_creator_tax_bps :: int
  cq_snipe_tax_bps :: int
  cq_quote_reserve :: int
  cq_token_reserve :: int
  cq_sellable_tokens :: int

definition net_input :: "int \<Rightarrow> int \<Rightarrow> int \<Rightarrow> int \<Rightarrow> int" where
  "net_input spent fee_bps creator_tax_bps snipe_bps =
     spent - spent * fee_bps div 10000 - spent * creator_tax_bps div 10000 - spent * snipe_bps div 10000"

text \<open>The arithmetic of \<open>pons_v2_curve_quote\<close> once the chain has answered.\<close>

definition curve_buy :: "int \<Rightarrow> int \<Rightarrow> int \<Rightarrow> int \<Rightarrow> int \<Rightarrow> int \<Rightarrow> int \<Rightarrow> curve_quote result" where
  "curve_buy quote_in quote_reserve token_reserve sellable fee_bps creator_tax_bps snipe0 =
     (let max_snipe = max 0 (10000 - fee_bps - creator_tax_bps - 100);
          snipe_bps = min snipe0 max_snipe;
          net = net_input quote_in fee_bps creator_tax_bps snipe_bps
      in if net \<le> 0 \<or> quote_reserve \<le> 0 \<or> token_reserve \<le> 0
           then Inl (RuntimeError ''curve buy quote has no executable net input'')
         else
           (let tokens_out = net * token_reserve div (quote_reserve + net);
                quote = (\<lambda>out spent. \<lparr>cq_tokens_out = out, cq_spent = spent, cq_refund = quote_in - spent,
                  cq_fee_bps = fee_bps, cq_creator_tax_bps = creator_tax_bps, cq_snipe_tax_bps = snipe_bps,
                  cq_quote_reserve = quote_reserve, cq_token_reserve = token_reserve,
                  cq_sellable_tokens = sellable\<rparr>)
            in if tokens_out > sellable then
                 (if sellable \<ge> token_reserve then Inl (RuntimeError ''invalid sellable reserve'')
                  else
                    (let required_net = (sellable * quote_reserve) div (token_reserve - sellable) + 1;
                         denom = 10000 - fee_bps - creator_tax_bps - snipe_bps
                     in if denom \<le> 0 then Inl (RuntimeError ''curve fee denominator unavailable'')
                        else (let grossed = (required_net * 10000 + denom - 1) div denom
                              in Inr (quote sellable (min quote_in grossed)))))
               else Inr (quote tokens_out quote_in)))"

definition curve_sell :: "int \<Rightarrow> int \<Rightarrow> int \<Rightarrow> int \<Rightarrow> int \<Rightarrow> int result" where
  "curve_sell tokens_in quote_reserve token_reserve fee_bps creator_tax_bps =
     (if token_reserve + tokens_in = 0 then Inl ZeroDivisionError
      else (let gross = tokens_in * quote_reserve div (token_reserve + tokens_in)
            in Inr (gross - gross * fee_bps div 10000 - gross * creator_tax_bps div 10000)))"

type_synonym eth_call = "string \<Rightarrow> string \<Rightarrow> string result"
type_synonym selector = "string \<Rightarrow> string result"

definition call_uint :: "eth_call \<Rightarrow> selector \<Rightarrow> string \<Rightarrow> string \<Rightarrow> string list \<Rightarrow> int result" where
  "call_uint call sel contract signature args =
     bind_result (sel signature) (\<lambda>s.
     bind_result (call contract (''0x'' @ removeprefix ''0x'' s @ concat args)) (\<lambda>raw.
     (case words raw of
        [] \<Rightarrow> Inl (RuntimeError (signature @ '' returned no data''))
      | w # _ \<Rightarrow> uint_word w)))"

definition curve_reserves :: "eth_call \<Rightarrow> selector \<Rightarrow> string \<Rightarrow> (int \<times> int) result" where
  "curve_reserves call sel curve =
     bind_result (sel ''getReserves()'') (\<lambda>s.
     bind_result (call curve s) (\<lambda>raw.
     (case words raw of
        w0 # w1 # _ \<Rightarrow> bind_result (uint_word w0) (\<lambda>q. bind_result (uint_word w1) (\<lambda>t. Inr (q, t)))
      | _ \<Rightarrow> Inl (RuntimeError ''curve reserves unavailable''))))"

definition pons_v2_curve_quote ::
  "eth_call \<Rightarrow> selector \<Rightarrow> string \<Rightarrow> int \<Rightarrow> string \<Rightarrow> curve_quote result" where
  "pons_v2_curve_quote call sel curve quote_in recipient =
     bind_result (curve_reserves call sel curve) (\<lambda>(quote_reserve, token_reserve).
     bind_result (call_uint call sel curve ''sellableTokens()'' []) (\<lambda>sellable.
     bind_result (call_uint call sel curve ''feeBps()'' []) (\<lambda>fee_bps.
     bind_result (call_uint call sel curve ''creatorTaxBps()'' []) (\<lambda>creator_tax_bps.
     bind_result (word_addr recipient) (\<lambda>recipient_word.
     bind_result (call_uint call sel curve ''currentSnipeTaxBps(address)'' [recipient_word]) (\<lambda>snipe_bps.
     curve_buy quote_in quote_reserve token_reserve sellable fee_bps creator_tax_bps snipe_bps))))))"

definition pons_v2_curve_sell_quote :: "eth_call \<Rightarrow> selector \<Rightarrow> string \<Rightarrow> int \<Rightarrow> int result" where
  "pons_v2_curve_sell_quote call sel curve tokens_in =
     bind_result (curve_reserves call sel curve) (\<lambda>(quote_reserve, token_reserve).
     bind_result (call_uint call sel curve ''readyToGraduate()'' []) (\<lambda>ready.
     if ready \<noteq> 0 then Inl (RuntimeError ''curve sell side closed for graduation'') else
     bind_result (call_uint call sel curve ''feeBps()'' []) (\<lambda>fee_bps.
     bind_result (call_uint call sel curve ''creatorTaxBps()'' []) (\<lambda>creator_tax_bps.
     curve_sell tokens_in quote_reserve token_reserve fee_bps creator_tax_bps))))"

subsection \<open>Quoter calldata\<close>

definition V3_QUOTE_EXACT_INPUT_SINGLE_SELECTOR :: string where
  "V3_QUOTE_EXACT_INPUT_SINGLE_SELECTOR = ''0xc6a5026a''"
definition V4_QUOTE_EXACT_INPUT_SINGLE_SELECTOR :: string where
  "V4_QUOTE_EXACT_INPUT_SINGLE_SELECTOR = ''0xaa9d21cb''"
definition UNISWAP_V3_QUOTER_V2 :: string where
  "UNISWAP_V3_QUOTER_V2 = ''0x33e885ed0ec9bf04ecfb19341582aadcb4c8a9e7''"
definition UNISWAP_V4_QUOTER :: string where
  "UNISWAP_V4_QUOTER = ''0x8dc178efb8111bb0973dd9d722ebeff267c98f94''"

definition v3_quote_exact_input ::
  "eth_call \<Rightarrow> string \<Rightarrow> string \<Rightarrow> int \<Rightarrow> int \<Rightarrow> (int \<times> int) result" where
  "v3_quote_exact_input call token_in token_out fee amount_in =
     bind_result (join_words [word_addr token_in, word_addr token_out, word_uint amount_in,
         word_uint fee, word_uint 0]) (\<lambda>payload.
     bind_result (call UNISWAP_V3_QUOTER_V2
         (''0x'' @ removeprefix ''0x'' V3_QUOTE_EXACT_INPUT_SINGLE_SELECTOR @ payload)) (\<lambda>raw.
     (case words raw of
        w0 # w1 # w2 # w3 # _ \<Rightarrow> bind_result (uint_word w0) (\<lambda>out. bind_result (uint_word w3) (\<lambda>gas. Inr (out, gas)))
      | _ \<Rightarrow> Inl (RuntimeError ''V3 quoter returned incomplete result''))))"

definition v4_quote_exact_input ::
  "eth_call \<Rightarrow> string \<Rightarrow> string \<Rightarrow> int \<Rightarrow> int \<Rightarrow> string \<Rightarrow> bool \<Rightarrow> int \<Rightarrow> (int \<times> int) result" where
  "v4_quote_exact_input call currency0 currency1 fee tick_spacing hooks zero_for_one amount_in =
     bind_result (join_words [word_addr currency0, word_addr currency1, word_uint fee, word_uint tick_spacing,
         word_addr hooks, word_bool zero_for_one, word_uint amount_in, word_uint (8 * 32)]) (\<lambda>tuple_head.
     bind_result (join_words [word_uint 32, Inr tuple_head, word_uint 0]) (\<lambda>payload.
     bind_result (call UNISWAP_V4_QUOTER
         (''0x'' @ removeprefix ''0x'' V4_QUOTE_EXACT_INPUT_SINGLE_SELECTOR @ payload)) (\<lambda>raw.
     (case words raw of
        w0 # w1 # _ \<Rightarrow> bind_result (uint_word w0) (\<lambda>out. bind_result (uint_word w1) (\<lambda>gas. Inr (out, gas)))
      | _ \<Rightarrow> Inl (RuntimeError ''V4 quoter returned incomplete result'')))))"

record launch_state =
  ls_token :: string
  ls_curve :: string
  ls_deployer :: string
  ls_creator_fee_recipient :: string
  ls_pair_token :: string
  ls_graduation_threshold :: int
  ls_pool_fee :: int
  ls_tick_spacing :: int
  ls_creator_tax_bps :: int
  ls_buyback_enabled :: bool
  ls_phase :: int
  ls_swept_quote :: int
  ls_swept_tokens :: int

definition PONS_V2_FACTORY :: string where
  "PONS_V2_FACTORY = ''0x7ed598bcef8bd9edd8c97a195c6d13f40801ec7e''"

definition pons_v2_launch_state :: "eth_call \<Rightarrow> selector \<Rightarrow> string \<Rightarrow> launch_state result" where
  "pons_v2_launch_state call sel token =
     bind_result (sel ''getLaunchedToken(address)'') (\<lambda>s.
     bind_result (word_addr token) (\<lambda>arg.
     bind_result (call PONS_V2_FACTORY (''0x'' @ removeprefix ''0x'' s @ arg)) (\<lambda>raw.
     (let ws = words raw in
      if length ws < 13 then Inl (RuntimeError ''pons v2 launch state incomplete'') else
      bind_result (uint_word (ws ! 5)) (\<lambda>threshold.
      bind_result (uint_word (ws ! 6)) (\<lambda>pool_fee.
      bind_result (signed_word (ws ! 7) 24) (\<lambda>tick_spacing.
      bind_result (uint_word (ws ! 8)) (\<lambda>tax.
      bind_result (uint_word (ws ! 9)) (\<lambda>buyback.
      bind_result (uint_word (ws ! 10)) (\<lambda>phase.
      bind_result (uint_word (ws ! 11)) (\<lambda>swept_quote.
      bind_result (uint_word (ws ! 12)) (\<lambda>swept_tokens.
      Inr \<lparr>ls_token = word_address (ws ! 0), ls_curve = word_address (ws ! 1),
        ls_deployer = word_address (ws ! 2), ls_creator_fee_recipient = word_address (ws ! 3),
        ls_pair_token = word_address (ws ! 4), ls_graduation_threshold = threshold,
        ls_pool_fee = pool_fee, ls_tick_spacing = tick_spacing, ls_creator_tax_bps = tax,
        ls_buyback_enabled = (buyback \<noteq> 0), ls_phase = phase, ls_swept_quote = swept_quote,
        ls_swept_tokens = swept_tokens\<rparr>))))))))))))"

subsection \<open>Context returns\<close>

definition MIN_CONTEXT_SAMPLES :: nat where "MIN_CONTEXT_SAMPLES = 30"
definition MAX_POSITION_FRACTION :: real where "MAX_POSITION_FRACTION = 5 / 100"
definition POSITION_FRACTION_GRID :: "real list" where
  "POSITION_FRACTION_GRID = [5 / 1000, 1 / 100, 2 / 100, 5 / 100]"

definition mean_value :: "real list \<Rightarrow> real" where
  "mean_value xs = sum_list xs / real (length xs)"

definition median_value :: "real list \<Rightarrow> real" where
  "median_value xs = (let ys = sort xs; n = length ys in
     if n mod 2 = 1 then ys ! (n div 2) else (ys ! (n div 2 - 1) + ys ! (n div 2)) / 2)"

definition trimmed_ex_best :: "real list \<Rightarrow> nat \<Rightarrow> real option" where
  "trimmed_ex_best values n =
     (if length values \<le> n then None
      else (let remaining = drop n (rev (sort values))
            in if remaining \<noteq> [] then Some (mean_value remaining) else None))"

datatype growth = No_growth | Minus_infinity | Growth real

fun log_terms :: "real \<Rightarrow> real list \<Rightarrow> real list option" where
  "log_terms fraction [] = Some []"
| "log_terms fraction (v # vs) =
     (let terminal = 1 + fraction * v
      in if terminal \<le> 0 then None
         else map_option (\<lambda>ts. ln terminal # ts) (log_terms fraction vs))"

definition expected_log_growth :: "real list \<Rightarrow> real \<Rightarrow> growth" where
  "expected_log_growth values fraction =
     (if values = [] \<or> fraction \<le> 0 then No_growth
      else case log_terms fraction values of None \<Rightarrow> Minus_infinity | Some terms \<Rightarrow> Growth (mean_value terms))"

record context_class =
  cx_sample_count :: nat
  cx_mean_roi_pct :: "real option"
  cx_median_roi_pct :: "real option"
  cx_trimmed_mean_roi_ex_best_1_pct :: "real option"
  cx_positive_rate_pct :: "real option"
  cx_state :: string
  cx_best_paper_position_fraction :: real

fun best_growth :: "(real \<times> real) \<Rightarrow> (real \<times> real) list \<Rightarrow> real \<times> real" where
  "best_growth b [] = b"
| "best_growth b (x # xs) = best_growth (if snd b < snd x then x else b) xs"

definition viable_fractions :: "real list \<Rightarrow> (real \<times> real) list" where
  "viable_fractions clean = concat (map (\<lambda>f.
     (case expected_log_growth clean f of Growth g \<Rightarrow> if g > 0 then [(f, g)] else [] | _ \<Rightarrow> []))
     POSITION_FRACTION_GRID)"

definition finite_values :: "py_number list \<Rightarrow> real list" where
  "finite_values vs = concat (map (\<lambda>v. case v of Number x \<Rightarrow> [x] | _ \<Rightarrow> []) vs)"

definition classify_context_returns :: "py_number list \<Rightarrow> context_class" where
  "classify_context_returns values =
     (let clean = finite_values values;
          count = length clean;
          trimmed = trimmed_ex_best clean 1;
          med = (if clean \<noteq> [] then Some (median_value clean) else None);
          positive_rate = (if clean \<noteq> [] then Some (real (length (filter (\<lambda>v. v > 0) clean)) / real count) else None);
          state = (if count < MIN_CONTEXT_SAMPLES then ''bootstrap_paper_evidence''
                   else case (trimmed, med, positive_rate) of
                     (Some t, Some m, Some p) \<Rightarrow>
                       if t > 0 \<and> m > 0 \<and> p \<ge> 1 / 2 then ''promoted_paper_context''
                       else if t \<le> 0 \<or> m \<le> 0 then ''demoted_paper_context''
                       else ''observe_mixed_context''
                   | _ \<Rightarrow> ''observe_mixed_context'');
          viable = viable_fractions clean;
          best_fraction = (case viable of [] \<Rightarrow> 0 | x # xs \<Rightarrow> fst (best_growth x xs))
      in \<lparr>cx_sample_count = count,
          cx_mean_roi_pct = (if clean \<noteq> [] then Some (mean_value clean * 100) else None),
          cx_median_roi_pct = map_option (\<lambda>m. m * 100) med,
          cx_trimmed_mean_roi_ex_best_1_pct = map_option (\<lambda>t. t * 100) trimmed,
          cx_positive_rate_pct = map_option (\<lambda>p. p * 100) positive_rate, cx_state = state,
          cx_best_paper_position_fraction = min MAX_POSITION_FRACTION best_fraction\<rparr>)"

subsection \<open>Arithmetic of the curve\<close>

lemma floor_fee_le:
  fixes a b :: int
  assumes "0 \<le> a" "0 \<le> b"
  shows "a * b div 10000 * 10000 \<le> a * b" and "0 \<le> a * b div 10000"
  using assms by (simp_all add: pos_imp_zdiv_nonneg_iff)

lemma net_input_le:
  assumes "0 \<le> spent" "0 \<le> f" "0 \<le> c" "0 \<le> z"
  shows "net_input spent f c z \<le> spent"
  using floor_fee_le(2) [of spent f] floor_fee_le(2) [of spent c] floor_fee_le(2) [of spent z] assms
  by (simp add: net_input_def)

lemma net_input_ge:
  assumes "0 \<le> spent" "0 \<le> f" "0 \<le> c" "0 \<le> z"
  shows "spent * (10000 - f - c - z) \<le> 10000 * net_input spent f c z"
  using floor_fee_le(1) [of spent f] floor_fee_le(1) [of spent c] floor_fee_le(1) [of spent z] assms
  by (simp add: net_input_def right_diff_distrib)

lemma div_bounds:
  fixes a d :: int
  assumes "0 < d"
  shows "a div d * d \<le> a" and "a < (a div d + 1) * d"
proof -
  have e: "a = a div d * d + a mod d" by simp
  show "a div d * d \<le> a" using e pos_mod_sign [OF assms, of a] by linarith
  have "(a div d + 1) * d = a div d * d + d" by (simp add: distrib_right)
  then show "a < (a div d + 1) * d" using e pos_mod_bound [OF assms, of a] by linarith
qed

lemma le_div:
  fixes a d s :: int
  shows "0 < d \<Longrightarrow> s * d \<le> a \<Longrightarrow> s \<le> a div d"
  using zdiv_mono1 [of "s * d" a d] by simp

text \<open>The tokens that a net input buys at constant product.\<close>

definition tokens_for :: "int \<Rightarrow> int \<Rightarrow> int \<Rightarrow> int" where
  "tokens_for net quote_reserve token_reserve = net * token_reserve div (quote_reserve + net)"

lemma tokens_for_bounds:
  assumes "0 < net" "0 < q" "0 < t"
  shows "0 \<le> tokens_for net q t" and "tokens_for net q t < t" and "tokens_for net q t * (q + net) \<le> net * t"
proof -
  show "0 \<le> tokens_for net q t" using assms by (simp add: tokens_for_def pos_imp_zdiv_nonneg_iff)
  show le: "tokens_for net q t * (q + net) \<le> net * t"
    using div_bounds(1) [of "q + net" "net * t"] assms by (simp add: tokens_for_def)
  show "tokens_for net q t < t"
  proof (rule ccontr)
    assume "\<not> tokens_for net q t < t"
    then have "t * (q + net) \<le> tokens_for net q t * (q + net)"
      using assms by (intro mult_right_mono) simp_all
    with le have "t * q \<le> 0" by (simp add: algebra_simps)
    with assms show False by (simp add: mult_le_0_iff)
  qed
qed

lemma required_net_suffices:
  fixes s q t :: int
  assumes "0 \<le> s" "s < t" "0 < q" and n: "s * q div (t - s) + 1 \<le> n"
  shows "s \<le> tokens_for n q t"
proof -
  have "0 \<le> s * q div (t - s)" using assms by (simp add: pos_imp_zdiv_nonneg_iff)
  then have npos: "0 < n" using n by simp
  have "s * q < (s * q div (t - s) + 1) * (t - s)"
    using assms(2) by (intro div_bounds(2)) simp
  also have "\<dots> \<le> n * (t - s)" using n assms(2) by (intro mult_right_mono) simp_all
  finally have "s * (q + n) \<le> n * t" by (simp add: algebra_simps)
  then show ?thesis
    using npos assms(3) unfolding tokens_for_def by (intro le_div) simp_all
qed

subsection \<open>Facts about the quote\<close>

lemma gross_up_suffices:
  fixes r d :: int
  assumes "0 < d"
  shows "10000 * r \<le> (r * 10000 + d - 1) div d * d"
  using div_bounds(2) [OF assms, of "r * 10000 + d - 1"] by (simp add: algebra_simps)

lemma curve_buy_cases:
  assumes "curve_buy quote_in q t sellable fee tax snipe0 = Inr cq" and "0 \<le> snipe0"
  obtains (whole) z where "0 \<le> z" "0 < net_input quote_in fee tax z" "0 < q" "0 < t"
      "tokens_for (net_input quote_in fee tax z) q t \<le> sellable"
      "cq_tokens_out cq = tokens_for (net_input quote_in fee tax z) q t" "cq_spent cq = quote_in"
      "cq_refund cq = 0" "cq_snipe_tax_bps cq = z"
  | (capped) z where "0 \<le> z" "0 < net_input quote_in fee tax z" "0 < q" "0 < t"
      "sellable < tokens_for (net_input quote_in fee tax z) q t" "sellable < t"
      "0 < 10000 - fee - tax - z" "cq_tokens_out cq = sellable" "cq_snipe_tax_bps cq = z"
      "cq_spent cq = min quote_in ((((sellable * q) div (t - sellable) + 1) * 10000
         + (10000 - fee - tax - z) - 1) div (10000 - fee - tax - z))"
      "cq_refund cq = quote_in - cq_spent cq"
proof -
  define z where "z = min snipe0 (max 0 (10000 - fee - tax - 100))"
  have z: "0 \<le> z" using assms(2) by (simp add: z_def)
  from assms(1) have "(0 < net_input quote_in fee tax z \<and> 0 < q \<and> 0 < t
      \<and> tokens_for (net_input quote_in fee tax z) q t \<le> sellable
      \<and> cq_tokens_out cq = tokens_for (net_input quote_in fee tax z) q t \<and> cq_spent cq = quote_in
      \<and> cq_refund cq = 0 \<and> cq_snipe_tax_bps cq = z)
    \<or> (0 < net_input quote_in fee tax z \<and> 0 < q \<and> 0 < t
      \<and> sellable < tokens_for (net_input quote_in fee tax z) q t \<and> sellable < t
      \<and> 0 < 10000 - fee - tax - z \<and> cq_tokens_out cq = sellable \<and> cq_snipe_tax_bps cq = z
      \<and> cq_spent cq = min quote_in ((((sellable * q) div (t - sellable) + 1) * 10000
         + (10000 - fee - tax - z) - 1) div (10000 - fee - tax - z))
      \<and> cq_refund cq = quote_in - cq_spent cq)"
    unfolding curve_buy_def Let_def z_def [symmetric] tokens_for_def [symmetric]
    by (auto split: if_splits simp: not_le not_less)
  with whole capped z show thesis by metis
qed

text \<open>Everything a quote guarantees, in one place.\<close>

lemma curve_quote_facts:
  assumes "curve_buy quote_in q t sellable fee tax snipe0 = Inr cq"
    and pos: "0 \<le> quote_in" "0 \<le> sellable" "0 \<le> fee" "0 \<le> tax" "0 \<le> snipe0"
    and net: "net = net_input (cq_spent cq) fee tax (cq_snipe_tax_bps cq)"
  shows "0 \<le> cq_tokens_out cq" "cq_tokens_out cq \<le> sellable" "cq_tokens_out cq < t"
    "0 < cq_spent cq" "cq_spent cq \<le> quote_in" "cq_spent cq + cq_refund cq = quote_in"
    "0 < q" "0 < t" "0 < net" "net \<le> cq_spent cq" "cq_tokens_out cq \<le> tokens_for net q t"
proof -
  have "0 \<le> cq_tokens_out cq \<and> cq_tokens_out cq \<le> sellable \<and> cq_tokens_out cq < t
    \<and> cq_spent cq \<le> quote_in \<and> cq_spent cq + cq_refund cq = quote_in
    \<and> 0 < q \<and> 0 < t \<and> 0 < net \<and> net \<le> cq_spent cq \<and> cq_tokens_out cq \<le> tokens_for net q t"
    using assms(1) pos(5)
  proof (cases rule: curve_buy_cases)
    case (whole z)
    then have "net = net_input quote_in fee tax z" by (simp add: net)
    with whole tokens_for_bounds [OF whole(2-4)] net_input_le [OF pos(1,3,4) whole(1)] show ?thesis by simp
  next
    case (capped z)
    define r where "r = sellable * q div (t - sellable) + 1"
    define d where "d = 10000 - fee - tax - z"
    define g where "g = (r * 10000 + d - 1) div d"
    have "0 \<le> sellable * q div (t - sellable)" using pos(2) capped(3,6) by (simp add: pos_imp_zdiv_nonneg_iff)
    then have r: "0 < r" by (simp add: r_def)
    have d: "0 < d" using capped(7) by (simp add: d_def)
    have g: "10000 * r \<le> g * d" using gross_up_suffices [OF d, of r] by (simp add: g_def)
    then have "0 < g * d" using r by linarith
    then have gpos: "0 < g" using d by (simp add: zero_less_mult_iff)
    have spent: "cq_spent cq = min quote_in g" using capped(10) by (simp only: g_def r_def d_def)
    have netz: "net = net_input (min quote_in g) fee tax z" by (simp only: net spent capped(9))
    have inpos: "0 < quote_in" using capped(2) net_input_le [OF pos(1,3,4) capped(1)] by linarith
    have buys: "sellable \<le> tokens_for net q t \<and> 0 < net"
    proof (cases "quote_in \<le> g")
      case True
      then have "net = net_input quote_in fee tax z" by (simp add: netz)
      with capped(2,5) show ?thesis by simp
    next
      case False
      then have n: "net = net_input g fee tax z" by (simp add: netz)
      have "g * d \<le> 10000 * net"
        using net_input_ge [of g fee tax z] gpos pos(3,4) capped(1) by (simp add: d_def n)
      with g have "r \<le> net" by linarith
      with required_net_suffices [OF pos(2) capped(6,3), of net] r show ?thesis by (simp add: r_def)
    qed
    have "net \<le> min quote_in g"
      unfolding netz using gpos pos capped(1) by (intro net_input_le) simp_all
    with buys capped(3,4,6,8,11) spent pos(2) show ?thesis by simp
  qed
  then show "0 \<le> cq_tokens_out cq" "cq_tokens_out cq \<le> sellable" "cq_tokens_out cq < t"
    "0 < cq_spent cq" "cq_spent cq \<le> quote_in" "cq_spent cq + cq_refund cq = quote_in"
    "0 < q" "0 < t" "0 < net" "net \<le> cq_spent cq" "cq_tokens_out cq \<le> tokens_for net q t"
    by auto
qed

subsection \<open>Properties\<close>

text \<open>A buy quote for non-negative chain values never offers more than the sellable tokens or
  the whole reserve, never spends more than it was given and refunds exactly the rest, and
  what it spends suffices: its net input after the floored fees buys at least the quoted
  tokens at the constant product of the reserves.\<close>

theorem curve_quote_is_covered:
  assumes "curve_buy quote_in q t sellable fee tax snipe0 = Inr cq"
    and "0 \<le> quote_in" "0 \<le> sellable" "0 \<le> fee" "0 \<le> tax" "0 \<le> snipe0"
  shows "0 \<le> cq_tokens_out cq \<and> cq_tokens_out cq \<le> sellable \<and> cq_tokens_out cq < t
    \<and> 0 < cq_spent cq \<and> cq_spent cq \<le> quote_in \<and> 0 \<le> cq_refund cq
    \<and> cq_spent cq + cq_refund cq = quote_in
    \<and> cq_tokens_out cq \<le> tokens_for (net_input (cq_spent cq) fee tax (cq_snipe_tax_bps cq)) q t"
  using curve_quote_facts [OF assms refl] by simp

theorem curve_quote_is_covered_witness:
  "\<exists>cq. curve_buy 1000 1000000 2000000 1500 100 100 0 = Inr cq \<and> cq_tokens_out cq \<le> 1500
     \<and> cq_spent cq + cq_refund cq = 1000"
proof -
  obtain cq where cq: "curve_buy 1000 1000000 2000000 1500 100 100 0 = Inr cq"
    by (simp add: curve_buy_def net_input_def Let_def)
  with curve_quote_is_covered [OF cq] show ?thesis by simp
qed

text \<open>Buying and selling back never gains: selling the quoted tokens to the curve in the state
  after the buy returns at most what the buy spent, whatever the sell fees.\<close>

theorem buy_then_sell_never_gains:
  assumes "curve_buy quote_in q t sellable fee tax snipe0 = Inr cq"
    and "0 \<le> quote_in" "0 \<le> sellable" "0 \<le> fee" "0 \<le> tax" "0 \<le> snipe0"
    and "net = net_input (cq_spent cq) fee tax (cq_snipe_tax_bps cq)"
    and "curve_sell (cq_tokens_out cq) (q + net) (t - cq_tokens_out cq) sell_fee sell_tax = Inr proceeds"
    and "0 \<le> sell_fee" "0 \<le> sell_tax"
  shows "proceeds \<le> cq_spent cq"
proof -
  let ?out = "cq_tokens_out cq"
  note facts = curve_quote_facts [OF assms(1-7)]
  define gross where "gross = ?out * (q + net) div t"
  have p: "proceeds = gross - gross * sell_fee div 10000 - gross * sell_tax div 10000"
    using assms(8) facts(8) by (simp add: curve_sell_def Let_def gross_def)
  have "?out * (q + net) \<le> tokens_for net q t * (q + net)"
    using facts(7,9,11) by (intro mult_right_mono) simp_all
  also have "\<dots> \<le> net * t" by (rule tokens_for_bounds(3) [OF facts(9,7,8)])
  finally have "gross \<le> net * t div t" unfolding gross_def using facts(8) by (rule zdiv_mono1)
  then have "gross \<le> net" using facts(8) by simp
  moreover have "0 \<le> gross" using facts(1,7,8,9) by (simp add: gross_def pos_imp_zdiv_nonneg_iff)
  ultimately show ?thesis
    using p facts(10) floor_fee_le(2) [of gross sell_fee] floor_fee_le(2) [of gross sell_tax] assms(9,10)
    by linarith
qed

theorem buy_then_sell_never_gains_witness:
  "\<exists>cq proceeds. curve_buy 1000 1000000 2000000 1500 100 100 0 = Inr cq
     \<and> curve_sell (cq_tokens_out cq) (1000000 + net_input (cq_spent cq) 100 100 (cq_snipe_tax_bps cq))
         (2000000 - cq_tokens_out cq) 100 100 = Inr proceeds
     \<and> proceeds \<le> cq_spent cq"
proof -
  obtain cq where cq: "curve_buy 1000 1000000 2000000 1500 100 100 0 = Inr cq"
    by (simp add: curve_buy_def net_input_def Let_def)
  obtain proceeds where p: "curve_sell (cq_tokens_out cq) (1000000 + net_input (cq_spent cq) 100 100 (cq_snipe_tax_bps cq))
         (2000000 - cq_tokens_out cq) 100 100 = Inr proceeds"
    by (simp add: curve_sell_def Let_def)
  from buy_then_sell_never_gains [OF cq _ _ _ _ _ refl p] cq p show ?thesis by auto
qed

text \<open>Calldata and results survive the ABI codec: any number of 256-bit unsigned values, signed
  values, or cleaned addresses, each in range, joins to a payload of 64 characters per value
  that splits into words from which the same values are read back.\<close>

theorem abi_payload_round_trip:
  assumes "list_all (\<lambda>v. 0 \<le> v \<and> v < 2 ^ 256) us"
    and "list_all (\<lambda>v. - (2 ^ 255) \<le> v \<and> v < 2 ^ 255) vs"
    and "list_all canonical_address addresses"
  shows "(\<exists>p. join_words (map word_uint us) = Inr p \<and> length p = 64 * length us
        \<and> list_all2 (\<lambda>w u. uint_word w = Inr u) (words (''0x'' @ p)) us)
    \<and> (\<exists>p. join_words (map word_uint vs) = Inr p \<and> length p = 64 * length vs
        \<and> list_all2 (\<lambda>w v. signed_word w 256 = Inr v) (words (''0x'' @ p)) vs)
    \<and> (\<exists>p. join_words (map word_addr addresses) = Inr p \<and> length p = 64 * length addresses
        \<and> list_all2 (\<lambda>w a. word_address w = a) (words (''0x'' @ p)) addresses)"
  using uint_codec.payload_round_trip [OF assms(1)] signed_codec.payload_round_trip [OF assms(2)]
    address_codec.payload_round_trip [OF assms(3)] by simp

lemma demo_address: "canonical_address UNISWAP_V3_QUOTER_V2"
  by code_simp

theorem abi_payload_round_trip_witness:
  "(\<exists>p. join_words (map word_uint [5, 0]) = Inr p \<and> length p = 128)
     \<and> (\<exists>p. join_words (map word_uint [-1]) = Inr p
          \<and> list_all2 (\<lambda>w v. signed_word w 256 = Inr v) (words (''0x'' @ p)) [-1])
     \<and> (\<exists>p. join_words (map word_addr [UNISWAP_V3_QUOTER_V2]) = Inr p \<and> length p = 64)"
proof -
  have "list_all (\<lambda>v. 0 \<le> v \<and> v < 2 ^ 256) [5 :: int, 0]"
    and "list_all (\<lambda>v. - (2 ^ 255) \<le> v \<and> v < 2 ^ 255) [-1 :: int]"
    and "list_all canonical_address [UNISWAP_V3_QUOTER_V2]"
    using demo_address by simp_all
  from abi_payload_round_trip [OF this] show ?thesis by auto
qed

end
