(* ===== verification/Checkpoint.thy ===== *)
theory Checkpoint
  imports Models "HOL-Library.List_Lexorder" "HOL-Library.Char_ord"
begin

text \<open>
  The checkpoint document of \<open>durable_engine.py\<close>: what \<open>_state_dict\<close> writes and what
  \<open>_restore_or_fail_closed\<close> reads back. A JSON document is a tree; the ISO text of an instant,
  which \<open>fromisoformat\<close> reads back as the instant, is the leaf \<open>JTime\<close>. Objects with fixed
  fields are read by key only, so their key order is not modelled; the objects keyed by mint
  are listed in key order, as \<open>sort_keys=True\<close> writes them. Reading follows the code's
  conversions on every leaf of the expected type and refuses a leaf of another type.
\<close>

datatype jval =
    JNull
  | JBool bool
  | JNum real
  | JStr string
  | JTime datetime
  | JList "jval list"
  | JObj "(string, jval) dict"

subsection \<open>Reading leaves\<close>

fun field :: "jval \<Rightarrow> string \<Rightarrow> jval result" where
  "field (JObj d) k = (case dict_get d k of None \<Rightarrow> Inl (KeyError k) | Some v \<Rightarrow> Inr v)"
| "field _ k = Inl (TypeError k)"

fun field_or_none :: "jval \<Rightarrow> string \<Rightarrow> jval result" where
  "field_or_none (JObj d) k = Inr (or_default (dict_get d k) JNull)"
| "field_or_none _ k = Inl (TypeError k)"

fun truthy :: "jval \<Rightarrow> bool" where
  "truthy JNull = False"
| "truthy (JBool b) = b"
| "truthy (JNum x) = (x \<noteq> 0)"
| "truthy (JStr s) = (s \<noteq> [])"
| "truthy (JTime t) = True"
| "truthy (JList vs) = (vs \<noteq> [])"
| "truthy (JObj d) = (d \<noteq> [])"

fun as_text :: "jval \<Rightarrow> string result" where
  "as_text (JStr s) = Inr s"
| "as_text _ = Inl (TypeError ''str'')"

fun as_float :: "jval \<Rightarrow> real result" where
  "as_float (JNum x) = Inr x"
| "as_float _ = Inl (TypeError ''float'')"

fun as_flag :: "jval \<Rightarrow> bool result" where
  "as_flag (JBool b) = Inr b"
| "as_flag _ = Inl (TypeError ''bool'')"

fun as_instant :: "jval \<Rightarrow> datetime result" where
  "as_instant (JTime t) = Inr t"
| "as_instant _ = Inl (ValueError ''Invalid isoformat string'')"

fun as_items :: "jval \<Rightarrow> jval list result" where
  "as_items (JList vs) = Inr vs"
| "as_items _ = Inl (TypeError ''iter'')"

fun as_entries :: "jval \<Rightarrow> (string, jval) dict result" where
  "as_entries (JObj d) = Inr d"
| "as_entries _ = Inl (TypeError ''dict'')"

text \<open>The constructor of an enumeration, given its members and their values.\<close>

definition enum_of :: "('a \<Rightarrow> string) \<Rightarrow> 'a list \<Rightarrow> string \<Rightarrow> 'a result" where
  "enum_of value_of members s =
     (case find (\<lambda>x. value_of x = s) members of None \<Rightarrow> Inl (ValueError s) | Some x \<Rightarrow> Inr x)"

definition read :: "jval \<Rightarrow> string \<Rightarrow> (jval \<Rightarrow> 'a result) \<Rightarrow> 'a result" where
  "read p k conv = bind_result (field p k) conv"

text \<open>\<open>conv(p[k]) if p.get(k) is not None else None\<close>, its variant on truth, and \<open>p.get(k)\<close>.\<close>

definition read_optional :: "jval \<Rightarrow> string \<Rightarrow> (jval \<Rightarrow> 'a result) \<Rightarrow> 'a option result" where
  "read_optional p k conv = bind_result (field_or_none p k) (\<lambda>v.
     if v = JNull then Inr None else bind_result (conv v) (\<lambda>x. Inr (Some x)))"

definition read_if_true :: "jval \<Rightarrow> string \<Rightarrow> (jval \<Rightarrow> 'a result) \<Rightarrow> 'a option result" where
  "read_if_true p k conv = bind_result (field_or_none p k) (\<lambda>v.
     if \<not> truthy v then Inr None else bind_result (conv v) (\<lambda>x. Inr (Some x)))"

definition read_truth :: "jval \<Rightarrow> string \<Rightarrow> bool result" where
  "read_truth p k = bind_result (field_or_none p k) (\<lambda>v. Inr (truthy v))"

text \<open>\<open>p.get(k) or empty\<close>.\<close>

definition read_or_empty :: "jval \<Rightarrow> string \<Rightarrow> (jval \<Rightarrow> 'a list result) \<Rightarrow> 'a list result" where
  "read_or_empty p k conv = bind_result (field_or_none p k) (\<lambda>v.
     if truthy v then conv v else Inr [])"

lemmas read_defs = read_def read_optional_def read_if_true_def read_truth_def read_or_empty_def

fun optional :: "('a \<Rightarrow> jval) \<Rightarrow> 'a option \<Rightarrow> jval" where
  "optional f None = JNull"
| "optional f (Some x) = f x"

subsection \<open>Enumerations\<close>

fun tier_value :: "wallet_tier \<Rightarrow> string" where
  "tier_value Tier_S = ''S''"
| "tier_value Tier_A = ''A''"
| "tier_value Tier_B = ''B''"
| "tier_value Tier_REJECT = ''REJECT''"

fun status_value :: "candidate_status \<Rightarrow> string" where
  "status_value WAITING_CONFIRMATION = ''waiting_confirmation''"
| "status_value CONFIRMED = ''confirmed''"
| "status_value REJECTED = ''rejected''"
| "status_value EXPIRED = ''expired''"
| "status_value CLOSED = ''closed''"

fun side_value :: "fill_side \<Rightarrow> string" where
  "side_value Buy = ''buy''"
| "side_value Sell = ''sell''"

definition all_tiers :: "wallet_tier list" where
  "all_tiers = [Tier_S, Tier_A, Tier_B, Tier_REJECT]"

definition all_statuses :: "candidate_status list" where
  "all_statuses = [WAITING_CONFIRMATION, CONFIRMED, REJECTED, EXPIRED, CLOSED]"

definition all_intent_kinds :: "intent_kind list" where
  "all_intent_kinds = [OPEN_STARTER, OPEN_FULL, ADD_CONFIRMATION, EXIT_STARTER, EXIT_THESIS,
     EXIT_STOP, HARVEST, EXIT_RUNNER]"

definition all_sides :: "fill_side list" where
  "all_sides = [Buy, Sell]"

lemma enum_tier [simp]: "enum_of tier_value all_tiers (tier_value t) = Inr t"
  by (cases t) (simp_all add: enum_of_def all_tiers_def)

lemma enum_status [simp]: "enum_of status_value all_statuses (status_value st) = Inr st"
  by (cases st) (simp_all add: enum_of_def all_statuses_def)

lemma enum_intent [simp]: "enum_of intent_kind_value all_intent_kinds (intent_kind_value k) = Inr k"
  by (cases k) (simp_all add: enum_of_def all_intent_kinds_def)

lemma enum_side [simp]: "enum_of side_value all_sides (side_value d) = Inr d"
  by (cases d) (simp_all add: enum_of_def all_sides_def)

subsection \<open>Risk snapshots and candidates\<close>

definition risk_to_dict :: "risk_snapshot \<Rightarrow> jval" where
  "risk_to_dict r = JObj
     [(''observed_at'', JTime (rs_observed_at r)),
      (''early_buyers_exiting'', JBool (early_buyers_exiting r)),
      (''bundled_launch'', JBool (bundled_launch r)),
      (''sniper_heavy'', JBool (sniper_heavy r)),
      (''abnormal_sell_pressure'', JBool (abnormal_sell_pressure r)),
      (''common_funded_early_wallet_cluster'', JBool (common_funded_early_wallet_cluster r)),
      (''scout_deployer_connection'', JBool (scout_deployer_connection r)),
      (''dangerous_authority'', JBool (dangerous_authority r)),
      (''unacceptable_liquidity'', JBool (unacceptable_liquidity r)),
      (''stale'', JBool (stale r))]"

definition risk_fields :: "string list" where
  "risk_fields = [''observed_at'', ''early_buyers_exiting'', ''bundled_launch'', ''sniper_heavy'',
     ''abnormal_sell_pressure'', ''common_funded_early_wallet_cluster'', ''scout_deployer_connection'',
     ''dangerous_authority'', ''unacceptable_liquidity'', ''stale'']"

text \<open>\<open>RiskSnapshot(**values)\<close>: an unknown keyword is a \<open>TypeError\<close>, a missing flag is false.\<close>

definition flag_or_false :: "jval \<Rightarrow> string \<Rightarrow> bool result" where
  "flag_or_false p k = bind_result (field_or_none p k) (\<lambda>v. if v = JNull then Inr False else as_flag v)"

definition risk_from_dict :: "jval \<Rightarrow> risk_snapshot result" where
  "risk_from_dict p =
     bind_result (as_entries p) (\<lambda>d.
     bind_result (read p ''observed_at'' as_instant) (\<lambda>t.
     if \<not> set (map fst d) \<subseteq> set risk_fields then Inl (TypeError ''unexpected keyword argument'') else
     bind_result (flag_or_false p ''early_buyers_exiting'') (\<lambda>b1.
     bind_result (flag_or_false p ''bundled_launch'') (\<lambda>b2.
     bind_result (flag_or_false p ''sniper_heavy'') (\<lambda>b3.
     bind_result (flag_or_false p ''abnormal_sell_pressure'') (\<lambda>b4.
     bind_result (flag_or_false p ''common_funded_early_wallet_cluster'') (\<lambda>b5.
     bind_result (flag_or_false p ''scout_deployer_connection'') (\<lambda>b6.
     bind_result (flag_or_false p ''dangerous_authority'') (\<lambda>b7.
     bind_result (flag_or_false p ''unacceptable_liquidity'') (\<lambda>b8.
     bind_result (flag_or_false p ''stale'') (\<lambda>b9.
     Inr \<lparr>rs_observed_at = t, early_buyers_exiting = b1, bundled_launch = b2, sniper_heavy = b3,
          abnormal_sell_pressure = b4, common_funded_early_wallet_cluster = b5,
          scout_deployer_connection = b6, dangerous_authority = b7, unacceptable_liquidity = b8,
          stale = b9\<rparr>)))))))))))"

definition candidate_to_dict :: "candidate \<Rightarrow> jval" where
  "candidate_to_dict c = JObj
     [(''token_mint'', JStr (ca_token_mint c)),
      (''scout_wallet'', JStr (ca_scout_wallet c)),
      (''scout_entity_id'', JStr (ca_scout_entity_id c)),
      (''scout_tier'', JStr (tier_value (ca_scout_tier c))),
      (''first_touch_at'', JTime (ca_first_touch_at c)),
      (''scout_reference_price'', JNum (ca_scout_reference_price c)),
      (''risk_at_entry'', risk_to_dict (ca_risk_at_entry c)),
      (''status'', JStr (status_value (ca_status c))),
      (''confirmed_at'', optional JTime (ca_confirmed_at c)),
      (''confirmation_wallet'', optional JStr (ca_confirmation_wallet c)),
      (''confirmation_entity_id'', optional JStr (ca_confirmation_entity_id c)),
      (''full_entry_reference_price'', optional JNum (ca_full_entry_reference_price c)),
      (''harvest_triggered'', JBool (ca_harvest_triggered c)),
      (''runner_high_water_price'', optional JNum (ca_runner_high_water_price c)),
      (''closed_reason'', optional JStr (ca_closed_reason c))]"

definition candidate_from_dict :: "jval \<Rightarrow> candidate result" where
  "candidate_from_dict p =
     bind_result (read p ''token_mint'' as_text) (\<lambda>mint.
     bind_result (read p ''scout_wallet'' as_text) (\<lambda>wallet.
     bind_result (read p ''scout_entity_id'' as_text) (\<lambda>entity.
     bind_result (bind_result (read p ''scout_tier'' as_text) (enum_of tier_value all_tiers)) (\<lambda>tier.
     bind_result (read p ''first_touch_at'' as_instant) (\<lambda>touched.
     bind_result (read p ''scout_reference_price'' as_float) (\<lambda>price.
     bind_result (read p ''risk_at_entry'' risk_from_dict) (\<lambda>risk.
     bind_result (bind_result (read p ''status'' as_text) (enum_of status_value all_statuses)) (\<lambda>status.
     bind_result (read_if_true p ''confirmed_at'' as_instant) (\<lambda>confirmed.
     bind_result (read_optional p ''confirmation_wallet'' as_text) (\<lambda>cw.
     bind_result (read_optional p ''confirmation_entity_id'' as_text) (\<lambda>ce.
     bind_result (read_optional p ''full_entry_reference_price'' as_float) (\<lambda>full.
     bind_result (read_truth p ''harvest_triggered'') (\<lambda>harvest.
     bind_result (read_optional p ''runner_high_water_price'' as_float) (\<lambda>high.
     bind_result (read_optional p ''closed_reason'' as_text) (\<lambda>reason.
     Inr \<lparr>ca_token_mint = mint, ca_scout_wallet = wallet, ca_scout_entity_id = entity,
          ca_scout_tier = tier, ca_first_touch_at = touched, ca_scout_reference_price = price,
          ca_risk_at_entry = risk, ca_status = status, ca_confirmed_at = confirmed,
          ca_confirmation_wallet = cw, ca_confirmation_entity_id = ce,
          ca_full_entry_reference_price = full, ca_harvest_triggered = harvest,
          ca_runner_high_water_price = high, ca_closed_reason = reason\<rparr>)))))))))))))))"

subsection \<open>Fills, positions and outcomes\<close>

definition fill_to_dict :: "simulated_fill \<Rightarrow> jval" where
  "fill_to_dict f = JObj
     [(''token_mint'', JStr (fl_token_mint f)),
      (''side'', JStr (side_value (fl_side f))),
      (''observed_at'', JTime (fl_observed_at f)),
      (''reference_price'', JNum (fl_reference_price f)),
      (''fill_price'', JNum (fl_fill_price f)),
      (''notional_usd'', JNum (fl_notional_usd f)),
      (''units'', JNum (fl_units f)),
      (''execution_drag_usd'', JNum (fl_execution_drag_usd f)),
      (''intent'', JStr (intent_kind_value (fl_intent f)))]"

definition fill_from_dict :: "jval \<Rightarrow> simulated_fill result" where
  "fill_from_dict p =
     bind_result (read p ''token_mint'' as_text) (\<lambda>mint.
     bind_result (bind_result (read p ''side'' as_text) (enum_of side_value all_sides)) (\<lambda>side.
     bind_result (read p ''observed_at'' as_instant) (\<lambda>t.
     bind_result (read p ''reference_price'' as_float) (\<lambda>ref.
     bind_result (read p ''fill_price'' as_float) (\<lambda>price.
     bind_result (read p ''notional_usd'' as_float) (\<lambda>notional.
     bind_result (read p ''units'' as_float) (\<lambda>units.
     bind_result (read p ''execution_drag_usd'' as_float) (\<lambda>drag.
     bind_result (bind_result (read p ''intent'' as_text) (enum_of intent_kind_value all_intent_kinds)) (\<lambda>kind.
     Inr \<lparr>fl_token_mint = mint, fl_side = side, fl_observed_at = t, fl_reference_price = ref,
          fl_fill_price = price, fl_notional_usd = notional, fl_units = units,
          fl_execution_drag_usd = drag, fl_intent = kind\<rparr>)))))))))"

definition position_to_dict :: "paper_position \<Rightarrow> jval" where
  "position_to_dict p = JObj
     [(''token_mint'', JStr (po_token_mint p)),
      (''scout_wallet'', JStr (po_scout_wallet p)),
      (''opened_at'', JTime (po_opened_at p)),
      (''units'', JNum (po_units p)),
      (''cost_basis_usd'', JNum (po_cost_basis_usd p)),
      (''entry_capital_usd'', JNum (po_entry_capital_usd p)),
      (''realized_pnl_usd'', JNum (po_realized_pnl_usd p)),
      (''harvest_hit'', JBool (po_harvest_hit p)),
      (''runner_units'', JNum (po_runner_units p)),
      (''high_water_price'', optional JNum (po_high_water_price p)),
      (''closed_at'', optional JTime (po_closed_at p)),
      (''closed_reason'', optional JStr (po_closed_reason p)),
      (''fills'', JList (map fill_to_dict (po_fills p)))]"

definition position_from_dict :: "jval \<Rightarrow> paper_position result" where
  "position_from_dict p =
     bind_result (read p ''token_mint'' as_text) (\<lambda>mint.
     bind_result (read p ''scout_wallet'' as_text) (\<lambda>wallet.
     bind_result (read p ''opened_at'' as_instant) (\<lambda>opened.
     bind_result (read p ''units'' as_float) (\<lambda>units.
     bind_result (read p ''cost_basis_usd'' as_float) (\<lambda>basis.
     bind_result (read p ''entry_capital_usd'' as_float) (\<lambda>capital.
     bind_result (read p ''realized_pnl_usd'' as_float) (\<lambda>pnl.
     bind_result (read p ''harvest_hit'' (\<lambda>v. Inr (truthy v))) (\<lambda>harvest.
     bind_result (read p ''runner_units'' as_float) (\<lambda>runner.
     bind_result (read_optional p ''high_water_price'' as_float) (\<lambda>high.
     bind_result (read_if_true p ''closed_at'' as_instant) (\<lambda>closed_at.
     bind_result (read_optional p ''closed_reason'' as_text) (\<lambda>reason.
     bind_result (read_or_empty p ''fills'' as_items) (\<lambda>items.
     bind_result (traverse fill_from_dict items) (\<lambda>fills.
     Inr \<lparr>po_token_mint = mint, po_scout_wallet = wallet, po_opened_at = opened, po_units = units,
          po_cost_basis_usd = basis, po_entry_capital_usd = capital, po_realized_pnl_usd = pnl,
          po_harvest_hit = harvest, po_runner_units = runner, po_high_water_price = high,
          po_closed_at = closed_at, po_closed_reason = reason, po_fills = fills\<rparr>))))))))))))))"

definition outcome_to_dict :: "trade_outcome \<Rightarrow> jval" where
  "outcome_to_dict x = JObj
     [(''token_mint'', JStr (to_token_mint x)),
      (''scout_wallet'', JStr (to_scout_wallet x)),
      (''opened_at'', JTime (to_opened_at x)),
      (''closed_at'', JTime (to_closed_at x)),
      (''starting_nav_usd'', JNum (to_starting_nav_usd x)),
      (''ending_nav_usd'', JNum (to_ending_nav_usd x)),
      (''net_pnl_usd'', JNum (to_net_pnl_usd x)),
      (''return_on_starting_nav'', JNum (to_return_on_starting_nav x)),
      (''harvest_hit'', JBool (to_harvest_hit x)),
      (''closed_reason'', JStr (to_closed_reason x))]"

definition outcome_from_dict :: "jval \<Rightarrow> trade_outcome result" where
  "outcome_from_dict p =
     bind_result (read p ''token_mint'' as_text) (\<lambda>mint.
     bind_result (read p ''scout_wallet'' as_text) (\<lambda>wallet.
     bind_result (read p ''opened_at'' as_instant) (\<lambda>opened.
     bind_result (read p ''closed_at'' as_instant) (\<lambda>closed_at.
     bind_result (read p ''starting_nav_usd'' as_float) (\<lambda>starting.
     bind_result (read p ''ending_nav_usd'' as_float) (\<lambda>ending.
     bind_result (read p ''net_pnl_usd'' as_float) (\<lambda>pnl.
     bind_result (read p ''return_on_starting_nav'' as_float) (\<lambda>ret.
     bind_result (read p ''harvest_hit'' (\<lambda>v. Inr (truthy v))) (\<lambda>harvest.
     bind_result (read p ''closed_reason'' as_text) (\<lambda>reason.
     Inr \<lparr>to_token_mint = mint, to_scout_wallet = wallet, to_opened_at = opened,
          to_closed_at = closed_at, to_starting_nav_usd = starting, to_ending_nav_usd = ending,
          to_net_pnl_usd = pnl, to_return_on_starting_nav = ret, to_harvest_hit = harvest,
          to_closed_reason = reason\<rparr>))))))))))"

subsection \<open>The whole document\<close>

record paper_state =
  ps_strategy_version :: string
  ps_initial_capital_usd :: real
  ps_cash_usd :: real
  ps_marks :: "(string, real) dict"
  ps_trade_start_nav :: "(string, real) dict"
  ps_candidates :: "(string, candidate) dict"
  ps_positions :: "(string, paper_position) dict"
  ps_closed :: "trade_outcome list"

definition CHECKPOINT_SCHEMA :: string where
  "CHECKPOINT_SCHEMA = ''roi-convergence-paper-engine-checkpoint.v1''"

definition in_key_order :: "(string, 'v) dict \<Rightarrow> (string, 'v) dict" where
  "in_key_order d = sort_key fst d"

definition keyed_object :: "('v \<Rightarrow> jval) \<Rightarrow> (string, 'v) dict \<Rightarrow> jval" where
  "keyed_object f d = JObj (map (\<lambda>(k, v). (k, f v)) (in_key_order d))"

definition state_document :: "paper_state \<Rightarrow> jval" where
  "state_document s = JObj
     [(''schema'', JStr CHECKPOINT_SCHEMA),
      (''strategy_version'', JStr (ps_strategy_version s)),
      (''initial_capital_usd'', JNum (ps_initial_capital_usd s)),
      (''cash_usd'', JNum (ps_cash_usd s)),
      (''marks'', keyed_object JNum (ps_marks s)),
      (''trade_start_nav'', keyed_object JNum (ps_trade_start_nav s)),
      (''candidates'', keyed_object candidate_to_dict (ps_candidates s)),
      (''positions'', keyed_object position_to_dict (ps_positions s)),
      (''closed'', JList (map outcome_to_dict (ps_closed s)))]"

definition entry_with :: "(jval \<Rightarrow> 'v result) \<Rightarrow> string \<times> jval \<Rightarrow> (string \<times> 'v) result" where
  "entry_with conv e = bind_result (conv (snd e)) (\<lambda>x. Inr (fst e, x))"

definition read_keyed :: "jval \<Rightarrow> string \<Rightarrow> (jval \<Rightarrow> 'v result) \<Rightarrow> (string, 'v) dict result" where
  "read_keyed p k conv =
     bind_result (read_or_empty p k as_entries) (\<lambda>d. traverse (entry_with conv) d)"

text \<open>The checks of \<open>_restore_or_fail_closed\<close> on the document, then the state it rebuilds.\<close>

definition document_state :: "strategy_config \<Rightarrow> jval \<Rightarrow> paper_state result" where
  "document_state cf p =
     bind_result (field_or_none p ''schema'') (\<lambda>schema.
     if schema \<noteq> JStr CHECKPOINT_SCHEMA then
       Inl (RuntimeError ''paper engine restore blocked: unsupported checkpoint schema'') else
     bind_result (field_or_none p ''strategy_version'') (\<lambda>version.
     if version \<noteq> JStr (cf_version cf) then
       Inl (RuntimeError ''paper engine restore blocked: strategy version mismatch'') else
     bind_result (bind_result (field_or_none p ''initial_capital_usd'') as_float) (\<lambda>capital.
     if \<bar>capital - cf_initial_capital_usd cf\<bar> > 1 / 10 ^ 9 then
       Inl (RuntimeError ''paper engine restore blocked: genesis capital mismatch'') else
     bind_result (read_keyed p ''marks'' as_float) (\<lambda>marks.
     bind_result (read p ''cash_usd'' as_float) (\<lambda>cash.
     bind_result (read_keyed p ''trade_start_nav'' as_float) (\<lambda>navs.
     bind_result (read_keyed p ''candidates'' candidate_from_dict) (\<lambda>candidates.
     bind_result (read_keyed p ''positions'' position_from_dict) (\<lambda>positions.
     bind_result (bind_result (read_or_empty p ''closed'' as_items) (traverse outcome_from_dict)) (\<lambda>closed.
     Inr \<lparr>ps_strategy_version = cf_version cf, ps_initial_capital_usd = capital, ps_cash_usd = cash,
          ps_marks = marks, ps_trade_start_nav = navs, ps_candidates = candidates,
          ps_positions = positions, ps_closed = closed\<rparr>)))))))))"

subsection \<open>What is written is read back\<close>

lemma field_Cons [simp]:
  "field (JObj ((k', v) # d)) k = (if k = k' then Inr v else field (JObj d) k)"
  by simp

lemma field_or_none_Cons [simp]:
  "field_or_none (JObj ((k', v) # d)) k = (if k = k' then Inr v else field_or_none (JObj d) k)"
  by simp

lemma optional_text [simp]:
  "(if optional JStr s = JNull then Inr None else bind_result (as_text (optional JStr s)) (\<lambda>y. Inr (Some y))) = Inr s"
  by (cases s) simp_all

lemma optional_number [simp]:
  "(if optional JNum x = JNull then Inr None else bind_result (as_float (optional JNum x)) (\<lambda>y. Inr (Some y))) = Inr x"
  by (cases x) simp_all

lemma optional_instant [simp]:
  "(if \<not> truthy (optional JTime t) then Inr None else bind_result (as_instant (optional JTime t)) (\<lambda>y. Inr (Some y))) = Inr t"
  by (cases t) simp_all

lemma traverse_map:
  "(\<And>x. x \<in> set xs \<Longrightarrow> g (f x) = Inr (h x)) \<Longrightarrow> traverse g (map f xs) = Inr (map h xs)"
  by (induction xs) auto

lemma traverse_inverse: "(\<And>x. g (f x) = Inr x) \<Longrightarrow> traverse g (map f xs) = Inr xs"
  using traverse_map [of xs g f id] by simp

lemma risk_round_trip [simp]: "risk_from_dict (risk_to_dict r) = Inr r"
  by (simp add: risk_from_dict_def risk_to_dict_def risk_fields_def flag_or_false_def read_def)

lemma candidate_round_trip [simp]: "candidate_from_dict (candidate_to_dict c) = Inr c"
  by (simp add: candidate_from_dict_def candidate_to_dict_def read_defs)

lemma fill_round_trip [simp]: "fill_from_dict (fill_to_dict f) = Inr f"
  by (simp add: fill_from_dict_def fill_to_dict_def read_defs)

lemma outcome_round_trip [simp]: "outcome_from_dict (outcome_to_dict x) = Inr x"
  by (simp add: outcome_from_dict_def outcome_to_dict_def read_defs)

lemma items_round_trip:
  "(\<And>x. conv (f x) = Inr x) \<Longrightarrow>
     bind_result (if truthy (JList (map f xs)) then as_items (JList (map f xs)) else Inr []) (traverse conv) = Inr xs"
  by (cases xs) (simp_all add: traverse_inverse)

lemma position_round_trip [simp]: "position_from_dict (position_to_dict p) = Inr p"
  using items_round_trip [of fill_from_dict fill_to_dict "po_fills p"]
  by (cases "po_fills p"; cases p) (simp_all add: position_from_dict_def position_to_dict_def read_defs
      traverse_inverse)

lemma keyed_round_trip:
  assumes "\<And>x. conv (f x) = Inr x"
  shows "bind_result (if truthy (keyed_object f d) then as_entries (keyed_object f d) else Inr [])
      (traverse (entry_with conv)) = Inr (in_key_order d)"
proof -
  have "traverse (entry_with conv) (map (\<lambda>(k, v). (k, f v)) xs) = Inr xs" for xs :: "(string \<times> 'a) list"
    by (rule traverse_inverse) (simp add: entry_with_def assms split_beta)
  then show ?thesis by (auto simp: keyed_object_def)
qed

text \<open>The state that a restart rebuilds: the same values, dictionaries in key order.\<close>

definition sorted_state :: "paper_state \<Rightarrow> paper_state" where
  "sorted_state s = s\<lparr>ps_marks := in_key_order (ps_marks s),
     ps_trade_start_nav := in_key_order (ps_trade_start_nav s),
     ps_candidates := in_key_order (ps_candidates s), ps_positions := in_key_order (ps_positions s)\<rparr>"

lemma dict_get_in_key_order [simp]: "dict_get (in_key_order d) k = dict_get d k"
proof -
  have "map_of (filter (\<lambda>e. fst e = k) xs) k = map_of xs k" for xs :: "(string \<times> 'a) list"
    by (induction xs) auto
  then show ?thesis
    by (metis dict_get_def in_key_order_def sort_key_stable)
qed

lemma read_keyed_round_trip:
  assumes "\<And>x. conv (f x) = Inr x" and "dict_get members k = Some (keyed_object f d)"
  shows "read_keyed (JObj members) k conv = Inr (in_key_order d)"
  using keyed_round_trip [of conv f d, OF assms(1)] assms(2)
  by (simp add: read_keyed_def read_or_empty_def)

lemma checkpoint_reads_back:
  assumes "ps_strategy_version s = cf_version cf"
    and "ps_initial_capital_usd s = cf_initial_capital_usd cf"
  shows "document_state cf (state_document s) = Inr (sorted_state s)"
proof -
  have closed: "bind_result (read_or_empty (state_document s) ''closed'' as_items) (traverse outcome_from_dict)
      = Inr (ps_closed s)"
    using items_round_trip [of outcome_from_dict outcome_to_dict "ps_closed s"]
    by (simp add: state_document_def read_or_empty_def)
  have keyed: "read_keyed (state_document s) ''marks'' as_float = Inr (in_key_order (ps_marks s))"
    "read_keyed (state_document s) ''trade_start_nav'' as_float = Inr (in_key_order (ps_trade_start_nav s))"
    "read_keyed (state_document s) ''candidates'' candidate_from_dict = Inr (in_key_order (ps_candidates s))"
    "read_keyed (state_document s) ''positions'' position_from_dict = Inr (in_key_order (ps_positions s))"
    unfolding state_document_def by (rule read_keyed_round_trip; simp)+
  have leaves: "field_or_none (state_document s) ''schema'' = Inr (JStr CHECKPOINT_SCHEMA)"
    "field_or_none (state_document s) ''strategy_version'' = Inr (JStr (ps_strategy_version s))"
    "field_or_none (state_document s) ''initial_capital_usd'' = Inr (JNum (ps_initial_capital_usd s))"
    "read (state_document s) ''cash_usd'' as_float = Inr (ps_cash_usd s)"
    by (simp_all add: state_document_def read_def)
  show ?thesis
    using assms by (simp add: document_state_def closed keyed leaves)
      (simp add: sorted_state_def)
qed

lemma sorted_state_simps [simp]:
  "ps_cash_usd (sorted_state s) = ps_cash_usd s" "ps_closed (sorted_state s) = ps_closed s"
  "ps_strategy_version (sorted_state s) = ps_strategy_version s"
  "ps_initial_capital_usd (sorted_state s) = ps_initial_capital_usd s"
  "dict_get (ps_positions (sorted_state s)) m = dict_get (ps_positions s) m"
  "dict_get (ps_candidates (sorted_state s)) m = dict_get (ps_candidates s) m"
  "dict_get (ps_marks (sorted_state s)) m = dict_get (ps_marks s) m"
  "dict_get (ps_trade_start_nav (sorted_state s)) m = dict_get (ps_trade_start_nav s) m"
  by (simp_all add: sorted_state_def)

subsection \<open>Properties\<close>

text \<open>C33. The checkpoint document is a faithful copy: for any paper state of a configuration,
  reading back the document that is written passes every check and gives the same cash,
  marks, candidates, positions with their fills and closed trades, with nothing added, lost
  or rounded; only the mint-keyed dictionaries come back in key order, and looking a mint up
  in them gives what it gave before.\<close>

theorem checkpoint_document_round_trip:
  assumes "ps_strategy_version s = cf_version cf"
    and "ps_initial_capital_usd s = cf_initial_capital_usd cf"
  shows "document_state cf (state_document s) = Inr (sorted_state s)
    \<and> (\<forall>m. dict_get (ps_positions (sorted_state s)) m = dict_get (ps_positions s) m
         \<and> dict_get (ps_candidates (sorted_state s)) m = dict_get (ps_candidates s) m
         \<and> dict_get (ps_marks (sorted_state s)) m = dict_get (ps_marks s) m)"
  using assms checkpoint_reads_back [of s cf] by simp

definition demo_state :: paper_state where
  "demo_state = \<lparr>ps_strategy_version = cf_version BASELINE, ps_initial_capital_usd = 500,
     ps_cash_usd = 400, ps_marks = [(''M'', 2)], ps_trade_start_nav = [],
     ps_candidates = [], ps_positions = [(''M'', (new_position ''M'' ''W'' 7)\<lparr>po_units := 50\<rparr>)],
     ps_closed = []\<rparr>"

theorem checkpoint_document_round_trip_witness:
  "document_state BASELINE (state_document demo_state) = Inr demo_state"
  using checkpoint_document_round_trip [of demo_state BASELINE]
  by (simp add: demo_state_def sorted_state_def in_key_order_def)

end
