(* ===== verification/Durable.thy ===== *)
theory Durable
  imports Engine Storage Checkpoint
begin

text \<open>
  \<open>durable_engine.py\<close>: the paper engine whose events go to the hash-chained store and whose
  state is checkpointed after every call, and the restart that restores it or refuses.
  \<open>PaperPortfolio.positions\<close> and \<open>PaperPortfolio.closed\<close> are the ledger's own objects in a fresh
  engine; a restore assigns new ones to the two attributes and leaves the ledger's empty. The
  model keeps that distinction: \<open>du_facade\<close> is \<open>None\<close> while the attributes are the ledger's
  objects, and holds their separate contents after a restore. The ISO text of an instant, the
  JSON texts and SHA-256 are parameters, collected in \<open>renderer\<close>. A row id is the position of
  the row in the log, counted from one.
\<close>

record renderer =
  rn_sha :: "string \<Rightarrow> string"
  rn_iso :: "datetime \<Rightarrow> string"
  rn_payload :: "log_event \<Rightarrow> string"
  rn_document :: "jval \<Rightarrow> string"

record checkpoint_row =
  ck_saved_at :: datetime
  ck_last_engine_event_id :: int
  ck_state_json :: jval
  ck_state_sha256 :: string

record facade =
  fa_positions :: "(string, paper_position) dict"
  fa_closed :: "trade_outcome list"

record durable =
  du_strategy :: strategy
  du_runtime :: paper_runtime
  du_facade :: "facade option"
  du_marks :: "(string, real) dict"
  du_trade_start_nav :: "(string, real) dict"
  du_store :: event_store
  du_checkpoint :: "checkpoint_row option"
  du_last_engine_event_id :: int

abbreviation du_ledger :: "durable \<Rightarrow> ledger" where
  "du_ledger g \<equiv> rt_ledger (du_runtime g)"

abbreviation du_rows :: "durable \<Rightarrow> event_row list" where
  "du_rows g \<equiv> es_events (du_store g)"

definition positions_view :: "durable \<Rightarrow> (string, paper_position) dict" where
  "positions_view g = (case du_facade g of None \<Rightarrow> ld_positions (du_ledger g) | Some fa \<Rightarrow> fa_positions fa)"

definition closed_view :: "durable \<Rightarrow> trade_outcome list" where
  "closed_view g = (case du_facade g of None \<Rightarrow> ld_closed (du_ledger g) | Some fa \<Rightarrow> fa_closed fa)"

text \<open>\<open>nav_usd\<close> asks the ledger.\<close>

definition durable_nav_usd :: "durable \<Rightarrow> real" where
  "durable_nav_usd g = ledger_nav (dict_get (du_marks g)) (du_ledger g)"

subsection \<open>The portfolio after a restore\<close>

text \<open>
  \<open>PaperPortfolio.apply\<close> when \<open>self.positions\<close> is no longer the ledger's dictionary: positions are
  looked up in the facade, new ones are registered in the ledger, and sizing asks the ledger.
\<close>

definition facade_register ::
  "facade \<Rightarrow> trade_intent \<Rightarrow> string \<Rightarrow> string \<Rightarrow> string \<Rightarrow> ledger \<Rightarrow> ledger" where
  "facade_register fa i scout_wallet family ctx l =
     (case dict_get (fa_positions fa) (ti_token_mint i) of
        Some p \<Rightarrow> l
      | None \<Rightarrow> register_position
          (new_position (ti_token_mint i) scout_wallet (ti_observed_at i)) family ctx l)"

definition facade_book ::
  "string \<Rightarrow> real \<Rightarrow> simulated_fill \<Rightarrow> real \<Rightarrow> facade \<times> ledger \<Rightarrow> facade \<times> ledger" where
  "facade_book mint cost fill mark x =
     (let (fa, l) = x in
      case dict_get (fa_positions fa) mint of
        None \<Rightarrow> (fa, book_entry mint cost fill mark l)
      | Some p \<Rightarrow>
          (fa\<lparr>fa_positions := dict_set mint
               (p\<lparr>po_units := po_units p + fl_units fill,
                  po_cost_basis_usd := po_cost_basis_usd p + cost,
                  po_entry_capital_usd := po_entry_capital_usd p + cost,
                  po_fills := po_fills p @ [fill]\<rparr>) (fa_positions fa)\<rparr>,
           record_equity [mint \<mapsto> mark] (l\<lparr>ld_cash_usd := ld_cash_usd l - cost\<rparr>)))"

definition facade_enter ::
  "facade \<Rightarrow> paper_runtime \<Rightarrow> trade_intent \<Rightarrow> string \<Rightarrow> string \<Rightarrow> string \<Rightarrow> real \<Rightarrow> simulated_fill \<Rightarrow> real
     \<Rightarrow> facade \<times> paper_runtime" where
  "facade_enter fa rt i scout_wallet family ctx cost fill mark =
     (let (fa', l) = facade_book (ti_token_mint i) cost fill mark
            (fa, facade_register fa i scout_wallet family ctx (rt_ledger rt))
      in (fa', with_ledger (\<lambda>_. l) rt))"

definition facade_exact_entry ::
  "facade \<Rightarrow> paper_runtime \<Rightarrow> trade_intent \<Rightarrow> string \<Rightarrow> real \<Rightarrow> string \<Rightarrow> string
     \<Rightarrow> bool result \<times> facade \<times> paper_runtime" where
  "facade_exact_entry fa rt i scout_wallet reference_price family ctx =
     (case rt_entry rt of
        None \<Rightarrow> (Inr False, fa, rt)
      | Some ev \<Rightarrow>
        if \<not> is_opening (ti_kind i) \<or> oe_token_mint ev \<noteq> ti_token_mint i then (Inr False, fa, rt)
        else let rt1 = rt\<lparr>rt_entry := None\<rparr> in
          if \<not> exact_evidence_valid ev reference_price then (Inr True, fa, rt1)
          else let network_fee = max 0 (oe_network_fee_usd ev);
                   notional = max 0 (oe_input_usd ev);
                   units = max 0 (oe_order_out_token_units ev);
                   price = oe_order_effective_price_sol ev
          in case full_position_notional [ti_token_mint i \<mapsto> price] (rt_portfolio rt1) of
             Inl e \<Rightarrow> (Inl e, fa, rt1)
           | Inr full \<Rightarrow>
             let intended = max 0 (full * ti_fraction_of_full_position i);
                 available = max 0 (ld_cash_usd (rt_ledger rt1) - network_fee);
                 tol = entry_tolerance notional
             in if \<not> isclose notional intended (1 / 10 ^ 6) tol
                   \<or> \<not> notional \<le> available + tol \<or> units \<le> 0 then (Inr True, fa, rt1)
                else (Inr True, facade_enter fa rt1 i scout_wallet family ctx (notional + network_fee)
                     \<lparr>fl_token_mint = ti_token_mint i, fl_side = Buy,
                      fl_observed_at = ti_observed_at i, fl_reference_price = price,
                      fl_fill_price = price, fl_notional_usd = notional, fl_units = units,
                      fl_execution_drag_usd = network_fee, fl_intent = ti_kind i\<rparr> price))"

definition facade_opening ::
  "facade \<Rightarrow> paper_runtime \<Rightarrow> trade_intent \<Rightarrow> string \<Rightarrow> real \<Rightarrow> string \<Rightarrow> string
     \<Rightarrow> py_error option \<times> facade \<times> paper_runtime" where
  "facade_opening fa rt i scout_wallet reference_price family ctx =
     (case facade_exact_entry fa rt i scout_wallet reference_price family ctx of
        (Inl e, fa1, rt1) \<Rightarrow> (Some e, fa1, rt1)
      | (Inr True, fa1, rt1) \<Rightarrow> (None, fa1, rt1)
      | (Inr False, fa1, rt1) \<Rightarrow>
          let rt2 = with_ledger (facade_register fa1 i scout_wallet family ctx) rt1 in
          (case full_position_notional [ti_token_mint i \<mapsto> reference_price] (rt_portfolio rt2) of
             Inl e \<Rightarrow> (Some e, fa1, rt2)
           | Inr full \<Rightarrow>
             let notional = min (ld_cash_usd (rt_ledger rt2)) (full * ti_fraction_of_full_position i) in
             if notional \<le> 0 then (None, fa1, rt2)
             else (case sim_buy (rt_config rt2) (ti_token_mint i) (ti_observed_at i)
                          reference_price notional (ti_kind i) of
                 Inl e \<Rightarrow> (Some e, fa1, rt2)
               | Inr fill \<Rightarrow>
                   let (fa2, l) = facade_book (ti_token_mint i) notional fill reference_price
                         (fa1, rt_ledger rt2)
                   in (None, fa2, with_ledger (\<lambda>_. l) rt2))))"

definition facade_harvest ::
  "strategy_config \<Rightarrow> trade_intent \<Rightarrow> real \<Rightarrow> paper_position \<Rightarrow> facade \<times> ledger \<Rightarrow> facade \<times> ledger" where
  "facade_harvest cf i reference_price p x =
     (let (fa, l) = x;
          (received, p') = sell_position cf (p\<lparr>po_harvest_hit := True\<rparr>) i reference_price
                             (po_units p * cf_harvest_fraction cf);
          p'' = p'\<lparr>po_runner_units := po_units p', po_high_water_price := Some reference_price\<rparr>
      in (fa\<lparr>fa_positions := dict_set (ti_token_mint i) p'' (fa_positions fa)\<rparr>,
          record_equity [ti_token_mint i \<mapsto> reference_price]
            (l\<lparr>ld_cash_usd := ld_cash_usd l + received\<rparr>)))"

definition facade_exit ::
  "strategy_config \<Rightarrow> trade_intent \<Rightarrow> real \<Rightarrow> paper_position \<Rightarrow> facade \<times> ledger \<Rightarrow> facade \<times> ledger" where
  "facade_exit cf i reference_price p x =
     (let (fa, l) = x;
          l1 = mark_exit_pending (po_token_mint p) l;
          (received, p') = sell_position cf p i reference_price (po_units p);
          p'' = close_position (ti_observed_at i) (exit_reason i) p'
      in (\<lparr>fa_positions = dict_set (ti_token_mint i) p'' (fa_positions fa),
           fa_closed = fa_closed fa @ [outcome_of p' (ti_observed_at i) (exit_reason i)]\<rparr>,
          record_equity [ti_token_mint i \<mapsto> reference_price]
            (clear_exit_pending (po_token_mint p) (l1\<lparr>ld_cash_usd := ld_cash_usd l1 + received\<rparr>))))"

definition facade_apply ::
  "facade \<Rightarrow> paper_runtime \<Rightarrow> trade_intent \<Rightarrow> string \<Rightarrow> real \<Rightarrow> string \<Rightarrow> string
     \<Rightarrow> py_error option \<times> facade \<times> paper_runtime" where
  "facade_apply fa rt i scout_wallet reference_price family ctx =
     (if is_opening (ti_kind i) then facade_opening fa rt i scout_wallet reference_price family ctx
      else case dict_get (fa_positions fa) (ti_token_mint i) of
        None \<Rightarrow> (None, fa, rt)
      | Some p \<Rightarrow>
          if \<not> is_open p then (None, fa, rt)
          else if ti_kind i = HARVEST then
            let (fa', l) = facade_harvest (rt_config rt) i reference_price p (fa, rt_ledger rt)
            in (None, fa', with_ledger (\<lambda>_. l) rt)
          else if is_exit (ti_kind i) then
            let (fa', l) = facade_exit (rt_config rt) i reference_price p (fa, rt_ledger rt)
            in (None, fa', with_ledger (\<lambda>_. l) rt)
          else (None, fa, rt))"

definition durable_apply ::
  "durable \<Rightarrow> trade_intent \<Rightarrow> string \<Rightarrow> real \<Rightarrow> py_error option \<times> durable" where
  "durable_apply g i scout_wallet price =
     (case du_facade g of
        None \<Rightarrow> (case engine_apply (du_runtime g) i scout_wallet price of
            (e, rt) \<Rightarrow> (e, g\<lparr>du_runtime := rt\<rparr>))
      | Some fa \<Rightarrow> (case facade_apply fa (du_runtime g) i scout_wallet price ''legacy_runtime'' ''unclassified'' of
            (e, fa', rt) \<Rightarrow> (e, g\<lparr>du_facade := Some fa', du_runtime := rt\<rparr>)))"

subsection \<open>The event ids\<close>

fun event_type_of :: "log_event \<Rightarrow> string" where
  "event_type_of (LogFirstTouch w r v) = ''first_touch''"
| "event_type_of (LogConfirmation n r) = ''confirmation''"
| "event_type_of (LogPrice m t x) = ''price''"
| "event_type_of (LogTradeIntent i x) = ''trade_intent''"
| "event_type_of (LogTradeOutcome out) = ''trade_outcome''"

fun event_time_of :: "log_event \<Rightarrow> datetime" where
  "event_time_of (LogFirstTouch w r v) = wt_observed_at w"
| "event_time_of (LogConfirmation n r) = cn_observed_at n"
| "event_time_of (LogPrice m t x) = t"
| "event_time_of (LogTradeIntent i x) = ti_observed_at i"
| "event_time_of (LogTradeOutcome out) = to_closed_at out"

definition ENGINE_EVENT_TYPES :: "string list" where
  "ENGINE_EVENT_TYPES = [''first_touch'', ''confirmation'', ''price'', ''trade_intent'', ''trade_outcome'']"

definition engine_row :: "event_row \<Rightarrow> bool" where
  "engine_row r \<longleftrightarrow> ev_event_type r \<in> set ENGINE_EVENT_TYPES"

fun numbered_from :: "int \<Rightarrow> event_row list \<Rightarrow> (int \<times> event_row) list" where
  "numbered_from i [] = []"
| "numbered_from i (r # rs) = (i, r) # numbered_from (i + 1) rs"

definition numbered :: "event_row list \<Rightarrow> (int \<times> event_row) list" where
  "numbered rows = numbered_from 1 rows"

definition id_of_lineage :: "event_row list \<Rightarrow> string \<Rightarrow> int option" where
  "id_of_lineage rows lineage = map_option fst (find (\<lambda>(i, r). ev_lineage_hash r = lineage) (numbered rows))"

definition engine_event_after :: "event_row list \<Rightarrow> int \<Rightarrow> int option" where
  "engine_event_after rows event_id =
     map_option fst (find (\<lambda>(i, r). event_id < i \<and> engine_row r) (numbered rows))"

definition checkpoint_event_marker_valid :: "event_row list \<Rightarrow> int \<Rightarrow> bool" where
  "checkpoint_event_marker_valid rows event_id =
     (if event_id = 0 then True
      else if event_id < 0 then False
      else case find (\<lambda>(i, r). i = event_id) (numbered rows) of
          None \<Rightarrow> False
        | Some (i, r) \<Rightarrow> engine_row r)"

text \<open>The loop of \<open>_verify_engine_snapshot\<close> over the fetched rows.\<close>

fun verify_engine_rows ::
  "(string \<Rightarrow> string) \<Rightarrow> string option \<Rightarrow> int \<Rightarrow> int option \<Rightarrow> (int \<times> event_row) list
     \<Rightarrow> bool \<times> int \<times> int option" where
  "verify_engine_rows sha previous through latest [] = (True, through, latest)"
| "verify_engine_rows sha previous through latest ((i, r) # rows) =
     (if ev_previous_hash r \<noteq> previous then (False, 0, None)
      else if sha (lineage_message previous (ev_event_type r) (ev_observed_at r) (ev_payload_json r))
                \<noteq> ev_lineage_hash r then (False, 0, None)
      else verify_engine_rows sha (Some (ev_lineage_hash r)) i
             (if engine_row r then Some i else latest) rows)"

definition verify_engine_snapshot :: "(string \<Rightarrow> string) \<Rightarrow> event_row list \<Rightarrow> bool \<times> int \<times> int option" where
  "verify_engine_snapshot sha rows = verify_engine_rows sha None 0 None (numbered rows)"

subsection \<open>Appending and checkpointing\<close>

definition durable_append :: "renderer \<Rightarrow> log_event \<Rightarrow> durable \<Rightarrow> py_error option \<times> durable" where
  "durable_append env ev g =
     (case store_append (rn_sha env) (event_type_of ev) (rn_iso env (event_time_of ev))
              (rn_payload env ev) (du_store g) of
        (Inl e, s) \<Rightarrow> (Some e, g\<lparr>du_store := s\<rparr>)
      | (Inr lineage, s) \<Rightarrow>
          let g1 = g\<lparr>du_store := s\<rparr> in
          if event_type_of ev \<notin> set ENGINE_EVENT_TYPES then (None, g1)
          else case id_of_lineage (es_events s) lineage of
            None \<Rightarrow> (Some (RuntimeError ''paper engine checkpoint blocked: appended engine event id unavailable''), g1)
          | Some i \<Rightarrow> (None, g1\<lparr>du_last_engine_event_id := i\<rparr>))"

definition listed :: "(string \<rightharpoonup> 'v) \<Rightarrow> (string, 'v) dict" where
  "listed m = map (\<lambda>k. (k, the (m k))) (sorted_list_of_set (dom m))"

definition state_of :: "durable \<Rightarrow> paper_state" where
  "state_of g = \<lparr>ps_strategy_version = cf_version (st_config (du_strategy g)),
     ps_initial_capital_usd = ld_initial_capital_usd (du_ledger g),
     ps_cash_usd = ld_cash_usd (du_ledger g), ps_marks = du_marks g,
     ps_trade_start_nav = du_trade_start_nav g,
     ps_candidates = listed (st_candidates (du_strategy g)),
     ps_positions = positions_view g, ps_closed = closed_view g\<rparr>"

definition save_checkpoint :: "renderer \<Rightarrow> datetime \<Rightarrow> durable \<Rightarrow> durable" where
  "save_checkpoint env now g =
     (let document = state_document (state_of g) in
      g\<lparr>du_checkpoint := Some \<lparr>ck_saved_at = now, ck_last_engine_event_id = du_last_engine_event_id g,
          ck_state_json = document, ck_state_sha256 = rn_sha env (rn_document env document)\<rparr>\<rparr>)"

subsection \<open>Handlers\<close>

fun durable_intents ::
  "renderer \<Rightarrow> durable \<Rightarrow> string \<Rightarrow> real \<Rightarrow> trade_intent list \<Rightarrow> py_error option \<times> durable" where
  "durable_intents env g scout_wallet price [] = (None, g)"
| "durable_intents env g scout_wallet price (i # is) =
     (case durable_apply g i scout_wallet price of
        (Some e, g1) \<Rightarrow> (Some e, g1)
      | (None, g1) \<Rightarrow>
          (case durable_append env (LogTradeIntent i price) g1 of
             (Some e, g2) \<Rightarrow> (Some e, g2)
           | (None, g2) \<Rightarrow> durable_intents env g2 scout_wallet price is))"

fun durable_outcomes :: "renderer \<Rightarrow> trade_outcome list \<Rightarrow> durable \<Rightarrow> py_error option \<times> durable" where
  "durable_outcomes env [] g = (None, g)"
| "durable_outcomes env (out # outs) g =
     (case durable_append env (LogTradeOutcome out) g of
        (Some e, g1) \<Rightarrow> (Some e, g1)
      | (None, g1) \<Rightarrow> durable_outcomes env outs g1)"

definition set_mark :: "string \<Rightarrow> real \<Rightarrow> durable \<Rightarrow> durable" where
  "set_mark m price g = g\<lparr>du_marks := dict_set m price (du_marks g)\<rparr>"

definition durable_first_touch ::
  "renderer \<Rightarrow> durable \<Rightarrow> wallet_touch \<Rightarrow> risk_snapshot \<Rightarrow> real option \<Rightarrow> py_error option \<times> durable" where
  "durable_first_touch env g w r execution_price =
     (let price = or_default execution_price (wt_reference_price w) in
      case durable_append env (LogFirstTouch w r (cf_version (st_config (du_strategy g))))
             (set_mark (wt_token_mint w) price g) of
        (Some e, g1) \<Rightarrow> (Some e, g1)
      | (None, g1) \<Rightarrow>
          let (s', is) = first_touch (du_strategy g1) w r
          in durable_intents env (g1\<lparr>du_strategy := s'\<rparr>) (wt_wallet w) price is)"

definition durable_confirmation ::
  "renderer \<Rightarrow> durable \<Rightarrow> confirmation \<Rightarrow> risk_snapshot \<Rightarrow> real option \<Rightarrow> py_error option \<times> durable" where
  "durable_confirmation env g n r execution_price =
     (let price = or_default execution_price (cn_reference_price n) in
      case durable_append env (LogConfirmation n r) (set_mark (cn_token_mint n) price g) of
        (Some e, g1) \<Rightarrow> (Some e, g1)
      | (None, g1) \<Rightarrow>
          let scout = (case st_candidates (du_strategy g1) (cn_token_mint n) of
                         Some c \<Rightarrow> ca_scout_wallet c | None \<Rightarrow> cn_wallet n)
          in case confirm (du_strategy g1) n r of
               Inl e \<Rightarrow> (Some e, g1)
             | Inr (s', is) \<Rightarrow> durable_intents env (g1\<lparr>du_strategy := s'\<rparr>) scout price is)"

definition facade_high_water :: "string \<Rightarrow> real \<Rightarrow> facade \<Rightarrow> facade" where
  "facade_high_water m price fa =
     (case dict_get (fa_positions fa) m of
        None \<Rightarrow> fa
      | Some p \<Rightarrow>
          if is_open p \<and> po_harvest_hit p then
            fa\<lparr>fa_positions := dict_set m (p\<lparr>po_high_water_price :=
              Some (max (or_float (po_high_water_price p) price) price)\<rparr>) (fa_positions fa)\<rparr>
          else fa)"

definition durable_high_water :: "string \<Rightarrow> real \<Rightarrow> durable \<Rightarrow> durable" where
  "durable_high_water m price g =
     (case du_facade g of
        None \<Rightarrow> g\<lparr>du_runtime := with_ledger (raise_high_water m price) (du_runtime g)\<rparr>
      | Some fa \<Rightarrow> g\<lparr>du_facade := Some (facade_high_water m price fa)\<rparr>)"

definition durable_price ::
  "renderer \<Rightarrow> durable \<Rightarrow> string \<Rightarrow> datetime \<Rightarrow> real \<Rightarrow> py_error option \<times> durable" where
  "durable_price env g m t price =
     (case durable_append env (LogPrice m t price) (set_mark m price g) of
        (Some e, g1) \<Rightarrow> (Some e, g1)
      | (None, g1) \<Rightarrow>
          let scout = (case st_candidates (du_strategy g1) m of
                         Some c \<Rightarrow> ca_scout_wallet c | None \<Rightarrow> ''unknown'');
              g2 = durable_high_water m price g1;
              before_closed = length (closed_view g2)
          in case on_clock (du_strategy g2) m t (Some price) of
               Inl e \<Rightarrow> (Some e, g2)
             | Inr (s', is) \<Rightarrow>
                 (case durable_intents env (g2\<lparr>du_strategy := s'\<rparr>) scout price is of
                    (Some e, g3) \<Rightarrow> (Some e, g3)
                  | (None, g3) \<Rightarrow> durable_outcomes env (drop before_closed (closed_view g3)) g3))"

fun durable_handler :: "renderer \<Rightarrow> durable \<Rightarrow> engine_event \<Rightarrow> py_error option \<times> durable" where
  "durable_handler env g (ETouch w r x) = durable_first_touch env g w r x"
| "durable_handler env g (EConfirm n r x) = durable_confirmation env g n r x"
| "durable_handler env g (EPrice m t price) = durable_price env g m t price"
| "durable_handler env g (EEvidence ev) = (None, g\<lparr>du_runtime := (du_runtime g)\<lparr>rt_entry := ev\<rparr>\<rparr>)"

fun checkpointed :: "engine_event \<Rightarrow> bool" where
  "checkpointed (EEvidence ev) = False"
| "checkpointed _ = True"

text \<open>An overridden handler runs the inherited one and saves the checkpoint unless it raised;
  setting exact-entry evidence is no call of the engine.\<close>

definition durable_call ::
  "renderer \<Rightarrow> datetime \<Rightarrow> durable \<Rightarrow> engine_event \<Rightarrow> py_error option \<times> durable" where
  "durable_call env now g e =
     (case durable_handler env g e of
        (Some x, g') \<Rightarrow> (Some x, g')
      | (None, g') \<Rightarrow> (None, if checkpointed e then save_checkpoint env now g' else g'))"

subsection \<open>Restart\<close>

text \<open>
  The restore reads the log twice: \<open>fetched\<close> are the rows the verification saw, and the store
  may have grown by the time of the later queries. The result is the state to rebuild and the
  event id to continue from, or nothing for a first start.
\<close>

definition restore_or_fail_closed ::
  "renderer \<Rightarrow> strategy_config \<Rightarrow> event_row list \<Rightarrow> event_row list \<Rightarrow> checkpoint_row option
     \<Rightarrow> (paper_state \<times> int) option result" where
  "restore_or_fail_closed env cf fetched rows checkpoint =
     (case verify_engine_snapshot (rn_sha env) fetched of (verified, through, latest) \<Rightarrow>
      if \<not> verified then Inl (RuntimeError ''paper engine restore blocked: event hash chain invalid'')
      else case checkpoint of
        None \<Rightarrow>
          if latest \<noteq> None then Inl (RuntimeError
            ''paper engine restore blocked: engine history exists without a durable checkpoint'')
          else if engine_event_after rows through \<noteq> None then Inl (RuntimeError
            ''paper engine restore blocked: engine history exists without a durable checkpoint'')
          else Inr None
      | Some row \<Rightarrow>
          if ck_last_engine_event_id row > through then Inl (RuntimeError
            ''paper engine restore blocked: checkpoint exceeds verified event ledger'')
          else if \<not> checkpoint_event_marker_valid rows (ck_last_engine_event_id row) then Inl (RuntimeError
            ''paper engine restore blocked: checkpoint engine event marker invalid'')
          else if (case latest of None \<Rightarrow> False | Some i \<Rightarrow> i > ck_last_engine_event_id row) then Inl (RuntimeError
            ''paper engine restore blocked: checkpoint does not cover latest engine event'')
          else if engine_event_after rows through \<noteq> None then Inl (RuntimeError
            ''paper engine restore blocked: checkpoint does not cover latest engine event'')
          else if rn_sha env (rn_document env (ck_state_json row)) \<noteq> ck_state_sha256 row then Inl (RuntimeError
            ''paper engine restore blocked: checkpoint digest mismatch'')
          else bind_result (document_state cf (ck_state_json row)) (\<lambda>s.
            Inr (Some (s, ck_last_engine_event_id row))))"

text \<open>\<open>__init__\<close> on the store and checkpoint that a process left behind.\<close>

definition restart ::
  "renderer \<Rightarrow> strategy_config \<Rightarrow> event_row list \<Rightarrow> event_store \<Rightarrow> checkpoint_row option \<Rightarrow> durable result" where
  "restart env cf fetched store checkpoint =
     bind_result (new_portfolio cf) (\<lambda>pf.
     bind_result (restore_or_fail_closed env cf fetched (es_events store) checkpoint) (\<lambda>found.
       Inr (case found of
          None \<Rightarrow> \<lparr>du_strategy = new_strategy cf, du_runtime = fresh_runtime pf, du_facade = None,
             du_marks = [], du_trade_start_nav = [], du_store = store, du_checkpoint = checkpoint,
             du_last_engine_event_id = 0\<rparr>
        | Some (s, i) \<Rightarrow>
            \<lparr>du_strategy = \<lparr>st_config = cf, st_candidates = dict_get (ps_candidates s)\<rparr>,
             du_runtime = with_ledger (\<lambda>l. l\<lparr>ld_cash_usd := ps_cash_usd s\<rparr>) (fresh_runtime pf),
             du_facade = Some \<lparr>fa_positions = ps_positions s, fa_closed = ps_closed s\<rparr>,
             du_marks = ps_marks s, du_trade_start_nav = ps_trade_start_nav s, du_store = store,
             du_checkpoint = checkpoint, du_last_engine_event_id = i\<rparr>)))"

text \<open>A process that is restarted on its own files, with nobody appending meanwhile.\<close>

definition reopen :: "renderer \<Rightarrow> strategy_config \<Rightarrow> durable \<Rightarrow> durable result" where
  "reopen env cf g = restart env cf (du_rows g) (du_store g) (du_checkpoint g)"

text \<open>The life of an experiment: calls that may raise, and restarts; a refused restart leaves
  the files as they were.\<close>

datatype durable_event = DCall datetime engine_event | DReopen

definition durable_step ::
  "renderer \<Rightarrow> strategy_config \<Rightarrow> durable \<Rightarrow> durable_event \<Rightarrow> durable \<times> py_error list" where
  "durable_step env cf g e =
     (case e of
        DCall now x \<Rightarrow> (case durable_call env now g x of
            (None, g') \<Rightarrow> (g', []) | (Some err, g') \<Rightarrow> (g', [err]))
      | DReopen \<Rightarrow> (case reopen env cf g of Inl err \<Rightarrow> (g, [err]) | Inr g' \<Rightarrow> (g', [])))"

subsection \<open>The log and its ids\<close>

fun latest_from :: "int option \<Rightarrow> int \<Rightarrow> event_row list \<Rightarrow> int option" where
  "latest_from la i [] = la"
| "latest_from la i (r # rs) = latest_from (if engine_row r then Some i else la) (i + 1) rs"

definition latest_engine_id :: "event_row list \<Rightarrow> int option" where
  "latest_engine_id rows = latest_from None 1 rows"

lemma latest_from_snoc:
  "latest_from la i (rows @ [r])
     = (if engine_row r then Some (i + int (length rows)) else latest_from la i rows)"
  by (induction la i rows rule: latest_from.induct) (auto simp: add.commute add.left_commute)

lemma latest_engine_id_snoc [simp]:
  "latest_engine_id (rows @ [r])
     = (if engine_row r then Some (int (length rows) + 1) else latest_engine_id rows)"
  by (simp add: latest_engine_id_def latest_from_snoc add.commute)

lemma latest_engine_id_Nil [simp]: "latest_engine_id [] = None"
  by (simp add: latest_engine_id_def)

lemma latest_engine_id_bounds: "latest_engine_id rows = Some i \<Longrightarrow> 1 \<le> i \<and> i \<le> int (length rows)"
  by (induction rows rule: rev_induct) (fastforce split: if_splits)+

lemma numbered_from_append:
  "numbered_from i (xs @ ys) = numbered_from i xs @ numbered_from (i + int (length xs)) ys"
  by (induction i xs rule: numbered_from.induct) (simp_all add: algebra_simps)

lemma numbered_snoc: "numbered (rows @ [r]) = numbered rows @ [(int (length rows) + 1, r)]"
  by (simp add: numbered_def numbered_from_append add.commute)

lemma numbered_from_bounds:
  "(j, r) \<in> set (numbered_from i rows) \<Longrightarrow> i \<le> j \<and> j < i + int (length rows) \<and> r \<in> set rows"
  by (induction i rows rule: numbered_from.induct) auto

lemma numbered_bounds: "(j, r) \<in> set (numbered rows) \<Longrightarrow> 1 \<le> j \<and> j \<le> int (length rows) \<and> r \<in> set rows"
  unfolding numbered_def by (auto dest: numbered_from_bounds)

lemma numbered_unique: "(j, r) \<in> set (numbered rows) \<Longrightarrow> (j, r') \<in> set (numbered rows) \<Longrightarrow> r = r'"
  by (induction rows rule: rev_induct) (auto simp: numbered_snoc numbered_def [of "[]"] dest: numbered_bounds)

text \<open>What the loop of the restart computes: the verdict of the plain verification, the last id,
  and the last engine event.\<close>

lemma verify_engine_rows_spec:
  "verify_engine_rows sha p (i - 1) la (numbered_from i rows)
     = (if verify_rows sha p rows then (True, i + int (length rows) - 1, latest_from la i rows)
        else (False, 0, None))"
proof (induction rows arbitrary: p i la)
  case (Cons r rows)
  from Cons [of "Some (ev_lineage_hash r)" "i + 1"] show ?case by simp
qed simp

lemma verify_engine_snapshot_spec:
  "verify_engine_snapshot sha rows = (if verify_rows sha None rows
     then (True, int (length rows), latest_engine_id rows) else (False, 0, None))"
  using verify_engine_rows_spec [of sha None 1 None rows]
  by (simp add: verify_engine_snapshot_def numbered_def latest_engine_id_def)

lemma engine_event_after_None:
  "engine_event_after rows i = None \<longleftrightarrow> (\<forall>(j, r)\<in>set (numbered rows). i < j \<longrightarrow> \<not> engine_row r)"
  by (auto simp: engine_event_after_def find_None_iff split_beta)

lemma engine_event_after_end [simp]: "engine_event_after rows (int (length rows)) = None"
  by (auto simp: engine_event_after_None dest: numbered_bounds)

lemma marker_iff:
  "checkpoint_event_marker_valid rows i \<longleftrightarrow> i = 0 \<or> (\<exists>r. (i, r) \<in> set (numbered rows) \<and> engine_row r)"
proof (cases "find (\<lambda>(j, r). j = i) (numbered rows)")
  case None
  then have "\<forall>r. (i, r) \<notin> set (numbered rows)" by (auto simp: find_None_iff)
  with None show ?thesis by (auto simp: checkpoint_event_marker_valid_def)
next
  case (Some x)
  then obtain r where x: "x = (i, r)" and here: "(i, r) \<in> set (numbered rows)"
    using find_result [OF Some] by (cases x) auto
  have "1 \<le> i" using numbered_bounds [OF here] by simp
  moreover have "(\<exists>r'. (i, r') \<in> set (numbered rows) \<and> engine_row r') = engine_row r"
    using here numbered_unique by blast
  ultimately show ?thesis using Some by (simp add: checkpoint_event_marker_valid_def x)
qed

lemma latest_is_engine_row:
  "latest_engine_id rows = Some i \<Longrightarrow> \<exists>r. (i, r) \<in> set (numbered rows) \<and> engine_row r"
  by (induction rows rule: rev_induct) (auto simp: numbered_snoc split: if_splits)

lemma latest_is_latest:
  "(j, r) \<in> set (numbered rows) \<Longrightarrow> engine_row r \<Longrightarrow> \<exists>i\<ge>j. latest_engine_id rows = Some i"
proof (induction rows rule: rev_induct)
  case Nil
  then show ?case by (simp add: numbered_def)
next
  case (snoc x rows)
  then show ?case using numbered_bounds [of j r rows] by (fastforce simp: numbered_snoc)
qed

lemma marker_snoc: "checkpoint_event_marker_valid rows i \<Longrightarrow> checkpoint_event_marker_valid (rows @ [r]) i"
  by (auto simp: marker_iff numbered_snoc)

lemma engine_event_types [simp]: "event_type_of ev \<in> set ENGINE_EVENT_TYPES"
  by (cases ev) (simp_all add: ENGINE_EVENT_TYPES_def)

lemma id_of_new_lineage:
  assumes "ev_lineage_hash r \<notin> ev_lineage_hash ` set rows"
  shows "id_of_lineage (rows @ [r]) (ev_lineage_hash r) = Some (int (length rows) + 1)"
proof -
  have "\<forall>x\<in>set (numbered rows). \<not> (case x of (i, y) \<Rightarrow> ev_lineage_hash y = ev_lineage_hash r)"
  proof
    fix x assume x: "x \<in> set (numbered rows)"
    then have "snd x \<in> set rows" using numbered_bounds [of "fst x" "snd x" rows] by simp
    then have "ev_lineage_hash (snd x) \<in> ev_lineage_hash ` set rows" by (rule imageI)
    with assms have "ev_lineage_hash (snd x) \<noteq> ev_lineage_hash r" by metis
    then show "\<not> (case x of (i, y) \<Rightarrow> ev_lineage_hash y = ev_lineage_hash r)"
      by (simp add: split_beta)
  qed
  from find_new [OF this, of "(int (length rows) + 1, r)"] show ?thesis
    by (simp add: id_of_lineage_def numbered_snoc)
qed

text \<open>An append either meets the unique constraint and changes nothing, or adds one engine event
  and moves the id to it.\<close>

lemma durable_append_cases:
  obtains (refused) "durable_append env ev g = (Some (IntegrityError ''UNIQUE(lineage_hash)''), g)"
  | (appended) s r where "es_events s = du_rows g @ [r]" "engine_row r"
      "store_verify (rn_sha env) (du_store g) \<Longrightarrow> store_verify (rn_sha env) s"
      "durable_append env ev g = (None, g\<lparr>du_store := s,
         du_last_engine_event_id := int (length (du_rows g)) + 1\<rparr>)"
proof -
  let ?stamp = "rn_iso env (event_time_of ev)" and ?raw = "rn_payload env ev"
  let ?lin = "rn_sha env (lineage_message (last_lineage (du_rows g)) (event_type_of ev) ?stamp ?raw)"
  show thesis
  proof (cases "?lin \<in> ev_lineage_hash ` set (du_rows g)")
    case True
    then show thesis by (intro refused) (simp add: durable_append_def store_append_def Let_def)
  next
    case False
    define r where "r = \<lparr>ev_event_type = event_type_of ev, ev_observed_at = ?stamp,
      ev_payload_json = ?raw, ev_previous_hash = last_lineage (du_rows g), ev_lineage_hash = ?lin\<rparr>"
    define s where "s = du_store g\<lparr>es_events := du_rows g @ [r]\<rparr>"
    have run: "store_append (rn_sha env) (event_type_of ev) ?stamp ?raw (du_store g) = (Inr ?lin, s)"
      using False by (simp add: store_append_def Let_def s_def r_def)
    have new: "id_of_lineage (du_rows g @ [r]) ?lin = Some (int (length (du_rows g)) + 1)"
      using id_of_new_lineage [of r "du_rows g"] False by (simp add: r_def)
    show thesis
    proof (rule appended [of s r])
      show "es_events s = du_rows g @ [r]" by (simp add: s_def)
      show "engine_row r" by (simp add: engine_row_def r_def)
      show "store_verify (rn_sha env) (du_store g) \<Longrightarrow> store_verify (rn_sha env) s"
        using store_append_ok [of "rn_sha env" "du_store g" "event_type_of ev" ?stamp ?raw] run by simp
      show "durable_append env ev g = (None, g\<lparr>du_store := s,
         du_last_engine_event_id := int (length (du_rows g)) + 1\<rparr>)"
        using new by (simp add: durable_append_def run) (simp add: s_def)
    qed
  qed
qed

subsection \<open>What the portfolio leaves alone\<close>

text \<open>Applying an intent never changes the initial capital, and after a restore it never gives the
  facade a position that it did not have.\<close>

definition same_mints :: "facade \<Rightarrow> facade \<Rightarrow> bool" where
  "same_mints fa fa' \<longleftrightarrow>
     (\<forall>m. (dict_get (fa_positions fa') m = None) = (dict_get (fa_positions fa) m = None))"

definition portfolio_frame :: "facade \<times> paper_runtime \<Rightarrow> facade \<times> paper_runtime \<Rightarrow> bool" where
  "portfolio_frame x y \<longleftrightarrow> same_mints (fst x) (fst y)
     \<and> ld_initial_capital_usd (rt_ledger (snd y)) = ld_initial_capital_usd (rt_ledger (snd x))"

lemma same_mints_refl [simp]: "same_mints fa fa"
  by (simp add: same_mints_def)

lemma same_mints_set: "dict_get (fa_positions fa) m = Some p \<Longrightarrow> same_mints fa (fa\<lparr>fa_positions := dict_set m q (fa_positions fa)\<rparr>)"
  by (simp add: same_mints_def od.get_put)

lemma same_mints_exit:
  "dict_get (fa_positions fa) m = Some p \<Longrightarrow> same_mints fa \<lparr>fa_positions = dict_set m q (fa_positions fa), fa_closed = cs\<rparr>"
  by (simp add: same_mints_def od.get_put)

lemma portfolio_frame_refl [simp]: "portfolio_frame x x"
  by (simp add: portfolio_frame_def)

lemma portfolio_frame_entry [simp]: "portfolio_frame (fa, rt\<lparr>rt_entry := e\<rparr>) y = portfolio_frame (fa, rt) y"
  "portfolio_frame y (fa, rt\<lparr>rt_entry := e\<rparr>) = portfolio_frame y (fa, rt)"
  by (simp_all add: portfolio_frame_def)

lemma facade_register_initial [simp]:
  "ld_initial_capital_usd (facade_register fa i w f c l) = ld_initial_capital_usd l"
  by (simp add: facade_register_def register_position_def split: option.splits)

lemma book_entry_initial [simp]:
  "ld_initial_capital_usd (book_entry m cost fill mark l) = ld_initial_capital_usd l"
  by (simp add: book_entry_def split: option.splits)

lemma facade_book_frame:
  "facade_book m cost fill mark (fa, l) = (fa', l') \<Longrightarrow>
     same_mints fa fa' \<and> ld_initial_capital_usd l' = ld_initial_capital_usd l"
  by (auto simp: facade_book_def same_mints_set split: option.splits)

lemma with_ledger_initial [simp]:
  "ld_initial_capital_usd (rt_ledger (with_ledger f rt)) = ld_initial_capital_usd (f (rt_ledger rt))"
  by (simp add: with_ledger_def)

lemma facade_enter_frame: "portfolio_frame (fa, rt) (facade_enter fa rt i w f c cost fill mark)"
  by (auto simp: facade_enter_def portfolio_frame_def Let_def split: prod.splits dest!: facade_book_frame)

lemma facade_exact_frame:
  "facade_exact_entry fa rt i w x f c = (res, y) \<Longrightarrow> portfolio_frame (fa, rt) y"
  using facade_enter_frame [of fa "rt\<lparr>rt_entry := None\<rparr>" i w f c]
  by (auto simp: facade_exact_entry_def Let_def split: option.splits if_splits sum.splits)

lemma facade_opening_frame:
  assumes "facade_opening fa rt i w x f c = (e, fa', rt')"
  shows "portfolio_frame (fa, rt) (fa', rt')"
proof -
  obtain res fa1 rt1 where ex: "facade_exact_entry fa rt i w x f c = (res, fa1, rt1)"
    by (metis prod_cases3)
  from facade_exact_frame [OF ex] assms ex show ?thesis
    by (auto simp: facade_opening_def Let_def portfolio_frame_def same_mints_def
        split: sum.splits bool.splits if_splits prod.splits dest!: facade_book_frame)
qed

lemma facade_apply_frame:
  assumes "facade_apply fa rt i w x f c = (e, fa', rt')"
  shows "portfolio_frame (fa, rt) (fa', rt')"
proof (cases "is_opening (ti_kind i)")
  case True
  with assms facade_opening_frame show ?thesis by (simp add: facade_apply_def)
next
  case False
  with assms show ?thesis
    by (auto simp: facade_apply_def facade_harvest_def facade_exit_def Let_def portfolio_frame_def
        same_mints_set same_mints_exit split: option.splits if_splits prod.splits)
qed

lemma engine_apply_initial:
  "ld_initial_capital_usd (rt_ledger (snd (engine_apply rt i w x))) = ld_initial_capital_usd (rt_ledger rt)"
  unfolding engine_apply_def
  by (cases rule: apply_cases [of rt i w x "''legacy_runtime''" "''unclassified''"])
    (simp_all add: apply_harvest_def apply_exit_def split_beta Let_def)

subsection \<open>The invariant of the durable engine\<close>

definition fresh_state :: "strategy_config \<Rightarrow> paper_state" where
  "fresh_state cf = \<lparr>ps_strategy_version = cf_version cf,
     ps_initial_capital_usd = cf_initial_capital_usd cf, ps_cash_usd = cf_initial_capital_usd cf,
     ps_marks = [], ps_trade_start_nav = [], ps_candidates = [], ps_positions = [], ps_closed = []\<rparr>"

text \<open>The durable record: the checkpointed state, or the genesis, and the event id it covers.\<close>

definition covered_id :: "durable \<Rightarrow> int" where
  "covered_id g = (case du_checkpoint g of None \<Rightarrow> 0 | Some row \<Rightarrow> ck_last_engine_event_id row)"

definition saved_as :: "renderer \<Rightarrow> strategy_config \<Rightarrow> durable \<Rightarrow> paper_state \<Rightarrow> bool" where
  "saved_as env cf g s \<longleftrightarrow>
     (case du_checkpoint g of
        None \<Rightarrow> s = fresh_state cf
      | Some row \<Rightarrow> ck_state_json row = state_document s
          \<and> ck_state_sha256 row = rn_sha env (rn_document env (state_document s)))
   \<and> ps_strategy_version s = cf_version cf \<and> ps_initial_capital_usd s = cf_initial_capital_usd cf"

text \<open>A paper state and a running engine hold the same books.\<close>

definition same_books :: "paper_state \<Rightarrow> durable \<Rightarrow> bool" where
  "same_books s g \<longleftrightarrow> ps_cash_usd s = ld_cash_usd (du_ledger g)
     \<and> dict_get (ps_candidates s) = st_candidates (du_strategy g)
     \<and> dict_get (ps_positions s) = dict_get (positions_view g)
     \<and> ps_closed s = closed_view g"

definition process_ok :: "strategy_config \<Rightarrow> durable \<Rightarrow> bool" where
  "process_ok cf g \<longleftrightarrow> strategy_ok cf (du_strategy g) \<and> finite (dom (st_candidates (du_strategy g)))
     \<and> ld_initial_capital_usd (du_ledger g) = cf_initial_capital_usd cf"

definition files_ok :: "renderer \<Rightarrow> strategy_config \<Rightarrow> durable \<Rightarrow> bool" where
  "files_ok env cf g \<longleftrightarrow> store_verify (rn_sha env) (du_store g)
     \<and> du_last_engine_event_id g = or_default (latest_engine_id (du_rows g)) 0
     \<and> covered_id g \<le> du_last_engine_event_id g
     \<and> checkpoint_event_marker_valid (du_rows g) (covered_id g)
     \<and> (\<exists>s. saved_as env cf g s)"

definition durable_ok :: "renderer \<Rightarrow> strategy_config \<Rightarrow> durable \<Rightarrow> bool" where
  "durable_ok env cf g \<longleftrightarrow> process_ok cf g \<and> files_ok env cf g
     \<and> (covered_id g < du_last_engine_event_id g \<or> (\<exists>s. saved_as env cf g s \<and> same_books s g))"

text \<open>After its first append a call is ahead of its checkpoint.\<close>

definition ahead :: "renderer \<Rightarrow> strategy_config \<Rightarrow> durable \<Rightarrow> bool" where
  "ahead env cf g \<longleftrightarrow> process_ok cf g \<and> files_ok env cf g \<and> covered_id g < du_last_engine_event_id g"

lemma ahead_durable_ok: "ahead env cf g \<Longrightarrow> durable_ok env cf g"
  by (simp add: ahead_def durable_ok_def)

lemma ahead_cong:
  assumes "ahead env cf g" and "process_ok cf g'"
    and "du_store g' = du_store g" "du_checkpoint g' = du_checkpoint g"
      "du_last_engine_event_id g' = du_last_engine_event_id g"
  shows "ahead env cf g'"
  using assms by (simp add: ahead_def files_ok_def covered_id_def saved_as_def)

lemma append_files:
  assumes "files_ok env cf g" and "es_events s = du_rows g @ [r]" "engine_row r"
    and "store_verify (rn_sha env) (du_store g) \<Longrightarrow> store_verify (rn_sha env) s"
    and g': "g' = g\<lparr>du_store := s, du_last_engine_event_id := int (length (du_rows g)) + 1\<rparr>"
  shows "files_ok env cf g' \<and> covered_id g' < du_last_engine_event_id g'"
proof -
  have "du_last_engine_event_id g \<le> int (length (du_rows g))"
    using assms(1) latest_engine_id_bounds [of "du_rows g"]
    by (cases "latest_engine_id (du_rows g)") (auto simp: files_ok_def)
  then show ?thesis using assms marker_snoc [of "du_rows g"]
    by (auto simp: files_ok_def covered_id_def saved_as_def)
qed

lemma first_append:
  assumes "files_ok env cf g" and "process_ok cf g" and "durable_append env ev g = (x, g')"
  shows "(x = Some (IntegrityError ''UNIQUE(lineage_hash)'') \<and> g' = g)
    \<or> (x = None \<and> ahead env cf g' \<and> du_strategy g' = du_strategy g \<and> du_facade g' = du_facade g
        \<and> du_runtime g' = du_runtime g \<and> du_marks g' = du_marks g \<and> du_checkpoint g' = du_checkpoint g)"
proof (cases rule: durable_append_cases [of env ev g])
  case refused
  with assms show ?thesis by simp
next
  case (appended s r)
  then have g': "g' = g\<lparr>du_store := s, du_last_engine_event_id := int (length (du_rows g)) + 1\<rparr>"
    and x: "x = None" using assms(3) by simp_all
  have "process_ok cf g'" using assms(2) by (simp add: g' process_ok_def)
  with append_files [OF assms(1) appended(1-3) g'] x show ?thesis
    by (simp add: ahead_def) (simp add: g')
qed

lemma ahead_append: "ahead env cf g \<Longrightarrow> durable_append env ev g = (x, g') \<Longrightarrow> ahead env cf g'"
  using first_append [of env cf g ev x g'] by (auto simp: ahead_def)

lemma durable_apply_frame:
  assumes "durable_apply g i w x = (e, g')"
  shows "du_strategy g' = du_strategy g \<and> du_store g' = du_store g \<and> du_checkpoint g' = du_checkpoint g
    \<and> du_last_engine_event_id g' = du_last_engine_event_id g \<and> du_marks g' = du_marks g
    \<and> ld_initial_capital_usd (du_ledger g') = ld_initial_capital_usd (du_ledger g)
    \<and> (case du_facade g of None \<Rightarrow> du_facade g' = None
       | Some fa \<Rightarrow> \<exists>fa'. du_facade g' = Some fa' \<and> same_mints fa fa')"
proof (cases "du_facade g")
  case None
  with assms engine_apply_initial [of "du_runtime g" i w x] show ?thesis
    by (auto simp: durable_apply_def split: prod.splits)
next
  case (Some fa)
  obtain e' fa' rt where run: "facade_apply fa (du_runtime g) i w x ''legacy_runtime'' ''unclassified'' = (e', fa', rt)"
    by (metis prod_cases3)
  with facade_apply_frame [OF run] Some assms show ?thesis
    by (auto simp: durable_apply_def portfolio_frame_def)
qed

lemma ahead_apply: "ahead env cf g \<Longrightarrow> durable_apply g i w x = (e, g') \<Longrightarrow> ahead env cf g'"
  using durable_apply_frame [of g i w x e g']
  by (intro ahead_cong [of env cf g g']) (simp_all add: ahead_def process_ok_def)

lemma ahead_intents: "ahead env cf g \<Longrightarrow> ahead env cf (snd (durable_intents env g w x is))"
proof (induction env g w x "is" rule: durable_intents.induct)
  case (2 env g w x i "is")
  obtain e1 g1 where run1: "durable_apply g i w x = (e1, g1)" by fastforce
  have a1: "ahead env cf g1" using ahead_apply [OF "2.prems" run1] .
  show ?case
  proof (cases e1)
    case None
    obtain e2 g2 where run2: "durable_append env (LogTradeIntent i x) g1 = (e2, g2)" by fastforce
    have a2: "ahead env cf g2" using ahead_append [OF a1 run2] .
    with "2.IH" [OF run1 [symmetric] None run2 [symmetric]] run1 run2 None show ?thesis
      by (cases e2) simp_all
  qed (use run1 a1 in simp)
qed simp

lemma ahead_outcomes: "ahead env cf g \<Longrightarrow> ahead env cf (snd (durable_outcomes env outs g))"
proof (induction env outs g rule: durable_outcomes.induct)
  case (2 env out outs g)
  obtain e1 g1 where run1: "durable_append env (LogTradeOutcome out) g = (e1, g1)" by fastforce
  have "ahead env cf g1" using ahead_append [OF "2.prems" run1] .
  with "2.IH" [OF run1 [symmetric]] run1 show ?case by (cases e1) simp_all
qed simp

lemma refines_finite:
  "refines_phase cf m s s' out \<Longrightarrow> finite (dom (st_candidates s)) \<Longrightarrow> finite (dom (st_candidates s'))"
proof (rule finite_subset [of _ "insert m (dom (st_candidates s))"])
  assume "refines_phase cf m s s' out"
  then have other: "k \<noteq> m \<Longrightarrow> st_candidates s' k = st_candidates s k" for k
    unfolding refines_phase_def by blast
  show "dom (st_candidates s') \<subseteq> insert m (dom (st_candidates s))"
  proof
    fix k assume "k \<in> dom (st_candidates s')"
    with other [of k] show "k \<in> insert m (dom (st_candidates s))" by (cases "k = m") (simp_all add: domIff)
  qed
qed simp

lemma ahead_strategy:
  assumes "ahead env cf g" and "strategy_ok cf s'" and "refines_phase cf m (du_strategy g) s' out"
  shows "ahead env cf (g\<lparr>du_strategy := s'\<rparr>)"
  using assms refines_finite [OF assms(3)]
  by (intro ahead_cong [OF assms(1)]) (simp_all add: ahead_def process_ok_def)

lemma raise_high_water_initial [simp]:
  "ld_initial_capital_usd (raise_high_water m x l) = ld_initial_capital_usd l"
  by (simp add: raise_high_water_def split: option.splits)

lemma durable_high_water_frame [simp]:
  "du_strategy (durable_high_water m x g) = du_strategy g"
  "du_store (durable_high_water m x g) = du_store g"
  "du_checkpoint (durable_high_water m x g) = du_checkpoint g"
  "du_marks (durable_high_water m x g) = du_marks g"
  "du_last_engine_event_id (durable_high_water m x g) = du_last_engine_event_id g"
  "ld_initial_capital_usd (du_ledger (durable_high_water m x g)) = ld_initial_capital_usd (du_ledger g)"
  by (simp_all add: durable_high_water_def split: option.splits)

lemma ahead_high_water: "ahead env cf g \<Longrightarrow> ahead env cf (durable_high_water m x g)"
  by (rule ahead_cong [of env cf g]) (simp_all add: ahead_def process_ok_def)

lemma set_mark_frame [simp]:
  "du_strategy (set_mark m x g) = du_strategy g" "du_store (set_mark m x g) = du_store g"
  "du_checkpoint (set_mark m x g) = du_checkpoint g" "du_runtime (set_mark m x g) = du_runtime g"
  "du_facade (set_mark m x g) = du_facade g"
  "du_last_engine_event_id (set_mark m x g) = du_last_engine_event_id g"
  by (simp_all add: set_mark_def)

lemma views_cong:
  assumes "rt_portfolio (du_runtime g') = rt_portfolio (du_runtime g)" and "du_facade g' = du_facade g"
  shows "positions_view g' = positions_view g" and "closed_view g' = closed_view g"
  using assms by (simp_all add: positions_view_def closed_view_def split: option.splits)

lemma same_books_cong:
  assumes "rt_portfolio (du_runtime g') = rt_portfolio (du_runtime g)" and "du_facade g' = du_facade g"
    and "du_strategy g' = du_strategy g"
  shows "same_books s g' = same_books s g"
  using assms(1,3) views_cong [OF assms(1,2)] by (simp add: same_books_def)

lemma durable_ok_cong:
  assumes "rt_portfolio (du_runtime g') = rt_portfolio (du_runtime g)" and "du_facade g' = du_facade g"
    and "du_strategy g' = du_strategy g" and "du_store g' = du_store g"
    and "du_checkpoint g' = du_checkpoint g"
    and "du_last_engine_event_id g' = du_last_engine_event_id g"
  shows "durable_ok env cf g' = durable_ok env cf g"
proof -
  have "covered_id g' = covered_id g" "\<And>s. saved_as env cf g' s = saved_as env cf g s"
    using assms(5) by (simp_all add: covered_id_def saved_as_def)
  with assms(1,3,4,6) same_books_cong [OF assms(1-3)] show ?thesis
    by (simp add: durable_ok_def process_ok_def files_ok_def)
qed

lemma ok_set_mark [simp]:
  "process_ok cf (set_mark m x g) = process_ok cf g"
  "files_ok env cf (set_mark m x g) = files_ok env cf g"
  by (simp_all add: process_ok_def files_ok_def covered_id_def saved_as_def)

lemma durable_ok_set_mark [simp]: "durable_ok env cf (set_mark m x g) = durable_ok env cf g"
  by (rule durable_ok_cong) simp_all

text \<open>Every handler leaves its engine ahead of the checkpoint, unless its first append was refused;
  then only a mark has changed.\<close>

definition handled :: "renderer \<Rightarrow> strategy_config \<Rightarrow> durable \<Rightarrow> py_error option \<times> durable \<Rightarrow> bool" where
  "handled env cf g y \<longleftrightarrow> ahead env cf (snd y) \<or> (fst y \<noteq> None \<and> (\<exists>m x. snd y = set_mark m x g))"

lemma first_touch_handled:
  assumes "durable_ok env cf g"
  shows "handled env cf g (durable_first_touch env g w r x)"
proof -
  define price where "price = or_default x (wt_reference_price w)"
  obtain e g1 where run: "durable_append env (LogFirstTouch w r (cf_version (st_config (du_strategy g))))
      (set_mark (wt_token_mint w) price g) = (e, g1)" by fastforce
  have first: "(e = Some (IntegrityError ''UNIQUE(lineage_hash)'') \<and> g1 = set_mark (wt_token_mint w) price g)
      \<or> (e = None \<and> ahead env cf g1)"
    using first_append [OF _ _ run, of cf] assms by (auto simp: durable_ok_def)
  note unfold = durable_first_touch_def Let_def price_def [symmetric] run
  show ?thesis
  proof (cases e)
    case None
    with first have a1: "ahead env cf g1" by simp
    then have st: "strategy_ok cf (du_strategy g1)" by (simp add: ahead_def process_ok_def)
    obtain s' out where step: "first_touch (du_strategy g1) w r = (s', out)" by fastforce
    have "strategy_ok cf s'" and "refines_phase cf (wt_token_mint w) (du_strategy g1) s' out"
      using first_touch_ok [OF st, of w r] first_touch_refines [of "du_strategy g1" w r] step st
      by (simp_all add: strategy_ok_def)
    from ahead_intents [OF ahead_strategy [OF a1 this]] None step show ?thesis
      by (simp add: handled_def unfold)
  next
    case (Some err)
    with first show ?thesis by (auto simp: handled_def unfold)
  qed
qed

lemma confirmation_handled:
  assumes "durable_ok env cf g"
  shows "handled env cf g (durable_confirmation env g n r x)"
proof -
  define price where "price = or_default x (cn_reference_price n)"
  obtain e g1 where run: "durable_append env (LogConfirmation n r) (set_mark (cn_token_mint n) price g) = (e, g1)"
    by fastforce
  have first: "(e = Some (IntegrityError ''UNIQUE(lineage_hash)'') \<and> g1 = set_mark (cn_token_mint n) price g)
      \<or> (e = None \<and> ahead env cf g1)"
    using first_append [OF _ _ run, of cf] assms by (auto simp: durable_ok_def)
  note unfold = durable_confirmation_def Let_def price_def [symmetric] run
  show ?thesis
  proof (cases e)
    case None
    with first have a1: "ahead env cf g1" by simp
    then have st: "strategy_ok cf (du_strategy g1)" by (simp add: ahead_def process_ok_def)
    show ?thesis
    proof (cases "confirm (du_strategy g1) n r")
      case (Inl err)
      with a1 None show ?thesis by (simp add: handled_def unfold)
    next
      case (Inr res)
      obtain s' out where step: "confirm (du_strategy g1) n r = Inr (s', out)"
        using Inr by (cases res) simp
      from ahead_intents [OF ahead_strategy [OF a1 confirm_ok [OF st step] confirm_refines [OF st step]]]
        None step show ?thesis by (simp add: handled_def unfold)
    qed
  next
    case (Some err)
    with first show ?thesis by (auto simp: handled_def unfold)
  qed
qed

lemma price_handled:
  assumes "durable_ok env cf g"
  shows "handled env cf g (durable_price env g m t x)"
proof -
  obtain e g1 where run: "durable_append env (LogPrice m t x) (set_mark m x g) = (e, g1)" by fastforce
  have first: "(e = Some (IntegrityError ''UNIQUE(lineage_hash)'') \<and> g1 = set_mark m x g)
      \<or> (e = None \<and> ahead env cf g1)"
    using first_append [OF _ _ run, of cf] assms by (auto simp: durable_ok_def)
  define g2 where "g2 = durable_high_water m x g1"
  define scout where "scout = (case st_candidates (du_strategy g1) m of
                         Some c \<Rightarrow> ca_scout_wallet c | None \<Rightarrow> ''unknown'')"
  show ?thesis
  proof (cases e)
    case None
    with first have a2: "ahead env cf g2" by (simp add: g2_def ahead_high_water)
    then have st: "strategy_ok cf (du_strategy g2)" by (simp add: ahead_def process_ok_def)
    have body: "durable_price env g m t x = (case on_clock (du_strategy g2) m t (Some x) of
        Inl e \<Rightarrow> (Some e, g2)
      | Inr (s', out) \<Rightarrow> (case durable_intents env (g2\<lparr>du_strategy := s'\<rparr>) scout x out of
           (Some e, g3) \<Rightarrow> (Some e, g3)
         | (None, g3) \<Rightarrow> durable_outcomes env (drop (length (closed_view g2)) (closed_view g3)) g3))"
      by (simp only: durable_price_def Let_def run None split_conv option.case g2_def scout_def)
    show ?thesis
    proof (cases "on_clock (du_strategy g2) m t (Some x)")
      case (Inl err)
      with a2 body show ?thesis by (simp add: handled_def)
    next
      case (Inr res)
      obtain s' out where step: "on_clock (du_strategy g2) m t (Some x) = Inr (s', out)"
        using Inr by (cases res) simp
      have ref: "refines_phase cf m (du_strategy g2) s' out"
        using on_clock_refines [OF step] st by (simp add: strategy_ok_def)
      obtain e3 g3 where intents: "durable_intents env (g2\<lparr>du_strategy := s'\<rparr>) scout x out = (e3, g3)"
        by fastforce
      have "ahead env cf g3"
        using ahead_intents [OF ahead_strategy [OF a2 on_clock_ok [OF st step] ref], of scout x out] intents
        by simp
      with ahead_outcomes [OF this, of "drop (length (closed_view g2)) (closed_view g3)"] step intents
      show ?thesis by (cases e3) (simp_all add: handled_def body)
    qed
  next
    case (Some err)
    with first show ?thesis by (auto simp: handled_def durable_price_def run)
  qed
qed

lemma handler_handled:
  "durable_ok env cf g \<Longrightarrow> checkpointed e \<Longrightarrow> handled env cf g (durable_handler env g e)"
  by (cases e) (simp_all add: first_touch_handled confirmation_handled price_handled)

subsection \<open>Checkpoint and restart\<close>

lemma dict_get_listed:
  assumes "finite (dom m)"
  shows "dict_get (listed m) = m"
proof
  fix k
  have "map_of (map (\<lambda>k. (k, the (m k))) ks) k = (if k \<in> set ks then Some (the (m k)) else None)" for ks
    by (induction ks) auto
  then show "dict_get (listed m) k = m k"
    using assms by (auto simp: dict_get_def listed_def domIff)
qed

lemma save_checkpoint_frame [simp]:
  "du_strategy (save_checkpoint env now g) = du_strategy g"
  "du_runtime (save_checkpoint env now g) = du_runtime g"
  "du_facade (save_checkpoint env now g) = du_facade g"
  "du_store (save_checkpoint env now g) = du_store g"
  "du_marks (save_checkpoint env now g) = du_marks g"
  "du_trade_start_nav (save_checkpoint env now g) = du_trade_start_nav g"
  "du_last_engine_event_id (save_checkpoint env now g) = du_last_engine_event_id g"
  "covered_id (save_checkpoint env now g) = du_last_engine_event_id g"
  by (simp_all add: save_checkpoint_def Let_def covered_id_def)

lemma saved_state_of: "process_ok cf g \<Longrightarrow> saved_as env cf (save_checkpoint env now g) (state_of g)"
  by (simp add: saved_as_def save_checkpoint_def Let_def state_of_def process_ok_def strategy_ok_def)

lemma same_books_state_of: "process_ok cf g \<Longrightarrow> same_books (state_of g) g"
  by (simp add: same_books_def state_of_def process_ok_def dict_get_listed)

lemma last_id_marker:
  "files_ok env cf g \<Longrightarrow> checkpoint_event_marker_valid (du_rows g) (du_last_engine_event_id g)"
  by (cases "latest_engine_id (du_rows g)") (auto simp: files_ok_def marker_iff dest: latest_is_engine_row)

lemma save_ok:
  assumes "process_ok cf g" and "files_ok env cf g"
  shows "durable_ok env cf (save_checkpoint env now g)"
proof -
  have "files_ok env cf (save_checkpoint env now g)"
    using assms(2) last_id_marker [OF assms(2)] saved_state_of [OF assms(1), of env now]
    by (auto simp: files_ok_def)
  moreover have "same_books (state_of g) (save_checkpoint env now g)"
    using same_books_state_of [OF assms(1)] by (subst same_books_cong [of _ g]) simp_all
  ultimately show ?thesis
    using assms(1) saved_state_of [OF assms(1), of env now] by (auto simp: durable_ok_def process_ok_def)
qed

lemma evidence_ok:
  "durable_ok env cf g \<Longrightarrow> durable_ok env cf (g\<lparr>du_runtime := (du_runtime g)\<lparr>rt_entry := ev\<rparr>\<rparr>)"
  by (subst durable_ok_cong [of _ g]) simp_all

lemma call_ok:
  assumes "durable_ok env cf g"
  shows "durable_ok env cf (snd (durable_call env now g e))"
proof (cases "checkpointed e")
  case False
  then obtain ev where "e = EEvidence ev" by (cases e) auto
  with evidence_ok [OF assms] show ?thesis by (simp add: durable_call_def)
next
  case True
  obtain x g' where run: "durable_handler env g e = (x, g')" by fastforce
  from handler_handled [OF assms True] run
  have h: "ahead env cf g' \<or> (x \<noteq> None \<and> (\<exists>m y. g' = set_mark m y g))" by (simp add: handled_def)
  show ?thesis
  proof (cases x)
    case None
    with h have "ahead env cf g'" by simp
    then have "durable_ok env cf (save_checkpoint env now g')" by (intro save_ok) (simp_all add: ahead_def)
    with run None True show ?thesis by (simp add: durable_call_def)
  next
    case (Some err)
    with h assms run show ?thesis by (auto simp: durable_call_def ahead_durable_ok)
  qed
qed

text \<open>The restart of a well-formed process succeeds exactly when the checkpoint covers the log.\<close>

definition rebuilt :: "strategy_config \<Rightarrow> portfolio \<Rightarrow> durable \<Rightarrow> paper_state \<Rightarrow> int \<Rightarrow> durable" where
  "rebuilt cf pf g s i =
     \<lparr>du_strategy = \<lparr>st_config = cf, st_candidates = dict_get (ps_candidates s)\<rparr>,
      du_runtime = with_ledger (\<lambda>l. l\<lparr>ld_cash_usd := ps_cash_usd s\<rparr>) (fresh_runtime pf),
      du_facade = Some \<lparr>fa_positions = ps_positions s, fa_closed = ps_closed s\<rparr>,
      du_marks = ps_marks s, du_trade_start_nav = ps_trade_start_nav s, du_store = du_store g,
      du_checkpoint = du_checkpoint g, du_last_engine_event_id = i\<rparr>"

definition genesis :: "strategy_config \<Rightarrow> portfolio \<Rightarrow> durable \<Rightarrow> durable" where
  "genesis cf pf g = \<lparr>du_strategy = new_strategy cf, du_runtime = fresh_runtime pf, du_facade = None,
     du_marks = [], du_trade_start_nav = [], du_store = du_store g, du_checkpoint = None,
     du_last_engine_event_id = 0\<rparr>"

lemma reopen_cases:
  assumes files: "files_ok env cf g" and pf: "new_portfolio cf = Inr pf" and saved: "saved_as env cf g s"
  shows "reopen env cf g = (if covered_id g < du_last_engine_event_id g then
       Inl (RuntimeError (if du_checkpoint g = None
         then ''paper engine restore blocked: engine history exists without a durable checkpoint''
         else ''paper engine restore blocked: checkpoint does not cover latest engine event''))
     else Inr (if du_checkpoint g = None then genesis cf pf g
         else rebuilt cf pf g (sorted_state s) (covered_id g)))"
proof -
  let ?latest = "latest_engine_id (du_rows g)"
  have ver: "verify_engine_snapshot (rn_sha env) (du_rows g) = (True, int (length (du_rows g)), ?latest)"
    using files by (simp add: verify_engine_snapshot_spec files_ok_def store_verify_def)
  have le: "covered_id g \<le> int (length (du_rows g))"
    using files latest_engine_id_bounds [of "du_rows g"]
    by (cases ?latest) (auto simp: files_ok_def)
  show ?thesis
  proof (cases "du_checkpoint g")
    case None
    have "?latest \<noteq> None \<longleftrightarrow> covered_id g < du_last_engine_event_id g"
      using files None latest_engine_id_bounds [of "du_rows g"]
      by (cases ?latest) (auto simp: files_ok_def covered_id_def)
    with None ver pf show ?thesis
      by (auto simp: reopen_def restart_def restore_or_fail_closed_def genesis_def)
  next
    case (Some row)
    have id: "covered_id g = ck_last_engine_event_id row" using Some by (simp add: covered_id_def)
    have "0 \<le> covered_id g" using files
      by (auto simp: files_ok_def marker_iff dest: numbered_bounds)
    then have stale: "(case ?latest of None \<Rightarrow> False | Some i \<Rightarrow> i > ck_last_engine_event_id row)
        = (covered_id g < du_last_engine_event_id g)"
      using files id by (cases ?latest) (auto simp: files_ok_def)
    have doc: "ck_state_json row = state_document s" "ck_state_sha256 row = rn_sha env (rn_document env (state_document s))"
      "document_state cf (state_document s) = Inr (sorted_state s)"
      using saved Some checkpoint_reads_back [of s cf] by (auto simp: saved_as_def)
    have "checkpoint_event_marker_valid (du_rows g) (ck_last_engine_event_id row)"
      using files id by (simp add: files_ok_def)
    with Some ver pf stale doc le id show ?thesis
      by (simp add: reopen_def restart_def restore_or_fail_closed_def rebuilt_def)
  qed
qed

lemma reopen_Inr_portfolio: "reopen env cf g = Inr h \<Longrightarrow> \<exists>pf. new_portfolio cf = Inr pf"
  by (auto simp: reopen_def restart_def bind_result_Inr_iff)

definition books_equal :: "durable \<Rightarrow> durable \<Rightarrow> bool" where
  "books_equal g h \<longleftrightarrow> ld_cash_usd (du_ledger h) = ld_cash_usd (du_ledger g)
     \<and> st_candidates (du_strategy h) = st_candidates (du_strategy g)
     \<and> dict_get (positions_view h) = dict_get (positions_view g)
     \<and> closed_view h = closed_view g
     \<and> du_last_engine_event_id h = du_last_engine_event_id g"

lemma new_portfolio_ledger:
  assumes "new_portfolio cf = Inr pf"
  shows "ld_initial_capital_usd (pf_ledger pf) = cf_initial_capital_usd cf"
    and "ld_cash_usd (pf_ledger pf) = cf_initial_capital_usd cf"
    and "ld_positions (pf_ledger pf) = []" and "ld_closed (pf_ledger pf) = []" and "pf_config pf = cf"
  using assms by (auto simp: new_portfolio_Inr)

lemma genesis_books:
  assumes "new_portfolio cf = Inr pf"
  shows "same_books (fresh_state cf) (genesis cf pf g)" and "process_ok cf (genesis cf pf g)"
  using new_portfolio_ledger [OF assms]
  by (auto simp: same_books_def fresh_state_def genesis_def fresh_runtime_def new_strategy_def
      positions_view_def closed_view_def process_ok_def strategy_ok_def)

lemma rebuilt_books: "same_books s (rebuilt cf pf g (sorted_state s) i)"
  by (auto simp: same_books_def rebuilt_def positions_view_def closed_view_def with_ledger_def)

lemma same_books_equal:
  assumes "same_books s g" and "same_books s h" and "du_last_engine_event_id h = du_last_engine_event_id g"
  shows "books_equal g h"
  using assms by (simp add: same_books_def books_equal_def)

lemma reopen_books:
  assumes ok: "durable_ok env cf g" and run: "reopen env cf g = Inr h"
  shows "books_equal g h \<and> durable_ok env cf h \<and> du_store h = du_store g
    \<and> du_checkpoint h = du_checkpoint g"
proof -
  obtain pf where pf: "new_portfolio cf = Inr pf" using reopen_Inr_portfolio [OF run] by blast
  have files: "files_ok env cf g" and proc: "process_ok cf g" using ok by (auto simp: durable_ok_def)
  obtain s0 where "saved_as env cf g s0" using files by (auto simp: files_ok_def)
  from reopen_cases [OF files pf this] run have fresh: "\<not> covered_id g < du_last_engine_event_id g"
    by (auto split: if_splits)
  then have same_id: "du_last_engine_event_id g = covered_id g" using files by (simp add: files_ok_def)
  obtain s where s: "saved_as env cf g s" "same_books s g" using ok fresh by (auto simp: durable_ok_def)
  have h: "h = (if du_checkpoint g = None then genesis cf pf g
      else rebuilt cf pf g (sorted_state s) (covered_id g))"
    using reopen_cases [OF files pf s(1)] run fresh by simp
  have sh: "same_books s h"
    using s(1) genesis_books(1) [OF pf, of g] rebuilt_books [of s cf pf g "covered_id g"]
    by (auto simp: h saved_as_def)
  have frame: "du_store h = du_store g" "du_checkpoint h = du_checkpoint g"
      "du_last_engine_event_id h = du_last_engine_event_id g"
    using same_id by (auto simp: h genesis_def rebuilt_def covered_id_def)
  have "st_config (du_strategy h) = cf" "ld_initial_capital_usd (du_ledger h) = cf_initial_capital_usd cf"
    using new_portfolio_ledger [OF pf]
    by (auto simp: h genesis_def rebuilt_def new_strategy_def fresh_runtime_def with_ledger_def)
  moreover have "st_candidates (du_strategy h) = st_candidates (du_strategy g)"
    using s(2) sh by (simp add: same_books_def)
  ultimately have "process_ok cf h" using proc by (simp add: process_ok_def strategy_ok_def)
  moreover have "covered_id h = covered_id g" "\<And>s. saved_as env cf h s = saved_as env cf g s"
    using frame by (simp_all add: covered_id_def saved_as_def)
  ultimately have "durable_ok env cf h" using files frame s(1) sh by (auto simp: durable_ok_def files_ok_def)
  with frame same_books_equal [OF s(2) sh] show ?thesis by simp
qed

interpretation durable_machine: invariant_machine "durable_step env cf" "\<lambda>_. True" "durable_ok env cf" for env cf
proof
  fix g e assume ok: "durable_ok env cf g"
  show "durable_ok env cf (fst (durable_step env cf g e))"
  proof (cases e)
    case (DCall now x)
    with call_ok [OF ok, of now x] show ?thesis
      by (auto simp: durable_step_def split: prod.splits option.splits)
  next
    case DReopen
    with ok reopen_books [OF ok] show ?thesis by (auto simp: durable_step_def split: sum.splits)
  qed
qed

text \<open>A first start on a log without engine events.\<close>

definition first_start :: "renderer \<Rightarrow> strategy_config \<Rightarrow> event_store \<Rightarrow> durable result" where
  "first_start env cf store = restart env cf (es_events store) store None"

lemma first_start_ok:
  assumes "first_start env cf store = Inr g"
  shows "durable_ok env cf g"
proof -
  obtain pf where pf: "new_portfolio cf = Inr pf"
    using assms by (auto simp: first_start_def restart_def bind_result_Inr_iff)
  have "verify_rows (rn_sha env) None (es_events store)" and none: "latest_engine_id (es_events store) = None"
    and g: "g = genesis cf pf (g\<lparr>du_store := store\<rparr>)"
    using assms pf
    by (auto simp: first_start_def restart_def restore_or_fail_closed_def verify_engine_snapshot_spec
        genesis_def split: if_splits)
  then have "files_ok env cf g"
    by (subst g, subst (asm) g) (auto simp: files_ok_def genesis_def covered_id_def saved_as_def fresh_state_def
        store_verify_def checkpoint_event_marker_valid_def)
  moreover have "same_books (fresh_state cf) g" "process_ok cf g" using genesis_books [OF pf] g by metis+
  moreover have "saved_as env cf g (fresh_state cf)"
    by (subst g) (simp add: saved_as_def genesis_def fresh_state_def)
  ultimately show ?thesis by (auto simp: durable_ok_def)
qed

lemma first_start_portfolio: "first_start env cf store = Inr g \<Longrightarrow> \<exists>pf. new_portfolio cf = Inr pf"
  by (auto simp: first_start_def restart_def bind_result_Inr_iff)

lemma durable_run_ok:
  assumes "first_start env cf store = Inr g0" and "g = fst (run_machine (durable_step env cf) g0 events)"
  shows "durable_ok env cf g"
  using durable_machine.run_inv [OF first_start_ok [OF assms(1)], of events] assms(2) by simp

lemma returned_call_reopens:
  assumes ok: "durable_ok env cf g" and pf: "new_portfolio cf = Inr pf"
    and e: "checkpointed e" and call: "durable_call env now g e = (None, g')"
  shows "\<exists>h. reopen env cf g' = Inr h \<and> books_equal g' h \<and> dict_get (du_marks h) = dict_get (du_marks g')"
proof -
  obtain g1 where run: "durable_handler env g e = (None, g1)" and g': "g' = save_checkpoint env now g1"
    using e call by (auto simp: durable_call_def split: prod.splits option.splits)
  have "ahead env cf g1" using handler_handled [OF ok e] run by (simp add: handled_def)
  then have proc: "process_ok cf g1" by (simp add: ahead_def)
  have ok': "durable_ok env cf g'" using call_ok [OF ok, of now e] call by simp
  then have files: "files_ok env cf g'" by (simp add: durable_ok_def)
  have "du_checkpoint g' \<noteq> None" by (simp add: g' save_checkpoint_def Let_def)
  moreover have saved: "saved_as env cf g' (state_of g1)" unfolding g' by (rule saved_state_of [OF proc])
  moreover have "covered_id g' = du_last_engine_event_id g'" by (simp add: g')
  ultimately have re: "reopen env cf g' = Inr (rebuilt cf pf g' (sorted_state (state_of g1)) (covered_id g'))"
    using reopen_cases [OF files pf saved] by auto
  moreover have "dict_get (du_marks (rebuilt cf pf g' (sorted_state (state_of g1)) (covered_id g'))) = dict_get (du_marks g')"
    by (rule ext) (simp add: rebuilt_def state_of_def g')
  ultimately show ?thesis using reopen_books [OF ok' re] by blast
qed

subsection \<open>Properties\<close>

text \<open>C14. Whatever happened to an experiment since its first start (calls, exceptions in the middle
  of a call, restarts), restarting from the files it left behind either rebuilds exactly the
  cash, candidates, positions and closed trades that the process held, or is refused; and it
  is refused exactly when the log holds an engine event that the checkpoint does not cover.\<close>

theorem restart_exact_or_refused:
  assumes "first_start env cf store = Inr g0"
    and "g = fst (run_machine (durable_step env cf) g0 events)"
  shows "case reopen env cf g of
      Inl e \<Rightarrow> covered_id g < du_last_engine_event_id g
    | Inr h \<Rightarrow> covered_id g = du_last_engine_event_id g \<and> books_equal g h"
proof -
  have ok: "durable_ok env cf g"
    by (rule durable_run_ok [OF assms(1,2)])
  then have files: "files_ok env cf g" by (simp add: durable_ok_def)
  obtain pf where pf: "new_portfolio cf = Inr pf"
    using assms(1) by (auto simp: first_start_def restart_def bind_result_Inr_iff)
  obtain s where "saved_as env cf g s" using files by (auto simp: files_ok_def)
  note cases = reopen_cases [OF files pf this]
  show ?thesis
  proof (cases "reopen env cf g")
    case (Inl e)
    then have "covered_id g < du_last_engine_event_id g" using cases by (simp split: if_splits)
    with Inl show ?thesis by simp
  next
    case (Inr h)
    then have "\<not> covered_id g < du_last_engine_event_id g" using cases by (simp split: if_splits)
    with files reopen_books [OF ok Inr] Inr show ?thesis by (simp add: files_ok_def)
  qed
qed

text \<open>C31. A call that returns is durable: after any history, if a signal or price call returns
  without an exception, a restart from the files at that point succeeds and has the same
  cash, candidates, positions, closed trades and price marks.\<close>

theorem returned_call_survives_restart:
  assumes "first_start env cf store = Inr g0"
    and "g = fst (run_machine (durable_step env cf) g0 events)"
    and "checkpointed e" and "durable_call env now g e = (None, g')"
  shows "\<exists>h. reopen env cf g' = Inr h \<and> books_equal g' h \<and> dict_get (du_marks h) = dict_get (du_marks g')"
  using returned_call_reopens [OF durable_run_ok [OF assms(1,2)] _ assms(3,4)] first_start_portfolio [OF assms(1)]
  by blast

subsection \<open>What a restart loses\<close>

definition open_value :: "durable \<Rightarrow> real" where
  "open_value g = sum_list (map (\<lambda>(mint, p).
     if is_open p then po_units p * mark_price (dict_get (du_marks g)) mint p else 0)
     (ld_positions (du_ledger g)))"

lemma nav_split: "durable_nav_usd g = ld_cash_usd (du_ledger g) + open_value g"
  by (simp add: durable_nav_usd_def ledger_nav_def open_value_def)

lemma reopen_rebuilt:
  assumes ok: "durable_ok env cf g" and run: "reopen env cf g = Inr h" and ck: "du_checkpoint g \<noteq> None"
  obtains pf s where "new_portfolio cf = Inr pf" "h = rebuilt cf pf g s (covered_id g)"
proof -
  obtain pf where pf: "new_portfolio cf = Inr pf" using reopen_Inr_portfolio [OF run] by blast
  obtain s where "saved_as env cf g s" using ok by (auto simp: durable_ok_def files_ok_def)
  from reopen_cases [OF _ pf this] run ck ok have "h = rebuilt cf pf g (sorted_state s) (covered_id g)"
    by (auto simp: durable_ok_def split: if_splits)
  with that pf show thesis by blast
qed

text \<open>C28. The net asset value after a restart leaves out every open position. The ledger that
  \<open>nav_usd\<close> asks is not given the restored positions, so the restored value is the cash alone:
  the value before the restart less the market value of all positions that are still open,
  although the restored position table holds them.\<close>

theorem restored_nav_forgets_positions:
  assumes "first_start env cf store = Inr g0"
    and "g = fst (run_machine (durable_step env cf) g0 events)"
    and "du_checkpoint g \<noteq> None" and "reopen env cf g = Inr h"
  shows "durable_nav_usd h = durable_nav_usd g - open_value g
    \<and> dict_get (positions_view h) = dict_get (positions_view g)"
proof -
  have ok: "durable_ok env cf g"
    by (rule durable_run_ok [OF assms(1,2)])
  obtain pf s where pf: "new_portfolio cf = Inr pf" and h: "h = rebuilt cf pf g s (covered_id g)"
    by (rule reopen_rebuilt [OF ok assms(4,3)])
  have "open_value h = 0"
    using new_portfolio_ledger [OF pf] by (simp add: h open_value_def rebuilt_def with_ledger_def fresh_runtime_def)
  moreover have "books_equal g h" using reopen_books [OF ok assms(4)] by simp
  ultimately show ?thesis by (simp add: nav_split books_equal_def)
qed

text \<open>After a restore, nothing the engine does gives the facade a new mint.\<close>

definition unlisted :: "string \<Rightarrow> durable \<Rightarrow> bool" where
  "unlisted m g \<longleftrightarrow> (\<exists>fa. du_facade g = Some fa \<and> dict_get (fa_positions fa) m = None)"

lemma unlisted_cong: "du_facade g' = du_facade g \<Longrightarrow> unlisted m g' = unlisted m g"
  by (simp add: unlisted_def)

lemma append_facade: "durable_append env ev g = (e, g') \<Longrightarrow> du_facade g' = du_facade g"
  by (cases rule: durable_append_cases [of env ev g]) auto

lemma apply_unlisted: "durable_apply g i w x = (e, g') \<Longrightarrow> unlisted m g \<Longrightarrow> unlisted m g'"
  using durable_apply_frame [of g i w x e g'] by (auto simp: unlisted_def same_mints_def)

lemma intents_unlisted: "unlisted m g \<Longrightarrow> unlisted m (snd (durable_intents env g w x is))"
proof (induction env g w x "is" rule: durable_intents.induct)
  case (2 env g w x i "is")
  obtain e1 g1 where run1: "durable_apply g i w x = (e1, g1)" by fastforce
  have u1: "unlisted m g1" using apply_unlisted [OF run1 "2.prems"] .
  show ?case
  proof (cases e1)
    case None
    obtain e2 g2 where run2: "durable_append env (LogTradeIntent i x) g1 = (e2, g2)" by fastforce
    have "unlisted m g2" using u1 unlisted_cong [OF append_facade [OF run2]] by simp
    with "2.IH" [OF run1 [symmetric] None run2 [symmetric]] run1 run2 None show ?thesis
      by (cases e2) simp_all
  qed (use run1 u1 in simp)
qed simp

lemma outcomes_unlisted: "unlisted m g \<Longrightarrow> unlisted m (snd (durable_outcomes env outs g))"
proof (induction env outs g rule: durable_outcomes.induct)
  case (2 env out outs g)
  obtain e1 g1 where run1: "durable_append env (LogTradeOutcome out) g = (e1, g1)" by fastforce
  have "unlisted m g1" using "2.prems" unlisted_cong [OF append_facade [OF run1]] by simp
  with "2.IH" [OF run1 [symmetric]] run1 show ?case by (cases e1) simp_all
qed simp

lemma high_water_unlisted: "unlisted m (durable_high_water k x g) = unlisted m g"
  by (auto simp: unlisted_def durable_high_water_def facade_high_water_def od.get_put
      split: option.splits if_splits)

lemma unlisted_simps [simp]:
  "unlisted m (set_mark k x g) = unlisted m g"
  "unlisted m (g\<lparr>du_strategy := s\<rparr>) = unlisted m g"
  "unlisted m (g\<lparr>du_runtime := rt\<rparr>) = unlisted m g"
  "unlisted m (save_checkpoint env now g) = unlisted m g"
  "unlisted m (durable_high_water k x g) = unlisted m g"
  by (rule unlisted_cong; simp)+ (rule high_water_unlisted)

lemma call_unlisted:
  assumes "unlisted m g"
  shows "unlisted m (snd (durable_call env now g e))"
proof -
  have first: "unlisted m (snd (durable_append env ev (set_mark k x g)))" for ev k x
    using assms append_facade [of env ev "set_mark k x g"]
    by (cases "durable_append env ev (set_mark k x g)") (simp add: unlisted_def)
  have "unlisted m (snd (durable_handler env g e))"
  proof (cases e)
    case (ETouch w r x)
    with first show ?thesis
      by (auto simp: durable_first_touch_def Let_def intro!: intents_unlisted split: prod.splits option.splits)
        (metis snd_conv)+
  next
    case (EConfirm n r x)
    with first show ?thesis
      by (auto simp: durable_confirmation_def Let_def intro!: intents_unlisted
          split: prod.splits option.splits sum.splits) (metis snd_conv)+
  next
    case (EPrice k t x)
    obtain e1 g1 where run: "durable_append env (LogPrice k t x) (set_mark k x g) = (e1, g1)" by fastforce
    with first have u1: "unlisted m g1" by (metis snd_conv)
    define scout where "scout = (case st_candidates (du_strategy g1) k of
                         Some c \<Rightarrow> ca_scout_wallet c | None \<Rightarrow> ''unknown'')"
    define g2 where "g2 = durable_high_water k x g1"
    have u2: "unlisted m g2" using u1 by (simp add: g2_def)
    have u3: "unlisted m (snd (durable_intents env (g2\<lparr>du_strategy := s'\<rparr>) scout x out))" for s' out
      by (rule intents_unlisted) (simp add: u2)
    have u4: "durable_intents env (g2\<lparr>du_strategy := s'\<rparr>) scout x out = (e3, g3) \<Longrightarrow>
        unlisted m (snd (durable_outcomes env outs g3)) \<and> unlisted m g3" for s' out e3 g3 outs
      using u3 [of s' out] outcomes_unlisted by auto
    show ?thesis
    proof (cases e1)
      case None
      have "durable_price env g k t x = (case on_clock (du_strategy g2) k t (Some x) of
          Inl e \<Rightarrow> (Some e, g2)
        | Inr (s', out) \<Rightarrow> (case durable_intents env (g2\<lparr>du_strategy := s'\<rparr>) scout x out of
             (Some e, g3) \<Rightarrow> (Some e, g3)
           | (None, g3) \<Rightarrow> durable_outcomes env (drop (length (closed_view g2)) (closed_view g3)) g3))"
        by (simp only: durable_price_def Let_def run None split_conv option.case g2_def scout_def)
      with EPrice u2 u4 show ?thesis by (auto split: sum.splits prod.splits option.splits)
    next
      case (Some err)
      with EPrice run u1 show ?thesis by (simp add: durable_price_def)
    qed
  next
    case (EEvidence ev)
    with assms show ?thesis by simp
  qed
  then show ?thesis by (auto simp: durable_call_def split: prod.splits option.splits)
qed


subsection \<open>The durable engine runs the in-memory engine\<close>

definition in_memory :: "durable \<Rightarrow> engine" where
  "in_memory g = \<lparr>en_strategy = du_strategy g, en_runtime = du_runtime g, en_store = None,
     en_marks = dict_get (du_marks g)\<rparr>"

definition UNIQUE_VIOLATION :: py_error where
  "UNIQUE_VIOLATION = IntegrityError ''UNIQUE(lineage_hash)''"

text \<open>The durable run \<open>y\<close> agrees with the in-memory run \<open>z\<close>, or the log refused an append.\<close>

definition agrees :: "py_error option \<times> durable \<Rightarrow> py_error option \<times> engine \<Rightarrow> bool" where
  "agrees y z \<longleftrightarrow> du_facade (snd y) = None
     \<and> (fst y = Some UNIQUE_VIOLATION \<or> z = (fst y, in_memory (snd y)))"

lemma append_event_None [simp]: "en_store g = None \<Longrightarrow> append_event ev g = g"
  by (simp add: append_event_def)

lemma in_memory_simps [simp]:
  "en_strategy (in_memory g) = du_strategy g" "en_runtime (in_memory g) = du_runtime g"
  "en_store (in_memory g) = None" "en_marks (in_memory g) = dict_get (du_marks g)"
  by (simp_all add: in_memory_def)

lemma in_memory_strategy: "(in_memory g)\<lparr>en_strategy := s\<rparr> = in_memory (g\<lparr>du_strategy := s\<rparr>)"
  by (simp add: in_memory_def)

lemma in_memory_mark: "(in_memory g)\<lparr>en_marks := (dict_get (du_marks g))(m \<mapsto> x)\<rparr> = in_memory (set_mark m x g)"
  by (auto simp: in_memory_def set_mark_def od.get_put)

lemma append_in_memory:
  assumes "durable_append env ev g = (e, g')"
  shows "du_facade g' = du_facade g \<and> du_strategy g' = du_strategy g \<and> in_memory g' = in_memory g \<and> (e = Some UNIQUE_VIOLATION \<or> e = None)"
  using assms by (cases rule: durable_append_cases [of env ev g]) (auto simp: UNIQUE_VIOLATION_def in_memory_def)

lemma in_memory_runtime: "(in_memory g)\<lparr>en_runtime := rt\<rparr> = in_memory (g\<lparr>du_runtime := rt\<rparr>)"
  by (simp add: in_memory_def)

lemma refused_agrees: "du_facade g = None \<Longrightarrow> e = Some UNIQUE_VIOLATION \<Longrightarrow> agrees (e, g) z"
  by (simp add: agrees_def)

lemma outcomes_agree:
  "du_facade g = None \<Longrightarrow> agrees (durable_outcomes env outs g) (None, append_outcomes outs (in_memory g))"
proof (induction env outs g rule: durable_outcomes.induct)
  case (2 env out outs g)
  obtain e g1 where run: "durable_append env (LogTradeOutcome out) g = (e, g1)" by fastforce
  have g1: "du_facade g1 = None" "in_memory g1 = in_memory g" "e = Some UNIQUE_VIOLATION \<or> e = None"
    using append_in_memory [OF run] "2.prems" by auto
  show ?case
  proof (cases e)
    case None
    with "2.IH" [OF run [symmetric] None g1(1)] g1 run show ?thesis by simp
  next
    case (Some err)
    with g1 run refused_agrees [of g1 e] show ?thesis by simp
  qed
qed (simp add: agrees_def)

lemma intents_agree:
  "du_facade g = None \<Longrightarrow> agrees (durable_intents env g w x is) (apply_intents (in_memory g) w x is)"
proof (induction env g w x "is" rule: durable_intents.induct)
  case (2 env g w x i "is")
  obtain e rt where app: "engine_apply (du_runtime g) i w x = (e, rt)" by fastforce
  define g1 where "g1 = g\<lparr>du_runtime := rt\<rparr>"
  have run1: "durable_apply g i w x = (e, g1)" using "2.prems" app by (simp add: durable_apply_def g1_def)
  have mem: "apply_intents (in_memory g) w x (i # is)
      = (case e of Some err \<Rightarrow> (Some err, in_memory g1) | None \<Rightarrow> apply_intents (in_memory g1) w x is)"
    using app by (cases e) (simp_all add: in_memory_runtime g1_def)
  have "du_facade g1 = None" using "2.prems" by (simp add: g1_def)
  show ?case
  proof (cases e)
    case None
    obtain e2 g2 where run2: "durable_append env (LogTradeIntent i x) g1 = (e2, g2)" by fastforce
    have g2: "du_facade g2 = None" "in_memory g2 = in_memory g1" "e2 = Some UNIQUE_VIOLATION \<or> e2 = None"
      using append_in_memory [OF run2] \<open>du_facade g1 = None\<close> by auto
    show ?thesis
    proof (cases e2)
      case None
      from "2.IH" [OF run1 [symmetric] \<open>e = None\<close> run2 [symmetric] None g2(1)]
      show ?thesis unfolding mem using run1 run2 \<open>e = None\<close> None g2(2) by simp
    next
      case (Some err)
      with g2 run1 run2 \<open>e = None\<close> refused_agrees [of g2 e2] show ?thesis by simp
    qed
  next
    case (Some err)
    with run1 \<open>du_facade g1 = None\<close> show ?thesis unfolding mem by (simp add: agrees_def)
  qed
qed (simp add: agrees_def)

lemma first_append_agrees:
  assumes "du_facade g = None" and "durable_append env ev (set_mark m x g) = (e, g1)"
  shows "du_facade g1 = None \<and> du_strategy g1 = du_strategy g \<and> in_memory g1 = (in_memory g)\<lparr>en_marks := (dict_get (du_marks g))(m \<mapsto> x)\<rparr>
    \<and> (e = Some UNIQUE_VIOLATION \<or> e = None)"
  using append_in_memory [OF assms(2)] assms(1) by (simp add: in_memory_mark)

lemma first_touch_agrees:
  assumes "du_facade g = None"
  shows "agrees (durable_first_touch env g w r x) (on_first_touch (in_memory g) w r x)"
proof -
  define price where "price = or_default x (wt_reference_price w)"
  obtain e g1 where run: "durable_append env (LogFirstTouch w r (cf_version (st_config (du_strategy g))))
      (set_mark (wt_token_mint w) price g) = (e, g1)" by fastforce
  note g1 = first_append_agrees [OF assms run]
  show ?thesis
  proof (cases e)
    case None
    obtain s' out where step: "first_touch (du_strategy g1) w r = (s', out)" by fastforce
    have mem: "on_first_touch (in_memory g) w r x = apply_intents (in_memory (g1\<lparr>du_strategy := s'\<rparr>)) (wt_wallet w) price out"
      using g1 step by (simp add: on_first_touch_def Let_def price_def [symmetric] in_memory_strategy [symmetric])
    have "durable_first_touch env g w r x = durable_intents env (g1\<lparr>du_strategy := s'\<rparr>) (wt_wallet w) price out"
      using run None step by (simp add: durable_first_touch_def Let_def price_def [symmetric])
    with intents_agree [of "g1\<lparr>du_strategy := s'\<rparr>" env "wt_wallet w" price out] g1 show ?thesis
      unfolding mem by simp
  next
    case (Some err)
    with g1 run refused_agrees [of g1 e] show ?thesis
      by (simp add: durable_first_touch_def Let_def price_def [symmetric])
  qed
qed

lemma confirmation_agrees:
  assumes "du_facade g = None"
  shows "agrees (durable_confirmation env g n r x) (on_confirmation (in_memory g) n r x)"
proof -
  define price where "price = or_default x (cn_reference_price n)"
  define scout where "scout = (case st_candidates (du_strategy g) (cn_token_mint n) of
                         Some c \<Rightarrow> ca_scout_wallet c | None \<Rightarrow> cn_wallet n)"
  obtain e g1 where run: "durable_append env (LogConfirmation n r) (set_mark (cn_token_mint n) price g) = (e, g1)"
    by fastforce
  note g1 = first_append_agrees [OF assms run]
  show ?thesis
  proof (cases e)
    case None
    have "durable_confirmation env g n r x = (case confirm (du_strategy g1) n r of
        Inl e \<Rightarrow> (Some e, g1)
      | Inr (s', out) \<Rightarrow> durable_intents env (g1\<lparr>du_strategy := s'\<rparr>) scout price out)"
      using run None g1
      by (simp add: durable_confirmation_def Let_def price_def [symmetric] scout_def split: sum.split)
    moreover have "on_confirmation (in_memory g) n r x = (case confirm (du_strategy g1) n r of
        Inl e \<Rightarrow> (Some e, in_memory g1)
      | Inr (s', out) \<Rightarrow> apply_intents (in_memory (g1\<lparr>du_strategy := s'\<rparr>)) scout price out)"
    proof -
      have mark: "append_event (LogConfirmation n r)
          (in_memory g\<lparr>en_marks := (en_marks (in_memory g))(cn_token_mint n \<mapsto> price)\<rparr>) = in_memory g1"
        using g1 by simp
      have scout: "(case st_candidates (du_strategy g1) (cn_token_mint n) of
          Some c \<Rightarrow> ca_scout_wallet c | None \<Rightarrow> cn_wallet n) = scout"
        using g1 by (simp add: scout_def)
      show ?thesis
        unfolding on_confirmation_def price_def [symmetric] Let_def mark in_memory_strategy
        by (simp only: in_memory_simps scout)
    qed
    moreover have "agrees (durable_intents env (g1\<lparr>du_strategy := s'\<rparr>) scout price out)
        (apply_intents (in_memory (g1\<lparr>du_strategy := s'\<rparr>)) scout price out)" for s' out
      by (rule intents_agree) (simp add: g1)
    ultimately show ?thesis
      using g1 by (auto simp: agrees_def split: sum.splits prod.splits)
  next
    case (Some err)
    with g1 run refused_agrees [of g1 e] show ?thesis
      by (simp add: durable_confirmation_def Let_def price_def [symmetric])
  qed
qed

lemma high_water_in_memory:
  assumes "du_facade g = None"
  shows "in_memory (durable_high_water m x g)
      = (in_memory g)\<lparr>en_runtime := with_ledger (raise_high_water m x) (du_runtime g)\<rparr>"
    and "du_facade (durable_high_water m x g) = None"
  using assms by (simp_all add: durable_high_water_def in_memory_def)

lemma price_agrees:
  assumes "du_facade g = None"
  shows "agrees (durable_price env g m t x) (on_price (in_memory g) m t x)"
proof -
  obtain e g1 where run: "durable_append env (LogPrice m t x) (set_mark m x g) = (e, g1)" by fastforce
  note g1 = first_append_agrees [OF assms run]
  define scout where "scout = (case st_candidates (du_strategy g1) m of
                         Some c \<Rightarrow> ca_scout_wallet c | None \<Rightarrow> ''unknown'')"
  define g2 where "g2 = durable_high_water m x g1"
  define k where "k = length (ld_closed (du_ledger g2))"
  have g2: "du_facade g2 = None" using g1 by (simp add: g2_def high_water_in_memory)
  then have view: "length (closed_view g2) = k" by (simp add: k_def closed_view_def)
  show ?thesis
  proof (cases e)
    case None
    have dur: "durable_price env g m t x = (case on_clock (du_strategy g2) m t (Some x) of
        Inl e \<Rightarrow> (Some e, g2)
      | Inr (s', out) \<Rightarrow> (case durable_intents env (g2\<lparr>du_strategy := s'\<rparr>) scout x out of
           (Some e, g3) \<Rightarrow> (Some e, g3)
         | (None, g3) \<Rightarrow> durable_outcomes env (drop k (closed_view g3)) g3))"
      by (simp only: durable_price_def Let_def run None split_conv option.case scout_def view
          g2_def [symmetric])
    have mark: "append_event (LogPrice m t x) (in_memory g\<lparr>en_marks := (en_marks (in_memory g))(m \<mapsto> x)\<rparr>) = in_memory g1"
      using g1 by simp
    have mem2: "(in_memory g1)\<lparr>en_runtime := with_ledger (raise_high_water m x) (en_runtime (in_memory g1))\<rparr> = in_memory g2"
      by (simp only: in_memory_simps g2_def high_water_in_memory(1) [OF conjunct1 [OF g1]])
    have mem: "on_price (in_memory g) m t x = (case on_clock (du_strategy g2) m t (Some x) of
        Inl e \<Rightarrow> (Some e, in_memory g2)
      | Inr (s', out) \<Rightarrow> (case apply_intents (in_memory (g2\<lparr>du_strategy := s'\<rparr>)) scout x out of
           (Some e, g3) \<Rightarrow> (Some e, g3)
         | (None, g3) \<Rightarrow> (None, append_outcomes (drop k (ld_closed (rt_ledger (en_runtime g3)))) g3)))"
      unfolding on_price_def mark Let_def mem2 in_memory_strategy
      by (simp only: in_memory_simps k_def scout_def)
    show ?thesis
    proof (cases "on_clock (du_strategy g2) m t (Some x)")
      case (Inl err)
      with g2 show ?thesis by (simp add: dur mem agrees_def)
    next
      case (Inr res)
      obtain s' out where step: "on_clock (du_strategy g2) m t (Some x) = Inr (s', out)"
        using Inr by (cases res) simp
      obtain e3 g3 where intents: "durable_intents env (g2\<lparr>du_strategy := s'\<rparr>) scout x out = (e3, g3)"
        by fastforce
      have ag: "agrees (e3, g3) (apply_intents (in_memory (g2\<lparr>du_strategy := s'\<rparr>)) scout x out)"
        using intents_agree [of "g2\<lparr>du_strategy := s'\<rparr>" env scout x out] g2 intents by simp
      show ?thesis
      proof (cases e3)
        case None
        with ag have g3: "du_facade g3 = None"
          "apply_intents (in_memory (g2\<lparr>du_strategy := s'\<rparr>)) scout x out = (None, in_memory g3)"
          by (simp_all add: agrees_def)
        have "agrees (durable_outcomes env (drop k (ld_closed (du_ledger g3))) g3)
            (None, append_outcomes (drop k (ld_closed (du_ledger g3))) (in_memory g3))"
          by (rule outcomes_agree [OF g3(1)])
        moreover have "closed_view g3 = ld_closed (du_ledger g3)" using g3(1) by (simp add: closed_view_def)
        ultimately show ?thesis using intents g3(2) None by (simp add: dur mem step)
      next
        case (Some err)
        with ag intents show ?thesis by (auto simp: dur mem step agrees_def)
      qed
    qed
  next
    case (Some err)
    with g1 run refused_agrees [of g1 e] show ?thesis by (simp add: durable_price_def)
  qed
qed

text \<open>C27. The durable engine refines the in-memory engine: until the first restart, every call does
  to strategy, portfolio and marks exactly what the in-memory engine does and raises exactly
  what it raises, or the event log refuses a row as a duplicate and the call raises that.\<close>

theorem durable_refines_engine:
  assumes "du_facade g = None" and "durable_call env now g e = (x, g')"
  shows "du_facade g' = None
    \<and> (x = Some UNIQUE_VIOLATION \<or> engine_call (in_memory g) e = (x, in_memory g'))"
proof -
  obtain y h where run: "durable_handler env g e = (y, h)" by fastforce
  have "agrees (durable_handler env g e) (engine_call (in_memory g) e)"
  proof (cases e)
    case (EEvidence ev)
    with assms(1) show ?thesis by (simp add: agrees_def in_memory_def)
  qed (use assms(1) first_touch_agrees confirmation_agrees price_agrees in simp_all)
  moreover have "in_memory (save_checkpoint env now h) = in_memory h" by (simp add: in_memory_def)
  ultimately show ?thesis
    using assms(2) run by (cases y) (auto simp: durable_call_def agrees_def)
qed

subsection \<open>A run\<close>

text \<open>A log whose hash is the message itself, and one S-tier touch: a starter position is opened,
  the checkpoint is written and the process is restarted.\<close>

definition demo_env :: renderer where
  "demo_env = \<lparr>rn_sha = id, rn_iso = (\<lambda>t. []), rn_payload = (\<lambda>ev. []), rn_document = (\<lambda>j. [])\<rparr>"

definition demo_start :: durable where
  "demo_start = \<lparr>du_strategy = new_strategy BASELINE, du_runtime = fresh_runtime demo_portfolio,
     du_facade = None, du_marks = [], du_trade_start_nav = [], du_store = empty_event_store,
     du_checkpoint = None, du_last_engine_event_id = 0\<rparr>"

lemma demo_first_start [simp]: "first_start demo_env BASELINE empty_event_store = Inr demo_start"
  by (simp add: first_start_def restart_def restore_or_fail_closed_def verify_engine_snapshot_spec
      empty_event_store_def demo_start_def engine_event_after_def numbered_def)

definition demo_bought :: paper_position where
  "demo_bought = (new_position ''M'' ''W'' 0)\<lparr>po_units := 150 / 41, po_cost_basis_usd := 15 / 4,
     po_entry_capital_usd := 15 / 4, po_fills := [\<lparr>fl_token_mint = ''M'', fl_side = Buy,
       fl_observed_at = 0, fl_reference_price = 1, fl_fill_price = 41 / 40, fl_notional_usd = 15 / 4,
       fl_units = 150 / 41, fl_execution_drag_usd = 15 / 164, fl_intent = OPEN_STARTER\<rparr>]\<rparr>"

definition demo_runtime :: paper_runtime where
  "demo_runtime = \<lparr>rt_entry = None, rt_portfolio = \<lparr>pf_config = BASELINE,
     pf_ledger = \<lparr>ld_initial_capital_usd = 500, ld_cash_usd = 1985 / 4,
       ld_positions = [(''M'', demo_bought)], ld_closed = [], ld_pending_exits = [],
       ld_family_by_mint = [(''M'', ''legacy_runtime'')], ld_context_by_mint = [(''M'', ''unclassified'')],
       ld_equity_history = [500, 1985 / 4 + 150 / 41]\<rparr>\<rparr>\<rparr>"

lemma demo_engine_apply:
  "engine_apply (fresh_runtime demo_portfolio)
      (intent OPEN_STARTER ''M'' 0 (30 / 100) ''clean S-tier first touch'') ''W'' 1 = (None, demo_runtime)"
  by (simp add: engine_apply_def portfolio_apply_def apply_opening_def apply_exact_entry_if_available_def
      is_opening_def intent_def fresh_runtime_def demo_portfolio_def with_ledger_def ensure_position_def
      register_position_def full_position_notional_def full_position_fraction_of_nav_def ledger_nav_def
      is_open_def new_position_def sim_buy_def Let_def book_entry_def record_equity_def put_position_def
      mark_price_def demo_runtime_def demo_bought_def)

definition demo_row1 :: event_row where
  "demo_row1 = \<lparr>ev_event_type = ''first_touch'', ev_observed_at = [], ev_payload_json = [],
     ev_previous_hash = None, ev_lineage_hash = ''|first_touch||''\<rparr>"

definition demo_row2 :: event_row where
  "demo_row2 = \<lparr>ev_event_type = ''trade_intent'', ev_observed_at = [], ev_payload_json = [],
     ev_previous_hash = Some ''|first_touch||'', ev_lineage_hash = ''|first_touch|||trade_intent||''\<rparr>"

definition demo_touched :: durable where
  "demo_touched = \<lparr>du_strategy = put_candidate ''M'' (new_candidate demo_touch (clean_snapshot 0)) (new_strategy BASELINE),
     du_runtime = demo_runtime, du_facade = None, du_marks = [(''M'', 1)], du_trade_start_nav = [],
     du_store = empty_event_store\<lparr>es_events := [demo_row1, demo_row2]\<rparr>,
     du_checkpoint = None, du_last_engine_event_id = 2\<rparr>"

lemma demo_handler:
  "durable_handler demo_env demo_start (ETouch demo_touch (clean_snapshot 0) None) = (None, demo_touched)"
proof -
  let ?touch = "LogFirstTouch demo_touch (clean_snapshot 0) (cf_version BASELINE)"
  define g1 where "g1 = (set_mark ''M'' 1 demo_start)\<lparr>du_store := empty_event_store\<lparr>es_events := [demo_row1]\<rparr>,
     du_last_engine_event_id := 1\<rparr>"
  have a1: "durable_append demo_env ?touch (set_mark ''M'' 1 demo_start) = (None, g1)"
    by (simp add: durable_append_def store_append_def lineage_message_def last_lineage_def demo_env_def
        demo_start_def set_mark_def empty_event_store_def g1_def demo_row1_def id_of_lineage_def numbered_def
        ENGINE_EVENT_TYPES_def Let_def)
  let ?i = "intent OPEN_STARTER ''M'' 0 (30 / 100) ''clean S-tier first touch''"
  let ?s = "put_candidate ''M'' (new_candidate demo_touch (clean_snapshot 0)) (new_strategy BASELINE)"
  have ap: "durable_apply (g1\<lparr>du_strategy := ?s\<rparr>) ?i ''W'' 1 = (None, g1\<lparr>du_strategy := ?s, du_runtime := demo_runtime\<rparr>)"
    using demo_engine_apply by (simp add: durable_apply_def g1_def set_mark_def demo_start_def)
  have a2: "durable_append demo_env (LogTradeIntent ?i 1) (g1\<lparr>du_strategy := ?s, du_runtime := demo_runtime\<rparr>)
      = (None, demo_touched)"
    by (simp add: durable_append_def store_append_def lineage_message_def last_lineage_def demo_env_def
        demo_start_def set_mark_def empty_event_store_def g1_def demo_row1_def demo_row2_def demo_touched_def
        id_of_lineage_def numbered_def ENGINE_EVENT_TYPES_def Let_def)
  have touch: "wt_token_mint demo_touch = ''M''" "wt_reference_price demo_touch = 1" "wt_wallet demo_touch = ''W''"
    by (simp_all add: demo_touch_def)
  have st: "du_strategy g1 = new_strategy BASELINE" "du_strategy demo_start = new_strategy BASELINE"
      "st_config (new_strategy BASELINE) = BASELINE"
    by (simp_all add: g1_def demo_start_def new_strategy_def)
  show ?thesis
    by (simp only: durable_handler.simps durable_first_touch_def Let_def or_default_simps touch st a1
        split_conv option.case demo_first_touch durable_intents.simps ap a2)
qed

definition demo_saved :: durable where
  "demo_saved = save_checkpoint demo_env 0 demo_touched"

lemma demo_call:
  "durable_call demo_env 0 demo_start (ETouch demo_touch (clean_snapshot 0) None) = (None, demo_saved)"
  unfolding durable_call_def demo_handler by (simp add: demo_saved_def)

lemma demo_saved_run:
  "demo_saved = fst (run_machine (durable_step demo_env BASELINE) demo_start
     [DCall 0 (ETouch demo_touch (clean_snapshot 0) None)])"
  by (simp add: durable_step_def demo_call)

lemma demo_reopens: "\<exists>h. reopen demo_env BASELINE demo_saved = Inr h"
  using returned_call_reopens [OF first_start_ok [OF demo_first_start] demo_portfolio_new _ demo_call] by auto

subsection \<open>Witnesses\<close>

theorem restart_exact_or_refused_witness:
  "\<exists>h. reopen demo_env BASELINE demo_saved = Inr h \<and> books_equal demo_saved h"
  using restart_exact_or_refused [OF demo_first_start demo_saved_run] demo_reopens by auto

theorem returned_call_survives_restart_witness:
  "\<exists>h. reopen demo_env BASELINE demo_saved = Inr h \<and> dict_get (du_marks h) ''M'' = Some 1"
proof -
  have "du_marks demo_saved = [(''M'', 1)]" by (simp add: demo_saved_def demo_touched_def)
  then show ?thesis
    using returned_call_survives_restart [OF demo_first_start, of demo_start "[]", OF _ _ demo_call] by auto
qed

theorem restored_nav_forgets_positions_witness:
  "\<exists>h. reopen demo_env BASELINE demo_saved = Inr h
     \<and> durable_nav_usd demo_saved = 1985 / 4 + 150 / 41 \<and> durable_nav_usd h = 1985 / 4"
proof -
  obtain h where h: "reopen demo_env BASELINE demo_saved = Inr h" using demo_reopens by blast
  have "open_value demo_saved = 150 / 41" "durable_nav_usd demo_saved = 1985 / 4 + 150 / 41"
    by (simp_all add: nav_split open_value_def demo_saved_def demo_touched_def demo_runtime_def demo_bought_def
        is_open_def new_position_def mark_price_def)
  moreover have "du_checkpoint demo_saved \<noteq> None" by (simp add: demo_saved_def save_checkpoint_def Let_def)
  ultimately show ?thesis
    using restored_nav_forgets_positions [OF demo_first_start demo_saved_run _ h] h by auto
qed


theorem durable_refines_engine_witness:
  "engine_call (in_memory demo_start) (ETouch demo_touch (clean_snapshot 0) None) = (None, in_memory demo_saved)"
  using durable_refines_engine [OF _ demo_call] by (simp add: demo_start_def)

end
