(* ===== verification/Budget.thy ===== *)
theory Budget
  imports Prelude "HOL-Library.Sublist"
begin

text \<open>
  The monthly and per-second request budget of the private RPC providers
  (\<open>robinhood_provider_capacity_budget.py\<close>): usage counters that survive restarts, the monthly
  reservation with its critical reserve, the pacing of background requests and the rolling
  one-second window. Each locked section is one operation on the module's globals. The
  environment gives the number that \<open>int\<close> or \<open>float\<close> reads from a variable, if it is set and
  readable; clocks and the outcome of the file write are arguments. The context variables of
  the priority are read by the caller and passed on.
\<close>

subsection \<open>Configuration\<close>

record environment =
  env_int :: "string \<rightharpoonup> int"
  env_float :: "string \<rightharpoonup> real"
  env_baseline :: "string \<rightharpoonup> (string \<rightharpoonup> int)" \<comment> \<open>the readable part of the baselines JSON\<close>

definition int_env :: "environment \<Rightarrow> string \<Rightarrow> int \<Rightarrow> int \<Rightarrow> int" where
  "int_env env name standard minimum = max minimum (or_default (env_int env name) standard)"

definition float_env :: "environment \<Rightarrow> string \<Rightarrow> real \<Rightarrow> real \<Rightarrow> real option \<Rightarrow> real" where
  "float_env env name standard minimum maximum =
     (let v = max minimum (or_default (env_float env name) standard)
      in case maximum of None \<Rightarrow> v | Some m \<Rightarrow> min m v)"

definition provider_limit :: "environment \<Rightarrow> string \<Rightarrow> int" where
  "provider_limit env kind =
     (if kind = ''chainstack'' then int_env env ''ROBINHOOD_CHAINSTACK_MONTHLY_REQUEST_LIMIT'' 3000000 1
      else if kind = ''alchemy'' then int_env env ''ROBINHOOD_ALCHEMY_MONTHLY_REQUEST_LIMIT'' 3000000 1
      else int_env env ''ROBINHOOD_OTHER_PRIVATE_MONTHLY_REQUEST_LIMIT'' 0 0)"

definition combined_limit :: "environment \<Rightarrow> int" where
  "combined_limit env = int_env env ''ROBINHOOD_PROVIDER_COMBINED_MONTHLY_REQUEST_LIMIT'' 6000000 1"

definition critical_reserve_fraction :: "environment \<Rightarrow> real" where
  "critical_reserve_fraction env =
     float_env env ''ROBINHOOD_PROVIDER_MONTHLY_CRITICAL_RESERVE_FRACTION'' (10 / 100) 0 (Some (50 / 100))"

definition background_share :: "environment \<Rightarrow> real" where
  "background_share env = float_env env ''ROBINHOOD_PROVIDER_BACKGROUND_SHARE'' (65 / 100) (5 / 100) (Some (95 / 100))"

definition restart_safety :: "environment \<Rightarrow> int" where
  "restart_safety env = int_env env ''ROBINHOOD_PROVIDER_RESTART_SAFETY_REQUESTS'' 100 0"

definition persist_every_requests :: "environment \<Rightarrow> int" where
  "persist_every_requests env = int_env env ''ROBINHOOD_PROVIDER_USAGE_PERSIST_EVERY_REQUESTS'' 50 1"

definition persist_every_seconds :: "environment \<Rightarrow> real" where
  "persist_every_seconds env = float_env env ''ROBINHOOD_PROVIDER_USAGE_PERSIST_EVERY_SECONDS'' 5 (1 / 10) None"

definition rolling_rps_limit :: "environment \<Rightarrow> int" where
  "rolling_rps_limit env = int_env env ''ROBINHOOD_CHAINSTACK_ROLLING_RPS_LIMIT'' 20 1"

subsection \<open>The calendar\<close>

record utc =
  ut_year :: nat
  ut_month :: nat
  ut_day :: nat
  ut_second :: real \<comment> \<open>seconds since midnight\<close>

definition two_digits :: "nat \<Rightarrow> string" where
  "two_digits n = (if n < 10 then ''0'' @ nat_text n else nat_text n)"

definition month_key :: "utc \<Rightarrow> string" where
  "month_key t = nat_text (ut_year t) @ ''-'' @ two_digits (ut_month t)"

definition leap_year :: "nat \<Rightarrow> bool" where
  "leap_year y \<longleftrightarrow> y mod 4 = 0 \<and> (y mod 100 \<noteq> 0 \<or> y mod 400 = 0)"

definition days_in_month :: "nat \<Rightarrow> nat \<Rightarrow> nat" where
  "days_in_month y m =
     (if m = 2 then (if leap_year y then 29 else 28)
      else if m \<in> {4, 6, 9, 11} then 30 else 31)"

text \<open>From now to the first instant of the next month.\<close>

definition seconds_remaining_in_month :: "utc \<Rightarrow> real" where
  "seconds_remaining_in_month t =
     max 1 (real (86400 * (Suc (days_in_month (ut_year t) (ut_month t)) - ut_day t)) - ut_second t)"

subsection \<open>Usage state\<close>

record usage_state =
  us_month :: string
  us_providers :: "(string, int) dict"
  us_http_requests :: "(string, int) dict"
  us_ws_control_requests :: "(string, int) dict"
  us_baseline_requests :: "(string, int) dict"
  us_updated_at :: real

text \<open>A bucket entry of a parsed file: missing, the integer \<open>int\<close> reads (zero for a false value),
  or something \<open>int\<close> rejects. A bucket that is not an object is \<open>None\<close>.\<close>

datatype stored_count = Missing | Count int | Unreadable

record usage_payload =
  pl_month :: string
  pl_providers :: "(string \<Rightarrow> stored_count) option"
  pl_http_requests :: "(string \<Rightarrow> stored_count) option"
  pl_ws_control_requests :: "(string \<Rightarrow> stored_count) option"
  pl_baseline_requests :: "(string \<Rightarrow> stored_count) option"
  pl_updated_at :: "real option"

definition KINDS :: "string list" where
  "KINDS = [''chainstack'', ''alchemy'']"

definition counted :: "(string, int) dict \<Rightarrow> string \<Rightarrow> int" where
  "counted d kind = or_default (dict_get d kind) 0"

definition baseline_for_month :: "environment \<Rightarrow> string \<Rightarrow> (string, int) dict" where
  "baseline_for_month env month =
     (case env_baseline env month of
        None \<Rightarrow> []
      | Some selected \<Rightarrow> map (\<lambda>kind. (kind, max 0 (or_default (selected kind) 0))) KINDS)"

definition fresh_usage :: "environment \<Rightarrow> string \<Rightarrow> real \<Rightarrow> usage_state" where
  "fresh_usage env month now =
     (let baseline = baseline_for_month env month;
          both = (\<lambda>f. [(''chainstack'', f ''chainstack''), (''alchemy'', f ''alchemy'')])
      in \<lparr>us_month = month, us_providers = both (counted baseline),
          us_http_requests = both (\<lambda>_. 0), us_ws_control_requests = both (\<lambda>_. 0),
          us_baseline_requests = both (counted baseline), us_updated_at = now\<rparr>)"

fun sanitize_count :: "int \<Rightarrow> stored_count \<Rightarrow> int" where
  "sanitize_count current Missing = max 0 current"
| "sanitize_count current (Count n) = max 0 n"
| "sanitize_count current Unreadable = max 0 current"

definition sanitize_bucket :: "(string \<Rightarrow> stored_count) option \<Rightarrow> (string, int) dict \<Rightarrow> (string, int) dict" where
  "sanitize_bucket source current =
     (case source of
        None \<Rightarrow> current
      | Some f \<Rightarrow> dict_set ''alchemy'' (sanitize_count (counted current ''alchemy'') (f ''alchemy''))
          (dict_set ''chainstack'' (sanitize_count (counted current ''chainstack'') (f ''chainstack'')) current))"

definition sanitize_usage :: "environment \<Rightarrow> usage_payload option \<Rightarrow> string \<Rightarrow> real \<Rightarrow> usage_state" where
  "sanitize_usage env payload month now =
     (case payload of
        None \<Rightarrow> fresh_usage env month now
      | Some p \<Rightarrow>
          if pl_month p \<noteq> month then fresh_usage env month now
          else let r = fresh_usage env month now in
            \<lparr>us_month = month,
             us_providers = sanitize_bucket (pl_providers p) (us_providers r),
             us_http_requests = sanitize_bucket (pl_http_requests p) (us_http_requests r),
             us_ws_control_requests = sanitize_bucket (pl_ws_control_requests p) (us_ws_control_requests r),
             us_baseline_requests = sanitize_bucket (pl_baseline_requests p) (us_baseline_requests r),
             us_updated_at = or_float (pl_updated_at p) now\<rparr>)"

text \<open>What \<open>json.dumps\<close> of a state reads back as.\<close>

definition stored_bucket :: "(string, int) dict \<Rightarrow> (string \<Rightarrow> stored_count) option" where
  "stored_bucket d = Some (\<lambda>kind. case dict_get d kind of None \<Rightarrow> Missing | Some n \<Rightarrow> Count n)"

definition dump_usage :: "usage_state \<Rightarrow> usage_payload" where
  "dump_usage s = \<lparr>pl_month = us_month s, pl_providers = stored_bucket (us_providers s),
     pl_http_requests = stored_bucket (us_http_requests s),
     pl_ws_control_requests = stored_bucket (us_ws_control_requests s),
     pl_baseline_requests = stored_bucket (us_baseline_requests s),
     pl_updated_at = Some (us_updated_at s)\<rparr>"

subsection \<open>The module's globals\<close>

text \<open>The usage file: absent, unparsable, or a document.\<close>

datatype usage_file = Absent | Corrupt | Stored usage_payload

record budget =
  bg_state :: "usage_state option"
  bg_dirty_requests :: int
  bg_last_persist :: real
  bg_request_times :: "real list"
  bg_next_background_at :: "(string, real) dict"
  bg_background_pacing_waits :: nat
  bg_background_pacing_wait_seconds :: real
  bg_monthly_budget_rejections :: nat
  bg_monthly_background_deferrals :: nat
  bg_persistence_errors :: nat
  bg_file :: usage_file

definition fresh_budget :: "usage_file \<Rightarrow> budget" where
  "fresh_budget file = \<lparr>bg_state = None, bg_dirty_requests = 0, bg_last_persist = 0,
     bg_request_times = [], bg_next_background_at = [], bg_background_pacing_waits = 0,
     bg_background_pacing_wait_seconds = 0, bg_monthly_budget_rejections = 0,
     bg_monthly_background_deferrals = 0, bg_persistence_errors = 0, bg_file = file\<rparr>"

text \<open>The clocks of one locked section and whether its file write succeeds.\<close>

record moment =
  mo_utc :: utc
  mo_time :: real \<comment> \<open>\<open>time.time()\<close>\<close>
  mo_monotonic :: real
  mo_write_ok :: bool

definition add_safety :: "int \<Rightarrow> (string, int) dict \<Rightarrow> (string, int) dict" where
  "add_safety safety d = map (\<lambda>(kind, n). (kind, if kind \<in> set KINDS \<and> n > 0 then n + safety else n)) d"

definition load_usage :: "environment \<Rightarrow> moment \<Rightarrow> budget \<Rightarrow> usage_state \<times> budget" where
  "load_usage env mo b =
     (let month = month_key (mo_utc mo) in
      case (case bg_state b of Some s \<Rightarrow> if us_month s = month then Some s else None | None \<Rightarrow> None) of
        Some s \<Rightarrow> (s, b)
      | None \<Rightarrow>
          let payload = (case bg_file b of Stored p \<Rightarrow> Some p | _ \<Rightarrow> None);
              errors = bg_persistence_errors b + (if bg_file b = Corrupt then 1 else 0);
              s0 = sanitize_usage env payload month (mo_time mo);
              s = (case payload of
                     Some p \<Rightarrow> if pl_month p = month
                       then s0\<lparr>us_providers := add_safety (restart_safety env) (us_providers s0)\<rparr> else s0
                   | None \<Rightarrow> s0)
          in (s, b\<lparr>bg_state := Some s, bg_dirty_requests := 0, bg_last_persist := mo_monotonic mo,
                   bg_persistence_errors := errors\<rparr>))"

definition persist_usage :: "environment \<Rightarrow> moment \<Rightarrow> bool \<Rightarrow> budget \<Rightarrow> budget" where
  "persist_usage env mo force b =
     (case bg_state b of
        None \<Rightarrow> b
      | Some s \<Rightarrow>
          if \<not> force \<and> bg_dirty_requests b < persist_every_requests env
               \<and> mo_monotonic mo - bg_last_persist b < persist_every_seconds env then b
          else if mo_write_ok mo then
            b\<lparr>bg_file := Stored (dump_usage s), bg_dirty_requests := 0, bg_last_persist := mo_monotonic mo\<rparr>
          else b\<lparr>bg_persistence_errors := Suc (bg_persistence_errors b)\<rparr>)"

definition combined_used :: "usage_state \<Rightarrow> int" where
  "combined_used s = sum_list (map (counted (us_providers s)) KINDS)"

definition usage :: "environment \<Rightarrow> moment \<Rightarrow> string \<Rightarrow> budget \<Rightarrow> (int \<times> int) \<times> budget" where
  "usage env mo kind b =
     (let (s, b') = load_usage env mo b in ((counted (us_providers s) kind, combined_used s), b'))"

definition monthly_remaining ::
  "environment \<Rightarrow> moment \<Rightarrow> string \<Rightarrow> budget \<Rightarrow> (int \<times> int \<times> int \<times> int) \<times> budget" where
  "monthly_remaining env mo kind b =
     (let ((provider_used, all_used), b') = usage env mo kind b;
          pl = provider_limit env kind; cl = combined_limit env
      in ((max 0 (pl - provider_used), max 0 (cl - all_used), pl, cl), b'))"

definition background_target_rps :: "environment \<Rightarrow> moment \<Rightarrow> string \<Rightarrow> budget \<Rightarrow> real \<times> budget" where
  "background_target_rps env mo kind b =
     (let ((provider_remaining, combined_remaining, pl, cl), b1) = monthly_remaining env mo kind b;
          reserve = critical_reserve_fraction env;
          (s, b2) = load_usage env mo b1;
          provider_usable = max 0 (real_of_int pl * (1 - reserve) - real_of_int (counted (us_providers s) kind));
          combined_usable = max 0 (real_of_int cl * (1 - reserve) - real_of_int (combined_used s));
          usable = min (min (real_of_int provider_remaining) (real_of_int combined_remaining))
                       (min provider_usable combined_usable)
      in (if usable \<le> 0 then 0
          else max 0 (usable / seconds_remaining_in_month (mo_utc mo) * background_share env), b2))"

definition BACKGROUND_DEFERRED :: py_error where
  "BACKGROUND_DEFERRED = RuntimeError ''robinhood provider background monthly budget deferred''"

text \<open>The locked half of \<open>_pace_background\<close>: the monotonic instant up to which the caller sleeps.\<close>

definition pace_background :: "environment \<Rightarrow> moment \<Rightarrow> string \<Rightarrow> budget \<Rightarrow> real result \<times> budget" where
  "pace_background env mo kind b =
     (let (target, b1) = background_target_rps env mo kind b in
      if target \<le> 0 then
        (Inl BACKGROUND_DEFERRED, b1\<lparr>bg_monthly_background_deferrals := Suc (bg_monthly_background_deferrals b1)\<rparr>)
      else let interval = 1 / max (1 / 100) target;
               now = mo_monotonic mo;
               scheduled_at = max now (or_default (dict_get (bg_next_background_at b1) kind) now);
               b2 = b1\<lparr>bg_next_background_at := dict_set kind (scheduled_at + interval) (bg_next_background_at b1)\<rparr>;
               delay = max 0 (scheduled_at - now)
           in (Inr scheduled_at,
               if delay > 0 then b2\<lparr>bg_background_pacing_waits := Suc (bg_background_pacing_waits b2),
                 bg_background_pacing_wait_seconds := bg_background_pacing_wait_seconds b2 + delay\<rparr> else b2))"

text \<open>One pass of the loop of \<open>_chainstack_rolling_limit\<close>: granted, or the time to sleep.\<close>

definition rolling_attempt :: "int \<Rightarrow> real \<Rightarrow> real list \<Rightarrow> real option \<times> real list" where
  "rolling_attempt limit now stamps =
     (let kept = dropWhile (\<lambda>x. x \<le> now - 1) stamps in
      if int (length kept) < limit then (None, kept @ [now])
      else (Some (min (max (1 / 1000) (hd kept + 1 - now)) (1 / 4)), kept))"

definition QUOTA_EXCEEDED :: py_error where
  "QUOTA_EXCEEDED = RuntimeError ''robinhood provider monthly quota exceeded''"

definition RESERVE_PRESERVED :: py_error where
  "RESERVE_PRESERVED = RuntimeError ''robinhood provider monthly quota exceeded; critical reserve preserved''"

definition soft_limit :: "environment \<Rightarrow> int \<Rightarrow> int" where
  "soft_limit env limit = \<lfloor>real_of_int limit * (1 - critical_reserve_fraction env)\<rfloor>"

definition bump :: "string \<Rightarrow> (string, int) dict \<Rightarrow> (string, int) dict" where
  "bump kind d = dict_set kind (counted d kind + 1) d"

definition count_request :: "string \<Rightarrow> string \<Rightarrow> real \<Rightarrow> usage_state \<Rightarrow> usage_state" where
  "count_request kind transport now s =
     (let s1 = s\<lparr>us_providers := bump kind (us_providers s), us_updated_at := now\<rparr> in
      if transport = ''ws_control'' then s1\<lparr>us_ws_control_requests := bump kind (us_ws_control_requests s1)\<rparr>
      else s1\<lparr>us_http_requests := bump kind (us_http_requests s1)\<rparr>)"

definition reserve_monthly_request ::
  "environment \<Rightarrow> moment \<Rightarrow> string \<Rightarrow> string \<Rightarrow> string \<Rightarrow> budget \<Rightarrow> py_error option \<times> budget" where
  "reserve_monthly_request env mo priority kind transport b =
     (if kind \<notin> set KINDS then (None, b)
      else let (s, b1) = load_usage env mo b;
               ((provider_used, all_used), b2) = usage env mo kind b1;
               pl = provider_limit env kind; cl = combined_limit env;
               rejected = b2\<lparr>bg_monthly_budget_rejections := Suc (bg_monthly_budget_rejections b2)\<rparr>
           in if provider_used \<ge> pl \<or> all_used \<ge> cl then (Some QUOTA_EXCEEDED, rejected)
              else if priority \<noteq> ''critical''
                   \<and> (provider_used \<ge> soft_limit env pl \<or> all_used \<ge> soft_limit env cl)
                then (Some RESERVE_PRESERVED, rejected)
              else (None, persist_usage env mo False
                (b2\<lparr>bg_state := Some (count_request kind transport (mo_time mo) s),
                    bg_dirty_requests := bg_dirty_requests b2 + 1\<rparr>)))"

subsection \<open>One request\<close>

text \<open>The provider of a URL whose host \<open>urlparse\<close> found, if any.\<close>

definition provider_kind_of_host :: "string \<Rightarrow> string option \<Rightarrow> string" where
  "provider_kind_of_host public_host hostname =
     (let host = lower (or_default hostname '''') in
      if sublist ''chainstack'' host then ''chainstack''
      else if sublist ''alchemy'' host then ''alchemy''
      else if sublist ''drpc'' host then ''drpc''
      else if host = lower public_host then ''public_rpc''
      else if host \<noteq> [] then ''private_rpc'' else ''unknown'')"

text \<open>The rolling limit under a list of clock readings, one per pass; \<open>None\<close> while it still waits.\<close>

fun rolling_limit :: "int \<Rightarrow> real list \<Rightarrow> real list \<Rightarrow> bool \<times> real list" where
  "rolling_limit limit [] stamps = (False, stamps)"
| "rolling_limit limit (now # clocks) stamps =
     (case rolling_attempt limit now stamps of
        (None, stamps') \<Rightarrow> (True, stamps')
      | (Some delay, stamps') \<Rightarrow> rolling_limit limit clocks stamps')"

definition is_background :: "string \<Rightarrow> string \<Rightarrow> string \<Rightarrow> bool" where
  "is_background priority transport rpc_method \<longleftrightarrow> priority = ''background''
     \<or> (priority = ''qualification'' \<and> transport = ''http''
        \<and> rpc_method \<in> {''eth_blockNumber'', ''eth_getLogs''})"

text \<open>\<open>_before_request\<close> of one task: pacing, the passes of the rolling limit, the reservation.
  The outcome is \<open>None\<close> while the rolling limit has not let the request through.\<close>

definition before_request ::
  "environment \<Rightarrow> moment \<Rightarrow> real list \<Rightarrow> moment \<Rightarrow> string \<Rightarrow> string \<Rightarrow> string \<Rightarrow> string \<Rightarrow> budget
     \<Rightarrow> string result option \<times> budget" where
  "before_request env mo1 clocks mo2 kind priority transport rpc_method b =
     (if kind \<notin> set KINDS then (Some (Inr kind), b)
      else let (paced, b1) = (if is_background priority transport rpc_method
             then pace_background env mo1 kind b else (Inr (mo_monotonic mo1), b))
      in case paced of
           Inl e \<Rightarrow> (Some (Inl e), b1)
         | Inr scheduled_at \<Rightarrow>
             let (passed, b2) = (if kind = ''chainstack''
                   then (let (ok, stamps) = rolling_limit (rolling_rps_limit env) clocks (bg_request_times b1)
                         in (ok, b1\<lparr>bg_request_times := stamps\<rparr>))
                   else (True, b1))
             in if \<not> passed then (None, b2)
                else (case reserve_monthly_request env mo2 priority kind transport b2 of
                    (Some e, b3) \<Rightarrow> (Some (Inl e), b3)
                  | (None, b3) \<Rightarrow> (Some (Inr kind), b3)))"

text \<open>The locked sections of many tasks interleave; a restart keeps the file only. The output
  lists the provider of every granted reservation.\<close>

datatype budget_event =
    BReserve moment string string string
  | BPace moment string
  | BRoll real
  | BRestart moment

definition restart_budget :: "environment \<Rightarrow> moment \<Rightarrow> budget \<Rightarrow> budget" where
  "restart_budget env mo b = persist_usage env mo True (snd (load_usage env mo (fresh_budget (bg_file b))))"

fun budget_step :: "environment \<Rightarrow> budget \<Rightarrow> budget_event \<Rightarrow> budget \<times> string list" where
  "budget_step env b (BReserve mo priority kind transport) =
     (case reserve_monthly_request env mo priority kind transport b of
        (Some e, b') \<Rightarrow> (b', []) | (None, b') \<Rightarrow> (b', [kind]))"
| "budget_step env b (BPace mo kind) = (snd (pace_background env mo kind b), [])"
| "budget_step env b (BRoll now) =
     (b\<lparr>bg_request_times := snd (rolling_attempt (rolling_rps_limit env) now (bg_request_times b))\<rparr>, [])"
| "budget_step env b (BRestart mo) = (restart_budget env mo b, [])"

subsection \<open>Counting\<close>

definition bucket_ok :: "(string, int) dict \<Rightarrow> bool" where
  "bucket_ok d \<longleftrightarrow> (\<exists>c a. d = [(''chainstack'', c), (''alchemy'', a)] \<and> 0 \<le> c \<and> 0 \<le> a)"

definition usage_ok :: "usage_state \<Rightarrow> bool" where
  "usage_ok s \<longleftrightarrow> bucket_ok (us_providers s) \<and> bucket_ok (us_http_requests s)
     \<and> bucket_ok (us_ws_control_requests s) \<and> bucket_ok (us_baseline_requests s)"

lemma bucket_ok_pair [simp]: "bucket_ok [(''chainstack'', c), (''alchemy'', a)] \<longleftrightarrow> 0 \<le> c \<and> 0 \<le> a"
  by (simp add: bucket_ok_def)

lemma KINDS_cases: "kind \<in> set KINDS \<longleftrightarrow> kind = ''chainstack'' \<or> kind = ''alchemy''"
  by (simp add: KINDS_def)

lemma counted_pair [simp]:
  "counted [(''chainstack'', c), (''alchemy'', a)] ''chainstack'' = c"
  "counted [(''chainstack'', c), (''alchemy'', a)] ''alchemy'' = a"
  by (simp_all add: counted_def)

lemma counted_nonneg: "bucket_ok d \<Longrightarrow> 0 \<le> counted d kind"
  by (auto simp: bucket_ok_def counted_def)

lemma baseline_nonneg: "0 \<le> counted (baseline_for_month env month) kind"
  by (auto simp: baseline_for_month_def counted_def KINDS_def split: option.splits)

lemma fresh_usage_ok [simp]: "usage_ok (fresh_usage env month now)" "us_month (fresh_usage env month now) = month"
  by (simp_all add: fresh_usage_def usage_ok_def Let_def baseline_nonneg)

lemma sanitize_count_nonneg [simp]: "0 \<le> sanitize_count n c"
  by (cases c) simp_all

lemma sanitize_bucket_ok: "bucket_ok d \<Longrightarrow> bucket_ok (sanitize_bucket source d)"
  by (cases source) (auto simp: sanitize_bucket_def bucket_ok_def)

lemma sanitize_ok [simp]:
  "usage_ok (sanitize_usage env payload month now)" "us_month (sanitize_usage env payload month now) = month"
  using fresh_usage_ok(1) [of env month now]
  by (auto simp: sanitize_usage_def Let_def usage_ok_def sanitize_bucket_ok split: option.splits)

lemma sanitize_dumped_bucket:
  "bucket_ok d \<Longrightarrow> bucket_ok e \<Longrightarrow> sanitize_bucket (stored_bucket d) e = d"
  by (auto simp: sanitize_bucket_def stored_bucket_def bucket_ok_def)

lemma sanitize_dumped:
  assumes "usage_ok s" and "us_updated_at s \<noteq> 0"
  shows "sanitize_usage env (Some (dump_usage s)) (us_month s) now = s"
  using assms fresh_usage_ok(1) [of env "us_month s" now]
  by (simp add: sanitize_usage_def dump_usage_def Let_def usage_ok_def sanitize_dumped_bucket)

lemma sanitize_dumped_providers:
  "usage_ok s \<Longrightarrow> us_providers (sanitize_usage env (Some (dump_usage s)) (us_month s) now) = us_providers s"
  using fresh_usage_ok(1) [of env "us_month s" now]
  by (simp add: sanitize_usage_def dump_usage_def Let_def usage_ok_def sanitize_dumped_bucket)

lemma add_safety_ok: "0 \<le> n \<Longrightarrow> bucket_ok d \<Longrightarrow> bucket_ok (add_safety n d)"
  by (auto simp: bucket_ok_def add_safety_def KINDS_def)

lemma counted_add_safety:
  "bucket_ok d \<Longrightarrow> kind \<in> set KINDS \<Longrightarrow>
     counted (add_safety n d) kind = (if counted d kind > 0 then counted d kind + n else counted d kind)"
  by (auto simp: bucket_ok_def add_safety_def KINDS_def)

lemma bump_ok: "bucket_ok d \<Longrightarrow> kind \<in> set KINDS \<Longrightarrow> bucket_ok (bump kind d)"
  by (auto simp: bucket_ok_def bump_def KINDS_def counted_def)

lemma counted_bump: "counted (bump kind d) k = (if k = kind then counted d kind + 1 else counted d k)"
  by (auto simp: counted_def bump_def od.get_put)

lemma combined_used_eq: "combined_used s = counted (us_providers s) ''chainstack'' + counted (us_providers s) ''alchemy''"
  by (simp add: combined_used_def KINDS_def)

lemma restart_safety_nonneg [simp]: "0 \<le> restart_safety env"
  by (simp add: restart_safety_def int_env_def)

lemma count_request_simps [simp]:
  "us_month (count_request kind transport now s) = us_month s"
  "us_providers (count_request kind transport now s) = bump kind (us_providers s)"
  by (simp_all add: count_request_def Let_def)

lemma count_request_ok: "usage_ok s \<Longrightarrow> kind \<in> set KINDS \<Longrightarrow> usage_ok (count_request kind transport now s)"
  by (simp add: count_request_def Let_def usage_ok_def bump_ok)

lemma combined_count_request:
  "kind \<in> set KINDS \<Longrightarrow> combined_used (count_request kind transport now s) = combined_used s + 1"
  by (auto simp: combined_used_eq counted_bump KINDS_cases)

subsection \<open>Loading and persisting\<close>

text \<open>The well-formed globals: counters of both providers, never negative, in memory and on file.\<close>

definition budget_ok :: "budget \<Rightarrow> bool" where
  "budget_ok b \<longleftrightarrow> (\<forall>s. bg_state b = Some s \<longrightarrow> usage_ok s)"

lemma load_same_month: "bg_state b = Some s \<Longrightarrow> us_month s = month_key (mo_utc mo) \<Longrightarrow> load_usage env mo b = (s, b)"
  by (simp add: load_usage_def Let_def)

lemma load_usage_result:
  assumes "budget_ok b" and "load_usage env mo b = (s, b')"
  shows "usage_ok s \<and> us_month s = month_key (mo_utc mo) \<and> bg_state b' = Some s
    \<and> bg_request_times b' = bg_request_times b \<and> bg_next_background_at b' = bg_next_background_at b
    \<and> bg_file b' = bg_file b \<and> load_usage env mo b' = (s, b')"
proof (cases "\<exists>s0. bg_state b = Some s0 \<and> us_month s0 = month_key (mo_utc mo)")
  case True
  with assms load_same_month [of b] show ?thesis by (auto simp: budget_ok_def)
next
  case False
  define payload where "payload = (case bg_file b of Stored p \<Rightarrow> Some p | _ \<Rightarrow> None)"
  define s0 where "s0 = sanitize_usage env payload (month_key (mo_utc mo)) (mo_time mo)"
  have "usage_ok s0" "us_month s0 = month_key (mo_utc mo)" by (simp_all add: s0_def)
  moreover have "s = (case payload of Some p \<Rightarrow> if pl_month p = month_key (mo_utc mo)
        then s0\<lparr>us_providers := add_safety (restart_safety env) (us_providers s0)\<rparr> else s0 | None \<Rightarrow> s0)"
    and b': "b' = b\<lparr>bg_state := Some s, bg_dirty_requests := 0, bg_last_persist := mo_monotonic mo,
        bg_persistence_errors := bg_persistence_errors b + (if bg_file b = Corrupt then 1 else 0)\<rparr>"
    using False assms(2)
    by (auto simp: load_usage_def Let_def payload_def [symmetric] s0_def split: option.splits if_splits)
  ultimately have "usage_ok s \<and> us_month s = month_key (mo_utc mo)"
    by (auto simp: usage_ok_def add_safety_ok split: option.splits)
  then show ?thesis using load_same_month [of b' s mo env] by (simp add: b')
qed

lemma persist_frame [simp]:
  "bg_state (persist_usage env mo force b) = bg_state b"
  "bg_request_times (persist_usage env mo force b) = bg_request_times b"
  "bg_next_background_at (persist_usage env mo force b) = bg_next_background_at b"
  by (simp_all add: persist_usage_def split: option.splits)

text \<open>What a reservation does, in terms of the usage it finds.\<close>

definition over_limit :: "environment \<Rightarrow> string \<Rightarrow> string \<Rightarrow> usage_state \<Rightarrow> py_error option" where
  "over_limit env priority kind s =
     (if counted (us_providers s) kind \<ge> provider_limit env kind \<or> combined_used s \<ge> combined_limit env
        then Some QUOTA_EXCEEDED
      else if priority \<noteq> ''critical'' \<and> (counted (us_providers s) kind \<ge> soft_limit env (provider_limit env kind)
             \<or> combined_used s \<ge> soft_limit env (combined_limit env)) then Some RESERVE_PRESERVED
      else None)"

lemma reserve_eq:
  assumes "budget_ok b" and "kind \<in> set KINDS" and "load_usage env mo b = (s, b1)"
  shows "reserve_monthly_request env mo priority kind transport b
    = (case over_limit env priority kind s of
        Some e \<Rightarrow> (Some e, b1\<lparr>bg_monthly_budget_rejections := Suc (bg_monthly_budget_rejections b1)\<rparr>)
      | None \<Rightarrow> (None, persist_usage env mo False
          (b1\<lparr>bg_state := Some (count_request kind transport (mo_time mo) s),
              bg_dirty_requests := bg_dirty_requests b1 + 1\<rparr>)))"
  using assms load_usage_result [OF assms(1,3)]
  by (simp add: reserve_monthly_request_def usage_def over_limit_def Let_def)

subsection \<open>Crashes and restarts\<close>

text \<open>In memory the usage is never behind the file, and ahead of it by less than the number of
  requests after which the file is written.\<close>

definition behind :: "int \<Rightarrow> usage_state \<Rightarrow> usage_state \<Rightarrow> bool" where
  "behind dirty p s \<longleftrightarrow> usage_ok p \<and> us_month p = us_month s
     \<and> (\<forall>k\<in>set KINDS. 1 \<le> counted (us_providers p) k
          \<and> counted (us_providers p) k \<le> counted (us_providers s) k
          \<and> counted (us_providers s) k \<le> counted (us_providers p) k + dirty)"

definition tracked_usage :: "environment \<Rightarrow> string \<Rightarrow> usage_state \<Rightarrow> budget \<Rightarrow> bool" where
  "tracked_usage env month s b \<longleftrightarrow> bg_state b = Some s \<and> us_month s = month \<and> usage_ok s
     \<and> 0 \<le> bg_dirty_requests b \<and> bg_dirty_requests b < persist_every_requests env
     \<and> (\<exists>p. bg_file b = Stored (dump_usage p) \<and> behind (bg_dirty_requests b) p s)"

fun event_moment :: "budget_event \<Rightarrow> moment option" where
  "event_moment (BReserve mo priority kind transport) = Some mo"
| "event_moment (BPace mo kind) = Some mo"
| "event_moment (BRoll now) = None"
| "event_moment (BRestart mo) = Some mo"

text \<open>Every locked section falls into the month and its file write succeeds.\<close>

definition in_month :: "string \<Rightarrow> budget_event \<Rightarrow> bool" where
  "in_month month e \<longleftrightarrow> (\<forall>mo. event_moment e = Some mo \<longrightarrow> month_key (mo_utc mo) = month \<and> mo_write_ok mo)"

lemma persist_every_pos [simp]: "1 \<le> persist_every_requests env" "0 < persist_every_requests env"
  by (simp_all add: persist_every_requests_def int_env_def)

lemma tracked_load:
  "tracked_usage env month s b \<Longrightarrow> month_key (mo_utc mo) = month \<Longrightarrow> load_usage env mo b = (s, b)"
  by (rule load_same_month) (auto simp: tracked_usage_def)

lemma tracked_budget_ok: "tracked_usage env month s b \<Longrightarrow> budget_ok b"
  by (simp add: tracked_usage_def budget_ok_def)

lemma behind_self: "usage_ok s \<Longrightarrow> \<forall>k\<in>set KINDS. 1 \<le> counted (us_providers s) k \<Longrightarrow> behind 0 s s"
  by (simp add: behind_def)

lemma behind_positive: "behind d p s \<Longrightarrow> \<forall>k\<in>set KINDS. 1 \<le> counted (us_providers s) k"
  by (force simp: behind_def)

lemma behind_bump:
  assumes "behind d p s" and "us_month s' = us_month s" and "us_providers s' = bump kind (us_providers s)"
  shows "behind (d + 1) p s'"
proof -
  have "counted (us_providers s') k \<le> counted (us_providers s) k + 1"
    and "counted (us_providers s) k \<le> counted (us_providers s') k" for k
    using assms(3) by (simp_all add: counted_bump)
  then have "1 \<le> counted (us_providers p) k \<and> counted (us_providers p) k \<le> counted (us_providers s') k
      \<and> counted (us_providers s') k \<le> counted (us_providers p) k + (d + 1)" if "k \<in> set KINDS" for k
    using assms(1) that unfolding behind_def by smt
  with assms(1,2) show ?thesis by (simp add: behind_def)
qed

lemma persist_cases:
  assumes "bg_state b = Some s" and "mo_write_ok mo"
  obtains (skipped) "persist_usage env mo False b = b" "bg_dirty_requests b < persist_every_requests env"
  | (written) "persist_usage env mo False b = b\<lparr>bg_file := Stored (dump_usage s), bg_dirty_requests := 0,
        bg_last_persist := mo_monotonic mo\<rparr>"
proof (cases "bg_dirty_requests b < persist_every_requests env
      \<and> mo_monotonic mo - bg_last_persist b < persist_every_seconds env")
  case True
  with assms(1) show thesis by (intro skipped) (simp_all add: persist_usage_def)
next
  case False
  with assms show thesis by (intro written) (auto simp: persist_usage_def)
qed

lemma tracked_grant:
  assumes tr: "tracked_usage env month s b" and mo: "mo_write_ok mo" and k: "kind \<in> set KINDS"
    and s': "s' = count_request kind transport now s"
  shows "tracked_usage env month s'
    (persist_usage env mo False (b\<lparr>bg_state := Some s', bg_dirty_requests := bg_dirty_requests b + 1\<rparr>))"
proof -
  let ?b = "b\<lparr>bg_state := Some s', bg_dirty_requests := bg_dirty_requests b + 1\<rparr>"
  have ok: "usage_ok s'" and m: "us_month s' = month" using tr k by (simp_all add: tracked_usage_def s' count_request_ok)
  obtain p where p: "bg_file b = Stored (dump_usage p)" "behind (bg_dirty_requests b) p s"
    using tr by (auto simp: tracked_usage_def)
  have next_p: "behind (bg_dirty_requests b + 1) p s'" by (rule behind_bump [OF p(2)]) (simp_all add: s')
  have "bg_state ?b = Some s'" by simp
  then show ?thesis
  proof (rule persist_cases [OF _ mo, of _ _ env], goal_cases)
    case 1
    with tr p(1) ok m next_p show ?thesis by (auto simp: tracked_usage_def)
  next
    case 2
    with ok m behind_self [OF ok behind_positive [OF next_p]] show ?thesis
      by (auto simp: tracked_usage_def)
  qed
qed

text \<open>A restart whose margin covers the unwritten requests never counts less than before.\<close>

lemma tracked_restart:
  assumes tr: "tracked_usage env month s b" and mo: "month_key (mo_utc mo) = month" "mo_write_ok mo"
    and safety: "persist_every_requests env \<le> restart_safety env + 1"
  shows "\<exists>s'. tracked_usage env month s' (restart_budget env mo b)
    \<and> (\<forall>k\<in>set KINDS. counted (us_providers s) k \<le> counted (us_providers s') k)"
proof -
  obtain p where p: "bg_file b = Stored (dump_usage p)" "behind (bg_dirty_requests b) p s"
    using tr by (auto simp: tracked_usage_def)
  have month: "us_month p = month" and okp: "usage_ok p" using p(2) tr by (auto simp: behind_def tracked_usage_def)
  obtain s' b1 where load: "load_usage env mo (fresh_budget (bg_file b)) = (s', b1)" by fastforce
  have fresh: "budget_ok (fresh_budget (bg_file b))" by (simp add: budget_ok_def fresh_budget_def)
  note loaded = load_usage_result [OF fresh load]
  have dirty: "bg_dirty_requests b \<le> restart_safety env" using tr safety by (simp add: tracked_usage_def)
  define s0 where "s0 = sanitize_usage env (Some (dump_usage p)) month (mo_time mo)"
  have "us_providers s0 = us_providers p"
    using sanitize_dumped_providers [OF okp, of env "mo_time mo"] month by (simp add: s0_def)
  moreover have "s' = s0\<lparr>us_providers := add_safety (restart_safety env) (us_providers s0)\<rparr>"
    using load p(1) mo(1) month
    by (simp add: load_usage_def fresh_budget_def Let_def s0_def dump_usage_def)
  ultimately have providers: "us_providers s' = add_safety (restart_safety env) (us_providers p)" by simp
  have "counted (us_providers s) k \<le> counted (us_providers s') k \<and> 1 \<le> counted (us_providers s') k"
    if "k \<in> set KINDS" for k
    using that p(2) okp dirty by (force simp: behind_def usage_ok_def providers counted_add_safety)
  moreover from this have "behind 0 s' s'" using loaded by (intro behind_self) auto
  ultimately show ?thesis using loaded load mo
    by (intro exI [of _ s']) (auto simp: restart_budget_def tracked_usage_def persist_usage_def)
qed

lemma target_loaded:
  assumes "load_usage env mo b = (s, b)"
  shows "snd (background_target_rps env mo kind b) = b"
  using assms by (simp add: background_target_rps_def monthly_remaining_def usage_def Let_def)

lemma pace_frame:
  assumes "load_usage env mo b = (s, b)"
  shows "bg_state (snd (pace_background env mo kind b)) = bg_state b
    \<and> bg_file (snd (pace_background env mo kind b)) = bg_file b
    \<and> bg_dirty_requests (snd (pace_background env mo kind b)) = bg_dirty_requests b
    \<and> bg_request_times (snd (pace_background env mo kind b)) = bg_request_times b"
proof -
  obtain r where "background_target_rps env mo kind b = (r, b)"
    using target_loaded [OF assms, of kind] by (metis prod.collapse)
  then show ?thesis by (simp add: pace_background_def Let_def)
qed

lemma tracked_cong:
  "bg_state b' = bg_state b \<Longrightarrow> bg_file b' = bg_file b \<Longrightarrow> bg_dirty_requests b' = bg_dirty_requests b
     \<Longrightarrow> tracked_usage env month s b \<Longrightarrow> tracked_usage env month s b'"
  by (simp add: tracked_usage_def)

text \<open>One locked section: the usage grows by the granted request at least, and a request is
  granted only below the limits.\<close>

definition grants_of :: "string \<Rightarrow> string list \<Rightarrow> int" where
  "grants_of k outs = int (length (filter (\<lambda>x. x = k) outs))"

lemma grants_of_simps [simp]:
  "grants_of k [] = 0" "grants_of k (x # xs) = (if x = k then 1 else 0) + grants_of k xs"
  "grants_of k (xs @ ys) = grants_of k xs + grants_of k ys"
  by (simp_all add: grants_of_def)

lemma budget_step_tracked:
  assumes tr: "tracked_usage env month s b" and e: "in_month month e"
    and safety: "persist_every_requests env \<le> restart_safety env + 1"
    and step: "budget_step env b e = (b', outs)"
  shows "\<exists>s'. tracked_usage env month s' b'
    \<and> (\<forall>k\<in>set KINDS. counted (us_providers s) k + grants_of k outs \<le> counted (us_providers s') k
         \<and> 0 \<le> grants_of k outs
         \<and> grants_of k outs \<le> max 0 (provider_limit env k - counted (us_providers s) k))
    \<and> grants_of ''chainstack'' outs + grants_of ''alchemy'' outs \<le> max 0 (combined_limit env - combined_used s)"
proof (cases e)
  case (BReserve mo priority kind transport)
  have mo: "month_key (mo_utc mo) = month" "mo_write_ok mo" using e BReserve by (auto simp: in_month_def)
  note load = tracked_load [OF tr mo(1)]
  show ?thesis
  proof (cases "kind \<in> set KINDS")
    case False
    with step BReserve tr show ?thesis
      by (intro exI [of _ s]) (auto simp: reserve_monthly_request_def KINDS_def)
  next
    case kind: True
    note res = reserve_eq [OF tracked_budget_ok [OF tr] kind load, of priority transport]
    show ?thesis
    proof (cases "over_limit env priority kind s")
      case None
      define s' where "s' = count_request kind transport (mo_time mo) s"
      have "tracked_usage env month s' b'" and outs: "outs = [kind]"
        using tracked_grant [OF tr mo(2) kind s'_def] step BReserve res None
        by (simp_all add: s'_def)
      moreover have "counted (us_providers s) kind < provider_limit env kind" "combined_used s < combined_limit env"
        using None by (auto simp: over_limit_def split: if_splits)
      ultimately show ?thesis using kind
        by (intro exI [of _ s']) (auto simp: s'_def counted_bump KINDS_cases)
    next
      case (Some err)
      with step BReserve res tr show ?thesis
        by (intro exI [of _ s]) (auto intro: tracked_cong [of _ b])
    qed
  qed
next
  case (BPace mo kind)
  have "month_key (mo_utc mo) = month" using e BPace by (auto simp: in_month_def)
  with step BPace pace_frame [OF tracked_load [OF tr this], of kind] tr show ?thesis
    by (intro exI [of _ s]) (auto intro: tracked_cong [of _ b])
next
  case (BRoll now)
  with step tr show ?thesis by (intro exI [of _ s]) (auto intro: tracked_cong [of _ b])
next
  case (BRestart mo)
  have "month_key (mo_utc mo) = month" "mo_write_ok mo" using e BRestart by (auto simp: in_month_def)
  with tracked_restart [OF tr _ _ safety, of mo] step BRestart show ?thesis by auto
qed

lemma remaining_split:
  "0 \<le> g \<Longrightarrow> g \<le> max 0 (l - c) \<Longrightarrow> c + g \<le> c1 \<Longrightarrow> r \<le> max 0 (l - c1) \<Longrightarrow> g + r \<le> max 0 (l - c)"
  for g :: int
  by (auto simp: max_def split: if_splits)

lemma budget_run_tracked:
  assumes safety: "persist_every_requests env \<le> restart_safety env + 1"
  shows "tracked_usage env month s b \<Longrightarrow> list_all (in_month month) events \<Longrightarrow>
    (\<forall>k\<in>set KINDS. grants_of k (snd (run_machine (budget_step env) b events))
        \<le> max 0 (provider_limit env k - counted (us_providers s) k))
    \<and> grants_of ''chainstack'' (snd (run_machine (budget_step env) b events))
        + grants_of ''alchemy'' (snd (run_machine (budget_step env) b events))
      \<le> max 0 (combined_limit env - combined_used s)"
proof (induction events arbitrary: b s)
  case (Cons e es)
  obtain b1 outs where step: "budget_step env b e = (b1, outs)" by fastforce
  obtain rest where rest: "snd (run_machine (budget_step env) b1 es) = rest" by blast
  from budget_step_tracked [OF Cons.prems(1) _ safety step] Cons.prems(2)
  obtain s1 where s1: "tracked_usage env month s1 b1"
    "\<forall>k\<in>set KINDS. counted (us_providers s) k + grants_of k outs \<le> counted (us_providers s1) k
       \<and> 0 \<le> grants_of k outs
       \<and> grants_of k outs \<le> max 0 (provider_limit env k - counted (us_providers s) k)"
    "grants_of ''chainstack'' outs + grants_of ''alchemy'' outs \<le> max 0 (combined_limit env - combined_used s)"
    by auto
  have ih: "\<forall>k\<in>set KINDS. grants_of k rest \<le> max 0 (provider_limit env k - counted (us_providers s1) k)"
    "grants_of ''chainstack'' rest + grants_of ''alchemy'' rest \<le> max 0 (combined_limit env - combined_used s1)"
    using Cons.IH [OF s1(1)] Cons.prems(2) rest by auto
  have "snd (run_machine (budget_step env) b (e # es)) = outs @ rest"
    using step rest by (simp add: split_beta Let_def)
  moreover have "grants_of k (outs @ rest) \<le> max 0 (provider_limit env k - counted (us_providers s) k)"
    if "k \<in> set KINDS" for k
    using that s1(2) ih(1)
      remaining_split [of "grants_of k outs" "provider_limit env k" "counted (us_providers s) k"
        "counted (us_providers s1) k" "grants_of k rest"] by simp
  moreover have "grants_of ''chainstack'' (outs @ rest) + grants_of ''alchemy'' (outs @ rest)
      \<le> max 0 (combined_limit env - combined_used s)"
  proof -
    have "combined_used s + (grants_of ''chainstack'' outs + grants_of ''alchemy'' outs) \<le> combined_used s1"
      "0 \<le> grants_of ''chainstack'' outs + grants_of ''alchemy'' outs"
      using s1(2) by (auto simp: combined_used_eq KINDS_def)
    from remaining_split [OF this(2) s1(3) this(1) ih(2)] show ?thesis by (simp add: add_ac)
  qed
  ultimately show ?case by simp
qed simp

subsection \<open>The rolling window\<close>

text \<open>The instants at which passes of the loop let a request through, over any interleaving of tasks.\<close>

fun rolling_grants :: "int \<Rightarrow> real list \<Rightarrow> real list \<Rightarrow> real list" where
  "rolling_grants limit [] stamps = []"
| "rolling_grants limit (now # clocks) stamps =
     (case rolling_attempt limit now stamps of
        (None, stamps') \<Rightarrow> now # rolling_grants limit clocks stamps'
      | (Some delay, stamps') \<Rightarrow> rolling_grants limit clocks stamps')"

definition window_count :: "real \<Rightarrow> real list \<Rightarrow> int" where
  "window_count t xs = int (length (filter (\<lambda>x. t - 1 < x \<and> x \<le> t) xs))"

lemma dropWhile_sorted_filter:
  "sorted xs \<Longrightarrow> dropWhile (\<lambda>x. x \<le> c) xs = filter (\<lambda>x. c < x) xs" for c :: real
proof (induction xs)
  case (Cons x xs)
  show ?case
  proof (cases "x \<le> c")
    case True
    with Cons show ?thesis by simp
  next
    case False
    with Cons.prems have "\<forall>y\<in>set (x # xs). c < y" by auto
    then have "filter (\<lambda>x. c < x) (x # xs) = x # xs" by (intro filter_True) simp
    with False show ?thesis by simp
  qed
qed simp

lemma length_filter_le_filter:
  "(\<And>x. P x \<Longrightarrow> Q x) \<Longrightarrow> length (filter P xs) \<le> length (filter Q xs)"
  by (induction xs) auto

text \<open>\<open>h\<close> is the history of granted instants; the deque holds its recent part.\<close>

lemma rolling_window:
  assumes "1 \<le> limit" and "sorted clocks" and "\<forall>x\<in>set clocks. last_now \<le> x"
    and "sorted h" and "\<forall>x\<in>set h. x \<le> last_now"
    and "stamps = filter (\<lambda>x. last_now - 1 < x) h" and "\<forall>t. window_count t h \<le> limit"
  shows "\<forall>t. window_count t (h @ rolling_grants limit clocks stamps) \<le> limit"
  using assms(2-7)
proof (induction clocks arbitrary: last_now h stamps)
  case (Cons now clocks)
  have le: "last_now \<le> now" using Cons.prems(2) by simp
  have kept: "dropWhile (\<lambda>x. x \<le> now - 1) stamps = filter (\<lambda>x. now - 1 < x) h"
  proof -
    have "sorted stamps" using Cons.prems(3,5) by (simp add: sorted_wrt_filter)
    then have "dropWhile (\<lambda>x. x \<le> now - 1) stamps = filter (\<lambda>x. now - 1 < x) stamps"
      by (rule dropWhile_sorted_filter)
    also have "\<dots> = filter (\<lambda>x. now - 1 < x) h"
      using le by (auto simp: Cons.prems(5) intro: filter_cong)
    finally show ?thesis .
  qed
  have rest: "sorted clocks" "\<forall>x\<in>set clocks. now \<le> x" using Cons.prems(1) by auto
  show ?case
  proof (cases "int (length (filter (\<lambda>x. now - 1 < x) h)) < limit")
    case True
    let ?h = "h @ [now]"
    have "sorted ?h" "\<forall>x\<in>set ?h. x \<le> now" using Cons.prems(3,4) le by (auto simp: sorted_append)
    moreover have "filter (\<lambda>x. now - 1 < x) h @ [now] = filter (\<lambda>x. now - 1 < x) ?h" by simp
    moreover have "window_count t ?h \<le> limit" for t
    proof (cases "t - 1 < now \<and> now \<le> t")
      case False
      then have "filter (\<lambda>x. t - 1 < x \<and> x \<le> t) [now] = []" by auto
      with Cons.prems(6) show ?thesis by (simp add: window_count_def)
    next
      case inside: True
      have "length (filter (\<lambda>x. t - 1 < x \<and> x \<le> t) h) \<le> length (filter (\<lambda>x. now - 1 < x) h)"
        using inside by (intro length_filter_le_filter) simp
      with True inside show ?thesis by (simp add: window_count_def)
    qed
    ultimately have "\<forall>t. window_count t (?h @ rolling_grants limit clocks (filter (\<lambda>x. now - 1 < x) h @ [now])) \<le> limit"
      by (intro Cons.IH [OF rest]) auto
    with True show ?thesis by (simp add: rolling_attempt_def Let_def kept)
  next
    case False
    have "\<forall>t. window_count t (h @ rolling_grants limit clocks (filter (\<lambda>x. now - 1 < x) h)) \<le> limit"
      using Cons.prems(3-6) le by (intro Cons.IH [OF rest]) auto
    with False show ?thesis by (simp add: rolling_attempt_def Let_def kept)
  qed
qed simp

lemma rolling_limit_pos [simp]: "1 \<le> rolling_rps_limit env"
  by (simp add: rolling_rps_limit_def int_env_def)

lemma rolling_attempt_free:
  assumes "1 \<le> limit" and "\<forall>x\<in>set stamps. x \<le> now - 1"
  shows "fst (rolling_attempt limit now stamps) = None"
proof -
  have "dropWhile (\<lambda>x. x \<le> now - 1) stamps = []" using assms(2) by (simp add: dropWhile_eq_Nil_conv)
  then have "rolling_attempt limit now stamps = (if int (length ([] :: real list)) < limit then (None, [] @ [now])
      else (Some (min (max (1 / 1000) (hd ([] :: real list) + 1 - now)) (1 / 4)), []))"
    by (simp only: rolling_attempt_def Let_def)
  with assms(1) show ?thesis by simp
qed

lemma rolling_attempt_subset:
  "fst (rolling_attempt limit now stamps) \<noteq> None \<Longrightarrow>
     set (snd (rolling_attempt limit now stamps)) \<subseteq> set stamps"
  by (auto simp: rolling_attempt_def Let_def dest: set_dropWhileD split: if_splits)

subsection \<open>Pacing\<close>

definition scheduled_after :: "string \<Rightarrow> real \<Rightarrow> budget \<Rightarrow> bool" where
  "scheduled_after kind t b \<longleftrightarrow> (\<exists>n. dict_get (bg_next_background_at b) kind = Some n \<and> t \<le> n)"

lemma load_next [simp]:
  "bg_next_background_at (snd (load_usage env mo b)) = bg_next_background_at b"
  by (simp add: load_usage_def Let_def split: option.splits)

lemma target_next:
  "bg_next_background_at (snd (background_target_rps env mo kind b)) = bg_next_background_at b"
  by (simp add: background_target_rps_def monthly_remaining_def usage_def split_beta Let_def)

lemma pace_result:
  assumes "pace_background env mo kind b = (Inr t, b')"
  shows "\<exists>target>0. fst (background_target_rps env mo kind b) = target
    \<and> t = max (mo_monotonic mo) (or_default (dict_get (bg_next_background_at b) kind) (mo_monotonic mo))
    \<and> bg_next_background_at b' = dict_set kind (t + 1 / max (1 / 100) target) (bg_next_background_at b)"
  using assms target_next [of env mo kind b]
  by (auto simp: pace_background_def Let_def not_le split: prod.splits if_splits)

lemma pace_next_mono:
  assumes "scheduled_after k t b"
  shows "scheduled_after k t (snd (pace_background env mo kind b))"
proof (cases "fst (pace_background env mo kind b)")
  case (Inl e)
  then have "bg_next_background_at (snd (pace_background env mo kind b)) = bg_next_background_at b"
    using target_next [of env mo kind b]
    by (auto simp: pace_background_def Let_def split: prod.splits if_splits)
  with assms show ?thesis by (simp add: scheduled_after_def)
next
  case (Inr u)
  then obtain b' where run: "pace_background env mo kind b = (Inr u, b')" by (metis prod.collapse)
  then obtain target where r: "0 < target" "u = max (mo_monotonic mo) (or_default (dict_get (bg_next_background_at b) kind) (mo_monotonic mo))"
    "bg_next_background_at b' = dict_set kind (u + 1 / max (1 / 100) target) (bg_next_background_at b)"
    using pace_result by blast
  define interval where "interval = 1 / max (1 / 100) target"
  have "0 \<le> interval" by (simp add: interval_def)
  with r assms run show ?thesis
    unfolding interval_def [symmetric] by (auto simp: scheduled_after_def od.get_put)
qed

lemma reserve_next:
  "bg_next_background_at (snd (reserve_monthly_request env mo priority kind transport b)) = bg_next_background_at b"
  by (auto simp: reserve_monthly_request_def usage_def split_beta Let_def)

lemma step_next_mono:
  assumes "scheduled_after k t b" and "\<forall>mo. e \<noteq> BRestart mo"
  shows "scheduled_after k t (fst (budget_step env b e))"
proof (cases e)
  case (BReserve mo priority kind transport)
  with assms(1) reserve_next [of env mo priority kind transport b] show ?thesis
    by (auto simp: scheduled_after_def split: prod.splits option.splits)
qed (use assms pace_next_mono in \<open>auto simp: scheduled_after_def\<close>)

lemma run_next_mono:
  "scheduled_after k t b \<Longrightarrow> \<forall>mo. BRestart mo \<notin> set events \<Longrightarrow>
     scheduled_after k t (fst (run_machine (budget_step env) b events))"
proof (induction events arbitrary: b)
  case (Cons e es)
  then have "scheduled_after k t (fst (budget_step env b e))" by (intro step_next_mono) auto
  with Cons show ?case by (simp add: split_beta Let_def)
qed simp

subsection \<open>Properties\<close>

text \<open>C15. The monthly budget holds across crashes. Take a process that starts with a known usage
  of at least one request per provider in the month, and let any tasks reserve, pace and wait
  and any restarts happen in any order within that month, with a restart margin that covers
  the requests not yet written and file writes that succeed: the reservations granted to a
  provider never exceed what its limit had left, and all of them together never exceed what
  the combined limit had left.\<close>

theorem monthly_budget_survives_restarts:
  assumes "b = restart_budget env mo (fresh_budget file)" and "bg_state b = Some s"
    and "\<forall>k\<in>set KINDS. 1 \<le> counted (us_providers s) k" and "mo_write_ok mo"
    and "persist_every_requests env \<le> restart_safety env + 1"
    and "list_all (in_month (month_key (mo_utc mo))) events"
    and "outs = snd (run_machine (budget_step env) b events)"
  shows "(\<forall>k\<in>set KINDS. grants_of k outs \<le> max 0 (provider_limit env k - counted (us_providers s) k))
    \<and> grants_of ''chainstack'' outs + grants_of ''alchemy'' outs \<le> max 0 (combined_limit env - combined_used s)"
proof -
  obtain s1 b1 where load: "load_usage env mo (fresh_budget file) = (s1, b1)" by fastforce
  have "budget_ok (fresh_budget file)" by (simp add: budget_ok_def fresh_budget_def)
  note loaded = load_usage_result [OF this load]
  have b: "b = persist_usage env mo True b1" using assms(1) load by (simp add: restart_budget_def fresh_budget_def)
  then have "s1 = s" using loaded assms(2) by simp
  with loaded b assms(3,4) have "tracked_usage env (month_key (mo_utc mo)) s b"
    by (auto simp: tracked_usage_def persist_usage_def behind_self)
  from budget_run_tracked [OF assms(5) this assms(6)] assms(7) show ?thesis by simp
qed

text \<open>A single reservation counts one request and only one: it is granted exactly when the
  provider and the two providers together are below their limits, and, for a request that is
  not critical, below the limits less the critical reserve. A refused reservation leaves the
  usage as it was, a granted one stays within the limit it was checked against.\<close>

theorem reservation_preserves_critical_reserve:
  assumes "budget_ok b" and "kind \<in> set KINDS" and "load_usage env mo b = (s, b1)"
    and "reserve_monthly_request env mo priority kind transport b = (x, b')"
  shows "case x of
      Some e \<Rightarrow> bg_state b' = Some s \<and> e \<in> {QUOTA_EXCEEDED, RESERVE_PRESERVED}
        \<and> (e = RESERVE_PRESERVED \<longrightarrow> priority \<noteq> ''critical'')
    | None \<Rightarrow> (\<exists>s'. bg_state b' = Some s' \<and> counted (us_providers s') kind = counted (us_providers s) kind + 1
        \<and> combined_used s' = combined_used s + 1
        \<and> counted (us_providers s') kind \<le> provider_limit env kind \<and> combined_used s' \<le> combined_limit env
        \<and> (priority \<noteq> ''critical'' \<longrightarrow> counted (us_providers s') kind \<le> soft_limit env (provider_limit env kind)
             \<and> combined_used s' \<le> soft_limit env (combined_limit env)))"
proof (cases "over_limit env priority kind s")
  case None
  then have "x = None" "bg_state b' = Some (count_request kind transport (mo_time mo) s)"
    using assms(4) reserve_eq [OF assms(1-3), of priority transport] by auto
  with None assms(2) show ?thesis
    by (auto simp: over_limit_def counted_bump combined_count_request split: if_splits)
next
  case (Some e)
  then have "x = Some e" "bg_state b' = Some s"
    using assms(4) reserve_eq [OF assms(1-3), of priority transport] load_usage_result [OF assms(1,3)] by auto
  with Some show ?thesis
    by (auto simp: over_limit_def QUOTA_EXCEEDED_def RESERVE_PRESERVED_def split: if_splits)
qed

text \<open>The rolling limit is a true sliding window: however many tasks retry, at clock readings
  that never go back, at most \<open>limit\<close> requests are let through in any window of one second,
  wherever the window lies.\<close>

theorem rolling_limit_slides:
  assumes "sorted clocks"
  shows "window_count t (rolling_grants (rolling_rps_limit env) clocks []) \<le> rolling_rps_limit env"
proof (cases clocks)
  case Nil
  have "0 \<le> rolling_rps_limit env" using rolling_limit_pos [of env] by linarith
  with Nil show ?thesis by (simp add: window_count_def)
next
  case (Cons c cs)
  have pos: "0 \<le> rolling_rps_limit env" using rolling_limit_pos [of env] by linarith
  have "\<forall>t. window_count t ([] @ rolling_grants (rolling_rps_limit env) clocks []) \<le> rolling_rps_limit env"
    by (rule rolling_window [of _ _ c]) (use assms Cons pos in \<open>auto simp: window_count_def\<close>)
  then show ?thesis by simp
qed

text \<open>C39. The rolling limit is never stuck: the loop of a task returns at the latest at its first
  pass that is one second after everything the window holds.\<close>

theorem rolling_limit_returns:
  assumes "1 \<le> limit" and "now \<in> set clocks" and "\<forall>x\<in>set stamps. x \<le> now - 1"
  shows "fst (rolling_limit limit clocks stamps)"
  using assms(2,3)
proof (induction clocks arbitrary: stamps)
  case (Cons c clocks)
  obtain r stamps' where step: "rolling_attempt limit c stamps = (r, stamps')" by fastforce
  show ?case
  proof (cases r)
    case None
    with step show ?thesis by simp
  next
    case (Some delay)
    have "set stamps' \<subseteq> set stamps" using rolling_attempt_subset [of limit c stamps] step Some by simp
    moreover have "now \<in> set clocks"
      using Cons.prems rolling_attempt_free [OF assms(1), of stamps c] step Some by auto
    ultimately have "fst (rolling_limit limit clocks stamps')" using Cons.IH [of stamps'] Cons.prems(2) by blast
    with step Some show ?thesis by simp
  qed
qed simp

text \<open>Background requests of one provider are spaced: after a background request was given the
  slot \<open>t\<close> at the target rate \<open>r\<close>, whatever other tasks do meanwhile, the next one gets a slot no
  earlier than \<open>t\<close> plus one over the rate (a rate below one in a hundred seconds counts as that).\<close>

theorem background_slots_are_spaced:
  assumes "pace_background env mo kind b = (Inr t, b1)" and "r = fst (background_target_rps env mo kind b)"
    and "\<forall>m. BRestart m \<notin> set events" and "b2 = fst (run_machine (budget_step env) b1 events)"
    and "pace_background env mo' kind b2 = (Inr t', b3)"
  shows "0 < r \<and> t + 1 / max (1 / 100) r \<le> t'"
proof -
  have r: "0 < r" "bg_next_background_at b1 = dict_set kind (t + 1 / max (1 / 100) r) (bg_next_background_at b)"
    using pace_result [OF assms(1)] assms(2) by auto
  then have "scheduled_after kind (t + 1 / max (1 / 100) r) b1" by (simp add: scheduled_after_def)
  then have "scheduled_after kind (t + 1 / max (1 / 100) r) b2"
    using run_next_mono assms(3,4) by blast
  with pace_result [OF assms(5)] r(1) show ?thesis by (auto simp: scheduled_after_def)
qed

text \<open>The usage file round trips: reading back a written state of the same month gives the state
  itself, counter for counter, and whatever the file holds, the state read from it has the
  asked month and counters that are not negative.\<close>

theorem usage_file_round_trip:
  assumes "usage_ok s" and "us_updated_at s \<noteq> 0"
  shows "sanitize_usage env (Some (dump_usage s)) (us_month s) now = s
    \<and> usage_ok (sanitize_usage env payload month now) \<and> us_month (sanitize_usage env payload month now) = month"
  using sanitize_dumped [OF assms] by simp

text \<open>A provider whose file shows no request gets no margin: requests that were granted but not
  written when the process died are forgotten.\<close>

theorem restart_forgets_first_requests:
  assumes "bg_file b = Stored (dump_usage p)" and "usage_ok p" and "us_month p = month_key (mo_utc mo)"
    and "kind \<in> set KINDS" and "counted (us_providers p) kind = 0"
  shows "\<exists>s. bg_state (restart_budget env mo b) = Some s \<and> counted (us_providers s) kind = 0"
proof -
  have "us_providers (sanitize_usage env (Some (dump_usage p)) (month_key (mo_utc mo)) (mo_time mo)) = us_providers p"
    using sanitize_dumped_providers [OF assms(2), of env "mo_time mo"] assms(3) by simp
  then show ?thesis using assms
    by (simp add: restart_budget_def load_usage_def fresh_budget_def Let_def dump_usage_def counted_add_safety usage_ok_def)
qed

subsection \<open>Witnesses\<close>

definition demo_environment :: environment where
  "demo_environment = \<lparr>env_int = Map.empty, env_float = Map.empty,
     env_baseline = (\<lambda>month. Some (\<lambda>kind. Some 5))\<rparr>"

definition demo_moment :: moment where
  "demo_moment = \<lparr>mo_utc = \<lparr>ut_year = 2025, ut_month = 11, ut_day = 30, ut_second = 0\<rparr>,
     mo_time = 1, mo_monotonic = 0, mo_write_ok = True\<rparr>"

definition demo_usage :: usage_state where
  "demo_usage = fresh_usage demo_environment (month_key (mo_utc demo_moment)) 1"

definition demo_budget :: budget where
  "demo_budget = restart_budget demo_environment demo_moment (fresh_budget Absent)"

lemma demo_providers [simp]: "us_providers demo_usage = [(''chainstack'', 5), (''alchemy'', 5)]"
  by (simp add: demo_usage_def fresh_usage_def baseline_for_month_def demo_environment_def KINDS_def counted_def Let_def)

lemma demo_limits [simp]:
  "provider_limit demo_environment ''chainstack'' = 3000000" "combined_limit demo_environment = 6000000"
  "persist_every_requests demo_environment = 50" "restart_safety demo_environment = 100"
  "rolling_rps_limit demo_environment = 20" "critical_reserve_fraction demo_environment = 1 / 10"
  "background_share demo_environment = 65 / 100"
  by (simp_all add: provider_limit_def combined_limit_def persist_every_requests_def restart_safety_def
      rolling_rps_limit_def critical_reserve_fraction_def background_share_def int_env_def float_env_def
      demo_environment_def)

lemma demo_budget_state [simp]: "bg_state demo_budget = Some demo_usage"
  by (simp add: demo_budget_def restart_budget_def load_usage_def fresh_budget_def Let_def demo_usage_def
      sanitize_usage_def demo_moment_def)

lemma demo_load [simp]: "load_usage demo_environment demo_moment demo_budget = (demo_usage, demo_budget)"
  by (rule load_same_month) (simp_all add: demo_usage_def)

lemma demo_budget_ok [simp]: "budget_ok demo_budget"
  by (simp add: budget_ok_def demo_usage_def)

theorem monthly_budget_survives_restarts_witness:
  "grants_of ''chainstack'' (snd (run_machine (budget_step demo_environment) demo_budget
     [BReserve demo_moment ''critical'' ''chainstack'' ''http'', BRestart demo_moment])) \<le> 2999995"
proof -
  have "\<forall>k\<in>set KINDS. grants_of k (snd (run_machine (budget_step demo_environment) demo_budget
      [BReserve demo_moment ''critical'' ''chainstack'' ''http'', BRestart demo_moment]))
    \<le> max 0 (provider_limit demo_environment k - counted (us_providers demo_usage) k)"
    by (rule conjunct1 [OF monthly_budget_survives_restarts [OF demo_budget_def demo_budget_state _ _ _ _ refl]])
      (simp_all add: KINDS_def in_month_def demo_moment_def)
  then have "grants_of ''chainstack'' (snd (run_machine (budget_step demo_environment) demo_budget
      [BReserve demo_moment ''critical'' ''chainstack'' ''http'', BRestart demo_moment]))
    \<le> max 0 (provider_limit demo_environment ''chainstack'' - counted (us_providers demo_usage) ''chainstack'')"
    by (simp only: KINDS_def list.set) blast
  then show ?thesis by simp
qed

theorem reservation_preserves_critical_reserve_witness:
  "\<exists>s'. bg_state (snd (reserve_monthly_request demo_environment demo_moment ''background'' ''chainstack'' ''http'' demo_budget))
     = Some s' \<and> counted (us_providers s') ''chainstack'' = 6"
proof -
  obtain x b' where run: "reserve_monthly_request demo_environment demo_moment ''background'' ''chainstack'' ''http'' demo_budget = (x, b')"
    by fastforce
  have "over_limit demo_environment ''background'' ''chainstack'' demo_usage = None"
    by (simp add: over_limit_def combined_used_eq soft_limit_def)
  then have "x = None" using run reserve_eq [OF demo_budget_ok _ demo_load, of "''chainstack''"] by (simp add: KINDS_def)
  then show ?thesis
    using reservation_preserves_critical_reserve [OF demo_budget_ok _ demo_load run] run by (auto simp: KINDS_def)
qed

theorem rolling_limit_slides_witness:
  "window_count 1 (rolling_grants (rolling_rps_limit demo_environment) [0, 1 / 2, 1] []) \<le> 20"
  using rolling_limit_slides [of "[0, 1 / 2, 1]" 1 demo_environment] by simp

theorem rolling_limit_returns_witness: "fst (rolling_limit 1 [1 / 2, 1] [0])"
  using rolling_limit_returns [of 1 1 "[1 / 2, 1]" "[0]"] by simp

theorem usage_file_round_trip_witness:
  "sanitize_usage demo_environment (Some (dump_usage demo_usage)) (us_month demo_usage) 2 = demo_usage"
  using usage_file_round_trip [of demo_usage] by (simp add: demo_usage_def) (simp add: fresh_usage_def Let_def)

lemma demo_target:
  assumes "bg_state b = Some demo_usage"
  shows "background_target_rps demo_environment demo_moment ''chainstack'' b = (2699995 / 86400 * (65 / 100), b)"
proof -
  have "load_usage demo_environment demo_moment b = (demo_usage, b)"
    by (rule load_same_month [OF assms]) (simp add: demo_usage_def)
  moreover have "seconds_remaining_in_month (mo_utc demo_moment) = 86400"
    by (simp add: seconds_remaining_in_month_def demo_moment_def days_in_month_def)
  ultimately show ?thesis
    by (simp add: background_target_rps_def monthly_remaining_def usage_def Let_def combined_used_eq)
qed

theorem background_slots_are_spaced_witness:
  "\<exists>t' b1 b3. pace_background demo_environment demo_moment ''chainstack'' demo_budget = (Inr 0, b1)
     \<and> pace_background demo_environment demo_moment ''chainstack'' b1 = (Inr t', b3)
     \<and> 1 / max (1 / 100) (2699995 / 86400 * (65 / 100)) \<le> t'"
proof -
  have next_empty: "bg_next_background_at demo_budget = []"
    by (simp add: demo_budget_def restart_budget_def fresh_budget_def)
  obtain b1 where b1: "pace_background demo_environment demo_moment ''chainstack'' demo_budget = (Inr 0, b1)"
    using demo_target [OF demo_budget_state] next_empty
    by (simp add: pace_background_def demo_moment_def Let_def)
  then have "bg_state b1 = Some demo_usage" using pace_frame [OF demo_load, of "''chainstack''"] by simp
  then obtain t' b3 where b3: "pace_background demo_environment demo_moment ''chainstack'' b1 = (Inr t', b3)"
    using demo_target by (simp add: pace_background_def Let_def)
  have "fst (background_target_rps demo_environment demo_moment ''chainstack'' demo_budget) = 2699995 / 86400 * (65 / 100)"
    using demo_target [OF demo_budget_state] by simp
  with background_slots_are_spaced [OF b1 refl, of "[]" b1, OF _ _ b3] have
    "1 / max (1 / 100) (2699995 / 86400 * (65 / 100)) \<le> t'" by simp
  with b1 b3 show ?thesis by blast
qed

end
