(* ===== verification/Doubles.thy ===== *)
theory Doubles
  imports Prelude "HOL-Library.Log_Nat"
begin

text \<open>
  Python's \<open>round\<close> and the true division of two integers. Other theories read floats as exact
  reals; here the quotient of two non-negative integers is the double nearest to it, ties
  to even, as Python gives it, because some code branches on the floor of such a quotient.
  Quotients near the limits of the exponent range do not occur and are not modelled.
\<close>

definition py_round :: "real \<Rightarrow> int" where
  "py_round x = (let f = \<lfloor>x\<rfloor>; d = x - real_of_int f in
     if d < 1 / 2 then f else if d > 1 / 2 then f + 1 else if even f then f else f + 1)"

text \<open>The binary exponent of a positive real: \<open>2 ^ e \<le> q < 2 ^ (e + 1)\<close>.\<close>

definition exponent_of :: "real \<Rightarrow> int" where
  "exponent_of q = (if 1 \<le> q then bitlen \<lfloor>q\<rfloor> - 1 else - bitlen (\<lceil>1 / q\<rceil> - 1))"

definition double :: "real \<Rightarrow> real" where
  "double q = (if q \<le> 0 then 0 else let e = exponent_of q in
     real_of_int (py_round (q * power_int 2 (52 - e))) * power_int 2 (e - 52))"

definition true_division :: "int \<Rightarrow> int \<Rightarrow> real" where
  "true_division a b = double (real_of_int a / real_of_int b)"

lemma py_round_int [simp]: "py_round (real_of_int n) = n"
  by (simp add: py_round_def)

lemma py_round_bounds: "x - 1 / 2 \<le> real_of_int (py_round x)" "real_of_int (py_round x) \<le> x + 1 / 2"
  by (auto simp: py_round_def Let_def; linarith)+

lemma py_round_ge: "real_of_int n \<le> x \<Longrightarrow> n \<le> py_round x"
  by (auto simp: py_round_def Let_def le_floor_iff; linarith)

lemma py_round_le: "x \<le> real_of_int n \<Longrightarrow> py_round x \<le> n"
proof -
  assume x: "x \<le> real_of_int n"
  show ?thesis
  proof (cases "x = real_of_int n")
    case False
    with x have "\<lfloor>x\<rfloor> < n" by (simp add: floor_less_iff)
    then show ?thesis by (auto simp: py_round_def Let_def)
  qed simp
qed

lemma exponent_of_int:
  assumes "0 < n"
  shows "exponent_of (real_of_int n) = bitlen n - 1"
  using assms by (simp add: exponent_of_def)

lemma exponent_bounds:
  assumes "0 < n"
  shows "power_int 2 (bitlen n - 1) \<le> real_of_int n" "real_of_int n < 2 * power_int 2 (bitlen n - 1)"
proof -
  have pos: "0 < bitlen n" using assms bitlen_eq_zero_iff [of n] bitlen_nonneg [of n] by linarith
  then have nat: "nat (bitlen n) = Suc (nat (bitlen n - 1))" by linarith
  have b: "2 ^ nat (bitlen n - 1) \<le> n" "n < 2 ^ nat (bitlen n)" using bitlen_bounds [OF assms] by auto
  have p: "power_int 2 (bitlen n - 1) = (2::real) ^ nat (bitlen n - 1)" using pos by (simp add: power_int_def)
  have "real_of_int (2 ^ nat (bitlen n - 1)) \<le> real_of_int n" using b(1) by (simp only: of_int_le_iff)
  then show "power_int 2 (bitlen n - 1) \<le> real_of_int n" by (simp add: p)
  have "real_of_int n < real_of_int (2 ^ nat (bitlen n))" using b(2) by (simp only: of_int_less_iff)
  then show "real_of_int n < 2 * power_int 2 (bitlen n - 1)" by (simp add: p nat)
qed

text \<open>An integer of at most 53 bits is its own double; any positive one has a positive double.\<close>

lemma double_small_int:
  assumes "0 \<le> n" and "n < 2 ^ 53"
  shows "double (real_of_int n) = real_of_int n"
proof (cases "n = 0")
  case False
  with assms have pos: "0 < n" by simp
  have "bitlen n \<le> 53" using assms(2) by (simp add: bitlen_le_iff_power)
  moreover have "power_int (2::real) (52 - (bitlen n - 1)) = real_of_int (2 ^ nat (53 - bitlen n))"
    using calculation by (simp add: power_int_def)
  ultimately have "py_round (real_of_int n * power_int 2 (52 - (bitlen n - 1))) = n * 2 ^ nat (53 - bitlen n)"
    by (metis of_int_mult py_round_int)
  moreover have "real_of_int (n * 2 ^ nat (53 - bitlen n)) * power_int 2 (bitlen n - 1 - 52) = real_of_int n"
  proof -
    have "(2::real) ^ nat (53 - bitlen n) * power_int 2 (bitlen n - 53) = 1"
      using \<open>bitlen n \<le> 53\<close> by (simp add: power_int_def power_inverse flip: power_mult_distrib)
    then show ?thesis by (simp add: mult.assoc)
  qed
  ultimately show ?thesis using pos by (simp add: double_def exponent_of_int Let_def)
qed (simp add: double_def)

lemma double_int_pos:
  assumes "0 < n"
  shows "1 \<le> double (real_of_int n)"
proof -
  define e where "e = bitlen n - 1"
  have e: "0 \<le> e" using assms bitlen_eq_zero_iff [of n] bitlen_nonneg [of n] unfolding e_def by linarith
  have split: "power_int (2::real) e * power_int 2 (52 - e) = 2 ^ 52"
    by (simp flip: power_int_add)
  have "real_of_int (2 ^ 52) \<le> real_of_int n * power_int 2 (52 - e)"
    using exponent_bounds(1) [OF assms] split by (metis e_def mult_right_mono of_int_numeral of_int_power zero_le_power_int zero_le_numeral)
  then have "2 ^ 52 \<le> py_round (real_of_int n * power_int 2 (52 - e))" by (rule py_round_ge)
  then have "real_of_int (2 ^ 52) \<le> real_of_int (py_round (real_of_int n * power_int 2 (52 - e)))"
    by (simp only: of_int_le_iff)
  then have "2 ^ 52 * power_int 2 (e - 52)
      \<le> real_of_int (py_round (real_of_int n * power_int 2 (52 - e))) * power_int 2 (e - 52)"
    by (intro mult_right_mono) simp_all
  moreover have "(2::real) ^ 52 * power_int 2 (e - 52) = power_int 2 e"
    by (simp add: power_int_diff)
  moreover have "1 \<le> power_int (2::real) e" using e by (simp add: power_int_def)
  ultimately have "1 \<le> real_of_int (py_round (real_of_int n * power_int 2 (52 - e))) * power_int 2 (e - 52)"
    by linarith
  moreover have "exponent_of (real_of_int n) = e" using assms by (simp add: exponent_of_int e_def)
  ultimately show ?thesis using assms by (simp only: double_def Let_def) simp
qed

lemma true_division_scaled:
  assumes "0 < t"
  shows "true_division (t * n) t = double (real_of_int n)"
  using assms by (simp add: true_division_def)

text \<open>The first integer that no double holds: it is rounded down to \<open>2 ^ 53\<close>.\<close>

lemma double_unrepresentable: "double (real_of_int (2 ^ 53 + 1)) = 2 ^ 53"
proof -
  have "bitlen (2 ^ 53 + 1) = 54"
    by (rule antisym) (simp_all add: bitlen_le_iff_power bitlen_ge_iff_power)
  then have e: "exponent_of (real_of_int (2 ^ 53 + 1)) = 53" using exponent_of_int [of "2 ^ 53 + 1"] by simp
  have "py_round (real_of_int (2 ^ 53 + 1) * power_int 2 (- 1)) = 2 ^ 52"
    by (simp add: py_round_def Let_def)
  with e show ?thesis by (simp add: double_def)
qed

end
