(* ===== verification/Positions.thy ===== *)
theory Positions
  imports Doubles Curve "HOL-Library.Product_Lexorder" "HOL-Library.Char_ord" "HOL-Library.List_Lexorder"
begin

text \<open>
  The position lifecycle of the Robinhood lane (\<open>v52_robinhood_position_lifecycle.py\<close>): a
  position is built of lots, each the paper trial of one entry; it is scaled, sold in
  stages, kept as a runner and closed, and its trials are settled when their lots are
  sold out. A SQLite table is the list of its rows; rows are never deleted. A transaction is one
  step and a rollback leaves the old tables. Integers that the tables keep as text are
  \<open>int\<close>. The event and position keys, texts built of their parts, are values built of
  the same parts. The columns that hold the same constant in every row (authority,
  version, paper flags) are left out. Quotes, the clock, the policy values and the
  fingerprint of the evidence are arguments.
\<close>

subsection \<open>Tables and inputs\<close>

definition STRESSED_EXIT_COVERAGE_RATIO :: real where
  "STRESSED_EXIT_COVERAGE_RATIO = 1 / (35 / 100 * (25 / 100))"

definition MIN_REENTRY_CONSOLIDATION_SECONDS :: real where
  "MIN_REENTRY_CONSOLIDATION_SECONDS = 30"

definition ROBINHOOD_V5_MAX_POSITION :: real where
  "ROBINHOOD_V5_MAX_POSITION = 5 / 100"

definition flow_rank :: "string \<Rightarrow> nat" where
  "flow_rank state = or_default (map_of [(''exhaustion'', 0), (''neutral'', 1), (''entity_accumulation'', 2),
     (''pre_fomo'', 3), (''active_fomo'', 4)] state) 1"

datatype position_status = Entered | Scaling | De_risking | Runner | Closed

fun position_status_text :: "position_status \<Rightarrow> string" where
  "position_status_text Entered = ''entered''"
| "position_status_text Scaling = ''scaling''"
| "position_status_text De_risking = ''de_risking''"
| "position_status_text Runner = ''runner''"
| "position_status_text Closed = ''closed''"

datatype entry_stage = Starter | Scale | Reentry | Add

fun entry_stage_text :: "entry_stage \<Rightarrow> string" where
  "entry_stage_text Starter = ''starter''"
| "entry_stage_text Scale = ''scale''"
| "entry_stage_text Reentry = ''reentry''"
| "entry_stage_text Add = ''add''"

record position_policy =
  pp_starter_fraction_of_target :: real
  pp_max_scale_fraction_of_target_per_add :: real
  pp_first_derisk_fraction_of_position :: real
  pp_second_derisk_fraction_of_position :: real
  pp_runner_fraction_of_target :: real

record evidence_payload =
  ep_entity :: string
  ep_role :: string
  ep_lane :: string
  ep_venue :: string
  ep_lifecycle :: string
  ep_regime :: string
  ep_risk_signature :: string
  ep_risk_severity :: real
  ep_flow_state :: string
  ep_lanes :: "string list"

record position_row =
  ps_id :: nat
  ps_position_key :: "string \<times> nat"
  ps_token :: string
  ps_market :: string
  ps_venue :: string
  ps_lifecycle :: string
  ps_generation :: nat
  ps_status :: position_status
  ps_target_fraction :: real
  ps_opened_fraction :: real
  ps_remaining_fraction :: real
  ps_remaining_token_raw :: int
  ps_weighted_entry_price_eth :: real
  ps_last_add_price_eth :: real
  ps_last_evidence_fingerprint :: string
  ps_last_evidence :: evidence_payload
  ps_impulse_id :: string
  ps_last_trigger_entity :: string
  ps_last_lane :: string
  ps_last_risk_severity :: real
  ps_last_flow_state :: string
  ps_derisk_stage :: int
  ps_runner_active :: bool
  ps_opened_at :: datetime
  ps_updated_at :: datetime
  ps_closed_at :: "datetime option"
  ps_close_reason :: "string option"

record lot_row =
  lt_id :: nat
  lt_position_id :: nat
  lt_trial_id :: nat
  lt_lot_stage :: entry_stage
  lt_entry_fraction :: real
  lt_remaining_fraction :: real
  lt_entry_token_raw :: int
  lt_remaining_token_raw :: int
  lt_entry_total_cost_wei :: int
  lt_remaining_entry_cost_wei :: int
  lt_realized_exit_net_wei :: int
  lt_realized_exit_gas_wei :: int
  lt_entry_price_eth :: real
  lt_evidence_fingerprint :: string
  lt_capital_reservation_id :: "string option"
  lt_opened_at :: datetime
  lt_closed_at :: "datetime option"

datatype event_key = EntryKey nat nat | ExitKey nat int string int datetime

record position_event =
  pe_id :: nat
  pe_position_id :: nat
  pe_event_key :: event_key
  pe_event_type :: string
  pe_state_before :: string
  pe_state_after :: string
  pe_token_raw :: int
  pe_position_fraction :: real
  pe_exit_quote_out_wei :: "int option"
  pe_exit_gas_wei :: "int option"
  pe_allocated_entry_cost_wei :: "int option"
  pe_net_return :: "real option"
  pe_paper_nav_multiplier :: "real option"
  pe_reason :: string
  pe_created_at :: datetime

record trial_row =
  tl_id :: nat
  tl_release_commit :: string
  tl_token :: string
  tl_market :: string
  tl_venue :: string
  tl_lifecycle :: string
  tl_trigger_actor :: string
  tl_trigger_entity :: string
  tl_fomo_state :: string
  tl_context_state :: string
  tl_position_fraction :: real
  tl_entry_quote_in_wei :: int
  tl_entry_token_raw :: int
  tl_entry_gas_wei :: int
  tl_entry_total_cost_wei :: int
  tl_entry_price_eth :: real
  tl_entry_round_trip_cost_fraction :: real
  tl_opened_at :: datetime
  tl_decision_reason :: string
  tl_capital_reservation_id :: "string option"

record context_row =
  tc_trial_id :: nat
  tc_lane :: string
  tc_trigger_role :: string
  tc_regime :: string
  tc_flow_state :: string
  tc_risk_signature :: string
  tc_risk_severity :: real
  tc_context_key :: string
  tc_lifecycle_progress :: "real option"
  tc_threshold_challenger :: bool
  tc_candidate_lanes :: "string list"
  tc_created_at :: datetime

record outcome_row =
  oc_id :: nat
  oc_release_commit :: string
  oc_trial_id :: nat
  oc_token :: string
  oc_market :: string
  oc_venue :: string
  oc_lifecycle :: string
  oc_trigger_actor :: string
  oc_trigger_entity :: string
  oc_fomo_state :: string
  oc_position_fraction :: real
  oc_net_return :: real
  oc_paper_nav_multiplier :: real
  oc_exit_quote_out_wei :: int
  oc_exit_gas_wei :: int
  oc_exit_reason :: string
  oc_settled_at :: datetime

text \<open>The decision that waits for its validated entry (\<open>_pending_map\<close>).\<close>

record pending_entry =
  pd_token :: string
  pd_market :: string
  pd_lane :: string
  pd_stage :: entry_stage
  pd_target_fraction :: real
  pd_evidence_fingerprint :: string
  pd_evidence :: evidence_payload
  pd_reason :: string

record book =
  bk_release_commit :: string
  bk_starting_nav_usd :: real
  bk_trials :: "trial_row list"
  bk_contexts :: "context_row list"
  bk_outcomes :: "outcome_row list"
  bk_positions :: "position_row list"
  bk_lots :: "lot_row list"
  bk_events :: "position_event list"
  bk_pending :: "(string, pending_entry) dict"
  bk_bootstrap_done :: bool

definition next_id :: "nat list \<Rightarrow> nat" where
  "next_id ids = Suc (fold max ids 0)"

definition open_status :: "position_status \<Rightarrow> bool" where
  "open_status st \<longleftrightarrow> st \<in> {Entered, Scaling, De_risking, Runner}"

text \<open>\<open>SELECT ... ORDER BY id DESC LIMIT 1\<close>: the last of the rows in id order.\<close>

definition newest :: "('a \<Rightarrow> 'k::linorder) \<Rightarrow> 'a list \<Rightarrow> 'a option" where
  "newest k rows = (case rev (sort_key k rows) of [] \<Rightarrow> None | r # _ \<Rightarrow> Some r)"

definition open_row :: "string \<Rightarrow> book \<Rightarrow> position_row option" where
  "open_row token b = newest ps_id
     (filter (\<lambda>p. ps_token p = token \<and> open_status (ps_status p)) (bk_positions b))"

definition open_position :: "book \<Rightarrow> string \<Rightarrow> position_row option" where
  "open_position b token0 = (let token = clean_address (Some token0) in
     if token = [] then None else open_row token b)"

definition last_closed_position :: "book \<Rightarrow> string \<Rightarrow> position_row option" where
  "last_closed_position b token0 = (let token = clean_address (Some token0) in
     if token = [] then None
     else newest (\<lambda>p. (ps_generation p, ps_id p))
            (filter (\<lambda>p. ps_token p = token \<and> ps_status p = Closed) (bk_positions b)))"

definition settled_trial :: "book \<Rightarrow> nat \<Rightarrow> bool" where
  "settled_trial b i \<longleftrightarrow> i \<in> oc_trial_id ` set (bk_outcomes b)"

definition tracked_trial :: "book \<Rightarrow> nat \<Rightarrow> bool" where
  "tracked_trial b i \<longleftrightarrow> i \<in> lt_trial_id ` set (bk_lots b)"

definition legacy_untracked_open :: "book \<Rightarrow> string \<Rightarrow> bool" where
  "legacy_untracked_open b token0 = (let token = clean_address (Some token0) in
     token = [] \<or> (\<exists>t\<in>set (bk_trials b). tl_token t = token
        \<and> \<not> settled_trial b (tl_id t) \<and> \<not> tracked_trial b (tl_id t)))"


subsection \<open>The choice of an entry\<close>

record candidate_kwargs =
  kw_entity :: "string option"
  kw_role :: "string option"
  kw_venue :: "string option"
  kw_lifecycle :: "string option"
  kw_regime :: "string option"
  kw_risk_signature :: "string option"
  kw_risk_severity :: "real option"
  kw_flow_state :: "string option"
  kw_lanes :: "string list"

text \<open>Python's \<open>x or y\<close> for an optional text: \<open>None\<close> and the empty text are both false.\<close>

definition or_text :: "string option \<Rightarrow> string \<Rightarrow> string" where
  "or_text x y = (case x of None \<Rightarrow> y | Some v \<Rightarrow> if v = [] then y else v)"

definition evidence_of :: "candidate_kwargs \<Rightarrow> string \<Rightarrow> evidence_payload" where
  "evidence_of k lane = \<lparr>ep_entity = or_text (kw_entity k) [], ep_role = or_text (kw_role k) ''unknown'',
     ep_lane = lane, ep_venue = or_text (kw_venue k) ''UNKNOWN'',
     ep_lifecycle = or_text (kw_lifecycle k) ''unknown'', ep_regime = or_text (kw_regime k) ''unknown'',
     ep_risk_signature = or_text (kw_risk_signature k) ''clean'',
     ep_risk_severity = or_float (kw_risk_severity k) 0,
     ep_flow_state = or_text (kw_flow_state k) ''neutral'', ep_lanes = sort (kw_lanes k)\<rparr>"

definition strengthened :: "position_row \<Rightarrow> evidence_payload \<Rightarrow> bool" where
  "strengthened p e \<longleftrightarrow>
     (if ep_lane e \<noteq> ps_last_lane p then True
      else if ep_lifecycle e \<noteq> ps_lifecycle p then True
      else if ep_entity e \<noteq> [] \<and> ep_entity e \<noteq> ps_last_trigger_entity p then True
      else if flow_rank (or_text (Some (ep_flow_state e)) ''neutral'')
            > flow_rank (or_text (Some (ps_last_flow_state p)) ''neutral'') then True
      else ep_risk_severity e + 1 / 10 ^ 12 < ps_last_risk_severity p)"

text \<open>What the base policy chose: its lane, its fraction, and the target of the lane's
  authority where it names one.\<close>

record base_choice =
  bc_lane :: "string option"
  bc_fraction :: real
  bc_target :: "real option"

record authority_update =
  au_target_fraction :: real
  au_open_fraction_before :: real
  au_final_fraction :: real
  au_capture_stage :: entry_stage
  au_reason :: string

definition choice_target :: "position_policy \<Rightarrow> base_choice \<Rightarrow> real" where
  "choice_target pol c = (let target = or_float (bc_target c) 0 in
     if target \<le> 0 then min ROBINHOOD_V5_MAX_POSITION
       (bc_fraction c / max (pp_starter_fraction_of_target pol) (1 / 10 ^ 12)) else target)"

definition scale_choice ::
  "position_policy \<Rightarrow> real \<Rightarrow> string \<Rightarrow> string \<Rightarrow> evidence_payload \<Rightarrow> position_row \<Rightarrow> real \<times> string" where
  "scale_choice pol target market evidence e p =
     (if ps_status p \<notin> {Entered, Scaling} then (0, ''scale_blocked_position_in_derisk_or_runner'')
      else if market \<noteq> [] \<and> market \<noteq> clean_address (Some (ps_market p))
        then (0, ''scale_blocked_cross_market_aggregate_exitability_unproven'')
      else if evidence = ps_last_evidence_fingerprint p then (0, ''scale_blocked_no_new_forward_evidence'')
      else if \<not> strengthened p e then (0, ''scale_blocked_no_new_strength_evidence'')
      else let open_fraction = max 0 (ps_remaining_fraction p);
               add_cap = target * pp_max_scale_fraction_of_target_per_add pol
           in (max 0 (min add_cap (target - open_fraction)), ''v52_scale_new_forward_strength''))"

definition reentry_choice ::
  "position_policy \<Rightarrow> datetime \<Rightarrow> real \<Rightarrow> string \<Rightarrow> evidence_payload \<Rightarrow> position_row \<Rightarrow> real \<times> string" where
  "reentry_choice pol now target evidence e p =
     (let elapsed = (case ps_closed_at p of Some t \<Rightarrow> total_seconds (now - t) | None \<Rightarrow> 0);
          new_entity = ep_entity e \<noteq> [] \<and> ep_entity e \<noteq> ps_last_trigger_entity p
      in if evidence = ps_last_evidence_fingerprint p then (0, ''reentry_blocked_same_impulse'')
         else if elapsed < MIN_REENTRY_CONSOLIDATION_SECONDS
           then (0, ''reentry_blocked_consolidation_not_confirmed'')
         else if ep_flow_state e \<noteq> ''active_fomo''
           then (0, ''reentry_blocked_renewed_acceleration_missing'')
         else if \<not> new_entity then (0, ''reentry_blocked_new_independent_buyer_missing'')
         else (min target (target * pp_starter_fraction_of_target pol), ''v52_reentry_new_impulse''))"

text \<open>The stage, the fraction and the reason that the lifecycle decides on.\<close>

definition lifecycle_choice ::
  "position_policy \<Rightarrow> datetime \<Rightarrow> base_choice \<Rightarrow> string \<Rightarrow> string \<Rightarrow> string \<Rightarrow> evidence_payload \<Rightarrow> book
     \<Rightarrow> entry_stage \<times> real \<times> string" where
  "lifecycle_choice pol now c token market evidence e b =
     (let target = choice_target pol c in
      case open_position b token of
        Some p \<Rightarrow> (Scale, scale_choice pol target market evidence e p)
      | None \<Rightarrow>
          (case last_closed_position b token of
             Some p \<Rightarrow> (Reentry, reentry_choice pol now target evidence e p)
           | None \<Rightarrow> (Starter, bc_fraction c, ''v52_fractional_starter'')))"

definition choose_with_lifecycle ::
  "position_policy \<Rightarrow> (evidence_payload \<Rightarrow> string) \<Rightarrow> datetime \<Rightarrow> string \<Rightarrow> string \<Rightarrow> candidate_kwargs
     \<Rightarrow> base_choice \<Rightarrow> book \<Rightarrow> (string option \<times> real \<times> authority_update option) \<times> book" where
  "choose_with_lifecycle pol fingerprint now candidate_token candidate_market k c b =
     (let token = clean_address (Some candidate_token);
          market = clean_address (Some candidate_market);
          lane = or_text (bc_lane c) []
      in if token = [] \<or> lane = [] \<or> bc_fraction c \<le> 0
           then ((bc_lane c, if token = [] then 0 else bc_fraction c, None), b)
         else let e = evidence_of k lane;
                  evidence = fingerprint e;
                  target = choice_target pol c;
                  (stage, final, reason) = lifecycle_choice pol now c token market evidence e b;
                  open_before = (case open_position b token of Some p \<Rightarrow> ps_remaining_fraction p | None \<Rightarrow> 0);
                  authority = \<lparr>au_target_fraction = target, au_open_fraction_before = open_before,
                    au_final_fraction = final, au_capture_stage = stage, au_reason = reason\<rparr>;
                  pending = \<lparr>pd_token = token, pd_market = market, pd_lane = lane, pd_stage = stage,
                    pd_target_fraction = target, pd_evidence_fingerprint = evidence, pd_evidence = e,
                    pd_reason = reason\<rparr>
              in ((if final > 0 then Some lane else None, final, Some authority),
                  b\<lparr>bk_pending := dict_set token pending (bk_pending b)\<rparr>))"

text \<open>\<open>_token_open\<close> says whether a new evaluation of the token is blocked; \<open>base\<close> is the answer of
  the method it wraps.\<close>

definition token_open_with_v52_recheck :: "bool \<Rightarrow> bool \<Rightarrow> string \<Rightarrow> book \<Rightarrow> bool" where
  "token_open_with_v52_recheck allow_existing base token b =
     (if allow_existing \<and> open_position b token \<noteq> None \<and> \<not> legacy_untracked_open b token then False
      else base)"

subsection \<open>Exit quotes\<close>

record exit_quote =
  xq_gross_out_wei :: int
  xq_exit_gas_wei :: int
  xq_net_out_wei :: int

text \<open>The answers of the chain: gas price, the fee of a known pool, and the three exact quotes.\<close>

record chain_answers =
  ca_gas_price :: "int result"
  ca_pool_fee :: "string \<Rightarrow> int option"
  ca_v3_quote :: "string \<Rightarrow> int \<Rightarrow> int \<Rightarrow> (int \<times> int) result"
  ca_launch_state :: "string \<Rightarrow> launch_state result"
  ca_curve_sell :: "string \<Rightarrow> int \<Rightarrow> int result"
  ca_v4_quote :: "string \<Rightarrow> string \<Rightarrow> int \<Rightarrow> int \<Rightarrow> bool \<Rightarrow> int \<Rightarrow> (int \<times> int) result"

definition exit_quote_of :: "int \<Rightarrow> int \<Rightarrow> exit_quote" where
  "exit_quote_of gross exit_gas = \<lparr>xq_gross_out_wei = max 0 gross, xq_exit_gas_wei = max 0 exit_gas,
     xq_net_out_wei = max 0 (gross - exit_gas)\<rparr>"

definition ZERO_ADDRESS :: string where
  "ZERO_ADDRESS = ''0x'' @ replicate 40 (CHR ''0'')"

text \<open>\<open>sorted(..., key=lambda item: int(item, 16))\<close> of two addresses, stable.\<close>

definition order_currencies :: "string \<Rightarrow> string \<Rightarrow> (string \<times> string) result" where
  "order_currencies a b =
     bind_result (uint_word a) (\<lambda>x. bind_result (uint_word b) (\<lambda>y.
       Inr (if y < x then (b, a) else (a, b))))"

definition sell_quote_for_raw ::
  "chain_answers \<Rightarrow> string \<Rightarrow> string \<Rightarrow> string \<Rightarrow> int \<Rightarrow> exit_quote option result" where
  "sell_quote_for_raw ca token market venue raw_amount =
     (if raw_amount \<le> 0 then Inr None else
      bind_result (ca_gas_price ca) (\<lambda>gas_price.
      if venue \<in> {''PONS_V1_UNISWAP_V3'', ''UNISWAP_V3_DIRECT''} then
        (case ca_pool_fee ca (clean_address (Some market)) of
           None \<Rightarrow> Inr None
         | Some fee \<Rightarrow> bind_result (ca_v3_quote ca token fee raw_amount) (\<lambda>(gross, gas_estimate).
             Inr (Some (exit_quote_of gross ((gas_estimate + 80000) * gas_price)))))
      else if venue = ''PONS_V2_CURVE'' then
        bind_result (ca_launch_state ca token) (\<lambda>state.
        if ls_phase state = 0 then
          bind_result (ca_curve_sell ca market raw_amount) (\<lambda>gross.
            Inr (Some (exit_quote_of gross (220000 * gas_price))))
        else if ls_phase state = 2 then
          (let pair = clean_address (Some (ls_pair_token state));
               currency_a = (if pair \<in> {[], ZERO_ADDRESS} then ZERO_ADDRESS else pair)
           in bind_result (order_currencies currency_a token) (\<lambda>(currency0, currency1).
              bind_result (ca_v4_quote ca currency0 currency1 (ls_pool_fee state) (ls_tick_spacing state)
                             (token = currency0) raw_amount) (\<lambda>(gross, gas_estimate).
                Inr (Some (exit_quote_of gross ((gas_estimate + 120000) * gas_price))))))
        else Inr None)
      else Inr None))"


subsection \<open>Entries\<close>

record lot_quote =
  lq_amount_in_wei :: int
  lq_token_out :: int
  lq_entry_gas_wei :: int
  lq_entry_total_cost_wei :: int
  lq_entry_price_eth :: real
  lq_round_trip_cost_fraction :: real

text \<open>The entry that the base decision hands over (the arguments of \<open>_v5_insert_trial\<close>).\<close>

record entry_payload =
  en_token :: string
  en_market :: string
  en_venue :: string
  en_lifecycle :: string
  en_trigger_actor :: string
  en_trigger_entity :: string
  en_flow_state :: string
  en_fraction :: real
  en_quote :: lot_quote
  en_lane :: string
  en_role :: string
  en_regime :: string
  en_risk_signature :: string
  en_risk_severity :: real
  en_lifecycle_progress :: "real option"
  en_threshold_challenger :: bool
  en_candidate_lanes :: "string list"

definition context_key_of :: "entry_payload \<Rightarrow> string" where
  "context_key_of n = en_trigger_entity n @ ''|'' @ en_role n @ ''|'' @ en_lane n @ ''|'' @ en_venue n
     @ ''|'' @ en_lifecycle n @ ''|'' @ en_regime n @ ''|'' @ en_risk_signature n @ ''|''
     @ en_flow_state n @ ''|'' @ ''chain_poll''"

definition new_trial :: "entry_payload \<Rightarrow> entry_stage \<Rightarrow> datetime \<Rightarrow> book \<Rightarrow> trial_row" where
  "new_trial n stage now b =
     \<lparr>tl_id = next_id (map tl_id (bk_trials b)), tl_release_commit = bk_release_commit b,
      tl_token = clean_address (Some (en_token n)), tl_market = clean_address (Some (en_market n)),
      tl_venue = en_venue n, tl_lifecycle = en_lifecycle n, tl_trigger_actor = en_trigger_actor n,
      tl_trigger_entity = en_trigger_entity n, tl_fomo_state = en_flow_state n,
      tl_context_state = ''v52:'' @ en_lane n @ '':'' @ entry_stage_text stage,
      tl_position_fraction = en_fraction n, tl_entry_quote_in_wei = lq_amount_in_wei (en_quote n),
      tl_entry_token_raw = lq_token_out (en_quote n), tl_entry_gas_wei = lq_entry_gas_wei (en_quote n),
      tl_entry_total_cost_wei = lq_entry_total_cost_wei (en_quote n),
      tl_entry_price_eth = lq_entry_price_eth (en_quote n),
      tl_entry_round_trip_cost_fraction = lq_round_trip_cost_fraction (en_quote n), tl_opened_at = now,
      tl_decision_reason = ''v52_exact_entry_plus_aggregate_and_stressed_exitability'',
      tl_capital_reservation_id = None\<rparr>"

definition new_context :: "entry_payload \<Rightarrow> nat \<Rightarrow> datetime \<Rightarrow> context_row" where
  "new_context n trial now =
     \<lparr>tc_trial_id = trial, tc_lane = en_lane n, tc_trigger_role = en_role n, tc_regime = en_regime n,
      tc_flow_state = en_flow_state n, tc_risk_signature = en_risk_signature n,
      tc_risk_severity = en_risk_severity n, tc_context_key = context_key_of n,
      tc_lifecycle_progress = en_lifecycle_progress n,
      tc_threshold_challenger = en_threshold_challenger n,
      tc_candidate_lanes = en_candidate_lanes n, tc_created_at = now\<rparr>"

definition next_generation :: "string \<Rightarrow> book \<Rightarrow> nat" where
  "next_generation token b =
     Suc (fold max (map ps_generation (filter (\<lambda>p. ps_token p = token) (bk_positions b))) 0)"

definition new_position :: "entry_payload \<Rightarrow> pending_entry \<Rightarrow> datetime \<Rightarrow> book \<Rightarrow> position_row" where
  "new_position n pd now b =
     (let token = clean_address (Some (en_token n)); generation = next_generation token b in
      \<lparr>ps_id = next_id (map ps_id (bk_positions b)), ps_position_key = (token, generation),
       ps_token = token, ps_market = clean_address (Some (en_market n)), ps_venue = en_venue n,
       ps_lifecycle = en_lifecycle n, ps_generation = generation, ps_status = Entered,
       ps_target_fraction = pd_target_fraction pd, ps_opened_fraction = en_fraction n,
       ps_remaining_fraction = en_fraction n, ps_remaining_token_raw = lq_token_out (en_quote n),
       ps_weighted_entry_price_eth = lq_entry_price_eth (en_quote n),
       ps_last_add_price_eth = lq_entry_price_eth (en_quote n),
       ps_last_evidence_fingerprint = pd_evidence_fingerprint pd, ps_last_evidence = pd_evidence pd,
       ps_impulse_id = pd_evidence_fingerprint pd, ps_last_trigger_entity = en_trigger_entity n,
       ps_last_lane = en_lane n, ps_last_risk_severity = en_risk_severity n,
       ps_last_flow_state = en_flow_state n, ps_derisk_stage = 0, ps_runner_active = False,
       ps_opened_at = now, ps_updated_at = now, ps_closed_at = None, ps_close_reason = None\<rparr>)"

definition weighted_price :: "int \<Rightarrow> real \<Rightarrow> int \<Rightarrow> real \<Rightarrow> real \<Rightarrow> real" where
  "weighted_price old_raw old_price add_raw add_price otherwise =
     (if old_raw + add_raw > 0
      then (real_of_int old_raw * old_price + real_of_int add_raw * add_price) / real_of_int (old_raw + add_raw)
      else otherwise)"

definition scaled_position :: "entry_payload \<Rightarrow> pending_entry \<Rightarrow> datetime \<Rightarrow> position_row \<Rightarrow> position_row" where
  "scaled_position n pd now p =
     (let add_raw = lq_token_out (en_quote n); price = lq_entry_price_eth (en_quote n) in
      p\<lparr>ps_status := Scaling, ps_target_fraction := pd_target_fraction pd,
        ps_opened_fraction := ps_opened_fraction p + en_fraction n,
        ps_remaining_fraction := ps_remaining_fraction p + en_fraction n,
        ps_remaining_token_raw := ps_remaining_token_raw p + add_raw,
        ps_weighted_entry_price_eth := weighted_price (ps_remaining_token_raw p)
          (ps_weighted_entry_price_eth p) add_raw price price,
        ps_last_add_price_eth := price,
        ps_last_evidence_fingerprint := pd_evidence_fingerprint pd, ps_last_evidence := pd_evidence pd,
        ps_last_trigger_entity := en_trigger_entity n, ps_last_lane := en_lane n,
        ps_last_risk_severity := en_risk_severity n, ps_last_flow_state := en_flow_state n,
        ps_updated_at := now\<rparr>)"

definition new_lot :: "entry_payload \<Rightarrow> pending_entry \<Rightarrow> nat \<Rightarrow> nat \<Rightarrow> datetime \<Rightarrow> book \<Rightarrow> lot_row" where
  "new_lot n pd position trial now b =
     \<lparr>lt_id = next_id (map lt_id (bk_lots b)), lt_position_id = position, lt_trial_id = trial,
      lt_lot_stage = pd_stage pd, lt_entry_fraction = en_fraction n, lt_remaining_fraction = en_fraction n,
      lt_entry_token_raw = lq_token_out (en_quote n), lt_remaining_token_raw = lq_token_out (en_quote n),
      lt_entry_total_cost_wei = lq_entry_total_cost_wei (en_quote n),
      lt_remaining_entry_cost_wei = lq_entry_total_cost_wei (en_quote n), lt_realized_exit_net_wei = 0,
      lt_realized_exit_gas_wei = 0, lt_entry_price_eth = lq_entry_price_eth (en_quote n),
      lt_evidence_fingerprint = pd_evidence_fingerprint pd, lt_capital_reservation_id = None,
      lt_opened_at = now, lt_closed_at = None\<rparr>"

definition entry_event ::
  "entry_payload \<Rightarrow> pending_entry \<Rightarrow> nat \<Rightarrow> nat \<Rightarrow> string \<Rightarrow> string \<Rightarrow> datetime \<Rightarrow> book \<Rightarrow> position_event" where
  "entry_event n pd position trial before after now b =
     \<lparr>pe_id = next_id (map pe_id (bk_events b)), pe_position_id = position,
      pe_event_key = EntryKey position trial, pe_event_type = entry_stage_text (pd_stage pd),
      pe_state_before = before, pe_state_after = after, pe_token_raw = lq_token_out (en_quote n),
      pe_position_fraction = en_fraction n, pe_exit_quote_out_wei = None, pe_exit_gas_wei = None,
      pe_allocated_entry_cost_wei = None, pe_net_return = None, pe_paper_nav_multiplier = None,
      pe_reason = or_text (Some (pd_reason pd)) (entry_stage_text (pd_stage pd)), pe_created_at = now\<rparr>"

text \<open>A lot is refused when its trial or its evidence is already in the position.\<close>

definition insert_lot :: "lot_row \<Rightarrow> book \<Rightarrow> book result" where
  "insert_lot l b =
     (if \<exists>r\<in>set (bk_lots b). lt_trial_id r = lt_trial_id l then Inl (IntegrityError ''UNIQUE(trial_id)'')
      else if \<exists>r\<in>set (bk_lots b). lt_position_id r = lt_position_id l
               \<and> lt_evidence_fingerprint r = lt_evidence_fingerprint l
        then Inl (IntegrityError ''UNIQUE(position_id,evidence_fingerprint)'')
      else Inr (b\<lparr>bk_lots := bk_lots b @ [l]\<rparr>))"

definition insert_position :: "position_row \<Rightarrow> book \<Rightarrow> book result" where
  "insert_position p b =
     (if \<exists>r\<in>set (bk_positions b). ps_position_key r = ps_position_key p
        then Inl (IntegrityError ''UNIQUE(position_key)'')
      else if open_status (ps_status p)
             \<and> (\<exists>r\<in>set (bk_positions b). ps_token r = ps_token p \<and> open_status (ps_status r))
        then Inl (IntegrityError ''UNIQUE(token)'')
      else Inr (b\<lparr>bk_positions := bk_positions b @ [p]\<rparr>))"

definition insert_event :: "position_event \<Rightarrow> book \<Rightarrow> book result" where
  "insert_event e b =
     (if \<exists>r\<in>set (bk_events b). pe_event_key r = pe_event_key e then Inl (IntegrityError ''UNIQUE(event_key)'')
      else Inr (b\<lparr>bk_events := bk_events b @ [e]\<rparr>))"

definition insert_context :: "context_row \<Rightarrow> book \<Rightarrow> book result" where
  "insert_context c b =
     (if \<exists>r\<in>set (bk_contexts b). tc_trial_id r = tc_trial_id c then Inl (IntegrityError ''UNIQUE(trial_id)'')
      else Inr (b\<lparr>bk_contexts := bk_contexts b @ [c]\<rparr>))"

definition update_position :: "nat \<Rightarrow> (position_row \<Rightarrow> position_row) \<Rightarrow> book \<Rightarrow> book" where
  "update_position i f b = b\<lparr>bk_positions := map (\<lambda>p. if ps_id p = i then f p else p) (bk_positions b)\<rparr>"

definition drop_pending :: "string \<Rightarrow> book \<Rightarrow> book" where
  "drop_pending token b = b\<lparr>bk_pending := filter (\<lambda>(k, v). k \<noteq> token) (bk_pending b)\<rparr>"

text \<open>\<open>_persist_lot\<close>: one transaction; on \<open>Inl\<close> and on \<open>Inr False\<close> it is rolled back.\<close>

definition write_lot :: "entry_payload \<Rightarrow> pending_entry \<Rightarrow> datetime \<Rightarrow> position_row option \<Rightarrow> book \<Rightarrow> book result" where
  "write_lot n pd now position b =
     (let trial = new_trial n (pd_stage pd) now b in
      bind_result (insert_context (new_context n (tl_id trial) now)
                     (b\<lparr>bk_trials := bk_trials b @ [trial]\<rparr>)) (\<lambda>b1.
      case position of
        None \<Rightarrow>
          (let p = new_position n pd now b1 in
           bind_result (insert_position p b1) (\<lambda>b2.
           bind_result (insert_lot (new_lot n pd (ps_id p) (tl_id trial) now b2) b2) (\<lambda>b3.
           insert_event (entry_event n pd (ps_id p) (tl_id trial)
             (if pd_stage pd = Reentry then ''reentry_watch'' else ''pre_actionable'') ''entered'' now b3) b3)))
      | Some p \<Rightarrow>
          (let b2 = update_position (ps_id p) (scaled_position n pd now) b1 in
           bind_result (insert_lot (new_lot n pd (ps_id p) (tl_id trial) now b2) b2) (\<lambda>b3.
           insert_event (entry_event n pd (ps_id p) (tl_id trial)
             (position_status_text (ps_status p)) ''scaling'' now b3) b3))))"

definition persist_lot :: "datetime \<Rightarrow> entry_payload \<Rightarrow> pending_entry \<Rightarrow> book \<Rightarrow> bool result \<times> book" where
  "persist_lot now n pd b =
     (let token = clean_address (Some (en_token n)); position = open_row token b in
      if pd_stage pd = Scale \<and> position = None then (Inr False, b)
      else if pd_stage pd \<noteq> Scale \<and> position \<noteq> None then (Inr False, b)
      else if (case position of None \<Rightarrow> False
               | Some p \<Rightarrow> pd_evidence_fingerprint pd = ps_last_evidence_fingerprint p) then (Inr False, b)
      else (case write_lot n pd now position b of
              Inl e \<Rightarrow> (Inl e, b)
            | Inr b' \<Rightarrow> (Inr True, drop_pending token b')))"

text \<open>\<open>_validate_and_commit\<close>: \<open>latency\<close> is the time the two quotes took.\<close>

definition ends_with :: "string \<Rightarrow> string \<Rightarrow> bool" where
  "ends_with s t \<longleftrightarrow> drop (length s - length t) s = t"

definition reentry_valid :: "datetime \<Rightarrow> string \<Rightarrow> pending_entry \<Rightarrow> book \<Rightarrow> bool" where
  "reentry_valid now token pd b =
     (case last_closed_position b token of
        None \<Rightarrow> False
      | Some p \<Rightarrow>
          (case ps_closed_at p of
             None \<Rightarrow> False
           | Some t \<Rightarrow> \<not> total_seconds (now - t) < MIN_REENTRY_CONSOLIDATION_SECONDS
               \<and> ep_flow_state (pd_evidence pd) = ''active_fomo''
               \<and> ep_entity (pd_evidence pd) \<noteq> ps_last_trigger_entity p))"

text \<open>The raw amount and the fraction that the position would hold, unless a guard refuses.\<close>

definition aggregate_of :: "entry_payload \<Rightarrow> pending_entry \<Rightarrow> string \<Rightarrow> string \<Rightarrow> book \<Rightarrow> (int \<times> real) option" where
  "aggregate_of n pd token market b =
     (let add_raw = max 0 (lq_token_out (en_quote n)); add_fraction = max 0 (en_fraction n);
          position = open_position b token
      in if pd_stage pd = Scale then
           (case position of
              None \<Rightarrow> None
            | Some p \<Rightarrow>
                if ps_status p \<notin> {Entered, Scaling} then None
                else if market \<noteq> clean_address (Some (ps_market p)) then None
                else if lq_entry_price_eth (en_quote n) + 1 / 10 ^ 12 < ps_last_add_price_eth p then None
                else if pd_evidence_fingerprint pd = ps_last_evidence_fingerprint p then None
                else Some (max 0 (ps_remaining_token_raw p) + add_raw, max 0 (ps_remaining_fraction p) + add_fraction))
         else if position \<noteq> None \<or> legacy_untracked_open b token then None
         else Some (add_raw, add_fraction))"

definition stress_raw_of :: "int \<Rightarrow> int" where
  "stress_raw_of aggregate = max aggregate \<lceil>real_of_int aggregate * STRESSED_EXIT_COVERAGE_RATIO\<rceil>"

definition exitable :: "exit_quote option result \<Rightarrow> bool" where
  "exitable q = (case q of Inr (Some x) \<Rightarrow> xq_gross_out_wei x > 0 | _ \<Rightarrow> False)"

definition validate_and_commit ::
  "(string \<Rightarrow> string \<Rightarrow> string \<Rightarrow> int \<Rightarrow> exit_quote option result) \<Rightarrow> real \<Rightarrow> datetime \<Rightarrow> entry_payload \<Rightarrow> book
     \<Rightarrow> bool result \<times> book" where
  "validate_and_commit quote latency now n b =
     (let token = clean_address (Some (en_token n)); market = clean_address (Some (en_market n)) in
      if token = [] \<or> market = [] then (Inr False, b) else
      case dict_get (bk_pending b) token of
        None \<Rightarrow> (Inr False, b)
      | Some pd \<Rightarrow>
          if ends_with (pd_reason pd) ''_blocked'' then (Inr False, b)
          else if max 0 (lq_token_out (en_quote n)) \<le> 0 \<or> max 0 (en_fraction n) \<le> 0
              \<or> lq_entry_price_eth (en_quote n) \<le> 0 then (Inr False, b)
          else
            (case aggregate_of n pd token market b of
               None \<Rightarrow> (Inr False, b)
             | Some (aggregate_raw, aggregate_fraction) \<Rightarrow>
                 (let target = max 0 (pd_target_fraction pd) in
                  if target \<le> 0 \<or> aggregate_fraction > target + 1 / 10 ^ 12 then (Inr False, b)
                  else if max 0 latency > 20 then (Inr False, b)
                  else if \<not> exitable (quote token market (en_venue n) aggregate_raw)
                      \<or> \<not> exitable (quote token market (en_venue n) (stress_raw_of aggregate_raw))
                    then (Inr False, b)
                  else if pd_stage pd = Reentry \<and> \<not> reentry_valid now token pd b then (Inr False, b)
                  else persist_lot now n pd b)))"

text \<open>\<open>_maybe_open_v3\<close> and \<open>_maybe_open_v2\<close>: at most the first entry that the base decision
  hands over is committed.\<close>

definition maybe_open_with_lifecycle ::
  "(string \<Rightarrow> string \<Rightarrow> string \<Rightarrow> int \<Rightarrow> exit_quote option result) \<Rightarrow> real \<Rightarrow> datetime \<Rightarrow> entry_payload list \<Rightarrow> book
     \<Rightarrow> bool result \<times> book" where
  "maybe_open_with_lifecycle quote latency now captured b =
     (case captured of [] \<Rightarrow> (Inr False, b) | n # _ \<Rightarrow> validate_and_commit quote latency now n b)"


subsection \<open>Exits\<close>

record allocation_slice =
  al_lot :: lot_row
  al_raw :: int
  al_fraction :: real
  al_cost :: int
  al_net :: int
  al_gas :: int

definition slice_of :: "int \<Rightarrow> int \<Rightarrow> int \<Rightarrow> lot_row \<Rightarrow> int \<Rightarrow> int \<Rightarrow> int \<Rightarrow> int \<Rightarrow> allocation_slice" where
  "slice_of sell_raw net_out gas lot alloc left net_left gas_left =
     (let ratio = real_of_int alloc / real_of_int (max 1 sell_raw);
          net = (if left = 0 then net_left else py_round (real_of_int net_out * ratio));
          gas' = (if left = 0 then gas_left else py_round (real_of_int gas * ratio));
          lot_ratio = real_of_int alloc / real_of_int (max 1 (max 0 (lt_remaining_token_raw lot)))
      in \<lparr>al_lot = lot, al_raw = alloc, al_fraction = lt_remaining_fraction lot * lot_ratio,
          al_cost = py_round (real_of_int (lt_remaining_entry_cost_wei lot) * lot_ratio),
          al_net = min net_left (max 0 net), al_gas = min gas_left (max 0 gas')\<rparr>)"

text \<open>What the loop asks of one lot: the last lot takes the rest, the others a share that is the
  floor of a double.\<close>

definition wanted_raw :: "int \<Rightarrow> int \<Rightarrow> lot_row \<Rightarrow> bool \<Rightarrow> int \<Rightarrow> int" where
  "wanted_raw sell_raw total_raw lot is_last left =
     (let lot_raw = max 0 (lt_remaining_token_raw lot) in
      if is_last then min lot_raw left
      else min lot_raw \<lfloor>true_division (sell_raw * lot_raw) (max 1 total_raw)\<rfloor>)"

text \<open>The loop over the lots: \<open>left\<close>, \<open>net_left\<close> and \<open>gas_left\<close> are what is still to be allocated.\<close>

primrec allocate_lots ::
  "int \<Rightarrow> int \<Rightarrow> int \<Rightarrow> int \<Rightarrow> lot_row list \<Rightarrow> int \<Rightarrow> int \<Rightarrow> int \<Rightarrow> allocation_slice list \<times> int" where
  "allocate_lots sell_raw total_raw net_out gas [] left net_left gas_left = ([], left)"
| "allocate_lots sell_raw total_raw net_out gas (lot # lots) left net_left gas_left =
     (let wanted = wanted_raw sell_raw total_raw lot (lots = []) left
      in if wanted \<le> 0 then allocate_lots sell_raw total_raw net_out gas lots left net_left gas_left
         else let alloc = min left wanted;
                  left' = max 0 (left - wanted);
                  a = slice_of sell_raw net_out gas lot alloc left' net_left gas_left
              in if left' = 0 then ([a], 0)
                 else let r = allocate_lots sell_raw total_raw net_out gas lots left'
                        (net_left - al_net a) (gas_left - al_gas a)
                      in (a # fst r, snd r))"

definition open_lots :: "book \<Rightarrow> nat \<Rightarrow> lot_row list" where
  "open_lots b position = sort_key lt_id
     (filter (\<lambda>l. lt_position_id l = position \<and> lt_remaining_fraction l > 0
        \<and> lt_trial_id l \<in> tl_id ` set (bk_trials b)) (bk_lots b))"

definition raw_total :: "lot_row list \<Rightarrow> int" where
  "raw_total lots = sum_list (map (\<lambda>l. max 0 (lt_remaining_token_raw l)) lots)"

definition sold_lot :: "datetime \<Rightarrow> allocation_slice \<Rightarrow> lot_row" where
  "sold_lot now a =
     (let lot = al_lot a; new_raw = max 0 (lt_remaining_token_raw lot - al_raw a) in
      lot\<lparr>lt_remaining_fraction := max 0 (lt_remaining_fraction lot - al_fraction a),
          lt_remaining_token_raw := new_raw,
          lt_remaining_entry_cost_wei := max 0 (lt_remaining_entry_cost_wei lot - al_cost a),
          lt_realized_exit_net_wei := lt_realized_exit_net_wei lot + al_net a,
          lt_realized_exit_gas_wei := lt_realized_exit_gas_wei lot + al_gas a,
          lt_closed_at := (if new_raw = 0 then Some now else lt_closed_at lot)\<rparr>)"

definition write_sold_lot :: "datetime \<Rightarrow> allocation_slice \<Rightarrow> lot_row list \<Rightarrow> lot_row list" where
  "write_sold_lot now a rows = map (\<lambda>r. if lt_id r = lt_id (al_lot a) then sold_lot now a else r) rows"

definition outcome_of_lot :: "string \<Rightarrow> datetime \<Rightarrow> lot_row \<Rightarrow> trial_row \<Rightarrow> book \<Rightarrow> outcome_row" where
  "outcome_of_lot reason now l t b =
     (let total_cost = max 1 (lt_entry_total_cost_wei l);
          lot_return = real_of_int (lt_realized_exit_net_wei l) / real_of_int total_cost - 1
      in \<lparr>oc_id = next_id (map oc_id (bk_outcomes b)), oc_release_commit = tl_release_commit t,
          oc_trial_id = lt_trial_id l, oc_token = tl_token t, oc_market = tl_market t, oc_venue = tl_venue t,
          oc_lifecycle = tl_lifecycle t, oc_trigger_actor = tl_trigger_actor t,
          oc_trigger_entity = tl_trigger_entity t, oc_fomo_state = tl_fomo_state t,
          oc_position_fraction = tl_position_fraction t, oc_net_return = lot_return,
          oc_paper_nav_multiplier = max 0 (1 + lt_entry_fraction l * lot_return),
          oc_exit_quote_out_wei = lt_realized_exit_net_wei l,
          oc_exit_gas_wei = lt_realized_exit_gas_wei l, oc_exit_reason = reason, oc_settled_at = now\<rparr>)"

text \<open>\<open>INSERT OR IGNORE\<close> of the outcome of a lot that is sold out.\<close>

definition settle_lot :: "string \<Rightarrow> datetime \<Rightarrow> lot_row \<Rightarrow> book \<Rightarrow> book" where
  "settle_lot reason now l b =
     (case find (\<lambda>t. tl_id t = lt_trial_id l) (bk_trials b) of
        None \<Rightarrow> b
      | Some t \<Rightarrow> if settled_trial b (lt_trial_id l) then b
          else b\<lparr>bk_outcomes := bk_outcomes b @ [outcome_of_lot reason now l t b]\<rparr>)"

record exit_order =
  xo_sell_raw :: int
  xo_event_type :: string
  xo_next_status :: position_status
  xo_next_stage :: int
  xo_reason :: string
  xo_flow_state :: string

definition exit_event ::
  "exit_order \<Rightarrow> exit_quote \<Rightarrow> datetime \<Rightarrow> position_row \<Rightarrow> position_status \<Rightarrow> allocation_slice list \<Rightarrow> book
     \<Rightarrow> position_event" where
  "exit_event x q now p status as b =
     (let realized = sum_list (map al_fraction as); cost = sum_list (map al_cost as);
          event_return = real_of_int (max 0 (xq_net_out_wei q)) / real_of_int (max 1 cost) - 1
      in \<lparr>pe_id = next_id (map pe_id (bk_events b)), pe_position_id = ps_id p,
          pe_event_key = ExitKey (ps_id p) (ps_derisk_stage p) (xo_event_type x) (xo_sell_raw x) (ps_updated_at p),
          pe_event_type = xo_event_type x, pe_state_before = position_status_text (ps_status p),
          pe_state_after = position_status_text status, pe_token_raw = xo_sell_raw x,
          pe_position_fraction = realized, pe_exit_quote_out_wei = Some (xq_gross_out_wei q),
          pe_exit_gas_wei = Some (xq_exit_gas_wei q), pe_allocated_entry_cost_wei = Some cost,
          pe_net_return = Some event_return,
          pe_paper_nav_multiplier = Some (max 0 (1 + realized * event_return)),
          pe_reason = xo_reason x, pe_created_at = now\<rparr>)"

definition sold_position ::
  "exit_order \<Rightarrow> datetime \<Rightarrow> position_status \<Rightarrow> int \<Rightarrow> real \<Rightarrow> position_row \<Rightarrow> position_row" where
  "sold_position x now status raw fraction p =
     p\<lparr>ps_status := status, ps_remaining_fraction := fraction, ps_remaining_token_raw := raw,
       ps_derisk_stage := xo_next_stage x, ps_runner_active := (status = Runner),
       ps_last_flow_state := xo_flow_state x, ps_updated_at := now,
       ps_closed_at := (if status = Closed then Some now else ps_closed_at p),
       ps_close_reason := (if status = Closed then Some (xo_reason x) else ps_close_reason p)\<rparr>"

definition CLOSED_BELOW :: real where
  "CLOSED_BELOW = 1 / 10 ^ 12"

text \<open>What remains of the position that \<open>p\<close> was when it was read, and its status.\<close>

definition remaining_after :: "exit_order \<Rightarrow> real \<Rightarrow> position_row \<Rightarrow> position_status \<times> int \<times> real" where
  "remaining_after x realized p =
     (let raw = max 0 (ps_remaining_token_raw p - xo_sell_raw x);
          fraction = max 0 (ps_remaining_fraction p - realized)
      in if raw = 0 \<or> fraction \<le> CLOSED_BELOW then (Closed, 0, 0) else (xo_next_status x, raw, fraction))"

text \<open>The unique index on the tokens of open positions, after an update.\<close>

definition open_token_unique :: "book \<Rightarrow> bool" where
  "open_token_unique b \<longleftrightarrow>
     distinct (map ps_token (filter (\<lambda>p. open_status (ps_status p)) (bk_positions b)))"

text \<open>\<open>_apply_exit\<close>: \<open>p\<close> is the position row as the caller read it.\<close>

definition apply_exit_lots :: "exit_order \<Rightarrow> exit_quote \<Rightarrow> lot_row list \<Rightarrow> allocation_slice list \<times> int" where
  "apply_exit_lots x q lots = allocate_lots (xo_sell_raw x) (raw_total lots) (max 0 (xq_net_out_wei q))
     (max 0 (xq_exit_gas_wei q)) lots (xo_sell_raw x) (max 0 (xq_net_out_wei q)) (max 0 (xq_exit_gas_wei q))"

definition write_exit ::
  "exit_order \<Rightarrow> exit_quote \<Rightarrow> datetime \<Rightarrow> position_row \<Rightarrow> allocation_slice list \<Rightarrow> book \<Rightarrow> unit result \<times> book" where
  "write_exit x q now p as b =
     (let (status, raw, fraction) = remaining_after x (sum_list (map al_fraction as)) p;
          b1 = b\<lparr>bk_lots := fold (write_sold_lot now) as (bk_lots b)\<rparr>;
          b2 = update_position (ps_id p) (sold_position x now status raw fraction) b1;
          e = exit_event x q now p status as b2;
          b3 = (if \<exists>r\<in>set (bk_events b2). pe_event_key r = pe_event_key e then b2
                else b2\<lparr>bk_events := bk_events b2 @ [e]\<rparr>);
          closed_lots = filter (\<lambda>l. lt_remaining_token_raw l = 0) (map (sold_lot now) as)
      in if \<not> open_token_unique b2 then (Inl (IntegrityError ''UNIQUE(token)''), b)
         else (Inr (), fold (settle_lot (xo_reason x) now) closed_lots b3))"

definition apply_exit ::
  "exit_order \<Rightarrow> exit_quote \<Rightarrow> datetime \<Rightarrow> position_row \<Rightarrow> book \<Rightarrow> unit result \<times> book" where
  "apply_exit x q now p b =
     (let lots = open_lots b (ps_id p); total_raw = raw_total lots in
      if total_raw \<le> 0 \<or> xo_sell_raw x > total_raw then (Inr (), b)
      else case apply_exit_lots x q lots of
        (as, left) \<Rightarrow> if left > 0 then (Inr (), b) else write_exit x q now p as b)"


subsection \<open>Settlement\<close>

record exit_policy =
  xp_source :: string
  xp_stop :: real
  xp_harvest :: real
  xp_max_hold :: real

datatype settle_action = Hold | MarkRunner | Sell exit_order

definition healthy_flow :: "string \<Rightarrow> bool" where
  "healthy_flow flow \<longleftrightarrow> flow \<in> {''entity_accumulation'', ''pre_fomo'', ''active_fomo''}"

definition staged_sale :: "position_policy \<Rightarrow> exit_policy \<Rightarrow> position_row \<Rightarrow> string \<Rightarrow> exit_order" where
  "staged_sale pol xp p flow =
     (let raw = max 0 (ps_remaining_token_raw p) in
      if ps_derisk_stage p = 0 then
        \<lparr>xo_sell_raw = max 1 (py_round (real_of_int raw * pp_first_derisk_fraction_of_position pol)),
         xo_event_type = ''stage_derisk_1'', xo_next_status = De_risking, xo_next_stage = 1,
         xo_reason = (if flow = ''exhaustion'' then ''flow_deterioration'' else xp_source xp @ '':harvest_derisk_1''),
         xo_flow_state = flow\<rparr>
      else
        \<lparr>xo_sell_raw = max 1 (py_round (real_of_int raw * pp_second_derisk_fraction_of_position pol)),
         xo_event_type = ''stage_derisk_2'', xo_next_status = De_risking, xo_next_stage = 2,
         xo_reason = (if flow = ''exhaustion'' then ''persistent_flow_deterioration''
                      else xp_source xp @ '':harvest_derisk_2''),
         xo_flow_state = flow\<rparr>)"

definition runner_sale :: "position_policy \<Rightarrow> position_row \<Rightarrow> string \<Rightarrow> settle_action" where
  "runner_sale pol p flow =
     (let raw = max 0 (ps_remaining_token_raw p); fraction = max 0 (ps_remaining_fraction p);
          runner_fraction = min fraction (ps_target_fraction p * pp_runner_fraction_of_target pol);
          keep_ratio = runner_fraction / max fraction (1 / 10 ^ 12);
          keep_raw = max 0 (py_round (real_of_int raw * keep_ratio));
          sell_raw = max 0 (raw - keep_raw)
      in if sell_raw \<le> 0 then MarkRunner
         else Sell \<lparr>xo_sell_raw = sell_raw, xo_event_type = ''enter_runner'', xo_next_status = Runner,
                xo_next_stage = 2, xo_reason = ''runner_conditions_healthy'', xo_flow_state = flow\<rparr>)"

definition full_sale :: "position_row \<Rightarrow> string \<Rightarrow> int \<Rightarrow> string \<Rightarrow> string \<Rightarrow> settle_action" where
  "full_sale p event_type stage reason flow =
     Sell \<lparr>xo_sell_raw = max 0 (ps_remaining_token_raw p), xo_event_type = event_type, xo_next_status = Closed,
           xo_next_stage = stage, xo_reason = reason, xo_flow_state = flow\<rparr>"

definition settle_action_of ::
  "position_policy \<Rightarrow> exit_policy \<Rightarrow> position_row \<Rightarrow> real \<Rightarrow> real \<Rightarrow> string \<Rightarrow> settle_action" where
  "settle_action_of pol xp p net_return elapsed flow =
     (let healthy = healthy_flow flow \<and> net_return > xp_stop xp;
          deterioration = flow = ''exhaustion'' \<or> net_return \<ge> xp_harvest xp;
          stage = ps_derisk_stage p
      in if ps_status p = Runner then
           (if healthy then Hold else full_sale p ''exit_runner'' stage ''runner_conditions_failed'' flow)
         else if net_return \<le> xp_stop xp then full_sale p ''full_exit'' stage (xp_source xp @ '':stop_loss'') flow
         else if elapsed \<ge> xp_max_hold xp then full_sale p ''full_exit'' stage (xp_source xp @ '':max_hold'') flow
         else if deterioration \<and> (stage = 0 \<or> stage = 1) then Sell (staged_sale pol xp p flow)
         else if stage \<ge> 2 then
           (if healthy then runner_sale pol p flow
            else full_sale p ''full_exit'' 2 ''deterioration_persisted_after_staged_derisk'' flow)
         else Hold)"

definition leader_trial_id :: "book \<Rightarrow> nat \<Rightarrow> nat option" where
  "leader_trial_id b position =
     (case sort_key lt_id (filter (\<lambda>l. lt_position_id l = position \<and> lt_remaining_fraction l > 0) (bk_lots b)) of
        [] \<Rightarrow> None | l # _ \<Rightarrow> Some (lt_trial_id l))"

definition remaining_cost :: "book \<Rightarrow> nat \<Rightarrow> int" where
  "remaining_cost b position = sum_list (map (\<lambda>l. max 0 (lt_remaining_entry_cost_wei l))
     (filter (\<lambda>l. lt_position_id l = position \<and> lt_remaining_fraction l > 0) (bk_lots b)))"

text \<open>\<open>_settle_one_with_lifecycle\<close> of one trial: what it reads leads to a plan. Between the reads and the write the code awaits
  quotes: \<open>b0\<close> is the book when it reads the position, \<open>b\<close> the book when it writes the exit. A trial
  without a lot is left to the base method, which \<open>base\<close> stands for.\<close>

definition mark_runner :: "nat \<Rightarrow> datetime \<Rightarrow> book \<Rightarrow> book" where
  "mark_runner i now b =
     update_position i (\<lambda>p. p\<lparr>ps_status := Runner, ps_runner_active := True, ps_updated_at := now\<rparr>) b"

datatype settle_plan = Untracked | Nothing | Mark position_row | Exit position_row exit_order exit_quote

definition plan_position ::
  "position_policy \<Rightarrow> exit_policy \<Rightarrow> (string \<Rightarrow> string \<Rightarrow> string \<Rightarrow> int \<Rightarrow> exit_quote option result) \<Rightarrow> string
     \<Rightarrow> datetime \<Rightarrow> position_row \<Rightarrow> int \<Rightarrow> settle_plan" where
  "plan_position pol xp quote flow now p cost =
     (let raw = max 0 (ps_remaining_token_raw p);
          sell = quote (clean_address (Some (ps_token p))) (clean_address (Some (ps_market p))) (ps_venue p);
          elapsed = max 0 (total_seconds (now - ps_opened_at p))
      in if raw \<le> 0 \<or> max 0 (ps_remaining_fraction p) \<le> 0 \<or> cost \<le> 0 then Nothing else
      case sell raw of
        Inr (Some aggregate) \<Rightarrow>
          if xq_gross_out_wei aggregate \<le> 0 then Nothing else
          let net_return = real_of_int (xq_net_out_wei aggregate) / real_of_int (max 1 cost) - 1 in
          (case settle_action_of pol xp p net_return elapsed flow of
             Hold \<Rightarrow> Nothing
           | MarkRunner \<Rightarrow> Mark p
           | Sell x \<Rightarrow>
               let sell_raw = min raw (max 0 (xo_sell_raw x)) in
               if sell_raw \<le> 0 then Nothing else
               case (if sell_raw = raw then Inr (Some aggregate) else sell sell_raw) of
                 Inr (Some exact) \<Rightarrow>
                   if xq_gross_out_wei exact \<le> 0 then Nothing else Exit p (x\<lparr>xo_sell_raw := sell_raw\<rparr>) exact
               | _ \<Rightarrow> Nothing)
      | _ \<Rightarrow> Nothing)"

definition settle_plan_of ::
  "position_policy \<Rightarrow> exit_policy \<Rightarrow> (string \<Rightarrow> string \<Rightarrow> string \<Rightarrow> int \<Rightarrow> exit_quote option result) \<Rightarrow> string
     \<Rightarrow> datetime \<Rightarrow> nat \<Rightarrow> book \<Rightarrow> settle_plan" where
  "settle_plan_of pol xp quote flow now trial b =
     (case find (\<lambda>l. lt_trial_id l = trial \<and> lt_position_id l \<in> ps_id ` set (bk_positions b)) (bk_lots b) of
        None \<Rightarrow> Untracked
      | Some lot \<Rightarrow>
          if leader_trial_id b (lt_position_id lot) \<noteq> Some trial then Nothing
          else (case find (\<lambda>p. ps_id p = lt_position_id lot) (bk_positions b) of
                  None \<Rightarrow> Nothing
                | Some p \<Rightarrow> plan_position pol xp quote flow now p (remaining_cost b (ps_id p))))"

definition settle_one_with_lifecycle ::
  "position_policy \<Rightarrow> exit_policy \<Rightarrow> (string \<Rightarrow> string \<Rightarrow> string \<Rightarrow> int \<Rightarrow> exit_quote option result) \<Rightarrow> string
     \<Rightarrow> datetime \<Rightarrow> (nat \<Rightarrow> book \<Rightarrow> unit result \<times> book) \<Rightarrow> nat \<Rightarrow> book \<Rightarrow> book \<Rightarrow> unit result \<times> book" where
  "settle_one_with_lifecycle pol xp quote flow now base trial b0 b =
     (case settle_plan_of pol xp quote flow now trial b0 of
        Untracked \<Rightarrow> base trial b
      | Nothing \<Rightarrow> (Inr (), b)
      | Mark p \<Rightarrow> (Inr (), mark_runner (ps_id p) now b)
      | Exit p x q \<Rightarrow> apply_exit x q now p b)"

text \<open>\<open>_position_flow_state\<close>: the flow metrics of the market, where it is known and they can be read.\<close>

definition position_flow_state ::
  "(string \<Rightarrow> string option result option) \<Rightarrow> (string \<Rightarrow> string option result option) \<Rightarrow> position_row \<Rightarrow> string" where
  "position_flow_state v3_pools v2_curves p =
     (let market = clean_address (Some (ps_market p));
          state_of = (\<lambda>m. case m of Some (Inr s) \<Rightarrow> or_text s ''neutral'' | _ \<Rightarrow> ''neutral'')
      in if ps_venue p \<in> {''PONS_V1_UNISWAP_V3'', ''UNISWAP_V3_DIRECT''} then state_of (v3_pools market)
         else if ps_venue p = ''PONS_V2_CURVE'' then state_of (v2_curves market)
         else ''neutral'')"

subsection \<open>Reports\<close>

definition multiplier_of :: "real \<Rightarrow> real" where
  "multiplier_of m = max 0 (if m = 0 then 1 else m)"

definition product :: "real list \<Rightarrow> real" where
  "product xs = fold (\<lambda>x acc. acc * x) xs 1"

definition paper_nav_with_lifecycle :: "book \<Rightarrow> real" where
  "paper_nav_with_lifecycle b =
     (let legacy = map oc_paper_nav_multiplier
            (filter (\<lambda>r. \<not> tracked_trial b (oc_trial_id r)) (sort_key oc_id (bk_outcomes b)));
          events = List.map_filter pe_paper_nav_multiplier (sort_key pe_id (bk_events b))
      in bk_starting_nav_usd b * (product (map multiplier_of legacy) * product (map multiplier_of events)))"

definition open_exposure_with_lifecycle :: "book \<Rightarrow> real" where
  "open_exposure_with_lifecycle b =
     (let managed = sum_list (map ps_remaining_fraction (filter (\<lambda>p. open_status (ps_status p)) (bk_positions b)));
          legacy = sum_list (map tl_position_fraction
            (filter (\<lambda>t. \<not> settled_trial b (tl_id t) \<and> \<not> tracked_trial b (tl_id t)) (bk_trials b)))
      in min 1 (max 0 (managed + legacy)))"

definition lifecycle_counts :: "book \<Rightarrow> nat \<times> nat \<times> nat" where
  "lifecycle_counts b = (length (filter (\<lambda>p. open_status (ps_status p)) (bk_positions b)),
     length (bk_lots b), length (bk_events b))"


subsection \<open>Adoption of trials opened before the lifecycle\<close>

text \<open>\<open>_bootstrap_existing_open_trials\<close>. \<open>frozen\<close> tells which releases belong to the frozen epoch, \<open>None\<close>
  that the table of releases does not exist.\<close>

definition adoptable_rows :: "(string \<Rightarrow> bool) \<Rightarrow> book \<Rightarrow> (trial_row \<times> context_row) list" where
  "adoptable_rows frozen b = List.map_filter
     (\<lambda>t. map_option (\<lambda>c. (t, c)) (find (\<lambda>c. tc_trial_id c = tl_id t) (bk_contexts b)))
     (sort_key tl_id (filter (\<lambda>t. frozen (tl_release_commit t) \<and> \<not> settled_trial b (tl_id t)
        \<and> \<not> tracked_trial b (tl_id t)) (bk_trials b)))"

definition adopted_evidence :: "trial_row \<Rightarrow> context_row \<Rightarrow> evidence_payload" where
  "adopted_evidence t c = (let lane = or_text (Some (tc_lane c)) ''unknown'' in
     \<lparr>ep_entity = tl_trigger_entity t, ep_role = or_text (Some (tc_trigger_role c)) ''unknown'',
      ep_lane = lane, ep_venue = or_text (Some (tl_venue t)) ''UNKNOWN'',
      ep_lifecycle = or_text (Some (tl_lifecycle t)) ''unknown'',
      ep_regime = or_text (Some (tc_regime c)) ''unknown'',
      ep_risk_signature = or_text (Some (tc_risk_signature c)) ''clean'',
      ep_risk_severity = tc_risk_severity c, ep_flow_state = or_text (Some (tc_flow_state c)) ''neutral'',
      ep_lanes = [lane]\<rparr>)"

definition adopted_position ::
  "position_policy \<Rightarrow> string \<Rightarrow> datetime \<Rightarrow> trial_row \<Rightarrow> context_row \<Rightarrow> book \<Rightarrow> position_row" where
  "adopted_position pol evidence now t c b =
     (let token = clean_address (Some (tl_token t)); generation = next_generation token b;
          fraction = max 0 (tl_position_fraction t)
      in \<lparr>ps_id = next_id (map ps_id (bk_positions b)), ps_position_key = (token, generation),
          ps_token = token, ps_market = clean_address (Some (tl_market t)),
          ps_venue = or_text (Some (tl_venue t)) ''UNKNOWN'',
          ps_lifecycle = or_text (Some (tl_lifecycle t)) ''unknown'', ps_generation = generation,
          ps_status = Entered,
          ps_target_fraction = max fraction (fraction / max (1 / 10 ^ 12) (pp_starter_fraction_of_target pol)),
          ps_opened_fraction = fraction, ps_remaining_fraction = fraction,
          ps_remaining_token_raw = max 0 (tl_entry_token_raw t),
          ps_weighted_entry_price_eth = tl_entry_price_eth t, ps_last_add_price_eth = tl_entry_price_eth t,
          ps_last_evidence_fingerprint = evidence, ps_last_evidence = adopted_evidence t c,
          ps_impulse_id = evidence, ps_last_trigger_entity = tl_trigger_entity t,
          ps_last_lane = tc_lane c, ps_last_risk_severity = tc_risk_severity c,
          ps_last_flow_state = or_text (Some (tc_flow_state c)) ''neutral'', ps_derisk_stage = 0,
          ps_runner_active = False, ps_opened_at = tl_opened_at t, ps_updated_at = now,
          ps_closed_at = None, ps_close_reason = None\<rparr>)"

definition adopting_position :: "string \<Rightarrow> datetime \<Rightarrow> trial_row \<Rightarrow> context_row \<Rightarrow> position_row \<Rightarrow> position_row" where
  "adopting_position evidence now t c p =
     (let old_raw = max 0 (ps_remaining_token_raw p); add_raw = max 0 (tl_entry_token_raw t);
          old_fraction = max 0 (ps_remaining_fraction p); add_fraction = max 0 (tl_position_fraction t)
      in p\<lparr>ps_status := Scaling, ps_opened_fraction := ps_opened_fraction p + add_fraction,
           ps_remaining_fraction := old_fraction + add_fraction, ps_remaining_token_raw := old_raw + add_raw,
           ps_weighted_entry_price_eth := weighted_price old_raw (ps_weighted_entry_price_eth p)
             add_raw (tl_entry_price_eth t) 0,
           ps_last_add_price_eth := tl_entry_price_eth t, ps_last_evidence_fingerprint := evidence,
           ps_last_evidence := adopted_evidence t c, ps_last_trigger_entity := tl_trigger_entity t,
           ps_last_lane := tc_lane c, ps_last_risk_severity := tc_risk_severity c,
           ps_last_flow_state := or_text (Some (tc_flow_state c)) ''neutral'', ps_updated_at := now\<rparr>)"

definition adopted_lot :: "string \<Rightarrow> nat \<Rightarrow> entry_stage \<Rightarrow> trial_row \<Rightarrow> book \<Rightarrow> lot_row" where
  "adopted_lot evidence position stage t b =
     \<lparr>lt_id = next_id (map lt_id (bk_lots b)), lt_position_id = position, lt_trial_id = tl_id t,
      lt_lot_stage = stage, lt_entry_fraction = tl_position_fraction t,
      lt_remaining_fraction = tl_position_fraction t, lt_entry_token_raw = tl_entry_token_raw t,
      lt_remaining_token_raw = tl_entry_token_raw t, lt_entry_total_cost_wei = tl_entry_total_cost_wei t,
      lt_remaining_entry_cost_wei = tl_entry_total_cost_wei t, lt_realized_exit_net_wei = 0,
      lt_realized_exit_gas_wei = 0, lt_entry_price_eth = tl_entry_price_eth t,
      lt_evidence_fingerprint = evidence, lt_capital_reservation_id = tl_capital_reservation_id t,
      lt_opened_at = tl_opened_at t, lt_closed_at = None\<rparr>"

text \<open>One row: the lot is inserted with \<open>INSERT OR IGNORE\<close>, after the position has been written.\<close>

definition adopt_trial ::
  "position_policy \<Rightarrow> (evidence_payload \<Rightarrow> string) \<Rightarrow> datetime \<Rightarrow> trial_row \<times> context_row \<Rightarrow> book \<Rightarrow> book result" where
  "adopt_trial pol fingerprint now tc b =
     (let (t, c) = tc; token = clean_address (Some (tl_token t));
          evidence = fingerprint (adopted_evidence t c);
          add = (\<lambda>position stage b. case insert_lot (adopted_lot evidence position stage t b) b of
                   Inl _ \<Rightarrow> b | Inr b' \<Rightarrow> b')
      in if token = [] then Inr b else
         case open_row token b of
           None \<Rightarrow> (let p = adopted_position pol evidence now t c b in
             bind_result (insert_position p b) (\<lambda>b1. Inr (add (ps_id p) Starter b1)))
         | Some p \<Rightarrow> Inr (add (ps_id p) Add (update_position (ps_id p) (adopting_position evidence now t c) b)))"

fun adopt_trials ::
  "position_policy \<Rightarrow> (evidence_payload \<Rightarrow> string) \<Rightarrow> datetime \<Rightarrow> (trial_row \<times> context_row) list \<Rightarrow> book
     \<Rightarrow> unit result \<times> book" where
  "adopt_trials pol fingerprint now [] b = (Inr (), b)"
| "adopt_trials pol fingerprint now (tc # rest) b =
     (case adopt_trial pol fingerprint now tc b of
        Inl e \<Rightarrow> (Inl e, b)
      | Inr b' \<Rightarrow> adopt_trials pol fingerprint now rest b')"

definition bootstrap_existing_open_trials ::
  "position_policy \<Rightarrow> (evidence_payload \<Rightarrow> string) \<Rightarrow> (string \<Rightarrow> bool) option \<Rightarrow> datetime \<Rightarrow> book \<Rightarrow> unit result \<times> book" where
  "bootstrap_existing_open_trials pol fingerprint frozen now b =
     (if bk_bootstrap_done b then (Inr (), b)
      else case frozen of
        None \<Rightarrow> (Inr (), b\<lparr>bk_bootstrap_done := True\<rparr>)
      | Some is_frozen \<Rightarrow>
          (case adopt_trials pol fingerprint now (adoptable_rows is_frozen b) b of
             (Inl e, b') \<Rightarrow> (Inl e, b')
           | (Inr _, b') \<Rightarrow> (Inr (), b'\<lparr>bk_bootstrap_done := True\<rparr>)))"

text \<open>A new process starts with the tables and without what the old one kept in memory.\<close>

definition new_process :: "book \<Rightarrow> book" where
  "new_process b = b\<lparr>bk_pending := [], bk_bootstrap_done := False\<rparr>"

end
