(* ===== verification/PositionBooks.thy ===== *)
theory PositionBooks
  imports Positions
begin

text \<open>
  What the position lifecycle keeps: the position rows agree with their lots, a lot is sold
  out exactly when its trial is settled, and an exit divides what it sells, the wei
  it brings and the gas it costs among the lots without remainder. The theorems also show where the
  code falls short: exits of positions whose lots no double can hold, exits written
  from an outdated row, and trials adopted twice.
\<close>

subsection \<open>Allocation of an exit to the lots\<close>

lemma wanted_raw_bounds:
  "wanted_raw s t lot e left \<le> max 0 (lt_remaining_token_raw lot)"
  by (simp add: wanted_raw_def Let_def)

lemma slice_of_simps [simp]:
  "al_lot (slice_of s n g lot alloc left nl gl) = lot"
  "al_raw (slice_of s n g lot alloc left nl gl) = alloc"
  "al_fraction (slice_of s n g lot alloc left nl gl) =
     lt_remaining_fraction lot * (real_of_int alloc / real_of_int (max 1 (max 0 (lt_remaining_token_raw lot))))"
  by (simp_all add: slice_of_def Let_def)

lemma slice_of_all:
  assumes "0 \<le> nl" and "0 \<le> gl"
  shows "al_net (slice_of s n g lot alloc 0 nl gl) = nl" "al_gas (slice_of s n g lot alloc 0 nl gl) = gl"
  using assms by (simp_all add: slice_of_def Let_def)

lemma slice_of_within:
  assumes "0 \<le> nl" and "0 \<le> gl"
  shows "0 \<le> al_net (slice_of s n g lot alloc left nl gl)" "al_net (slice_of s n g lot alloc left nl gl) \<le> nl"
    "0 \<le> al_gas (slice_of s n g lot alloc left nl gl)" "al_gas (slice_of s n g lot alloc left nl gl) \<le> gl"
  using assms by (simp_all add: slice_of_def Let_def)

text \<open>A slice takes a positive part of what its lot holds, and the matching part of its fraction.\<close>

definition slice_ok :: "lot_row list \<Rightarrow> allocation_slice \<Rightarrow> bool" where
  "slice_ok lots a \<longleftrightarrow> al_lot a \<in> set lots \<and> 0 < al_raw a \<and> al_raw a \<le> lt_remaining_token_raw (al_lot a)
     \<and> al_fraction a = lt_remaining_fraction (al_lot a)
         * (real_of_int (al_raw a) / real_of_int (lt_remaining_token_raw (al_lot a)))"

lemma slice_ok_mono: "slice_ok lots a \<Longrightarrow> slice_ok (l # lots) a"
  by (simp add: slice_ok_def)

lemma allocate_skip:
  "wanted_raw s t lot (lots = []) left \<le> 0 \<Longrightarrow>
     allocate_lots s t n g (lot # lots) left nl gl = allocate_lots s t n g lots left nl gl"
  by (simp add: Let_def)

lemma allocate_stop:
  "0 < wanted_raw s t lot (lots = []) left \<Longrightarrow> left \<le> wanted_raw s t lot (lots = []) left \<Longrightarrow>
     allocate_lots s t n g (lot # lots) left nl gl = ([slice_of s n g lot left 0 nl gl], 0)"
  by (simp add: Let_def min_def)

lemma allocate_more:
  "0 < wanted_raw s t lot (lots = []) left \<Longrightarrow> wanted_raw s t lot (lots = []) left < left \<Longrightarrow>
     a = slice_of s n g lot (wanted_raw s t lot (lots = []) left) (left - wanted_raw s t lot (lots = []) left) nl gl \<Longrightarrow>
     r = allocate_lots s t n g lots (left - wanted_raw s t lot (lots = []) left) (nl - al_net a) (gl - al_gas a) \<Longrightarrow>
     allocate_lots s t n g (lot # lots) left nl gl = (a # fst r, snd r)"
  by (simp add: Let_def min_def max_def)

declare allocate_lots.simps(2) [simp del]

text \<open>The loop as an induction: a lot is skipped, or takes all that is left, or takes its share.\<close>

lemma allocate_induct [consumes 1, case_names empty skip stop more]:
  assumes "0 < left"
    and "\<And>left nl gl. 0 < left \<Longrightarrow> P [] left nl gl ([], left)"
    and "\<And>lot lots left nl gl. 0 < left \<Longrightarrow> P lots left nl gl (allocate_lots s t n g lots left nl gl) \<Longrightarrow>
      P (lot # lots) left nl gl (allocate_lots s t n g lots left nl gl)"
    and "\<And>lot lots left nl gl. 0 < left \<Longrightarrow> left \<le> lt_remaining_token_raw lot \<Longrightarrow>
      P (lot # lots) left nl gl ([slice_of s n g lot left 0 nl gl], 0)"
    and "\<And>lot lots left nl gl w a r. 0 < w \<Longrightarrow> w < left \<Longrightarrow> w \<le> lt_remaining_token_raw lot \<Longrightarrow>
      a = slice_of s n g lot w (left - w) nl gl \<Longrightarrow>
      r = allocate_lots s t n g lots (left - w) (nl - al_net a) (gl - al_gas a) \<Longrightarrow>
      P lots (left - w) (nl - al_net a) (gl - al_gas a) r \<Longrightarrow> P (lot # lots) left nl gl (a # fst r, snd r)"
  shows "P lots left nl gl (allocate_lots s t n g lots left nl gl)"
  using assms(1)
proof (induction lots arbitrary: left nl gl)
  case Nil
  then show ?case using assms(2) by simp
next
  case (Cons lot lots)
  define w where "w = wanted_raw s t lot (lots = []) left"
  have le: "w \<le> max 0 (lt_remaining_token_raw lot)" by (simp add: w_def wanted_raw_bounds)
  consider "w \<le> 0" | "0 < w" "left \<le> w" | "0 < w" "w < left" by linarith
  then show ?case
  proof cases
    case 1
    with Cons assms(3) show ?thesis by (simp add: w_def allocate_skip)
  next
    case 2
    with le Cons.prems assms(4) show ?thesis by (simp add: w_def [symmetric] allocate_stop)
  next
    case 3
    define a where "a = slice_of s n g lot w (left - w) nl gl"
    define r where "r = allocate_lots s t n g lots (left - w) (nl - al_net a) (gl - al_gas a)"
    have "P lots (left - w) (nl - al_net a) (gl - al_gas a) r"
      unfolding r_def using 3 by (intro Cons.IH) simp
    moreover have "w \<le> lt_remaining_token_raw lot" using le 3 by linarith
    ultimately have "P (lot # lots) left nl gl (a # fst r, snd r)" using 3 a_def r_def by (intro assms(5)) auto
    moreover have "allocate_lots s t n g (lot # lots) left nl gl = (a # fst r, snd r)"
      using 3 by (intro allocate_more) (simp_all add: w_def [symmetric] a_def r_def)
    ultimately show ?thesis by simp
  qed
qed

lemma allocate_slices:
  "0 < left \<Longrightarrow> \<forall>a\<in>set (fst (allocate_lots s t n g lots left nl gl)). slice_ok lots a"
proof (induction lots left nl gl rule: allocate_induct [where s = s and t = t and n = n and g = g])
  case (stop lot lots left nl gl)
  then show ?case by (simp add: slice_ok_def)
next
  case (more lot lots left nl gl w a r)
  then show ?case by (auto simp: slice_ok_def)
qed (auto intro: slice_ok_mono)

lemma allocate_distinct:
  "0 < left \<Longrightarrow> distinct (map k lots) \<Longrightarrow>
     distinct (map (\<lambda>a. k (al_lot a)) (fst (allocate_lots s t n g lots left nl gl)))"
proof (induction lots left nl gl rule: allocate_induct [where s = s and t = t and n = n and g = g])
  case (more lot lots left nl gl w a r)
  have "\<forall>a\<in>set (fst r). slice_ok lots a" unfolding more.hyps(5) using more.hyps(1, 2) by (intro allocate_slices) simp
  with more show ?case by (fastforce simp: slice_ok_def)
qed simp_all

lemma allocate_total:
  "0 < left \<Longrightarrow> 0 \<le> snd (allocate_lots s t n g lots left nl gl)
     \<and> sum_list (map al_raw (fst (allocate_lots s t n g lots left nl gl)))
         = left - snd (allocate_lots s t n g lots left nl gl)"
  by (induction lots left nl gl rule: allocate_induct [where s = s and t = t and n = n and g = g]) auto

lemma allocate_money:
  "0 < left \<Longrightarrow> 0 \<le> nl \<Longrightarrow> 0 \<le> gl \<Longrightarrow> snd (allocate_lots s t n g lots left nl gl) = 0 \<Longrightarrow>
     sum_list (map al_net (fst (allocate_lots s t n g lots left nl gl))) = nl
     \<and> sum_list (map al_gas (fst (allocate_lots s t n g lots left nl gl))) = gl"
proof (induction lots left nl gl rule: allocate_induct [where s = s and t = t and n = n and g = g])
  case (more lot lots left nl gl w a r)
  then show ?case by (simp add: slice_of_within)
qed (simp_all add: slice_of_all)


text \<open>A sale of everything: each lot but the last is asked for the double nearest to what it holds,
  so the sale succeeds exactly when none of these doubles is too small.\<close>

definition held_by_double :: "lot_row \<Rightarrow> bool" where
  "held_by_double l \<longleftrightarrow> lt_remaining_token_raw l \<le> \<lfloor>double (real_of_int (lt_remaining_token_raw l))\<rfloor>"

lemma raw_total_simps [simp]:
  "raw_total [] = 0"
  "raw_total (l # ls) = max 0 (lt_remaining_token_raw l) + raw_total ls"
  by (simp_all add: raw_total_def)

lemma raw_total_pos: "ls \<noteq> [] \<Longrightarrow> \<forall>l\<in>set ls. 0 < lt_remaining_token_raw l \<Longrightarrow> 0 < raw_total ls"
proof (induction ls)
  case (Cons l ls)
  then show ?case by (cases "ls = []") auto
qed simp

lemma wanted_of_everything:
  assumes "0 < t" and "0 < lt_remaining_token_raw lot"
  shows "wanted_raw t t lot False left = min (lt_remaining_token_raw lot) \<lfloor>double (real_of_int (lt_remaining_token_raw lot))\<rfloor>"
  using assms by (simp add: wanted_raw_def Let_def true_division_scaled)

lemma full_sale_iff:
  assumes "0 < t" and "\<forall>l\<in>set lots. 0 < lt_remaining_token_raw l" and "raw_total lots \<le> left" and "lots \<noteq> []"
  shows "snd (allocate_lots t t n g lots left nl gl) = 0 \<longleftrightarrow> left = raw_total lots \<and> list_all held_by_double (butlast lots)"
  using assms(2-4)
proof (induction lots arbitrary: left nl gl)
  case (Cons lot lots)
  have pos: "0 < lt_remaining_token_raw lot" using Cons.prems by simp
  show ?case
  proof (cases "lots = []")
    case True
    have w: "wanted_raw t t lot (lots = []) left = lt_remaining_token_raw lot"
      using True pos Cons.prems by (simp add: wanted_raw_def Let_def)
    show ?thesis
    proof (cases "left = lt_remaining_token_raw lot")
      case True
      with w pos \<open>lots = []\<close> show ?thesis by (simp add: allocate_stop)
    next
      case False
      with w pos Cons.prems True show ?thesis
        by (simp add: allocate_more [OF _ _ refl refl])
    qed
  next
    case False
    define w where "w = wanted_raw t t lot (lots = []) left"
    have w: "w = min (lt_remaining_token_raw lot) \<lfloor>double (real_of_int (lt_remaining_token_raw lot))\<rfloor>"
      using False wanted_of_everything [OF assms(1) pos] by (simp add: w_def)
    have "1 \<le> \<lfloor>double (real_of_int (lt_remaining_token_raw lot))\<rfloor>"
      using double_int_pos [OF pos] by (simp add: le_floor_iff)
    with w pos have one: "0 < w" "w \<le> lt_remaining_token_raw lot" by auto
    have rest: "0 < raw_total lots" using False Cons.prems by (intro raw_total_pos) auto
    have IH: "snd (allocate_lots t t n g lots (left - w) nl' gl') = 0 \<longleftrightarrow>
        left - w = raw_total lots \<and> list_all held_by_double (butlast lots)" for nl' gl'
      using one Cons.prems pos False by (intro Cons.IH) auto
    have "w < left" using one rest Cons.prems pos by simp
    then have "snd (allocate_lots t t n g (lot # lots) left nl gl) = 0 \<longleftrightarrow>
        left - w = raw_total lots \<and> list_all held_by_double (butlast lots)"
      using one allocate_more [of t t lot lots left _ n g nl gl, OF _ _ refl refl] IH by (simp add: w_def)
    moreover have "left - w = raw_total lots \<longleftrightarrow> left = raw_total (lot # lots) \<and> held_by_double lot"
      using one w pos Cons.prems by (auto simp: held_by_double_def)
    ultimately show ?thesis using False by auto
  qed
qed simp


subsection \<open>Writing an exit\<close>

lemma sold_lot_keeps [simp]:
  "lt_id (sold_lot now a) = lt_id (al_lot a)" "lt_position_id (sold_lot now a) = lt_position_id (al_lot a)"
  "lt_trial_id (sold_lot now a) = lt_trial_id (al_lot a)"
  "lt_entry_fraction (sold_lot now a) = lt_entry_fraction (al_lot a)"
  "lt_entry_token_raw (sold_lot now a) = lt_entry_token_raw (al_lot a)"
  "lt_entry_total_cost_wei (sold_lot now a) = lt_entry_total_cost_wei (al_lot a)"
  "lt_evidence_fingerprint (sold_lot now a) = lt_evidence_fingerprint (al_lot a)"
  by (simp_all add: sold_lot_def Let_def)

lemma sold_lot_money [simp]:
  "lt_realized_exit_net_wei (sold_lot now a) = lt_realized_exit_net_wei (al_lot a) + al_net a"
  "lt_realized_exit_gas_wei (sold_lot now a) = lt_realized_exit_gas_wei (al_lot a) + al_gas a"
  by (simp_all add: sold_lot_def Let_def)

lemma sold_lot_raw:
  "slice_ok lots a \<Longrightarrow> lt_remaining_token_raw (sold_lot now a) = lt_remaining_token_raw (al_lot a) - al_raw a"
  by (simp add: sold_lot_def slice_ok_def Let_def)

lemma sold_lot_fraction:
  assumes "slice_ok lots a" and "0 \<le> lt_remaining_fraction (al_lot a)"
  shows "lt_remaining_fraction (sold_lot now a) = lt_remaining_fraction (al_lot a) - al_fraction a"
proof -
  have "real_of_int (al_raw a) / real_of_int (lt_remaining_token_raw (al_lot a)) \<le> 1"
    using assms(1) by (simp add: slice_ok_def divide_le_eq_1)
  then have "lt_remaining_fraction (al_lot a) * (real_of_int (al_raw a) / real_of_int (lt_remaining_token_raw (al_lot a)))
      \<le> lt_remaining_fraction (al_lot a)"
    using assms(2) by (rule mult_left_le)
  then have "al_fraction a \<le> lt_remaining_fraction (al_lot a)" using assms(1) by (simp add: slice_ok_def)
  then show ?thesis by (simp add: sold_lot_def Let_def)
qed

lemma write_sold_lot_ids [simp]: "map lt_id (write_sold_lot now a rows) = map lt_id rows"
  by (simp add: write_sold_lot_def map_eq_conv)

lemma write_lots_ids [simp]: "map lt_id (fold (write_sold_lot now) as rows) = map lt_id rows"
  by (induction as arbitrary: rows) simp_all

text \<open>Slices of different lots write different rows.\<close>

lemma slice_id_fresh:
  "lt_id (al_lot a) \<notin> (\<lambda>a. lt_id (al_lot a)) ` set as \<Longrightarrow> c \<in> set as \<Longrightarrow> lt_id (al_lot c) \<noteq> lt_id (al_lot a)"
  by (metis (mono_tags) imageI)

lemma write_sold_lot_others:
  assumes "distinct (map (\<lambda>a. lt_id (al_lot a)) (a # as))" and "\<forall>c\<in>set as. al_lot c \<in> set rows"
  shows "\<forall>c\<in>set as. al_lot c \<in> set (write_sold_lot now a rows)"
proof
  fix c assume c: "c \<in> set as"
  with assms have "lt_id (al_lot c) \<noteq> lt_id (al_lot a)" by (intro slice_id_fresh) simp_all
  with c assms(2) show "al_lot c \<in> set (write_sold_lot now a rows)" by (force simp: write_sold_lot_def image_iff)
qed

lemma write_lots_set:
  assumes "distinct (map lt_id rows)" and "distinct (map (\<lambda>a. lt_id (al_lot a)) as)"
    and "\<forall>a\<in>set as. al_lot a \<in> set rows"
  shows "set (fold (write_sold_lot now) as rows) = (set rows - set (map al_lot as)) \<union> set (map (sold_lot now) as)"
  using assms
proof (induction as arbitrary: rows)
  case (Cons a as)
  have one: "set (write_sold_lot now a rows) = insert (sold_lot now a) (set rows - {al_lot a})"
  proof -
    have "lt_id r = lt_id (al_lot a) \<longleftrightarrow> r = al_lot a" if "r \<in> set rows" for r
      using that Cons.prems by (auto simp: distinct_map inj_on_def)
    then show ?thesis using Cons.prems(3) by (auto simp: write_sold_lot_def)
  qed
  have "set (fold (write_sold_lot now) as (write_sold_lot now a rows))
      = (set (write_sold_lot now a rows) - set (map al_lot as)) \<union> set (map (sold_lot now) as)"
  proof (rule Cons.IH)
    show "distinct (map lt_id (write_sold_lot now a rows))" using Cons.prems(1) by simp
    show "distinct (map (\<lambda>a. lt_id (al_lot a)) as)" using Cons.prems(2) by simp
    show "\<forall>c\<in>set as. al_lot c \<in> set (write_sold_lot now a rows)"
      using Cons.prems by (intro write_sold_lot_others) simp_all
  qed
  moreover have "sold_lot now a \<notin> set (map al_lot as)"
    using Cons.prems(2) by (auto simp: image_iff) (metis sold_lot_keeps(1))
  ultimately show ?case using one by auto
qed simp

lemma write_lots_sum:
  fixes f :: "lot_row \<Rightarrow> 'a::ab_group_add"
  assumes "distinct (map lt_id rows)" and "distinct (map (\<lambda>a. lt_id (al_lot a)) as)"
    and "\<forall>a\<in>set as. al_lot a \<in> set rows"
  shows "sum_list (map f (fold (write_sold_lot now) as rows))
     = sum_list (map f rows) + (\<Sum>a\<leftarrow>as. f (sold_lot now a) - f (al_lot a))"
  using assms
proof (induction as arbitrary: rows)
  case (Cons a as)
  have "sum_list (map f (fold (write_sold_lot now) as (write_sold_lot now a rows)))
      = sum_list (map f (write_sold_lot now a rows)) + (\<Sum>a\<leftarrow>as. f (sold_lot now a) - f (al_lot a))"
  proof (rule Cons.IH)
    show "\<forall>c\<in>set as. al_lot c \<in> set (write_sold_lot now a rows)"
      using Cons.prems by (intro write_sold_lot_others) simp_all
  qed (use Cons.prems in simp_all)
  moreover have "sum_list (map f (write_sold_lot now a rows)) = sum_list (map f rows) - f (al_lot a) + f (sold_lot now a)"
    using sum_list_update_key [of lt_id rows "al_lot a" f "\<lambda>_. sold_lot now a"] Cons.prems
    by (simp add: write_sold_lot_def comp_def if_distrib [of f])
  ultimately show ?case by (simp add: algebra_simps)
qed simp


subsection \<open>Books that balance\<close>

text \<open>The sum of a lot column over the lots of one position.\<close>

definition over_lots :: "(lot_row \<Rightarrow> real) \<Rightarrow> nat \<Rightarrow> lot_row list \<Rightarrow> real" where
  "over_lots f i lots = (\<Sum>l\<leftarrow>lots. if lt_position_id l = i then f l else 0)"

definition lot_ok :: "book \<Rightarrow> lot_row \<Rightarrow> bool" where
  "lot_ok b l \<longleftrightarrow> 0 < lt_entry_fraction l \<and> 0 < lt_entry_token_raw l
     \<and> 0 \<le> lt_remaining_token_raw l \<and> lt_remaining_token_raw l \<le> lt_entry_token_raw l
     \<and> lt_remaining_fraction l * real_of_int (lt_entry_token_raw l)
         = lt_entry_fraction l * real_of_int (lt_remaining_token_raw l)
     \<and> lt_trial_id l \<in> tl_id ` set (bk_trials b) \<and> lt_position_id l \<in> ps_id ` set (bk_positions b)
     \<and> (settled_trial b (lt_trial_id l) \<longleftrightarrow> lt_remaining_token_raw l = 0)"

definition position_ok :: "lot_row list \<Rightarrow> position_row \<Rightarrow> bool" where
  "position_ok lots p \<longleftrightarrow>
     (if open_status (ps_status p) then 0 < ps_remaining_token_raw p
        \<and> real_of_int (ps_remaining_token_raw p) = over_lots (\<lambda>l. real_of_int (lt_remaining_token_raw l)) (ps_id p) lots
        \<and> ps_remaining_fraction p = over_lots lt_remaining_fraction (ps_id p) lots
      else ps_remaining_token_raw p = 0 \<and> ps_remaining_fraction p = 0
        \<and> over_lots lt_remaining_fraction (ps_id p) lots \<le> CLOSED_BELOW)"

definition book_ok :: "book \<Rightarrow> bool" where
  "book_ok b \<longleftrightarrow> distinct (map ps_id (bk_positions b)) \<and> distinct (map lt_id (bk_lots b))
     \<and> distinct (map lt_trial_id (bk_lots b)) \<and> distinct (map tl_id (bk_trials b))
     \<and> distinct (map oc_trial_id (bk_outcomes b)) \<and> open_token_unique b
     \<and> (\<forall>l\<in>set (bk_lots b). lot_ok b l) \<and> (\<forall>p\<in>set (bk_positions b). position_ok (bk_lots b) p)
     \<and> (\<forall>t\<in>set (bk_trials b). tracked_trial b (tl_id t))
     \<and> oc_trial_id ` set (bk_outcomes b) \<subseteq> tl_id ` set (bk_trials b)"

lemma book_okD:
  assumes "book_ok b"
  shows "distinct (map ps_id (bk_positions b))" "distinct (map lt_id (bk_lots b))"
    "distinct (map lt_trial_id (bk_lots b))" "distinct (map tl_id (bk_trials b))"
    "distinct (map oc_trial_id (bk_outcomes b))" "open_token_unique b"
    "l \<in> set (bk_lots b) \<Longrightarrow> lot_ok b l" "p \<in> set (bk_positions b) \<Longrightarrow> position_ok (bk_lots b) p"
    "t \<in> set (bk_trials b) \<Longrightarrow> tracked_trial b (tl_id t)"
    "oc_trial_id ` set (bk_outcomes b) \<subseteq> tl_id ` set (bk_trials b)"
  using assms by (simp_all add: book_ok_def)

lemma next_id_fresh: "i \<in> set ids \<Longrightarrow> i < next_id ids"
proof -
  have "a \<le> fold max xs a \<and> (\<forall>x\<in>set xs. x \<le> fold max xs a)" for xs :: "nat list" and a
    by (induction xs arbitrary: a) (auto, (metis max.bounded_iff)+)
  then show "i \<in> set ids \<Longrightarrow> i < next_id ids" by (simp add: next_id_def less_Suc_eq_le)
qed

lemma next_id_new [simp]: "next_id (map k rows) \<notin> k ` set rows"
  using next_id_fresh [of _ "map k rows"] by (metis image_set less_irrefl)

lemma newest_Some: "newest k rows = Some r \<Longrightarrow> r \<in> set rows"
  unfolding newest_def by (metis (no_types) list.case_eq_if list.set_sel(1) option.inject option.simps(3) set_rev set_sort)

lemma newest_None: "newest k rows = None \<longleftrightarrow> rows = []"
  unfolding newest_def by (auto split: list.splits dest!: arg_cong [of _ _ length])

lemma open_row_Some:
  "open_row token b = Some p \<Longrightarrow> p \<in> set (bk_positions b) \<and> ps_token p = token \<and> open_status (ps_status p)"
  by (auto simp: open_row_def dest!: newest_Some)

lemma open_row_None:
  "open_row token b = None \<longleftrightarrow> (\<forall>p\<in>set (bk_positions b). ps_token p = token \<longrightarrow> \<not> open_status (ps_status p))"
  by (auto simp: open_row_def newest_None filter_empty_conv)

lemma over_lots_simps [simp]:
  "over_lots f i [] = 0"
  "over_lots f i (l # lots) = (if lt_position_id l = i then f l else 0) + over_lots f i lots"
  "over_lots f i (lots @ lots') = over_lots f i lots + over_lots f i lots'"
  by (simp_all add: over_lots_def)

lemma over_lots_none: "\<forall>l\<in>set lots. lt_position_id l \<noteq> i \<Longrightarrow> over_lots f i lots = 0"
  by (induction lots) auto

lemma over_lots_nonneg: "\<forall>l\<in>set lots. 0 \<le> f l \<Longrightarrow> 0 \<le> over_lots f i lots"
  by (induction lots) auto


text \<open>An entry: what the transaction writes when it commits.\<close>

lemma insert_lot_Inr:
  "insert_lot l b = Inr b' \<longleftrightarrow> b' = b\<lparr>bk_lots := bk_lots b @ [l]\<rparr> \<and> lt_trial_id l \<notin> lt_trial_id ` set (bk_lots b)
     \<and> (\<forall>r\<in>set (bk_lots b). lt_position_id r = lt_position_id l \<longrightarrow> lt_evidence_fingerprint r \<noteq> lt_evidence_fingerprint l)"
  by (auto simp: insert_lot_def not_in_image)

lemma insert_position_Inr:
  "insert_position p b = Inr b' \<longleftrightarrow> b' = b\<lparr>bk_positions := bk_positions b @ [p]\<rparr>
     \<and> ps_position_key p \<notin> ps_position_key ` set (bk_positions b)
     \<and> (open_status (ps_status p) \<longrightarrow> (\<forall>r\<in>set (bk_positions b). open_status (ps_status r) \<longrightarrow> ps_token r \<noteq> ps_token p))"
  by (auto simp: insert_position_def not_in_image)

lemma insert_event_Inr:
  "insert_event e b = Inr b' \<longleftrightarrow> b' = b\<lparr>bk_events := bk_events b @ [e]\<rparr> \<and> pe_event_key e \<notin> pe_event_key ` set (bk_events b)"
  by (auto simp: insert_event_def not_in_image)

lemma insert_context_Inr:
  "insert_context c b = Inr b' \<longleftrightarrow> b' = b\<lparr>bk_contexts := bk_contexts b @ [c]\<rparr> \<and> tc_trial_id c \<notin> tc_trial_id ` set (bk_contexts b)"
  by (auto simp: insert_context_def not_in_image)

lemmas insert_Inr = insert_lot_Inr insert_position_Inr insert_event_Inr insert_context_Inr

lemma settled_trial_cong [simp]:
  "settled_trial (b\<lparr>bk_lots := ls\<rparr>) = settled_trial b" "settled_trial (b\<lparr>bk_positions := ps\<rparr>) = settled_trial b"
  "settled_trial (b\<lparr>bk_trials := ts\<rparr>) = settled_trial b" "settled_trial (b\<lparr>bk_events := es\<rparr>) = settled_trial b"
  "settled_trial (b\<lparr>bk_contexts := cs\<rparr>) = settled_trial b" "settled_trial (b\<lparr>bk_pending := pend\<rparr>) = settled_trial b"
  by (simp_all add: settled_trial_def fun_eq_iff)

lemma tracked_trial_iff: "tracked_trial b i \<longleftrightarrow> i \<in> lt_trial_id ` set (bk_lots b)"
  by (simp add: tracked_trial_def)

text \<open>Appending a lot for a new trial, to a position that grows by what the lot holds.\<close>

lemma book_ok_entry:
  assumes ok: "book_ok b"
    and lot: "lt_position_id l = i" "lt_trial_id l = tl_id t" "tl_id t \<notin> tl_id ` set (bk_trials b)"
      "lt_id l \<notin> lt_id ` set (bk_lots b)" "0 < lt_entry_fraction l" "0 < lt_entry_token_raw l"
      "lt_remaining_fraction l = lt_entry_fraction l" "lt_remaining_token_raw l = lt_entry_token_raw l"
      "\<not> settled_trial b (tl_id t)"
    and rows: "bk_trials b' = bk_trials b @ [t]" "bk_lots b' = bk_lots b @ [l]" "bk_outcomes b' = bk_outcomes b"
    and positions: "distinct (map ps_id (bk_positions b'))" "open_token_unique b'"
      "ps_id ` set (bk_positions b) \<subseteq> ps_id ` set (bk_positions b')" "i \<in> ps_id ` set (bk_positions b')"
    and grown: "\<forall>p\<in>set (bk_positions b'). if ps_id p = i then open_status (ps_status p)
        \<and> real_of_int (ps_remaining_token_raw p) = real_of_int (lt_entry_token_raw l)
            + over_lots (\<lambda>l. real_of_int (lt_remaining_token_raw l)) i (bk_lots b)
        \<and> ps_remaining_fraction p = lt_entry_fraction l + over_lots lt_remaining_fraction i (bk_lots b)
      else p \<in> set (bk_positions b)"
  shows "book_ok b'"
proof -
  have settled: "settled_trial b' = settled_trial b" using rows(3) by (simp add: settled_trial_def fun_eq_iff)
  have lots: "lot_ok b' r" if "r \<in> set (bk_lots b')" for r
  proof (cases "r = l")
    case True
    with lot rows positions settled show ?thesis by (simp add: lot_ok_def)
  next
    case False
    with that rows have "lot_ok b r" using book_okD(7) [OF ok] by simp
    with rows positions(3) settled show ?thesis by (auto simp: lot_ok_def)
  qed
  have raw: "0 \<le> over_lots (\<lambda>l. real_of_int (lt_remaining_token_raw l)) i (bk_lots b)"
    using book_okD(7) [OF ok] by (intro over_lots_nonneg) (auto simp: lot_ok_def)
  have "position_ok (bk_lots b') p" if "p \<in> set (bk_positions b')" for p
  proof (cases "ps_id p = i")
    case True
    with bspec [OF grown that] raw lot have "0 < real_of_int (ps_remaining_token_raw p)" by simp
    with True bspec [OF grown that] lot rows show ?thesis by (simp add: position_ok_def)
  next
    case False
    with bspec [OF grown that] have "position_ok (bk_lots b) p" using book_okD(8) [OF ok] by simp
    moreover have "over_lots f (ps_id p) (bk_lots b') = over_lots f (ps_id p) (bk_lots b)" for f
      using False lot rows by simp
    ultimately show ?thesis by (simp only: position_ok_def)
  qed
  moreover have "tracked_trial b' (tl_id u)" if "u \<in> set (bk_trials b')" for u
    using that book_okD(9) [OF ok, of u] rows(1, 2) lot(2) by (auto simp: tracked_trial_iff)
  moreover have "lt_trial_id l \<notin> lt_trial_id ` set (bk_lots b)"
    using book_okD(7) [OF ok] lot(2, 3) by (fastforce simp: lot_ok_def)
  moreover have "distinct (map lt_id (bk_lots b'))" "distinct (map lt_trial_id (bk_lots b'))"
      "distinct (map tl_id (bk_trials b'))" "distinct (map oc_trial_id (bk_outcomes b'))"
    using book_okD(2-5) [OF ok] lot(2-4) rows calculation(3) by simp_all
  moreover have "oc_trial_id ` set (bk_outcomes b') \<subseteq> tl_id ` set (bk_trials b')"
    using book_okD(10) [OF ok] rows by auto
  ultimately show ?thesis
    using lots positions(1, 2) unfolding book_ok_def by blast
qed

lemma update_position_simps [simp]:
  "bk_trials (update_position i f b) = bk_trials b" "bk_lots (update_position i f b) = bk_lots b"
  "bk_outcomes (update_position i f b) = bk_outcomes b" "bk_events (update_position i f b) = bk_events b"
  "bk_contexts (update_position i f b) = bk_contexts b" "bk_pending (update_position i f b) = bk_pending b"
  "bk_positions (update_position i f b) = map (\<lambda>p. if ps_id p = i then f p else p) (bk_positions b)"
  by (simp_all add: update_position_def)

lemma update_ids: "\<forall>p. ps_id (f p) = ps_id p \<Longrightarrow> map ps_id (map (\<lambda>p. if ps_id p = i then f p else p) rows) = map ps_id rows"
  by simp

lemma new_trial_simps [simp]: "tl_id (new_trial n stage now b) = next_id (map tl_id (bk_trials b))"
  by (simp add: new_trial_def)

lemma scaled_position_simps [simp]:
  "ps_id (scaled_position n pd now p) = ps_id p" "ps_token (scaled_position n pd now p) = ps_token p"
  "ps_status (scaled_position n pd now p) = Scaling"
  "ps_remaining_fraction (scaled_position n pd now p) = ps_remaining_fraction p + en_fraction n"
  "ps_remaining_token_raw (scaled_position n pd now p) = ps_remaining_token_raw p + lq_token_out (en_quote n)"
  by (simp_all add: scaled_position_def Let_def)

lemma new_lot_simps [simp]:
  "lt_position_id (new_lot n pd i t now b) = i" "lt_trial_id (new_lot n pd i t now b) = t"
  "lt_id (new_lot n pd i t now b) = next_id (map lt_id (bk_lots b))"
  "lt_entry_fraction (new_lot n pd i t now b) = en_fraction n"
  "lt_remaining_fraction (new_lot n pd i t now b) = en_fraction n"
  "lt_entry_token_raw (new_lot n pd i t now b) = lq_token_out (en_quote n)"
  "lt_remaining_token_raw (new_lot n pd i t now b) = lq_token_out (en_quote n)"
  by (simp_all add: new_lot_def)

lemma new_position_row_simps [simp]:
  "ps_id (new_position n pd now b) = next_id (map ps_id (bk_positions b))"
  "ps_status (new_position n pd now b) = Entered"
  "ps_token (new_position n pd now b) = clean_address (Some (en_token n))"
  "ps_remaining_fraction (new_position n pd now b) = en_fraction n"
  "ps_remaining_token_raw (new_position n pd now b) = lq_token_out (en_quote n)"
  by (simp_all add: new_position_def Let_def)

lemma open_status_simps [simp]:
  "open_status Entered" "open_status Scaling" "open_status De_risking" "open_status Runner" "\<not> open_status Closed"
  by (simp_all add: open_status_def)

lemma unsettled_new_trial:
  assumes "book_ok b"
  shows "\<not> settled_trial b (next_id (map tl_id (bk_trials b)))"
proof
  assume "settled_trial b (next_id (map tl_id (bk_trials b)))"
  then have "next_id (map tl_id (bk_trials b)) \<in> tl_id ` set (bk_trials b)"
    using book_okD(10) [OF assms] unfolding settled_trial_def by blast
  then show False by simp
qed


lemma open_tokens_mapped:
  "\<forall>p. ps_token (f p) = ps_token p \<Longrightarrow> \<forall>p\<in>set ps. ps_id p = i \<longrightarrow> open_status (ps_status (f p)) = open_status (ps_status p) \<Longrightarrow>
     map ps_token (filter (\<lambda>p. open_status (ps_status p)) (map (\<lambda>p. if ps_id p = i then f p else p) ps))
       = map ps_token (filter (\<lambda>p. open_status (ps_status p)) ps)"
  by (induction ps) auto

lemma same_id: "book_ok b \<Longrightarrow> p \<in> set (bk_positions b) \<Longrightarrow> q \<in> set (bk_positions b) \<Longrightarrow> ps_id p = ps_id q \<Longrightarrow> p = q"
  using book_okD(1) [of b] by (auto simp: distinct_map inj_on_def)

lemma position_sums:
  assumes "book_ok b" and "p \<in> set (bk_positions b)" and "open_status (ps_status p)"
  shows "real_of_int (ps_remaining_token_raw p) = over_lots (\<lambda>l. real_of_int (lt_remaining_token_raw l)) (ps_id p) (bk_lots b)"
    "ps_remaining_fraction p = over_lots lt_remaining_fraction (ps_id p) (bk_lots b)" "0 < ps_remaining_token_raw p"
  using book_okD(8) [OF assms(1, 2)] assms(3) by (simp_all add: position_ok_def)

lemma over_lots_new_position:
  assumes "book_ok b"
  shows "over_lots f (next_id (map ps_id (bk_positions b))) (bk_lots b) = 0"
proof (rule over_lots_none, rule ballI)
  fix l assume "l \<in> set (bk_lots b)"
  then have "lt_position_id l \<in> ps_id ` set (bk_positions b)" using book_okD(7) [OF assms] by (simp add: lot_ok_def)
  then show "lt_position_id l \<noteq> next_id (map ps_id (bk_positions b))" by (metis next_id_new)
qed

lemma write_lot_ok:
  assumes ok: "book_ok b" and amounts: "0 < lq_token_out (en_quote n)" "0 < en_fraction n"
    and position: "position = open_row token b"
    and written: "write_lot n pd now position b = Inr b'"
  shows "book_ok b'"
proof (cases position)
  case None
  define t where "t = new_trial n (pd_stage pd) now b"
  obtain b1 b2 b3 where steps:
      "insert_context (new_context n (tl_id t) now) (b\<lparr>bk_trials := bk_trials b @ [t]\<rparr>) = Inr b1"
      "insert_position (new_position n pd now b1) b1 = Inr b2"
      "insert_lot (new_lot n pd (ps_id (new_position n pd now b1)) (tl_id t) now b2) b2 = Inr b3"
      "\<exists>e. insert_event e b3 = Inr b'"
    using written None by (auto simp: write_lot_def Let_def bind_result_Inr_iff t_def)
  define p where "p = new_position n pd now b1"
  define l where "l = new_lot n pd (ps_id p) (tl_id t) now b2"
  have b1: "bk_positions b1 = bk_positions b" "bk_lots b1 = bk_lots b" "bk_trials b1 = bk_trials b @ [t]"
      "bk_outcomes b1 = bk_outcomes b"
    using steps(1) by (simp_all add: insert_Inr)
  then have b2: "bk_positions b2 = bk_positions b @ [p]" "bk_lots b2 = bk_lots b" "bk_trials b2 = bk_trials b @ [t]"
      "bk_outcomes b2 = bk_outcomes b" "\<forall>r\<in>set (bk_positions b). open_status (ps_status r) \<longrightarrow> ps_token r \<noteq> ps_token p"
    using steps(2) by (simp_all add: insert_Inr p_def)
  then have b': "bk_positions b' = bk_positions b @ [p]" "bk_lots b' = bk_lots b @ [l]"
      "bk_trials b' = bk_trials b @ [t]" "bk_outcomes b' = bk_outcomes b"
    using steps(3, 4) by (auto simp: insert_Inr p_def l_def)
  have p: "ps_id p = next_id (map ps_id (bk_positions b))" by (simp add: p_def b1)
  show ?thesis
  proof (rule book_ok_entry [OF ok, of l "ps_id p" t])
    show "lt_id l \<notin> lt_id ` set (bk_lots b)" by (simp add: l_def b2)
    show "\<not> settled_trial b (tl_id t)" by (simp add: t_def unsettled_new_trial [OF ok])
    show "distinct (map ps_id (bk_positions b'))" using book_okD(1) [OF ok] by (simp add: b' p)
    have "ps_token p \<notin> ps_token ` set (filter (\<lambda>p. open_status (ps_status p)) (bk_positions b))"
      using b2(5) by auto
    then show "open_token_unique b'" using book_okD(6) [OF ok] by (simp add: b' open_token_unique_def p_def)
    show "\<forall>q\<in>set (bk_positions b'). if ps_id q = ps_id p then open_status (ps_status q)
        \<and> real_of_int (ps_remaining_token_raw q) = real_of_int (lt_entry_token_raw l)
            + over_lots (\<lambda>l. real_of_int (lt_remaining_token_raw l)) (ps_id p) (bk_lots b)
        \<and> ps_remaining_fraction q = lt_entry_fraction l + over_lots lt_remaining_fraction (ps_id p) (bk_lots b)
      else q \<in> set (bk_positions b)"
    proof
      fix q assume q: "q \<in> set (bk_positions b')"
      have "q = p" if "ps_id q = ps_id p" using that q p by (auto simp: b') (metis image_eqI next_id_new)
      with q show "if ps_id q = ps_id p then open_status (ps_status q)
        \<and> real_of_int (ps_remaining_token_raw q) = real_of_int (lt_entry_token_raw l)
            + over_lots (\<lambda>l. real_of_int (lt_remaining_token_raw l)) (ps_id p) (bk_lots b)
        \<and> ps_remaining_fraction q = lt_entry_fraction l + over_lots lt_remaining_fraction (ps_id p) (bk_lots b)
      else q \<in> set (bk_positions b)"
        using over_lots_new_position [OF ok] by (auto simp: b' p) (simp_all add: p_def l_def)
    qed
  qed (use amounts in \<open>auto simp: l_def t_def b' p\<close>)
next
  case (Some p)
  with position have p: "p \<in> set (bk_positions b)" "open_status (ps_status p)" using open_row_Some [of token b p] by auto
  define t where "t = new_trial n (pd_stage pd) now b"
  define s where "s = scaled_position n pd now"
  obtain b1 b3 where steps:
      "insert_context (new_context n (tl_id t) now) (b\<lparr>bk_trials := bk_trials b @ [t]\<rparr>) = Inr b1"
      "insert_lot (new_lot n pd (ps_id p) (tl_id t) now (update_position (ps_id p) s b1)) (update_position (ps_id p) s b1) = Inr b3"
      "\<exists>e. insert_event e b3 = Inr b'"
    using written Some by (auto simp: write_lot_def Let_def bind_result_Inr_iff t_def s_def)
  define l where "l = new_lot n pd (ps_id p) (tl_id t) now (update_position (ps_id p) s b1)"
  have b1: "bk_positions b1 = bk_positions b" "bk_lots b1 = bk_lots b" "bk_trials b1 = bk_trials b @ [t]"
      "bk_outcomes b1 = bk_outcomes b"
    using steps(1) by (simp_all add: insert_Inr)
  then have b': "bk_positions b' = map (\<lambda>q. if ps_id q = ps_id p then s q else q) (bk_positions b)"
      "bk_lots b' = bk_lots b @ [l]" "bk_trials b' = bk_trials b @ [t]" "bk_outcomes b' = bk_outcomes b"
    using steps(2, 3) by (auto simp: insert_Inr l_def)
  have ids: "map ps_id (bk_positions b') = map ps_id (bk_positions b)" by (simp add: b' s_def)
  show ?thesis
  proof (rule book_ok_entry [OF ok, of l "ps_id p" t])
    show "lt_id l \<notin> lt_id ` set (bk_lots b)" by (simp add: l_def b1)
    show "\<not> settled_trial b (tl_id t)" by (simp add: t_def unsettled_new_trial [OF ok])
    show "distinct (map ps_id (bk_positions b'))" using book_okD(1) [OF ok] by (simp add: ids)
    have "map ps_token (filter (\<lambda>p. open_status (ps_status p)) (bk_positions b'))
        = map ps_token (filter (\<lambda>p. open_status (ps_status p)) (bk_positions b))"
      unfolding b' using same_id [OF ok _ p(1)] p(2) by (intro open_tokens_mapped) (auto simp: s_def)
    then show "open_token_unique b'" using book_okD(6) [OF ok] by (simp add: open_token_unique_def)
    show "ps_id ` set (bk_positions b) \<subseteq> ps_id ` set (bk_positions b')" using ids by (metis order_refl set_map)
    show "ps_id p \<in> ps_id ` set (bk_positions b')" using ids p(1) by (metis image_eqI set_map)
    show "\<forall>q\<in>set (bk_positions b'). if ps_id q = ps_id p then open_status (ps_status q)
        \<and> real_of_int (ps_remaining_token_raw q) = real_of_int (lt_entry_token_raw l)
            + over_lots (\<lambda>l. real_of_int (lt_remaining_token_raw l)) (ps_id p) (bk_lots b)
        \<and> ps_remaining_fraction q = lt_entry_fraction l + over_lots lt_remaining_fraction (ps_id p) (bk_lots b)
      else q \<in> set (bk_positions b)"
      using position_sums [OF ok p] by (auto simp: b' s_def l_def dest: same_id [OF ok _ p(1)])
  qed (use amounts in \<open>auto simp: l_def t_def b'\<close>)
qed


lemma book_ok_pending [simp]: "book_ok (b\<lparr>bk_pending := pend\<rparr>) = book_ok b"
  by (simp add: book_ok_def lot_ok_def open_token_unique_def tracked_trial_def)

lemma persist_lot_cases:
  "(\<exists>r. r \<noteq> Inr True \<and> persist_lot now n pd b = (r, b)) \<or>
     (\<exists>b'. write_lot n pd now (open_row (clean_address (Some (en_token n))) b) b = Inr b'
        \<and> persist_lot now n pd b = (Inr True, drop_pending (clean_address (Some (en_token n))) b')
        \<and> (pd_stage pd = Scale \<longleftrightarrow> open_row (clean_address (Some (en_token n))) b \<noteq> None)
        \<and> (\<forall>p. open_row (clean_address (Some (en_token n))) b = Some p \<longrightarrow>
              pd_evidence_fingerprint pd \<noteq> ps_last_evidence_fingerprint p))"
proof -
  define row where "row = open_row (clean_address (Some (en_token n))) b"
  show ?thesis
    unfolding persist_lot_def Let_def row_def [symmetric]
    by (cases row; cases "write_lot n pd now row b") auto
qed

lemma persist_lot_ok:
  assumes "book_ok b" and "0 < lq_token_out (en_quote n)" and "0 < en_fraction n"
  shows "book_ok (snd (persist_lot now n pd b))"
proof -
  consider (same) r where "persist_lot now n pd b = (r, b)"
    | (wrote) b' where "write_lot n pd now (open_row (clean_address (Some (en_token n))) b) b = Inr b'"
        "persist_lot now n pd b = (Inr True, drop_pending (clean_address (Some (en_token n))) b')"
    using persist_lot_cases [of now n pd b] by blast
  then show ?thesis
  proof cases
    case wrote
    then show ?thesis using write_lot_ok [OF assms refl wrote(1)] by (simp add: drop_pending_def)
  qed (simp add: assms(1))
qed

lemma validate_cases:
  "validate_and_commit quote latency now n b = (Inr False, b) \<or>
     (\<exists>pd raw fraction. validate_and_commit quote latency now n b = persist_lot now n pd b
        \<and> dict_get (bk_pending b) (clean_address (Some (en_token n))) = Some pd
        \<and> aggregate_of n pd (clean_address (Some (en_token n))) (clean_address (Some (en_market n))) b = Some (raw, fraction)
        \<and> clean_address (Some (en_token n)) \<noteq> []
        \<and> 0 < lq_token_out (en_quote n) \<and> 0 < en_fraction n \<and> 0 < lq_entry_price_eth (en_quote n)
        \<and> fraction \<le> max 0 (pd_target_fraction pd) + 1 / 10 ^ 12 \<and> latency \<le> 20
        \<and> exitable (quote (clean_address (Some (en_token n))) (clean_address (Some (en_market n))) (en_venue n) raw)
        \<and> exitable (quote (clean_address (Some (en_token n))) (clean_address (Some (en_market n))) (en_venue n) (stress_raw_of raw))
        \<and> (pd_stage pd = Reentry \<longrightarrow> reentry_valid now (clean_address (Some (en_token n))) pd b))"
  unfolding validate_and_commit_def Let_def by (auto split: option.split)

lemma validate_ok: "book_ok b \<Longrightarrow> book_ok (snd (validate_and_commit quote latency now n b))"
  using validate_cases [of quote latency now n b] by (auto intro: persist_lot_ok)

lemma maybe_open_ok: "book_ok b \<Longrightarrow> book_ok (snd (maybe_open_with_lifecycle quote latency now captured b))"
  by (cases captured) (simp_all add: maybe_open_with_lifecycle_def validate_ok)


text \<open>An exit: the outcomes of the lots it sells out.\<close>

lemma settle_lot_keeps [simp]:
  "bk_lots (settle_lot reason now l b) = bk_lots b" "bk_positions (settle_lot reason now l b) = bk_positions b"
  "bk_trials (settle_lot reason now l b) = bk_trials b" "bk_events (settle_lot reason now l b) = bk_events b"
  by (simp_all add: settle_lot_def split: option.split)

lemma settle_lots_keep [simp]:
  "bk_lots (fold (settle_lot reason now) ls b) = bk_lots b"
  "bk_positions (fold (settle_lot reason now) ls b) = bk_positions b"
  "bk_trials (fold (settle_lot reason now) ls b) = bk_trials b"
  "bk_events (fold (settle_lot reason now) ls b) = bk_events b"
  by (induction ls arbitrary: b) simp_all

lemma settle_lot_cases:
  "(lt_trial_id l \<in> tl_id ` set (bk_trials b) \<and> \<not> settled_trial b (lt_trial_id l)
      \<and> (\<exists>o'. oc_trial_id o' = lt_trial_id l \<and> bk_outcomes (settle_lot reason now l b) = bk_outcomes b @ [o']))
   \<or> ((lt_trial_id l \<notin> tl_id ` set (bk_trials b) \<or> settled_trial b (lt_trial_id l)) \<and> settle_lot reason now l b = b)"
proof (cases "find (\<lambda>t. tl_id t = lt_trial_id l) (bk_trials b)")
  case None
  then have "lt_trial_id l \<notin> tl_id ` set (bk_trials b)" by (auto simp: find_None_iff)
  with None show ?thesis by (simp add: settle_lot_def)
next
  case (Some t)
  then have "lt_trial_id l \<in> tl_id ` set (bk_trials b)" by (auto dest!: find_result simp: image_iff) metis
  with Some show ?thesis by (auto simp: settle_lot_def outcome_of_lot_def Let_def)
qed

lemma settle_lots_settled:
  "settled_trial (fold (settle_lot reason now) ls b) i \<longleftrightarrow>
     settled_trial b i \<or> (i \<in> lt_trial_id ` set ls \<and> i \<in> tl_id ` set (bk_trials b))"
proof (induction ls arbitrary: b)
  case (Cons l ls)
  have "settled_trial (settle_lot reason now l b) i \<longleftrightarrow>
      settled_trial b i \<or> (i = lt_trial_id l \<and> i \<in> tl_id ` set (bk_trials b))"
    using settle_lot_cases [of l b reason now] by (auto simp: settled_trial_def)
  with Cons show ?case by auto
qed simp

lemma settle_lots_outcomes:
  "distinct (map oc_trial_id (bk_outcomes b)) \<Longrightarrow> oc_trial_id ` set (bk_outcomes b) \<subseteq> tl_id ` set (bk_trials b) \<Longrightarrow>
     distinct (map oc_trial_id (bk_outcomes (fold (settle_lot reason now) ls b)))
     \<and> oc_trial_id ` set (bk_outcomes (fold (settle_lot reason now) ls b)) \<subseteq> tl_id ` set (bk_trials b)"
proof (induction ls arbitrary: b)
  case (Cons l ls)
  have "distinct (map oc_trial_id (bk_outcomes (settle_lot reason now l b)))
      \<and> oc_trial_id ` set (bk_outcomes (settle_lot reason now l b)) \<subseteq> tl_id ` set (bk_trials (settle_lot reason now l b))"
    using settle_lot_cases [of l b reason now] Cons.prems
    by (elim disjE) (auto simp: settled_trial_def image_subset_iff)
  with Cons.IH [of "settle_lot reason now l b"] show ?case by simp
qed simp

text \<open>The slices of an exit of the position \<open>i\<close> that sells \<open>sell\<close>.\<close>

definition slices_of :: "book \<Rightarrow> nat \<Rightarrow> int \<Rightarrow> allocation_slice list \<Rightarrow> bool" where
  "slices_of b i sell as \<longleftrightarrow> distinct (map (\<lambda>a. lt_id (al_lot a)) as) \<and> sum_list (map al_raw as) = sell
     \<and> (\<forall>a\<in>set as. slice_ok (bk_lots b) a \<and> lt_position_id (al_lot a) = i)"

lemma set_open_lots:
  "set (open_lots b i) = {l \<in> set (bk_lots b). lt_position_id l = i \<and> lt_remaining_fraction l > 0
     \<and> lt_trial_id l \<in> tl_id ` set (bk_trials b)}"
  by (auto simp: open_lots_def)

lemma distinct_sort_key: "distinct (map k xs) \<Longrightarrow> distinct (map k (sort_key f xs))"
  by (metis distinct_map distinct_sort inj_on_def set_sort)

lemma open_lots_distinct: "book_ok b \<Longrightarrow> distinct (map lt_id (open_lots b i))"
  unfolding open_lots_def using book_okD(2) [of b] by (intro distinct_sort_key) (simp add: distinct_map_filter)

lemma exit_slices:
  assumes "book_ok b" and "0 < xo_sell_raw x" and "apply_exit_lots x q (open_lots b i) = (as, left)" and "\<not> 0 < left"
  shows "slices_of b i (xo_sell_raw x) as" "left = 0"
proof -
  let ?n = "max 0 (xq_net_out_wei q)" and ?g = "max 0 (xq_exit_gas_wei q)" and ?ls = "open_lots b i"
  let ?r = "allocate_lots (xo_sell_raw x) (raw_total ?ls) ?n ?g ?ls (xo_sell_raw x) ?n ?g"
  have r: "?r = (as, left)" using assms(3) by (simp add: apply_exit_lots_def)
  show "left = 0" using allocate_total [OF assms(2), of "xo_sell_raw x" "raw_total ?ls" ?n ?g ?ls ?n ?g] assms(4) r by simp
  then have "sum_list (map al_raw as) = xo_sell_raw x"
    using allocate_total [OF assms(2), of "xo_sell_raw x" "raw_total ?ls" ?n ?g ?ls ?n ?g] r by simp
  moreover have "distinct (map (\<lambda>a. lt_id (al_lot a)) as)"
    using allocate_distinct [OF assms(2) open_lots_distinct [OF assms(1)], of "xo_sell_raw x" "raw_total ?ls" ?n ?g i ?n ?g] r
    by simp
  moreover have "\<forall>a\<in>set as. slice_ok ?ls a"
    using allocate_slices [OF assms(2), of "xo_sell_raw x" "raw_total ?ls" ?n ?g ?ls ?n ?g] r by simp
  ultimately show "slices_of b i (xo_sell_raw x) as"
    by (auto simp: slices_of_def slice_ok_def set_open_lots)
qed


lemma over_lots_sold:
  assumes ok: "book_ok b" and as: "slices_of b i sell as"
  shows "over_lots f j (fold (write_sold_lot now) as (bk_lots b)) = over_lots f j (bk_lots b)
     + (if j = i then (\<Sum>a\<leftarrow>as. f (sold_lot now a) - f (al_lot a)) else 0)"
proof -
  have "over_lots f j (fold (write_sold_lot now) as (bk_lots b)) = over_lots f j (bk_lots b)
     + (\<Sum>a\<leftarrow>as. (if lt_position_id (sold_lot now a) = j then f (sold_lot now a) else 0)
          - (if lt_position_id (al_lot a) = j then f (al_lot a) else 0))"
    unfolding over_lots_def using book_okD(2) [OF ok] as
    by (intro write_lots_sum) (auto simp: slices_of_def slice_ok_def)
  moreover have "(\<Sum>a\<leftarrow>as. (if lt_position_id (sold_lot now a) = j then f (sold_lot now a) else 0)
          - (if lt_position_id (al_lot a) = j then f (al_lot a) else 0))
      = (\<Sum>a\<leftarrow>as. if j = i then f (sold_lot now a) - f (al_lot a) else 0)"
    using as by (intro arg_cong [of _ _ sum_list] map_cong) (auto simp: slices_of_def)
  ultimately show ?thesis by (cases "j = i") simp_all
qed

lemma slice_lot_ok:
  assumes "book_ok b" and "slices_of b i sell as" and "a \<in> set as"
  shows "slice_ok (bk_lots b) a" "lot_ok b (al_lot a)" "lt_position_id (al_lot a) = i" "al_lot a \<in> set (bk_lots b)"
  using assms book_okD(7) [OF assms(1), of "al_lot a"] by (auto simp: slices_of_def slice_ok_def)

lemma lot_fraction_nonneg: "lot_ok b l \<Longrightarrow> 0 \<le> lt_remaining_fraction l"
proof -
  assume l: "lot_ok b l"
  then have "0 \<le> lt_remaining_fraction l * real_of_int (lt_entry_token_raw l)" "0 < real_of_int (lt_entry_token_raw l)"
    by (simp_all add: lot_ok_def)
  then show "0 \<le> lt_remaining_fraction l" by (metis mult_less_0_iff not_less)
qed

lemma sold_lot_proportional:
  assumes "lot_ok b (al_lot a)" and "slice_ok (bk_lots b) a"
  shows "lt_remaining_fraction (sold_lot now a) * real_of_int (lt_entry_token_raw (al_lot a))
     = lt_entry_fraction (al_lot a) * real_of_int (lt_remaining_token_raw (sold_lot now a))"
proof -
  define f where "f = lt_remaining_fraction (al_lot a)"
  define r where "r = real_of_int (lt_remaining_token_raw (al_lot a))"
  define e where "e = real_of_int (lt_entry_token_raw (al_lot a))"
  have r: "r \<noteq> 0" using assms(2) by (simp add: slice_ok_def r_def)
  have p: "f * e = lt_entry_fraction (al_lot a) * r" using assms(1) by (simp add: lot_ok_def f_def e_def r_def)
  have "lt_remaining_fraction (sold_lot now a) = f - f * (real_of_int (al_raw a) / r)"
    using sold_lot_fraction [OF assms(2) lot_fraction_nonneg [OF assms(1)]] assms(2) by (simp add: slice_ok_def f_def r_def)
  then have "lt_remaining_fraction (sold_lot now a) * e = f * e - f * e * (real_of_int (al_raw a) / r)"
    by (simp only: left_diff_distrib mult.assoc mult.commute [of e])
  also have "\<dots> = lt_entry_fraction (al_lot a) * (r - real_of_int (al_raw a))"
    unfolding p using r by (simp add: field_simps)
  finally show ?thesis using sold_lot_raw [OF assms(2)] by (simp add: e_def r_def)
qed

lemma write_exit_cases:
  "write_exit x q now p as b = (Inr (), b') \<Longrightarrow> remaining_after x (sum_list (map al_fraction as)) p = (status, raw, fraction) \<Longrightarrow>
     bk_lots b' = fold (write_sold_lot now) as (bk_lots b)
     \<and> bk_positions b' = map (\<lambda>r. if ps_id r = ps_id p then sold_position x now status raw fraction r else r) (bk_positions b)
     \<and> bk_trials b' = bk_trials b \<and> open_token_unique b'
     \<and> (\<forall>i. settled_trial b' i \<longleftrightarrow> settled_trial b i
          \<or> (i \<in> lt_trial_id ` set (filter (\<lambda>l. lt_remaining_token_raw l = 0) (map (sold_lot now) as))
             \<and> i \<in> tl_id ` set (bk_trials b)))
     \<and> (distinct (map oc_trial_id (bk_outcomes b)) \<longrightarrow> oc_trial_id ` set (bk_outcomes b) \<subseteq> tl_id ` set (bk_trials b) \<longrightarrow>
          distinct (map oc_trial_id (bk_outcomes b')) \<and> oc_trial_id ` set (bk_outcomes b') \<subseteq> tl_id ` set (bk_trials b))"
proof -
  define b1 where "b1 = b\<lparr>bk_lots := fold (write_sold_lot now) as (bk_lots b)\<rparr>"
  define b2 where "b2 = update_position (ps_id p) (sold_position x now status raw fraction) b1"
  define e where "e = exit_event x q now p status as b2"
  define b3 where "b3 = (if \<exists>r\<in>set (bk_events b2). pe_event_key r = pe_event_key e then b2 else b2\<lparr>bk_events := bk_events b2 @ [e]\<rparr>)"
  assume w: "write_exit x q now p as b = (Inr (), b')"
    and r: "remaining_after x (sum_list (map al_fraction as)) p = (status, raw, fraction)"
  then have b': "open_token_unique b2"
      "b' = fold (settle_lot (xo_reason x) now) (filter (\<lambda>l. lt_remaining_token_raw l = 0) (map (sold_lot now) as)) b3"
    by (auto simp: write_exit_def Let_def b1_def b2_def b3_def e_def split: if_splits)
  have b3: "bk_lots b3 = bk_lots b1" "bk_positions b3 = bk_positions b2" "bk_trials b3 = bk_trials b"
      "bk_outcomes b3 = bk_outcomes b"
    by (simp_all add: b3_def b2_def b1_def)
  then have "settled_trial b3 = settled_trial b" by (simp add: settled_trial_def fun_eq_iff)
  with b' b3 show ?thesis
    using settle_lots_outcomes [of b3 "xo_reason x" now "filter (\<lambda>l. lt_remaining_token_raw l = 0) (map (sold_lot now) as)"]
    by (simp add: settle_lots_settled b1_def b2_def open_token_unique_def)
qed


lemma sold_lot_ok_raw:
  assumes "lot_ok b (al_lot a)" and "slice_ok (bk_lots b) a"
  shows "0 \<le> lt_remaining_token_raw (sold_lot now a)" "lt_remaining_token_raw (sold_lot now a) \<le> lt_entry_token_raw (al_lot a)"
    "\<not> settled_trial b (lt_trial_id (al_lot a))"
  using assms sold_lot_raw [OF assms(2), of now] by (auto simp: lot_ok_def slice_ok_def)

lemma same_lot: "book_ok b \<Longrightarrow> l \<in> set (bk_lots b) \<Longrightarrow> k \<in> set (bk_lots b) \<Longrightarrow> lt_trial_id l = lt_trial_id k \<Longrightarrow> l = k"
  using book_okD(3) [of b] by (auto simp: distinct_map inj_on_def)

text \<open>Every lot is sound after the exit: an untouched one stays settled or not, a sold one is
  settled exactly when it is sold out.\<close>

lemma exit_lots_ok:
  assumes ok: "book_ok b" and as: "slices_of b i sell as"
    and lots: "bk_lots b' = fold (write_sold_lot now) as (bk_lots b)" and trials: "bk_trials b' = bk_trials b"
    and positions: "ps_id ` set (bk_positions b') = ps_id ` set (bk_positions b)"
    and settled: "\<And>i. settled_trial b' i \<longleftrightarrow> settled_trial b i
          \<or> (i \<in> lt_trial_id ` set (filter (\<lambda>l. lt_remaining_token_raw l = 0) (map (sold_lot now) as))
             \<and> i \<in> tl_id ` set (bk_trials b))"
    and l: "l \<in> set (bk_lots b')"
  shows "lot_ok b' l"
proof -
  have "set (bk_lots b') = (set (bk_lots b) - set (map al_lot as)) \<union> set (map (sold_lot now) as)"
    unfolding lots using book_okD(2) [OF ok] as by (intro write_lots_set) (auto simp: slices_of_def slice_ok_def)
  with l consider (kept) "l \<in> set (bk_lots b)" "l \<notin> al_lot ` set as" | (sold) a where "a \<in> set as" "l = sold_lot now a"
    by auto
  then show ?thesis
  proof cases
    case kept
    have "lt_trial_id l \<noteq> lt_trial_id (al_lot a)" if "a \<in> set as" for a
      using that kept same_lot [OF ok kept(1) slice_lot_ok(4) [OF ok as that]] by auto
    then have "settled_trial b' (lt_trial_id l) \<longleftrightarrow> settled_trial b (lt_trial_id l)" by (fastforce simp: settled)
    with book_okD(7) [OF ok kept(1)] show ?thesis by (simp add: lot_ok_def trials positions)
  next
    case (sold a)
    note a = slice_lot_ok [OF ok as sold(1)]
    have "settled_trial b' (lt_trial_id l) \<longleftrightarrow> lt_remaining_token_raw l = 0"
    proof
      assume "settled_trial b' (lt_trial_id l)"
      with sold sold_lot_ok_raw(3) [OF a(2, 1)] obtain c where
        c: "c \<in> set as" "lt_remaining_token_raw (sold_lot now c) = 0" "lt_trial_id (al_lot c) = lt_trial_id (al_lot a)"
        by (auto simp: settled)
      then have "al_lot c = al_lot a" using same_lot [OF ok slice_lot_ok(4) [OF ok as c(1)] a(4)] by simp
      then have "c = a" using c(1) sold(1) as by (auto simp: slices_of_def distinct_map inj_on_def)
      with c sold show "lt_remaining_token_raw l = 0" by simp
    next
      assume "lt_remaining_token_raw l = 0"
      with sold have "l \<in> set (filter (\<lambda>l. lt_remaining_token_raw l = 0) (map (sold_lot now) as))" by simp
      moreover have "lt_trial_id l \<in> tl_id ` set (bk_trials b)" using sold a(2) by (simp add: lot_ok_def)
      ultimately show "settled_trial b' (lt_trial_id l)" unfolding settled by blast
    qed
    with a(2) sold sold_lot_ok_raw(1, 2) [OF a(2, 1), of now] sold_lot_proportional [OF a(2, 1), of now] show ?thesis
      by (simp add: lot_ok_def trials positions)
  qed
qed


lemma sold_position_simps [simp]:
  "ps_id (sold_position x now status raw fraction p) = ps_id p" "ps_token (sold_position x now status raw fraction p) = ps_token p"
  "ps_status (sold_position x now status raw fraction p) = status"
  "ps_remaining_token_raw (sold_position x now status raw fraction p) = raw"
  "ps_remaining_fraction (sold_position x now status raw fraction p) = fraction"
  by (simp_all add: sold_position_def)

text \<open>An exit that closes the position must sell all that the row holds.\<close>

definition exit_fits :: "exit_order \<Rightarrow> position_row \<Rightarrow> bool" where
  "exit_fits x p \<longleftrightarrow> 0 < xo_sell_raw x \<and> (open_status (xo_next_status x) \<or> xo_sell_raw x = ps_remaining_token_raw p)"

lemma closed_status: "\<not> open_status st \<Longrightarrow> st = Closed"
  by (cases st) simp_all

lemma over_lots_zero: "(\<And>l. l \<in> set lots \<Longrightarrow> lt_position_id l = i \<Longrightarrow> f l = 0) \<Longrightarrow> over_lots f i lots = 0"
  by (induction lots) auto

lemma over_lots_pos_zero:
  assumes "\<forall>l\<in>set lots. 0 \<le> f l" and "over_lots f i lots = 0" and "l \<in> set lots" and "lt_position_id l = i"
  shows "f l = 0"
  using assms
proof (induction lots)
  case (Cons k lots)
  have "0 \<le> over_lots f i lots" using Cons.prems(1) by (intro over_lots_nonneg) simp
  with Cons show ?case by (auto split: if_splits simp: add_nonneg_eq_0_iff)
qed simp

lemma real_sum_list: "(\<Sum>a\<leftarrow>as. real_of_int (f a)) = real_of_int (sum_list (map f as))"
  by (induction as) simp_all

lemma write_lots_trials:
  assumes "distinct (map lt_id rows)" and "\<forall>a\<in>set as. al_lot a \<in> set rows"
    and "distinct (map (\<lambda>a. lt_id (al_lot a)) as)"
  shows "map lt_trial_id (fold (write_sold_lot now) as rows) = map lt_trial_id rows"
  using assms
proof (induction as arbitrary: rows)
  case (Cons a as)
  have one: "map lt_trial_id (write_sold_lot now a rows) = map lt_trial_id rows"
    using Cons.prems(1, 2) by (auto simp: write_sold_lot_def distinct_map inj_on_def)
  have "\<forall>c\<in>set as. al_lot c \<in> set (write_sold_lot now a rows)"
    using Cons.prems by (intro write_sold_lot_others) simp_all
  with Cons one show ?case by simp
qed simp

lemma slices_of_in: "slices_of b i sell as \<Longrightarrow> \<forall>a\<in>set as. al_lot a \<in> set (bk_lots b)"
  "slices_of b i sell as \<Longrightarrow> distinct (map (\<lambda>a. lt_id (al_lot a)) as)"
  by (auto simp: slices_of_def slice_ok_def)

lemma CLOSED_BELOW_pos: "0 < CLOSED_BELOW"
  by (simp add: CLOSED_BELOW_def)

lemma write_exit_ok:
  assumes ok: "book_ok b" and p: "p \<in> set (bk_positions b)" "open_status (ps_status p)" and fits: "exit_fits x p"
    and as: "slices_of b (ps_id p) (xo_sell_raw x) as" and w: "write_exit x q now p as b = (Inr (), b')"
  shows "book_ok b'"
proof -
  obtain status raw fraction where r: "remaining_after x (sum_list (map al_fraction as)) p = (status, raw, fraction)"
    by (cases "remaining_after x (sum_list (map al_fraction as)) p") auto
  note b' = write_exit_cases [OF w r]
  let ?raw = "\<lambda>l. real_of_int (lt_remaining_token_raw l)"
  have ids: "map ps_id (bk_positions b') = map ps_id (bk_positions b)" using b' by simp
  then have id_set: "ps_id ` set (bk_positions b') = ps_id ` set (bk_positions b)" by (metis set_map)
  have lots: "lot_ok b' l" if "l \<in> set (bk_lots b')" for l
    using b' id_set that by (intro exit_lots_ok [OF ok as, where b' = b' and now = now]) auto
  have sums: "over_lots f j (bk_lots b') = over_lots f j (bk_lots b)
     + (if j = ps_id p then (\<Sum>a\<leftarrow>as. f (sold_lot now a) - f (al_lot a)) else 0)" for f j
    using b' by (simp add: over_lots_sold [OF ok as])
  have "(\<Sum>a\<leftarrow>as. ?raw (sold_lot now a) - ?raw (al_lot a)) = (\<Sum>a\<leftarrow>as. - real_of_int (al_raw a))"
    by (intro arg_cong [of _ _ sum_list] map_cong refl) (simp add: sold_lot_raw [OF slice_lot_ok(1) [OF ok as]])
  also have "\<dots> = - real_of_int (xo_sell_raw x)"
    using as by (simp add: slices_of_def uminus_sum_list_map [symmetric, unfolded comp_def] real_sum_list)
  finally have raws: "over_lots ?raw (ps_id p) (bk_lots b') = real_of_int (ps_remaining_token_raw p - xo_sell_raw x)"
    using position_sums(1) [OF ok p] by (simp add: sums)
  have "(\<Sum>a\<leftarrow>as. lt_remaining_fraction (sold_lot now a) - lt_remaining_fraction (al_lot a)) = (\<Sum>a\<leftarrow>as. - al_fraction a)"
    by (intro arg_cong [of _ _ sum_list] map_cong refl)
      (simp add: sold_lot_fraction [OF slice_lot_ok(1) [OF ok as]] lot_fraction_nonneg [OF slice_lot_ok(2) [OF ok as]])
  then have fractions: "over_lots lt_remaining_fraction (ps_id p) (bk_lots b')
      = ps_remaining_fraction p - sum_list (map al_fraction as)"
    using position_sums(2) [OF ok p] by (simp add: sums uminus_sum_list_map [symmetric, unfolded comp_def])
  have nonneg: "0 \<le> over_lots ?raw (ps_id p) (bk_lots b')"
    using lots by (intro over_lots_nonneg) (simp add: lot_ok_def)
  then have left: "0 \<le> ps_remaining_token_raw p - xo_sell_raw x" by (simp add: raws)
  have "position_ok (bk_lots b') s" if s: "s \<in> set (bk_positions b')" for s
  proof (cases "ps_id s = ps_id p")
    case False
    with s b' have "position_ok (bk_lots b) s" using book_okD(8) [OF ok] by auto
    moreover have "over_lots f (ps_id s) (bk_lots b') = over_lots f (ps_id s) (bk_lots b)" for f
      using False by (simp add: sums)
    ultimately show ?thesis by (simp only: position_ok_def)
  next
    case True
    then have s': "ps_status s = status" "ps_remaining_token_raw s = raw" "ps_remaining_fraction s = fraction"
      using s b' by auto
    have all_sold: "over_lots lt_remaining_fraction (ps_id p) (bk_lots b') = 0" if "ps_remaining_token_raw p - xo_sell_raw x = 0"
    proof (rule over_lots_zero)
      fix l assume l: "l \<in> set (bk_lots b')" "lt_position_id l = ps_id p"
      have "real_of_int (lt_remaining_token_raw l) = 0"
        by (rule over_lots_pos_zero [OF _ _ l]) (use lots raws that in \<open>auto simp: lot_ok_def\<close>)
      with lots [OF l(1)] show "lt_remaining_fraction l = 0" by (auto simp: lot_ok_def)
    qed
    show ?thesis
    proof (cases "max 0 (ps_remaining_token_raw p - xo_sell_raw x) = 0
        \<or> max 0 (ps_remaining_fraction p - sum_list (map al_fraction as)) \<le> CLOSED_BELOW")
      case closes: True
      then have "status = Closed" "raw = 0" "fraction = 0" using r by (auto simp: remaining_after_def Let_def)
      moreover have "over_lots lt_remaining_fraction (ps_id p) (bk_lots b') \<le> CLOSED_BELOW"
        using closes all_sold left fractions CLOSED_BELOW_pos by (auto simp: max_def split: if_splits)
      ultimately show ?thesis using True s' by (simp only: position_ok_def) simp
    next
      case stays: False
      then have rest: "status = xo_next_status x" "raw = ps_remaining_token_raw p - xo_sell_raw x" "0 < raw"
          "fraction = ps_remaining_fraction p - sum_list (map al_fraction as)"
        using r left CLOSED_BELOW_pos by (auto simp: remaining_after_def Let_def max_def split: if_splits)
      moreover have "open_status status" using fits rest by (auto simp: exit_fits_def)
      ultimately show ?thesis using True s' raws fractions by (simp add: position_ok_def)
    qed
  qed
  moreover have trial_ids: "map lt_trial_id (bk_lots b') = map lt_trial_id (bk_lots b)"
    using b' by (simp add: write_lots_trials [OF book_okD(2) [OF ok]] slices_of_in [OF as])
  moreover have "tracked_trial b' (tl_id t)" if "t \<in> set (bk_trials b')" for t
  proof -
    have "lt_trial_id ` set (bk_lots b') = lt_trial_id ` set (bk_lots b)" using trial_ids by (metis set_map)
    moreover have "t \<in> set (bk_trials b)" using that b' by simp
    ultimately show ?thesis using book_okD(9) [OF ok] by (simp add: tracked_trial_iff)
  qed
  moreover have "distinct (map ps_id (bk_positions b'))" unfolding ids by (rule book_okD(1) [OF ok])
  moreover have "distinct (map lt_trial_id (bk_lots b'))" unfolding trial_ids by (rule book_okD(3) [OF ok])
  moreover have "distinct (map lt_id (bk_lots b'))" "distinct (map tl_id (bk_trials b'))"
      "distinct (map oc_trial_id (bk_outcomes b'))" "oc_trial_id ` set (bk_outcomes b') \<subseteq> tl_id ` set (bk_trials b')"
      "open_token_unique b'"
    using b' book_okD(2, 4, 5, 10) [OF ok] by simp_all
  ultimately show ?thesis using lots by (simp only: book_ok_def) blast
qed


lemma exit_cases:
  "apply_exit x q now p b = (Inr (), b) \<or>
     (\<exists>as left. apply_exit_lots x q (open_lots b (ps_id p)) = (as, left) \<and> \<not> 0 < left
        \<and> apply_exit x q now p b = write_exit x q now p as b)"
  by (cases "apply_exit_lots x q (open_lots b (ps_id p))") (simp add: apply_exit_def Let_def)

lemma write_exit_result: "write_exit x q now p as b = (Inl e, b') \<Longrightarrow> b' = b"
  by (auto simp: write_exit_def Let_def split: prod.splits if_splits)

lemma apply_exit_ok:
  assumes "book_ok b" and "p \<in> set (bk_positions b)" and "open_status (ps_status p)" and "exit_fits x p"
  shows "book_ok (snd (apply_exit x q now p b))"
  using exit_cases [of x q now p b]
proof (elim disjE exE conjE)
  fix as left
  assume as: "apply_exit_lots x q (open_lots b (ps_id p)) = (as, left)" "\<not> 0 < left"
    and e: "apply_exit x q now p b = write_exit x q now p as b"
  have "slices_of b (ps_id p) (xo_sell_raw x) as"
    using exit_slices [OF assms(1) _ as] assms(4) by (simp add: exit_fits_def)
  with assms e write_exit_ok [OF assms(1-4)] show ?thesis
    by (cases "write_exit x q now p as b"; cases "fst (write_exit x q now p as b)") (auto dest: write_exit_result)
qed (simp add: assms(1))

text \<open>The orders of a settlement fit the row they come from.\<close>

lemma sell_choice:
  "(if a then (if h then Hold else f1) else if b then f2 else if c then f3 else if d then Sell st
      else if e then (if h then r else f4) else Hold) = Sell x \<Longrightarrow>
     f1 = Sell x \<or> f2 = Sell x \<or> f3 = Sell x \<or> st = x \<or> r = Sell x \<or> f4 = Sell x"
  by (cases a; cases b; cases c; cases d; cases e; cases h) simp_all

lemma full_sale_fits: "full_sale p event_type stage reason flow = Sell x \<Longrightarrow> 0 < ps_remaining_token_raw p \<Longrightarrow> exit_fits x p"
  by (auto simp: full_sale_def exit_fits_def)

lemma sold_or_marked: "(if c then MarkRunner else Sell y) = Sell x \<Longrightarrow> x = y"
  by (cases c) simp_all

lemma runner_sale_status: "runner_sale pol p flow = Sell x \<Longrightarrow> xo_next_status x = Runner"
proof -
  assume r: "runner_sale pol p flow = Sell x"
  show "xo_next_status x = Runner"
    by (simp only: sold_or_marked [OF r [unfolded runner_sale_def Let_def]] exit_order.simps)
qed

lemma settle_action_fits:
  assumes "settle_action_of pol xp p v elapsed flow = Sell x" and "0 < ps_remaining_token_raw p" and "0 < xo_sell_raw x"
  shows "exit_fits x p"
proof -
  have full: "full_sale p event_type stage reason flow = Sell x \<Longrightarrow> exit_fits x p" for event_type stage reason
    using assms(2) by (rule full_sale_fits [rotated])
  have staged: "staged_sale pol xp p flow = x \<Longrightarrow> exit_fits x p"
    using assms(3) by (auto simp: staged_sale_def exit_fits_def Let_def)
  have runner: "runner_sale pol p flow = Sell x \<Longrightarrow> exit_fits x p"
    using assms(3) by (auto simp: exit_fits_def dest!: runner_sale_status)
  show ?thesis
    using sell_choice [OF assms(1) [unfolded settle_action_of_def Let_def]]
    by (elim disjE) (erule full staged runner)+
qed

lemma whole_sale_fits: "0 < ps_remaining_token_raw p \<Longrightarrow> exit_fits (x\<lparr>xo_sell_raw := ps_remaining_token_raw p\<rparr>) p"
  by (simp add: exit_fits_def)

lemma mark_runner_ok:
  assumes ok: "book_ok b" and p: "p \<in> set (bk_positions b)" "open_status (ps_status p)"
  shows "book_ok (mark_runner (ps_id p) now b)"
proof -
  let ?b = "mark_runner (ps_id p) now b"
  define f where "f = (\<lambda>p :: position_row. p\<lparr>ps_status := Runner, ps_runner_active := True, ps_updated_at := now\<rparr>)"
  have b': "bk_positions ?b = map (\<lambda>q. if ps_id q = ps_id p then f q else q) (bk_positions b)"
      "bk_lots ?b = bk_lots b" "bk_trials ?b = bk_trials b" "bk_outcomes ?b = bk_outcomes b"
    by (simp_all add: mark_runner_def f_def)
  have ids: "map ps_id (bk_positions ?b) = map ps_id (bk_positions b)" by (simp add: b' f_def)
  have "map ps_token (filter (\<lambda>p. open_status (ps_status p)) (bk_positions ?b))
      = map ps_token (filter (\<lambda>p. open_status (ps_status p)) (bk_positions b))"
    unfolding b' using same_id [OF ok _ p(1)] p(2) by (intro open_tokens_mapped) (auto simp: f_def)
  then have "open_token_unique ?b" using book_okD(6) [OF ok] by (simp add: open_token_unique_def)
  moreover have "position_ok (bk_lots ?b) q" if "q \<in> set (bk_positions ?b)" for q
    using that position_sums [OF ok p] book_okD(8) [OF ok]
    by (auto simp: b' f_def position_ok_def dest: same_id [OF ok _ p(1)])
  moreover have "lot_ok ?b l" if "l \<in> set (bk_lots ?b)" for l
  proof -
    have "ps_id ` set (bk_positions ?b) = ps_id ` set (bk_positions b)" using ids by (metis set_map)
    moreover have "settled_trial ?b = settled_trial b" by (simp add: settled_trial_def b' fun_eq_iff)
    ultimately show ?thesis using that book_okD(7) [OF ok, of l] by (simp add: lot_ok_def b')
  qed
  ultimately show ?thesis
    using book_okD(1-5, 9, 10) [OF ok] ids by (simp add: book_ok_def b'(2-4) tracked_trial_def)
qed

lemma plan_position_fits:
  assumes "plan_position pol xp quote flow now p cost = Exit r x q"
  shows "r = p \<and> exit_fits x p"
  using assms
  by (auto simp: plan_position_def Let_def split: sum.splits option.splits settle_action.splits if_splits
      intro: whole_sale_fits settle_action_fits)

lemma plan_position_marks: "plan_position pol xp quote flow now p cost = Mark r \<Longrightarrow> r = p \<and> 0 < ps_remaining_token_raw p"
  by (auto simp: plan_position_def Let_def split: sum.splits option.splits settle_action.splits if_splits)

lemma plan_position_exits: "plan_position pol xp quote flow now p cost = Exit r x q \<Longrightarrow> 0 < ps_remaining_token_raw p"
  by (auto simp: plan_position_def Let_def split: sum.splits option.splits settle_action.splits if_splits)

text \<open>A plan concerns an open row of the book it was made from.\<close>

lemma settle_plan_rows:
  assumes "book_ok b"
  shows "settle_plan_of pol xp quote flow now trial b = Mark p \<Longrightarrow> p \<in> set (bk_positions b) \<and> open_status (ps_status p)"
    "settle_plan_of pol xp quote flow now trial b = Exit p x q \<Longrightarrow>
       p \<in> set (bk_positions b) \<and> open_status (ps_status p) \<and> exit_fits x p"
proof -
  have positive: "open_status (ps_status p)" if "p \<in> set (bk_positions b)" "0 < ps_remaining_token_raw p" for p
    using that book_okD(8) [OF assms, of p] by (auto simp: position_ok_def split: if_splits)
  show "settle_plan_of pol xp quote flow now trial b = Mark p \<Longrightarrow> p \<in> set (bk_positions b) \<and> open_status (ps_status p)"
    by (auto simp: settle_plan_of_def split: option.splits if_splits dest!: find_result plan_position_marks intro: positive)
  show "settle_plan_of pol xp quote flow now trial b = Exit p x q \<Longrightarrow>
       p \<in> set (bk_positions b) \<and> open_status (ps_status p) \<and> exit_fits x p"
    by (auto simp: settle_plan_of_def split: option.splits if_splits dest!: find_result
        dest: plan_position_fits plan_position_exits intro: positive)
qed

lemma settle_one_ok:
  assumes "book_ok b"
  shows "book_ok (snd (settle_one_with_lifecycle pol xp quote flow now (\<lambda>_ b. (Inr (), b)) trial b b))"
  using assms settle_plan_rows [OF assms, of pol xp quote flow now trial]
  by (auto simp: settle_one_with_lifecycle_def split: settle_plan.split intro: apply_exit_ok mark_runner_ok)

lemma choose_keeps: "\<exists>pend. snd (choose_with_lifecycle pol fp now token market k c b) = b\<lparr>bk_pending := pend\<rparr>"
proof (cases "clean_address (Some token) = [] \<or> or_text (bc_lane c) [] = [] \<or> bc_fraction c \<le> 0")
  case True
  then show ?thesis by (auto simp: choose_with_lifecycle_def Let_def intro: exI [of _ "bk_pending b"])
next
  case False
  then show ?thesis by (auto simp: choose_with_lifecycle_def Let_def split: prod.split)
qed


subsection \<open>The lane as a machine\<close>

definition new_book :: "string \<Rightarrow> real \<Rightarrow> book" where
  "new_book release nav = \<lparr>bk_release_commit = release, bk_starting_nav_usd = nav, bk_trials = [],
     bk_contexts = [], bk_outcomes = [], bk_positions = [], bk_lots = [], bk_events = [],
     bk_pending = [], bk_bootstrap_done = False\<rparr>"

type_synonym quote_answers = "string \<Rightarrow> string \<Rightarrow> string \<Rightarrow> int \<Rightarrow> exit_quote option result"

datatype book_event =
    BChoose position_policy "evidence_payload \<Rightarrow> string" datetime string string candidate_kwargs base_choice
  | BEntry quote_answers real datetime "entry_payload list"
  | BSettle position_policy exit_policy quote_answers string datetime nat
  | BRestart position_policy "evidence_payload \<Rightarrow> string" "(string \<Rightarrow> bool) option" datetime

text \<open>The base settlement concerns trials without a lot; a book that starts empty has none.\<close>

fun book_step :: "book \<Rightarrow> book_event \<Rightarrow> book \<times> string list" where
  "book_step b (BChoose pol fp now token market k c) = (snd (choose_with_lifecycle pol fp now token market k c b), [])"
| "book_step b (BEntry quote latency now captured) = (snd (maybe_open_with_lifecycle quote latency now captured b), [])"
| "book_step b (BSettle pol xp quote flow now trial) =
     (snd (settle_one_with_lifecycle pol xp quote flow now (\<lambda>_ b. (Inr (), b)) trial b b), [])"
| "book_step b (BRestart pol fp frozen now) =
     (snd (bootstrap_existing_open_trials pol fp frozen now (new_process b)), [])"

lemma adoptable_none: "book_ok b \<Longrightarrow> adoptable_rows frozen (new_process b) = []"
  using book_okD(9) [of b]
  by (auto simp: adoptable_rows_def new_process_def tracked_trial_def map_filter_def filter_empty_conv)

lemma book_ok_flag [simp]: "book_ok (b\<lparr>bk_bootstrap_done := f\<rparr>) = book_ok b"
  by (simp add: book_ok_def lot_ok_def open_token_unique_def tracked_trial_def settled_trial_def)

interpretation book_machine: invariant_machine book_step "\<lambda>_. True" book_ok
proof
  fix b e
  assume ok: "book_ok b"
  show "book_ok (fst (book_step b e))"
  proof (cases e)
    case (BChoose pol fp now token market k c)
    with ok choose_keeps [of pol fp now token market k c b] show ?thesis by (auto simp: book_ok_pending)
  next
    case (BEntry quote latency now captured)
    with ok show ?thesis by (simp add: maybe_open_ok)
  next
    case (BSettle pol xp quote flow now trial)
    with ok show ?thesis by (simp add: settle_one_ok)
  next
    case (BRestart pol fp frozen now)
    with ok adoptable_none [OF ok] show ?thesis
      by (simp add: bootstrap_existing_open_trials_def split: option.split) (simp add: new_process_def)
  qed
qed

lemma new_book_ok: "book_ok (new_book release nav)"
  by (simp add: book_ok_def new_book_def open_token_unique_def)

definition lane_run :: "string \<Rightarrow> real \<Rightarrow> book_event list \<Rightarrow> book" where
  "lane_run release nav es = fst (run_machine book_step (new_book release nav) es)"

lemma lane_run_ok: "book_ok (lane_run release nav es)"
  unfolding lane_run_def by (rule book_machine.run_inv [OF new_book_ok]) simp

end
