(* ===== verification/Lifecycle.thy ===== *)
theory Lifecycle
  imports PositionBooks "HOL-Library.Multiset"
begin

text \<open>
  The properties of the position lifecycle: what every run of the lane keeps, what an entry
  needs, what an exit moves, and the three situations in which the code loses track of
  tokens it holds. The last section evaluates them on a lane with one token.
\<close>

subsection \<open>The open lots of a position\<close>

lemma sum_sort_key: "sum_list (map (f :: 'a \<Rightarrow> int) (sort_key k xs)) = sum_list (map f xs)"
  by (metis mset_map mset_sort sum_mset_sum_list)

lemma lot_open_iff: "lot_ok b l \<Longrightarrow> 0 < lt_remaining_fraction l \<longleftrightarrow> 0 < lt_remaining_token_raw l"
proof -
  assume l: "lot_ok b l"
  then have eq: "lt_remaining_fraction l * real_of_int (lt_entry_token_raw l)
      = lt_entry_fraction l * real_of_int (lt_remaining_token_raw l)"
    and pos: "0 < real_of_int (lt_entry_token_raw l)" "0 < lt_entry_fraction l" by (simp_all add: lot_ok_def)
  from pos(1) have "0 < lt_remaining_fraction l \<longleftrightarrow> 0 < lt_remaining_fraction l * real_of_int (lt_entry_token_raw l)"
    by (simp add: zero_less_mult_iff)
  with eq pos(2) show ?thesis by (simp add: zero_less_mult_iff)
qed

lemma open_lots_pos: "book_ok b \<Longrightarrow> \<forall>l\<in>set (open_lots b i). 0 < lt_remaining_token_raw l"
  by (auto simp: set_open_lots dest: book_okD(7) lot_open_iff)

lemma raw_total_filtered:
  "\<forall>l\<in>set lots. lot_ok b l \<Longrightarrow>
     real_of_int (sum_list (map (\<lambda>l. max 0 (lt_remaining_token_raw l))
       (filter (\<lambda>l. lt_position_id l = i \<and> lt_remaining_fraction l > 0 \<and> lt_trial_id l \<in> tl_id ` set (bk_trials b)) lots)))
     = over_lots (\<lambda>l. real_of_int (lt_remaining_token_raw l)) i lots"
proof (induction lots)
  case (Cons l lots)
  then have l: "lot_ok b l" by simp
  then have "lt_trial_id l \<in> tl_id ` set (bk_trials b)" "0 \<le> lt_remaining_token_raw l" by (simp_all add: lot_ok_def)
  with Cons lot_open_iff [OF l] show ?case by auto
qed simp

lemma raw_total_open_lots:
  assumes "book_ok b"
  shows "real_of_int (raw_total (open_lots b i)) = over_lots (\<lambda>l. real_of_int (lt_remaining_token_raw l)) i (bk_lots b)"
  unfolding raw_total_def open_lots_def sum_sort_key using book_okD(7) [OF assms] by (intro raw_total_filtered) blast

lemma open_position_lots:
  assumes "book_ok b" and "p \<in> set (bk_positions b)" and "open_status (ps_status p)"
  shows "raw_total (open_lots b (ps_id p)) = ps_remaining_token_raw p" "open_lots b (ps_id p) \<noteq> []"
proof -
  have "real_of_int (raw_total (open_lots b (ps_id p))) = real_of_int (ps_remaining_token_raw p)"
    using raw_total_open_lots [OF assms(1)] position_sums(1) [OF assms] by simp
  then show total: "raw_total (open_lots b (ps_id p)) = ps_remaining_token_raw p" by (simp only: of_int_eq_iff)
  then show "open_lots b (ps_id p) \<noteq> []" using position_sums(3) [OF assms] by (auto simp: raw_total_def)
qed


subsection \<open>What every run keeps\<close>


subsection \<open>Entries\<close>

lemma aggregate_of_scale:
  "aggregate_of n pd token market b = Some (raw, fraction) \<Longrightarrow> open_position b token = Some p \<Longrightarrow>
     pd_stage pd = Scale \<and> ps_status p \<in> {Entered, Scaling} \<and> market = clean_address (Some (ps_market p))
     \<and> ps_last_add_price_eth p \<le> lq_entry_price_eth (en_quote n) + 1 / 10 ^ 12
     \<and> raw = max 0 (ps_remaining_token_raw p) + max 0 (lq_token_out (en_quote n))
     \<and> fraction = max 0 (ps_remaining_fraction p) + max 0 (en_fraction n)"
  by (auto simp: aggregate_of_def Let_def split: if_splits)

lemma open_position_row: "clean_address (Some t) = t \<Longrightarrow> t \<noteq> [] \<Longrightarrow> open_position b t = open_row t b"
  by (simp add: open_position_def)

lemma clean_address_idem [simp]: "clean_address (Some (clean_address (Some t))) = clean_address (Some t)"
  by (simp add: clean_address_def Let_def lower_def take_map lower_char_def)

lemma validate_committed:
  assumes "validate_and_commit quote latency now n b = (Inr True, b')"
    and "token = clean_address (Some (en_token n))" and "market = clean_address (Some (en_market n))"
  obtains pd raw fraction b1 where "dict_get (bk_pending b) token = Some pd"
    "aggregate_of n pd token market b = Some (raw, fraction)" "token \<noteq> []"
    "0 < lq_token_out (en_quote n)" "0 < en_fraction n"
    "fraction \<le> max 0 (pd_target_fraction pd) + 1 / 10 ^ 12"
    "exitable (quote token market (en_venue n) raw)" "exitable (quote token market (en_venue n) (stress_raw_of raw))"
    "write_lot n pd now (open_row token b) b = Inr b1" "b' = drop_pending token b1"
    "\<forall>p. open_row token b = Some p \<longrightarrow> pd_evidence_fingerprint pd \<noteq> ps_last_evidence_fingerprint p"
  using validate_cases [of quote latency now n b] assms(1) unfolding assms(2, 3)
proof (elim disjE exE conjE)
  fix pd raw fraction
  assume v: "validate_and_commit quote latency now n b = persist_lot now n pd b"
  then have "persist_lot now n pd b = (Inr True, b')" using assms(1) by simp
  then obtain b1 where "write_lot n pd now (open_row (clean_address (Some (en_token n))) b) b = Inr b1"
      "b' = drop_pending (clean_address (Some (en_token n))) b1"
      "\<forall>p. open_row (clean_address (Some (en_token n))) b = Some p \<longrightarrow>
              pd_evidence_fingerprint pd \<noteq> ps_last_evidence_fingerprint p"
    using persist_lot_cases [of now n pd b] by auto
  moreover assume "dict_get (bk_pending b) (clean_address (Some (en_token n))) = Some pd"
    "aggregate_of n pd (clean_address (Some (en_token n))) (clean_address (Some (en_market n))) b = Some (raw, fraction)"
    "clean_address (Some (en_token n)) \<noteq> []" "0 < lq_token_out (en_quote n)" "0 < en_fraction n"
    "fraction \<le> max 0 (pd_target_fraction pd) + 1 / 10 ^ 12"
    "exitable (quote (clean_address (Some (en_token n))) (clean_address (Some (en_market n))) (en_venue n) raw)"
    "exitable (quote (clean_address (Some (en_token n))) (clean_address (Some (en_market n))) (en_venue n) (stress_raw_of raw))"
  ultimately show thesis by (intro that [of pd raw fraction b1]) (simp_all add: assms(2, 3))
qed simp

lemma write_lot_scale:
  assumes "write_lot n pd now (Some p) b = Inr b'"
  shows "bk_positions b' = map (\<lambda>q. if ps_id q = ps_id p then scaled_position n pd now q else q) (bk_positions b)
    \<and> (\<exists>l. bk_lots b' = bk_lots b @ [l] \<and> lt_position_id l = ps_id p
         \<and> lt_remaining_token_raw l = lq_token_out (en_quote n) \<and> lt_remaining_fraction l = en_fraction n)"
proof -
  define t where "t = new_trial n (pd_stage pd) now b"
  define b1 where "b1 = b\<lparr>bk_trials := bk_trials b @ [t]\<rparr>"
  define b2 where "b2 = update_position (ps_id p) (scaled_position n pd now)
     (b1\<lparr>bk_contexts := bk_contexts b1 @ [new_context n (tl_id t) now]\<rparr>)"
  define l where "l = new_lot n pd (ps_id p) (tl_id t) now b2"
  obtain e where b': "b' = b2\<lparr>bk_lots := bk_lots b2 @ [l], bk_events := bk_events b2 @ [e]\<rparr>"
    using assms unfolding write_lot_def Let_def t_def [symmetric] b1_def [symmetric]
    by (auto simp: bind_result_def insert_Inr b2_def [symmetric] l_def [symmetric] split: sum.splits)
  show ?thesis by (auto simp: b' b2_def b1_def l_def)
qed



subsection \<open>Exits\<close>

text \<open>An exit that changes the book has divided everything it sells among open lots.\<close>

lemma apply_exit_wrote:
  assumes "book_ok b" and "0 < xo_sell_raw x" and "apply_exit x q now p b = (Inr (), b')" and "b' \<noteq> b"
  obtains as where "apply_exit_lots x q (open_lots b (ps_id p)) = (as, 0)"
    "write_exit x q now p as b = (Inr (), b')" "slices_of b (ps_id p) (xo_sell_raw x) as"
  using exit_cases [of x q now p b]
proof (elim disjE exE conjE)
  fix as left
  assume as: "apply_exit_lots x q (open_lots b (ps_id p)) = (as, left)" "\<not> 0 < left"
    and w: "apply_exit x q now p b = write_exit x q now p as b"
  then show thesis using exit_slices [OF assms(1, 2) as] assms(3) as(1) by (intro that [of as]) simp_all
qed (use assms in simp)

lemma write_exit_lots_of:
  assumes "write_exit x q now p as b = (Inr (), b')"
  shows "bk_lots b' = fold (write_sold_lot now) as (bk_lots b)"
proof -
  obtain status raw fraction where r: "remaining_after x (sum_list (map al_fraction as)) p = (status, raw, fraction)"
    by (cases "remaining_after x (sum_list (map al_fraction as)) p") auto
  then show ?thesis using write_exit_cases [OF assms r] by simp
qed

lemma over_lots_exit:
  assumes "book_ok b" and as: "slices_of b (ps_id p) (xo_sell_raw x) as" and w: "write_exit x q now p as b = (Inr (), b')"
  shows "over_lots (\<lambda>l. real_of_int (lt_remaining_token_raw l)) (ps_id p) (bk_lots b')
      = over_lots (\<lambda>l. real_of_int (lt_remaining_token_raw l)) (ps_id p) (bk_lots b) - real_of_int (xo_sell_raw x)"
    "over_lots (\<lambda>l. real_of_int (lt_realized_exit_net_wei l)) (ps_id p) (bk_lots b')
      = over_lots (\<lambda>l. real_of_int (lt_realized_exit_net_wei l)) (ps_id p) (bk_lots b)
        + real_of_int (sum_list (map al_net as))"
    "over_lots (\<lambda>l. real_of_int (lt_realized_exit_gas_wei l)) (ps_id p) (bk_lots b')
      = over_lots (\<lambda>l. real_of_int (lt_realized_exit_gas_wei l)) (ps_id p) (bk_lots b)
        + real_of_int (sum_list (map al_gas as))"
proof -
  have "(\<Sum>a\<leftarrow>as. real_of_int (lt_remaining_token_raw (sold_lot now a)) - real_of_int (lt_remaining_token_raw (al_lot a)))
      = (\<Sum>a\<leftarrow>as. - real_of_int (al_raw a))"
    by (intro arg_cong [of _ _ sum_list] map_cong refl) (simp add: sold_lot_raw [OF slice_lot_ok(1) [OF assms(1) as]])
  also have "\<dots> = - real_of_int (xo_sell_raw x)"
    using as by (simp add: slices_of_def uminus_sum_list_map [symmetric, unfolded comp_def] real_sum_list)
  finally show "over_lots (\<lambda>l. real_of_int (lt_remaining_token_raw l)) (ps_id p) (bk_lots b')
      = over_lots (\<lambda>l. real_of_int (lt_remaining_token_raw l)) (ps_id p) (bk_lots b) - real_of_int (xo_sell_raw x)"
    by (simp add: write_exit_lots_of [OF w] over_lots_sold [OF assms(1) as])
qed (simp_all add: write_exit_lots_of [OF w] over_lots_sold [OF assms(1) as] real_sum_list)

text \<open>C4. An exit is divided without remainder. When an exit of a position writes anything, the raw tokens
  of the position's lots fall by exactly what is sold, the proceeds and the gas booked on them rise by
  exactly those of the quote, no lot is sold below zero, and the lots of other positions stay as they are.\<close>

theorem exit_allocation_is_exact:
  assumes "book_ok b" and "0 < xo_sell_raw x" and "apply_exit x q now p b = (Inr (), b')" and "b' \<noteq> b"
  shows "over_lots (\<lambda>l. real_of_int (lt_remaining_token_raw l)) (ps_id p) (bk_lots b')
      = over_lots (\<lambda>l. real_of_int (lt_remaining_token_raw l)) (ps_id p) (bk_lots b) - real_of_int (xo_sell_raw x)
    \<and> over_lots (\<lambda>l. real_of_int (lt_realized_exit_net_wei l)) (ps_id p) (bk_lots b')
      = over_lots (\<lambda>l. real_of_int (lt_realized_exit_net_wei l)) (ps_id p) (bk_lots b) + real_of_int (max 0 (xq_net_out_wei q))
    \<and> over_lots (\<lambda>l. real_of_int (lt_realized_exit_gas_wei l)) (ps_id p) (bk_lots b')
      = over_lots (\<lambda>l. real_of_int (lt_realized_exit_gas_wei l)) (ps_id p) (bk_lots b) + real_of_int (max 0 (xq_exit_gas_wei q))
    \<and> (\<forall>l\<in>set (bk_lots b'). 0 \<le> lt_remaining_token_raw l)
    \<and> (\<forall>l\<in>set (bk_lots b). lt_position_id l \<noteq> ps_id p \<longrightarrow> l \<in> set (bk_lots b'))"
proof -
  obtain as where as: "apply_exit_lots x q (open_lots b (ps_id p)) = (as, 0)"
      "write_exit x q now p as b = (Inr (), b')" "slices_of b (ps_id p) (xo_sell_raw x) as"
    using apply_exit_wrote [OF assms] .
  have money: "sum_list (map al_net as) = max 0 (xq_net_out_wei q)" "sum_list (map al_gas as) = max 0 (xq_exit_gas_wei q)"
    using as(1) allocate_money [OF assms(2), of "max 0 (xq_net_out_wei q)" "max 0 (xq_exit_gas_wei q)" "xo_sell_raw x"
        "raw_total (open_lots b (ps_id p))" "max 0 (xq_net_out_wei q)" "max 0 (xq_exit_gas_wei q)" "open_lots b (ps_id p)"]
    by (simp_all add: apply_exit_lots_def)
  have rows: "set (bk_lots b') = (set (bk_lots b) - set (map al_lot as)) \<union> set (map (sold_lot now) as)"
    unfolding write_exit_lots_of [OF as(2)] using book_okD(2) [OF assms(1)] slices_of_in [OF as(3)]
    by (intro write_lots_set) simp_all
  have "0 \<le> lt_remaining_token_raw l" if "l \<in> set (bk_lots b')" for l
    using that rows sold_lot_ok_raw(1) [OF slice_lot_ok(2, 1) [OF assms(1) as(3)]]
    by (auto simp: lot_ok_def dest: book_okD(7) [OF assms(1)])
  moreover have "l \<in> set (bk_lots b')" if "l \<in> set (bk_lots b)" "lt_position_id l \<noteq> ps_id p" for l
    using that rows slice_lot_ok(3) [OF assms(1) as(3)] by auto
  ultimately show ?thesis using over_lots_exit [OF assms(1) as(3, 2)] money by simp
qed


lemma closing_keeps_unique:
  assumes "distinct (map ps_token (filter (\<lambda>r. open_status (ps_status r)) rows))"
  shows "distinct (map ps_token (filter (\<lambda>r. open_status (ps_status r))
     (map (\<lambda>r. if ps_id r = i then sold_position x now Closed raw fraction r else r) rows)))"
proof -
  let ?f = "\<lambda>r. if ps_id r = i then sold_position x now Closed raw fraction r else r"
  have "filter (\<lambda>r. open_status (ps_status r)) (map ?f rows) = filter (\<lambda>r. open_status (ps_status r) \<and> ps_id r \<noteq> i) rows"
    by (induction rows) (auto simp: open_status_def)
  with assms show ?thesis by (simp flip: filter_filter add: conj_commute distinct_map_filter)
qed

lemma write_exit_closes:
  assumes "open_token_unique b" and "xo_sell_raw x = ps_remaining_token_raw p"
  obtains b' where "write_exit x q now p as b = (Inr (), b')"
    "remaining_after x (sum_list (map al_fraction as)) p = (Closed, 0, 0)"
proof -
  have r: "remaining_after x (sum_list (map al_fraction as)) p = (Closed, 0, 0)"
    using assms(2) by (simp add: remaining_after_def Let_def)
  have "open_token_unique (update_position (ps_id p) (sold_position x now Closed 0 0)
      (b\<lparr>bk_lots := fold (write_sold_lot now) as (bk_lots b)\<rparr>))"
    using closing_keeps_unique [of "bk_positions b"] assms(1)
    by (simp add: open_token_unique_def)
  with r show thesis by (intro that) (simp_all add: write_exit_def Let_def)
qed

text \<open>C10. A full exit works only for lots that a double can hold. When all that a position holds
  is to be sold, the position is closed, its lots are emptied and their trials settled, if every lot but
  the last has a raw amount whose nearest double is no smaller; otherwise the call returns without
  an error and without selling anything, although the exit was decided and quoted.\<close>

theorem full_exit_needs_exact_doubles:
  assumes "book_ok b" and "p \<in> set (bk_positions b)" and "open_status (ps_status p)"
    and "xo_sell_raw x = ps_remaining_token_raw p"
  shows "if list_all held_by_double (butlast (open_lots b (ps_id p)))
    then \<exists>b'. apply_exit x q now p b = (Inr (), b')
      \<and> (\<forall>r\<in>set (bk_positions b'). ps_id r = ps_id p \<longrightarrow> ps_status r = Closed \<and> ps_remaining_token_raw r = 0)
      \<and> (\<forall>l\<in>set (bk_lots b'). lt_position_id l = ps_id p \<longrightarrow>
            lt_remaining_token_raw l = 0 \<and> settled_trial b' (lt_trial_id l))
    else apply_exit x q now p b = (Inr (), b)"
proof -
  let ?lots = "open_lots b (ps_id p)"
  note lots = open_position_lots [OF assms(1-3)] open_lots_pos [OF assms(1), of "ps_id p"]
  have pos: "0 < xo_sell_raw x" "raw_total ?lots = xo_sell_raw x"
    using position_sums(3) [OF assms(1-3)] lots(1) assms(4) by simp_all
  obtain as left where e: "apply_exit_lots x q ?lots = (as, left)" by (cases "apply_exit_lots x q ?lots") auto
  have "snd (apply_exit_lots x q ?lots) = 0 \<longleftrightarrow> list_all held_by_double (butlast ?lots)"
    unfolding apply_exit_lots_def pos(2) using pos(2) by (subst full_sale_iff [OF pos(1) lots(3) _ lots(2)]) simp_all
  then have all: "left = 0 \<longleftrightarrow> list_all held_by_double (butlast ?lots)" using e by simp
  have "0 \<le> left"
    using allocate_total [OF pos(1), of "xo_sell_raw x" "raw_total ?lots" "max 0 (xq_net_out_wei q)"
        "max 0 (xq_exit_gas_wei q)" ?lots "max 0 (xq_net_out_wei q)" "max 0 (xq_exit_gas_wei q)"] e
    by (simp add: apply_exit_lots_def)
  show ?thesis
  proof (cases "left = 0")
    case False
    with all e pos \<open>0 \<le> left\<close> show ?thesis by (simp add: apply_exit_def Let_def)
  next
    case True
    then have as: "slices_of b (ps_id p) (xo_sell_raw x) as" using exit_slices [OF assms(1) pos(1) e] by simp
    obtain b' where b': "write_exit x q now p as b = (Inr (), b')"
        "remaining_after x (sum_list (map al_fraction as)) p = (Closed, 0, 0)"
      using write_exit_closes [OF book_okD(6) [OF assms(1)] assms(4)] .
    note w = write_exit_cases [OF b']
    have fits: "exit_fits x p" using pos assms(4) by (simp add: exit_fits_def)
    have ok: "book_ok b'" by (rule write_exit_ok [OF assms(1-3) fits as b'(1)])
    have sold: "over_lots (\<lambda>l. real_of_int (lt_remaining_token_raw l)) (ps_id p) (bk_lots b') = 0"
      using over_lots_exit(1) [OF assms(1) as b'(1)] position_sums(1) [OF assms(1-3)] assms(4) by simp
    have "lt_remaining_token_raw l = 0 \<and> settled_trial b' (lt_trial_id l)"
      if "l \<in> set (bk_lots b')" "lt_position_id l = ps_id p" for l
    proof -
      have "real_of_int (lt_remaining_token_raw l) = 0"
        by (rule over_lots_pos_zero [OF _ sold that]) (auto simp: lot_ok_def dest: book_okD(7) [OF ok])
      then show ?thesis using book_okD(7) [OF ok that(1)] by (simp add: lot_ok_def)
    qed
    moreover have "apply_exit x q now p b = (Inr (), b')" using True e pos b'(1) by (simp add: apply_exit_def Let_def)
    ultimately show ?thesis using True all w by auto
  qed
qed

text \<open>Nothing of a closed position is ever sold again.\<close>

lemma find_by_key:
  assumes "distinct (map k rows)" and "r \<in> set rows" and "P r"
  shows "find (\<lambda>s. k s = k r \<and> P s) rows = Some r"
proof (cases "find (\<lambda>s. k s = k r \<and> P s) rows")
  case None
  with assms show ?thesis by (auto simp: find_None_iff)
next
  case (Some s)
  then have "s \<in> set rows" "k s = k r" by (auto dest!: find_result)
  with assms(1, 2) Some show ?thesis by (auto simp: distinct_map inj_on_def)
qed

lemma closed_position_stays:
  assumes "distinct (map lt_trial_id (bk_lots b))" and "distinct (map ps_id (bk_positions b))"
    and "s \<in> set (bk_positions b)" and "ps_remaining_token_raw s = 0"
    and "l \<in> set (bk_lots b)" and "lt_position_id l = ps_id s"
  shows "settle_one_with_lifecycle pol xp quote flow now base (lt_trial_id l) b b = (Inr (), b)"
proof -
  have "find (\<lambda>k. lt_trial_id k = lt_trial_id l \<and> lt_position_id k \<in> ps_id ` set (bk_positions b)) (bk_lots b) = Some l"
    using assms by (intro find_by_key) auto
  moreover have "find (\<lambda>p. ps_id p = ps_id s) (bk_positions b) = Some s"
    using find_by_key [OF assms(2, 3), of "\<lambda>_. True"] by simp
  ultimately show ?thesis
    using assms(4, 6) by (simp add: settle_one_with_lifecycle_def settle_plan_of_def plan_position_def)
qed

lemma one_open_row:
  assumes "open_token_unique b" and "p \<in> set (bk_positions b)" and "r \<in> set (bk_positions b)"
    and "open_status (ps_status p)" and "open_status (ps_status r)" and "ps_token p = ps_token r"
  shows "p = r"
  using assms by (auto simp: open_token_unique_def distinct_map inj_on_def)

lemma open_row_of:
  assumes "open_token_unique b" and "p \<in> set (bk_positions b)" and "open_status (ps_status p)"
  shows "open_row (ps_token p) b = Some p"
proof (cases "open_row (ps_token p) b")
  case None
  with assms(2, 3) show ?thesis by (simp add: open_row_None)
next
  case (Some r)
  with open_row_Some [OF Some] one_open_row [OF assms(1, 2) _ assms(3)] show ?thesis by metis
qed

text \<open>C11. An exit that is written from an outdated row strands the tokens of an add. The
  settlement reads the position, waits for quotes and then writes what it read; if an add commits
  in between and the exit sells what the old row held, then the position is closed
  with nothing left although the raw tokens of the add are still in its lots, and no settlement of
  any of its trials will do anything any more.\<close>

theorem stale_exit_strands_added_tokens:
  assumes "book_ok b" and "p \<in> set (bk_positions b)" and "open_status (ps_status p)"
    and "validate_and_commit quote latency now n b = (Inr True, b1)"
    and "clean_address (Some (en_token n)) = ps_token p"
    and "xo_sell_raw x = ps_remaining_token_raw p"
    and "apply_exit x q later p b1 = (Inr (), b2)" and "b2 \<noteq> b1"
  shows "0 < lq_token_out (en_quote n)
    \<and> over_lots (\<lambda>l. real_of_int (lt_remaining_token_raw l)) (ps_id p) (bk_lots b2) = real_of_int (lq_token_out (en_quote n))
    \<and> (\<exists>s\<in>set (bk_positions b2). ps_id s = ps_id p \<and> ps_status s = Closed \<and> ps_remaining_token_raw s = 0)
    \<and> open_row (ps_token p) b2 = None
    \<and> (\<forall>l\<in>set (bk_lots b2). lt_position_id l = ps_id p \<longrightarrow>
          settle_one_with_lifecycle pol xp sell flow now' base (lt_trial_id l) b2 b2 = (Inr (), b2))"
proof -
  have row: "open_row (ps_token p) b = Some p" by (rule open_row_of [OF book_okD(6) [OF assms(1)] assms(2, 3)])
  obtain pd b0 where add: "0 < lq_token_out (en_quote n)" "write_lot n pd now (Some p) b = Inr b0"
      "b1 = drop_pending (ps_token p) b0"
    by (rule validate_committed [OF assms(4) refl refl]) (use assms(5) row in auto)
  define s where "s = scaled_position n pd now p"
  have ok: "book_ok b1" using validate_ok [OF assms(1), of quote latency now n] assms(4) by simp
  have s: "s \<in> set (bk_positions b1)" "ps_id s = ps_id p" "ps_token s = ps_token p" "open_status (ps_status s)"
    using write_lot_scale [OF add(2)] assms(2) add(3) by (auto simp: s_def drop_pending_def)
  have sell: "0 < xo_sell_raw x" using position_sums(3) [OF assms(1-3)] assms(6) by simp
  obtain as where as: "write_exit x q later p as b1 = (Inr (), b2)" "slices_of b1 (ps_id p) (xo_sell_raw x) as"
    using apply_exit_wrote [OF ok sell assms(7, 8)] .
  have "remaining_after x (sum_list (map al_fraction as)) p = (Closed, 0, 0)"
    using assms(6) by (simp add: remaining_after_def Let_def)
  note w = write_exit_cases [OF as(1) this]
  define c where "c = sold_position x later Closed 0 0 s"
  have c: "c \<in> set (bk_positions b2)" "ps_id c = ps_id p" "ps_status c = Closed" "ps_remaining_token_raw c = 0"
    using w s by (auto simp: c_def)
  have "over_lots (\<lambda>l. real_of_int (lt_remaining_token_raw l)) (ps_id p) (bk_lots b2)
      = over_lots (\<lambda>l. real_of_int (lt_remaining_token_raw l)) (ps_id p) (bk_lots b1) - real_of_int (xo_sell_raw x)"
    by (rule over_lots_exit(1) [OF ok as(2, 1)])
  also have "\<dots> = real_of_int (lq_token_out (en_quote n))"
    using write_lot_scale [OF add(2)] add(3) assms(6) position_sums(1) [OF assms(1-3)] by (auto simp: drop_pending_def)
  finally have left: "over_lots (\<lambda>l. real_of_int (lt_remaining_token_raw l)) (ps_id p) (bk_lots b2)
      = real_of_int (lq_token_out (en_quote n))" .
  have "open_row (ps_token p) b2 = None"
    unfolding open_row_None
  proof (intro ballI impI)
    fix r assume r: "r \<in> set (bk_positions b2)" "ps_token r = ps_token p"
    from r(1) w consider "ps_status r = Closed" | "r \<in> set (bk_positions b1)" "ps_id r \<noteq> ps_id p" by auto
    then show "\<not> open_status (ps_status r)"
      using one_open_row [OF book_okD(6) [OF ok] s(1) _ s(4), of r] r(2) s(2, 3) by cases auto
  qed
  moreover have trials: "distinct (map lt_trial_id (bk_lots b2))"
    unfolding write_exit_lots_of [OF as(1)]
    using write_lots_trials [OF book_okD(2) [OF ok] slices_of_in [OF as(2)]] book_okD(3) [OF ok] by simp
  moreover have "map ps_id (bk_positions b2) = map ps_id (bk_positions b1)" using w by simp
  then have "distinct (map ps_id (bk_positions b2))" using book_okD(1) [OF ok] by simp
  ultimately show ?thesis using add(1) left c closed_position_stays [OF trials _ c(1, 4)] by auto
qed


subsection \<open>Adoption at a restart\<close>

lemma adoptable_rows_same:
  "bk_trials b' = bk_trials b \<Longrightarrow> bk_contexts b' = bk_contexts b \<Longrightarrow> bk_outcomes b' = bk_outcomes b \<Longrightarrow>
     bk_lots b' = bk_lots b \<Longrightarrow> adoptable_rows frozen b' = adoptable_rows frozen b"
  by (simp add: adoptable_rows_def settled_trial_def tracked_trial_def)

definition adopted_again :: "book \<Rightarrow> position_row \<Rightarrow> (evidence_payload \<Rightarrow> string) \<Rightarrow> (string \<Rightarrow> bool)
    \<Rightarrow> trial_row \<Rightarrow> context_row \<Rightarrow> bool" where
  "adopted_again b p fp frozen t c \<longleftrightarrow> distinct (map ps_id (bk_positions b)) \<and> open_token_unique b
     \<and> p \<in> set (bk_positions b) \<and> open_status (ps_status p) \<and> adoptable_rows frozen b = [(t, c)]
     \<and> clean_address (Some (tl_token t)) = ps_token p \<and> ps_token p \<noteq> []
     \<and> (\<exists>l\<in>set (bk_lots b). lt_position_id l = ps_id p \<and> lt_evidence_fingerprint l = fp (adopted_evidence t c))"

lemma adopting_position_simps [simp]:
  "ps_id (adopting_position e now t c p) = ps_id p" "ps_token (adopting_position e now t c p) = ps_token p"
  "ps_status (adopting_position e now t c p) = Scaling"
  "ps_remaining_token_raw (adopting_position e now t c p) = max 0 (ps_remaining_token_raw p) + max 0 (tl_entry_token_raw t)"
  "ps_remaining_fraction (adopting_position e now t c p) = max 0 (ps_remaining_fraction p) + max 0 (tl_position_fraction t)"
  by (simp_all add: adopting_position_def Let_def)

lemma adopted_lot_simps [simp]:
  "lt_position_id (adopted_lot e i stage t b) = i" "lt_evidence_fingerprint (adopted_lot e i stage t b) = e"
  by (simp_all add: adopted_lot_def)

lemma insert_lot_refused:
  "r \<in> set (bk_lots b) \<Longrightarrow> lt_position_id r = lt_position_id l \<Longrightarrow>
     lt_evidence_fingerprint r = lt_evidence_fingerprint l \<Longrightarrow> \<exists>e. insert_lot l b = Inl e"
  by (auto simp: insert_lot_def)

lemma restart_adopts_again:
  assumes "adopted_again b p fp frozen t c"
    and "b' = snd (bootstrap_existing_open_trials pol fp (Some frozen) now (new_process b))"
    and "s = adopting_position (fp (adopted_evidence t c)) now t c p"
  shows "adopted_again b' s fp frozen t c \<and> bk_lots b' = bk_lots b"
proof -
  let ?e = "fp (adopted_evidence t c)"
  note a = assms(1) [unfolded adopted_again_def]
  have np: "bk_positions (new_process b) = bk_positions b" "bk_lots (new_process b) = bk_lots b"
      "bk_trials (new_process b) = bk_trials b" "bk_contexts (new_process b) = bk_contexts b"
      "bk_outcomes (new_process b) = bk_outcomes b" "\<not> bk_bootstrap_done (new_process b)"
    by (simp_all add: new_process_def)
  have row: "open_row (ps_token p) (new_process b) = Some p"
    using a np by (intro open_row_of) (simp_all add: open_token_unique_def)
  define b1 where "b1 = update_position (ps_id p) (adopting_position ?e now t c) (new_process b)"
  obtain l where l: "l \<in> set (bk_lots b)" "lt_position_id l = ps_id p" "lt_evidence_fingerprint l = ?e"
    using a by blast
  have "bk_lots b1 = bk_lots b" by (simp add: b1_def np)
  with l have "\<exists>er. insert_lot (adopted_lot ?e (ps_id p) Add t b1) b1 = Inl er"
    by (intro insert_lot_refused [of l]) simp_all
  then obtain er where refused: "insert_lot (adopted_lot ?e (ps_id p) Add t b1) b1 = Inl er" ..
  have rows: "adoptable_rows frozen (new_process b) = [(t, c)]" unfolding adoptable_rows_same [OF np(3, 4, 5, 2)] using a by simp
  have "adopt_trial pol fp now (t, c) (new_process b) = Inr b1"
  proof -
    have "clean_address (Some (tl_token t)) = ps_token p" "ps_token p \<noteq> []" using a by simp_all
    then show ?thesis
      by (simp only: adopt_trial_def Let_def split_conv row option.case if_False b1_def [symmetric] refused sum.case)
  qed
  then have b': "b' = b1\<lparr>bk_bootstrap_done := True\<rparr>"
    unfolding assms(2) bootstrap_existing_open_trials_def using rows np(6) by simp
  have "s \<in> set (bk_positions b')" using a np by (auto simp: b' b1_def assms(3))
  moreover have "adoptable_rows frozen b' = [(t, c)]"
    using a np by (subst adoptable_rows_same [of _ b]) (simp_all add: b' b1_def)
  moreover have "map ps_id (bk_positions b') = map ps_id (bk_positions b)" by (simp add: b' b1_def np)
  moreover have "open_token_unique b'"
  proof -
    have "map ps_token (filter (\<lambda>p. open_status (ps_status p)) (bk_positions b'))
        = map ps_token (filter (\<lambda>p. open_status (ps_status p)) (bk_positions b))"
      unfolding b' b1_def using a np
      by (simp, intro open_tokens_mapped) (auto simp: distinct_map inj_on_def)
    then show ?thesis using a by (simp add: open_token_unique_def)
  qed
  ultimately show ?thesis using a np by (simp add: adopted_again_def assms(3)) (simp add: b' b1_def np)
qed

text \<open>A trial whose lot is refused is adopted again at every restart. If the evidence of an
  unsettled trial is already in its token's open position, no lot is stored for it, yet its raw tokens
  and its fraction are added to the position; since it still has no lot, each of \<open>k\<close> restarts adds them once more,
  and the position no longer agrees with its lots.\<close>

theorem bootstrap_recounts_refused_trial:
  assumes "adopted_again b p fp frozen t c" and "0 \<le> ps_remaining_token_raw p" and "0 \<le> tl_entry_token_raw t"
    and "0 \<le> ps_remaining_fraction p" and "0 \<le> tl_position_fraction t"
    and "b' = ((\<lambda>b. snd (bootstrap_existing_open_trials pol fp (Some frozen) now (new_process b))) ^^ k) b"
  shows "bk_lots b' = bk_lots b
    \<and> (\<exists>s\<in>set (bk_positions b'). ps_id s = ps_id p \<and> open_status (ps_status s)
        \<and> ps_remaining_token_raw s = ps_remaining_token_raw p + int k * tl_entry_token_raw t
        \<and> ps_remaining_fraction s = ps_remaining_fraction p + real k * tl_position_fraction t)"
  using assms
proof (induction k arbitrary: b p)
  case 0
  then show ?case by (auto simp: adopted_again_def)
next
  case (Suc k)
  let ?restart = "\<lambda>b. snd (bootstrap_existing_open_trials pol fp (Some frozen) now (new_process b))"
  define s where "s = adopting_position (fp (adopted_evidence t c)) now t c p"
  note one = restart_adopts_again [OF Suc.prems(1) refl s_def, of pol]
  have "b' = (?restart ^^ k) (?restart b)" using Suc.prems(6) by (simp only: funpow_Suc_right comp_apply)
  then have "bk_lots b' = bk_lots (?restart b) \<and> (\<exists>r\<in>set (bk_positions b'). ps_id r = ps_id s \<and> open_status (ps_status r)
        \<and> ps_remaining_token_raw r = ps_remaining_token_raw s + int k * tl_entry_token_raw t
        \<and> ps_remaining_fraction r = ps_remaining_fraction s + real k * tl_position_fraction t)"
    using one Suc.prems(2-5) by (intro Suc.IH) (simp_all add: s_def)
  with one Suc.prems(2-5) show ?case by (auto simp: s_def algebra_simps)
qed


subsection \<open>A lane with one token\<close>

definition TOKEN :: string where
  "TOKEN = ''0x'' @ replicate 40 (CHR ''a'')"

definition POOL :: string where
  "POOL = ''0x'' @ replicate 40 (CHR ''b'')"

lemma demo_addresses [simp]:
  "clean_address (Some TOKEN) = TOKEN" "clean_address (Some POOL) = POOL" "TOKEN \<noteq> []" "POOL \<noteq> []"
  by (simp_all add: clean_address_def lower_def lower_char_def TOKEN_def POOL_def)

definition demo_policy :: position_policy where
  "demo_policy = \<lparr>pp_starter_fraction_of_target = 1 / 4, pp_max_scale_fraction_of_target_per_add = 1 / 4,
     pp_first_derisk_fraction_of_position = 1 / 2, pp_second_derisk_fraction_of_position = 1 / 2,
     pp_runner_fraction_of_target = 1 / 10\<rparr>"

definition demo_candidate :: "string \<Rightarrow> candidate_kwargs" where
  "demo_candidate entity = \<lparr>kw_entity = Some entity, kw_role = None, kw_venue = None, kw_lifecycle = None,
     kw_regime = None, kw_risk_signature = None, kw_risk_severity = None, kw_flow_state = None, kw_lanes = []\<rparr>"

definition demo_choice :: base_choice where
  "demo_choice = \<lparr>bc_lane = Some ''L'', bc_fraction = 1 / 100, bc_target = Some (4 / 100)\<rparr>"

definition demo_entry :: "int \<Rightarrow> string \<Rightarrow> entry_payload" where
  "demo_entry raw entity = \<lparr>en_token = TOKEN, en_market = POOL, en_venue = ''V'', en_lifecycle = ''unknown'',
     en_trigger_actor = entity, en_trigger_entity = entity, en_flow_state = ''neutral'', en_fraction = 1 / 100,
     en_quote = \<lparr>lq_amount_in_wei = 10, lq_token_out = raw, lq_entry_gas_wei = 1, lq_entry_total_cost_wei = 11,
       lq_entry_price_eth = 1, lq_round_trip_cost_fraction = 0\<rparr>, en_lane = ''L'', en_role = ''unknown'',
     en_regime = ''unknown'', en_risk_signature = ''clean'', en_risk_severity = 0, en_lifecycle_progress = None,
     en_threshold_challenger = False, en_candidate_lanes = []\<rparr>"

definition demo_quote :: "int \<Rightarrow> exit_quote" where
  "demo_quote raw = \<lparr>xq_gross_out_wei = raw, xq_exit_gas_wei = 0, xq_net_out_wei = raw\<rparr>"

definition demo_sell :: quote_answers where
  "demo_sell token market venue raw = Inr (Some (demo_quote raw))"

abbreviation pick :: "string \<Rightarrow> book_event" where
  "pick entity \<equiv> BChoose demo_policy ep_entity 0 TOKEN POOL (demo_candidate entity) demo_choice"

abbreviation enter :: "int \<Rightarrow> string \<Rightarrow> book_event" where
  "enter raw entity \<equiv> BEntry demo_sell 1 1 [demo_entry raw entity]"

definition demo_pending :: "entry_stage \<Rightarrow> string \<Rightarrow> string \<Rightarrow> pending_entry" where
  "demo_pending stage entity reason = \<lparr>pd_token = TOKEN, pd_market = POOL, pd_lane = ''L'', pd_stage = stage,
     pd_target_fraction = 4 / 100, pd_evidence_fingerprint = entity,
     pd_evidence = evidence_of (demo_candidate entity) ''L'', pd_reason = reason\<rparr>"

lemma demo_chosen: "lane_run ''r'' 100 [pick ''A''] =
   (new_book ''r'' 100)\<lparr>bk_pending := [(TOKEN, demo_pending Starter ''A'' ''v52_fractional_starter'')]\<rparr>"
  by (simp add: lane_run_def choose_with_lifecycle_def Let_def demo_choice_def or_text_def lifecycle_choice_def
      open_position_def last_closed_position_def open_row_def newest_def new_book_def choice_target_def
      demo_pending_def evidence_of_def demo_candidate_def)

lemma demo_exitable: "0 < raw \<Longrightarrow> exitable (demo_sell t m v raw)" "0 < raw \<Longrightarrow> exitable (demo_sell t m v (stress_raw_of raw))"
  by (simp_all add: exitable_def demo_sell_def demo_quote_def stress_raw_of_def)


lemma run_machine_snoc: "fst (run_machine step s (es @ [e])) = fst (step (fst (run_machine step s es)) e)"
  by (induction es arbitrary: s) (simp_all add: Let_def split_beta)

lemma lane_run_snoc: "lane_run release nav (es @ [e]) = fst (book_step (lane_run release nav es) e)"
  by (simp add: lane_run_def run_machine_snoc)

text \<open>The rows of the first entry, and of the add that follows it.\<close>

abbreviation demo_starter :: pending_entry where
  "demo_starter \<equiv> demo_pending Starter ''A'' ''v52_fractional_starter''"

abbreviation demo_add :: pending_entry where
  "demo_add \<equiv> demo_pending Scale ''B'' ''v52_scale_new_forward_strength''"

definition demo_position :: "int \<Rightarrow> position_row" where
  "demo_position raw = new_position (demo_entry raw ''A'') demo_starter 1 (new_book ''r'' 100)"

definition demo_lot :: "int \<Rightarrow> lot_row" where
  "demo_lot raw = new_lot (demo_entry raw ''A'') demo_starter 1 1 1 (new_book ''r'' 100)"

definition demo_opened :: "int \<Rightarrow> book" where
  "demo_opened raw = (new_book ''r'' 100)\<lparr>bk_trials := [new_trial (demo_entry raw ''A'') Starter 1 (new_book ''r'' 100)],
     bk_contexts := [new_context (demo_entry raw ''A'') 1 1], bk_positions := [demo_position raw],
     bk_lots := [demo_lot raw],
     bk_events := [entry_event (demo_entry raw ''A'') demo_starter 1 1 ''pre_actionable'' ''entered'' 1 (new_book ''r'' 100)]\<rparr>"

lemmas demo_entry_defs = maybe_open_with_lifecycle_def validate_and_commit_def Let_def demo_entry_def dict_get_def
  demo_pending_def ends_with_def demo_exitable aggregate_of_def legacy_untracked_open_def open_position_def
  open_row_def newest_def new_book_def persist_lot_def write_lot_def new_trial_def insert_context_def
  bind_result_def new_context_def new_position_def insert_position_def next_id_def next_generation_def
  insert_lot_def new_lot_def insert_event_def entry_event_def or_text_def drop_pending_def context_key_of_def

lemma demo_opened_run:
  assumes "0 < raw"
  shows "lane_run ''r'' 100 [pick ''A'', enter raw ''A''] = demo_opened raw"
proof -
  have "lane_run ''r'' 100 ([pick ''A''] @ [enter raw ''A'']) = fst (book_step (lane_run ''r'' 100 [pick ''A'']) (enter raw ''A''))"
    by (rule lane_run_snoc)
  then show ?thesis
    using assms unfolding demo_chosen
    by (simp add: demo_opened_def demo_position_def demo_lot_def) (simp add: demo_entry_defs)
qed

definition demo_ready :: "int \<Rightarrow> book" where
  "demo_ready raw = (demo_opened raw)\<lparr>bk_pending := [(TOKEN, demo_add)]\<rparr>"

lemma demo_ready_run:
  assumes "0 < raw"
  shows "lane_run ''r'' 100 [pick ''A'', enter raw ''A'', pick ''B''] = demo_ready raw"
proof -
  have "lane_run ''r'' 100 ([pick ''A'', enter raw ''A''] @ [pick ''B''])
      = fst (book_step (lane_run ''r'' 100 [pick ''A'', enter raw ''A'']) (pick ''B''))"
    by (rule lane_run_snoc)
  then show ?thesis
    unfolding demo_opened_run [OF assms] demo_ready_def
    by (simp add: choose_with_lifecycle_def Let_def demo_choice_def or_text_def lifecycle_choice_def scale_choice_def
        open_position_def open_row_def newest_def new_book_def choice_target_def strengthened_def demo_policy_def
        demo_pending_def evidence_of_def demo_candidate_def demo_opened_def demo_position_def new_position_def
        open_status_def demo_entry_def)
qed

definition demo_add_lot :: "int \<Rightarrow> lot_row" where
  "demo_add_lot raw = new_lot (demo_entry 5 ''B'') demo_add 1 2 1 (demo_opened raw)"

definition demo_added :: "int \<Rightarrow> book" where
  "demo_added raw = (demo_opened raw)\<lparr>
     bk_trials := bk_trials (demo_opened raw) @ [new_trial (demo_entry 5 ''B'') Scale 1 (demo_opened raw)],
     bk_contexts := bk_contexts (demo_opened raw) @ [new_context (demo_entry 5 ''B'') 2 1],
     bk_positions := [scaled_position (demo_entry 5 ''B'') demo_add 1 (demo_position raw)],
     bk_lots := [demo_lot raw, demo_add_lot raw],
     bk_events := bk_events (demo_opened raw)
       @ [entry_event (demo_entry 5 ''B'') demo_add 1 2 ''entered'' ''scaling'' 1 (demo_opened raw)]\<rparr>"

lemma demo_add_commits:
  assumes "0 < raw"
  shows "validate_and_commit demo_sell 1 1 (demo_entry 5 ''B'') (demo_ready raw) = (Inr True, demo_added raw)"
  using assms
  by (simp add: demo_added_def demo_add_lot_def demo_ready_def demo_opened_def demo_position_def demo_lot_def)
    (simp add: demo_entry_defs open_status_def update_position_def scaled_position_def)

lemma demo_added_run:
  assumes "0 < raw"
  shows "lane_run ''r'' 100 [pick ''A'', enter raw ''A'', pick ''B'', enter 5 ''B''] = demo_added raw"
proof -
  have "lane_run ''r'' 100 ([pick ''A'', enter raw ''A'', pick ''B''] @ [enter 5 ''B''])
      = fst (book_step (lane_run ''r'' 100 [pick ''A'', enter raw ''A'', pick ''B'']) (enter 5 ''B''))"
    by (rule lane_run_snoc)
  then show ?thesis
    unfolding demo_ready_run [OF assms] by (simp add: maybe_open_with_lifecycle_def demo_add_commits [OF assms])
qed

lemma demo_books_ok:
  assumes "0 < raw"
  shows "book_ok (demo_opened raw)" "book_ok (demo_ready raw)" "book_ok (demo_added raw)"
  using lane_run_ok [of "''r''" 100] demo_opened_run [OF assms] demo_ready_run [OF assms] demo_added_run [OF assms]
  by metis+

lemma demo_position_simps [simp]:
  "ps_id (demo_position raw) = 1" "ps_token (demo_position raw) = TOKEN" "ps_status (demo_position raw) = Entered"
  "ps_remaining_token_raw (demo_position raw) = raw" "ps_remaining_fraction (demo_position raw) = 1 / 100"
  by (simp_all add: demo_position_def new_position_def new_book_def next_id_def demo_entry_def Let_def)

lemma demo_lot_simps [simp]:
  "lt_position_id (demo_lot raw) = 1" "lt_trial_id (demo_lot raw) = 1" "lt_id (demo_lot raw) = 1"
  "lt_remaining_token_raw (demo_lot raw) = raw" "lt_remaining_fraction (demo_lot raw) = 1 / 100"
  "lt_realized_exit_net_wei (demo_lot raw) = 0"
  by (simp_all add: demo_lot_def new_lot_def new_book_def next_id_def demo_entry_def)

definition demo_order :: "int \<Rightarrow> exit_order" where
  "demo_order raw = \<lparr>xo_sell_raw = raw, xo_event_type = ''full_exit'', xo_next_status = Closed, xo_next_stage = 0,
     xo_reason = ''stop'', xo_flow_state = ''neutral''\<rparr>"

subsection \<open>Witnesses\<close>




lemma demo_add_lot_simps [simp]:
  "lt_position_id (demo_add_lot raw) = 1" "lt_trial_id (demo_add_lot raw) = 2" "lt_id (demo_add_lot raw) = 2"
  "lt_remaining_token_raw (demo_add_lot raw) = 5" "lt_remaining_fraction (demo_add_lot raw) = 1 / 100"
  by (simp_all add: demo_add_lot_def new_lot_def demo_opened_def next_id_def demo_entry_def)

lemma demo_open_lots:
  "open_lots (demo_opened raw) 1 = [demo_lot raw]" "open_lots (demo_added raw) 1 = [demo_lot raw, demo_add_lot raw]"
proof -
  have "tl_id (new_trial (demo_entry raw ''A'') Starter 1 (new_book ''r'' 100)) = 1"
      "tl_id (new_trial (demo_entry 5 ''B'') Scale 1 (demo_opened raw)) = 2"
    by (simp_all add: new_book_def next_id_def demo_opened_def)
  then show "open_lots (demo_opened raw) 1 = [demo_lot raw]" "open_lots (demo_added raw) 1 = [demo_lot raw, demo_add_lot raw]"
    by (simp_all add: open_lots_def demo_added_def) (simp_all add: demo_opened_def)
qed

lemma exit_changes:
  assumes "book_ok b" and "0 < xo_sell_raw x" and "xo_sell_raw x \<le> raw_total (open_lots b (ps_id p))"
    and "apply_exit_lots x q (open_lots b (ps_id p)) = (as, 0)" and "write_exit x q now p as b = (Inr (), b')"
  shows "apply_exit x q now p b = (Inr (), b') \<and> b' \<noteq> b"
proof -
  have "slices_of b (ps_id p) (xo_sell_raw x) as" using exit_slices [OF assms(1, 2, 4)] by simp
  then have "b' \<noteq> b" using over_lots_exit(1) [OF assms(1) _ assms(5)] assms(2) by auto
  then show ?thesis using assms(2-5) by (simp add: apply_exit_def Let_def)
qed

theorem exit_allocation_is_exact_witness:
  "\<exists>b'. apply_exit (demo_order 7) (demo_quote 7) 2 (demo_position 7) (demo_opened 7) = (Inr (), b')
    \<and> over_lots (\<lambda>l. real_of_int (lt_remaining_token_raw l)) 1 (bk_lots b') = 0
    \<and> over_lots (\<lambda>l. real_of_int (lt_realized_exit_net_wei l)) 1 (bk_lots b') = 7"
proof -
  have x: "xo_sell_raw (demo_order 7) = 7" by (simp add: demo_order_def)
  obtain a where a: "apply_exit_lots (demo_order 7) (demo_quote 7) [demo_lot 7] = ([a], 0)"
    by (simp add: apply_exit_lots_def allocate_lots.simps wanted_raw_def demo_order_def demo_quote_def)
  obtain b' where "write_exit (demo_order 7) (demo_quote 7) 2 (demo_position 7) [a] (demo_opened 7) = (Inr (), b')"
    by (rule write_exit_closes [OF book_okD(6) [OF demo_books_ok(1) [of 7]], of "demo_order 7" "demo_position 7"])
      (simp_all add: x)
  with a x have b': "apply_exit (demo_order 7) (demo_quote 7) 2 (demo_position 7) (demo_opened 7) = (Inr (), b') \<and> b' \<noteq> demo_opened 7"
    by (intro exit_changes) (simp_all add: demo_books_ok demo_open_lots [simplified])
  have lots: "bk_lots (demo_opened 7) = [demo_lot 7]" by (simp add: demo_opened_def)
  show ?thesis
    using exit_allocation_is_exact [OF demo_books_ok(1) _ conjunct1 [OF b'] conjunct2 [OF b']] b' x
    by (auto simp: lots demo_quote_def)
qed

text \<open>A first lot of \<open>2 ^ 53 + 1\<close> raw tokens, which is not unusual for a token with 18 decimals.\<close>

theorem full_exit_needs_exact_doubles_witness:
  "apply_exit (demo_order (2 ^ 53 + 6)) (demo_quote 7) 2 (hd (bk_positions (demo_added (2 ^ 53 + 1)))) (demo_added (2 ^ 53 + 1))
    = (Inr (), demo_added (2 ^ 53 + 1))"
proof -
  let ?b = "demo_added (2 ^ 53 + 1)"
  define p where "p = hd (bk_positions ?b)"
  have p: "p \<in> set (bk_positions ?b)" "open_status (ps_status p)" "ps_id p = 1"
      "xo_sell_raw (demo_order (2 ^ 53 + 6)) = ps_remaining_token_raw p"
    by (simp_all add: p_def demo_added_def) (simp_all add: scaled_position_def demo_entry_def open_status_def Let_def demo_order_def)
  have "\<not> held_by_double (demo_lot (2 ^ 53 + 1))"
    unfolding held_by_double_def demo_lot_simps double_unrepresentable by simp
  then have "\<not> list_all held_by_double (butlast (open_lots ?b (ps_id p)))"
    unfolding p(3) demo_open_lots by simp
  then show ?thesis
    using full_exit_needs_exact_doubles [OF demo_books_ok(3) p(1, 2, 4)] unfolding p_def [symmetric] by simp
qed

theorem stale_exit_strands_added_tokens_witness:
  "\<exists>b. apply_exit (demo_order 20) (demo_quote 20) 2 (demo_position 20) (demo_added 20) = (Inr (), b)
    \<and> over_lots (\<lambda>l. real_of_int (lt_remaining_token_raw l)) 1 (bk_lots b) = 5
    \<and> open_row TOKEN b = None"
proof -
  have x: "xo_sell_raw (demo_order 20) = ps_remaining_token_raw (demo_position 20)" by (simp add: demo_order_def)
  have shares: "true_division 400 25 = 16"
    using true_division_scaled [of 25 16] double_small_int [of 16] by simp
  obtain as where as: "apply_exit_lots (demo_order 20) (demo_quote 20) [demo_lot 20, demo_add_lot 20] = (as, 0)"
    by (simp add: apply_exit_lots_def allocate_lots.simps wanted_raw_def demo_order_def demo_quote_def shares Let_def raw_total_def)
  obtain b where "write_exit (demo_order 20) (demo_quote 20) 2 (demo_position 20) as (demo_added 20) = (Inr (), b)"
    by (rule write_exit_closes [OF book_okD(6) [OF demo_books_ok(3) [of 20]] x]) simp_all
  with as x have b: "apply_exit (demo_order 20) (demo_quote 20) 2 (demo_position 20) (demo_added 20) = (Inr (), b) \<and> b \<noteq> demo_added 20"
    by (intro exit_changes) (simp_all add: demo_books_ok demo_open_lots [simplified])
  have p: "demo_position 20 \<in> set (bk_positions (demo_ready 20))" "open_status (ps_status (demo_position 20))"
      "clean_address (Some (en_token (demo_entry 5 ''B''))) = ps_token (demo_position 20)"
      "lq_token_out (en_quote (demo_entry 5 ''B'')) = 5"
    by (simp_all add: demo_ready_def demo_opened_def open_status_def demo_entry_def)
  show ?thesis
    using stale_exit_strands_added_tokens [OF demo_books_ok(2) p(1, 2) demo_add_commits p(3) x conjunct1 [OF b] conjunct2 [OF b]] b p(4)
    by auto
qed

definition demo_twin :: book where
  "demo_twin = (demo_opened 7)\<lparr>
     bk_trials := bk_trials (demo_opened 7) @ [new_trial (demo_entry 5 ''A'') Starter 1 (demo_opened 7)],
     bk_contexts := bk_contexts (demo_opened 7) @ [new_context (demo_entry 5 ''A'') 2 1]\<rparr>"

theorem bootstrap_recounts_refused_trial_witness:
  "\<exists>p\<in>set (bk_positions (((\<lambda>b. snd (bootstrap_existing_open_trials demo_policy (\<lambda>e. ''A'') (Some (\<lambda>r. True)) 9
       (new_process b))) ^^ 3) demo_twin)). ps_remaining_token_raw p = 22"
proof -
  have raw: "tl_entry_token_raw (new_trial (demo_entry 5 ''A'') Starter 1 (demo_opened 7)) = 5"
      "tl_position_fraction (new_trial (demo_entry 5 ''A'') Starter 1 (demo_opened 7)) = 1 / 100"
    by (simp_all add: new_trial_def demo_entry_def)
  have twin: "adopted_again demo_twin (demo_position 7) (\<lambda>e. ''A'') (\<lambda>r. True)
      (new_trial (demo_entry 5 ''A'') Starter 1 (demo_opened 7)) (new_context (demo_entry 5 ''A'') 2 1)"
    unfolding adopted_again_def
  proof (intro conjI)
    show "adoptable_rows (\<lambda>r. True) demo_twin
        = [(new_trial (demo_entry 5 ''A'') Starter 1 (demo_opened 7), new_context (demo_entry 5 ''A'') 2 1)]"
      by (simp add: adoptable_rows_def demo_twin_def settled_trial_def tracked_trial_def)
        (simp add: demo_opened_def new_book_def next_id_def new_context_def map_filter_def)
    show "clean_address (Some (tl_token (new_trial (demo_entry 5 ''A'') Starter 1 (demo_opened 7)))) = ps_token (demo_position 7)"
      by (simp add: new_trial_def demo_entry_def)
    have "lt_evidence_fingerprint (demo_lot 7) = ''A''" by (simp add: demo_lot_def new_lot_def demo_pending_def)
    then show "\<exists>l\<in>set (bk_lots demo_twin). lt_position_id l = ps_id (demo_position 7) \<and> lt_evidence_fingerprint l = ''A''"
      by (simp add: demo_twin_def demo_opened_def)
  qed (simp_all add: demo_twin_def demo_opened_def open_token_unique_def open_status_def)
  show ?thesis
    using bootstrap_recounts_refused_trial [OF twin _ _ _ _ refl, of 3 demo_policy 9] by (auto simp: raw)
qed

end
