(* ===== verification/SharedCapital.thy ===== *)
theory SharedCapital
  imports PositionBooks Capital
begin

text \<open>
  The shared paper capital of the Robinhood lane (\<open>v52_robinhood_shared_capital_repair.py\<close>): an
  entry reserves its fraction in the store of \<open>Capital\<close> before the position lifecycle
  commits it, and each exit turns what it released into a settlement of the reservation and a
  residual reservation for the rest. All tables are in one SQLite file; a transaction is one
  step and a rollback leaves the old tables. Between the reads and the transaction of a
  settlement the code does not wait.
\<close>

definition DEFAULT_CAPACITY_FRACTION :: real where
  "DEFAULT_CAPACITY_FRACTION = 1"

record lineage_row =
  ln_trial_id :: nat
  ln_release_commit :: string
  ln_original_reservation_id :: string
  ln_current_reservation_id :: string
  ln_original_fraction :: real
  ln_accounted_remaining_fraction :: real
  ln_accounted_realized_exit_net_wei :: int
  ln_accounted_sold_cost_wei :: int
  ln_settlement_sequence :: nat
  ln_updated_at :: datetime

record shared =
  sh_book :: book
  sh_capital :: capital_store
  sh_lineage :: "lineage_row list"

subsection \<open>Entries\<close>

definition entry_reservation_id :: "string \<Rightarrow> entry_payload \<Rightarrow> string \<Rightarrow> string result" where
  "entry_reservation_id release n evidence =
     (let token = clean_address (Some (en_token n)); market = clean_address (Some (en_market n)) in
      if token = [] \<or> market = [] \<or> release = [] \<or> evidence = []
        then Inl (ValueError ''v52_robinhood_shared_capital_identity_incomplete'')
      else Inr (''robinhood-v52:'' @ token @ '':'' @ market @ '':'' @ evidence))"

text \<open>The newest lot with this evidence, joined with its trial.\<close>

definition matching_lot :: "book \<Rightarrow> entry_payload \<Rightarrow> string \<Rightarrow> (lot_row \<times> trial_row) option" where
  "matching_lot b n evidence =
     newest (\<lambda>(l, t). lt_id l) (List.map_filter
       (\<lambda>l. map_option (\<lambda>t. (l, t)) (find (\<lambda>t. tl_id t = lt_trial_id l \<and> tl_release_commit t = bk_release_commit b
          \<and> tl_token t = clean_address (Some (en_token n)) \<and> tl_market t = clean_address (Some (en_market n))) (bk_trials b)))
       (filter (\<lambda>l. lt_evidence_fingerprint l = evidence) (bk_lots b)))"

definition lineage_of :: "shared \<Rightarrow> nat \<Rightarrow> lineage_row option" where
  "lineage_of st trial = find (\<lambda>n. ln_trial_id n = trial) (sh_lineage st)"

definition reservation_of :: "capital_store \<Rightarrow> string \<Rightarrow> string \<Rightarrow> reservation_row option" where
  "reservation_of s release rid =
     find (\<lambda>r. rr_release_commit r = release \<and> rr_reservation_id r = rid) (cs_reservations s)"

text \<open>The reservation of a trial, in its lots and in its row; no two trials of a release may have
  the same (\<open>ux_robinhood_trial_capital_reservation\<close>).\<close>

definition set_reservation :: "nat \<Rightarrow> string \<Rightarrow> book \<Rightarrow> book" where
  "set_reservation trial rid b =
     b\<lparr>bk_lots := map (\<lambda>l. if lt_trial_id l = trial then l\<lparr>lt_capital_reservation_id := Some rid\<rparr> else l) (bk_lots b),
       bk_trials := map (\<lambda>t. if tl_id t = trial then t\<lparr>tl_capital_reservation_id := Some rid\<rparr> else t) (bk_trials b)\<rparr>"

definition trial_reservations_unique :: "book \<Rightarrow> bool" where
  "trial_reservations_unique b \<longleftrightarrow> distinct (map (\<lambda>t. (tl_release_commit t, tl_capital_reservation_id t))
     (filter (\<lambda>t. tl_capital_reservation_id t \<noteq> None) (bk_trials b)))"

definition new_lineage :: "datetime \<Rightarrow> lot_row \<Rightarrow> string \<Rightarrow> string \<Rightarrow> lineage_row" where
  "new_lineage now l release rid =
     \<lparr>ln_trial_id = lt_trial_id l, ln_release_commit = release, ln_original_reservation_id = rid,
      ln_current_reservation_id = rid, ln_original_fraction = max 0 (lt_entry_fraction l),
      ln_accounted_remaining_fraction = max 0 (lt_remaining_fraction l),
      ln_accounted_realized_exit_net_wei = max 0 (lt_realized_exit_net_wei l),
      ln_accounted_sold_cost_wei =
        max 0 (max 0 (lt_entry_total_cost_wei l) - max 0 (lt_remaining_entry_cost_wei l)),
      ln_settlement_sequence = 0, ln_updated_at = now\<rparr>"

text \<open>\<open>INSERT ... ON CONFLICT(trial_id) DO UPDATE\<close>.\<close>

definition upsert_lineage :: "lineage_row \<Rightarrow> lineage_row list \<Rightarrow> lineage_row list" where
  "upsert_lineage n rows =
     (if ln_trial_id n \<in> ln_trial_id ` set rows
      then map (\<lambda>r. if ln_trial_id r = ln_trial_id n
             then r\<lparr>ln_current_reservation_id := ln_current_reservation_id n, ln_updated_at := ln_updated_at n\<rparr> else r) rows
      else rows @ [n])"

definition link_reservation ::
  "datetime \<Rightarrow> lot_row \<times> trial_row \<Rightarrow> string \<Rightarrow> shared \<Rightarrow> unit result \<times> shared" where
  "link_reservation now lt rid st =
     (let (l, t) = lt; release = tl_release_commit t in
      case reservation_of (sh_capital st) release rid of
        None \<Rightarrow> (Inl (RuntimeError ''v52_robinhood_shared_capital_reservation_not_active''), st)
      | Some r \<Rightarrow>
          if rr_status r \<noteq> Active
            then (Inl (RuntimeError ''v52_robinhood_shared_capital_reservation_not_active''), st)
          else if rr_reserved_fraction r + 1 / 10 ^ 12 < max 0 (lt_remaining_fraction l)
            then (Inl (RuntimeError ''v52_robinhood_shared_capital_reservation_too_small''), st)
          else (let b = set_reservation (lt_trial_id l) rid (sh_book st) in
            if \<not> trial_reservations_unique b
              then (Inl (IntegrityError ''UNIQUE(release_commit,capital_reservation_id)''), st)
            else (Inr (), st\<lparr>sh_book := b,
                   sh_lineage := upsert_lineage (new_lineage now l release rid) (sh_lineage st)\<rparr>)))"

definition recover_entry_link ::
  "datetime \<Rightarrow> entry_payload \<Rightarrow> string \<Rightarrow> string \<Rightarrow> shared \<Rightarrow> bool result \<times> shared" where
  "recover_entry_link now n evidence rid st =
     (case matching_lot (sh_book st) n evidence of
        None \<Rightarrow> (Inr False, st)
      | Some (l, t) \<Rightarrow>
          (let existing = or_text (lt_capital_reservation_id l) (or_text (tl_capital_reservation_id t) []) in
           if existing \<noteq> [] \<and> existing \<noteq> rid
             then (Inl (RuntimeError ''v52_robinhood_shared_capital_conflicting_reservation''), st)
           else if lineage_of st (lt_trial_id l) = None \<or> existing = []
             then (case link_reservation now (l, t) rid st of
                     (Inl e, st') \<Rightarrow> (Inl e, st')
                   | (Inr _, st') \<Rightarrow> (Inr True, st'))
           else (Inr True, st)))"

definition cancel_unlinked_reservation :: "call_context \<Rightarrow> string \<Rightarrow> shared \<Rightarrow> bool result \<times> shared" where
  "cancel_unlinked_reservation c rid st =
     (let (r, s) = cancel_paper_capital c (bk_release_commit (sh_book st)) rid
            ''v52_robinhood_entry_not_persisted'' (sh_capital st)
      in (r, st\<lparr>sh_capital := s\<rparr>))"

text \<open>\<open>_validate_with_shared_capital\<close>. \<open>c\<close> and \<open>c'\<close> are the surroundings of the call that reserves and of
  the one that cancels; an error of the cancellation takes the place of the first one.\<close>

definition reserve_entry :: "call_context \<Rightarrow> string \<Rightarrow> string \<Rightarrow> real \<Rightarrow> shared \<Rightarrow> reserve_reply result \<times> shared" where
  "reserve_entry c rid evidence fraction st =
     (let (r, s) = reserve_paper_capital c (bk_release_commit (sh_book st)) rid ''robinhood'' evidence
            (Number fraction) (Number DEFAULT_CAPACITY_FRACTION) False (Number fraction) (sh_capital st)
      in (r, st\<lparr>sh_capital := s\<rparr>))"

definition commit_entry ::
  "call_context \<Rightarrow> quote_answers \<Rightarrow> real \<Rightarrow> datetime \<Rightarrow> entry_payload \<Rightarrow> string \<Rightarrow> string \<Rightarrow> shared
     \<Rightarrow> bool result \<times> shared" where
  "commit_entry c' quote latency now n evidence rid st =
     (case validate_and_commit quote latency now n (sh_book st) of
        (Inl e, b) \<Rightarrow>
          (case cancel_unlinked_reservation c' rid (st\<lparr>sh_book := b\<rparr>) of
             (Inl e', st') \<Rightarrow> (Inl e', st') | (Inr _, st') \<Rightarrow> (Inl e, st'))
      | (Inr False, b) \<Rightarrow>
          (case cancel_unlinked_reservation c' rid (st\<lparr>sh_book := b\<rparr>) of
             (Inl e', st') \<Rightarrow> (Inl e', st') | (Inr _, st') \<Rightarrow> (Inr False, st'))
      | (Inr True, b) \<Rightarrow>
          (case recover_entry_link now n evidence rid (st\<lparr>sh_book := b\<rparr>) of
             (Inr False, st') \<Rightarrow>
               (Inl (RuntimeError ''v52_robinhood_committed_lot_not_recoverable_for_capital_link''), st')
           | r \<Rightarrow> r))"

definition validate_with_shared_capital ::
  "call_context \<Rightarrow> call_context \<Rightarrow> quote_answers \<Rightarrow> real \<Rightarrow> datetime \<Rightarrow> entry_payload \<Rightarrow> shared
     \<Rightarrow> bool result \<times> shared" where
  "validate_with_shared_capital c c' quote latency now n st =
     (let token = clean_address (Some (en_token n));
          evidence = (case dict_get (bk_pending (sh_book st)) token of
                        None \<Rightarrow> [] | Some pd \<Rightarrow> pd_evidence_fingerprint pd)
      in if evidence = [] then
           (let (r, b) = validate_and_commit quote latency now n (sh_book st) in (r, st\<lparr>sh_book := b\<rparr>))
         else case entry_reservation_id (bk_release_commit (sh_book st)) n evidence of
           Inl e \<Rightarrow> (Inl e, st)
         | Inr rid \<Rightarrow>
             (case recover_entry_link now n evidence rid st of
                (Inl e, st1) \<Rightarrow> (Inl e, st1)
              | (Inr True, st1) \<Rightarrow> (Inr True, st1)
              | (Inr False, st1) \<Rightarrow>
                  (let fraction = max 0 (en_fraction n) in
                   if fraction \<le> 0 then (Inr False, st1) else
                   case reserve_entry c rid evidence fraction st1 of
                     (Inl e, st2) \<Rightarrow> (Inl e, st2)
                   | (Inr reply, st2) \<Rightarrow>
                       if rr_status (rp_row reply) \<noteq> Active then (Inr False, st2)
                       else if rr_reserved_fraction (rp_row reply) + 1 / 10 ^ 12 < fraction then (Inr False, st2)
                       else commit_entry c' quote latency now n evidence rid st2)))"


subsection \<open>Exits\<close>

definition insert_reservation :: "reservation_row \<Rightarrow> capital_store \<Rightarrow> capital_store result" where
  "insert_reservation r s =
     (if \<exists>q\<in>set (cs_reservations s). rr_release_commit q = rr_release_commit r \<and> rr_reservation_id q = rr_reservation_id r
        then Inl (IntegrityError ''UNIQUE(release_commit,reservation_id)'')
      else Inr (s\<lparr>cs_reservations := cs_reservations s @ [r]\<rparr>))"

definition residual_id :: "nat \<Rightarrow> nat \<Rightarrow> string" where
  "residual_id trial sequence =
     ''robinhood-v52:trial:'' @ nat_text trial @ '':residual:'' @ nat_text sequence"

definition residual_reservation :: "datetime \<Rightarrow> string \<Rightarrow> nat \<Rightarrow> nat \<Rightarrow> real \<Rightarrow> capital_store \<Rightarrow> reservation_row" where
  "residual_reservation now release trial sequence fraction s =
     \<lparr>rr_id = Suc (length (cs_reservations s)), rr_release_commit = release,
      rr_reservation_id = residual_id trial sequence, rr_lane = ''robinhood'',
      rr_candidate_id = ''trial:'' @ nat_text trial @ '':residual:'' @ nat_text sequence,
      rr_requested_fraction = fraction, rr_reserved_fraction = fraction,
      rr_capacity_fraction = DEFAULT_CAPACITY_FRACTION, rr_status = Active,
      rr_reason = ''v52_robinhood_residual_position'', rr_net_return = None, rr_realized_contribution = None,
      rr_created_at = now, rr_updated_at = now, rr_paper_only = True, rr_live_money_authority = False,
      rr_portfolio_id = CANONICAL_PORTFOLIO_ID\<rparr>"

definition slice_settlement :: "datetime \<Rightarrow> string \<Rightarrow> nat \<Rightarrow> nat \<Rightarrow> string \<Rightarrow> real \<Rightarrow> real \<Rightarrow> capital_store \<Rightarrow> settlement_row" where
  "slice_settlement now release trial sequence rid net_return contribution s =
     \<lparr>sr_id = Suc (length (cs_settlements s)), sr_release_commit = release,
      sr_settlement_id = ''v52-robinhood-trial:'' @ nat_text trial @ '':slice:'' @ nat_text sequence,
      sr_reservation_id = rid, sr_net_return = net_return, sr_realized_contribution = contribution,
      sr_settled_at = now, sr_paper_only = True, sr_live_money_authority = False,
      sr_portfolio_id = CANONICAL_PORTFOLIO_ID\<rparr>"

text \<open>What a lot released since its lineage was last accounted.\<close>

record release_delta =
  rd_fraction :: real
  rd_remaining :: real
  rd_cost :: int
  rd_net :: int
  rd_sold_cost :: int
  rd_realized_net :: int

definition release_of :: "lot_row \<Rightarrow> lineage_row \<Rightarrow> release_delta" where
  "release_of l n =
     (let prior = max 0 (ln_accounted_remaining_fraction n); remaining = max 0 (lt_remaining_fraction l);
          sold_cost = max 0 (max 0 (lt_entry_total_cost_wei l) - max 0 (lt_remaining_entry_cost_wei l));
          net = max 0 (lt_realized_exit_net_wei l)
      in \<lparr>rd_fraction = max 0 (prior - remaining), rd_remaining = remaining,
          rd_cost = max 0 (sold_cost - max 0 (ln_accounted_sold_cost_wei n)),
          rd_net = max 0 (net - max 0 (ln_accounted_realized_exit_net_wei n)),
          rd_sold_cost = sold_cost, rd_realized_net = net\<rparr>)"

definition account :: "datetime \<Rightarrow> nat \<Rightarrow> string \<Rightarrow> nat \<Rightarrow> release_delta \<Rightarrow> lineage_row list \<Rightarrow> lineage_row list" where
  "account now trial rid sequence d rows = map (\<lambda>n. if ln_trial_id n = trial then
       n\<lparr>ln_current_reservation_id := rid, ln_accounted_remaining_fraction := rd_remaining d,
         ln_accounted_realized_exit_net_wei := rd_realized_net d, ln_accounted_sold_cost_wei := rd_sold_cost d,
         ln_settlement_sequence := sequence, ln_updated_at := now\<rparr> else n) rows"

text \<open>The transaction of \<open>_settle_lot_delta\<close>; \<open>r\<close> is the reservation that it releases.\<close>

definition settle_slice ::
  "datetime \<Rightarrow> nat \<Rightarrow> lineage_row \<Rightarrow> release_delta \<Rightarrow> reservation_row \<Rightarrow> shared \<Rightarrow> unit result \<times> shared" where
  "settle_slice now trial n d r st =
     (let release = ln_release_commit n; old = ln_current_reservation_id n; sequence = Suc (ln_settlement_sequence n);
          net_return = real_of_int (rd_net d) / real_of_int (max 1 (rd_cost d)) - 1;
          contribution = rd_fraction d * net_return;
          s = (sh_capital st)\<lparr>cs_reservations := map (\<lambda>q. if rr_release_commit q = release \<and> rr_reservation_id q = old
                then q\<lparr>rr_status := Settled, rr_reason := ''v52_robinhood_realized_slice'',
                  rr_net_return := Some net_return, rr_realized_contribution := Some contribution,
                  rr_updated_at := now\<rparr> else q) (cs_reservations (sh_capital st))\<rparr>
      in case insert_settlement (slice_settlement now release trial sequence old net_return contribution s) s of
           Inl e \<Rightarrow> (Inl e, st)
         | Inr s1 \<Rightarrow>
             if \<not> rd_remaining d > 1 / 10 ^ 12
               then (Inr (), st\<lparr>sh_capital := s1, sh_lineage := account now trial old sequence d (sh_lineage st)\<rparr>)
             else (case insert_reservation (residual_reservation now release trial sequence (rd_remaining d) s1) s1 of
                Inl e \<Rightarrow> (Inl e, st)
              | Inr s2 \<Rightarrow>
                  let b = set_reservation trial (residual_id trial sequence) (sh_book st) in
                  if \<not> trial_reservations_unique b
                    then (Inl (IntegrityError ''UNIQUE(release_commit,capital_reservation_id)''), st)
                  else (Inr (), st\<lparr>sh_book := b, sh_capital := s2,
                         sh_lineage := account now trial (residual_id trial sequence) sequence d (sh_lineage st)\<rparr>)))"

definition settle_lot_delta :: "datetime \<Rightarrow> lot_row \<Rightarrow> lineage_row \<Rightarrow> shared \<Rightarrow> unit result \<times> shared" where
  "settle_lot_delta now l n st =
     (let prior = max 0 (ln_accounted_remaining_fraction n); d = release_of l n in
      if rd_remaining d > prior + 1 / 10 ^ 12
        then (Inl (RuntimeError ''v52_robinhood_capital_remaining_fraction_increased''), st)
      else if rd_fraction d \<le> 1 / 10 ^ 12 then
        (if rd_cost d \<noteq> 0 \<or> rd_net d \<noteq> 0
         then (Inl (RuntimeError ''v52_robinhood_capital_value_changed_without_fraction_release''), st)
         else (Inr (), st))
      else if rd_cost d \<le> 0 then (Inl (RuntimeError ''v52_robinhood_capital_release_missing_cost_basis''), st)
      else if ln_current_reservation_id n = []
        then (Inl (RuntimeError ''v52_robinhood_capital_current_reservation_missing''), st)
      else case reservation_of (sh_capital st) (ln_release_commit n) (ln_current_reservation_id n) of
        None \<Rightarrow> (Inl (RuntimeError ''v52_robinhood_capital_reservation_missing_during_release''), st)
      | Some r \<Rightarrow>
          if rr_status r \<noteq> Active
            then (Inl (RuntimeError ''v52_robinhood_capital_reservation_not_active_during_release''), st)
          else if abs (max 0 (rr_reserved_fraction r) - prior) > 1 / 10 ^ 9
            then (Inl (RuntimeError ''v52_robinhood_capital_reservation_lineage_mismatch''), st)
          else settle_slice now (lt_trial_id l) n d r st)"

text \<open>\<open>_sync_position_capital\<close>: the lots are read once, the lineage of each is read in turn.\<close>

definition position_lots :: "book \<Rightarrow> nat \<Rightarrow> lot_row list" where
  "position_lots b i = sort_key lt_id
     (filter (\<lambda>l. lt_position_id l = i \<and> lt_trial_id l \<in> tl_id ` set (bk_trials b)) (bk_lots b))"

fun sync_lots :: "datetime \<Rightarrow> lot_row list \<Rightarrow> shared \<Rightarrow> unit result \<times> shared" where
  "sync_lots now [] st = (Inr (), st)"
| "sync_lots now (l # ls) st =
     (case lineage_of st (lt_trial_id l) of
        None \<Rightarrow> sync_lots now ls st
      | Some n \<Rightarrow>
          (case settle_lot_delta now l n st of
             (Inl e, st') \<Rightarrow> (Inl e, st')
           | (Inr _, st') \<Rightarrow> sync_lots now ls st'))"

definition sync_position_capital :: "datetime \<Rightarrow> nat \<Rightarrow> shared \<Rightarrow> unit result \<times> shared" where
  "sync_position_capital now i st = sync_lots now (position_lots (sh_book st) i) st"

definition apply_exit_with_shared_capital ::
  "exit_order \<Rightarrow> exit_quote \<Rightarrow> datetime \<Rightarrow> position_row \<Rightarrow> shared \<Rightarrow> unit result \<times> shared" where
  "apply_exit_with_shared_capital x q now p st =
     (case apply_exit x q now p (sh_book st) of
        (Inl e, b) \<Rightarrow> (Inl e, st\<lparr>sh_book := b\<rparr>)
      | (Inr _, b) \<Rightarrow>
          if ps_id p > 0 then sync_position_capital now (ps_id p) (st\<lparr>sh_book := b\<rparr>)
          else (Inr (), st\<lparr>sh_book := b\<rparr>))"

text \<open>The settlement of the lifecycle, which calls the exit with shared capital.\<close>

definition settle_one_with_shared_capital ::
  "position_policy \<Rightarrow> exit_policy \<Rightarrow> quote_answers \<Rightarrow> string \<Rightarrow> datetime
     \<Rightarrow> (nat \<Rightarrow> book \<Rightarrow> unit result \<times> book) \<Rightarrow> nat \<Rightarrow> book \<Rightarrow> shared \<Rightarrow> unit result \<times> shared" where
  "settle_one_with_shared_capital pol xp quote flow now base trial b0 st =
     (case settle_plan_of pol xp quote flow now trial b0 of
        Untracked \<Rightarrow> (let (r, b) = base trial (sh_book st) in (r, st\<lparr>sh_book := b\<rparr>))
      | Nothing \<Rightarrow> (Inr (), st)
      | Mark p \<Rightarrow> (Inr (), st\<lparr>sh_book := mark_runner (ps_id p) now (sh_book st)\<rparr>)
      | Exit p x q \<Rightarrow> apply_exit_with_shared_capital x q now p st)"

subsection \<open>The start of a process\<close>

text \<open>The end of \<open>_restore\<close> (\<open>robinhood_chain_state.py\<close>): the reservation of each trial that has an outcome is
  settled with the return of the outcome; \<open>cs\<close> gives the surroundings of the call for a trial. Missing
  and inactive reservations are passed over, any other error ends the start.\<close>

definition settled_capital_rows :: "book \<Rightarrow> (trial_row \<times> string \<times> outcome_row) list" where
  "settled_capital_rows b = List.map_filter
     (\<lambda>t. case (tl_capital_reservation_id t, find (\<lambda>r. oc_trial_id r = tl_id t) (bk_outcomes b)) of
            (Some rid, Some r) \<Rightarrow> if tl_release_commit t = bk_release_commit b then Some (t, rid, r) else None
          | _ \<Rightarrow> None) (sort_key tl_id (bk_trials b))"

fun passed_over :: "py_error \<Rightarrow> bool" where
  "passed_over (KeyError m) = True"
| "passed_over (RuntimeError m) = True"
| "passed_over _ = False"

fun restore_settlements ::
  "(nat \<Rightarrow> call_context) \<Rightarrow> string \<Rightarrow> (trial_row \<times> string \<times> outcome_row) list \<Rightarrow> capital_store
     \<Rightarrow> unit result \<times> capital_store" where
  "restore_settlements cs release [] s = (Inr (), s)"
| "restore_settlements cs release ((t, rid, r) # rows) s =
     (case settle_paper_capital (cs (tl_id t)) release rid (''robinhood-trial:'' @ nat_text (tl_id t))
             (Number (oc_net_return r)) s of
        (Inl e, s') \<Rightarrow> if passed_over e then restore_settlements cs release rows s' else (Inl e, s')
      | (Inr _, s') \<Rightarrow> restore_settlements cs release rows s')"

definition restore_settled_capital :: "(nat \<Rightarrow> call_context) \<Rightarrow> shared \<Rightarrow> unit result \<times> shared" where
  "restore_settled_capital cs st =
     (let (r, s) = restore_settlements cs (bk_release_commit (sh_book st)) (settled_capital_rows (sh_book st)) (sh_capital st)
      in (r, st\<lparr>sh_capital := s\<rparr>))"

subsection \<open>Reports\<close>

definition paper_nav_with_shared_capital :: "bool \<Rightarrow> bool \<Rightarrow> shared \<Rightarrow> real" where
  "paper_nav_with_shared_capital outcome_columns event_columns st =
     (let b = sh_book st; managed = (\<lambda>trial. trial \<in> ln_trial_id ` set (sh_lineage st)) in
      if sh_lineage st = [] then paper_nav_with_lifecycle b else
      let report = capital_reconciliation (sh_capital st) (bk_release_commit b) (Number DEFAULT_CAPACITY_FRACTION);
          legacy = (if outcome_columns then map oc_paper_nav_multiplier
            (filter (\<lambda>r. \<not> managed (oc_trial_id r)) (sort_key oc_id (bk_outcomes b))) else []);
          unmanaged = (if event_columns then List.map_filter pe_paper_nav_multiplier
            (filter (\<lambda>e. \<not> (\<exists>l\<in>set (bk_lots b). lt_position_id l = pe_position_id e \<and> managed (lt_trial_id l)))
               (sort_key pe_id (bk_events b))) else [])
      in bk_starting_nav_usd b * product (map multiplier_of legacy) * product (map multiplier_of unmanaged)
           * max 0 (1 + cr_realized_return_contribution report))"

definition unlinked_open_lots :: "shared \<Rightarrow> nat" where
  "unlinked_open_lots st = length (filter
     (\<lambda>l. lt_remaining_fraction l > 0 \<and> or_text (lt_capital_reservation_id l) [] = []
        \<and> (\<exists>t\<in>set (bk_trials (sh_book st)). tl_id t = lt_trial_id l
              \<and> tl_release_commit t = bk_release_commit (sh_book st))) (bk_lots (sh_book st)))"

end
