(* ===== verification/SharedBooks.thy ===== *)
theory SharedBooks
  imports SharedCapital Lifecycle
begin

text \<open>
  What the shared paper capital keeps: every linked lot is backed by a reservation of its own,
  so what the Robinhood lane holds fits into the capacity that all lanes share. The theorems
  also show where the code falls short: an evidence whose entry failed once is refused for
  ever, and the NAV counts the outcomes of unlinked lots twice.
\<close>

subsection \<open>Calls of the capital store\<close>

definition within_capacity :: "real \<Rightarrow> capital_store \<Rightarrow> bool" where
  "within_capacity b s \<longleftrightarrow> rows_ok (cs_reservations s) \<and> reserved_sum Active (cs_reservations s) \<le> b"

lemma within_capacity_metric [simp]: "within_capacity b (metric c release oper k s) = within_capacity b s"
  by (simp add: within_capacity_def)

text \<open>The reservations of all other identities stay.\<close>

definition frame :: "string \<Rightarrow> capital_store \<Rightarrow> capital_store \<Rightarrow> bool" where
  "frame rid s s' \<longleftrightarrow> (\<forall>r\<in>set (cs_reservations s). rr_reservation_id r \<noteq> rid \<longrightarrow> r \<in> set (cs_reservations s'))
     \<and> (\<forall>r\<in>set (cs_reservations s'). rr_reservation_id r \<noteq> rid \<longrightarrow> r \<in> set (cs_reservations s))"

lemma frame_same: "cs_reservations s' = cs_reservations s \<Longrightarrow> frame rid s s'"
  by (simp add: frame_def)

lemma within_capacity_append:
  assumes ok: "within_capacity b s" and fresh: "rr_reservation_id r \<notin> rr_reservation_id ` set (cs_reservations s)"
    and r: "rr_id r = Suc (length (cs_reservations s))" "rr_portfolio_id r = CANONICAL_PORTFOLIO_ID"
      "0 \<le> rr_reserved_fraction r"
    and sum: "reserved_sum Active (cs_reservations s) + (if rr_status r = Active then rr_reserved_fraction r else 0) \<le> b"
  shows "within_capacity b (s\<lparr>cs_reservations := cs_reservations s @ [r]\<rparr>)"
proof -
  have "\<forall>q\<in>set (cs_reservations s). rr_id q \<noteq> Suc (length (cs_reservations s))"
    using ok by (fastforce simp: within_capacity_def rows_ok_def)
  then have "rows_ok (cs_reservations s @ [r])"
    using ok fresh r by (auto simp: within_capacity_def rows_ok_def)
  with sum r(2) show ?thesis by (simp add: within_capacity_def)
qed

lemma within_capacity_rewrite:
  assumes ok: "within_capacity b s" and r: "r \<in> set (cs_reservations s)" "rr_status r = Active"
    and f: "keeps_identity f" "rr_status (f r) \<noteq> Active"
  shows "within_capacity (b - rr_reserved_fraction r) (s\<lparr>cs_reservations := rewrite_row r f (cs_reservations s)\<rparr>)"
    "frame (rr_reservation_id r) s (s\<lparr>cs_reservations := rewrite_row r f (cs_reservations s)\<rparr>)"
proof -
  have rows: "rows_ok (cs_reservations s)" and sum: "reserved_sum Active (cs_reservations s) \<le> b"
    using ok by (simp_all add: within_capacity_def)
  show "within_capacity (b - rr_reserved_fraction r) (s\<lparr>cs_reservations := rewrite_row r f (cs_reservations s)\<rparr>)"
    using rewrite_row_ok [OF rows f(1)] rewrite_row_released [of "cs_reservations s" r f, OF rows r f(2)] sum
    by (simp add: within_capacity_def)
  have "rr_reservation_id (f r) = rr_reservation_id r" using f(1) by (simp add: keeps_identity_def)
  then show "frame (rr_reservation_id r) s (s\<lparr>cs_reservations := rewrite_row r f (cs_reservations s)\<rparr>)"
    by (auto simp: frame_def rewrite_row_set [OF rows r(1)])
qed

lemma within_capacity_mono: "within_capacity a s \<Longrightarrow> a \<le> b \<Longrightarrow> within_capacity b s"
  by (simp add: within_capacity_def)

lemma within_capacity_released:
  assumes "within_capacity b s" and "r \<in> set (cs_reservations s)" and "rr_status r = Active"
    and "keeps_identity f" and "rr_status (f r) \<noteq> Active"
  shows "within_capacity b (s\<lparr>cs_reservations := rewrite_row r f (cs_reservations s)\<rparr>)"
  using within_capacity_rewrite(1) [OF assms] assms(1, 2)
  by (auto simp: within_capacity_def rows_ok_def intro: within_capacity_mono)

lemma reserve_call:
  assumes ok: "within_capacity b s" and cap: "finite_fraction cap \<le> b"
    and call: "reserve_paper_capital c release rid lane cand q cap al mn s = (reply, s')"
  shows "within_capacity b s'" "set (cs_reservations s) \<subseteq> set (cs_reservations s')"
    "\<forall>r\<in>set (cs_reservations s'). r \<in> set (cs_reservations s) \<or> rr_reservation_id r = rid \<and> rr_release_commit r = release"
    "\<forall>v. reply = Inr v \<longrightarrow> rp_row v \<in> set (cs_reservations s') \<and> rr_reservation_id (rp_row v) = rid"
proof -
  have rows: "rows_ok (cs_reservations s)" using ok by (simp add: within_capacity_def)
  consider (error) "isl reply" "s' = s"
    | (missing) k row where "rid \<notin> rr_reservation_id ` set (cs_reservations s)"
        "row = new_reservation c release rid lane cand (finite_fraction q) (finite_fraction cap) (finite_fraction mn) al s"
        "\<exists>v. reply = Inr v \<and> rp_row v = row" "s' = metric c release ''reserve'' k (s\<lparr>cs_reservations := cs_reservations s @ [row]\<rparr>)"
    | (present) k r where "r \<in> set (cs_reservations s)" "rr_reservation_id r = rid"
        "\<exists>v. reply = Inr v \<and> rp_row v = r" "s' = metric c release ''reserve_replay'' k s"
  proof (cases "rid = [] \<or> cand = [] \<or> lane = [] \<or> (\<exists>e. begin_immediate 0 (cc_attempts c) = Inl e)")
    case True
    then have "s' = s \<and> isl reply" using reserve_error [of rid cand lane c _ release q cap al mn s] call by auto
    then show ?thesis using that(1) by blast
  next
    case False
    then obtain k where k: "begin_immediate 0 (cc_attempts c) = Inr k"
      by (cases "begin_immediate 0 (cc_attempts c)") auto
    show ?thesis using rows
    proof (cases rule: canonical_cases [where rid = rid])
      case missing
      with reserve_missing [OF missing(1) k _ _ _ refl, where candidate = cand and lane = lane and release = release and q = q and cap = cap and mn = mn and al = al] False call
      show ?thesis by (intro that(2)) auto
    next
      case (present r)
      with reserve_present [OF rows present(1) k, where candidate = cand and lane = lane and release = release and q = q and cap = cap and mn = mn and al = al] False call
      show ?thesis by (intro that(3) [of r]) auto
    qed
  qed
  note cases = this
  from cases show "within_capacity b s'"
  proof cases
    case (missing k row)
    have "finite_fraction cap \<le> b" by (rule cap)
    then have "within_capacity b (s\<lparr>cs_reservations := cs_reservations s @ [row]\<rparr>)"
      using new_reservation_cases [OF rows finite_fraction_nonneg missing(2)] missing(1, 2) ok
      by (intro within_capacity_append) (auto simp: within_capacity_def)
    then show ?thesis by (simp add: missing(4))
  qed (use ok in simp_all)
  from cases show "set (cs_reservations s) \<subseteq> set (cs_reservations s')" by cases auto
  from cases show "\<forall>r\<in>set (cs_reservations s'). r \<in> set (cs_reservations s) \<or> rr_reservation_id r = rid \<and> rr_release_commit r = release"
    by cases auto
  from cases show "\<forall>v. reply = Inr v \<longrightarrow> rp_row v \<in> set (cs_reservations s') \<and> rr_reservation_id (rp_row v) = rid"
    by cases auto
qed

lemma cancel_call:
  assumes ok: "within_capacity b s" and call: "cancel_paper_capital c release rid reason s = (reply, s')"
  shows "within_capacity b s' \<and> frame rid s s'"
proof (cases "begin_immediate 0 (cc_attempts c)")
  case (Inl e)
  with ok call show ?thesis by (auto simp: cancel_paper_capital_def intro: frame_same)
next
  case (Inr k)
  have rows: "rows_ok (cs_reservations s)" using ok by (simp add: within_capacity_def)
  show ?thesis
  proof (cases "\<exists>r\<in>set (cs_reservations s). rr_reservation_id r = rid \<and> rr_status r = Active")
    case True
    then obtain r where r: "r \<in> set (cs_reservations s)" "rr_status r = Active" and i: "rid = rr_reservation_id r"
      by blast
    define f where "f = (\<lambda>r :: reservation_row. r\<lparr>rr_status := Cancelled, rr_reason := reason, rr_updated_at := cc_now c\<rparr>)"
    have f: "keeps_identity f" "rr_status (f r) \<noteq> Active" by (simp_all add: keeps_identity_def f_def)
    have "s' = metric c release ''cancel'' k (s\<lparr>cs_reservations := rewrite_row r f (cs_reservations s)\<rparr>)"
      using call cancel_active [OF rows r Inr, of release reason] by (simp add: i f_def)
    with within_capacity_released [OF ok r f] within_capacity_rewrite(2) [OF ok r f] i show ?thesis by (simp add: frame_def)
  next
    case False
    then show ?thesis using cancel_inactive [OF rows Inr, of rid] ok call by (auto intro: frame_same)
  qed
qed


lemma update_head:
  assumes rows: "rows_ok (cs_reservations s)" and a: "active_rows (canonical_reservations s rid) = r # rest"
  shows "r \<in> set (cs_reservations s)" "rr_status r = Active" "rr_reservation_id r = rid"
proof -
  have "r \<in> set (active_rows (canonical_reservations s rid))" by (simp add: a)
  then show "r \<in> set (cs_reservations s)" "rr_status r = Active" "rr_reservation_id r = rid"
    by (auto simp: active_rows_def canonical_reservations_def)
qed

lemma settle_call:
  assumes ok: "within_capacity b s" and call: "settle_paper_capital c release rid sid v s = (reply, s')"
  shows "within_capacity b s' \<and> frame rid s s'"
proof -
  have rows: "rows_ok (cs_reservations s)" using ok by (simp add: within_capacity_def)
  consider (same) "cs_reservations s' = cs_reservations s"
    | (settled) r rest f where "active_rows (canonical_reservations s rid) = r # rest" "keeps_identity f"
        "rr_status (f r) \<noteq> Active" "cs_reservations s' = cs_reservations (update_active (rr_id r) f s)"
  proof (cases "active_rows (canonical_reservations s rid)")
    case Nil
    with call show ?thesis
      by (intro that(1)) (auto simp: settle_paper_capital_def Let_def split: sum.splits if_splits)
  next
    case (Cons r rest)
    show ?thesis
    proof (cases "cs_reservations s' = cs_reservations s")
      case False
      define f where "f = (\<lambda>x (y :: reservation_row). y\<lparr>rr_status := Settled, rr_reason := ''paper_capital_settled'', rr_net_return := Some x,
         rr_realized_contribution := Some (max 0 (rr_reserved_fraction r) * x), rr_updated_at := cc_now c\<rparr>)"
      have "\<exists>x. cs_reservations s' = cs_reservations (update_active (rr_id r) (f x) s)"
      proof (cases "finite_return v")
        case (Inr x)
        show ?thesis
        proof (cases "begin_immediate 0 (cc_attempts c)")
          case begun: (Inr k)
          have pass: "rest = []" "settlements_of s rid = []"
            using call False by (auto simp: settle_paper_capital_def Inr begun Cons Let_def split: if_splits)
          show ?thesis
          proof (cases "insert_settlement \<lparr>sr_id = Suc (length (cs_settlements s)),
              sr_release_commit = rr_release_commit r, sr_settlement_id = sid, sr_reservation_id = rid, sr_net_return = x,
              sr_realized_contribution = max 0 (rr_reserved_fraction r) * x, sr_settled_at = cc_now c,
              sr_paper_only = True, sr_live_money_authority = False, sr_portfolio_id = CANONICAL_PORTFOLIO_ID\<rparr> s")
            case (Inl e)
            then show ?thesis
              using call False pass by (simp add: settle_paper_capital_def \<open>finite_return v = Inr x\<close> begun Cons Let_def)
          next
            case inserted: (Inr s1)
            then have "cs_reservations s1 = cs_reservations s" by (auto simp: insert_settlement_def split: if_splits)
            moreover have "cs_reservations s' = cs_reservations (update_active (rr_id r) (f x) s1)"
              using call False pass inserted
              by (simp add: settle_paper_capital_def \<open>finite_return v = Inr x\<close> begun Cons Let_def f_def split: list.splits)
                (auto simp: update_active_def)
            ultimately show ?thesis by (intro exI [of _ x]) (simp add: update_active_def)
          qed
        qed (use call False in \<open>simp add: settle_paper_capital_def Inr\<close>)
      qed (use call False in \<open>simp add: settle_paper_capital_def\<close>)
      then show ?thesis using Cons by (elim exE, intro that(2)) (simp_all add: f_def keeps_identity_def)
    qed (rule that(1))
  qed
  then show ?thesis
  proof cases
    case same
    with ok show ?thesis by (simp add: within_capacity_def frame_same)
  next
    case (settled r rest f)
    note r = update_head [OF rows settled(1)]
    have "cs_reservations s' = rewrite_row r f (cs_reservations s)"
      using settled(4) update_active_rewrite(1) [OF rows r(1, 2), of f] by simp
    with within_capacity_released [OF ok r(1, 2) settled(2, 3)] within_capacity_rewrite(2) [OF ok r(1, 2) settled(2, 3)] r(3)
    show ?thesis by (simp add: within_capacity_def frame_def)
  qed
qed

text \<open>The identity that a call of the store names.\<close>

fun event_identity :: "capital_event \<Rightarrow> string" where
  "event_identity (CReserve c release rid lane candidate requested capacity allow minimum) = rid"
| "event_identity (CCancel c release rid reason) = rid"
| "event_identity (CSettle c release rid sid v) = rid"
| "event_identity (CRecord c release candidate key stage payload) = []"

lemma capital_call:
  assumes ok: "within_capacity b s" and cap: "capacity_within b e"
  shows "within_capacity b (fst (capital_step s e)) \<and> frame (event_identity e) s (fst (capital_step s e))"
proof (cases e)
  case (CReserve c release rid lane cand q capacity al mn)
  obtain reply s' where call: "reserve_paper_capital c release rid lane cand q capacity al mn s = (reply, s')" by force
  with reserve_call [OF ok _ call] cap CReserve show ?thesis by (auto simp: frame_def)
next
  case (CCancel c release rid reason)
  obtain reply s' where call: "cancel_paper_capital c release rid reason s = (reply, s')" by force
  with cancel_call [OF ok call] CCancel show ?thesis by simp
next
  case (CSettle c release rid sid v)
  obtain reply s' where call: "settle_paper_capital c release rid sid v s = (reply, s')" by force
  with settle_call [OF ok call] CSettle show ?thesis by (auto split: sum.split)
next
  case (CRecord c release cand key stage payload)
  with ok show ?thesis by (simp add: record_lifecycle_event_def within_capacity_def frame_same)
qed


subsection \<open>Growing books\<close>

text \<open>The lifecycle appends trials without a reservation and lots, and lowers what lots hold.\<close>

definition grows :: "book \<Rightarrow> book \<Rightarrow> bool" where
  "grows b b' \<longleftrightarrow> bk_release_commit b' = bk_release_commit b
     \<and> (\<exists>ts. bk_trials b' = bk_trials b @ ts \<and> (\<forall>t\<in>set ts. tl_capital_reservation_id t = None))
     \<and> (\<forall>i. settled_trial b i \<longrightarrow> settled_trial b' i)
     \<and> (\<forall>l\<in>set (bk_lots b). \<exists>k\<in>set (bk_lots b'). lt_trial_id k = lt_trial_id l
          \<and> lt_evidence_fingerprint k = lt_evidence_fingerprint l \<and> lt_remaining_fraction k \<le> lt_remaining_fraction l)"

lemma grows_same: "bk_release_commit b' = bk_release_commit b \<Longrightarrow> bk_trials b' = bk_trials b \<Longrightarrow> bk_lots b' = bk_lots b
    \<Longrightarrow> bk_outcomes b' = bk_outcomes b \<Longrightarrow> grows b b'"
  by (auto simp: grows_def settled_trial_def)

lemma write_lot_shape:
  assumes "write_lot n pd now position b = Inr b'"
  obtains l where "bk_trials b' = bk_trials b @ [new_trial n (pd_stage pd) now b]" "bk_lots b' = bk_lots b @ [l]"
    "bk_release_commit b' = bk_release_commit b" "bk_outcomes b' = bk_outcomes b" "lt_trial_id l = tl_id (new_trial n (pd_stage pd) now b)"
    "lt_evidence_fingerprint l = pd_evidence_fingerprint pd" "lt_remaining_fraction l = en_fraction n"
    "lt_capital_reservation_id l = None" "lt_id l = next_id (map lt_id (bk_lots b))"
proof -
  define t where "t = new_trial n (pd_stage pd) now b"
  define b1 where "b1 = b\<lparr>bk_trials := bk_trials b @ [t], bk_contexts := bk_contexts b @ [new_context n (tl_id t) now]\<rparr>"
  have "\<exists>b2 i. bk_trials b2 = bk_trials b1 \<and> bk_lots b2 = bk_lots b @ [new_lot n pd i (tl_id t) now b]
      \<and> bk_release_commit b2 = bk_release_commit b \<and> bk_outcomes b2 = bk_outcomes b \<and> (\<exists>e. b' = b2\<lparr>bk_events := bk_events b2 @ [e]\<rparr>)"
  proof (cases position)
    case None
    define p where "p = new_position n pd now b1"
    define b2 where "b2 = b1\<lparr>bk_positions := bk_positions b1 @ [p]\<rparr>"
    define l where "l = new_lot n pd (next_id (map ps_id (bk_positions b1))) (tl_id t) now b2"
    have l: "l = new_lot n pd (next_id (map ps_id (bk_positions b1))) (tl_id t) now b" by (simp add: l_def b2_def b1_def new_lot_def)
    from assms obtain e where "b' = b2\<lparr>bk_lots := bk_lots b2 @ [l], bk_events := bk_events b2 @ [e]\<rparr>"
      unfolding write_lot_def Let_def t_def [symmetric] None
      by (auto simp: bind_result_def insert_Inr b1_def [symmetric] p_def [symmetric] b2_def [symmetric] l_def [symmetric]
          split: sum.splits)
    then show ?thesis unfolding l
      by (intro exI [of _ "b2\<lparr>bk_lots := bk_lots b2 @ [new_lot n pd (next_id (map ps_id (bk_positions b1))) (tl_id t) now b]\<rparr>"] exI [of _ "next_id (map ps_id (bk_positions b1))"])
        (auto simp: b2_def b1_def)
  next
    case (Some p)
    define b2 where "b2 = update_position (ps_id p) (scaled_position n pd now) b1"
    define l where "l = new_lot n pd (ps_id p) (tl_id t) now b2"
    have l: "l = new_lot n pd (ps_id p) (tl_id t) now b" by (simp add: l_def b2_def b1_def new_lot_def)
    from assms obtain e where "b' = b2\<lparr>bk_lots := bk_lots b2 @ [l], bk_events := bk_events b2 @ [e]\<rparr>"
      unfolding write_lot_def Let_def t_def [symmetric] Some
      by (auto simp: bind_result_def insert_Inr b1_def [symmetric] b2_def [symmetric] l_def [symmetric] split: sum.splits)
    then show ?thesis unfolding l
      by (intro exI [of _ "b2\<lparr>bk_lots := bk_lots b2 @ [new_lot n pd (ps_id p) (tl_id t) now b]\<rparr>"] exI [of _ "ps_id p"])
        (auto simp: b2_def b1_def update_position_def)
  qed
  then obtain b2 i where "bk_trials b2 = bk_trials b1" "bk_lots b2 = bk_lots b @ [new_lot n pd i (tl_id t) now b]"
      "bk_release_commit b2 = bk_release_commit b" "bk_outcomes b2 = bk_outcomes b" "\<exists>e. b' = b2\<lparr>bk_events := bk_events b2 @ [e]\<rparr>" by blast
  then show thesis
    by (intro that [of "new_lot n pd i (tl_id t) now b"]) (auto simp: b1_def t_def new_lot_def)
qed

lemma validate_grows: "validate_and_commit quote latency now n b = (r, b') \<Longrightarrow> grows b b'"
proof -
  assume v: "validate_and_commit quote latency now n b = (r, b')"
  consider (same) "b' = b" | (wrote) pd b1 where "write_lot n pd now (open_row (clean_address (Some (en_token n))) b) b = Inr b1"
      "b' = drop_pending (clean_address (Some (en_token n))) b1"
    using validate_cases [of quote latency now n b] persist_lot_cases [of now n _ b] v
    by (metis prod.inject)
  then show "grows b b'"
  proof cases
    case wrote
    obtain l where "bk_trials b1 = bk_trials b @ [new_trial n (pd_stage pd) now b]" "bk_lots b1 = bk_lots b @ [l]"
      "bk_release_commit b1 = bk_release_commit b" "bk_outcomes b1 = bk_outcomes b" by (rule write_lot_shape [OF wrote(1)])
    then show ?thesis by (auto simp: grows_def wrote(2) drop_pending_def new_trial_def settled_trial_def)
  qed (simp add: grows_same)
qed

lemma choose_grows: "grows b (snd (choose_with_lifecycle pol fp now token market k c b))"
  using choose_keeps [of pol fp now token market k c b] by (auto intro: grows_same)

lemma mark_runner_grows: "grows b (mark_runner i now b)"
  by (simp add: grows_same mark_runner_def update_position_def)

lemma fold_settle_release: "bk_release_commit (fold (settle_lot reason now) ls b) = bk_release_commit b"
  by (induction ls arbitrary: b) (simp_all add: settle_lot_def split: option.split)

lemma write_exit_release: "write_exit x q now p as b = (Inr (), b') \<Longrightarrow> bk_release_commit b' = bk_release_commit b"
  by (auto simp: write_exit_def Let_def fold_settle_release update_position_def split: prod.splits if_splits)

lemma apply_exit_grows:
  assumes ok: "book_ok b" and x: "0 < xo_sell_raw x" and e: "apply_exit x q now p b = (r, b')"
  shows "grows b b'"
proof (cases "b' = b")
  case False
  then have "r = Inr ()"
    using e by (auto simp: apply_exit_def Let_def split: prod.splits if_splits dest: write_exit_result) 
      (metis old.unit.exhaust sumE write_exit_result)
  with e False obtain as where as: "write_exit x q now p as b = (Inr (), b')" "slices_of b (ps_id p) (xo_sell_raw x) as"
    using apply_exit_wrote [OF ok x] by metis
  have rows: "set (bk_lots b') = (set (bk_lots b) - set (map al_lot as)) \<union> set (map (sold_lot now) as)"
    unfolding write_exit_lots_of [OF as(1)] using book_okD(2) [OF ok] slices_of_in [OF as(2)]
    by (intro write_lots_set) simp_all
  have sold: "lt_remaining_fraction (sold_lot now a) \<le> lt_remaining_fraction (al_lot a)" if "a \<in> set as" for a
  proof -
    note a = slice_lot_ok [OF ok as(2) that]
    have "0 \<le> al_fraction a" using a(1) lot_fraction_nonneg [OF a(2)] by (simp add: slice_ok_def)
    then show ?thesis using sold_lot_fraction [OF a(1) lot_fraction_nonneg [OF a(2)], of now] by simp
  qed
  have "\<exists>k\<in>set (bk_lots b'). lt_trial_id k = lt_trial_id l \<and> lt_evidence_fingerprint k = lt_evidence_fingerprint l
      \<and> lt_remaining_fraction k \<le> lt_remaining_fraction l" if "l \<in> set (bk_lots b)" for l
  proof (cases "l \<in> al_lot ` set as")
    case True
    then obtain a where "a \<in> set as" "l = al_lot a" by auto
    with rows sold show ?thesis by (intro bexI [of _ "sold_lot now a"]) auto
  qed (use that rows in auto)
  moreover have "bk_trials b' = bk_trials b" "\<forall>i. settled_trial b i \<longrightarrow> settled_trial b' i"
    using write_exit_cases [OF as(1)] by (metis prod_cases3)+
  ultimately show ?thesis using write_exit_release [OF as(1)] by (simp add: grows_def)
qed (simp add: grows_same)


subsection \<open>The reservation of a trial\<close>

lemma set_reservation_simps [simp]:
  "bk_release_commit (set_reservation i rid b) = bk_release_commit b"
  "bk_positions (set_reservation i rid b) = bk_positions b" "bk_outcomes (set_reservation i rid b) = bk_outcomes b"
  "bk_events (set_reservation i rid b) = bk_events b" "bk_pending (set_reservation i rid b) = bk_pending b"
  "bk_contexts (set_reservation i rid b) = bk_contexts b"
  "bk_trials (set_reservation i rid b) = map (\<lambda>t. if tl_id t = i then t\<lparr>tl_capital_reservation_id := Some rid\<rparr> else t) (bk_trials b)"
  "bk_lots (set_reservation i rid b) = map (\<lambda>l. if lt_trial_id l = i then l\<lparr>lt_capital_reservation_id := Some rid\<rparr> else l) (bk_lots b)"
  by (simp_all add: set_reservation_def)

lemma column_unchanged:
  "(\<And>x. k (f x) = k x) \<Longrightarrow> map k (map (\<lambda>x. if P x then f x else x) xs) = map k xs"
  "(\<And>x. k (f x) = k x) \<Longrightarrow> k ` set (map (\<lambda>x. if P x then f x else x) xs) = k ` set xs"
  by (induction xs) auto

lemma over_lots_set_reservation:
  assumes "\<And>l. f (l\<lparr>lt_capital_reservation_id := Some rid\<rparr>) = f l"
  shows "over_lots f j (bk_lots (set_reservation i rid b)) = over_lots f j (bk_lots b)"
  unfolding set_reservation_simps by (induction "bk_lots b" rule: list.induct) (auto simp: over_lots_def assms intro: arg_cong)

lemma book_ok_set_reservation:
  assumes ok: "book_ok b"
  shows "book_ok (set_reservation i rid b)"
proof -
  let ?b = "set_reservation i rid b"
  have ids: "map tl_id (bk_trials ?b) = map tl_id (bk_trials b)" "map lt_id (bk_lots ?b) = map lt_id (bk_lots b)"
      "map lt_trial_id (bk_lots ?b) = map lt_trial_id (bk_lots b)"
    by (simp_all add: column_unchanged)
  then have sets: "tl_id ` set (bk_trials ?b) = tl_id ` set (bk_trials b)"
      "lt_trial_id ` set (bk_lots ?b) = lt_trial_id ` set (bk_lots b)" by (metis set_map)+
  have settled: "settled_trial ?b = settled_trial b" by (simp add: settled_trial_def fun_eq_iff)
  have "lot_ok ?b l" if mem: "l \<in> set (bk_lots ?b)" for l
  proof -
    obtain k where k: "k \<in> set (bk_lots b)" "l = (if lt_trial_id k = i then k\<lparr>lt_capital_reservation_id := Some rid\<rparr> else k)"
      using mem by auto
    have "lot_ok ?b l = lot_ok b k"
      unfolding lot_ok_def sets(1) settled set_reservation_simps(2) using k(2) by simp
    then show ?thesis using book_okD(7) [OF ok k(1)] by simp
  qed
  moreover have "position_ok (bk_lots ?b) p" if "p \<in> set (bk_positions ?b)" for p
    using that book_okD(8) [OF ok, of p] by (simp add: position_ok_def over_lots_set_reservation del: set_reservation_simps(8))
  moreover have "tracked_trial ?b (tl_id t)" if "t \<in> set (bk_trials ?b)" for t
  proof -
    have "tl_id t \<in> tl_id ` set (bk_trials b)" using that sets(1) by blast
    then show ?thesis using book_okD(9) [OF ok] sets(2) by (auto simp: tracked_trial_iff simp del: set_reservation_simps)
  qed
  moreover have "distinct (map ps_id (bk_positions ?b))" "open_token_unique ?b" "distinct (map oc_trial_id (bk_outcomes ?b))"
    using book_okD(1, 5, 6) [OF ok] by (simp_all add: open_token_unique_def)
  moreover have "oc_trial_id ` set (bk_outcomes ?b) \<subseteq> tl_id ` set (bk_trials ?b)"
    using book_okD(10) [OF ok] sets(1) by (simp only: set_reservation_simps(3))
  ultimately show ?thesis
    using book_okD(2, 3, 4) [OF ok] ids unfolding book_ok_def by (simp only:) blast
qed


subsection \<open>Backed lineages\<close>

definition ROUNDING :: real where
  "ROUNDING = 1 / 10 ^ 12"

definition lane_identity :: "string \<Rightarrow> bool" where
  "lane_identity rid \<longleftrightarrow> take 14 rid = ''robinhood-v52:''"

definition entry_name :: "string \<Rightarrow> string \<Rightarrow> string \<Rightarrow> string" where
  "entry_name token market evidence = ''robinhood-v52:'' @ token @ '':'' @ market @ '':'' @ evidence"

text \<open>The lot that a lineage accounts for, and the reservation behind it.\<close>

definition line_lot :: "book \<Rightarrow> lineage_row \<Rightarrow> bool" where
  "line_lot b n \<longleftrightarrow> ln_release_commit n = bk_release_commit b \<and>
     (\<exists>t\<in>set (bk_trials b). \<exists>l\<in>set (bk_lots b). tl_id t = ln_trial_id n \<and> tl_release_commit t = bk_release_commit b
        \<and> tl_capital_reservation_id t = Some (ln_current_reservation_id n)
        \<and> lt_trial_id l = ln_trial_id n \<and> lt_remaining_fraction l \<le> ln_accounted_remaining_fraction n
        \<and> (take 20 (ln_current_reservation_id n) = ''robinhood-v52:trial:''
           \<or> ln_current_reservation_id n = entry_name (tl_token t) (tl_market t) (lt_evidence_fingerprint l)
              \<and> length (tl_token t) = 42 \<and> length (tl_market t) = 42))"

definition line_backed :: "book \<Rightarrow> capital_store \<Rightarrow> lineage_row \<Rightarrow> bool" where
  "line_backed b s n \<longleftrightarrow> (\<exists>r\<in>set (cs_reservations s). rr_reservation_id r = ln_current_reservation_id n
     \<and> rr_release_commit r = ln_release_commit n
     \<and> (settled_trial b (ln_trial_id n) \<or> ln_accounted_remaining_fraction n \<le> ROUNDING
        \<or> rr_status r = Active \<and> ln_accounted_remaining_fraction n \<le> rr_reserved_fraction r + ROUNDING))"

definition shared_ok :: "shared \<Rightarrow> bool" where
  "shared_ok st \<longleftrightarrow> book_ok (sh_book st) \<and> within_capacity 1 (sh_capital st)
     \<and> distinct (map ln_trial_id (sh_lineage st)) \<and> trial_reservations_unique (sh_book st)
     \<and> (\<forall>r\<in>set (cs_reservations (sh_capital st)). lane_identity (rr_reservation_id r) \<longrightarrow>
          rr_release_commit r = bk_release_commit (sh_book st))
     \<and> (\<forall>n\<in>set (sh_lineage st). line_lot (sh_book st) n \<and> line_backed (sh_book st) (sh_capital st) n)"

lemma shared_okD:
  assumes "shared_ok st"
  shows "book_ok (sh_book st)" "within_capacity 1 (sh_capital st)" "distinct (map ln_trial_id (sh_lineage st))"
    "trial_reservations_unique (sh_book st)"
    "r \<in> set (cs_reservations (sh_capital st)) \<Longrightarrow> lane_identity (rr_reservation_id r) \<Longrightarrow>
       rr_release_commit r = bk_release_commit (sh_book st)"
    "n \<in> set (sh_lineage st) \<Longrightarrow> line_lot (sh_book st) n"
    "n \<in> set (sh_lineage st) \<Longrightarrow> line_backed (sh_book st) (sh_capital st) n"
  using assms by (simp_all add: shared_ok_def)

lemma line_lotE:
  assumes "line_lot b n"
  obtains t l where "ln_release_commit n = bk_release_commit b" "t \<in> set (bk_trials b)" "l \<in> set (bk_lots b)"
    "tl_id t = ln_trial_id n" "tl_release_commit t = bk_release_commit b"
    "tl_capital_reservation_id t = Some (ln_current_reservation_id n)"
    "lt_trial_id l = ln_trial_id n" "lt_remaining_fraction l \<le> ln_accounted_remaining_fraction n"
    "take 20 (ln_current_reservation_id n) = ''robinhood-v52:trial:''
       \<or> ln_current_reservation_id n = entry_name (tl_token t) (tl_market t) (lt_evidence_fingerprint l)
          \<and> length (tl_token t) = 42 \<and> length (tl_market t) = 42"
  using assms unfolding line_lot_def by blast

lemma line_lot_grows:
  assumes "line_lot b n" and "grows b b'"
  shows "line_lot b' n"
proof -
  obtain t l where rel: "ln_release_commit n = bk_release_commit b"
    and tl: "t \<in> set (bk_trials b)" "l \<in> set (bk_lots b)"
      "tl_id t = ln_trial_id n" "tl_release_commit t = bk_release_commit b"
      "tl_capital_reservation_id t = Some (ln_current_reservation_id n)"
      "lt_trial_id l = ln_trial_id n" "lt_remaining_fraction l \<le> ln_accounted_remaining_fraction n"
      "take 20 (ln_current_reservation_id n) = ''robinhood-v52:trial:''
       \<or> ln_current_reservation_id n = entry_name (tl_token t) (tl_market t) (lt_evidence_fingerprint l)
          \<and> length (tl_token t) = 42 \<and> length (tl_market t) = 42"
    using assms(1) by (rule line_lotE)
  from assms(2) tl(2) obtain k where k: "k \<in> set (bk_lots b')" "lt_trial_id k = lt_trial_id l"
      "lt_evidence_fingerprint k = lt_evidence_fingerprint l" "lt_remaining_fraction k \<le> lt_remaining_fraction l"
    unfolding grows_def by blast
  have "t \<in> set (bk_trials b')" "bk_release_commit b' = bk_release_commit b" using assms(2) tl(1) by (auto simp: grows_def)
  with tl k rel show ?thesis unfolding line_lot_def by (intro conjI bexI [of _ t] bexI [of _ k]) auto
qed

lemma unique_grows: "trial_reservations_unique b \<Longrightarrow> grows b b' \<Longrightarrow> trial_reservations_unique b'"
  by (auto simp: grows_def trial_reservations_unique_def)

lemma line_backed_grows: "line_backed b s n \<Longrightarrow> grows b b' \<Longrightarrow> line_backed b' s n"
  unfolding line_backed_def grows_def by blast

lemma shared_ok_book:
  assumes "shared_ok st" and "grows (sh_book st) b" and "book_ok b"
  shows "shared_ok (st\<lparr>sh_book := b\<rparr>)"
proof -
  have "bk_release_commit b = bk_release_commit (sh_book st)" using assms(2) by (simp add: grows_def)
  with assms show ?thesis
    by (auto simp: shared_ok_def intro: line_lot_grows unique_grows line_backed_grows)
qed

lemma line_backed_set_reservation [simp]: "line_backed (set_reservation i rid b) s n = line_backed b s n"
  by (simp add: line_backed_def settled_trial_def)

lemma line_backed_frame:
  assumes "line_backed b s n" and "frame rid s s'" and "rid \<noteq> ln_current_reservation_id n"
  shows "line_backed b s' n"
  using assms unfolding line_backed_def frame_def by metis

lemma line_backed_more:
  assumes "line_backed b s n" and "set (cs_reservations s) \<subseteq> set (cs_reservations s')"
  shows "line_backed b s' n"
  using assms unfolding line_backed_def by blast

text \<open>Different lineages have different reservations.\<close>

lemma unique_trial:
  assumes "trial_reservations_unique b" and "t \<in> set (bk_trials b)" and "u \<in> set (bk_trials b)"
    and "tl_release_commit t = tl_release_commit u" and "tl_capital_reservation_id t = Some rid"
    and "tl_capital_reservation_id u = Some rid"
  shows "t = u"
  using assms unfolding trial_reservations_unique_def distinct_map by (auto dest!: inj_onD)

lemma current_distinct:
  assumes ok: "shared_ok st" and n: "n \<in> set (sh_lineage st)" and m: "m \<in> set (sh_lineage st)"
    and same: "ln_current_reservation_id n = ln_current_reservation_id m"
  shows "n = m"
proof -
  obtain t u where t: "t \<in> set (bk_trials (sh_book st))" "tl_id t = ln_trial_id n"
      "tl_release_commit t = bk_release_commit (sh_book st)" "tl_capital_reservation_id t = Some (ln_current_reservation_id n)"
    and u: "u \<in> set (bk_trials (sh_book st))" "tl_id u = ln_trial_id m"
      "tl_release_commit u = bk_release_commit (sh_book st)" "tl_capital_reservation_id u = Some (ln_current_reservation_id m)"
    using shared_okD(6) [OF ok n] shared_okD(6) [OF ok m] unfolding line_lot_def by blast
  have "t = u" using unique_trial [OF shared_okD(4) [OF ok] t(1) u(1)] t u same by simp
  with t u shared_okD(3) [OF ok] n m show ?thesis by (auto simp: distinct_map inj_on_def)
qed

lemma lane_identity_names:
  "lane_identity (entry_name token market evidence)" "lane_identity (residual_id trial sequence)"
  by (simp_all add: lane_identity_def entry_name_def residual_id_def)

lemma line_identity: "line_lot b n \<Longrightarrow> lane_identity (ln_current_reservation_id n)"
proof -
  assume n: "line_lot b n"
  consider "take 20 (ln_current_reservation_id n) = ''robinhood-v52:trial:''"
    | token market evidence where "ln_current_reservation_id n = entry_name token market evidence"
    by (rule line_lotE [OF n]) blast
  then show ?thesis
  proof cases
    case 1
    have "take 14 (ln_current_reservation_id n) = take 14 (take 20 (ln_current_reservation_id n))" by simp
    then show ?thesis unfolding lane_identity_def 1 by simp
  qed (simp add: lane_identity_names)
qed

lemma shared_ok_capital:
  assumes ok: "shared_ok st" and s: "within_capacity 1 s" "frame rid (sh_capital st) s" and other: "\<not> lane_identity rid"
  shows "shared_ok (st\<lparr>sh_capital := s\<rparr>)"
proof -
  have "rid \<noteq> ln_current_reservation_id n" if "n \<in> set (sh_lineage st)" for n
    using line_identity [OF shared_okD(6) [OF ok that]] other by auto
  then have "line_backed (sh_book st) s n" if "n \<in> set (sh_lineage st)" for n
    using that by (intro line_backed_frame [OF shared_okD(7) [OF ok that] s(2)]) blast
  moreover have "rr_release_commit r = bk_release_commit (sh_book st)"
    if "r \<in> set (cs_reservations s)" "lane_identity (rr_reservation_id r)" for r
    using that shared_okD(5) [OF ok, of r] s(2) other by (auto simp: frame_def)
  ultimately show ?thesis using shared_okD(1, 3, 4, 6) [OF ok] s(1) by (simp add: shared_ok_def)
qed


subsection \<open>Entries keep it\<close>

lemma find_map_None: "List.map_filter f xs = [] \<longleftrightarrow> (\<forall>x\<in>set xs. f x = None)"
  by (induction xs) (auto simp: map_filter_simps split: option.split)

lemma set_map_filter: "y \<in> set (List.map_filter f xs) \<longleftrightarrow> (\<exists>x\<in>set xs. f x = Some y)"
  by (induction xs) (auto simp: map_filter_simps split: option.split)

lemma matching_lot_None:
  assumes "matching_lot b n evidence = None" and "l \<in> set (bk_lots b)" and "lt_evidence_fingerprint l = evidence"
    and "t \<in> set (bk_trials b)" and "tl_id t = lt_trial_id l" and "tl_release_commit t = bk_release_commit b"
    and "tl_token t = clean_address (Some (en_token n))"
  shows "tl_market t \<noteq> clean_address (Some (en_market n))"
  using assms by (auto simp: matching_lot_def newest_None find_map_None find_None_iff)

lemma matching_lot_Some:
  assumes "matching_lot b n evidence = Some (l, t)"
  shows "l \<in> set (bk_lots b)" "t \<in> set (bk_trials b)" "lt_evidence_fingerprint l = evidence" "tl_id t = lt_trial_id l"
    "tl_release_commit t = bk_release_commit b" "tl_token t = clean_address (Some (en_token n))"
    "tl_market t = clean_address (Some (en_market n))"
  using newest_Some [OF assms [unfolded matching_lot_def]]
  by (auto simp: set_map_filter dest!: find_result)

lemma reservation_of_Some:
  "reservation_of s release rid = Some r \<Longrightarrow> r \<in> set (cs_reservations s) \<and> rr_reservation_id r = rid \<and> rr_release_commit r = release"
  by (auto simp: reservation_of_def dest!: find_result)

lemma lineage_of_None: "lineage_of st i = None \<Longrightarrow> i \<notin> ln_trial_id ` set (sh_lineage st)"
  by (auto simp: lineage_of_def find_None_iff)

lemma lineage_of_Some: "lineage_of st i = Some n \<Longrightarrow> n \<in> set (sh_lineage st) \<and> ln_trial_id n = i"
  by (auto simp: lineage_of_def dest!: find_result)

lemma line_lot_other:
  assumes "line_lot b n" and "ln_trial_id n \<noteq> i"
  shows "line_lot (set_reservation i rid b) n"
proof -
  obtain t l where tl: "ln_release_commit n = bk_release_commit b" "t \<in> set (bk_trials b)" "l \<in> set (bk_lots b)"
      "tl_id t = ln_trial_id n" "tl_release_commit t = bk_release_commit b"
      "tl_capital_reservation_id t = Some (ln_current_reservation_id n)"
      "lt_trial_id l = ln_trial_id n" "lt_remaining_fraction l \<le> ln_accounted_remaining_fraction n"
      "take 20 (ln_current_reservation_id n) = ''robinhood-v52:trial:''
       \<or> ln_current_reservation_id n = entry_name (tl_token t) (tl_market t) (lt_evidence_fingerprint l)
          \<and> length (tl_token t) = 42 \<and> length (tl_market t) = 42"
    using assms(1) by (rule line_lotE)
  have "t \<in> set (bk_trials (set_reservation i rid b))" "l \<in> set (bk_lots (set_reservation i rid b))"
    using tl assms(2) by (force intro: image_eqI)+
  with tl show ?thesis unfolding line_lot_def set_reservation_simps(1) by blast
qed

lemma line_lot_own:
  assumes "t \<in> set (bk_trials b)" and "l \<in> set (bk_lots b)" and "ln_release_commit n = bk_release_commit b"
    and "tl_id t = ln_trial_id n" and "tl_release_commit t = bk_release_commit b" and "lt_trial_id l = ln_trial_id n"
    and "lt_remaining_fraction l \<le> ln_accounted_remaining_fraction n" and "i = ln_trial_id n" and "rid = ln_current_reservation_id n"
    and "take 20 rid = ''robinhood-v52:trial:''
       \<or> rid = entry_name (tl_token t) (tl_market t) (lt_evidence_fingerprint l) \<and> length (tl_token t) = 42 \<and> length (tl_market t) = 42"
  shows "line_lot (set_reservation i rid b) n"
proof -
  define t' where "t' = t\<lparr>tl_capital_reservation_id := Some rid\<rparr>"
  define l' where "l' = l\<lparr>lt_capital_reservation_id := Some rid\<rparr>"
  have "t' \<in> set (bk_trials (set_reservation i rid b))" "l' \<in> set (bk_lots (set_reservation i rid b))"
    using assms by (auto simp: t'_def l'_def intro!: image_eqI)
  moreover have "tl_id t' = tl_id t" "tl_release_commit t' = tl_release_commit t" "tl_token t' = tl_token t" "tl_market t' = tl_market t"
      "tl_capital_reservation_id t' = Some rid" "lt_trial_id l' = lt_trial_id l"
      "lt_remaining_fraction l' = lt_remaining_fraction l" "lt_evidence_fingerprint l' = lt_evidence_fingerprint l"
    by (simp_all add: t'_def l'_def)
  ultimately show ?thesis
    using assms(3-10) unfolding line_lot_def set_reservation_simps(1) by (intro conjI bexI [of _ t'] bexI [of _ l']) auto
qed

lemma clean_length: "clean_address a \<noteq> [] \<Longrightarrow> length (clean_address a) = 42 \<and> take 2 (clean_address a) = ''0x''"
  by (auto simp: clean_address_def Let_def split: if_splits)

lemma entry_reservation_idE:
  assumes "entry_reservation_id release n evidence = Inr rid"
  shows "rid = entry_name (clean_address (Some (en_token n))) (clean_address (Some (en_market n))) evidence"
    "length (clean_address (Some (en_token n))) = 42" "length (clean_address (Some (en_market n))) = 42"
    "take 2 (clean_address (Some (en_token n))) = ''0x''" "evidence \<noteq> []"
  using assms clean_length [of "Some (en_token n)"] clean_length [of "Some (en_market n)"]
  by (auto simp: entry_reservation_id_def entry_name_def Let_def split: if_splits)

lemma link_cases:
  assumes "link_reservation now (l, t) rid st = (reply, st')"
  shows "st' = st \<and> reply \<noteq> Inr () \<or> (\<exists>r. reservation_of (sh_capital st) (tl_release_commit t) rid = Some r \<and> rr_status r = Active
     \<and> max 0 (lt_remaining_fraction l) \<le> rr_reserved_fraction r + ROUNDING
     \<and> trial_reservations_unique (set_reservation (lt_trial_id l) rid (sh_book st)) \<and> reply = Inr ()
     \<and> st' = st\<lparr>sh_book := set_reservation (lt_trial_id l) rid (sh_book st),
          sh_lineage := upsert_lineage (new_lineage now l (tl_release_commit t) rid) (sh_lineage st)\<rparr>)"
proof (cases "reservation_of (sh_capital st) (tl_release_commit t) rid")
  case None
  with assms show ?thesis by (auto simp: link_reservation_def Let_def)
next
  case (Some r)
  define b where "b = set_reservation (lt_trial_id l) rid (sh_book st)"
  have small: "rr_reserved_fraction r + 1 / 10 ^ 12 < max 0 (lt_remaining_fraction l)
      \<longleftrightarrow> \<not> max 0 (lt_remaining_fraction l) \<le> rr_reserved_fraction r + ROUNDING"
    by (simp only: ROUNDING_def not_le)
  show ?thesis
    using assms unfolding link_reservation_def Let_def split_conv Some option.case b_def [symmetric] small
    by (cases "rr_status r = Active"; cases "max 0 (lt_remaining_fraction l) \<le> rr_reserved_fraction r + ROUNDING";
        cases "trial_reservations_unique b") (simp_all del: max.bounded_iff, auto simp del: max.bounded_iff)
qed

lemma link_keeps:
  assumes ok: "shared_ok st" and m: "matching_lot (sh_book st) n evidence = Some (l, t)"
    and rid: "entry_reservation_id (bk_release_commit (sh_book st)) n evidence = Inr rid"
    and fresh: "lineage_of st (lt_trial_id l) = None"
    and call: "link_reservation now (l, t) rid st = (reply, st')"
  shows "shared_ok st' \<and> (reply = Inr () \<longrightarrow> (\<exists>line\<in>set (sh_lineage st'). ln_trial_id line = lt_trial_id l
     \<and> ln_current_reservation_id line = rid \<and> ln_accounted_remaining_fraction line = max 0 (lt_remaining_fraction l)))"
proof (cases "st' = st \<and> reply \<noteq> Inr ()")
  case False
  note m' = matching_lot_Some [OF m] and rid' = entry_reservation_idE [OF rid]
  define line where "line = new_lineage now l (tl_release_commit t) rid"
  define b where "b = set_reservation (lt_trial_id l) rid (sh_book st)"
  obtain r where r: "reservation_of (sh_capital st) (tl_release_commit t) rid = Some r" "rr_status r = Active"
      "max 0 (lt_remaining_fraction l) \<le> rr_reserved_fraction r + ROUNDING" "trial_reservations_unique b" "reply = Inr ()"
      "st' = st\<lparr>sh_book := b, sh_lineage := upsert_lineage line (sh_lineage st)\<rparr>"
    using link_cases [OF call] False unfolding line_def b_def by blast
  have line: "ln_trial_id line = lt_trial_id l" "ln_release_commit line = tl_release_commit t" "ln_current_reservation_id line = rid"
      "ln_accounted_remaining_fraction line = max 0 (lt_remaining_fraction l)"
    by (simp_all add: line_def new_lineage_def)
  have new: "lt_trial_id l \<notin> ln_trial_id ` set (sh_lineage st)" by (rule lineage_of_None [OF fresh])
  have lineage: "sh_lineage st' = sh_lineage st @ [line]" using new by (simp add: r(6) upsert_lineage_def line(1))
  have old: "line_lot b k" "line_backed (sh_book st) (sh_capital st) k" if "k \<in> set (sh_lineage st)" for k
  proof -
    have "ln_trial_id k \<noteq> lt_trial_id l" using that new by (metis imageI)
    then show "line_lot b k" "line_backed (sh_book st) (sh_capital st) k"
      using shared_okD(6, 7) [OF ok that] unfolding b_def by (simp_all add: line_lot_other)
  qed
  have "line_lot b line"
    unfolding b_def using m' rid' line by (intro line_lot_own [of t _ l]) auto
  moreover have "line_backed (sh_book st) (sh_capital st) line"
    unfolding line_backed_def using reservation_of_Some [OF r(1)] r(2, 3) line by (intro bexI [of _ r]) auto
  ultimately have "shared_ok st'"
    using shared_okD(1-5) [OF ok] old r(4) new lineage line(1) book_ok_set_reservation [OF shared_okD(1) [OF ok]]
    by (auto simp: shared_ok_def r(6) b_def)
  then show ?thesis using lineage line by auto
qed (use ok in simp)

lemma recover_keeps:
  assumes ok: "shared_ok st" and rid: "entry_reservation_id (bk_release_commit (sh_book st)) n evidence = Inr rid"
    and call: "recover_entry_link now n evidence rid st = (reply, st')"
  shows "shared_ok st'" "reply = Inr False \<longleftrightarrow> matching_lot (sh_book st) n evidence = None" "reply = Inr False \<Longrightarrow> st' = st"
proof -
  show none: "reply = Inr False \<longleftrightarrow> matching_lot (sh_book st) n evidence = None"
    using call by (auto simp: recover_entry_link_def Let_def split: option.splits prod.splits if_splits sum.splits)
  show "reply = Inr False \<Longrightarrow> st' = st"
    using call by (auto simp: recover_entry_link_def Let_def split: option.splits prod.splits if_splits sum.splits)
  show "shared_ok st'"
  proof (cases "matching_lot (sh_book st) n evidence")
    case None
    with call ok show ?thesis by (simp add: recover_entry_link_def)
  next
    case (Some lt)
    obtain l t where lt: "lt = (l, t)" by (cases lt)
    note m = Some [unfolded lt]
    define existing where "existing = or_text (lt_capital_reservation_id l) (or_text (tl_capital_reservation_id t) [])"
    have "lineage_of st (lt_trial_id l) = None" if "existing = []"
    proof (rule ccontr)
      assume "lineage_of st (lt_trial_id l) \<noteq> None"
      then obtain line where line: "line \<in> set (sh_lineage st)" "ln_trial_id line = lt_trial_id l"
        using lineage_of_Some by (cases "lineage_of st (lt_trial_id l)") auto
      obtain u where u: "u \<in> set (bk_trials (sh_book st))" "tl_id u = ln_trial_id line"
          "tl_capital_reservation_id u = Some (ln_current_reservation_id line)"
        by (rule line_lotE [OF shared_okD(6) [OF ok line(1)]])
      have "u = t"
        using book_okD(4) [OF shared_okD(1) [OF ok]] matching_lot_Some [OF m] u line(2) by (auto simp: distinct_map inj_on_def)
      moreover have "ln_current_reservation_id line \<noteq> []"
        using line_identity [OF shared_okD(6) [OF ok line(1)]] by (auto simp: lane_identity_def)
      ultimately show False using that u(3) by (auto simp: existing_def or_text_def split: option.splits if_splits)
    qed
    moreover obtain reply' st'' where l: "link_reservation now (l, t) rid st = (reply', st'')" by force
    ultimately show ?thesis
      using call ok link_keeps [OF ok m rid _ l]
      by (auto simp: recover_entry_link_def m Let_def existing_def [symmetric] l split: if_splits sum.splits)
  qed
qed


lemma entry_name_inject:
  assumes "entry_name t m e = entry_name t' m' e'" and "length t = 42" "length t' = 42" "length m = 42" "length m' = 42"
  shows "t = t' \<and> m = m' \<and> e = e'"
  using assms by (simp add: entry_name_def append_eq_append_conv)

lemma entry_not_residual:
  assumes "take 2 token = ''0x''"
  shows "take 20 (entry_name token market evidence) \<noteq> ''robinhood-v52:trial:''"
proof
  assume eq: "take 20 (entry_name token market evidence) = ''robinhood-v52:trial:''"
  obtain rest where token: "token = ''0x'' @ rest" using assms by (metis append_take_drop_id)
  have "take 20 (entry_name token market evidence) ! 14 = CHR ''0''" by (simp add: entry_name_def token)
  then show False unfolding eq by simp
qed

lemma no_line_named:
  assumes ok: "shared_ok st" and none: "matching_lot (sh_book st) n evidence = None"
    and rid: "entry_reservation_id (bk_release_commit (sh_book st)) n evidence = Inr rid" and k: "k \<in> set (sh_lineage st)"
  shows "rid \<noteq> ln_current_reservation_id k"
proof
  assume same: "rid = ln_current_reservation_id k"
  note rid' = entry_reservation_idE [OF rid]
  obtain t l where tl: "t \<in> set (bk_trials (sh_book st))" "l \<in> set (bk_lots (sh_book st))" "tl_id t = ln_trial_id k"
      "tl_release_commit t = bk_release_commit (sh_book st)" "lt_trial_id l = ln_trial_id k"
      "take 20 rid = ''robinhood-v52:trial:''
       \<or> rid = entry_name (tl_token t) (tl_market t) (lt_evidence_fingerprint l) \<and> length (tl_token t) = 42 \<and> length (tl_market t) = 42"
    by (rule line_lotE [OF shared_okD(6) [OF ok k]]) (simp add: same)
  then have "tl_token t = clean_address (Some (en_token n)) \<and> tl_market t = clean_address (Some (en_market n))
      \<and> lt_evidence_fingerprint l = evidence"
    using entry_not_residual [OF rid'(4)] rid' entry_name_inject by metis
  then show False using matching_lot_None [OF none tl(2) _ tl(1)] tl(3-5) by simp
qed

lemma reserve_entry_keeps:
  assumes ok: "shared_ok st" and rid: "entry_reservation_id (bk_release_commit (sh_book st)) n evidence = Inr rid"
    and call: "reserve_entry c rid cand fraction st = (reply, st')"
  shows "shared_ok st'" "sh_book st' = sh_book st" "sh_lineage st' = sh_lineage st"
proof -
  obtain s where s: "reserve_paper_capital c (bk_release_commit (sh_book st)) rid ''robinhood'' cand
      (Number fraction) (Number DEFAULT_CAPACITY_FRACTION) False (Number fraction) (sh_capital st) = (reply, s)"
      "st' = st\<lparr>sh_capital := s\<rparr>"
    using call by (auto simp: reserve_entry_def split: prod.splits)
  have "finite_fraction (Number DEFAULT_CAPACITY_FRACTION) \<le> 1" by (simp add: DEFAULT_CAPACITY_FRACTION_def)
  note r = reserve_call [OF shared_okD(2) [OF ok] this s(1)]
  have "rr_release_commit q = bk_release_commit (sh_book st)"
    if "q \<in> set (cs_reservations s)" "lane_identity (rr_reservation_id q)" for q
    using r(3) that shared_okD(5) [OF ok] by blast
  moreover have "line_backed (sh_book st) s k" if "k \<in> set (sh_lineage st)" for k
    using shared_okD(7) [OF ok that] r(2) by (rule line_backed_more)
  ultimately show "shared_ok st'" using shared_okD(1, 3, 4, 6) [OF ok] r(1) by (simp add: shared_ok_def s(2))
  show "sh_book st' = sh_book st" "sh_lineage st' = sh_lineage st" by (simp_all add: s(2))
qed

lemma cancel_releases:
  "cancel_paper_capital c release rid reason s = (reply, s') \<Longrightarrow> q \<in> set (cs_reservations s') \<Longrightarrow>
     \<exists>r\<in>set (cs_reservations s). rr_reservation_id r = rr_reservation_id q \<and> rr_release_commit r = rr_release_commit q"
  by (auto simp: cancel_paper_capital_def Let_def update_active_def metric_def split: sum.splits if_splits) blast+

lemma cancel_entry_keeps:
  assumes ok: "shared_ok st" and none: "matching_lot (sh_book st) n evidence = None"
    and rid: "entry_reservation_id (bk_release_commit (sh_book st)) n evidence = Inr rid"
    and call: "cancel_unlinked_reservation c rid st = (reply, st')"
  shows "shared_ok st'"
proof -
  obtain s where s: "cancel_paper_capital c (bk_release_commit (sh_book st)) rid ''v52_robinhood_entry_not_persisted''
      (sh_capital st) = (reply, s)" "st' = st\<lparr>sh_capital := s\<rparr>"
    using call by (auto simp: cancel_unlinked_reservation_def split: prod.splits)
  note c = cancel_call [OF shared_okD(2) [OF ok] s(1)]
  have rows: "rr_release_commit q = bk_release_commit (sh_book st)"
    if "q \<in> set (cs_reservations s)" "lane_identity (rr_reservation_id q)" for q
    using cancel_releases [OF s(1) that(1)] that(2) shared_okD(5) [OF ok] by metis
  have "line_backed (sh_book st) s k" if "k \<in> set (sh_lineage st)" for k
    using line_backed_frame [OF shared_okD(7) [OF ok that] conjunct2 [OF c]] no_line_named [OF ok none rid that] by blast
  with rows show ?thesis using shared_okD(1, 3, 4, 6) [OF ok] c by (simp add: shared_ok_def s(2))
qed

lemma validate_refused:
  "validate_and_commit quote latency now n b = (r, b') \<Longrightarrow> r \<noteq> Inr True \<Longrightarrow> b' = b"
  using validate_cases [of quote latency now n b] persist_lot_cases [of now n _ b] by (metis prod.inject)

lemma commit_entry_keeps:
  assumes ok: "shared_ok st" and none: "matching_lot (sh_book st) n evidence = None"
    and rid: "entry_reservation_id (bk_release_commit (sh_book st)) n evidence = Inr rid"
    and call: "commit_entry c quote latency now n evidence rid st = (reply, st')"
  shows "shared_ok st'"
proof -
  obtain r b where v: "validate_and_commit quote latency now n (sh_book st) = (r, b)" by force
  have same: "st\<lparr>sh_book := sh_book st\<rparr> = st" by simp
  show ?thesis
  proof (cases "r = Inr True")
    case True
    have ok': "shared_ok (st\<lparr>sh_book := b\<rparr>)"
      using validate_ok [OF shared_okD(1) [OF ok], of quote latency now n] v by (intro shared_ok_book [OF ok validate_grows [OF v]]) simp
    have "bk_release_commit b = bk_release_commit (sh_book st)" using validate_grows [OF v] by (simp add: grows_def)
    then have rid': "entry_reservation_id (bk_release_commit (sh_book (st\<lparr>sh_book := b\<rparr>))) n evidence = Inr rid" using rid by simp
    obtain r' st1 where l: "recover_entry_link now n evidence rid (st\<lparr>sh_book := b\<rparr>) = (r', st1)" by force
    have "st' = st1" using call v True l by (auto simp: commit_entry_def split: sum.splits bool.splits)
    with recover_keeps(1) [OF ok' rid' l] show ?thesis by simp
  next
    case False
    then have b: "b = sh_book st" using validate_refused [OF v] by simp
    obtain r' st1 where l: "cancel_unlinked_reservation c rid st = (r', st1)" by force
    have "st' = st1" using call v False l by (auto simp: commit_entry_def b split: sum.splits bool.splits)
    with cancel_entry_keeps [OF ok none rid l] show ?thesis by simp
  qed
qed

lemma shared_validate_keeps:
  assumes ok: "shared_ok st" and call: "validate_with_shared_capital c c' quote latency now n st = (reply, st')"
  shows "shared_ok st'"
proof -
  define evidence where "evidence = (case dict_get (bk_pending (sh_book st)) (clean_address (Some (en_token n))) of
      None \<Rightarrow> [] | Some pd \<Rightarrow> pd_evidence_fingerprint pd)"
  show ?thesis
  proof (cases "evidence = []")
    case True
    obtain r b where v: "validate_and_commit quote latency now n (sh_book st) = (r, b)" by force
    have "st' = st\<lparr>sh_book := b\<rparr>"
      using call v True by (simp add: validate_with_shared_capital_def Let_def evidence_def)
    then show ?thesis
      using validate_ok [OF shared_okD(1) [OF ok], of quote latency now n] v by (simp add: shared_ok_book [OF ok validate_grows [OF v]])
  next
    case evidence: False
    show ?thesis
    proof (cases "entry_reservation_id (bk_release_commit (sh_book st)) n evidence")
      case (Inl e)
      with call evidence ok show ?thesis by (simp add: validate_with_shared_capital_def Let_def evidence_def)
    next
      case rid: (Inr rid)
      obtain r1 st1 where r1: "recover_entry_link now n evidence rid st = (r1, st1)" by force
      note k1 = recover_keeps [OF ok rid r1]
      have step: "(reply, st') = (case r1 of Inl e \<Rightarrow> (Inl e, st1) | Inr True \<Rightarrow> (Inr True, st1) | Inr False \<Rightarrow>
          (let fraction = max 0 (en_fraction n) in
           if fraction \<le> 0 then (Inr False, st1) else
           case reserve_entry c rid evidence fraction st1 of
             (Inl e, st2) \<Rightarrow> (Inl e, st2)
           | (Inr reply, st2) \<Rightarrow>
               if rr_status (rp_row reply) \<noteq> Active then (Inr False, st2)
               else if rr_reserved_fraction (rp_row reply) + 1 / 10 ^ 12 < fraction then (Inr False, st2)
               else commit_entry c' quote latency now n evidence rid st2))"
        using call evidence rid r1 unfolding validate_with_shared_capital_def Let_def evidence_def [symmetric]
        by (simp split: sum.splits bool.splits)
      show ?thesis
      proof (cases "r1 = Inr False")
        case False
        with step k1(1) show ?thesis by (auto split: sum.splits bool.splits)
      next
        case True
        then have st1: "st1 = st" "matching_lot (sh_book st) n evidence = None" using k1(2, 3) by simp_all
        obtain r2 st2 where r2: "reserve_entry c rid evidence (max 0 (en_fraction n)) st = (r2, st2)" by force
        note k2 = reserve_entry_keeps [OF ok rid r2]
        obtain r3 st3 where r3: "commit_entry c' quote latency now n evidence rid st2 = (r3, st3)" by force
        have k3: "shared_ok st3" using k2 st1(2) rid by (intro commit_entry_keeps [OF k2(1) _ _ r3]) simp_all
        have "st' = st \<or> st' = st2 \<or> st' = st3"
          using step True st1(1) r2 r3 by (auto simp: Let_def split: sum.splits if_splits)
        with ok k2(1) k3 show ?thesis by auto
      qed
    qed
  qed
qed


subsection \<open>Exits keep it\<close>

definition accounted :: "datetime \<Rightarrow> string \<Rightarrow> nat \<Rightarrow> release_delta \<Rightarrow> lineage_row \<Rightarrow> lineage_row" where
  "accounted now rid sequence d n = n\<lparr>ln_current_reservation_id := rid, ln_accounted_remaining_fraction := rd_remaining d,
     ln_accounted_realized_exit_net_wei := rd_realized_net d, ln_accounted_sold_cost_wei := rd_sold_cost d,
     ln_settlement_sequence := sequence, ln_updated_at := now\<rparr>"

lemma accounted_simps [simp]:
  "ln_trial_id (accounted now rid sequence d n) = ln_trial_id n" "ln_release_commit (accounted now rid sequence d n) = ln_release_commit n"
  "ln_current_reservation_id (accounted now rid sequence d n) = rid"
  "ln_accounted_remaining_fraction (accounted now rid sequence d n) = rd_remaining d"
  "ln_accounted_realized_exit_net_wei (accounted now rid sequence d n) = rd_realized_net d"
  "ln_accounted_sold_cost_wei (accounted now rid sequence d n) = rd_sold_cost d"
  by (simp_all add: accounted_def)

lemma account_alt: "account now i rid sequence d rows = map (\<lambda>n. if ln_trial_id n = i then accounted now rid sequence d n else n) rows"
  by (simp add: account_def accounted_def)

definition slice_return :: "release_delta \<Rightarrow> real" where
  "slice_return d = real_of_int (rd_net d) / real_of_int (max 1 (rd_cost d)) - 1"

definition slice_row :: "datetime \<Rightarrow> release_delta \<Rightarrow> reservation_row \<Rightarrow> reservation_row" where
  "slice_row now d q = q\<lparr>rr_status := Settled, rr_reason := ''v52_robinhood_realized_slice'',
     rr_net_return := Some (slice_return d), rr_realized_contribution := Some (rd_fraction d * slice_return d), rr_updated_at := now\<rparr>"

text \<open>The store after a slice, before a residual reservation is added.\<close>

definition sliced :: "datetime \<Rightarrow> nat \<Rightarrow> lineage_row \<Rightarrow> release_delta \<Rightarrow> reservation_row \<Rightarrow> capital_store \<Rightarrow> capital_store" where
  "sliced now i n d r s = s\<lparr>cs_reservations := rewrite_row r (slice_row now d) (cs_reservations s),
     cs_settlements := cs_settlements s @ [slice_settlement now (ln_release_commit n) i (Suc (ln_settlement_sequence n))
       (ln_current_reservation_id n) (slice_return d) (rd_fraction d * slice_return d) s]\<rparr>"

lemma identity_rows:
  assumes rows: "rows_ok (cs_reservations s)" and r: "r \<in> set (cs_reservations s)"
  shows "map (\<lambda>q. if rr_release_commit q = rr_release_commit r \<and> rr_reservation_id q = rr_reservation_id r then f q else q)
      (cs_reservations s) = rewrite_row r f (cs_reservations s)"
proof -
  have "(rr_release_commit q = rr_release_commit r \<and> rr_reservation_id q = rr_reservation_id r) = (rr_id q = rr_id r)"
    if "q \<in> set (cs_reservations s)" for q
    using that rows r by (auto simp: rows_ok_def distinct_map dest: inj_onD)
  then show ?thesis unfolding rewrite_row_def by (intro map_cong) auto
qed

lemma settle_slice_cases:
  assumes rows: "rows_ok (cs_reservations (sh_capital st))"
    and r: "r \<in> set (cs_reservations (sh_capital st))" "rr_release_commit r = ln_release_commit n"
      "rr_reservation_id r = ln_current_reservation_id n"
    and call: "settle_slice now i n d r st = (reply, st')"
  shows "(st' = st \<and> reply \<noteq> Inr ()) \<or>
    (\<not> rd_remaining d > ROUNDING \<and> reply = Inr ()
      \<and> st' = st\<lparr>sh_capital := sliced now i n d r (sh_capital st),
           sh_lineage := account now i (ln_current_reservation_id n) (Suc (ln_settlement_sequence n)) d (sh_lineage st)\<rparr>) \<or>
    (rd_remaining d > ROUNDING \<and> reply = Inr ()
      \<and> (\<forall>q\<in>set (cs_reservations (sh_capital st)). rr_release_commit q = ln_release_commit n \<longrightarrow>
            rr_reservation_id q \<noteq> residual_id i (Suc (ln_settlement_sequence n)))
      \<and> trial_reservations_unique (set_reservation i (residual_id i (Suc (ln_settlement_sequence n))) (sh_book st))
      \<and> st' = st\<lparr>sh_book := set_reservation i (residual_id i (Suc (ln_settlement_sequence n))) (sh_book st),
           sh_capital := (let s = sliced now i n d r (sh_capital st) in s\<lparr>cs_reservations := cs_reservations s
             @ [residual_reservation now (ln_release_commit n) i (Suc (ln_settlement_sequence n)) (rd_remaining d) s]\<rparr>),
           sh_lineage := account now i (residual_id i (Suc (ln_settlement_sequence n))) (Suc (ln_settlement_sequence n)) d (sh_lineage st)\<rparr>)"
proof -
  define s0 where "s0 = (sh_capital st)\<lparr>cs_reservations := rewrite_row r (slice_row now d) (cs_reservations (sh_capital st))\<rparr>"
  define t where "t = slice_settlement now (ln_release_commit n) i (Suc (ln_settlement_sequence n)) (ln_current_reservation_id n)
     (slice_return d) (rd_fraction d * slice_return d) s0"
  have s0: "(sh_capital st)\<lparr>cs_reservations := map (\<lambda>q. if rr_release_commit q = ln_release_commit n
      \<and> rr_reservation_id q = ln_current_reservation_id n then slice_row now d q else q) (cs_reservations (sh_capital st))\<rparr> = s0"
    using identity_rows [OF rows r(1), of "slice_row now d"] r(2, 3) by (simp add: s0_def)
  have t: "sliced now i n d r (sh_capital st) = s0\<lparr>cs_settlements := cs_settlements s0 @ [t]\<rparr>"
    by (simp add: sliced_def s0_def t_def slice_settlement_def)
  have small: "(rd_remaining d > 1 / 10 ^ 12) = (rd_remaining d > ROUNDING)" by (simp add: ROUNDING_def)
  show ?thesis
  proof (cases "insert_settlement t s0")
    case (Inl e)
    with call show ?thesis
      unfolding settle_slice_def Let_def slice_return_def [symmetric] slice_row_def [symmetric] s0 t_def [symmetric] by (intro disjI1) auto
  next
    case (Inr s1)
    then have s1: "s1 = sliced now i n d r (sh_capital st)" unfolding t by (auto simp: insert_settlement_def split: if_splits)
    define b where "b = set_reservation i (residual_id i (Suc (ln_settlement_sequence n))) (sh_book st)"
    define q where "q = residual_reservation now (ln_release_commit n) i (Suc (ln_settlement_sequence n)) (rd_remaining d) s1"
    have q: "rr_release_commit q = ln_release_commit n" "rr_reservation_id q = residual_id i (Suc (ln_settlement_sequence n))"
      by (simp_all add: q_def residual_reservation_def)
    have keys: "(\<exists>y\<in>set (cs_reservations s1). rr_release_commit y = rr_release_commit q \<and> rr_reservation_id y = rr_reservation_id q)
        \<longleftrightarrow> \<not> (\<forall>y\<in>set (cs_reservations (sh_capital st)). rr_release_commit y = ln_release_commit n \<longrightarrow>
            rr_reservation_id y \<noteq> residual_id i (Suc (ln_settlement_sequence n)))"
    proof -
      define key where "key = (\<lambda>y :: reservation_row. (rr_release_commit y, rr_reservation_id y))"
      have "key ` set (cs_reservations s1) = key ` set (cs_reservations (sh_capital st))"
      proof -
        have rewritten: "cs_reservations s1 = map (\<lambda>y. if rr_id y = rr_id r then slice_row now d y else y) (cs_reservations (sh_capital st))"
          by (simp add: s1 sliced_def rewrite_row_def)
        show ?thesis unfolding rewritten by (rule column_unchanged(2)) (simp add: key_def slice_row_def)
      qed
      then have "key q \<in> key ` set (cs_reservations s1) \<longleftrightarrow> key q \<in> key ` set (cs_reservations (sh_capital st))" by simp
      then show ?thesis unfolding key_def q by (auto simp: image_iff) metis+
    qed
    have step: "(if \<not> rd_remaining d > ROUNDING
        then (Inr (), st\<lparr>sh_capital := s1, sh_lineage := account now i (ln_current_reservation_id n) (Suc (ln_settlement_sequence n)) d (sh_lineage st)\<rparr>)
        else (case insert_reservation q s1 of Inl e \<Rightarrow> (Inl e, st)
          | Inr s2 \<Rightarrow> if \<not> trial_reservations_unique b then (Inl (IntegrityError ''UNIQUE(release_commit,capital_reservation_id)''), st)
              else (Inr (), st\<lparr>sh_book := b, sh_capital := s2,
                sh_lineage := account now i (residual_id i (Suc (ln_settlement_sequence n))) (Suc (ln_settlement_sequence n)) d (sh_lineage st)\<rparr>))) = (reply, st')"
      using call
      unfolding settle_slice_def Let_def slice_return_def [symmetric] slice_row_def [symmetric] s0 t_def [symmetric] small
        b_def [symmetric] Inr sum.case q_def .
    then show ?thesis
      unfolding b_def [symmetric] s1 [symmetric] Let_def q_def [symmetric]
      using keys by (auto simp: insert_reservation_def split: if_splits)
  qed
qed


lemma residual_identity: "take 20 (residual_id i k) = ''robinhood-v52:trial:''"
  by (simp add: residual_id_def)

lemma sliced_within:
  assumes s: "within_capacity 1 s" and r: "r \<in> set (cs_reservations s)" "rr_status r = Active"
  shows "within_capacity (1 - rr_reserved_fraction r) (sliced now i n d r s)" "frame (rr_reservation_id r) s (sliced now i n d r s)"
    "\<exists>q\<in>set (cs_reservations (sliced now i n d r s)). rr_reservation_id q = rr_reservation_id r \<and> rr_release_commit q = rr_release_commit r"
proof -
  have f: "keeps_identity (slice_row now d)" "rr_status (slice_row now d r) \<noteq> Active"
    by (simp_all add: keeps_identity_def slice_row_def)
  have rows: "rows_ok (cs_reservations s)" using s by (simp add: within_capacity_def)
  show "within_capacity (1 - rr_reserved_fraction r) (sliced now i n d r s)"
    using within_capacity_rewrite(1) [OF s r f] by (simp add: within_capacity_def sliced_def)
  show "frame (rr_reservation_id r) s (sliced now i n d r s)"
    using within_capacity_rewrite(2) [OF s r f] by (simp add: frame_def sliced_def)
  have "slice_row now d r \<in> set (cs_reservations (sliced now i n d r s))"
    by (simp add: sliced_def rewrite_row_set [OF rows r(1)])
  then show "\<exists>q\<in>set (cs_reservations (sliced now i n d r s)). rr_reservation_id q = rr_reservation_id r \<and> rr_release_commit q = rr_release_commit r"
    by (intro bexI [of _ "slice_row now d r"]) (simp_all add: slice_row_def)
qed

lemma sliced_releases:
  assumes "rows_ok (cs_reservations s)" and "r \<in> set (cs_reservations s)" and "q \<in> set (cs_reservations (sliced now i n d r s))"
  shows "\<exists>y\<in>set (cs_reservations s). rr_reservation_id y = rr_reservation_id q \<and> rr_release_commit y = rr_release_commit q"
  using assms(2, 3) by (auto simp: sliced_def rewrite_row_set [OF assms(1, 2)] slice_row_def)

lemma line_lot_accounted:
  assumes "line_lot b n" and "\<And>l. l \<in> set (bk_lots b) \<Longrightarrow> lt_trial_id l = ln_trial_id n \<Longrightarrow> lt_remaining_fraction l \<le> rd_remaining d"
  shows "line_lot b (accounted now (ln_current_reservation_id n) k d n)"
  using assms(1) by (rule line_lotE) (use assms(2) in \<open>unfold line_lot_def accounted_simps, blast\<close>)

lemma line_lot_residual:
  assumes "line_lot b n" and "\<And>l. l \<in> set (bk_lots b) \<Longrightarrow> lt_trial_id l = ln_trial_id n \<Longrightarrow> lt_remaining_fraction l \<le> rd_remaining d"
  shows "line_lot (set_reservation (ln_trial_id n) (residual_id i k) b) (accounted now (residual_id i k) k' d n)"
proof -
  obtain t l where tl: "ln_release_commit n = bk_release_commit b" "t \<in> set (bk_trials b)" "l \<in> set (bk_lots b)"
      "tl_id t = ln_trial_id n" "tl_release_commit t = bk_release_commit b" "lt_trial_id l = ln_trial_id n"
    using assms(1) by (rule line_lotE)
  then show ?thesis
    using assms(2) [OF tl(3) tl(6)] residual_identity by (intro line_lot_own [of t _ l]) simp_all
qed

text \<open>Slicing the lot of a backed lineage. The rest never exceeds what was reserved, so the active
  reservations do not grow.\<close>

lemma settle_slice_keeps:
  assumes ok: "shared_ok st" and n: "n \<in> set (sh_lineage st)"
    and r: "reservation_of (sh_capital st) (ln_release_commit n) (ln_current_reservation_id n) = Some r" "rr_status r = Active"
    and lots: "\<And>l. l \<in> set (bk_lots (sh_book st)) \<Longrightarrow> lt_trial_id l = ln_trial_id n \<Longrightarrow> lt_remaining_fraction l = rd_remaining d"
    and d: "0 \<le> rd_remaining d" "rd_remaining d + ROUNDING < ln_accounted_remaining_fraction n"
    and call: "settle_slice now (ln_trial_id n) n d r st = (reply, st')"
  shows "shared_ok st'"
proof -
  note r' = reservation_of_Some [OF r(1)]
  have cap: "within_capacity 1 (sh_capital st)" by (rule shared_okD(2) [OF ok])
  then have rows: "rows_ok (cs_reservations (sh_capital st))" by (simp add: within_capacity_def)
  define s where "s = sliced now (ln_trial_id n) n d r (sh_capital st)"
  note sl = sliced_within [OF cap conjunct1 [OF r'] r(2), of now "ln_trial_id n" n d, folded s_def]
  have reserved: "rd_remaining d \<le> rr_reserved_fraction r"
  proof -
    obtain q where q: "q \<in> set (cs_reservations (sh_capital st))" "rr_reservation_id q = ln_current_reservation_id n"
      and held: "settled_trial (sh_book st) (ln_trial_id n) \<or> ln_accounted_remaining_fraction n \<le> ROUNDING
        \<or> ln_accounted_remaining_fraction n \<le> rr_reserved_fraction q + ROUNDING"
      using shared_okD(7) [OF ok n] unfolding line_backed_def by blast
    have same: "q = r" using rows q r' by (auto simp: rows_ok_def distinct_map inj_on_def)
    obtain l where l: "l \<in> set (bk_lots (sh_book st))" "lt_trial_id l = ln_trial_id n"
      by (rule line_lotE [OF shared_okD(6) [OF ok n]])
    have "rd_remaining d = 0" if "settled_trial (sh_book st) (ln_trial_id n)"
    proof -
      have "lot_ok (sh_book st) l" by (rule book_okD(7) [OF shared_okD(1) [OF ok] l(1)])
      then have "lt_remaining_fraction l = 0" using that l(2) by (auto simp: lot_ok_def)
      with lots [OF l] show ?thesis by simp
    qed
    moreover have "0 \<le> rr_reserved_fraction r" using rows r' by (simp add: rows_ok_def)
    ultimately show ?thesis using held d same by auto
  qed
  have other: "k = n \<or> (ln_trial_id k \<noteq> ln_trial_id n \<and> line_lot (sh_book st) k \<and> line_backed (sh_book st) s k)" if "k \<in> set (sh_lineage st)" for k
  proof (cases "k = n")
    case False
    then have "ln_trial_id k \<noteq> ln_trial_id n" using shared_okD(3) [OF ok] that n by (auto simp: distinct_map inj_on_def)
    moreover have "rr_reservation_id r \<noteq> ln_current_reservation_id k" using current_distinct [OF ok n that] r' False by auto
    ultimately show ?thesis using shared_okD(6) [OF ok that] line_backed_frame [OF shared_okD(7) [OF ok that] sl(2)] by simp
  qed simp
  have releases: "rr_release_commit q = bk_release_commit (sh_book st)"
    if "q \<in> set (cs_reservations s)" "lane_identity (rr_reservation_id q)" for q
    using sliced_releases [OF rows conjunct1 [OF r'], of q now "ln_trial_id n" n d] that shared_okD(5) [OF ok] unfolding s_def by metis
  have release: "ln_release_commit n = bk_release_commit (sh_book st)" using shared_okD(6) [OF ok n] by (simp add: line_lot_def)
  define k where "k = Suc (ln_settlement_sequence n)"
  consider "st' = st"
    | (whole) "\<not> rd_remaining d > ROUNDING" "st' = st\<lparr>sh_capital := s,
        sh_lineage := account now (ln_trial_id n) (ln_current_reservation_id n) k d (sh_lineage st)\<rparr>"
    | (part) q where "\<forall>q\<in>set (cs_reservations (sh_capital st)). rr_release_commit q = ln_release_commit n \<longrightarrow>
            rr_reservation_id q \<noteq> residual_id (ln_trial_id n) k"
        "trial_reservations_unique (set_reservation (ln_trial_id n) (residual_id (ln_trial_id n) k) (sh_book st))"
        "q = residual_reservation now (ln_release_commit n) (ln_trial_id n) k (rd_remaining d) s"
        "st' = st\<lparr>sh_book := set_reservation (ln_trial_id n) (residual_id (ln_trial_id n) k) (sh_book st),
           sh_capital := s\<lparr>cs_reservations := cs_reservations s @ [q]\<rparr>,
           sh_lineage := account now (ln_trial_id n) (residual_id (ln_trial_id n) k) k d (sh_lineage st)\<rparr>"
    using settle_slice_cases [OF rows _ _ _ call] r' unfolding s_def k_def Let_def by blast
  then show ?thesis
  proof cases
    case whole
    have own: "line_lot (sh_book st) (accounted now (ln_current_reservation_id n) k d n)"
      by (rule line_lot_accounted [OF shared_okD(6) [OF ok n]]) (simp add: lots)
    have own_backed: "line_backed (sh_book st) s (accounted now (ln_current_reservation_id n) k d n)"
      using sl(3) r' whole(1) by (auto simp: line_backed_def)
    have cap1: "within_capacity 1 s" using sl(1) rows r' by (auto intro: within_capacity_mono simp: rows_ok_def)
    have ids: "map ln_trial_id (sh_lineage st') = map ln_trial_id (sh_lineage st)"
      by (simp add: whole(2) account_alt column_unchanged)
    have st': "sh_book st' = sh_book st" "sh_capital st' = s"
        "sh_lineage st' = account now (ln_trial_id n) (ln_current_reservation_id n) k d (sh_lineage st)"
      by (simp_all add: whole(2))
    have lines: "line_lot (sh_book st) j \<and> line_backed (sh_book st) s j" if j: "j \<in> set (sh_lineage st')" for j
    proof -
      obtain m where m: "m \<in> set (sh_lineage st)"
          "j = (if ln_trial_id m = ln_trial_id n then accounted now (ln_current_reservation_id n) k d m else m)"
        using j unfolding st'(3) account_alt by auto
      show ?thesis
      proof (cases "ln_trial_id m = ln_trial_id n")
        case True
        then have "m = n" using other [OF m(1)] by auto
        with m(2) own own_backed show ?thesis by simp
      qed (use m other [OF m(1)] in auto)
    qed
    show ?thesis
      unfolding shared_ok_def st'(1, 2) ids using shared_okD(1, 3, 4) [OF ok] cap1 releases lines by simp
  next
    case (part q)
    let ?b = "set_reservation (ln_trial_id n) (residual_id (ln_trial_id n) k) (sh_book st)"
    define s2 where "s2 = s\<lparr>cs_reservations := cs_reservations s @ [q]\<rparr>"
    have q: "rr_id q = Suc (length (cs_reservations s))" "rr_portfolio_id q = CANONICAL_PORTFOLIO_ID" "rr_status q = Active"
        "rr_reserved_fraction q = rd_remaining d" "rr_release_commit q = ln_release_commit n"
        "rr_reservation_id q = residual_id (ln_trial_id n) k"
      by (simp_all add: part(3) residual_reservation_def)
    have fresh: "rr_reservation_id q \<notin> rr_reservation_id ` set (cs_reservations s)"
    proof
      assume "rr_reservation_id q \<in> rr_reservation_id ` set (cs_reservations s)"
      then obtain z where z: "z \<in> set (cs_reservations s)" "rr_reservation_id z = rr_reservation_id q" by (metis imageE)
      obtain y where y: "y \<in> set (cs_reservations (sh_capital st))" "rr_reservation_id y = rr_reservation_id z"
        using sliced_releases [OF rows conjunct1 [OF r'] z(1) [unfolded s_def]] by blast
      have same: "rr_reservation_id y = residual_id (ln_trial_id n) k" using y(2) z(2) q(6) by simp
      then have "rr_release_commit y = ln_release_commit n"
        using shared_okD(5) [OF ok y(1)] lane_identity_names(2) release by simp
      with part(1) y(1) same show False by blast
    qed
    have cap2: "within_capacity 1 s2"
      unfolding s2_def
    proof (rule within_capacity_append [OF _ fresh q(1, 2)])
      show "within_capacity 1 s" using sl(1) rows r' by (auto intro: within_capacity_mono simp: rows_ok_def)
      show "0 \<le> rr_reserved_fraction q" using d(1) q(4) by simp
      show "reserved_sum Active (cs_reservations s) + (if rr_status q = Active then rr_reserved_fraction q else 0) \<le> 1"
        using sl(1) reserved q(3, 4) by (simp add: within_capacity_def)
    qed
    have more: "set (cs_reservations s) \<subseteq> set (cs_reservations s2)" "q \<in> set (cs_reservations s2)" by (auto simp: s2_def)
    have own: "line_lot ?b (accounted now (residual_id (ln_trial_id n) k) k d n)"
      by (rule line_lot_residual [OF shared_okD(6) [OF ok n]]) (simp add: lots)
    have own_backed: "line_backed ?b s2 (accounted now (residual_id (ln_trial_id n) k) k d n)"
      using more(2) q ROUNDING_def unfolding line_backed_def by (intro bexI [of _ q]) auto
    have others: "line_lot ?b j \<and> line_backed ?b s2 j" if "j \<in> set (sh_lineage st)" "ln_trial_id j \<noteq> ln_trial_id n" for j
      using other [OF that(1)] that(2) line_backed_more [OF _ more(1)] by (auto intro: line_lot_other)
    have ids: "map ln_trial_id (sh_lineage st') = map ln_trial_id (sh_lineage st)"
      by (simp add: part(4) account_alt column_unchanged)
    have rel2: "rr_release_commit y = bk_release_commit (sh_book st)"
      if "y \<in> set (cs_reservations s2)" "lane_identity (rr_reservation_id y)" for y
      using that releases q(5) release by (auto simp: s2_def)
    have st': "sh_book st' = ?b" "sh_capital st' = s2"
        "sh_lineage st' = account now (ln_trial_id n) (residual_id (ln_trial_id n) k) k d (sh_lineage st)"
      by (simp_all add: part(4) s2_def)
    have lines: "line_lot ?b j \<and> line_backed ?b s2 j" if j: "j \<in> set (sh_lineage st')" for j
    proof -
      obtain m where m: "m \<in> set (sh_lineage st)"
          "j = (if ln_trial_id m = ln_trial_id n then accounted now (residual_id (ln_trial_id n) k) k d m else m)"
        using j unfolding st'(3) account_alt by auto
      show ?thesis
      proof (cases "ln_trial_id m = ln_trial_id n")
        case True
        then have "m = n" using other [OF m(1)] by auto
        with m(2) own own_backed show ?thesis by simp
      qed (use m others in simp)
    qed
    show ?thesis
      unfolding shared_ok_def st'(1, 2) ids
      using book_ok_set_reservation [OF shared_okD(1) [OF ok]] cap2 shared_okD(3) [OF ok] part(2) rel2 lines by simp
  qed (use ok in simp)
qed

end
