(* ===== verification/SharedRuns.thy ===== *)
theory SharedRuns
  imports SharedBooks
begin

text \<open>
  Runs of the shared paper capital: entries, settlements and restarts of the Robinhood lane,
  interleaved with calls that the other lanes make to the capital store.
\<close>

subsection \<open>Settlements keep it\<close>

lemma release_of_remaining: "rd_remaining (release_of l n) = max 0 (lt_remaining_fraction l)"
  "rd_fraction (release_of l n) = max 0 (max 0 (ln_accounted_remaining_fraction n) - max 0 (lt_remaining_fraction l))"
  by (simp_all add: release_of_def Let_def)

lemma settle_lot_delta_cases:
  assumes "settle_lot_delta now l n st = (reply, st')"
  shows "st' = st \<or> (\<exists>r. reservation_of (sh_capital st) (ln_release_commit n) (ln_current_reservation_id n) = Some r
     \<and> rr_status r = Active \<and> rd_remaining (release_of l n) + ROUNDING < ln_accounted_remaining_fraction n
     \<and> 0 < rd_cost (release_of l n) \<and> \<bar>max 0 (rr_reserved_fraction r) - ln_accounted_remaining_fraction n\<bar> \<le> 1 / 10 ^ 9
     \<and> settle_slice now (lt_trial_id l) n (release_of l n) r st = (reply, st'))"
proof (cases "st' = st")
  case False
  define d where "d = release_of l n"
  define prior where "prior = max 0 (ln_accounted_remaining_fraction n)"
  have call: "(if rd_remaining d > prior + 1 / 10 ^ 12
        then (Inl (RuntimeError ''v52_robinhood_capital_remaining_fraction_increased''), st)
      else if rd_fraction d \<le> 1 / 10 ^ 12 then
        (if rd_cost d \<noteq> 0 \<or> rd_net d \<noteq> 0
         then (Inl (RuntimeError ''v52_robinhood_capital_value_changed_without_fraction_release''), st)
         else (Inr (), st))
      else if rd_cost d \<le> 0 then (Inl (RuntimeError ''v52_robinhood_capital_release_missing_cost_basis''), st)
      else if ln_current_reservation_id n = []
        then (Inl (RuntimeError ''v52_robinhood_capital_current_reservation_missing''), st)
      else case reservation_of (sh_capital st) (ln_release_commit n) (ln_current_reservation_id n) of
        None \<Rightarrow> (Inl (RuntimeError ''v52_robinhood_capital_reservation_missing_during_release''), st)
      | Some r \<Rightarrow>
          if rr_status r \<noteq> Active
            then (Inl (RuntimeError ''v52_robinhood_capital_reservation_not_active_during_release''), st)
          else if abs (max 0 (rr_reserved_fraction r) - prior) > 1 / 10 ^ 9
            then (Inl (RuntimeError ''v52_robinhood_capital_reservation_lineage_mismatch''), st)
          else settle_slice now (lt_trial_id l) n d r st) = (reply, st')"
    using assms unfolding settle_lot_delta_def Let_def d_def [symmetric] prior_def [symmetric] .
  have pass: "\<not> rd_remaining d > prior + 1 / 10 ^ 12" "\<not> rd_fraction d \<le> 1 / 10 ^ 12" "\<not> rd_cost d \<le> 0"
      "ln_current_reservation_id n \<noteq> []"
    using call False by (auto split: if_splits)
  from call pass obtain r where r: "reservation_of (sh_capital st) (ln_release_commit n) (ln_current_reservation_id n) = Some r"
    using False by (cases "reservation_of (sh_capital st) (ln_release_commit n) (ln_current_reservation_id n)") auto
  have rest: "rr_status r = Active" "\<not> abs (max 0 (rr_reserved_fraction r) - prior) > 1 / 10 ^ 9"
      "settle_slice now (lt_trial_id l) n d r st = (reply, st')"
    using call pass r False by (auto split: if_splits)
  have "rd_fraction d = max 0 (prior - max 0 (lt_remaining_fraction l))"
    by (simp only: d_def release_of_remaining prior_def)
  with pass(2) have "ROUNDING < max 0 (prior - max 0 (lt_remaining_fraction l))"
    by (simp only: ROUNDING_def not_le)
  then have drop: "max 0 (lt_remaining_fraction l) + ROUNDING < prior" by (auto simp: max_def ROUNDING_def split: if_splits)
  then have prior: "prior = ln_accounted_remaining_fraction n" by (auto simp: prior_def max_def ROUNDING_def split: if_splits)
  show ?thesis
    using r rest drop pass(3) unfolding prior d_def by (intro disjI2 exI [of _ r]) (auto simp: release_of_remaining)
qed simp

lemma settle_slice_book:
  assumes "rows_ok (cs_reservations (sh_capital st))"
    and "r \<in> set (cs_reservations (sh_capital st)) \<and> rr_reservation_id r = ln_current_reservation_id n \<and> rr_release_commit r = ln_release_commit n"
    and "settle_slice now i n d r st = (reply, st')"
  shows "sh_book st' = sh_book st \<or> (\<exists>i rid. sh_book st' = set_reservation i rid (sh_book st))"
  using settle_slice_cases [OF assms(1) conjunct1 [OF assms(2)] conjunct2 [OF conjunct2 [OF assms(2)]]
      conjunct1 [OF conjunct2 [OF assms(2)]] assms(3)]
proof (elim disjE conjE)
  assume "st' = st"
  then show ?thesis by simp
next
  assume "st' = st\<lparr>sh_capital := sliced now i n d r (sh_capital st),
    sh_lineage := account now i (ln_current_reservation_id n) (Suc (ln_settlement_sequence n)) d (sh_lineage st)\<rparr>"
  then show ?thesis by (intro disjI1) (simp)
next
  let ?rid = "residual_id i (Suc (ln_settlement_sequence n))"
  assume "st' = st\<lparr>sh_book := set_reservation i ?rid (sh_book st),
    sh_capital := (let s = sliced now i n d r (sh_capital st) in s\<lparr>cs_reservations := cs_reservations s
      @ [residual_reservation now (ln_release_commit n) i (Suc (ln_settlement_sequence n)) (rd_remaining d) s]\<rparr>),
    sh_lineage := account now i ?rid (Suc (ln_settlement_sequence n)) d (sh_lineage st)\<rparr>"
  then have "sh_book st' = set_reservation i ?rid (sh_book st)" by simp
  then show ?thesis by blast
qed

lemma settle_lot_delta_keeps:
  assumes ok: "shared_ok st" and n: "lineage_of st (lt_trial_id l) = Some n"
    and lots: "\<And>k. k \<in> set (bk_lots (sh_book st)) \<Longrightarrow> lt_trial_id k = lt_trial_id l \<Longrightarrow> lt_remaining_fraction k = lt_remaining_fraction l"
    and call: "settle_lot_delta now l n st = (reply, st')"
  shows "shared_ok st' \<and> (sh_book st' = sh_book st \<or> (\<exists>i rid. sh_book st' = set_reservation i rid (sh_book st)))"
  using settle_lot_delta_cases [OF call]
proof (elim disjE exE conjE)
  fix r
  assume r: "reservation_of (sh_capital st) (ln_release_commit n) (ln_current_reservation_id n) = Some r" "rr_status r = Active"
    and d: "rd_remaining (release_of l n) + ROUNDING < ln_accounted_remaining_fraction n"
    and slice: "settle_slice now (lt_trial_id l) n (release_of l n) r st = (reply, st')"
  note n' = lineage_of_Some [OF n]
  have slice': "settle_slice now (ln_trial_id n) n (release_of l n) r st = (reply, st')" using slice n' by simp
  have "lt_remaining_fraction k = rd_remaining (release_of l n)"
    if k: "k \<in> set (bk_lots (sh_book st))" "lt_trial_id k = ln_trial_id n" for k
  proof -
    have "lt_remaining_fraction k = lt_remaining_fraction l" using k n' by (intro lots) simp_all
    moreover have "0 \<le> lt_remaining_fraction k" by (rule lot_fraction_nonneg [OF book_okD(7) [OF shared_okD(1) [OF ok] k(1)]])
    ultimately show ?thesis by (simp add: release_of_remaining)
  qed
  moreover have "0 \<le> rd_remaining (release_of l n)" by (simp add: release_of_remaining)
  ultimately have "shared_ok st'" using settle_slice_keeps [OF ok conjunct1 [OF n'] r _ _ d slice'] by blast
  moreover have "sh_book st' = sh_book st \<or> (\<exists>i rid. sh_book st' = set_reservation i rid (sh_book st))"
    by (rule settle_slice_book [OF _ _ slice']) (use shared_okD(2) [OF ok] r(1) in \<open>auto simp: within_capacity_def dest: reservation_of_Some\<close>)
  ultimately show ?thesis by blast
qed (use ok in auto)

lemma lots_set_reservation:
  assumes "k \<in> set (bk_lots (set_reservation i rid b))"
  shows "\<exists>k'\<in>set (bk_lots b). lt_trial_id k' = lt_trial_id k \<and> lt_remaining_fraction k' = lt_remaining_fraction k"
  using assms by auto

text \<open>The lots read at the start still hold what they held.\<close>

definition lots_agree :: "lot_row list \<Rightarrow> book \<Rightarrow> bool" where
  "lots_agree ls b \<longleftrightarrow> (\<forall>l\<in>set ls. \<forall>k\<in>set (bk_lots b). lt_trial_id k = lt_trial_id l \<longrightarrow>
     lt_remaining_fraction k = lt_remaining_fraction l)"

lemma lots_agreeD:
  "lots_agree ls b \<Longrightarrow> l \<in> set ls \<Longrightarrow> k \<in> set (bk_lots b) \<Longrightarrow> lt_trial_id k = lt_trial_id l \<Longrightarrow>
     lt_remaining_fraction k = lt_remaining_fraction l"
  unfolding lots_agree_def by blast

lemma lots_agree_tail: "lots_agree (l # ls) b \<Longrightarrow> lots_agree ls b"
  unfolding lots_agree_def by (meson list.set_intros(2))

lemma lots_agree_set_reservation:
  assumes "lots_agree ls b" and "b' = b \<or> (\<exists>i rid. b' = set_reservation i rid b)"
  shows "lots_agree ls b'"
proof -
  have "lots_agree ls (set_reservation i rid b)" for i rid
    unfolding lots_agree_def
  proof (intro ballI impI)
    fix l k
    assume l: "l \<in> set ls" and k: "k \<in> set (bk_lots (set_reservation i rid b))" and same: "lt_trial_id k = lt_trial_id l"
    obtain k' where "k' \<in> set (bk_lots b)" "lt_trial_id k' = lt_trial_id k" "lt_remaining_fraction k' = lt_remaining_fraction k"
      using lots_set_reservation [OF k] by blast
    with lots_agreeD [OF assms(1) l, of k'] same show "lt_remaining_fraction k = lt_remaining_fraction l" by (simp only:)
  qed
  with assms show ?thesis by blast
qed

lemma sync_lots_keeps:
  "shared_ok st \<Longrightarrow> lots_agree ls (sh_book st) \<Longrightarrow> sync_lots now ls st = (reply, st') \<Longrightarrow> shared_ok st'"
proof (induction ls arbitrary: st)
  case (Cons l ls)
  show ?case
  proof (cases "lineage_of st (lt_trial_id l)")
    case None
    with Cons.prems(3) have "sync_lots now ls st = (reply, st')" by (simp only: sync_lots.simps option.case)
    then show ?thesis by (rule Cons.IH [OF Cons.prems(1) lots_agree_tail [OF Cons.prems(2)]])
  next
    case (Some n)
    obtain r1 st1 where call: "settle_lot_delta now l n st = (r1, st1)" by force
    have head: "lt_remaining_fraction k = lt_remaining_fraction l"
      if "k \<in> set (bk_lots (sh_book st))" "lt_trial_id k = lt_trial_id l" for k
      by (rule lots_agreeD [OF Cons.prems(2) _ that]) simp
    have k: "shared_ok st1 \<and> (sh_book st1 = sh_book st \<or> (\<exists>i rid. sh_book st1 = set_reservation i rid (sh_book st)))"
      by (rule settle_lot_delta_keeps [OF Cons.prems(1) Some _ call]) (rule head)
    have agree: "lots_agree ls (sh_book st1)"
      by (rule lots_agree_set_reservation [OF lots_agree_tail [OF Cons.prems(2)] conjunct2 [OF k]])
    show ?thesis
    proof (cases r1)
      case (Inl e)
      with Cons.prems(3) Some call have "st' = st1" by (simp only: sync_lots.simps option.case split_conv sum.case prod.inject prod.case)
      with conjunct1 [OF k] show ?thesis by (simp only:)
    next
      case (Inr u)
      with Cons.prems(3) Some call have "sync_lots now ls st1 = (reply, st')"
        by (simp only: sync_lots.simps option.case split_conv sum.case prod.case)
      then show ?thesis by (rule Cons.IH [OF conjunct1 [OF k] agree])
    qed
  qed
qed simp

lemma position_lots_agree:
  assumes "book_ok b"
  shows "lots_agree (position_lots b i) b"
  unfolding lots_agree_def
proof (intro ballI impI)
  fix l k
  assume l: "l \<in> set (position_lots b i)" and k: "k \<in> set (bk_lots b)" "lt_trial_id k = lt_trial_id l"
  from l have "l \<in> set (bk_lots b)" by (simp add: position_lots_def)
  then have "k = l" using book_okD(3) [OF assms] k by (auto simp: distinct_map inj_on_def)
  then show "lt_remaining_fraction k = lt_remaining_fraction l" by simp
qed

lemma shared_exit_keeps:
  assumes ok: "shared_ok st" and p: "p \<in> set (bk_positions (sh_book st))" "open_status (ps_status p)" "exit_fits x p"
    and call: "apply_exit_with_shared_capital x q now p st = (reply, st')"
  shows "shared_ok st'"
proof -
  obtain r b where e: "apply_exit x q now p (sh_book st) = (r, b)" by force
  have "0 < xo_sell_raw x" using p(3) by (simp add: exit_fits_def)
  then have grows: "grows (sh_book st) b" using apply_exit_grows [OF shared_okD(1) [OF ok] _ e] by simp
  have b: "book_ok b" using apply_exit_ok [OF shared_okD(1) [OF ok] p, of q now] e by simp
  have ok': "shared_ok (st\<lparr>sh_book := b\<rparr>)" by (rule shared_ok_book [OF ok grows b])
  obtain r2 st2 where s: "sync_position_capital now (ps_id p) (st\<lparr>sh_book := b\<rparr>) = (r2, st2)" by force
  have "shared_ok st2"
    using sync_lots_keeps [OF ok' _ s [unfolded sync_position_capital_def]] position_lots_agree [OF b] by simp
  with ok' show ?thesis using call e s by (auto simp: apply_exit_with_shared_capital_def split: sum.splits if_splits)
qed

lemma shared_settle_keeps:
  assumes ok: "shared_ok st"
    and call: "settle_one_with_shared_capital pol xp quote flow now (\<lambda>_ b. (Inr (), b)) trial (sh_book st) st = (reply, st')"
  shows "shared_ok st'"
proof (cases "settle_plan_of pol xp quote flow now trial (sh_book st)")
  case (Mark p)
  have p: "p \<in> set (bk_positions (sh_book st))" "open_status (ps_status p)"
    using settle_plan_rows(1) [OF shared_okD(1) [OF ok] Mark] by simp_all
  have "shared_ok (st\<lparr>sh_book := mark_runner (ps_id p) now (sh_book st)\<rparr>)"
    using mark_runner_ok [OF shared_okD(1) [OF ok] p] by (intro shared_ok_book [OF ok mark_runner_grows])
  with call Mark show ?thesis by (simp add: settle_one_with_shared_capital_def)
next
  case (Exit p x q)
  have p: "p \<in> set (bk_positions (sh_book st))" "open_status (ps_status p)" "exit_fits x p"
    using settle_plan_rows(2) [OF shared_okD(1) [OF ok] Exit] by simp_all
  from call Exit shared_exit_keeps [OF ok p] show ?thesis by (simp add: settle_one_with_shared_capital_def)
qed (use ok call in \<open>simp_all add: settle_one_with_shared_capital_def\<close>)


subsection \<open>A start keeps it\<close>

definition same_identities :: "capital_store \<Rightarrow> capital_store \<Rightarrow> bool" where
  "same_identities s s' \<longleftrightarrow> (\<lambda>r. (rr_reservation_id r, rr_release_commit r)) ` set (cs_reservations s')
     = (\<lambda>r. (rr_reservation_id r, rr_release_commit r)) ` set (cs_reservations s)"

lemma same_identities_refl: "cs_reservations s' = cs_reservations s \<Longrightarrow> same_identities s s'"
  by (simp add: same_identities_def)

lemma insert_settlement_reservations: "insert_settlement t s = Inr s' \<Longrightarrow> cs_reservations s' = cs_reservations s"
  by (auto simp: insert_settlement_def split: if_splits)

lemma same_identities_metric [simp]: "same_identities s (metric c release oper k s') = same_identities s s'"
  by (simp add: same_identities_def)

lemma update_active_identities:
  assumes "cs_reservations s' = cs_reservations s" and "\<And>r. rr_reservation_id (f r) = rr_reservation_id r"
    and "\<And>r. rr_release_commit (f r) = rr_release_commit r"
  shows "same_identities s (update_active i f s')"
proof -
  have "cs_reservations (update_active i f s') = map (\<lambda>r. if rr_id r = i \<and> rr_status r = Active then f r else r) (cs_reservations s)"
    by (simp add: update_active_def assms(1))
  then show ?thesis unfolding same_identities_def by (simp only:) (rule column_unchanged(2), simp add: assms(2, 3))
qed

lemma settle_identities: "same_identities s (snd (settle_paper_capital c release rid sid v s))"
  by (auto simp: settle_paper_capital_def Let_def same_identities_refl
      intro!: update_active_identities [OF insert_settlement_reservations] split: sum.split list.split)

lemma settled_capital_rowsD:
  assumes "(t, rid, r) \<in> set (settled_capital_rows b)"
  shows "t \<in> set (bk_trials b)" "tl_release_commit t = bk_release_commit b" "tl_capital_reservation_id t = Some rid"
    "settled_trial b (tl_id t)"
proof -
  obtain u where u: "u \<in> set (bk_trials b)"
    and some: "(case (tl_capital_reservation_id u, find (\<lambda>r. oc_trial_id r = tl_id u) (bk_outcomes b)) of
            (Some rid, Some r) \<Rightarrow> if tl_release_commit u = bk_release_commit b then Some (u, rid, r) else None
          | _ \<Rightarrow> None) = Some (t, rid, r)"
    using assms by (auto simp: settled_capital_rows_def set_map_filter)
  obtain i q where iq: "tl_capital_reservation_id u = Some i" "find (\<lambda>r. oc_trial_id r = tl_id u) (bk_outcomes b) = Some q"
      "tl_release_commit u = bk_release_commit b"
    using some by (auto split: option.splits if_splits)
  then have "u = t" "i = rid" "q = r" using some by simp_all
  with u iq show "t \<in> set (bk_trials b)" "tl_release_commit t = bk_release_commit b" "tl_capital_reservation_id t = Some rid"
      "settled_trial b (tl_id t)"
    using find_result [OF iq(2)] by (auto simp: settled_trial_def intro: rev_image_eqI)
qed

lemma restore_one_keeps:
  assumes ok: "shared_ok st" and t: "t \<in> set (bk_trials (sh_book st))" "tl_release_commit t = bk_release_commit (sh_book st)"
      "tl_capital_reservation_id t = Some rid" "settled_trial (sh_book st) (tl_id t)"
    and call: "settle_paper_capital c release rid sid v (sh_capital st) = (reply, s)"
  shows "shared_ok (st\<lparr>sh_capital := s\<rparr>)"
proof -
  note cap = settle_call [OF shared_okD(2) [OF ok] call]
  have ids: "same_identities (sh_capital st) s" using settle_identities [of "sh_capital st" c release rid sid v] call by simp
  have backed: "line_backed (sh_book st) s n" if n: "n \<in> set (sh_lineage st)" for n
  proof (cases "rid = ln_current_reservation_id n")
    case False
    then show ?thesis by (rule line_backed_frame [OF shared_okD(7) [OF ok n] conjunct2 [OF cap]])
  next
    case True
    obtain u where u: "u \<in> set (bk_trials (sh_book st))" "tl_id u = ln_trial_id n"
        "tl_release_commit u = bk_release_commit (sh_book st)" "tl_capital_reservation_id u = Some (ln_current_reservation_id n)"
      by (rule line_lotE [OF shared_okD(6) [OF ok n]])
    have "t = u" using unique_trial [OF shared_okD(4) [OF ok] t(1) u(1) _ t(3)] t(2) u(3, 4) True by simp
    then have settled: "settled_trial (sh_book st) (ln_trial_id n)" using t(4) u(2) by simp
    obtain r where "r \<in> set (cs_reservations (sh_capital st))" "rr_reservation_id r = ln_current_reservation_id n"
        "rr_release_commit r = ln_release_commit n"
      using shared_okD(7) [OF ok n] unfolding line_backed_def by blast
    then have "(ln_current_reservation_id n, ln_release_commit n)
        \<in> (\<lambda>r. (rr_reservation_id r, rr_release_commit r)) ` set (cs_reservations s)"
      using ids unfolding same_identities_def by force
    with settled show ?thesis unfolding line_backed_def by auto
  qed
  have "rr_release_commit q = bk_release_commit (sh_book st)"
    if q: "q \<in> set (cs_reservations s)" "lane_identity (rr_reservation_id q)" for q
  proof -
    have "(rr_reservation_id q, rr_release_commit q) \<in> (\<lambda>r. (rr_reservation_id r, rr_release_commit r)) ` set (cs_reservations (sh_capital st))"
      using ids imageI [OF q(1), of "\<lambda>r. (rr_reservation_id r, rr_release_commit r)"] unfolding same_identities_def by simp
    then obtain r where "r \<in> set (cs_reservations (sh_capital st))" "rr_reservation_id r = rr_reservation_id q"
        "rr_release_commit r = rr_release_commit q" by auto
    with shared_okD(5) [OF ok] q(2) show ?thesis by metis
  qed
  with backed show ?thesis using shared_okD(1, 3, 4, 6) [OF ok] cap by (simp add: shared_ok_def)
qed

lemma restore_settlements_keeps:
  assumes "shared_ok st"
    and "\<forall>(t, rid, r)\<in>set rows. t \<in> set (bk_trials (sh_book st)) \<and> tl_release_commit t = bk_release_commit (sh_book st)
      \<and> tl_capital_reservation_id t = Some rid \<and> settled_trial (sh_book st) (tl_id t)"
  shows "shared_ok (st\<lparr>sh_capital := snd (restore_settlements cs release rows (sh_capital st))\<rparr>)"
  using assms
proof (induction rows arbitrary: st)
  case (Cons row rows)
  obtain t rid r where row: "row = (t, rid, r)" by (cases row) auto
  obtain reply s where call: "settle_paper_capital (cs (tl_id t)) release rid (''robinhood-trial:'' @ nat_text (tl_id t))
      (Number (oc_net_return r)) (sh_capital st) = (reply, s)" by force
  have ok: "shared_ok (st\<lparr>sh_capital := s\<rparr>)" using Cons.prems row by (intro restore_one_keeps [OF Cons.prems(1) _ _ _ _ call]) auto
  have "shared_ok (st\<lparr>sh_capital := snd (restore_settlements cs release rows s)\<rparr>)"
    using Cons.IH [OF ok] Cons.prems(2) by simp
  with ok show ?case unfolding row restore_settlements.simps call by (simp split: sum.split)
qed simp

lemma restore_keeps:
  assumes "shared_ok st"
  shows "shared_ok (snd (restore_settled_capital cs st))"
proof -
  have "\<forall>(t, rid, r)\<in>set (settled_capital_rows (sh_book st)). t \<in> set (bk_trials (sh_book st))
      \<and> tl_release_commit t = bk_release_commit (sh_book st) \<and> tl_capital_reservation_id t = Some rid \<and> settled_trial (sh_book st) (tl_id t)"
    using settled_capital_rowsD by blast
  with restore_settlements_keeps [OF assms] show ?thesis by (simp add: restore_settled_capital_def split_beta)
qed

subsection \<open>Runs\<close>

text \<open>\<open>_maybe_open_v3\<close> once the shared capital is installed.\<close>

definition maybe_open_with_shared_capital ::
  "call_context \<Rightarrow> call_context \<Rightarrow> quote_answers \<Rightarrow> real \<Rightarrow> datetime \<Rightarrow> entry_payload list \<Rightarrow> shared \<Rightarrow> bool result \<times> shared" where
  "maybe_open_with_shared_capital c c' quote latency now captured st =
     (case captured of [] \<Rightarrow> (Inr False, st) | n # _ \<Rightarrow> validate_with_shared_capital c c' quote latency now n st)"

definition pending_evidence :: "book \<Rightarrow> entry_payload \<Rightarrow> string" where
  "pending_evidence b n = (case dict_get (bk_pending b) (clean_address (Some (en_token n))) of
     None \<Rightarrow> [] | Some pd \<Rightarrow> pd_evidence_fingerprint pd)"

datatype shared_event =
    XChoose position_policy "evidence_payload \<Rightarrow> string" datetime string string candidate_kwargs base_choice
  | XEntry call_context call_context quote_answers real datetime "entry_payload list"
  | XSettle position_policy exit_policy quote_answers string datetime nat
  | XCutEntry call_context datetime entry_payload
  | XCutSettle position_policy exit_policy quote_answers string datetime nat
  | XRestart "nat \<Rightarrow> call_context" position_policy "evidence_payload \<Rightarrow> string" "(string \<Rightarrow> bool) option" datetime
  | XOther capital_event

definition update_book :: "(book \<Rightarrow> book) \<Rightarrow> shared \<Rightarrow> shared" where
  "update_book f st = st\<lparr>sh_book := f (sh_book st)\<rparr>"

text \<open>What is left of an entry when the process stops after it has reserved.\<close>

definition cut_entry :: "call_context \<Rightarrow> datetime \<Rightarrow> entry_payload \<Rightarrow> shared \<Rightarrow> shared" where
  "cut_entry c now n st =
     (let evidence = pending_evidence (sh_book st) n in
      case entry_reservation_id (bk_release_commit (sh_book st)) n evidence of
        Inl e \<Rightarrow> st
      | Inr rid \<Rightarrow>
          if fst (recover_entry_link now n evidence rid st) = Inr False \<and> 0 < en_fraction n
            then snd (reserve_entry c rid evidence (max 0 (en_fraction n)) st) else st)"

text \<open>A settlement whose process stops before the store is synchronised is that of the lifecycle. A start
  first settles in the store what has an outcome, then adopts trials, unless an error ended it.\<close>

definition start_lane ::
  "(nat \<Rightarrow> call_context) \<Rightarrow> position_policy \<Rightarrow> (evidence_payload \<Rightarrow> string) \<Rightarrow> (string \<Rightarrow> bool) option \<Rightarrow> datetime
     \<Rightarrow> shared \<Rightarrow> shared" where
  "start_lane cs pol fp frozen now st =
     (case restore_settled_capital cs st of
        (Inl e, st') \<Rightarrow> st'
      | (Inr _, st') \<Rightarrow> update_book (\<lambda>b. snd (bootstrap_existing_open_trials pol fp frozen now (new_process b))) st')"

fun shared_step :: "shared \<Rightarrow> shared_event \<Rightarrow> shared \<times> string list" where
  "shared_step st (XChoose pol fp now token market k c) =
     (update_book (\<lambda>b. snd (choose_with_lifecycle pol fp now token market k c b)) st, [])"
| "shared_step st (XEntry c c' quote latency now captured) =
     (snd (maybe_open_with_shared_capital c c' quote latency now captured st), [])"
| "shared_step st (XSettle pol xp quote flow now trial) =
     (snd (settle_one_with_shared_capital pol xp quote flow now (\<lambda>_ b. (Inr (), b)) trial (sh_book st) st), [])"
| "shared_step st (XCutEntry c now n) = (cut_entry c now n st, [])"
| "shared_step st (XCutSettle pol xp quote flow now trial) =
     (update_book (\<lambda>b. snd (settle_one_with_lifecycle pol xp quote flow now (\<lambda>_ b. (Inr (), b)) trial b b)) st, [])"
| "shared_step st (XRestart cs pol fp frozen now) = (start_lane cs pol fp frozen now st, [])"
| "shared_step st (XOther e) = (st\<lparr>sh_capital := fst (capital_step (sh_capital st) e)\<rparr>, [])"

text \<open>The other lanes name reservations of their own and never ask for more than the whole capacity.\<close>

fun shared_allowed :: "shared_event \<Rightarrow> bool" where
  "shared_allowed (XOther e) \<longleftrightarrow> \<not> lane_identity (event_identity e) \<and> capacity_within 1 e"
| "shared_allowed _ \<longleftrightarrow> True"

lemma restart_grows:
  assumes "book_ok b"
  shows "grows b (snd (bootstrap_existing_open_trials pol fp frozen now (new_process b)))
    \<and> book_ok (snd (bootstrap_existing_open_trials pol fp frozen now (new_process b)))"
  using assms adoptable_none [OF assms]
  by (simp add: bootstrap_existing_open_trials_def split: option.split) (simp add: new_process_def grows_same)

lemma settle_one_grows:
  assumes "book_ok b"
  shows "grows b (snd (settle_one_with_lifecycle pol xp quote flow now (\<lambda>_ b. (Inr (), b)) trial b b))"
proof (cases "settle_plan_of pol xp quote flow now trial b")
  case (Exit p x q)
  obtain r b' where e: "apply_exit x q now p b = (r, b')" by force
  have "exit_fits x p" using settle_plan_rows(2) [OF assms Exit] by simp
  then have "0 < xo_sell_raw x" by (simp add: exit_fits_def)
  from apply_exit_grows [OF assms this e] Exit e show ?thesis by (simp add: settle_one_with_lifecycle_def)
qed (simp_all add: settle_one_with_lifecycle_def mark_runner_grows grows_same)

lemma cut_entry_keeps:
  assumes "shared_ok st"
  shows "shared_ok (cut_entry c now n st)"
proof (cases "entry_reservation_id (bk_release_commit (sh_book st)) n (pending_evidence (sh_book st) n)")
  case (Inr rid)
  obtain r st' where r: "reserve_entry c rid (pending_evidence (sh_book st) n) (max 0 (en_fraction n)) st = (r, st')" by force
  have "cut_entry c now n st = st \<or> cut_entry c now n st = st'" unfolding cut_entry_def Let_def Inr sum.case r snd_conv by simp
  with reserve_entry_keeps(1) [OF assms Inr r] assms show ?thesis by auto
qed (simp add: cut_entry_def Let_def assms)

lemma start_lane_keeps:
  assumes "shared_ok st"
  shows "shared_ok (start_lane cs pol fp frozen now st)"
proof -
  obtain r st' where r: "restore_settled_capital cs st = (r, st')" by force
  have ok: "shared_ok st'" using restore_keeps [OF assms, of cs] r by simp
  with r shared_ok_book [OF ok conjunct1 [OF restart_grows [OF shared_okD(1) [OF ok]]] conjunct2 [OF restart_grows [OF shared_okD(1) [OF ok]]]]
  show ?thesis by (simp add: start_lane_def update_book_def split: sum.split)
qed

lemma shared_entry_keeps:
  "shared_ok st \<Longrightarrow> shared_ok (snd (maybe_open_with_shared_capital c c' quote latency now captured st))"
proof -
  assume ok: "shared_ok st"
  show ?thesis
  proof (cases captured)
    case (Cons n rest)
    obtain r st' where v: "validate_with_shared_capital c c' quote latency now n st = (r, st')" by force
    with shared_validate_keeps [OF ok v] Cons show ?thesis by (simp add: maybe_open_with_shared_capital_def)
  qed (simp add: maybe_open_with_shared_capital_def ok)
qed

interpretation shared_machine: invariant_machine shared_step shared_allowed shared_ok
proof
  fix st e
  assume ok: "shared_ok st" and allowed: "shared_allowed e"
  note book = shared_okD(1) [OF ok]
  show "shared_ok (fst (shared_step st e))"
  proof (cases e)
    case (XChoose pol fp now token market k c)
    have "book_ok (snd (choose_with_lifecycle pol fp now token market k c (sh_book st)))"
      using choose_keeps [of pol fp now token market k c "sh_book st"] book by (auto simp: book_ok_pending)
    with shared_ok_book [OF ok choose_grows] XChoose show ?thesis by (simp add: update_book_def)
  next
    case (XEntry c c' quote latency now captured)
    with shared_entry_keeps [OF ok] show ?thesis by simp
  next
    case (XSettle pol xp quote flow now trial)
    obtain r st' where "settle_one_with_shared_capital pol xp quote flow now (\<lambda>_ b. (Inr (), b)) trial (sh_book st) st = (r, st')"
      by force
    with shared_settle_keeps [OF ok this] XSettle show ?thesis by simp
  next
    case (XCutEntry c now n)
    with cut_entry_keeps [OF ok] show ?thesis by simp
  next
    case (XCutSettle pol xp quote flow now trial)
    with shared_ok_book [OF ok settle_one_grows [OF book] settle_one_ok [OF book]] show ?thesis by (simp add: update_book_def)
  next
    case (XRestart cs pol fp frozen now)
    with start_lane_keeps [OF ok] show ?thesis by simp
  next
    case (XOther e')
    then have "within_capacity 1 (fst (capital_step (sh_capital st) e')) \<and> frame (event_identity e') (sh_capital st) (fst (capital_step (sh_capital st) e'))"
      using allowed by (intro capital_call [OF shared_okD(2) [OF ok]]) simp
    with shared_ok_capital [OF ok] allowed XOther show ?thesis by auto
  qed
qed

definition new_shared :: "string \<Rightarrow> real \<Rightarrow> shared" where
  "new_shared release nav = \<lparr>sh_book = new_book release nav, sh_capital = empty_capital_store, sh_lineage = []\<rparr>"

lemma new_shared_ok: "shared_ok (new_shared release nav)"
  using new_book_ok [of release nav]
  by (simp add: shared_ok_def new_shared_def within_capacity_def rows_ok_def empty_capital_store_def reserved_sum_def
      trial_reservations_unique_def new_book_def)

definition shared_run :: "string \<Rightarrow> real \<Rightarrow> shared_event list \<Rightarrow> shared" where
  "shared_run release nav es = fst (run_machine shared_step (new_shared release nav) es)"

lemma shared_run_ok: "list_all shared_allowed es \<Longrightarrow> shared_ok (shared_run release nav es)"
  unfolding shared_run_def by (rule shared_machine.run_inv [OF new_shared_ok])

subsection \<open>What linked lots hold\<close>

lemma ROUNDING_pos: "0 < ROUNDING"
  by (simp add: ROUNDING_def)

definition linked :: "shared \<Rightarrow> lot_row \<Rightarrow> bool" where
  "linked st l \<longleftrightarrow> lt_trial_id l \<in> ln_trial_id ` set (sh_lineage st)"

lemma linked_lot_backed:
  assumes ok: "shared_ok st" and l: "l \<in> set (bk_lots (sh_book st))" and n: "n \<in> set (sh_lineage st)" "lt_trial_id l = ln_trial_id n"
  shows "lt_remaining_fraction l \<le> ROUNDING \<or> (\<exists>r\<in>set (cs_reservations (sh_capital st)).
     rr_reservation_id r = ln_current_reservation_id n \<and> rr_status r = Active
     \<and> lt_remaining_fraction l \<le> rr_reserved_fraction r + ROUNDING)"
proof -
  obtain t k where k: "k \<in> set (bk_lots (sh_book st))" "lt_trial_id k = ln_trial_id n"
      "lt_remaining_fraction k \<le> ln_accounted_remaining_fraction n"
    by (rule line_lotE [OF shared_okD(6) [OF ok n(1)]])
  have "k = l" using book_okD(3) [OF shared_okD(1) [OF ok]] k l n(2) by (auto simp: distinct_map inj_on_def)
  with k(3) have le: "lt_remaining_fraction l \<le> ln_accounted_remaining_fraction n" by simp
  have "lt_remaining_fraction l = 0" if "settled_trial (sh_book st) (ln_trial_id n)"
    using book_okD(7) [OF shared_okD(1) [OF ok] l] n(2) that by (auto simp: lot_ok_def)
  then have none: "settled_trial (sh_book st) (ln_trial_id n) \<Longrightarrow> lt_remaining_fraction l \<le> ROUNDING" using ROUNDING_pos by simp
  obtain r where r: "r \<in> set (cs_reservations (sh_capital st))" "rr_reservation_id r = ln_current_reservation_id n"
      "settled_trial (sh_book st) (ln_trial_id n) \<or> ln_accounted_remaining_fraction n \<le> ROUNDING
        \<or> rr_status r = Active \<and> ln_accounted_remaining_fraction n \<le> rr_reserved_fraction r + ROUNDING"
    using shared_okD(7) [OF ok n(1)] unfolding line_backed_def by blast
  show ?thesis
  proof (cases "lt_remaining_fraction l \<le> ROUNDING")
    case False
    with r(3) none le have "rr_status r = Active \<and> lt_remaining_fraction l \<le> rr_reserved_fraction r + ROUNDING" by auto
    with r(1, 2) show ?thesis by blast
  qed simp
qed

lemma sum_by_key:
  assumes "distinct (map key xs)" and "finite I" and "key ` set xs \<subseteq> I" and "\<forall>x\<in>set xs. f x \<le> w (key x) + (e :: real)"
    and "\<forall>i\<in>I. 0 \<le> w i"
  shows "sum_list (map f xs) \<le> sum w I + real (length xs) * e"
proof -
  have "sum_list (map f xs) \<le> sum_list (map (\<lambda>x. w (key x) + e) xs)"
    by (rule sum_list_mono) (use assms(4) in blast)
  also have "\<dots> = sum_list (map w (map key xs)) + real (length xs) * e"
    by (simp add: sum_list_addf comp_def sum_list_triv)
  also have "sum_list (map w (map key xs)) = sum w (key ` set xs)"
    using sum_list_distinct_conv_sum_set [OF assms(1), of w] by simp
  also have "\<dots> \<le> sum w I" by (rule sum_mono2 [OF assms(2, 3)]) (use assms(5) in blast)
  finally show ?thesis by simp
qed

text \<open>What the row of an identity reserves.\<close>

definition reserved_by :: "reservation_row list \<Rightarrow> string \<Rightarrow> real" where
  "reserved_by rows rid = sum_list (map rr_reserved_fraction (filter (\<lambda>r. rr_reservation_id r = rid \<and> rr_status r = Active) rows))"

lemma reserved_by_row:
  assumes "distinct (map rr_reservation_id rows)" and "r \<in> set rows" and "rr_status r = Active"
  shows "reserved_by rows (rr_reservation_id r) = rr_reserved_fraction r"
  using assms
proof (induction rows)
  case (Cons q rows)
  then show ?case
  proof (cases "q = r")
    case True
    have "rr_reservation_id x \<noteq> rr_reservation_id r" if "x \<in> set rows" for x
      using Cons.prems(1) that True by (metis distinct.simps(2) image_eqI list.set_map list.simps(9))
    then have none: "filter (\<lambda>x. rr_reservation_id x = rr_reservation_id r \<and> rr_status x = Active) rows = []"
      by (simp add: filter_empty_conv)
    with True Cons.prems show ?thesis by (simp add: reserved_by_def)
  next
    case False
    with Cons.prems have "rr_reservation_id q \<noteq> rr_reservation_id r" by auto
    with Cons False show ?thesis by (simp add: reserved_by_def)
  qed
qed simp

lemma reserved_by_total:
  assumes "rows_ok rows"
  shows "sum (reserved_by rows) (rr_reservation_id ` set rows) = reserved_sum Active rows"
    "0 \<le> reserved_by rows rid"
proof -
  have d: "distinct (map rr_reservation_id rows)" and c: "\<forall>r\<in>set rows. rr_portfolio_id r = CANONICAL_PORTFOLIO_ID"
    and pos: "\<forall>r\<in>set rows. 0 \<le> rr_reserved_fraction r"
    using assms by (simp_all add: rows_ok_def)
  have inj: "inj_on rr_reservation_id (set rows)" and dist: "distinct rows" using d by (auto simp: distinct_map)
  have by_row: "reserved_by rows (rr_reservation_id r) = (if rr_status r = Active then rr_reserved_fraction r else 0)"
    if "r \<in> set rows" for r
  proof (cases "rr_status r = Active")
    case True
    with reserved_by_row [OF d that] show ?thesis by simp
  next
    case False
    then have none: "filter (\<lambda>x. rr_reservation_id x = rr_reservation_id r \<and> rr_status x = Active) rows = []"
      using inj that by (auto simp: filter_empty_conv inj_on_def)
    show ?thesis unfolding reserved_by_def none using False by simp
  qed
  have "sum (reserved_by rows) (rr_reservation_id ` set rows) = (\<Sum>r\<in>set rows. reserved_by rows (rr_reservation_id r))"
    by (simp add: sum.reindex [OF inj] comp_def)
  also have "\<dots> = (\<Sum>r\<in>set rows. if rr_status r = Active then rr_reserved_fraction r else 0)"
    by (rule sum.cong [OF refl]) (rule by_row)
  also have "\<dots> = sum_list (map (\<lambda>r. if rr_status r = Active then rr_reserved_fraction r else 0) rows)"
    by (simp only: sum_list_distinct_conv_sum_set [OF dist])
  also have "\<dots> = reserved_sum Active rows"
    unfolding reserved_sum_alt by (intro arg_cong [of _ _ sum_list] map_cong refl) (simp add: c)
  finally show "sum (reserved_by rows) (rr_reservation_id ` set rows) = reserved_sum Active rows" .
  show "0 \<le> reserved_by rows rid" unfolding reserved_by_def by (rule sum_list_nonneg) (use pos in auto)
qed

lemma linked_sum_bounded:
  assumes ok: "shared_ok st"
  shows "sum_list (map lt_remaining_fraction (filter (linked st) (bk_lots (sh_book st))))
    \<le> 1 + real (length (filter (linked st) (bk_lots (sh_book st)))) * ROUNDING"
proof -
  let ?rows = "cs_reservations (sh_capital st)" and ?lots = "filter (linked st) (bk_lots (sh_book st))"
  have rows: "rows_ok ?rows" and cap: "reserved_sum Active ?rows \<le> 1"
    using shared_okD(2) [OF ok] by (simp_all add: within_capacity_def)
  define line where "line (l :: lot_row) = (SOME n. n \<in> set (sh_lineage st) \<and> ln_trial_id n = lt_trial_id l)" for l
  define key where "key l = ln_current_reservation_id (line l)" for l
  have line: "line l \<in> set (sh_lineage st) \<and> ln_trial_id (line l) = lt_trial_id l" if l: "l \<in> set ?lots" for l
  proof -
    obtain n where "n \<in> set (sh_lineage st) \<and> ln_trial_id n = lt_trial_id l" using l by (auto simp: linked_def)
    then show ?thesis unfolding line_def by (rule someI)
  qed
  have trials: "distinct (map lt_trial_id ?lots)" using book_okD(3) [OF shared_okD(1) [OF ok]] by (rule distinct_map_filter)
  have "inj_on key (set ?lots)"
  proof (rule inj_onI)
    fix l k
    assume l: "l \<in> set ?lots" and k: "k \<in> set ?lots" and same: "key l = key k"
    have "line l = line k" using current_distinct [OF ok _ _ same [unfolded key_def]] line [OF l] line [OF k] by simp
    then have "lt_trial_id l = lt_trial_id k" using line [OF l] line [OF k] by simp
    with trials l k show "l = k" by (auto simp: distinct_map inj_on_def)
  qed
  moreover have "distinct ?lots" using trials by (simp add: distinct_map)
  ultimately have keys: "distinct (map key ?lots)" by (simp add: distinct_map)
  have held: "lt_remaining_fraction l \<le> reserved_by ?rows (key l) + ROUNDING" if l: "l \<in> set ?lots" for l
  proof -
    have mem: "l \<in> set (bk_lots (sh_book st))" using l by simp
    from linked_lot_backed [OF ok mem conjunct1 [OF line [OF l]]] line [OF l]
    consider "lt_remaining_fraction l \<le> ROUNDING"
      | r where "r \<in> set ?rows" "rr_reservation_id r = key l" "rr_status r = Active"
          "lt_remaining_fraction l \<le> rr_reserved_fraction r + ROUNDING"
      unfolding key_def by auto
    then show ?thesis
    proof cases
      case 1
      then show ?thesis using reserved_by_total(2) [OF rows, of "key l"] by linarith
    next
      case 2
      then show ?thesis using reserved_by_row [of ?rows r] rows by (simp add: rows_ok_def)
    qed
  qed
  have ids: "key ` set ?lots \<subseteq> rr_reservation_id ` set ?rows"
  proof
    fix i
    assume "i \<in> key ` set ?lots"
    then obtain l where l: "l \<in> set ?lots" "i = key l" by blast
    from shared_okD(7) [OF ok conjunct1 [OF line [OF l(1)]]] show "i \<in> rr_reservation_id ` set ?rows"
      unfolding line_backed_def l(2) key_def by force
  qed
  have "sum_list (map lt_remaining_fraction ?lots) \<le> sum (reserved_by ?rows) (rr_reservation_id ` set ?rows) + real (length ?lots) * ROUNDING"
    by (rule sum_by_key [OF keys _ ids]) (use held reserved_by_total(2) [OF rows] in auto)
  then show ?thesis using reserved_by_total(1) [OF rows] cap by linarith
qed

text \<open>C5. What the Robinhood lane holds is always covered. After any run of entries, settlements and
  restarts, mixed with calls of the other lanes that use identities of their own, every lot that is linked
  to the shared store and holds more than \<open>10 ^ -12\<close> has an active reservation of its own of at least what it
  holds (up to \<open>10 ^ -12\<close>), and all linked lots together hold no more than the whole capacity.\<close>

theorem linked_lots_are_backed:
  assumes "list_all shared_allowed es" and "st = shared_run release nav es"
  shows "(\<forall>n\<in>set (sh_lineage st). \<forall>l\<in>set (bk_lots (sh_book st)). lt_trial_id l = ln_trial_id n \<longrightarrow>
        1 / 10 ^ 12 < lt_remaining_fraction l \<longrightarrow>
        (\<exists>r\<in>set (cs_reservations (sh_capital st)). rr_reservation_id r = ln_current_reservation_id n
           \<and> rr_status r = Active \<and> lt_remaining_fraction l \<le> rr_reserved_fraction r + 1 / 10 ^ 12))
    \<and> inj_on ln_current_reservation_id (set (sh_lineage st))
    \<and> reserved_sum Active (cs_reservations (sh_capital st)) \<le> 1
    \<and> sum_list (map lt_remaining_fraction (filter (linked st) (bk_lots (sh_book st))))
        \<le> 1 + real (length (filter (linked st) (bk_lots (sh_book st)))) / 10 ^ 12"
proof -
  have ok: "shared_ok st" unfolding assms(2) by (rule shared_run_ok [OF assms(1)])
  have "inj_on ln_current_reservation_id (set (sh_lineage st))"
    by (rule inj_onI) (rule current_distinct [OF ok])
  moreover have "reserved_sum Active (cs_reservations (sh_capital st)) \<le> 1"
    using shared_okD(2) [OF ok] by (simp add: within_capacity_def)
  moreover have "\<exists>r\<in>set (cs_reservations (sh_capital st)). rr_reservation_id r = ln_current_reservation_id n
         \<and> rr_status r = Active \<and> lt_remaining_fraction l \<le> rr_reserved_fraction r + ROUNDING"
    if "n \<in> set (sh_lineage st)" "l \<in> set (bk_lots (sh_book st))" "lt_trial_id l = ln_trial_id n"
      "ROUNDING < lt_remaining_fraction l" for n l
    using linked_lot_backed [OF ok that(2, 1, 3)] that(4) by (simp add: not_le)
  ultimately show ?thesis
    using linked_sum_bounded [OF ok] unfolding ROUNDING_def by simp
qed


subsection \<open>A slice is settled once\<close>

lemma settle_lot_delta_again:
  assumes "ln_accounted_remaining_fraction n = rd_remaining d" and "ln_accounted_sold_cost_wei n = rd_sold_cost d"
    and "ln_accounted_realized_exit_net_wei n = rd_realized_net d" and "d = release_of l m"
  shows "settle_lot_delta now l n st = (Inr (), st)"
proof -
  have same: "rd_remaining d = max 0 (lt_remaining_fraction l)"
    "rd_sold_cost d = max 0 (max 0 (lt_entry_total_cost_wei l) - max 0 (lt_remaining_entry_cost_wei l))"
    "rd_realized_net d = max 0 (lt_realized_exit_net_wei l)"
    by (simp_all add: assms(4) release_of_def Let_def)
  have "rd_remaining (release_of l n) = max 0 (lt_remaining_fraction l)" "rd_fraction (release_of l n) = 0"
    "rd_cost (release_of l n) = 0" "rd_net (release_of l n) = 0"
    by (simp_all add: release_of_def Let_def assms(1-3) same)
  then show ?thesis by (simp add: settle_lot_delta_def Let_def assms(1) same(1))
qed

lemma lineage_of_account:
  assumes "lineage_of st i = Some n" and "sh_lineage st' = account now i rid k d (sh_lineage st)"
  shows "lineage_of st' i = Some (accounted now rid k d n)"
proof -
  have "find (\<lambda>n. ln_trial_id n = i) (account now i rid k d rows) = map_option (accounted now rid k d) (find (\<lambda>n. ln_trial_id n = i) rows)"
    for rows by (induction rows) (auto simp: account_alt)
  with assms show ?thesis by (simp add: lineage_of_def)
qed

text \<open>C6. An exit is settled slice by slice, each exactly once. When the synchronisation of a linked lot changes
  anything, the reservation that the lot had is settled with the return of what was sold since the last
  synchronisation, and only that contribution, the released fraction times its return, is added to what the
  store reports as realized; what the lot still holds gets a new active reservation of just this size, unless it is
  at most \<open>10 ^ -12\<close>; and to synchronise the same lot again changes nothing.\<close>

theorem slice_settles_once:
  assumes "shared_ok st" and "lineage_of st (lt_trial_id l) = Some n" and "d = release_of l n"
    and "settle_lot_delta now l n st = (reply, st')" and "st' \<noteq> st"
    and "gain = rd_fraction d * (real_of_int (rd_net d) / real_of_int (rd_cost d) - 1)"
  shows "reply = Inr () \<and> rd_fraction d = ln_accounted_remaining_fraction n - max 0 (lt_remaining_fraction l)
    \<and> (\<exists>r\<in>set (cs_reservations (sh_capital st')). rr_reservation_id r = ln_current_reservation_id n
          \<and> rr_status r = Settled \<and> rr_realized_contribution r = Some gain)
    \<and> realized_total (sh_capital st') = realized_total (sh_capital st) + gain
    \<and> (1 / 10 ^ 12 < lt_remaining_fraction l \<longrightarrow>
          (\<exists>r\<in>set (cs_reservations (sh_capital st')). rr_reservation_id r = residual_id (lt_trial_id l) (Suc (ln_settlement_sequence n))
             \<and> rr_status r = Active \<and> rr_reserved_fraction r = lt_remaining_fraction l))
    \<and> (\<exists>n'. lineage_of st' (lt_trial_id l) = Some n' \<and> settle_lot_delta now2 l n' st' = (Inr (), st'))"
proof -
  from settle_lot_delta_cases [OF assms(4)] assms(5) obtain r
    where r: "reservation_of (sh_capital st) (ln_release_commit n) (ln_current_reservation_id n) = Some r" "rr_status r = Active"
      "rd_remaining d + ROUNDING < ln_accounted_remaining_fraction n" "0 < rd_cost d"
      and slice: "settle_slice now (lt_trial_id l) n d r st = (reply, st')"
    unfolding assms(3) by blast
  note r' = reservation_of_Some [OF r(1)]
  have rows: "rows_ok (cs_reservations (sh_capital st))" using shared_okD(2) [OF assms(1)] by (simp add: within_capacity_def)
  define k where "k = Suc (ln_settlement_sequence n)"
  define s where "s = sliced now (lt_trial_id l) n d r (sh_capital st)"
  have remaining: "rd_remaining d = max 0 (lt_remaining_fraction l)" by (simp add: assms(3) release_of_remaining)
  have cost: "slice_return d = real_of_int (rd_net d) / real_of_int (rd_cost d) - 1"
    using r(4) by (simp add: slice_return_def)
  then have gain: "rd_fraction d * slice_return d = gain" by (simp add: assms(6))
  have "rd_fraction d = max 0 (max 0 (ln_accounted_remaining_fraction n) - max 0 (lt_remaining_fraction l))"
    by (simp add: assms(3) release_of_remaining)
  moreover have "max 0 (lt_remaining_fraction l) < ln_accounted_remaining_fraction n"
    using r(3) ROUNDING_pos unfolding remaining by linarith
  ultimately have released: "rd_fraction d = ln_accounted_remaining_fraction n - max 0 (lt_remaining_fraction l)"
    by (auto simp: max_def split: if_splits)
  have settled: "slice_row now d r \<in> set (cs_reservations s)" by (simp add: s_def sliced_def rewrite_row_set [OF rows conjunct1 [OF r']])
  have row: "rr_reservation_id (slice_row now d r) = ln_current_reservation_id n" "rr_status (slice_row now d r) = Settled"
      "rr_realized_contribution (slice_row now d r) = Some gain"
    using r' gain by (simp_all add: slice_row_def)
  have total: "realized_total s = realized_total (sh_capital st) + gain"
    using gain by (simp add: s_def sliced_def slice_settlement_def realized_total_def)
  consider (whole) "\<not> ROUNDING < rd_remaining d" "reply = Inr ()" "sh_capital st' = s"
        "sh_lineage st' = account now (lt_trial_id l) (ln_current_reservation_id n) k d (sh_lineage st)"
    | (part) "ROUNDING < rd_remaining d" "reply = Inr ()"
        "sh_capital st' = s\<lparr>cs_reservations := cs_reservations s
            @ [residual_reservation now (ln_release_commit n) (lt_trial_id l) k (rd_remaining d) s]\<rparr>"
        "sh_lineage st' = account now (lt_trial_id l) (residual_id (lt_trial_id l) k) k d (sh_lineage st)"
    using settle_slice_cases [OF rows _ _ _ slice] r' assms(5) unfolding k_def s_def Let_def by auto
  then show ?thesis
  proof cases
    case whole
    have "settle_lot_delta now2 l (accounted now (ln_current_reservation_id n) k d n) st' = (Inr (), st')"
      by (rule settle_lot_delta_again [of _ d]) (simp_all add: assms(3) accounted_def)
    moreover have "\<not> 1 / 10 ^ 12 < lt_remaining_fraction l" using whole(1) remaining by (simp add: ROUNDING_def)
    ultimately show ?thesis
      using lineage_of_account [OF assms(2) whole(4)] released settled row total whole(2, 3) by auto
  next
    case part
    let ?q = "residual_reservation now (ln_release_commit n) (lt_trial_id l) k (rd_remaining d) s"
    have q: "rr_reservation_id ?q = residual_id (lt_trial_id l) k" "rr_status ?q = Active" "rr_reserved_fraction ?q = rd_remaining d"
      by (simp_all add: residual_reservation_def)
    have "?q \<in> set (cs_reservations (sh_capital st'))" "slice_row now d r \<in> set (cs_reservations (sh_capital st'))"
      using part(3) settled by simp_all
    moreover have "settle_lot_delta now2 l (accounted now (residual_id (lt_trial_id l) k) k d n) st' = (Inr (), st')"
      by (rule settle_lot_delta_again [of _ d]) (simp_all add: assms(3) accounted_def)
    moreover have "realized_total (sh_capital st') = realized_total s" by (simp add: part(3) realized_total_def)
    moreover have "rd_remaining d = lt_remaining_fraction l" using part(1) remaining by (simp add: ROUNDING_def max_def split: if_splits)
    ultimately show ?thesis
      using lineage_of_account [OF assms(2) part(4)] released row total part(2) q unfolding k_def by auto
  qed
qed

subsection \<open>A lane with one linked token\<close>

abbreviation at_once :: call_context where
  "at_once \<equiv> \<lparr>cc_attempts = [], cc_elapsed_ms = 0, cc_now = 1\<rparr>"

abbreviation share_pick :: "string \<Rightarrow> shared_event" where
  "share_pick entity \<equiv> XChoose demo_policy ep_entity 0 TOKEN POOL (demo_candidate entity) demo_choice"

abbreviation share_enter :: "int \<Rightarrow> string \<Rightarrow> shared_event" where
  "share_enter raw entity \<equiv> XEntry at_once at_once demo_sell 1 1 [demo_entry raw entity]"

definition demo_identity :: string where
  "demo_identity = ''robinhood-v52:'' @ TOKEN @ '':'' @ POOL @ '':'' @ ''A''"

definition demo_reservation :: reservation_row where
  "demo_reservation = new_reservation at_once ''r'' demo_identity ''robinhood'' ''A'' (1 / 100) 1 (1 / 100) False empty_capital_store"

definition demo_ledger :: capital_store where
  "demo_ledger = metric at_once ''r'' ''reserve'' 0 (empty_capital_store\<lparr>cs_reservations := [demo_reservation]\<rparr>)"

definition demo_line :: "int \<Rightarrow> lineage_row" where
  "demo_line raw = new_lineage 1 (demo_lot raw) ''r'' demo_identity"

definition demo_linked :: "int \<Rightarrow> shared" where
  "demo_linked raw = \<lparr>sh_book = set_reservation 1 demo_identity (demo_opened raw), sh_capital = demo_ledger,
     sh_lineage = [demo_line raw]\<rparr>"

definition demo_waiting :: shared where
  "demo_waiting = (new_shared ''r'' 100)\<lparr>sh_book := (new_book ''r'' 100)\<lparr>bk_pending := [(TOKEN, demo_starter)]\<rparr>\<rparr>"

lemma shared_run_snoc: "shared_run release nav (es @ [e]) = fst (shared_step (shared_run release nav es) e)"
  by (simp add: shared_run_def run_machine_snoc)

lemma demo_waiting_run: "shared_run ''r'' 100 [share_pick ''A''] = demo_waiting"
proof -
  have "snd (choose_with_lifecycle demo_policy ep_entity 0 TOKEN POOL (demo_candidate ''A'') demo_choice (new_book ''r'' 100))
      = (new_book ''r'' 100)\<lparr>bk_pending := [(TOKEN, demo_starter)]\<rparr>"
    using demo_chosen by (simp add: lane_run_def)
  then show ?thesis by (simp add: shared_run_def demo_waiting_def update_book_def new_shared_def)
qed

lemma demo_reserves:
  "reserve_entry at_once demo_identity ''A'' (1 / 100) demo_waiting
     = (Inr \<lparr>rp_row = demo_reservation, rp_idempotent_replay = False, rp_busy_retries = 0, rp_replay_requested_release = None\<rparr>,
        demo_waiting\<lparr>sh_capital := demo_ledger\<rparr>)"
  by (simp add: reserve_entry_def reserve_paper_capital_def demo_identity_def canonical_reservations_def demo_waiting_def
      new_shared_def empty_capital_store_def demo_ledger_def demo_reservation_def DEFAULT_CAPACITY_FRACTION_def new_book_def
      new_reservation_def reserve_decision_def reserved_sum_def metric_def Let_def)

lemma demo_commits:
  assumes "0 < raw"
  shows "validate_and_commit demo_sell 1 1 (demo_entry raw ''A'') (sh_book demo_waiting) = (Inr True, demo_opened raw)"
  using assms by (simp add: demo_opened_def demo_position_def demo_lot_def demo_waiting_def) (simp add: demo_entry_defs)

lemma demo_entry_simps [simp]:
  "en_token (demo_entry raw e) = TOKEN" "en_market (demo_entry raw e) = POOL" "en_fraction (demo_entry raw e) = 1 / 100"
  by (simp_all add: demo_entry_def)

abbreviation demo_trial :: "int \<Rightarrow> trial_row" where
  "demo_trial raw \<equiv> new_trial (demo_entry raw ''A'') Starter 1 (new_book ''r'' 100)"

lemma demo_trial_simps [simp]:
  "tl_id (demo_trial raw) = 1" "tl_release_commit (demo_trial raw) = ''r''" "tl_token (demo_trial raw) = TOKEN"
  "tl_market (demo_trial raw) = POOL" "tl_capital_reservation_id (demo_trial raw) = None"
  by (simp_all add: new_trial_def new_book_def next_id_def demo_entry_def)

lemma demo_opened_simps [simp]:
  "bk_release_commit (demo_opened raw) = ''r''" "bk_trials (demo_opened raw) = [demo_trial raw]"
  "bk_lots (demo_opened raw) = [demo_lot raw]" "bk_positions (demo_opened raw) = [demo_position raw]"
  "bk_outcomes (demo_opened raw) = []" "bk_pending (demo_opened raw) = []" "bk_starting_nav_usd (demo_opened raw) = 100"
  by (simp_all add: demo_opened_def new_book_def)

lemma demo_lot_capital [simp]:
  "lt_capital_reservation_id (demo_lot raw) = None" "lt_evidence_fingerprint (demo_lot raw) = ''A''"
  "lt_entry_fraction (demo_lot raw) = 1 / 100" "lt_entry_total_cost_wei (demo_lot raw) = 11" "lt_remaining_entry_cost_wei (demo_lot raw) = 11"
  by (simp_all add: demo_lot_def new_lot_def new_book_def next_id_def demo_entry_def demo_pending_def)

lemma demo_match: "matching_lot (demo_opened raw) (demo_entry raw ''A'') ''A'' = Some (demo_lot raw, demo_trial raw)"
  by (simp add: matching_lot_def newest_def map_filter_simps del: new_trial_simps)

lemma demo_reservation_simps [simp]:
  "rr_release_commit demo_reservation = ''r''" "rr_reservation_id demo_reservation = demo_identity"
  "rr_status demo_reservation = Active" "rr_reserved_fraction demo_reservation = 1 / 100" "rr_id demo_reservation = 1"
  "rr_portfolio_id demo_reservation = CANONICAL_PORTFOLIO_ID"
  by (simp_all add: demo_reservation_def new_reservation_def reserve_decision_def reserved_sum_def empty_capital_store_def Let_def)

lemma demo_ledger_simps [simp]:
  "cs_reservations demo_ledger = [demo_reservation]" "cs_settlements demo_ledger = []"
  by (simp_all add: demo_ledger_def empty_capital_store_def)

lemma demo_links:
  "recover_entry_link 1 (demo_entry raw ''A'') ''A'' demo_identity
      (demo_waiting\<lparr>sh_capital := demo_ledger, sh_book := demo_opened raw\<rparr>) = (Inr True, demo_linked raw)"
proof -
  let ?st = "demo_waiting\<lparr>sh_capital := demo_ledger, sh_book := demo_opened raw\<rparr>"
  have lines: "sh_lineage ?st = []" "sh_capital ?st = demo_ledger" "sh_book ?st = demo_opened raw"
    by (simp_all add: demo_waiting_def new_shared_def)
  have r: "reservation_of demo_ledger ''r'' demo_identity = Some demo_reservation" by (simp add: reservation_of_def)
  have unique: "trial_reservations_unique (set_reservation 1 demo_identity (demo_opened raw))"
    by (simp add: trial_reservations_unique_def)
  have "link_reservation 1 (demo_lot raw, demo_trial raw) demo_identity ?st = (Inr (), demo_linked raw)"
    using unique
    by (simp add: link_reservation_def Let_def lines r upsert_lineage_def del: set_reservation_simps)
      (simp add: demo_linked_def demo_line_def demo_waiting_def new_shared_def)
  then show ?thesis
    by (simp add: recover_entry_link_def lines demo_match Let_def or_text_def lineage_of_def)
qed

lemma demo_enters:
  assumes "0 < raw"
  shows "validate_with_shared_capital at_once at_once demo_sell 1 1 (demo_entry raw ''A'') demo_waiting = (Inr True, demo_linked raw)"
proof -
  have pending: "dict_get (bk_pending (sh_book demo_waiting)) TOKEN = Some demo_starter"
      "bk_release_commit (sh_book demo_waiting) = ''r''"
    by (simp_all add: demo_waiting_def dict_get_def new_book_def)
  have rid: "entry_reservation_id ''r'' (demo_entry raw ''A'') ''A'' = Inr demo_identity"
    by (simp add: entry_reservation_id_def demo_identity_def)
  have none: "recover_entry_link 1 (demo_entry raw ''A'') ''A'' demo_identity demo_waiting = (Inr False, demo_waiting)"
    by (simp add: recover_entry_link_def matching_lot_def newest_def demo_waiting_def new_book_def map_filter_simps)
  have commit: "commit_entry at_once demo_sell 1 1 (demo_entry raw ''A'') ''A'' demo_identity (demo_waiting\<lparr>sh_capital := demo_ledger\<rparr>)
      = (Inr True, demo_linked raw)"
    using demo_commits [OF assms] demo_links [of raw] by (simp add: commit_entry_def)
  show ?thesis
    unfolding validate_with_shared_capital_def Let_def
    by (simp add: pending rid none demo_reserves commit demo_pending_def)
qed

lemma demo_linked_run:
  assumes "0 < raw"
  shows "shared_run ''r'' 100 [share_pick ''A'', share_enter raw ''A''] = demo_linked raw"
  using shared_run_snoc [of "''r''" 100 "[share_pick ''A'']" "share_enter raw ''A''"] demo_waiting_run demo_enters [OF assms]
  by (simp add: maybe_open_with_shared_capital_def)

lemma demo_linked_ok: "0 < raw \<Longrightarrow> shared_ok (demo_linked raw)"
  using shared_run_ok [of "[share_pick ''A'', share_enter raw ''A'']" "''r''" 100] demo_linked_run by simp

theorem linked_lots_are_backed_witness:
  "\<exists>r\<in>set (cs_reservations (sh_capital (demo_linked 1000))).
     rr_reservation_id r = demo_identity \<and> rr_status r = Active \<and> 1 / 100 \<le> rr_reserved_fraction r + 1 / 10 ^ 12"
proof -
  have n: "demo_line 1000 \<in> set (sh_lineage (demo_linked 1000))" by (simp add: demo_linked_def)
  have l: "(demo_lot 1000)\<lparr>lt_capital_reservation_id := Some demo_identity\<rparr> \<in> set (bk_lots (sh_book (demo_linked 1000)))"
    by (simp add: demo_linked_def)
  have ok: "list_all shared_allowed [share_pick ''A'', share_enter 1000 ''A'']" by simp
  have same: "ln_trial_id (demo_line 1000) = 1" "ln_current_reservation_id (demo_line 1000) = demo_identity"
    by (simp_all add: demo_line_def new_lineage_def)
  note all = conjunct1 [OF linked_lots_are_backed [OF ok refl, of "''r''" 100]]
  have "demo_linked 1000 = shared_run ''r'' 100 [share_pick ''A'', share_enter 1000 ''A'']" using demo_linked_run [of 1000] by simp
  with bspec [OF bspec [OF all, of "demo_line 1000"], of "(demo_lot 1000)\<lparr>lt_capital_reservation_id := Some demo_identity\<rparr>"] n l same
  show ?thesis by simp
qed

text \<open>The lot of the demo lane after half of it was sold at a loss.\<close>

definition demo_half_lot :: lot_row where
  "demo_half_lot = (demo_lot 1000)\<lparr>lt_capital_reservation_id := Some demo_identity, lt_remaining_token_raw := 500,
     lt_remaining_fraction := 1 / 200, lt_remaining_entry_cost_wei := 5, lt_realized_exit_net_wei := 3\<rparr>"

lemma demo_half_release:
  "release_of demo_half_lot (demo_line raw) =
     \<lparr>rd_fraction = 1 / 200, rd_remaining = 1 / 200, rd_cost = 6, rd_net = 3, rd_sold_cost = 6, rd_realized_net = 3\<rparr>"
  by (simp add: release_of_def Let_def demo_half_lot_def demo_line_def new_lineage_def)

lemma demo_line_simps [simp]:
  "ln_trial_id (demo_line raw) = 1" "ln_current_reservation_id (demo_line raw) = demo_identity"
  "ln_release_commit (demo_line raw) = ''r''" "ln_settlement_sequence (demo_line raw) = 0"
  "ln_accounted_remaining_fraction (demo_line raw) = 1 / 100"
  by (simp_all add: demo_line_def new_lineage_def)

lemma demo_half_settles: "snd (settle_lot_delta 2 demo_half_lot (demo_line 1000) (demo_linked 1000)) \<noteq> demo_linked 1000"
proof -
  have l: "lt_trial_id demo_half_lot = 1" by (simp add: demo_half_lot_def)
  have named: "demo_identity \<noteq> []" "demo_identity \<noteq> residual_id 1 1"
    by (simp_all add: demo_identity_def residual_id_def TOKEN_def)
  have r: "reservation_of demo_ledger ''r'' demo_identity = Some demo_reservation" by (simp add: reservation_of_def)
  have unique: "trial_reservations_unique (set_reservation 1 (residual_id 1 1) (set_reservation 1 demo_identity (demo_opened 1000)))"
    by (simp add: trial_reservations_unique_def)
  have "settle_lot_delta 2 demo_half_lot (demo_line 1000) (demo_linked 1000)
      = settle_slice 2 1 (demo_line 1000) (release_of demo_half_lot (demo_line 1000)) demo_reservation (demo_linked 1000)"
    using named r l by (simp add: settle_lot_delta_def demo_half_release Let_def) (simp add: demo_linked_def)
  also have "sh_lineage (snd \<dots>) \<noteq> sh_lineage (demo_linked 1000)"
    using unique named
    by (simp add: settle_slice_def demo_half_release Let_def insert_settlement_def insert_reservation_def
        residual_reservation_def demo_linked_def account_def del: set_reservation_simps)
      (simp add: demo_line_def new_lineage_def)
  finally show ?thesis by metis
qed

theorem slice_settles_once_witness:
  "realized_total (sh_capital (snd (settle_lot_delta 2 demo_half_lot (demo_line 1000) (demo_linked 1000)))) = - (1 / 400)"
proof -
  have n: "lineage_of (demo_linked 1000) (lt_trial_id demo_half_lot) = Some (demo_line 1000)"
    by (simp add: lineage_of_def demo_linked_def demo_half_lot_def)
  have start: "realized_total (sh_capital (demo_linked 1000)) = 0" by (simp add: demo_linked_def realized_total_def)
  obtain reply st' where call: "settle_lot_delta 2 demo_half_lot (demo_line 1000) (demo_linked 1000) = (reply, st')" by force
  from slice_settles_once [OF demo_linked_ok n refl call _ refl, of 3] demo_half_settles call start
  show ?thesis by (simp add: demo_half_release)
qed

end
