(* ===== verification/SharedFaults.thy ===== *)
theory SharedFaults
  imports SharedRuns
begin

text \<open>
  Where the shared paper capital falls short: an evidence whose entry was refused once is refused for
  ever, and the net asset value counts lots that were never linked twice.
\<close>

subsection \<open>Reservations that are no longer active\<close>

definition inactive_kept :: "capital_store \<Rightarrow> capital_store \<Rightarrow> bool" where
  "inactive_kept s s' \<longleftrightarrow> (\<forall>r\<in>set (cs_reservations s). rr_status r \<noteq> Active \<longrightarrow> r \<in> set (cs_reservations s'))"

lemma inactive_kept_refl: "cs_reservations s' = cs_reservations s \<Longrightarrow> inactive_kept s s'"
  by (simp add: inactive_kept_def)

lemma update_active_inactive: "inactive_kept s (update_active i f s)"
  by (force simp: inactive_kept_def update_active_def)

lemma inactive_kept_metric [simp]: "inactive_kept s (metric c release oper k s') = inactive_kept s s'"
  by (simp add: inactive_kept_def)

lemma cancel_inactive_kept: "inactive_kept s (snd (cancel_paper_capital c release rid reason s))"
  by (simp add: cancel_paper_capital_def Let_def update_active_inactive inactive_kept_refl split: sum.split)

lemma update_active_after: "cs_reservations s' = cs_reservations s \<Longrightarrow> inactive_kept s (update_active i f s')"
  using update_active_inactive [of s' i f] by (simp add: inactive_kept_def)

lemma settle_inactive_kept: "inactive_kept s (snd (settle_paper_capital c release rid sid v s))"
  by (auto simp: settle_paper_capital_def Let_def inactive_kept_refl
      intro: update_active_after [OF insert_settlement_reservations] split: sum.split list.split)

lemma capital_step_inactive:
  assumes "within_capacity 1 s" and "capacity_within 1 e"
  shows "inactive_kept s (fst (capital_step s e))"
proof (cases e)
  case (CReserve c release rid lane cand q capacity al mn)
  obtain reply s' where call: "reserve_paper_capital c release rid lane cand q capacity al mn s = (reply, s')" by force
  with reserve_call(2) [OF assms(1) _ call] assms(2) CReserve show ?thesis by (auto simp: inactive_kept_def)
next
  case (CCancel c release rid reason)
  with cancel_inactive_kept show ?thesis by simp
next
  case (CSettle c release rid sid v)
  with settle_inactive_kept [of s c release rid sid v] show ?thesis
    by (cases "settle_paper_capital c release rid sid v s") (auto split: sum.split)
next
  case (CRecord c release cand key stage payload)
  then show ?thesis by (simp add: record_lifecycle_event_def inactive_kept_refl)
qed

subsection \<open>A refused identity stays refused\<close>

text \<open>The identity has a row that is not active, and no lot.\<close>

definition no_lot_of :: "book \<Rightarrow> string \<Rightarrow> string \<Rightarrow> string \<Rightarrow> bool" where
  "no_lot_of b token market evidence \<longleftrightarrow> (\<forall>t\<in>set (bk_trials b). \<forall>l\<in>set (bk_lots b).
     tl_release_commit t = bk_release_commit b \<longrightarrow> tl_id t = lt_trial_id l \<longrightarrow> lt_evidence_fingerprint l = evidence \<longrightarrow>
     tl_token t = token \<longrightarrow> tl_market t \<noteq> market)"

definition spent :: "capital_store \<Rightarrow> string \<Rightarrow> bool" where
  "spent s rid \<longleftrightarrow> (\<exists>r\<in>set (cs_reservations s). rr_reservation_id r = rid \<and> rr_status r \<noteq> Active)"

definition refused_identity :: "shared \<Rightarrow> string \<Rightarrow> string \<Rightarrow> string \<Rightarrow> bool" where
  "refused_identity st token market evidence \<longleftrightarrow> spent (sh_capital st) (entry_name token market evidence)
     \<and> no_lot_of (sh_book st) token market evidence"

lemma spent_kept: "spent s rid \<Longrightarrow> inactive_kept s s' \<Longrightarrow> spent s' rid"
  by (auto simp: spent_def inactive_kept_def)

lemma no_lot_match:
  "matching_lot b n evidence = None \<longleftrightarrow>
     no_lot_of b (clean_address (Some (en_token n))) (clean_address (Some (en_market n))) evidence"
  by (auto simp: matching_lot_def newest_None find_map_None find_None_iff no_lot_of_def)

text \<open>Books with the same trials whose lots have the same trials and evidence.\<close>

definition same_names :: "book \<Rightarrow> book \<Rightarrow> bool" where
  "same_names b b' \<longleftrightarrow> bk_release_commit b' = bk_release_commit b
     \<and> (\<forall>t\<in>set (bk_trials b'). \<exists>u\<in>set (bk_trials b). tl_id u = tl_id t \<and> tl_release_commit u = tl_release_commit t
          \<and> tl_token u = tl_token t \<and> tl_market u = tl_market t)
     \<and> (\<forall>l\<in>set (bk_lots b'). \<exists>k\<in>set (bk_lots b). lt_trial_id k = lt_trial_id l
          \<and> lt_evidence_fingerprint k = lt_evidence_fingerprint l)"

lemma no_lot_same_names: "no_lot_of b token market evidence \<Longrightarrow> same_names b b' \<Longrightarrow> no_lot_of b' token market evidence"
  unfolding no_lot_of_def same_names_def by metis

lemma same_names_refl: "bk_release_commit b' = bk_release_commit b \<Longrightarrow> bk_trials b' = bk_trials b \<Longrightarrow> bk_lots b' = bk_lots b \<Longrightarrow> same_names b b'"
  by (auto simp: same_names_def)

lemma same_names_set_reservation: "same_names b (set_reservation i rid b)"
  by (force simp: same_names_def)

lemma same_names_exit:
  assumes ok: "book_ok b" and x: "0 < xo_sell_raw x" and e: "apply_exit x q now p b = (r, b')"
  shows "same_names b b'"
proof (cases "b' = b")
  case False
  have r: "r = Inr ()"
    using exit_cases [of x q now p b] e False write_exit_result [of x q now p _ b]
    by (metis old.unit.exhaust prod.inject sumE)
  with e False obtain as where as: "write_exit x q now p as b = (Inr (), b')" "slices_of b (ps_id p) (xo_sell_raw x) as"
    using apply_exit_wrote [OF ok x] by metis
  have "set (bk_lots b') = (set (bk_lots b) - set (map al_lot as)) \<union> set (map (sold_lot now) as)"
    unfolding write_exit_lots_of [OF as(1)] using book_okD(2) [OF ok] slices_of_in [OF as(2)]
    by (intro write_lots_set) simp_all
  moreover have "al_lot a \<in> set (bk_lots b)" if "a \<in> set as" for a using slice_lot_ok(4) [OF ok as(2) that] by simp
  moreover have "bk_trials b' = bk_trials b" using write_exit_cases [OF as(1)] by (metis prod_cases3)
  ultimately show ?thesis
    using write_exit_release [OF as(1)] by (auto simp: same_names_def sold_lot_def Let_def)
qed (simp add: same_names_refl)

text \<open>Steps that keep all names and all reservations that are not active.\<close>

definition mild :: "shared \<Rightarrow> shared \<Rightarrow> bool" where
  "mild st st' \<longleftrightarrow> same_names (sh_book st) (sh_book st') \<and> inactive_kept (sh_capital st) (sh_capital st')"

lemma mild_refl [simp]: "mild st st"
  by (simp add: mild_def same_names_refl inactive_kept_refl)

lemma mild_trans [trans]: "mild st st' \<Longrightarrow> mild st' st'' \<Longrightarrow> mild st st''"
  unfolding mild_def same_names_def inactive_kept_def by metis

lemma mild_book: "same_names (sh_book st) b \<Longrightarrow> mild st (st\<lparr>sh_book := b\<rparr>)"
  by (simp add: mild_def inactive_kept_refl)

lemma mild_capital: "inactive_kept (sh_capital st) s \<Longrightarrow> mild st (st\<lparr>sh_capital := s\<rparr>)"
  by (simp add: mild_def same_names_refl)

lemma refused_mild: "refused_identity st token market evidence \<Longrightarrow> mild st st' \<Longrightarrow> refused_identity st' token market evidence"
  by (auto simp: refused_identity_def mild_def intro: spent_kept no_lot_same_names)

lemma sliced_inactive:
  assumes "rows_ok (cs_reservations s)" and "r \<in> set (cs_reservations s)" and "rr_status r = Active"
  shows "inactive_kept s (sliced now i n d r s)"
  using assms(3) by (auto simp: inactive_kept_def sliced_def rewrite_row_set [OF assms(1, 2)])

lemma settle_slice_mild:
  assumes rows: "rows_ok (cs_reservations (sh_capital st))"
    and r: "reservation_of (sh_capital st) (ln_release_commit n) (ln_current_reservation_id n) = Some r" "rr_status r = Active"
    and call: "settle_slice now i n d r st = (reply, st')"
  shows "mild st st'"
proof -
  note r' = reservation_of_Some [OF r(1)]
  have kept: "inactive_kept (sh_capital st) (sliced now i n d r (sh_capital st))"
    by (rule sliced_inactive [OF rows _ r(2)]) (use r' in simp)
  then have more: "inactive_kept (sh_capital st) ((sliced now i n d r (sh_capital st))\<lparr>cs_reservations :=
      cs_reservations (sliced now i n d r (sh_capital st)) @ [q]\<rparr>)" for q
    by (simp add: inactive_kept_def)
  have names: "same_names (sh_book st) (set_reservation i rid (sh_book st))" for rid by (rule same_names_set_reservation)
  have "st' = st \<or> (sh_book st' = sh_book st \<and> sh_capital st' = sliced now i n d r (sh_capital st))
      \<or> (\<exists>rid q. sh_book st' = set_reservation i rid (sh_book st) \<and> sh_capital st' = (sliced now i n d r (sh_capital st))\<lparr>cs_reservations :=
          cs_reservations (sliced now i n d r (sh_capital st)) @ [q]\<rparr>)"
    using settle_slice_cases [OF rows conjunct1 [OF r'] conjunct2 [OF conjunct2 [OF r']] conjunct1 [OF conjunct2 [OF r']] call]
    by (elim disjE conjE) (simp_all add: Let_def, blast)
  then show ?thesis using kept more names by (auto simp: mild_def same_names_refl inactive_kept_refl simp del: set_reservation_simps)
qed

lemma settle_lot_delta_mild:
  assumes "rows_ok (cs_reservations (sh_capital st))" and "settle_lot_delta now l n st = (reply, st')"
  shows "mild st st'"
  using settle_lot_delta_cases [OF assms(2)] by (auto intro: settle_slice_mild [OF assms(1)])

lemma sync_lots_mild:
  "shared_ok st \<Longrightarrow> lots_agree ls (sh_book st) \<Longrightarrow> sync_lots now ls st = (reply, st') \<Longrightarrow> mild st st'"
proof (induction ls arbitrary: st)
  case (Cons l ls)
  show ?case
  proof (cases "lineage_of st (lt_trial_id l)")
    case None
    with Cons.prems(3) have "sync_lots now ls st = (reply, st')" by (simp only: sync_lots.simps option.case)
    then show ?thesis by (rule Cons.IH [OF Cons.prems(1) lots_agree_tail [OF Cons.prems(2)]])
  next
    case (Some n)
    obtain r1 st1 where call: "settle_lot_delta now l n st = (r1, st1)" by force
    have k: "shared_ok st1 \<and> (sh_book st1 = sh_book st \<or> (\<exists>i rid. sh_book st1 = set_reservation i rid (sh_book st)))"
    proof (rule settle_lot_delta_keeps [OF Cons.prems(1) Some _ call])
      show "lt_remaining_fraction k = lt_remaining_fraction l"
        if "k \<in> set (bk_lots (sh_book st))" "lt_trial_id k = lt_trial_id l" for k
        by (rule lots_agreeD [OF Cons.prems(2) _ that]) simp
    qed
    have agree: "lots_agree ls (sh_book st1)"
      by (rule lots_agree_set_reservation [OF lots_agree_tail [OF Cons.prems(2)] conjunct2 [OF k]])
    have step: "mild st st1"
      by (rule settle_lot_delta_mild [OF _ call]) (use shared_okD(2) [OF Cons.prems(1)] in \<open>simp add: within_capacity_def\<close>)
    show ?thesis
    proof (cases r1)
      case (Inl e)
      with Cons.prems(3) Some call have "st' = st1" by (simp only: sync_lots.simps option.case split_conv sum.case prod.inject prod.case)
      with step show ?thesis by (simp only:)
    next
      case (Inr u)
      with Cons.prems(3) Some call have "sync_lots now ls st1 = (reply, st')"
        by (simp only: sync_lots.simps option.case split_conv sum.case prod.case)
      with step show ?thesis by (rule mild_trans [OF _ Cons.IH [OF conjunct1 [OF k] agree]])
    qed
  qed
qed simp

lemma shared_exit_mild:
  assumes ok: "shared_ok st" and p: "p \<in> set (bk_positions (sh_book st))" "open_status (ps_status p)" "exit_fits x p"
    and call: "apply_exit_with_shared_capital x q now p st = (reply, st')"
  shows "mild st st'"
proof -
  obtain r b where e: "apply_exit x q now p (sh_book st) = (r, b)" by force
  have pos: "0 < xo_sell_raw x" using p(3) by (simp add: exit_fits_def)
  have b: "book_ok b" using apply_exit_ok [OF shared_okD(1) [OF ok] p, of q now] e by simp
  have ok': "shared_ok (st\<lparr>sh_book := b\<rparr>)" by (rule shared_ok_book [OF ok apply_exit_grows [OF shared_okD(1) [OF ok] pos e] b])
  have book: "mild st (st\<lparr>sh_book := b\<rparr>)" by (rule mild_book [OF same_names_exit [OF shared_okD(1) [OF ok] pos e]])
  obtain r2 st2 where s: "sync_position_capital now (ps_id p) (st\<lparr>sh_book := b\<rparr>) = (r2, st2)" by force
  have "mild (st\<lparr>sh_book := b\<rparr>) st2"
    using sync_lots_mild [OF ok' _ s [unfolded sync_position_capital_def]] position_lots_agree [OF b] by simp
  with book have "mild st st2" by (rule mild_trans)
  with book show ?thesis using call e s by (auto simp: apply_exit_with_shared_capital_def split: sum.splits if_splits)
qed

lemma shared_settle_mild:
  assumes ok: "shared_ok st"
    and call: "settle_one_with_shared_capital pol xp quote flow now (\<lambda>_ b. (Inr (), b)) trial (sh_book st) st = (reply, st')"
  shows "mild st st'"
proof (cases "settle_plan_of pol xp quote flow now trial (sh_book st)")
  case (Mark p)
  have "same_names (sh_book st) (mark_runner (ps_id p) now (sh_book st))"
    by (rule same_names_refl) (simp_all add: mark_runner_def update_position_def)
  with call Mark mild_book show ?thesis by (auto simp: settle_one_with_shared_capital_def)
next
  case (Exit p x q)
  have p: "p \<in> set (bk_positions (sh_book st))" "open_status (ps_status p)" "exit_fits x p"
    using settle_plan_rows(2) [OF shared_okD(1) [OF ok] Exit] by simp_all
  from call Exit shared_exit_mild [OF ok p] show ?thesis by (simp add: settle_one_with_shared_capital_def)
qed (use call in \<open>simp_all add: settle_one_with_shared_capital_def\<close>)

text \<open>Entries of other identities.\<close>

lemma validate_no_lot:
  assumes ok: "book_ok b" and none: "no_lot_of b token market evidence"
    and call: "validate_and_commit quote latency now n b = (r, b')"
    and other: "\<not> (clean_address (Some (en_token n)) = token \<and> clean_address (Some (en_market n)) = market
      \<and> pending_evidence b n = evidence)"
  shows "no_lot_of b' token market evidence"
proof -
  consider (same) "b' = b" | (wrote) pd b1 where "dict_get (bk_pending b) (clean_address (Some (en_token n))) = Some pd"
      "write_lot n pd now (open_row (clean_address (Some (en_token n))) b) b = Inr b1"
      "b' = drop_pending (clean_address (Some (en_token n))) b1"
    using validate_cases [of quote latency now n b] persist_lot_cases [of now n _ b] call
    by (metis prod.inject)
  then show ?thesis
  proof cases
    case wrote
    define t where "t = new_trial n (pd_stage pd) now b"
    obtain l where w: "bk_trials b1 = bk_trials b @ [t]" "bk_lots b1 = bk_lots b @ [l]"
        "bk_release_commit b1 = bk_release_commit b" "lt_trial_id l = tl_id t" "lt_evidence_fingerprint l = pd_evidence_fingerprint pd"
      unfolding t_def by (rule write_lot_shape [OF wrote(2)])
    have t: "tl_token t = clean_address (Some (en_token n))" "tl_market t = clean_address (Some (en_market n))"
      by (simp_all add: t_def new_trial_def)
    have fresh: "tl_id t \<notin> tl_id ` set (bk_trials b)" by (simp add: t_def)
    have olds: "lt_trial_id k \<in> tl_id ` set (bk_trials b)" if "k \<in> set (bk_lots b)" for k
      using book_okD(7) [OF ok that] by (simp add: lot_ok_def)
    have ev: "pending_evidence b n = lt_evidence_fingerprint l" using wrote(1) w(5) by (simp add: pending_evidence_def)
    have "tl_market u \<noteq> market"
      if u: "u \<in> set (bk_trials b @ [t])" and k: "k \<in> set (bk_lots b @ [l])" and m: "tl_release_commit u = bk_release_commit b"
        "tl_id u = lt_trial_id k" "lt_evidence_fingerprint k = evidence" "tl_token u = token" for u k
    proof (cases "u \<in> set (bk_trials b)")
      case True
      have "k \<noteq> l" using True m(2) w(4) fresh by (metis imageI)
      with k have "k \<in> set (bk_lots b)" by simp
      with none True m show ?thesis by (simp add: no_lot_of_def)
    next
      case False
      then have "u = t" using u by simp
      moreover have "k = l" using k olds [of k] m(2) fresh \<open>u = t\<close> by auto
      ultimately show ?thesis using other m t ev by auto
    qed
    then show ?thesis by (simp add: no_lot_of_def wrote(3) drop_pending_def w(1-3))
  qed (use none in simp)
qed

lemma recover_mild:
  assumes "recover_entry_link now n evidence rid st = (reply, st')"
  shows "mild st st'"
proof (cases "matching_lot (sh_book st) n evidence")
  case None
  with assms show ?thesis by (simp add: recover_entry_link_def)
next
  case (Some lt)
  obtain l t where lt: "lt = (l, t)" by (cases lt)
  obtain r' st'' where link: "link_reservation now (l, t) rid st = (r', st'')" by force
  have "mild st st''"
    using link_cases [OF link] same_names_set_reservation [of "sh_book st" "lt_trial_id l" rid]
    by (auto simp: mild_def inactive_kept_refl same_names_refl simp del: set_reservation_simps)
  with assms Some lt link show ?thesis by (auto simp: recover_entry_link_def Let_def split: if_splits sum.splits)
qed

lemma reserve_entry_mild:
  assumes "shared_ok st" and "reserve_entry c rid evidence fraction st = (reply, st')"
  shows "mild st st'"
proof -
  obtain r s where call: "reserve_paper_capital c (bk_release_commit (sh_book st)) rid ''robinhood'' evidence
      (Number fraction) (Number DEFAULT_CAPACITY_FRACTION) False (Number fraction) (sh_capital st) = (r, s)" by force
  have "set (cs_reservations (sh_capital st)) \<subseteq> set (cs_reservations s)"
    by (rule reserve_call(2) [OF shared_okD(2) [OF assms(1)] _ call]) (simp add: DEFAULT_CAPACITY_FRACTION_def)
  then have "inactive_kept (sh_capital st) s" by (auto simp: inactive_kept_def)
  with assms(2) call show ?thesis by (auto simp: reserve_entry_def intro: mild_capital)
qed

lemma cancel_entry_mild: "mild st (snd (cancel_unlinked_reservation c rid st))"
  using cancel_inactive_kept [of "sh_capital st" c]
  by (auto simp: cancel_unlinked_reservation_def split_beta intro!: mild_capital)

lemma commit_entry_refused:
  assumes ok: "shared_ok st" and dead: "refused_identity st token market evidence"
    and call: "commit_entry c quote latency now n ev rid st = (reply, st')"
    and other: "\<not> (clean_address (Some (en_token n)) = token \<and> clean_address (Some (en_market n)) = market
      \<and> pending_evidence (sh_book st) n = evidence)"
  shows "refused_identity st' token market evidence"
proof -
  obtain r b where v: "validate_and_commit quote latency now n (sh_book st) = (r, b)" by force
  have none: "no_lot_of (sh_book st) token market evidence" using dead by (simp add: refused_identity_def)
  have dead1: "refused_identity (st\<lparr>sh_book := b\<rparr>) token market evidence"
    using validate_no_lot [OF shared_okD(1) [OF ok] none v other] dead by (simp add: refused_identity_def)
  obtain r1 st1 where rec: "recover_entry_link now n ev rid (st\<lparr>sh_book := b\<rparr>) = (r1, st1)" by force
  obtain r2 st2 where can: "cancel_unlinked_reservation c rid (st\<lparr>sh_book := b\<rparr>) = (r2, st2)" by force
  have "mild (st\<lparr>sh_book := b\<rparr>) st1" "mild (st\<lparr>sh_book := b\<rparr>) st2"
    using recover_mild [OF rec] cancel_entry_mild [of "st\<lparr>sh_book := b\<rparr>" c rid] can by simp_all
  note later = refused_mild [OF dead1 this(1)] refused_mild [OF dead1 this(2)]
  have "st' = st1 \<or> st' = st2"
    using call unfolding commit_entry_def v by (auto simp: rec can split: sum.splits bool.splits)
  with later show ?thesis by auto
qed

lemma validate_shared_unfold:
  assumes "pending_evidence (sh_book st) n = ev" and "ev \<noteq> []"
    and "entry_reservation_id (bk_release_commit (sh_book st)) n ev = Inr rid"
  shows "validate_with_shared_capital c c' quote latency now n st =
    (case recover_entry_link now n ev rid st of
       (Inl e, st1) \<Rightarrow> (Inl e, st1)
     | (Inr True, st1) \<Rightarrow> (Inr True, st1)
     | (Inr False, st1) \<Rightarrow>
         (if max 0 (en_fraction n) \<le> 0 then (Inr False, st1) else
          case reserve_entry c rid ev (max 0 (en_fraction n)) st1 of
            (Inl e, st2) \<Rightarrow> (Inl e, st2)
          | (Inr reply, st2) \<Rightarrow>
              if rr_status (rp_row reply) \<noteq> Active then (Inr False, st2)
              else if rr_reserved_fraction (rp_row reply) + 1 / 10 ^ 12 < max 0 (en_fraction n) then (Inr False, st2)
              else commit_entry c' quote latency now n ev rid st2))"
  unfolding validate_with_shared_capital_def Let_def pending_evidence_def [symmetric] assms(1) using assms(2, 3) by simp

lemma validate_shared_error:
  assumes "pending_evidence (sh_book st) n = ev" and "ev \<noteq> []"
    and "entry_reservation_id (bk_release_commit (sh_book st)) n ev = Inl e"
  shows "validate_with_shared_capital c c' quote latency now n st = (Inl e, st)"
  unfolding validate_with_shared_capital_def Let_def pending_evidence_def [symmetric] assms(1) using assms(2, 3) by simp

lemma validate_shared_untracked:
  assumes "pending_evidence (sh_book st) n = []"
  shows "validate_with_shared_capital c c' quote latency now n st =
    (let (r, b) = validate_and_commit quote latency now n (sh_book st) in (r, st\<lparr>sh_book := b\<rparr>))"
  unfolding validate_with_shared_capital_def Let_def pending_evidence_def [symmetric] assms(1) by simp

text \<open>An entry of a refused identity is refused, and changes no table but the metrics of the store.\<close>

lemma refused_entry:
  assumes ok: "shared_ok st" and dead: "refused_identity st token market evidence"
    and n: "clean_address (Some (en_token n)) = token" "clean_address (Some (en_market n)) = market"
      "pending_evidence (sh_book st) n = evidence" "evidence \<noteq> []"
    and call: "validate_with_shared_capital c c' quote latency now n st = (reply, st')"
  shows "reply \<noteq> Inr True \<and> sh_book st' = sh_book st \<and> sh_lineage st' = sh_lineage st
    \<and> cs_reservations (sh_capital st') = cs_reservations (sh_capital st)"
proof (cases "entry_reservation_id (bk_release_commit (sh_book st)) n evidence")
  case (Inl e)
  with call show ?thesis unfolding validate_shared_error [OF n(3, 4) Inl] by auto
next
  case (Inr rid)
  have rid: "rid = entry_name token market evidence" using entry_reservation_idE(1) [OF Inr] n by simp
  have "matching_lot (sh_book st) n evidence = None"
    using dead n(1, 2) by (simp add: no_lot_match refused_identity_def)
  then have rec: "recover_entry_link now n evidence rid st = (Inr False, st)" by (simp add: recover_entry_link_def)
  obtain r where r: "r \<in> set (cs_reservations (sh_capital st))" "rr_reservation_id r = rid" "rr_status r \<noteq> Active"
    using dead rid by (auto simp: refused_identity_def spent_def)
  have rows: "rows_ok (cs_reservations (sh_capital st))" using shared_okD(2) [OF ok] by (simp add: within_capacity_def)
  have "rid \<noteq> []" by (simp add: rid entry_name_def)
  have res: "(\<exists>e. reserve_entry c rid evidence f st = (Inl e, st))
     \<or> (\<exists>k v. reserve_entry c rid evidence f st = (Inr v, st\<lparr>sh_capital := metric c (bk_release_commit (sh_book st)) ''reserve_replay'' k (sh_capital st)\<rparr>)
          \<and> rr_status (rp_row v) \<noteq> Active)" for f
  proof (cases "begin_immediate 0 (cc_attempts c)")
    case (Inl e)
    then show ?thesis
      using n(4) \<open>rid \<noteq> []\<close> by (simp add: reserve_entry_def reserve_paper_capital_def)
  next
    case (Inr k)
    with reserve_present [OF rows r(1) Inr, of evidence "''robinhood''"] n(4) \<open>rid \<noteq> []\<close> r(2, 3)
    show ?thesis by (simp add: reserve_entry_def) blast
  qed
  have step: "(reply, st') = (if max 0 (en_fraction n) \<le> 0 then (Inr False, st) else
          case reserve_entry c rid evidence (max 0 (en_fraction n)) st of
            (Inl e, st2) \<Rightarrow> (Inl e, st2)
          | (Inr reply, st2) \<Rightarrow>
              if rr_status (rp_row reply) \<noteq> Active then (Inr False, st2)
              else if rr_reserved_fraction (rp_row reply) + 1 / 10 ^ 12 < max 0 (en_fraction n) then (Inr False, st2)
              else commit_entry c' quote latency now n evidence rid st2)"
    using call unfolding validate_shared_unfold [OF n(3, 4) Inr] rec by simp
  show ?thesis
  proof (cases "max 0 (en_fraction n) \<le> 0")
    case True
    with step show ?thesis by simp
  next
    case False
    from res [of "max 0 (en_fraction n)"] show ?thesis
    proof (elim disjE exE conjE)
      fix e
      assume "reserve_entry c rid evidence (max 0 (en_fraction n)) st = (Inl e, st)"
      with step False show ?thesis by simp
    next
      fix k v
      assume "reserve_entry c rid evidence (max 0 (en_fraction n)) st
          = (Inr v, st\<lparr>sh_capital := metric c (bk_release_commit (sh_book st)) ''reserve_replay'' k (sh_capital st)\<rparr>)"
        "rr_status (rp_row v) \<noteq> Active"
      with step False show ?thesis by (simp add: metric_def)
    qed
  qed
qed

lemma other_entry_refused:
  assumes ok: "shared_ok st" and dead: "refused_identity st token market evidence"
    and other: "\<not> (clean_address (Some (en_token n)) = token \<and> clean_address (Some (en_market n)) = market
      \<and> pending_evidence (sh_book st) n = evidence)"
    and call: "validate_with_shared_capital c c' quote latency now n st = (reply, st')"
  shows "refused_identity st' token market evidence"
proof (cases "pending_evidence (sh_book st) n = []")
  case True
  obtain r b where v: "validate_and_commit quote latency now n (sh_book st) = (r, b)" by force
  have "no_lot_of b token market evidence"
    using validate_no_lot [OF shared_okD(1) [OF ok] _ v other] dead by (simp add: refused_identity_def)
  with dead call v show ?thesis unfolding validate_shared_untracked [OF True] by (auto simp: refused_identity_def)
next
  case tracked: False
  show ?thesis
  proof (cases "entry_reservation_id (bk_release_commit (sh_book st)) n (pending_evidence (sh_book st) n)")
    case (Inl e)
    with call dead show ?thesis unfolding validate_shared_error [OF refl tracked Inl] by auto
  next
    case rid: (Inr rid)
    obtain r1 st1 where r1: "recover_entry_link now n (pending_evidence (sh_book st) n) rid st = (r1, st1)" by force
    note k1 = recover_keeps [OF ok rid r1]
    have dead1: "refused_identity st1 token market evidence" by (rule refused_mild [OF dead recover_mild [OF r1]])
    show ?thesis
    proof (cases "r1 = Inr False")
      case False
      then have "st' = st1"
        using call unfolding validate_shared_unfold [OF refl tracked rid] r1 by (auto split: sum.splits bool.splits)
      with dead1 show ?thesis by simp
    next
      case True
      then have st1: "st1 = st" using k1(3) by simp
      define f where "f = max 0 (en_fraction n)"
      obtain r2 st2 where r2: "reserve_entry c rid (pending_evidence (sh_book st) n) f st = (r2, st2)" by force
      note k2 = reserve_entry_keeps [OF ok rid r2]
      have dead2: "refused_identity st2 token market evidence" by (rule refused_mild [OF dead reserve_entry_mild [OF ok r2]])
      obtain r3 st3 where r3: "commit_entry c' quote latency now n (pending_evidence (sh_book st) n) rid st2 = (r3, st3)" by force
      have dead3: "refused_identity st3 token market evidence"
        by (rule commit_entry_refused [OF k2(1) dead2 r3]) (use other k2(2) in simp)
      have "st' = st \<or> st' = st2 \<or> st' = st3"
        using call unfolding validate_shared_unfold [OF refl tracked rid] r1 True st1 f_def [symmetric]
        by (auto simp: r2 r3 split: sum.splits if_splits)
      with dead dead2 dead3 show ?thesis by auto
    qed
  qed
qed

lemma refused_identity_rows:
  "refused_identity st token market evidence \<Longrightarrow> sh_book st' = sh_book st \<Longrightarrow>
     cs_reservations (sh_capital st') = cs_reservations (sh_capital st) \<Longrightarrow> refused_identity st' token market evidence"
  by (simp add: refused_identity_def spent_def)

lemma settle_one_names:
  assumes "book_ok b"
  shows "same_names b (snd (settle_one_with_lifecycle pol xp quote flow now (\<lambda>_ b. (Inr (), b)) trial b b))"
proof (cases "settle_plan_of pol xp quote flow now trial b")
  case (Exit p x q)
  obtain r b' where e: "apply_exit x q now p b = (r, b')" by force
  have "exit_fits x p" using settle_plan_rows(2) [OF assms Exit] by simp
  then have "0 < xo_sell_raw x" by (simp add: exit_fits_def)
  from same_names_exit [OF assms this e] Exit e show ?thesis by (simp add: settle_one_with_lifecycle_def)
qed (simp_all add: settle_one_with_lifecycle_def same_names_refl mark_runner_def update_position_def)

lemma cut_entry_mild:
  assumes "shared_ok st"
  shows "mild st (cut_entry c now n st)"
proof (cases "entry_reservation_id (bk_release_commit (sh_book st)) n (pending_evidence (sh_book st) n)")
  case (Inr rid)
  obtain r st' where r: "reserve_entry c rid (pending_evidence (sh_book st) n) (max 0 (en_fraction n)) st = (r, st')" by force
  have "cut_entry c now n st = st \<or> cut_entry c now n st = st'" unfolding cut_entry_def Let_def Inr sum.case r snd_conv by simp
  with reserve_entry_mild [OF assms r] show ?thesis by auto
qed (simp add: cut_entry_def Let_def)

lemma inactive_kept_trans: "inactive_kept s s' \<Longrightarrow> inactive_kept s' s'' \<Longrightarrow> inactive_kept s s''"
  by (simp add: inactive_kept_def)

lemma restore_settlements_inactive: "inactive_kept s (snd (restore_settlements cs release rows s))"
proof (induction rows arbitrary: s)
  case (Cons row rows)
  obtain t rid r where row: "row = (t, rid, r)" by (cases row) auto
  obtain reply s' where call: "settle_paper_capital (cs (tl_id t)) release rid (''robinhood-trial:'' @ nat_text (tl_id t))
      (Number (oc_net_return r)) s = (reply, s')" by force
  have first: "inactive_kept s s'" using settle_inactive_kept [of s "cs (tl_id t)" release rid] call by (metis snd_conv)
  with inactive_kept_trans [OF first Cons.IH] show ?case
    unfolding row restore_settlements.simps call by (simp split: sum.split)
qed (simp add: inactive_kept_refl)

lemma start_lane_mild:
  assumes "shared_ok st"
  shows "mild st (start_lane cs pol fp frozen now st)"
proof -
  obtain r st' where r: "restore_settled_capital cs st = (r, st')" by force
  have ok: "shared_ok st'" using restore_keeps [OF assms, of cs] r by simp
  have st': "mild st st'"
    using r restore_settlements_inactive mild_capital by (auto simp: restore_settled_capital_def split_beta)
  have "same_names (sh_book st') (snd (bootstrap_existing_open_trials pol fp frozen now (new_process (sh_book st'))))"
    using adoptable_none [OF shared_okD(1) [OF ok]]
    by (simp add: bootstrap_existing_open_trials_def split: option.split) (simp add: new_process_def same_names_refl)
  then have "mild st (st'\<lparr>sh_book := snd (bootstrap_existing_open_trials pol fp frozen now (new_process (sh_book st')))\<rparr>)"
    by (rule mild_trans [OF st' mild_book])
  with st' r show ?thesis by (simp add: start_lane_def update_book_def split: sum.split)
qed

lemma refused_step:
  assumes ok: "shared_ok st" and dead: "refused_identity st token market evidence" and ev: "evidence \<noteq> []"
    and allowed: "shared_allowed e"
  shows "refused_identity (fst (shared_step st e)) token market evidence"
proof (cases e)
  case (XChoose pol fp now tk mk k c)
  have "same_names (sh_book st) (snd (choose_with_lifecycle pol fp now tk mk k c (sh_book st)))"
    using choose_keeps [of pol fp now tk mk k c "sh_book st"] by (auto intro: same_names_refl)
  with XChoose show ?thesis by (simp add: update_book_def refused_mild [OF dead] mild_book)
next
  case (XEntry c c' quote latency now captured)
  show ?thesis
  proof (cases captured)
    case Nil
    with XEntry dead show ?thesis by (simp add: maybe_open_with_shared_capital_def)
  next
    case (Cons n rest)
    obtain reply st' where call: "validate_with_shared_capital c c' quote latency now n st = (reply, st')" by force
    have "refused_identity st' token market evidence"
    proof (cases "clean_address (Some (en_token n)) = token \<and> clean_address (Some (en_market n)) = market
        \<and> pending_evidence (sh_book st) n = evidence")
      case True
      with refused_entry [OF ok dead _ _ _ ev call] show ?thesis by (intro refused_identity_rows [OF dead]) simp_all
    next
      case False
      with other_entry_refused [OF ok dead _ call] show ?thesis by simp
    qed
    with XEntry Cons call show ?thesis by (simp add: maybe_open_with_shared_capital_def)
  qed
next
  case (XSettle pol xp quote flow now trial)
  obtain r st' where "settle_one_with_shared_capital pol xp quote flow now (\<lambda>_ b. (Inr (), b)) trial (sh_book st) st = (r, st')"
    by force
  with refused_mild [OF dead shared_settle_mild [OF ok this]] XSettle show ?thesis by simp
next
  case (XCutEntry c now n)
  with refused_mild [OF dead cut_entry_mild [OF ok]] show ?thesis by simp
next
  case (XCutSettle pol xp quote flow now trial)
  with refused_mild [OF dead mild_book [OF settle_one_names [OF shared_okD(1) [OF ok]]]] show ?thesis by (simp add: update_book_def)
next
  case (XRestart cs pol fp frozen now)
  with refused_mild [OF dead start_lane_mild [OF ok]] show ?thesis by simp
next
  case (XOther e')
  have "inactive_kept (sh_capital st) (fst (capital_step (sh_capital st) e'))"
    by (rule capital_step_inactive [OF shared_okD(2) [OF ok]]) (use allowed XOther in simp)
  with XOther show ?thesis by (simp add: refused_mild [OF dead] mild_capital)
qed

lemma refused_run:
  "shared_ok st \<Longrightarrow> refused_identity st token market evidence \<Longrightarrow> evidence \<noteq> [] \<Longrightarrow> list_all shared_allowed es \<Longrightarrow>
     shared_ok (fst (run_machine shared_step st es)) \<and> refused_identity (fst (run_machine shared_step st es)) token market evidence"
proof (induction es arbitrary: st)
  case (Cons e es)
  from Cons.prems have e: "shared_allowed e" "list_all shared_allowed es" by simp_all
  have "fst (run_machine shared_step st (e # es)) = fst (run_machine shared_step (fst (shared_step st e)) es)"
    by (simp add: split_beta Let_def)
  then show ?case
    using Cons.IH [OF shared_machine.step_inv [OF Cons.prems(1) e(1)] refused_step [OF Cons.prems(1-3) e(1)] Cons.prems(3) e(2)]
    by simp
qed simp

text \<open>A first entry that is not made spends its identity.\<close>

lemma first_failure_spends:
  assumes ok: "shared_ok st" and new: "rid \<notin> rr_reservation_id ` set (cs_reservations (sh_capital st))"
    and ev: "pending_evidence (sh_book st) n = evidence" "evidence \<noteq> []" and pos: "0 < en_fraction n"
    and rid: "entry_reservation_id (bk_release_commit (sh_book st)) n evidence = Inr rid"
    and none: "matching_lot (sh_book st) n evidence = None"
    and call: "validate_with_shared_capital c c' quote latency now n st = (Inr False, st')"
  shows "refused_identity st' (clean_address (Some (en_token n))) (clean_address (Some (en_market n))) evidence"
proof -
  define f where "f = max 0 (en_fraction n)"
  have f: "0 < f" "max 0 f = f" using pos by (simp_all add: f_def)
  have named: "rid \<noteq> []" "rid = entry_name (clean_address (Some (en_token n))) (clean_address (Some (en_market n))) evidence"
    using entry_reservation_idE(1) [OF rid] by (simp_all add: entry_name_def)
  have rec: "recover_entry_link now n evidence rid st = (Inr False, st)" using none by (simp add: recover_entry_link_def)
  obtain r2 st2 where r2: "reserve_entry c rid evidence f st = (r2, st2)" by force
  have step: "(Inr False, st') = (case r2 of Inl e \<Rightarrow> (Inl e, st2)
      | Inr reply \<Rightarrow> if rr_status (rp_row reply) \<noteq> Active then (Inr False, st2)
          else if rr_reserved_fraction (rp_row reply) + 1 / 10 ^ 12 < f then (Inr False, st2)
          else commit_entry c' quote latency now n evidence rid st2)"
    using call f(1) r2 unfolding validate_shared_unfold [OF ev rid] rec f_def [symmetric] by (simp split: sum.splits)
  then obtain v where v: "r2 = Inr v" by (cases r2) auto
  obtain k where k: "begin_immediate 0 (cc_attempts c) = Inr k"
    using r2 v named(1) ev(2) by (cases "begin_immediate 0 (cc_attempts c)") (auto simp: reserve_entry_def reserve_paper_capital_def)
  define row where "row = new_reservation c (bk_release_commit (sh_book st)) rid ''robinhood'' evidence f
      (finite_fraction (Number DEFAULT_CAPACITY_FRACTION)) f False (sh_capital st)"
  have made: "rp_row v = row" "sh_book st2 = sh_book st" "cs_reservations (sh_capital st2) = cs_reservations (sh_capital st) @ [row]"
    using r2 v reserve_missing [OF new k named(1) ev(2), of "''robinhood''" _ "bk_release_commit (sh_book st)" "Number f" "Number DEFAULT_CAPACITY_FRACTION" "Number f" False]
    by (auto simp: reserve_entry_def row_def f(2) metric_def)
  have row: "rr_reservation_id row = rid" "rr_status row = Active \<Longrightarrow> rr_reserved_fraction row = f"
    by (auto simp: row_def new_reservation_def reserve_decision_def Let_def split: prod.splits if_splits)
  have lots: "no_lot_of (sh_book st) (clean_address (Some (en_token n))) (clean_address (Some (en_market n))) evidence"
    using none by (simp add: no_lot_match)
  show ?thesis
  proof (cases "rr_status row = Active")
    case False
    then have "st' = st2" using step v made(1) by simp
    with made False row(1) lots named(2) show ?thesis by (auto simp: refused_identity_def spent_def)
  next
    case True
    then have commit: "commit_entry c' quote latency now n evidence rid st2 = (Inr False, st')"
      using step v made(1) row(2) by simp
    obtain r b where w: "validate_and_commit quote latency now n (sh_book st2) = (r, b)" by force
    have r: "r = Inr False" using commit w by (auto simp: commit_entry_def split: sum.splits bool.splits prod.splits)
    have b: "b = sh_book st2" using validate_refused [OF w] r by simp
    obtain r3 st3 where can: "cancel_unlinked_reservation c' rid st2 = (r3, st3)" by force
    have same: "st2\<lparr>sh_book := b\<rparr> = st2" by (simp add: b)
    have fin: "st' = st3" "\<exists>x. r3 = Inr x" using commit w r can by (auto simp: commit_entry_def same split: sum.splits)
    have ok2: "shared_ok st2" by (rule reserve_entry_keeps(1) [OF ok rid r2])
    have rows: "rows_ok (cs_reservations (sh_capital st2))" using shared_okD(2) [OF ok2] by (simp add: within_capacity_def)
    have mem: "row \<in> set (cs_reservations (sh_capital st2))" by (simp add: made(3))
    obtain k' where k': "begin_immediate 0 (cc_attempts c') = Inr k'"
      using can fin(2) by (cases "begin_immediate 0 (cc_attempts c')") (auto simp: cancel_unlinked_reservation_def cancel_paper_capital_def)
    have "\<exists>q\<in>set (cs_reservations (sh_capital st3)). rr_reservation_id q = rid \<and> rr_status q \<noteq> Active"
      using can cancel_active [OF rows mem True k', of "bk_release_commit (sh_book st2)" "''v52_robinhood_entry_not_persisted''"] row(1)
      by (auto simp: cancel_unlinked_reservation_def metric_def rewrite_row_set [OF rows mem])
    moreover have "sh_book st3 = sh_book st" using can made(2) by (auto simp: cancel_unlinked_reservation_def split: prod.splits)
    ultimately show ?thesis using lots named(2) fin(1) by (simp add: refused_identity_def spent_def)
  qed
qed

text \<open>C8. An evidence that was refused once is refused for ever. When the first entry for an evidence
  is turned down - because an exit could not be quoted just then, or because the capacity was
  taken at that moment - its reservation stays in the store as cancelled or rejected. From then on, whatever
  the lanes do, no entry for this token, market and evidence is ever made: the store answers the repeated
  reservation with the old row, and the call returns without asking for a quote.\<close>

theorem refused_evidence_stays_refused:
  assumes "list_all shared_allowed es" and "st = shared_run release nav es"
    and "pending_evidence (sh_book st) n = evidence" and "evidence \<noteq> []" and "0 < en_fraction n"
    and "entry_reservation_id (bk_release_commit (sh_book st)) n evidence = Inr rid"
    and "rid \<notin> rr_reservation_id ` set (cs_reservations (sh_capital st))"
    and "validate_with_shared_capital c c' quote latency now n st = (Inr False, st1)"
    and "list_all shared_allowed es2" and "st2 = fst (run_machine shared_step st1 es2)"
    and "clean_address (Some (en_token m)) = clean_address (Some (en_token n))"
    and "clean_address (Some (en_market m)) = clean_address (Some (en_market n))"
    and "pending_evidence (sh_book st2) m = evidence"
    and "validate_with_shared_capital d d' quote2 latency2 now2 m st2 = (reply, st3)"
  shows "reply \<noteq> Inr True \<and> sh_book st3 = sh_book st2 \<and> sh_lineage st3 = sh_lineage st2
    \<and> cs_reservations (sh_capital st3) = cs_reservations (sh_capital st2)"
proof -
  have ok: "shared_ok st" unfolding assms(2) by (rule shared_run_ok [OF assms(1)])
  have none: "matching_lot (sh_book st) n evidence = None"
  proof -
    obtain r1 s1 where r1: "recover_entry_link now n evidence rid st = (r1, s1)" by force
    have "r1 = Inr False"
      using assms(8) unfolding validate_shared_unfold [OF assms(3, 4, 6)] r1 by (auto split: sum.splits bool.splits)
    then show ?thesis using recover_keeps(2) [OF ok assms(6) r1] by simp
  qed
  have dead: "refused_identity st1 (clean_address (Some (en_token n))) (clean_address (Some (en_market n))) evidence"
    by (rule first_failure_spends [OF ok assms(7, 3, 4, 5, 6) none assms(8)])
  note later = refused_run [OF shared_validate_keeps [OF ok assms(8)] dead assms(4, 9)]
  show ?thesis
    by (rule refused_entry [OF _ _ assms(11, 12, 13, 4, 14)]) (use later assms(10) in simp_all)
qed

definition no_quote :: quote_answers where
  "no_quote token market venue raw = Inr None"

lemma demo_fails:
  "fst (validate_with_shared_capital at_once at_once no_quote 1 1 (demo_entry 1000 ''A'') demo_waiting) = Inr False"
  "sh_book (snd (validate_with_shared_capital at_once at_once no_quote 1 1 (demo_entry 1000 ''A'') demo_waiting)) = sh_book demo_waiting"
proof -
  let ?st = "demo_waiting\<lparr>sh_capital := demo_ledger\<rparr>"
  have ev: "pending_evidence (sh_book demo_waiting) (demo_entry 1000 ''A'') = ''A''"
    by (simp add: pending_evidence_def demo_waiting_def dict_get_def demo_pending_def)
  have rid: "entry_reservation_id (bk_release_commit (sh_book demo_waiting)) (demo_entry 1000 ''A'') ''A'' = Inr demo_identity"
    by (simp add: entry_reservation_id_def demo_identity_def demo_waiting_def new_book_def)
  have none: "recover_entry_link 1 (demo_entry 1000 ''A'') ''A'' demo_identity demo_waiting = (Inr False, demo_waiting)"
    by (simp add: recover_entry_link_def matching_lot_def newest_def demo_waiting_def new_book_def map_filter_simps)
  have base: "validate_and_commit no_quote 1 1 (demo_entry 1000 ''A'') (sh_book demo_waiting) = (Inr False, sh_book demo_waiting)"
    using validate_cases [of no_quote 1 1 "demo_entry 1000 ''A''" "sh_book demo_waiting"] by (auto simp: no_quote_def exitable_def)
  have "rows_ok [demo_reservation]"
    using shared_okD(2) [OF demo_linked_ok [of 1000]] by (simp add: within_capacity_def demo_linked_def)
  then have rows: "rows_ok (cs_reservations demo_ledger)" by simp
  have "fst (cancel_paper_capital at_once (bk_release_commit (sh_book demo_waiting)) (rr_reservation_id demo_reservation)
      ''v52_robinhood_entry_not_persisted'' demo_ledger) = Inr True"
    by (subst cancel_active [OF rows, of demo_reservation at_once 0]) simp_all
  then have "fst (cancel_unlinked_reservation at_once demo_identity ?st) = Inr True"
    by (simp add: cancel_unlinked_reservation_def split_beta)
  then have commit: "fst (commit_entry at_once no_quote 1 1 (demo_entry 1000 ''A'') ''A'' demo_identity ?st) = Inr False"
      "sh_book (snd (commit_entry at_once no_quote 1 1 (demo_entry 1000 ''A'') ''A'' demo_identity ?st)) = sh_book demo_waiting"
    by (simp_all add: commit_entry_def base split_beta cancel_unlinked_reservation_def split: sum.split)
  have step: "validate_with_shared_capital at_once at_once no_quote 1 1 (demo_entry 1000 ''A'') demo_waiting
      = commit_entry at_once no_quote 1 1 (demo_entry 1000 ''A'') ''A'' demo_identity ?st"
    unfolding validate_shared_unfold [OF ev _ rid, simplified] none by (simp add: demo_reserves)
  show "fst (validate_with_shared_capital at_once at_once no_quote 1 1 (demo_entry 1000 ''A'') demo_waiting) = Inr False"
    "sh_book (snd (validate_with_shared_capital at_once at_once no_quote 1 1 (demo_entry 1000 ''A'') demo_waiting)) = sh_book demo_waiting"
    unfolding step by (rule commit)+
qed

text \<open>The entry of the demo lane, which would be made, is refused after an earlier one found no quote.\<close>

theorem refused_evidence_stays_refused_witness:
  "fst (validate_with_shared_capital at_once at_once demo_sell 1 1 (demo_entry 1000 ''A'')
     (snd (validate_with_shared_capital at_once at_once no_quote 1 1 (demo_entry 1000 ''A'') demo_waiting))) \<noteq> Inr True
   \<and> fst (validate_with_shared_capital at_once at_once demo_sell 1 1 (demo_entry 1000 ''A'') demo_waiting) = Inr True"
proof
  have ev: "pending_evidence (sh_book demo_waiting) (demo_entry 1000 ''A'') = ''A''"
    by (simp add: pending_evidence_def demo_waiting_def dict_get_def demo_pending_def)
  have rid: "entry_reservation_id (bk_release_commit (sh_book demo_waiting)) (demo_entry 1000 ''A'') ''A'' = Inr demo_identity"
    by (simp add: entry_reservation_id_def demo_identity_def demo_waiting_def new_book_def)
  have new: "demo_identity \<notin> rr_reservation_id ` set (cs_reservations (sh_capital demo_waiting))"
    by (simp add: demo_waiting_def new_shared_def empty_capital_store_def)
  obtain st1 where first: "validate_with_shared_capital at_once at_once no_quote 1 1 (demo_entry 1000 ''A'') demo_waiting = (Inr False, st1)"
    using demo_fails(1) by (metis prod.collapse)
  obtain reply st3 where second: "validate_with_shared_capital at_once at_once demo_sell 1 1 (demo_entry 1000 ''A'') st1 = (reply, st3)"
    by force
  have book: "sh_book st1 = sh_book demo_waiting"
    using demo_fails(2) first by simp
  have "reply \<noteq> Inr True"
    using refused_evidence_stays_refused [OF _ demo_waiting_run [symmetric] ev _ _ rid new first, of "[]" st1, OF _ _ _ _ _ refl refl _ second]
    by (simp add: book ev)
  with first second show "fst (validate_with_shared_capital at_once at_once demo_sell 1 1 (demo_entry 1000 ''A'')
     (snd (validate_with_shared_capital at_once at_once no_quote 1 1 (demo_entry 1000 ''A'') demo_waiting))) \<noteq> Inr True" by simp
qed (simp add: demo_enters)

subsection \<open>A start after an exit that was not synchronised\<close>

lemma settle_lot_inactive:
  assumes "reservation_of (sh_capital st) (ln_release_commit n) (ln_current_reservation_id n) = Some y" and "rr_status y \<noteq> Active"
    and "ln_current_reservation_id n \<noteq> []" and "1 / 10 ^ 12 < rd_fraction (release_of l n)" and "0 < rd_cost (release_of l n)"
  shows "settle_lot_delta now l n st = (Inl (RuntimeError ''v52_robinhood_capital_reservation_not_active_during_release''), st)"
proof -
  define d where "d = release_of l n"
  define prior where "prior = max 0 (ln_accounted_remaining_fraction n)"
  have "rd_fraction d = max 0 (prior - rd_remaining d)" by (simp only: d_def prior_def release_of_remaining)
  then have "rd_remaining d < prior" using assms(4) unfolding d_def [symmetric] by (auto simp: max_def split: if_splits)
  then have low: "\<not> rd_remaining d > prior + 1 / 10 ^ 12" by simp
  have due: "\<not> rd_fraction d \<le> 1 / 10 ^ 12" "\<not> rd_cost d \<le> 0" using assms(4, 5) by (simp_all add: d_def not_le)
  show ?thesis
    unfolding settle_lot_delta_def Let_def d_def [symmetric] prior_def [symmetric]
    using low due assms(1-3) by simp
qed


text \<open>A lot of cost 11 of which a part of cost 6 was sold for 12 and synchronised, and the rest, of cost 5,
  for 2 when the process stopped.\<close>

definition demo_sold_lot :: lot_row where
  "demo_sold_lot = (demo_lot 1000)\<lparr>lt_capital_reservation_id := Some (residual_id 1 1), lt_remaining_token_raw := 0,
     lt_remaining_fraction := 0, lt_remaining_entry_cost_wei := 0, lt_realized_exit_net_wei := 14\<rparr>"

definition demo_sold_trial :: trial_row where
  "demo_sold_trial = (demo_trial 1000)\<lparr>tl_capital_reservation_id := Some (residual_id 1 1)\<rparr>"

definition demo_sold_outcome :: outcome_row where
  "demo_sold_outcome = outcome_of_lot ''stop'' 3 demo_sold_lot demo_sold_trial (demo_opened 1000)"

definition demo_residual :: reservation_row where
  "demo_residual = residual_reservation 2 ''r'' 1 1 (1 / 200) demo_ledger"

definition demo_crashed :: shared where
  "demo_crashed = \<lparr>sh_book = (demo_opened 1000)\<lparr>bk_trials := [demo_sold_trial], bk_lots := [demo_sold_lot],
       bk_outcomes := [demo_sold_outcome]\<rparr>,
     sh_capital = demo_ledger\<lparr>
       cs_reservations := [demo_reservation\<lparr>rr_status := Settled, rr_net_return := Some 1, rr_realized_contribution := Some (1 / 200)\<rparr>,
         demo_residual],
       cs_settlements := [slice_settlement 2 ''r'' 1 1 demo_identity 1 (1 / 200) demo_ledger]\<rparr>,
     sh_lineage = [(demo_line 1000)\<lparr>ln_current_reservation_id := residual_id 1 1, ln_accounted_remaining_fraction := 1 / 200,
       ln_accounted_realized_exit_net_wei := 12, ln_accounted_sold_cost_wei := 6, ln_settlement_sequence := 1\<rparr>]\<rparr>"


subsection \<open>The net asset value after the first link\<close>

lemma product_prod_list: "product xs = prod_list xs"
proof -
  have "fold (\<lambda>x acc. acc * x) xs a = a * prod_list xs" for a
    by (induction xs arbitrary: a) simp_all
  then show ?thesis by (simp add: product_def)
qed

lemma prod_list_split: "prod_list (map f xs) = prod_list (map f (filter P xs)) * prod_list (map (f :: 'a \<Rightarrow> real) (filter (\<lambda>x. \<not> P x) xs))"
  by (induction xs) simp_all

lemma filter_by: "(\<And>x. x \<in> set xs \<Longrightarrow> P x) \<Longrightarrow> filter P xs = xs"
  by (simp add: filter_id_conv)

lemma map_filter_kept:
  assumes "\<And>x. x \<in> set xs \<Longrightarrow> f x \<noteq> None \<Longrightarrow> P x"
  shows "List.map_filter f (filter P xs) = List.map_filter f xs"
  using assms by (induction xs) (auto simp: map_filter_simps split: option.splits)

text \<open>What the store reports as realized.\<close>

definition realized_total_of :: "capital_store \<Rightarrow> real" where
  "realized_total_of s = sum_list (map sr_realized_contribution
     (filter (\<lambda>t. sr_portfolio_id t = CANONICAL_PORTFOLIO_ID) (cs_settlements s)))"

lemma realized_total_of_report [simp]:
  "cr_realized_return_contribution (capital_reconciliation s release cap) = realized_total_of s"
  by (simp add: capital_reconciliation_def Let_def realized_total_of_def)


text \<open>A lot that lost half of the value before the store was shared, and a later lot that is linked.\<close>

definition demo_loss_outcome :: outcome_row where
  "demo_loss_outcome = (outcome_of_lot ''stop'' 2 (demo_lot 1000) (demo_trial 1000) (demo_opened 1000))\<lparr>oc_paper_nav_multiplier := 1 / 2\<rparr>"

definition demo_loss_event :: position_event where
  "demo_loss_event = (entry_event (demo_entry 1000 ''A'') demo_starter 1 1 ''entered'' ''closed'' 2 (demo_opened 1000))
     \<lparr>pe_paper_nav_multiplier := Some (1 / 2)\<rparr>"

definition demo_old_loss :: shared where
  "demo_old_loss = \<lparr>sh_book = (demo_added 1000)\<lparr>bk_outcomes := [demo_loss_outcome], bk_events := [demo_loss_event],
       bk_lots := [demo_lot 1000, (demo_add_lot 1000)\<lparr>lt_position_id := 2\<rparr>]\<rparr>,
     sh_capital = demo_ledger, sh_lineage = [(demo_line 1000)\<lparr>ln_trial_id := 2\<rparr>]\<rparr>"


end
