(* ===== verification/Evidence.thy ===== *)
theory Evidence
  imports Prelude "HOL-Library.List_Lexorder" "HOL-Library.Char_ord"
begin

text \<open>
  The evidence models of \<open>v52_continuous_evolution.py\<close>: calibration of outcomes with
  shrinkage, removal of correlated signals, compression of failure risk, the execution
  simulator with partial fills, the value of cash, wallet context, and the refinement of a
  decision that combines them. None of them authorises a trade: \<open>refine\<close> can only add
  blockers to the gates of the strategy.
\<close>

definition clamp :: "real \<Rightarrow> real" where
  "clamp value = min 1 (max 0 value)"

lemma clamp_bounds [simp]: "0 \<le> clamp x" "clamp x \<le> 1"
  by (simp_all add: clamp_def)

lemma clamp_id [simp]: "0 \<le> x \<Longrightarrow> x \<le> 1 \<Longrightarrow> clamp x = x"
  by (simp add: clamp_def)

subsection \<open>Calibration of outcomes\<close>

record outcome_context =
  oc_lane :: string
  oc_lifecycle :: string
  oc_regime :: string
  oc_risk_signature :: string

type_synonym context_key = "string \<times> string \<times> string \<times> string"

definition context_key :: "outcome_context \<Rightarrow> context_key" where
  "context_key c = (oc_lane c, oc_lifecycle c, oc_regime c, oc_risk_signature c)"

record outcome_episode =
  ep_context :: outcome_context
  ep_net_return :: py_number
  ep_structural_collapse :: bool

record calibrated_distribution =
  cd_sample_size :: nat
  cd_p_gain_25 :: real
  cd_p_gain_50 :: real
  cd_p_2x :: real
  cd_p_5x :: real
  cd_p_loss_20 :: real
  cd_p_loss_50 :: real
  cd_p_structural_collapse :: real
  cd_expected_log_growth :: real
  cd_confidence :: real

record calibrator =
  cb_prior_weight :: real
  cb_confidence_sample :: int
  cb_episodes :: "(context_key, outcome_episode list) dict"

definition new_calibrator :: "real \<Rightarrow> int \<Rightarrow> calibrator result" where
  "new_calibrator prior_weight confidence_sample =
     (if prior_weight \<le> 0 \<or> confidence_sample \<le> 0
      then Inl (ValueError ''prior_weight and confidence_sample must be positive'')
      else Inr \<lparr>cb_prior_weight = prior_weight, cb_confidence_sample = confidence_sample, cb_episodes = []\<rparr>)"

text \<open>\<open>math.isfinite(x)\<close> of something that is not a number raises.\<close>

definition check_net_return :: "py_number \<Rightarrow> unit result" where
  "check_net_return r =
     (case r of
        NotNumeric \<Rightarrow> Inl (TypeError ''must be real number'')
      | NonFinite \<Rightarrow> Inl (ValueError ''net_return must be finite and greater than -1'')
      | Number x \<Rightarrow>
          if x \<le> -1 then Inl (ValueError ''net_return must be finite and greater than -1'') else Inr ())"

fun finite_value :: "py_number \<Rightarrow> real" where
  "finite_value (Number x) = x"
| "finite_value _ = 0"

definition record_episode :: "outcome_episode \<Rightarrow> calibrator \<Rightarrow> calibrator result" where
  "record_episode episode c =
     bind_result (check_net_return (ep_net_return episode)) (\<lambda>_.
       let k = context_key (ep_context episode);
           old = (case dict_get (cb_episodes c) k of None \<Rightarrow> [] | Some es \<Rightarrow> es)
       in Inr (c\<lparr>cb_episodes := dict_set k (old @ [episode]) (cb_episodes c)\<rparr>))"

definition default_rates :: "(string, real) dict" where
  "default_rates =
     [(''p_gain_25'', 20/100), (''p_gain_50'', 12/100), (''p_2x'', 6/100), (''p_5x'', 1/100),
      (''p_loss_20'', 20/100), (''p_loss_50'', 7/100), (''p_structural_collapse'', 3/100)]"

text \<open>Known keys of \<open>base_rates\<close> replace the defaults, clamped; unknown keys are ignored.\<close>

fun update_rates :: "(string \<times> real) list \<Rightarrow> (string, real) dict \<Rightarrow> (string, real) dict" where
  "update_rates [] d = d"
| "update_rates ((k, v) # kvs) d =
     update_rates kvs (if dict_get default_rates k = None then d else dict_set k (clamp v) d)"

definition rate_of :: "(string, real) dict \<Rightarrow> string \<Rightarrow> real" where
  "rate_of d k = (case dict_get d k of None \<Rightarrow> 0 | Some v \<Rightarrow> v)"

definition shrunk :: "real \<Rightarrow> nat \<Rightarrow> (string, real) dict \<Rightarrow> nat \<Rightarrow> string \<Rightarrow> real" where
  "shrunk prior_weight n rates hits prior_key =
     (real hits + prior_weight * rate_of rates prior_key) / (real n + prior_weight)"

definition count_if :: "('a \<Rightarrow> bool) \<Rightarrow> 'a list \<Rightarrow> nat" where
  "count_if P xs = length (filter P xs)"

definition calibrate :: "calibrator \<Rightarrow> outcome_context \<Rightarrow> (string \<times> real) list option \<Rightarrow> calibrated_distribution" where
  "calibrate c ctx base_rates =
     (let episodes = (case dict_get (cb_episodes c) (context_key ctx) of None \<Rightarrow> [] | Some es \<Rightarrow> es);
          n = length episodes;
          rates = (case base_rates of None \<Rightarrow> default_rates | Some kvs \<Rightarrow> update_rates kvs default_rates);
          returns = map (\<lambda>e. finite_value (ep_net_return e)) episodes;
          rate = (\<lambda>P k. shrunk (cb_prior_weight c) n rates (count_if P returns) k)
      in \<lparr>cd_sample_size = n,
          cd_p_gain_25 = rate (\<lambda>v. v \<ge> 25/100) ''p_gain_25'',
          cd_p_gain_50 = rate (\<lambda>v. v \<ge> 50/100) ''p_gain_50'',
          cd_p_2x = rate (\<lambda>v. v \<ge> 1) ''p_2x'',
          cd_p_5x = rate (\<lambda>v. v \<ge> 4) ''p_5x'',
          cd_p_loss_20 = rate (\<lambda>v. v \<le> - (20/100)) ''p_loss_20'',
          cd_p_loss_50 = rate (\<lambda>v. v \<le> - (50/100)) ''p_loss_50'',
          cd_p_structural_collapse =
            shrunk (cb_prior_weight c) n rates (count_if ep_structural_collapse episodes) ''p_structural_collapse'',
          cd_expected_log_growth =
            (if n = 0 then 0 else sum_list (map (\<lambda>v. ln (1 + v)) returns) / real n),
          cd_confidence = clamp (real n / real_of_int (cb_confidence_sample c))\<rparr>)"

subsection \<open>Independent evidence\<close>

record evidence_signal =
  es_name :: string
  es_value :: real
  es_confidence :: real
  es_freshness :: real
  es_provenance_complete :: bool
  es_causal_root :: string
  es_source_id :: string

definition effective_strength :: "evidence_signal \<Rightarrow> real" where
  "effective_strength s =
     (if \<not> es_provenance_complete s then 0
      else max 0 (es_value s) * clamp (es_confidence s) * clamp (es_freshness s))"

record deconfliction =
  ed_raw_signal_count :: nat
  ed_independent_root_count :: nat
  ed_raw_strength :: real
  ed_independent_strength :: real
  ed_diversity_factor :: real
  ed_missing_provenance :: "string list"

record deconflict_state =
  ds_roots :: "(string, real) dict"
  ds_missing :: "string list"
  ds_raw_strength :: real

definition deconflict_step :: "evidence_signal \<Rightarrow> deconflict_state \<Rightarrow> deconflict_state" where
  "deconflict_step s st =
     (let st = st\<lparr>ds_raw_strength := ds_raw_strength st + effective_strength s\<rparr>
      in if \<not> es_provenance_complete s then st\<lparr>ds_missing := ds_missing st @ [es_name s]\<rparr>
         else
           let known = (case dict_get (ds_roots st) (es_causal_root s) of None \<Rightarrow> 0 | Some v \<Rightarrow> v)
           in st\<lparr>ds_roots := dict_set (es_causal_root s) (max known (effective_strength s)) (ds_roots st)\<rparr>)"

definition deconflict :: "evidence_signal list \<Rightarrow> deconfliction" where
  "deconflict signals =
     (let st = fold deconflict_step signals \<lparr>ds_roots = [], ds_missing = [], ds_raw_strength = 0\<rparr>
      in \<lparr>ed_raw_signal_count = length signals,
          ed_independent_root_count = length (ds_roots st),
          ed_raw_strength = ds_raw_strength st,
          ed_independent_strength = dict_sum (\<lambda>v. v) (ds_roots st),
          ed_diversity_factor =
            (if signals = [] then 0 else clamp (real (length (ds_roots st)) / real (length signals))),
          ed_missing_provenance = sort (ds_missing st)\<rparr>)"

subsection \<open>Failure risk\<close>

record failure_features =
  ff_liquidity_growth_stall :: real
  ff_marginal_price_response_decay :: real
  ff_buyer_quality_deterioration :: real
  ff_top_heavy_sell_pressure :: real
  ff_repeat_buyer_decay :: real
  ff_early_holder_distribution :: real
  ff_market_cap_to_exit_depth_stress :: real
  ff_coordination_increase :: real

definition feature_values :: "failure_features \<Rightarrow> real list" where
  "feature_values f =
     [ff_liquidity_growth_stall f, ff_marginal_price_response_decay f, ff_buyer_quality_deterioration f,
      ff_top_heavy_sell_pressure f, ff_repeat_buyer_decay f, ff_early_holder_distribution f,
      ff_market_cap_to_exit_depth_stress f, ff_coordination_increase f]"

record failure_assessment =
  fa_risk_score :: real
  fa_starter_size_multiplier :: real
  fa_exit_urgency :: real
  fa_hard_veto :: bool

definition failure_weights :: "real list" where
  "failure_weights = [10/100, 16/100, 14/100, 16/100, 10/100, 12/100, 14/100, 8/100]"

definition assess_failure :: "failure_features \<Rightarrow> failure_assessment" where
  "assess_failure features =
     (let values = map clamp (feature_values features);
          score = clamp (sum_list (map2 (\<lambda>w v. w * v) failure_weights values))
      in \<lparr>fa_risk_score = score,
          fa_starter_size_multiplier = max (20/100) (1 - 80/100 * score),
          fa_exit_urgency = clamp (15/100 + 85/100 * score),
          fa_hard_veto = False\<rparr>)"

subsection \<open>Execution with partial fills\<close>

record execution_attempt =
  ea_quoted_price :: real
  ea_available_notional :: real
  ea_quote_fresh :: bool
  ea_route_available :: bool
  ea_adverse_move_fraction :: real
  ea_extra_slippage_fraction :: real

record simulated_execution =
  se_side :: string
  se_requested_notional :: real
  se_filled_notional :: real
  se_unfilled_notional :: real
  se_average_price :: "real option"
  se_attempts_used :: nat
  se_total_cost_fraction :: real
  se_complete :: bool
  se_failure_reason :: "string option"

record fill_state =
  fs_remaining :: real
  fs_filled :: real
  fs_weighted_price :: real
  fs_direct_cost :: real
  fs_used :: nat
  fs_failure_reason :: "string option"

definition attempt_step :: "string \<Rightarrow> real \<Rightarrow> execution_attempt \<Rightarrow> fill_state \<Rightarrow> fill_state" where
  "attempt_step side fee_fraction a st =
     (let st = st\<lparr>fs_used := fs_used st + 1\<rparr>
      in if \<not> ea_quote_fresh a then st\<lparr>fs_failure_reason := Some ''stale_quote''\<rparr>
         else if \<not> ea_route_available a then st\<lparr>fs_failure_reason := Some ''route_unavailable''\<rparr>
         else if ea_quoted_price a \<le> 0 \<or> ea_available_notional a \<le> 0
         then st\<lparr>fs_failure_reason := Some ''invalid_execution_evidence''\<rparr>
         else
           let amount = min (fs_remaining st) (ea_available_notional a);
               cost = max 0 (ea_adverse_move_fraction a) + max 0 (ea_extra_slippage_fraction a);
               direction = (if side = ''buy'' then 1 else -1);
               price = ea_quoted_price a * max 0 (1 + direction * cost)
           in st\<lparr>fs_filled := fs_filled st + amount,
                 fs_remaining := fs_remaining st - amount,
                 fs_weighted_price := fs_weighted_price st + amount * price,
                 fs_direct_cost := fs_direct_cost st + amount * (cost + max 0 fee_fraction)\<rparr>)"

fun attempt_loop :: "string \<Rightarrow> real \<Rightarrow> execution_attempt list \<Rightarrow> fill_state \<Rightarrow> fill_state" where
  "attempt_loop side fee [] st = st"
| "attempt_loop side fee (a # rest) st =
     (if fs_remaining st \<le> 1 / 10 ^ 12 then st
      else attempt_loop side fee rest (attempt_step side fee a st))"

definition simulate_execution ::
  "real \<Rightarrow> execution_attempt list \<Rightarrow> string \<Rightarrow> real \<Rightarrow> bool \<Rightarrow> simulated_execution result" where
  "simulate_execution requested attempts side fee_fraction require_complete =
     (if requested \<le> 0 then Inl (ValueError ''requested_notional must be positive'')
      else if side \<noteq> ''buy'' \<and> side \<noteq> ''sell'' then Inl (ValueError (''side must be '' @ [CHR 0x27] @ ''buy'' @ [CHR 0x27] @ '' or '' @ [CHR 0x27] @ ''sell'' @ [CHR 0x27]))
      else
        let st = attempt_loop side fee_fraction attempts
                   \<lparr>fs_remaining = requested, fs_filled = 0, fs_weighted_price = 0, fs_direct_cost = 0,
                    fs_used = 0, fs_failure_reason = None\<rparr>;
            complete = (fs_remaining st \<le> 1 / 10 ^ 12);
            reason = (if \<not> complete \<and> require_complete \<and> fs_failure_reason st = None
                      then Some ''insufficient_depth_after_requotes'' else fs_failure_reason st)
        in Inr \<lparr>se_side = side,
                se_requested_notional = requested,
                se_filled_notional = fs_filled st,
                se_unfilled_notional = max 0 (fs_remaining st),
                se_average_price = (if fs_filled st > 0 then Some (fs_weighted_price st / fs_filled st) else None),
                se_attempts_used = fs_used st,
                se_total_cost_fraction = (if fs_filled st > 0 then fs_direct_cost st / fs_filled st else 0),
                se_complete = complete,
                se_failure_reason = reason\<rparr>)"

subsection \<open>The value of cash\<close>

record cash_option =
  co_opportunity_rate :: real
  co_cash_option_rate :: real
  co_advantage :: real
  co_deploy :: bool

definition cash_option_value :: "real \<Rightarrow> real \<Rightarrow> real \<Rightarrow> real \<Rightarrow> real \<Rightarrow> real \<Rightarrow> cash_option result" where
  "cash_option_value residual_return holding_seconds arrivals_per_hour future_return qualifies reuse =
     (if holding_seconds \<le> 0 then Inl (ValueError ''expected_holding_seconds must be positive'')
      else
        let holding_hours = holding_seconds / 3600;
            opportunity_rate = residual_return / holding_hours;
            cash_rate = max 0 arrivals_per_hour * max 0 future_return * clamp qualifies * clamp reuse;
            advantage = opportunity_rate - cash_rate
        in Inr \<lparr>co_opportunity_rate = opportunity_rate, co_cash_option_rate = cash_rate,
                co_advantage = advantage, co_deploy = (advantage > 0)\<rparr>)"

subsection \<open>Wallet context\<close>

record wallet_evidence =
  we_context_key :: string
  we_proven_forward_episodes :: int
  we_copyable_return_on_capital :: real
  we_profit_factor :: real
  we_copyability_rate :: real
  we_manipulation_risk :: real
  we_side_wallet_risk :: real
  we_confidence_delta :: real
  we_sizing_delta :: real
  we_exit_urgency_delta :: real

record wallet_adjustment =
  wa_eligible :: bool
  wa_confidence_delta :: real
  wa_sizing_multiplier :: real
  wa_exit_urgency_delta :: real
  wa_blockers :: "string list"

definition blocked_wallet :: "string list \<Rightarrow> wallet_adjustment" where
  "blocked_wallet bs =
     \<lparr>wa_eligible = False, wa_confidence_delta = 0, wa_sizing_multiplier = 1, wa_exit_urgency_delta = 0,
      wa_blockers = bs\<rparr>"

definition wallet_blockers :: "string \<Rightarrow> wallet_evidence \<Rightarrow> string list" where
  "wallet_blockers expected e =
     (if we_context_key e \<noteq> expected then [''context_mismatch''] else [])
     @ (if we_proven_forward_episodes e < 30 then [''insufficient_forward_episodes''] else [])
     @ (if we_copyable_return_on_capital e \<le> 0 then [''copyable_return_not_positive''] else [])
     @ (if we_profit_factor e \<le> 1 then [''profit_factor_not_above_one''] else [])
     @ (if we_copyability_rate e < 80/100 then [''copyability_rate_below_minimum''] else [])
     @ (if we_manipulation_risk e > 10/100 then [''manipulation_risk_too_high''] else [])
     @ (if we_side_wallet_risk e > 10/100 then [''side_wallet_risk_too_high''] else [])"

definition adjust_wallet :: "string \<Rightarrow> wallet_evidence option \<Rightarrow> wallet_adjustment" where
  "adjust_wallet expected evidence =
     (case evidence of
        None \<Rightarrow> blocked_wallet [''missing_wallet_context'']
      | Some e \<Rightarrow>
          if wallet_blockers expected e \<noteq> [] then blocked_wallet (wallet_blockers expected e)
          else \<lparr>wa_eligible = True,
                wa_confidence_delta = max (- (15/100)) (min (15/100) (we_confidence_delta e)),
                wa_sizing_multiplier = max (80/100) (min (115/100) (1 + we_sizing_delta e)),
                wa_exit_urgency_delta = max (- (20/100)) (min (20/100) (we_exit_urgency_delta e)),
                wa_blockers = []\<rparr>)"

subsection \<open>The refined decision\<close>

record refined_context =
  rx_expected_log_growth :: real
  rx_calibration_confidence :: real
  rx_evidence :: deconfliction
  rx_failure :: failure_assessment
  rx_wallet :: wallet_adjustment
  rx_cash_option :: cash_option

record refined_decision =
  rd_confidence :: real
  rd_sizing_multiplier :: real
  rd_exit_urgency :: real
  rd_deploy_capital :: bool
  rd_ranking_score :: real
  rd_blockers :: "string list"

definition refine_decision :: "real \<Rightarrow> refined_context \<Rightarrow> bool \<Rightarrow> refined_decision" where
  "refine_decision base_confidence x hard_gate_passed =
     (let blockers =
            (if \<not> hard_gate_passed then [''existing_v52_hard_gate_failed''] else [])
            @ (if ed_missing_provenance (rx_evidence x) \<noteq> [] then [''missing_signal_provenance''] else []);
          confidence =
            clamp (base_confidence * (5/10 + 5/10 * ed_diversity_factor (rx_evidence x))
              + wa_confidence_delta (rx_wallet x));
          sizing = fa_starter_size_multiplier (rx_failure x) * wa_sizing_multiplier (rx_wallet x)
            * (5/10 + 5/10 * rx_calibration_confidence x);
          urgency = clamp (fa_exit_urgency (rx_failure x) + wa_exit_urgency_delta (rx_wallet x));
          ranking = rx_expected_log_growth x * confidence * max 0 (co_advantage (rx_cash_option x) + 1)
      in \<lparr>rd_confidence = confidence,
          rd_sizing_multiplier = max 0 sizing,
          rd_exit_urgency = urgency,
          rd_deploy_capital =
            (hard_gate_passed \<and> blockers = [] \<and> co_deploy (rx_cash_option x) \<and> ranking > 0),
          rd_ranking_score = ranking,
          rd_blockers = blockers\<rparr>)"

subsection \<open>Calibrated rates are probabilities\<close>

definition record_or_keep :: "outcome_episode \<Rightarrow> calibrator \<Rightarrow> calibrator" where
  "record_or_keep e c = (case record_episode e c of Inl _ \<Rightarrow> c | Inr c' \<Rightarrow> c')"

lemma record_episode_settings:
  assumes "record_episode e c = Inr c'"
  shows "cb_prior_weight c' = cb_prior_weight c" and "cb_confidence_sample c' = cb_confidence_sample c"
  using assms by (auto simp: record_episode_def bind_result_Inr_iff Let_def)

lemma recorded_settings:
  "cb_prior_weight (fold record_or_keep es c) = cb_prior_weight c \<and>
   cb_confidence_sample (fold record_or_keep es c) = cb_confidence_sample c"
proof (induction es arbitrary: c)
  case (Cons e es)
  have "cb_prior_weight (record_or_keep e c) = cb_prior_weight c
    \<and> cb_confidence_sample (record_or_keep e c) = cb_confidence_sample c"
    using record_episode_settings by (auto simp: record_or_keep_def split: sum.split)
  with Cons show ?case by simp
qed simp

lemma count_if_le: "count_if P xs \<le> length xs"
  by (simp add: count_if_def)

lemma count_if_mono: "(\<And>x. P x \<Longrightarrow> Q x) \<Longrightarrow> count_if P xs \<le> count_if Q xs"
  by (induction xs) (auto simp: count_if_def)

definition rates_ok :: "(string, real) dict \<Rightarrow> bool" where
  "rates_ok d \<longleftrightarrow> (\<forall>k. 0 \<le> rate_of d k \<and> rate_of d k \<le> 1)"

lemma rates_ok_default: "rates_ok default_rates"
  by (simp add: rates_ok_def rate_of_def default_rates_def)

lemma rates_ok_update: "rates_ok d \<Longrightarrow> rates_ok (update_rates kvs d)"
proof (induction kvs d rule: update_rates.induct)
  case (2 k v kvs d)
  have "rates_ok (dict_set k (clamp v) d)"
    unfolding rates_ok_def
  proof
    fix k'
    show "0 \<le> rate_of (dict_set k (clamp v) d) k' \<and> rate_of (dict_set k (clamp v) d) k' \<le> 1"
      using "2.prems" by (cases "k' = k") (simp_all add: rate_of_def rates_ok_def)
  qed
  with 2 show ?case by simp
qed simp

lemma shrunk_probability:
  assumes "0 < w" and "hits \<le> n" and "rates_ok rates"
  shows "0 \<le> shrunk w n rates hits k \<and> shrunk w n rates hits k \<le> 1"
proof -
  let ?r = "rate_of rates k"
  have r: "0 \<le> ?r" "?r \<le> 1" using assms by (auto simp: rates_ok_def)
  have "w * ?r \<le> w * 1" using r assms by (intro mult_left_mono) auto
  then have "w * ?r \<le> w" by (simp only: mult_1_right)
  then have "real hits + w * ?r \<le> real n + w" by (rule add_mono [rotated]) (use assms in simp)
  with r assms show ?thesis by (simp add: shrunk_def divide_le_eq)
qed

lemma shrunk_mono:
  assumes "0 < w" and "a \<le> b" and "rate_of rates k \<le> rate_of rates l"
  shows "shrunk w n rates a k \<le> shrunk w n rates b l"
  using assms unfolding shrunk_def by (intro divide_right_mono add_mono mult_left_mono) auto

theorem calibrated_rates_are_probabilities:
  assumes "new_calibrator w s = Inr c0"
  shows "let d = calibrate (fold record_or_keep es c0) ctx base in
    list_all (\<lambda>p. 0 \<le> p \<and> p \<le> 1)
      [cd_p_gain_25 d, cd_p_gain_50 d, cd_p_2x d, cd_p_5x d, cd_p_loss_20 d, cd_p_loss_50 d,
       cd_p_structural_collapse d, cd_confidence d]"
proof -
  define c where "c = fold record_or_keep es c0"
  have w: "0 < cb_prior_weight c"
    using assms by (auto simp: c_def recorded_settings new_calibrator_def split: if_splits)
  define rates where "rates = (case base of None \<Rightarrow> default_rates | Some kvs \<Rightarrow> update_rates kvs default_rates)"
  have "rates_ok rates"
    by (simp add: rates_def rates_ok_default rates_ok_update split: option.split)
  note p = shrunk_probability [OF w _ this]
  show ?thesis
    unfolding c_def [symmetric] calibrate_def rates_def [symmetric] Let_def
    using count_if_le by (auto intro!: p [THEN conjunct1] p [THEN conjunct2] order_trans [OF count_if_le])
qed

theorem default_rates_are_nested:
  assumes "new_calibrator w s = Inr c0"
  shows "let d = calibrate (fold record_or_keep es c0) ctx None in
    cd_p_5x d \<le> cd_p_2x d \<and> cd_p_2x d \<le> cd_p_gain_50 d \<and> cd_p_gain_50 d \<le> cd_p_gain_25 d \<and>
    cd_p_loss_50 d \<le> cd_p_loss_20 d"
proof -
  define c where "c = fold record_or_keep es c0"
  have w: "0 < cb_prior_weight c"
    using assms by (auto simp: c_def recorded_settings new_calibrator_def split: if_splits)
  show ?thesis
    unfolding c_def [symmetric] calibrate_def Let_def
    by (auto intro!: shrunk_mono w count_if_mono) (simp_all add: rate_of_def default_rates_def)
qed

subsection \<open>Correlated signals count once\<close>

lemma effective_strength_nonneg [simp]: "0 \<le> effective_strength s"
  by (simp add: effective_strength_def)

lemma dict_sum_keys: "dict_ok d \<Longrightarrow> dict_sum f d = (\<Sum>k\<in>fst ` set d. f (the (dict_get d k)))"
proof (induction d)
  case (Cons kv d)
  obtain k v where kv: "kv = (k, v)" by fastforce
  with Cons.prems have fresh: "k \<notin> fst ` set d" and ok: "dict_ok d" by (auto simp: dict_ok_def)
  then have "(\<Sum>k'\<in>fst ` set d. f (the (dict_get (kv # d) k'))) = (\<Sum>k'\<in>fst ` set d. f (the (dict_get d k')))"
    by (intro sum.cong) (auto simp: kv)
  with fresh Cons.IH [OF ok] show ?case by (simp add: kv)
qed simp

definition proven_signals :: "evidence_signal list \<Rightarrow> evidence_signal set" where
  "proven_signals ss = {s \<in> set ss. es_provenance_complete s}"

definition root_strengths :: "evidence_signal list \<Rightarrow> string \<Rightarrow> real set" where
  "root_strengths ss r = effective_strength ` {s \<in> proven_signals ss. es_causal_root s = r}"

definition scanned :: "evidence_signal list \<Rightarrow> deconflict_state" where
  "scanned ss = fold deconflict_step ss \<lparr>ds_roots = [], ds_missing = [], ds_raw_strength = 0\<rparr>"

lemma scanned_Nil: "scanned [] = \<lparr>ds_roots = [], ds_missing = [], ds_raw_strength = 0\<rparr>"
  by (simp add: scanned_def)

lemma scanned_snoc: "scanned (ss @ [s]) = deconflict_step s (scanned ss)"
  by (simp add: scanned_def)

lemma root_strengths_snoc:
  "root_strengths (ss @ [s]) r =
     (if es_provenance_complete s \<and> es_causal_root s = r
      then insert (effective_strength s) (root_strengths ss r) else root_strengths ss r)"
  by (auto simp: root_strengths_def proven_signals_def)

lemma finite_root_strengths [simp]: "finite (root_strengths ss r)"
  by (simp add: root_strengths_def proven_signals_def)

lemma scanned_roots:
  "dict_ok (ds_roots (scanned ss)) \<and>
   dict_get (ds_roots (scanned ss)) r =
     (if root_strengths ss r = {} then None else Some (Max (root_strengths ss r)))"
proof (induction ss arbitrary: r rule: rev_induct)
  case Nil
  then show ?case by (simp add: scanned_Nil root_strengths_def proven_signals_def)
next
  case (snoc s ss)
  have ok: "dict_ok (ds_roots (scanned ss))" using snoc by blast
  have get: "dict_get (ds_roots (scanned ss)) q =
    (if root_strengths ss q = {} then None else Some (Max (root_strengths ss q)))" for q using snoc by blast
  show ?case
  proof (cases "es_provenance_complete s")
    case False
    with snoc show ?thesis by (simp add: scanned_snoc deconflict_step_def Let_def root_strengths_snoc)
  next
    case True
    let ?q = "es_causal_root s"
    define v where "v = max (case dict_get (ds_roots (scanned ss)) ?q of None \<Rightarrow> 0 | Some v \<Rightarrow> v) (effective_strength s)"
    have roots: "ds_roots (scanned (ss @ [s])) = dict_set ?q v (ds_roots (scanned ss))"
      using True by (simp add: scanned_snoc deconflict_step_def Let_def v_def)
    have "v = Max (insert (effective_strength s) (root_strengths ss ?q))"
      by (simp add: v_def get max.commute)
    then show ?thesis
      using True get [of r] by (cases "r = ?q") (simp_all add: roots od.ok_put [OF ok] root_strengths_snoc)
  qed
qed

lemma scanned_raw: "ds_raw_strength (scanned ss) = sum_list (map effective_strength ss)"
  by (induction ss rule: rev_induct) (simp_all add: scanned_Nil scanned_snoc deconflict_step_def Let_def)

lemma scanned_missing: "ds_missing (scanned ss) = map es_name (filter (\<lambda>s. \<not> es_provenance_complete s) ss)"
  by (induction ss rule: rev_induct) (simp_all add: scanned_Nil scanned_snoc deconflict_step_def Let_def)

lemma scanned_independent_le: "dict_sum (\<lambda>v. v) (ds_roots (scanned ss)) \<le> sum_list (map effective_strength ss)"
proof (induction ss rule: rev_induct)
  case Nil
  then show ?case by (simp add: scanned_Nil)
next
  case (snoc s ss)
  let ?d = "ds_roots (scanned ss)" and ?q = "es_causal_root s"
  have "dict_sum (\<lambda>v. v) (ds_roots (scanned (ss @ [s]))) \<le> dict_sum (\<lambda>v. v) ?d + effective_strength s"
  proof (cases "dict_get ?d ?q")
    case None
    then show ?thesis
      by (simp add: scanned_snoc deconflict_step_def Let_def ledger_simps)
  next
    case (Some w)
    then have "root_strengths ss ?q \<noteq> {}" and "w = Max (root_strengths ss ?q)"
      using scanned_roots [of ss ?q] by (auto split: if_splits)
    then have "w \<in> root_strengths ss ?q" by simp
    then have "0 \<le> w" by (auto simp: root_strengths_def)
    then have "max w (effective_strength s) - w \<le> effective_strength s" by (simp add: max_def)
    with Some show ?thesis
      by (simp add: scanned_snoc deconflict_step_def Let_def ledger_simps)
  qed
  with snoc show ?case by simp
qed

lemma scanned_root_names: "fst ` set (ds_roots (scanned ss)) = es_causal_root ` proven_signals ss"
proof -
  have "r \<in> fst ` set (ds_roots (scanned ss)) \<longleftrightarrow> root_strengths ss r \<noteq> {}" for r
    using scanned_roots [of ss r] dict_get_eq_None [of "ds_roots (scanned ss)" r] by (auto split: if_splits)
  moreover have "root_strengths ss r \<noteq> {} \<longleftrightarrow> r \<in> es_causal_root ` proven_signals ss" for r
    by (auto simp: root_strengths_def)
  ultimately show ?thesis by blast
qed

text \<open>C40. Correlated evidence counts once. However many signals share a causal root, \<open>deconflict\<close>
  adds up exactly the strongest proven signal of each root; it counts each root once, never
  exceeds the raw strength, and names every signal without provenance, which counts nothing.\<close>

theorem independent_strength_counts_roots_once:
  "let d = deconflict ss in
     ed_independent_strength d = (\<Sum>r\<in>es_causal_root ` proven_signals ss. Max (root_strengths ss r))
     \<and> ed_independent_root_count d = card (es_causal_root ` proven_signals ss)
     \<and> ed_independent_strength d \<le> ed_raw_strength d
     \<and> ed_raw_strength d = sum_list (map effective_strength ss)
     \<and> ed_missing_provenance d = sort (map es_name (filter (\<lambda>s. \<not> es_provenance_complete s) ss))"
proof -
  let ?d = "ds_roots (scanned ss)"
  have ok: "dict_ok ?d" using scanned_roots [of ss] by blast
  have "dict_sum (\<lambda>v. v) ?d = (\<Sum>r\<in>es_causal_root ` proven_signals ss. the (dict_get ?d r))"
    using dict_sum_keys [OF ok] by (simp add: scanned_root_names)
  also have "\<dots> = (\<Sum>r\<in>es_causal_root ` proven_signals ss. Max (root_strengths ss r))"
    using scanned_roots [of ss] by (intro sum.cong) (auto simp: root_strengths_def)
  finally have strength: "dict_sum (\<lambda>v. v) ?d = (\<Sum>r\<in>es_causal_root ` proven_signals ss. Max (root_strengths ss r))" .
  have "length ?d = card (fst ` set ?d)"
    using ok by (metis dict_ok_def distinct_card length_map list.set_map)
  then show ?thesis
    using strength scanned_independent_le [of ss]
    by (simp add: deconflict_def scanned_def [symmetric] Let_def scanned_raw scanned_missing scanned_root_names)
qed

subsection \<open>Fills are bounded by depth\<close>

definition usable :: "execution_attempt \<Rightarrow> bool" where
  "usable a \<longleftrightarrow> ea_quote_fresh a \<and> ea_route_available a \<and> 0 < ea_quoted_price a \<and> 0 < ea_available_notional a"

definition depth :: "execution_attempt list \<Rightarrow> real" where
  "depth attempts = sum_list (map ea_available_notional (filter usable attempts))"

lemma depth_nonneg: "0 \<le> depth attempts"
  unfolding depth_def by (rule sum_list_nonneg) (auto simp: usable_def)

lemma attempt_step_books:
  assumes "0 \<le> fs_remaining st"
  shows "fs_remaining (attempt_step side fee a st) =
      (if usable a then max 0 (fs_remaining st - ea_available_notional a) else fs_remaining st)"
    and "fs_filled (attempt_step side fee a st) + fs_remaining (attempt_step side fee a st) = fs_filled st + fs_remaining st"
    and "fs_used (attempt_step side fee a st) = fs_used st + 1"
  using assms by (auto simp: attempt_step_def Let_def usable_def)

lemma attempt_loop_books:
  assumes "0 \<le> fs_remaining st"
  shows "let st' = attempt_loop side fee attempts st in
    0 \<le> fs_remaining st' \<and> fs_remaining st' \<le> fs_remaining st
    \<and> fs_filled st' + fs_remaining st' = fs_filled st + fs_remaining st
    \<and> fs_remaining st - depth attempts \<le> fs_remaining st'
    \<and> fs_used st' \<le> fs_used st + length attempts
    \<and> (fs_remaining st' \<le> 1 / 10 ^ 12 \<longleftrightarrow> fs_remaining st - depth attempts \<le> 1 / 10 ^ 12)"
  using assms
proof (induction side fee attempts st rule: attempt_loop.induct)
  case (1 side fee st)
  then show ?case by (simp add: depth_def)
next
  case (2 side fee a rest st)
  show ?case
  proof (cases "fs_remaining st \<le> 1 / 10 ^ 12")
    case True
    with 2 depth_nonneg [of "a # rest"] show ?thesis by simp
  next
    case False
    define st1 where "st1 = attempt_step side fee a st"
    note books = attempt_step_books [OF "2.prems", of side fee a, folded st1_def]
    have "0 \<le> fs_remaining st1" using "2.prems" books by simp
    note ih = "2.IH" [OF False, folded st1_def, OF this]
    have d: "depth (a # rest) = (if usable a then ea_available_notional a else 0) + depth rest"
      by (simp add: depth_def)
    have "usable a \<Longrightarrow> 0 < ea_available_notional a" by (simp add: usable_def)
    moreover define t :: real where "t = 1 / 10 ^ 12"
    have "0 \<le> t" by (simp add: t_def)
    ultimately show ?thesis
      using False ih books d depth_nonneg [of rest]
      unfolding attempt_loop.simps Let_def st1_def [symmetric] t_def [symmetric]
      by (cases "usable a"; cases "fs_remaining st \<le> ea_available_notional a") auto
  qed
qed

lemma attempt_step_prices:
  assumes "0 \<le> fs_remaining st"
  shows "side = ''buy'' \<Longrightarrow> (usable a \<Longrightarrow> p \<le> ea_quoted_price a) \<Longrightarrow>
      p * (fs_filled (attempt_step side fee a st) - fs_filled st)
        \<le> fs_weighted_price (attempt_step side fee a st) - fs_weighted_price st"
    and "side \<noteq> ''buy'' \<Longrightarrow> (usable a \<Longrightarrow> ea_quoted_price a \<le> p) \<Longrightarrow>
      fs_weighted_price (attempt_step side fee a st) - fs_weighted_price st
        \<le> p * (fs_filled (attempt_step side fee a st) - fs_filled st)"
proof -
  define amount where "amount = min (fs_remaining st) (ea_available_notional a)"
  define cost where "cost = max 0 (ea_adverse_move_fraction a) + max 0 (ea_extra_slippage_fraction a)"
  have cost: "0 \<le> cost" by (simp add: cost_def)
  note step = attempt_step_def Let_def usable_def amount_def [symmetric] cost_def [symmetric]
  {
    assume side: "side = ''buy''" and p: "usable a \<Longrightarrow> p \<le> ea_quoted_price a"
    show "p * (fs_filled (attempt_step side fee a st) - fs_filled st)
        \<le> fs_weighted_price (attempt_step side fee a st) - fs_weighted_price st"
    proof (cases "usable a")
      case True
      then have "0 \<le> amount" and q: "0 < ea_quoted_price a" using assms by (auto simp: amount_def usable_def)
      moreover have "ea_quoted_price a * 1 \<le> ea_quoted_price a * (1 + cost)"
        using q cost by (intro mult_left_mono) auto
      then have "p \<le> ea_quoted_price a * (1 + cost)" using p [OF True] by (simp only: mult_1_right order_trans)
      ultimately have "amount * p \<le> amount * (ea_quoted_price a * (1 + cost))"
        by (intro mult_left_mono)
      moreover have "max 0 (1 + cost) = 1 + cost" using cost by simp
      ultimately show ?thesis using True side by (simp add: step mult.commute)
    qed (use side in \<open>auto simp: step\<close>)
  }
  {
    assume side: "side \<noteq> ''buy''" and p: "usable a \<Longrightarrow> ea_quoted_price a \<le> p"
    show "fs_weighted_price (attempt_step side fee a st) - fs_weighted_price st
        \<le> p * (fs_filled (attempt_step side fee a st) - fs_filled st)"
    proof (cases "usable a")
      case True
      then have "0 \<le> amount" and q: "0 < ea_quoted_price a" using assms by (auto simp: amount_def usable_def)
      moreover have "ea_quoted_price a * max 0 (1 - cost) \<le> ea_quoted_price a * 1"
        using q cost by (intro mult_left_mono) auto
      then have "ea_quoted_price a * max 0 (1 - cost) \<le> p" using p [OF True] by (simp only: mult_1_right order_trans)
      ultimately have "amount * (ea_quoted_price a * max 0 (1 - cost)) \<le> amount * p"
        by (intro mult_left_mono)
      with True side show ?thesis by (simp add: step mult.commute)
    qed (use side in \<open>auto simp: step\<close>)
  }
qed

lemma attempt_loop_prices:
  assumes "0 \<le> fs_remaining st"
  shows "(side = ''buy'' \<and> (\<forall>a\<in>set attempts. usable a \<longrightarrow> p \<le> ea_quoted_price a) \<longrightarrow>
      p * (fs_filled (attempt_loop side fee attempts st) - fs_filled st)
        \<le> fs_weighted_price (attempt_loop side fee attempts st) - fs_weighted_price st) \<and>
    (side \<noteq> ''buy'' \<and> (\<forall>a\<in>set attempts. usable a \<longrightarrow> ea_quoted_price a \<le> p) \<longrightarrow>
      fs_weighted_price (attempt_loop side fee attempts st) - fs_weighted_price st
        \<le> p * (fs_filled (attempt_loop side fee attempts st) - fs_filled st))"
  using assms
proof (induction side fee attempts st rule: attempt_loop.induct)
  case (2 side fee a rest st)
  show ?case
  proof (cases "fs_remaining st \<le> 1 / 10 ^ 12")
    case False
    define st1 where "st1 = attempt_step side fee a st"
    have "0 \<le> fs_remaining st1"
      using attempt_step_books [OF "2.prems", of side fee a, folded st1_def] "2.prems" by simp
    note ih = "2.IH" [OF False, folded st1_def, OF this]
    note step = attempt_step_prices [OF "2.prems", of side a p fee, folded st1_def]
    have loop: "attempt_loop side fee (a # rest) st = attempt_loop side fee rest st1"
      using False by (simp add: st1_def)
    show ?thesis unfolding loop using ih step by (force simp: right_diff_distrib)
  qed simp
qed simp

text \<open>A simulated execution never invents depth or price. What it fills and what it leaves add
  up to the request; it fills no more than the depth of the usable attempts and is complete
  exactly when that depth covers the request; the average price of a buy is never below the
  cheapest usable quote, that of a sell never above the dearest.\<close>

theorem fills_conserve_notional:
  assumes "simulate_execution requested attempts side fee require = Inr r"
  shows "se_filled_notional r + se_unfilled_notional r = requested
    \<and> 0 \<le> se_filled_notional r \<and> se_filled_notional r \<le> depth attempts
    \<and> se_attempts_used r \<le> length attempts
    \<and> (se_complete r \<longleftrightarrow> requested \<le> depth attempts + 1 / 10 ^ 12)
    \<and> (\<forall>avg p. se_average_price r = Some avg \<longrightarrow>
         (side = ''buy'' \<and> (\<forall>a\<in>set attempts. usable a \<longrightarrow> p \<le> ea_quoted_price a) \<longrightarrow> p \<le> avg) \<and>
         (side = ''sell'' \<and> (\<forall>a\<in>set attempts. usable a \<longrightarrow> ea_quoted_price a \<le> p) \<longrightarrow> avg \<le> p))"
proof -
  define st0 where "st0 = \<lparr>fs_remaining = requested, fs_filled = 0, fs_weighted_price = 0, fs_direct_cost = 0,
    fs_used = 0, fs_failure_reason = None\<rparr>"
  define st where "st = attempt_loop side fee attempts st0"
  have st0: "fs_remaining st0 = requested" "fs_filled st0 = 0" "fs_weighted_price st0 = 0" "fs_used st0 = 0"
    by (simp_all add: st0_def)
  have pos: "0 < requested" and r: "se_filled_notional r = fs_filled st" "se_unfilled_notional r = max 0 (fs_remaining st)"
    "se_attempts_used r = fs_used st" "se_complete r = (fs_remaining st \<le> 1 / 10 ^ 12)"
    "se_average_price r = (if fs_filled st > 0 then Some (fs_weighted_price st / fs_filled st) else None)"
    using assms by (auto simp: simulate_execution_def Let_def st_def st0_def split: if_splits)
  then have nonneg: "0 \<le> fs_remaining st0" by (simp add: st0)
  note books = attempt_loop_books [OF nonneg, of side fee attempts, folded st_def, unfolded Let_def st0]
  note prices = attempt_loop_prices [OF nonneg, of side attempts _ fee, folded st_def, unfolded st0]
  show ?thesis
  proof (intro conjI allI impI)
    fix avg p assume avg: "se_average_price r = Some avg"
    then have f: "0 < fs_filled st" "avg = fs_weighted_price st / fs_filled st" by (auto simp: r split: if_splits)
    show "p \<le> avg" if "side = ''buy'' \<and> (\<forall>a\<in>set attempts. usable a \<longrightarrow> p \<le> ea_quoted_price a)"
      using prices [of p] that f by (simp add: le_divide_eq)
    show "avg \<le> p" if "side = ''sell'' \<and> (\<forall>a\<in>set attempts. usable a \<longrightarrow> ea_quoted_price a \<le> p)"
      using prices [of p] that f by (simp add: divide_le_eq)
  qed (use books r in auto)
qed

theorem fills_conserve_notional_witness:
  "let attempts = [\<lparr>ea_quoted_price = 1, ea_available_notional = 40, ea_quote_fresh = True, ea_route_available = True,
       ea_adverse_move_fraction = 0, ea_extra_slippage_fraction = 1/100\<rparr>,
     \<lparr>ea_quoted_price = 1, ea_available_notional = 30, ea_quote_fresh = True, ea_route_available = False,
       ea_adverse_move_fraction = 0, ea_extra_slippage_fraction = 0\<rparr>,
     \<lparr>ea_quoted_price = 2, ea_available_notional = 60, ea_quote_fresh = True, ea_route_available = True,
       ea_adverse_move_fraction = 2/100, ea_extra_slippage_fraction = 0\<rparr>]
   in \<exists>r. simulate_execution 100 attempts ''buy'' (5/1000) True = Inr r
     \<and> se_filled_notional r + se_unfilled_notional r = 100 \<and> se_complete r
     \<and> se_average_price r = Some (1628/1000) \<and> 1 \<le> (1628/1000 :: real)"
proof -
  define attempts where "attempts =
    [\<lparr>ea_quoted_price = 1, ea_available_notional = 40, ea_quote_fresh = True, ea_route_available = True,
       ea_adverse_move_fraction = 0, ea_extra_slippage_fraction = 1/100\<rparr>,
     \<lparr>ea_quoted_price = 1, ea_available_notional = 30, ea_quote_fresh = True, ea_route_available = False,
       ea_adverse_move_fraction = 0, ea_extra_slippage_fraction = 0\<rparr>,
     \<lparr>ea_quoted_price = 2, ea_available_notional = 60, ea_quote_fresh = True, ea_route_available = True,
       ea_adverse_move_fraction = 2/100, ea_extra_slippage_fraction = (0::real)\<rparr>]"
  obtain r where r: "simulate_execution 100 attempts ''buy'' (5/1000) True = Inr r"
    and avg: "se_average_price r = Some (1628/1000)" and complete: "se_complete r"
    by (simp add: simulate_execution_def attempts_def attempt_step_def Let_def)
  note bounds = fills_conserve_notional [OF r]
  have "1 \<le> (1628/1000 :: real)"
    using bounds avg by (auto simp: attempts_def)
  with bounds r avg complete show ?thesis unfolding attempts_def [symmetric] Let_def by blast
qed

text \<open>A complete execution can still report the failure of an earlier attempt.\<close>

lemma complete_fill_reports_failure:
  "\<exists>r. simulate_execution 10
      [\<lparr>ea_quoted_price = 1, ea_available_notional = 10, ea_quote_fresh = False, ea_route_available = True,
         ea_adverse_move_fraction = 0, ea_extra_slippage_fraction = 0\<rparr>,
       \<lparr>ea_quoted_price = 1, ea_available_notional = 10, ea_quote_fresh = True, ea_route_available = True,
         ea_adverse_move_fraction = 0, ea_extra_slippage_fraction = 0\<rparr>] ''buy'' 0 True = Inr r
    \<and> se_complete r \<and> se_failure_reason r = Some ''stale_quote''"
  by (simp add: simulate_execution_def attempt_step_def Let_def)

subsection \<open>A refined decision stays behind the gates\<close>

definition refined_context_of ::
  "calibrated_distribution \<Rightarrow> evidence_signal list \<Rightarrow> failure_features \<Rightarrow> string \<Rightarrow> wallet_evidence option \<Rightarrow> cash_option \<Rightarrow> refined_context" where
  "refined_context_of cd signals features key wallet co =
     \<lparr>rx_expected_log_growth = cd_expected_log_growth cd, rx_calibration_confidence = cd_confidence cd,
      rx_evidence = deconflict signals, rx_failure = assess_failure features,
      rx_wallet = adjust_wallet key wallet, rx_cash_option = co\<rparr>"

lemma calibrated_confidence: "0 \<le> cd_confidence (calibrate c ctx base) \<and> cd_confidence (calibrate c ctx base) \<le> 1"
  by (simp add: calibrate_def Let_def)

lemma deconflict_missing: "ed_missing_provenance (deconflict ss) = [] \<longleftrightarrow> list_all es_provenance_complete ss"
proof -
  have "ed_missing_provenance (deconflict ss) = sort (map es_name (filter (\<lambda>s. \<not> es_provenance_complete s) ss))"
    by (simp add: deconflict_def scanned_def [symmetric] Let_def scanned_missing)
  moreover have "sort xs = [] \<longleftrightarrow> xs = []" for xs :: "string list"
    by (metis length_0_conv length_sort)
  ultimately show ?thesis by (auto simp: filter_empty_conv list_all_iff)
qed

lemma starter_multiplier_bounds:
  "20/100 \<le> fa_starter_size_multiplier (assess_failure f) \<and> fa_starter_size_multiplier (assess_failure f) \<le> 1"
  by (simp add: assess_failure_def Let_def)

lemma bounded_between: "a \<le> b \<Longrightarrow> a \<le> max a (min b x) \<and> max a (min b x) \<le> (b :: real)"
  by (simp add: max_def min_def)

lemma wallet_multiplier_bounds:
  "80/100 \<le> wa_sizing_multiplier (adjust_wallet k e) \<and> wa_sizing_multiplier (adjust_wallet k e) \<le> 115/100"
proof (cases "\<exists>w. e = Some w \<and> wallet_blockers k w = []")
  case True
  then obtain w where "e = Some w" and "wallet_blockers k w = []" by blast
  with bounded_between [of "80/100" "115/100" "1 + we_sizing_delta w"] show ?thesis
    by (simp add: adjust_wallet_def)
next
  case False
  then have "\<exists>bs. adjust_wallet k e = blocked_wallet bs" by (cases e) (auto simp: adjust_wallet_def)
  then show ?thesis by (auto simp: blocked_wallet_def)
qed

lemma mult_bounds:
  fixes a b c d x y :: real
  assumes "0 \<le> a" "a \<le> x" "x \<le> b" "0 \<le> c" "c \<le> y" "y \<le> d"
  shows "a * c \<le> x * y \<and> x * y \<le> b * d"
  using assms by (auto intro!: mult_mono)

text \<open>The refinement only restricts. Whatever the calibration, the signals, the risk features, the
  wallet and the value of cash are, capital is deployed exactly when the strategy's own gate
  passed, every signal has provenance, deploying beats cash, and calibrated growth and
  confidence are positive; the size stays between 0.08 and 1.15 of the planned one.\<close>

theorem refined_decision_never_bypasses_gates:
  assumes "cash_option_value residual holding arrivals future qualifies reuse = Inr co"
  shows "let cd = calibrate c ctx base;
             d = refine_decision base_confidence (refined_context_of cd signals features key wallet co) gate
    in (rd_deploy_capital d \<longleftrightarrow> gate \<and> list_all es_provenance_complete signals \<and> 0 < co_advantage co
          \<and> 0 < cd_expected_log_growth cd \<and> 0 < rd_confidence d)
       \<and> 0 \<le> rd_confidence d \<and> rd_confidence d \<le> 1 \<and> 0 \<le> rd_exit_urgency d \<and> rd_exit_urgency d \<le> 1
       \<and> 8/100 \<le> rd_sizing_multiplier d \<and> rd_sizing_multiplier d \<le> 115/100"
proof -
  define cd where "cd = calibrate c ctx base"
  define x where "x = refined_context_of cd signals features key wallet co"
  define d where "d = refine_decision base_confidence x gate"
  have conf: "0 \<le> rd_confidence d" "rd_confidence d \<le> 1" "0 \<le> rd_exit_urgency d" "rd_exit_urgency d \<le> 1"
    by (simp_all add: d_def refine_decision_def Let_def)
  have co: "co_deploy co \<longleftrightarrow> 0 < co_advantage co"
    using assms by (auto simp: cash_option_value_def Let_def split: if_splits)
  have rank: "rd_ranking_score d = cd_expected_log_growth cd * rd_confidence d * max 0 (co_advantage co + 1)"
    by (simp add: d_def refine_decision_def Let_def x_def refined_context_of_def)
  have "rd_deploy_capital d \<longleftrightarrow> gate \<and> list_all es_provenance_complete signals \<and> 0 < co_advantage co \<and> 0 < rd_ranking_score d"
    by (auto simp: d_def refine_decision_def Let_def x_def refined_context_of_def deconflict_missing co)
  then have deploy: "rd_deploy_capital d \<longleftrightarrow> gate \<and> list_all es_provenance_complete signals \<and> 0 < co_advantage co
      \<and> 0 < cd_expected_log_growth cd \<and> 0 < rd_confidence d"
    using conf(1) by (auto simp: rank zero_less_mult_iff max_def)
  let ?a = "fa_starter_size_multiplier (assess_failure features)" and ?w = "wa_sizing_multiplier (adjust_wallet key wallet)"
    and ?k = "5/10 + 5/10 * cd_confidence cd"
  have k: "5/10 \<le> ?k" "?k \<le> 1" using calibrated_confidence [of c ctx base] by (simp_all add: cd_def)
  have aw: "16/100 \<le> ?a * ?w \<and> ?a * ?w \<le> 115/100"
    using mult_bounds [of "20/100" ?a 1 "80/100" ?w "115/100"] starter_multiplier_bounds [of features]
      wallet_multiplier_bounds [of key wallet] by simp
  define s where "s = ?a * ?w * ?k"
  have "8/100 \<le> s \<and> s \<le> 115/100"
    unfolding s_def using mult_bounds [of "16/100" "?a * ?w" "115/100" "5/10" ?k 1] aw k by simp
  moreover from this have "max 0 s = s" by simp
  moreover have "rd_sizing_multiplier d = max 0 s"
    by (simp add: s_def d_def refine_decision_def Let_def x_def refined_context_of_def)
  ultimately show ?thesis
    using deploy conf unfolding cd_def [symmetric] x_def [symmetric] d_def [symmetric] Let_def by simp
qed

theorem refined_decision_never_bypasses_gates_witness:
  "let c = \<lparr>cb_prior_weight = 8, cb_confidence_sample = 40, cb_episodes = []\<rparr>;
       ctx = \<lparr>oc_lane = ''pumpfun'', oc_lifecycle = ''launch'', oc_regime = ''hot'', oc_risk_signature = ''clean''\<rparr>;
       f = failure_features.make 0 0 0 0 0 0 0 0
   in \<exists>co. cash_option_value (1/10) 1800 1 (1/10) (1/5) 1 = Inr co \<and> 0 < co_advantage co
     \<and> \<not> rd_deploy_capital (refine_decision (8/10) (refined_context_of (calibrate c ctx None) [] f ''k'' None co) True)"
proof -
  define c :: calibrator where "c = \<lparr>cb_prior_weight = 8, cb_confidence_sample = 40, cb_episodes = []\<rparr>"
  define ctx :: outcome_context where "ctx =
    \<lparr>oc_lane = ''pumpfun'', oc_lifecycle = ''launch'', oc_regime = ''hot'', oc_risk_signature = ''clean''\<rparr>"
  obtain co where co: "cash_option_value (1/10) 1800 1 (1/10) (1/5) 1 = Inr co" and adv: "0 < co_advantage co"
    by (simp add: cash_option_value_def Let_def)
  have "\<not> 0 < cd_expected_log_growth (calibrate c ctx None)"
    by (simp add: calibrate_def c_def Let_def)
  with refined_decision_never_bypasses_gates [OF co, of c ctx None "8/10" "[]" "failure_features.make 0 0 0 0 0 0 0 0" "''k''" None True]
  show ?thesis using co adv unfolding c_def [symmetric] ctx_def [symmetric] Let_def by blast
qed

end
