(* ===== verification/Evolution.thy ===== *)
theory Evolution
  imports Evidence
begin

text \<open>
  The policy tournament and the strategy epochs of \<open>v52_continuous_evolution.py\<close>, and the
  promotion of a winner (\<open>v52_strategy_promotion.py\<close>). A tournament compares policies on the
  streams that all of them have; a winner's configuration becomes one or two new epochs of an
  append-only history. Configuration values are JSON values; the digest of a configuration,
  the text of a float and the clock are arguments.
\<close>

subsection \<open>Configurations\<close>

datatype config_value =
    Truth bool
  | Whole int
  | Float real
  | Text string
  | Null
  | Items "config_value list"
  | Table "(string \<times> config_value) list"

type_synonym config = "(string, config_value) dict"

text \<open>Python's \<open>==\<close> where one side is a boolean: booleans, integers and floats compare as numbers.\<close>

fun numeric_value :: "config_value \<Rightarrow> real option" where
  "numeric_value (Truth b) = Some (if b then 1 else 0)"
| "numeric_value (Whole i) = Some (real_of_int i)"
| "numeric_value (Float r) = Some r"
| "numeric_value (Text s) = None"
| "numeric_value Null = None"
| "numeric_value (Items vs) = None"
| "numeric_value (Table kvs) = None"

definition py_equal :: "config_value \<Rightarrow> config_value \<Rightarrow> bool" where
  "py_equal a b =
     (case (numeric_value a, numeric_value b) of (Some x, Some y) \<Rightarrow> x = y | _ \<Rightarrow> a = b)"

definition update_config :: "(string \<times> config_value) list \<Rightarrow> config \<Rightarrow> config" where
  "update_config changes c = fold (\<lambda>(k, v). dict_set k v) changes c"

definition IMMUTABLE_AUTHORITY_KEYS :: "string list" where
  "IMMUTABLE_AUTHORITY_KEYS =
     [''paper_only'', ''signing_enabled'', ''transaction_submission_enabled'', ''live_money_authority'']"

definition PROTECTED_STRATEGY_KEYS :: "string list" where
  "PROTECTED_STRATEGY_KEYS =
     [''allow_averaging_down'', ''allow_first_slot_sniping'', ''require_exact_two_sided_quote'',
      ''require_exact_sell_route'', ''require_structural_exitability'',
      ''absolute_latency_ceiling_seconds'', ''chase_observe_only_fraction'']"

definition DEFAULT_AUTHORITY_BOUNDARY :: config where
  "DEFAULT_AUTHORITY_BOUNDARY =
     [(''paper_only'', Truth True), (''signing_enabled'', Truth False),
      (''transaction_submission_enabled'', Truth False), (''live_money_authority'', Truth False)]"

definition CURRENT_PROTECTED_STRATEGY :: config where
  "CURRENT_PROTECTED_STRATEGY =
     [(''allow_averaging_down'', Truth False), (''allow_first_slot_sniping'', Truth False),
      (''require_exact_two_sided_quote'', Truth True), (''require_exact_sell_route'', Truth True),
      (''require_structural_exitability'', Truth True),
      (''absolute_latency_ceiling_seconds'', Float 20), (''chase_observe_only_fraction'', Float (40/100))]"

text \<open>The text of a list of strings in an error message: \<open>repr\<close> quotes with a single quote unless
  the string holds one and no double quote, and escapes what does not print.\<close>

definition hex_digit :: "nat \<Rightarrow> char" where
  "hex_digit n = char_of (if n < 10 then 48 + n else 87 + n)"

definition repr_char :: "char \<Rightarrow> char \<Rightarrow> string" where
  "repr_char q c =
     (let n = (of_char c :: nat) in
      if c = q \<or> n = 92 then [CHR 0x5C, c]
      else if n = 10 then [CHR 0x5C, CHR ''n'']
      else if n = 13 then [CHR 0x5C, CHR ''r'']
      else if n = 9 then [CHR 0x5C, CHR ''t'']
      else if n < 32 \<or> (127 \<le> n \<and> n \<le> 160) \<or> n = 173
      then [CHR 0x5C, CHR ''x'', hex_digit (n div 16), hex_digit (n mod 16)]
      else [c])"

definition repr_text :: "string \<Rightarrow> string" where
  "repr_text s =
     (let q = (if CHR 0x27 \<in> set s \<and> CHR 0x22 \<notin> set s then CHR 0x22 else CHR 0x27)
      in [q] @ concat (map (repr_char q) s) @ [q])"

fun join_texts :: "string list \<Rightarrow> string" where
  "join_texts [] = []"
| "join_texts [s] = s"
| "join_texts (s # t # ts) = s @ '', '' @ join_texts (t # ts)"

definition repr_list :: "string list \<Rightarrow> string" where
  "repr_list ks = ''['' @ join_texts (map repr_text ks) @ '']''"

text \<open>\<open>sorted(KEYS.intersection(changes))\<close> and \<open>sorted(set(changes) - KEYS)\<close>.\<close>

definition keys_in :: "string list \<Rightarrow> config \<Rightarrow> string list" where
  "keys_in ks changes = sort (filter (\<lambda>k. k \<in> set ks) (map fst changes))"

definition keys_outside :: "string list \<Rightarrow> config \<Rightarrow> string list" where
  "keys_outside ks changes = sort (filter (\<lambda>k. k \<notin> set ks) (map fst changes))"

fun authority_mismatch :: "(string \<times> config_value) list \<Rightarrow> config \<Rightarrow> string option" where
  "authority_mismatch [] c = None"
| "authority_mismatch ((k, expected) # rest) c =
     (case dict_get c k of
        None \<Rightarrow> Some k
      | Some v \<Rightarrow> if py_equal v expected then authority_mismatch rest c else Some k)"

definition assert_authority :: "config \<Rightarrow> unit result" where
  "assert_authority c =
     (case authority_mismatch DEFAULT_AUTHORITY_BOUNDARY c of
        None \<Rightarrow> Inr ()
      | Some k \<Rightarrow> Inl (ValueError (''immutable authority key cannot be changed: '' @ k)))"

subsection \<open>Epochs\<close>

record strategy_epoch =
  ep_sequence :: nat
  ep_strategy_version :: string
  ep_parent_version :: "string option"
  ep_created_at :: string
  ep_fingerprint :: string
  ep_rationale :: string
  ep_evidence_refs :: "string list"
  ep_protected_change :: bool
  ep_config :: config

type_synonym evolution = "strategy_epoch list"

text \<open>\<open>digest\<close> stands for the SHA-256 of the JSON text, which is written with sorted keys.\<close>

definition config_fingerprint :: "(config \<Rightarrow> string) \<Rightarrow> config \<Rightarrow> string" where
  "config_fingerprint digest c = digest (sort_key fst c)"

definition append_epoch ::
  "(config \<Rightarrow> string) \<Rightarrow> string \<Rightarrow> string \<Rightarrow> string option \<Rightarrow> string \<Rightarrow> config \<Rightarrow> string list \<Rightarrow> bool \<Rightarrow> evolution \<Rightarrow> evolution" where
  "append_epoch digest now version parent rationale c refs protected ev =
     ev @ [\<lparr>ep_sequence = length ev + 1, ep_strategy_version = version, ep_parent_version = parent,
            ep_created_at = now, ep_fingerprint = config_fingerprint digest c, ep_rationale = rationale,
            ep_evidence_refs = refs, ep_protected_change = protected, ep_config = c\<rparr>]"

definition new_evolution :: "(config \<Rightarrow> string) \<Rightarrow> string \<Rightarrow> config \<Rightarrow> string \<Rightarrow> evolution result" where
  "new_evolution digest now initial version =
     (let c = update_config initial (update_config CURRENT_PROTECTED_STRATEGY DEFAULT_AUTHORITY_BOUNDARY)
      in bind_result (assert_authority c) (\<lambda>_.
           Inr (append_epoch digest now version None ''initial_strategy_epoch'' c [] False [])))"

definition current_epoch :: "evolution \<Rightarrow> strategy_epoch" where
  "current_epoch ev = last ev"

definition or_version :: "string option \<Rightarrow> string \<Rightarrow> string" where
  "or_version v d = (case v of None \<Rightarrow> d | Some s \<Rightarrow> if s = [] then d else s)"

definition evolve ::
  "(config \<Rightarrow> string) \<Rightarrow> string \<Rightarrow> config \<Rightarrow> string \<Rightarrow> string option \<Rightarrow> string list \<Rightarrow> evolution \<Rightarrow> evolution result" where
  "evolve digest now changes rationale version refs ev =
     (if strip rationale = [] then Inl (ValueError ''rationale is required'')
      else if keys_in IMMUTABLE_AUTHORITY_KEYS changes \<noteq> []
      then Inl (ValueError (''immutable authority keys are not evolvable: '' @ repr_list (keys_in IMMUTABLE_AUTHORITY_KEYS changes)))
      else if keys_in PROTECTED_STRATEGY_KEYS changes \<noteq> []
      then Inl (ValueError (''protected strategy keys require evolve_protected_strategy_constraint: ''
             @ repr_list (keys_in PROTECTED_STRATEGY_KEYS changes)))
      else
        let cur = current_epoch ev; c = update_config changes (ep_config cur)
        in bind_result (assert_authority c) (\<lambda>_.
             Inr (append_epoch digest now (or_version version (''v5.2.e'' @ nat_text (ep_sequence cur)))
               (Some (ep_strategy_version cur)) rationale c refs False ev)))"

definition evolve_protected ::
  "(config \<Rightarrow> string) \<Rightarrow> string \<Rightarrow> config \<Rightarrow> string \<Rightarrow> string option \<Rightarrow> string list \<Rightarrow> evolution \<Rightarrow> evolution result" where
  "evolve_protected digest now changes rationale version refs ev =
     (if strip rationale = [] then Inl (ValueError ''rationale is required'')
      else if refs = [] \<or> (\<exists>r\<in>set refs. strip r = [])
      then Inl (ValueError ''at least one validation/test reference is required'')
      else if keys_in IMMUTABLE_AUTHORITY_KEYS changes \<noteq> []
      then Inl (ValueError (''immutable authority keys cannot be changed: '' @ repr_list (keys_in IMMUTABLE_AUTHORITY_KEYS changes)))
      else if changes = [] then Inl (ValueError ''at least one strategy change is required'')
      else if keys_outside PROTECTED_STRATEGY_KEYS changes \<noteq> []
      then Inl (ValueError (''protected strategy path accepts only protected strategy keys: ''
             @ repr_list (keys_outside PROTECTED_STRATEGY_KEYS changes)))
      else
        let cur = current_epoch ev; c = update_config changes (ep_config cur)
        in bind_result (assert_authority c) (\<lambda>_.
             Inr (append_epoch digest now (or_version version (''v5.2.p'' @ nat_text (ep_sequence cur)))
               (Some (ep_strategy_version cur)) rationale c refs True ev)))"

subsection \<open>The tournament\<close>

record policy_outcome =
  pu_policy_id :: string
  pu_stream_id :: string
  pu_net_return :: py_number
  pu_drawdown :: real
  pu_execution_complete :: bool

record policy_score =
  pc_policy_id :: string
  pc_episodes :: nat
  pc_geometric_growth :: real
  pc_mean_return :: real
  pc_max_drawdown :: real
  pc_execution_completion_rate :: real
  pc_score :: real

datatype improvement = NoRatio | Ratio real | Unbounded

record tournament_decision =
  td_winner :: "string option"
  td_incumbent :: string
  td_eligible :: bool
  td_improvement_ratio :: improvement
  td_blockers :: "string list"
  td_scores :: "policy_score list"

record tournament =
  to_min_paired_episodes :: int
  to_min_improvement_ratio :: real
  to_outcomes :: "policy_outcome list"

definition new_tournament :: "int \<Rightarrow> real \<Rightarrow> tournament" where
  "new_tournament episodes ratio =
     \<lparr>to_min_paired_episodes = episodes, to_min_improvement_ratio = ratio, to_outcomes = []\<rparr>"

definition record_outcome :: "policy_outcome \<Rightarrow> tournament \<Rightarrow> tournament result" where
  "record_outcome item t =
     bind_result (check_net_return (pu_net_return item)) (\<lambda>_.
       Inr (t\<lparr>to_outcomes := to_outcomes t @ [item]\<rparr>))"

definition score_policy :: "string \<Rightarrow> policy_outcome list \<Rightarrow> policy_score" where
  "score_policy policy outcomes =
     (let returns = map (\<lambda>u. finite_value (pu_net_return u)) outcomes;
          episodes = length returns;
          growth = exp (sum_list (map (\<lambda>v. ln (1 + v)) returns) / real episodes) - 1;
          drawdown = fold max (map (\<lambda>u. max 0 (pu_drawdown u)) outcomes) 0;
          completion = real (length (filter pu_execution_complete outcomes)) / real episodes
      in \<lparr>pc_policy_id = policy, pc_episodes = episodes, pc_geometric_growth = growth,
          pc_mean_return = sum_list returns / real episodes, pc_max_drawdown = drawdown,
          pc_execution_completion_rate = completion,
          pc_score = growth * completion / (1 + drawdown)\<rparr>)"

text \<open>\<open>by_policy[p]\<close>: a later outcome of the same stream replaces an earlier one.\<close>

fun by_policy :: "string \<Rightarrow> policy_outcome list \<Rightarrow> (string, policy_outcome) dict \<Rightarrow> (string, policy_outcome) dict" where
  "by_policy p [] d = d"
| "by_policy p (item # items) d =
     by_policy p items (if pu_policy_id item = p then dict_set (pu_stream_id item) item d else d)"

definition shared_streams :: "string \<Rightarrow> string list \<Rightarrow> policy_outcome list \<Rightarrow> string list" where
  "shared_streams incumbent challengers outcomes =
     sort (filter (\<lambda>s. \<forall>p\<in>set challengers. dict_get (by_policy p outcomes []) s \<noteq> None)
             (map fst (by_policy incumbent outcomes [])))"

fun max_score :: "policy_score \<Rightarrow> policy_score list \<Rightarrow> policy_score" where
  "max_score best [] = best"
| "max_score best (s # ss) = max_score (if pc_score s > pc_score best then s else best) ss"

definition policy_scores :: "tournament \<Rightarrow> string list \<Rightarrow> string list \<Rightarrow> policy_score list" where
  "policy_scores t shared policies =
     (if shared = [] then []
      else map (\<lambda>p. score_policy p (map (\<lambda>s. the (dict_get (by_policy p (to_outcomes t) []) s)) shared)) policies)"

definition improvement_over :: "policy_score \<Rightarrow> policy_score \<Rightarrow> improvement" where
  "improvement_over incumbent best =
     (if pc_score incumbent > 0 then Ratio (pc_score best / pc_score incumbent)
      else if pc_score best > 0 then Unbounded else Ratio 1)"

fun below :: "improvement \<Rightarrow> real \<Rightarrow> bool" where
  "below (Ratio r) minimum = (r < minimum)"
| "below Unbounded minimum = False"
| "below NoRatio minimum = False"

definition no_winner :: "string \<Rightarrow> improvement \<Rightarrow> string list \<Rightarrow> policy_score list \<Rightarrow> tournament_decision" where
  "no_winner incumbent ratio blockers scores =
     \<lparr>td_winner = None, td_incumbent = incumbent, td_eligible = False, td_improvement_ratio = ratio,
      td_blockers = blockers, td_scores = scores\<rparr>"

definition compare_policies :: "tournament \<Rightarrow> string \<Rightarrow> string list \<Rightarrow> tournament_decision" where
  "compare_policies t incumbent challengers =
     (let shared = shared_streams incumbent challengers (to_outcomes t);
          blockers = (if int (length shared) < to_min_paired_episodes t
                      then [''insufficient_paired_forward_episodes''] else []);
          scores = policy_scores t shared (incumbent # challengers)
      in if blockers \<noteq> [] \<or> scores = [] then no_winner incumbent NoRatio blockers scores
         else
           let incumbent_score = hd (filter (\<lambda>s. pc_policy_id s = incumbent) scores);
               best = max_score (hd scores) (tl scores);
               ratio = improvement_over incumbent_score best
           in if pc_policy_id best = incumbent then no_winner incumbent (Ratio 1) [''incumbent_not_beaten''] scores
              else if below ratio (to_min_improvement_ratio t)
              then no_winner incumbent ratio [''improvement_below_minimum''] scores
              else \<lparr>td_winner = Some (pc_policy_id best), td_incumbent = incumbent, td_eligible = True,
                    td_improvement_ratio = ratio, td_blockers = [], td_scores = scores\<rparr>)"

subsection \<open>Promotion\<close>

fun improvement_text :: "(real \<Rightarrow> string) \<Rightarrow> improvement \<Rightarrow> string" where
  "improvement_text float_text NoRatio = ''None''"
| "improvement_text float_text (Ratio r) = float_text r"
| "improvement_text float_text Unbounded = ''inf''"

definition promotion_rationale :: "(real \<Rightarrow> string) \<Rightarrow> string \<Rightarrow> string \<Rightarrow> improvement \<Rightarrow> string" where
  "promotion_rationale float_text prefix winner ratio =
     prefix @ '':'' @ winner @ '':ratio='' @ improvement_text float_text ratio"

definition evolve_from_tournament ::
  "(config \<Rightarrow> string) \<Rightarrow> (real \<Rightarrow> string) \<Rightarrow> string \<Rightarrow> tournament_decision \<Rightarrow> (string \<Rightarrow> config option) \<Rightarrow> string
     \<Rightarrow> evolution \<Rightarrow> (evolution \<times> strategy_epoch option) result" where
  "evolve_from_tournament digest float_text now decision policy_configs prefix ev =
     (case td_winner decision of
        None \<Rightarrow> Inr (ev, None)
      | Some winner \<Rightarrow>
          if \<not> td_eligible decision then Inr (ev, None)
          else (case policy_configs winner of
              None \<Rightarrow> Inl (KeyError (''missing policy config for winner '' @ winner))
            | Some changes \<Rightarrow>
                bind_result (evolve digest now changes
                    (promotion_rationale float_text prefix winner (td_improvement_ratio decision)) None
                    [''paired_policy:'' @ winner] ev)
                  (\<lambda>ev'. Inr (ev', Some (current_epoch ev')))))"

definition ordinary_changes :: "config \<Rightarrow> config" where
  "ordinary_changes changes = filter (\<lambda>(k, v). k \<notin> set PROTECTED_STRATEGY_KEYS) changes"

definition protected_changes :: "config \<Rightarrow> config" where
  "protected_changes changes = filter (\<lambda>(k, v). k \<in> set PROTECTED_STRATEGY_KEYS) changes"

text \<open>The ordinary changes become one epoch, then the protected ones another. The second call can
  find the first one's epoch written, so the history stands beside the result.\<close>

definition apply_changes ::
  "(config \<Rightarrow> string) \<Rightarrow> string \<Rightarrow> string \<Rightarrow> config \<Rightarrow> string \<Rightarrow> string list \<Rightarrow> evolution
     \<Rightarrow> evolution \<times> strategy_epoch list result" where
  "apply_changes digest now1 now2 changes rationale refs ev =
     (let ordinary = ordinary_changes changes;
          protected = protected_changes changes;
          first = (if ordinary = [] then Inr (ev, []) else
                     bind_result (evolve digest now1 ordinary rationale None refs ev)
                       (\<lambda>ev1. Inr (ev1, [current_epoch ev1])))
      in case first of
           Inl e \<Rightarrow> (ev, Inl e)
         | Inr (ev1, es) \<Rightarrow>
             if protected = [] then (ev1, Inr es)
             else (case evolve_protected digest now2 protected rationale None refs ev1 of
                 Inl e \<Rightarrow> (ev1, Inl e)
               | Inr ev2 \<Rightarrow> (ev2, Inr (es @ [current_epoch ev2]))))"

definition paired_episodes :: "policy_score list \<Rightarrow> nat" where
  "paired_episodes scores = (case map pc_episodes scores of [] \<Rightarrow> 0 | n # ns \<Rightarrow> fold min ns n)"

definition promote_winner ::
  "(config \<Rightarrow> string) \<Rightarrow> (real \<Rightarrow> string) \<Rightarrow> string \<Rightarrow> string \<Rightarrow> tournament_decision \<Rightarrow> (string \<Rightarrow> config option)
     \<Rightarrow> string \<Rightarrow> evolution \<Rightarrow> evolution \<times> strategy_epoch list result" where
  "promote_winner digest float_text now1 now2 decision policy_configs prefix ev =
     (case td_winner decision of
        None \<Rightarrow> (ev, Inr [])
      | Some winner \<Rightarrow>
          if \<not> td_eligible decision then (ev, Inr [])
          else (case policy_configs winner of
              None \<Rightarrow> (ev, Inl (KeyError (''missing policy config for winner '' @ winner)))
            | Some changes \<Rightarrow>
                if changes = [] then (ev, Inl (ValueError ''winner policy config must contain at least one change''))
                else if keys_in IMMUTABLE_AUTHORITY_KEYS changes \<noteq> []
                then (ev, Inl (ValueError (''immutable authority keys cannot be changed: ''
                       @ repr_list (keys_in IMMUTABLE_AUTHORITY_KEYS changes))))
                else apply_changes digest now1 now2 changes
                       (promotion_rationale float_text prefix winner (td_improvement_ratio decision))
                       [''paired_policy:'' @ winner @ '':episodes='' @ nat_text (paired_episodes (td_scores decision))] ev))"

subsection \<open>Every epoch is audited\<close>

definition epoch_ok :: "(config \<Rightarrow> string) \<Rightarrow> strategy_epoch \<Rightarrow> bool" where
  "epoch_ok digest e \<longleftrightarrow> dict_ok (ep_config e) \<and> assert_authority (ep_config e) = Inr ()
     \<and> ep_fingerprint e = config_fingerprint digest (ep_config e)"

text \<open>What the next epoch keeps of the one before: its place in the chain and its reasons, the
  authority keys with their very values, and either the protected or the other keys.\<close>

definition succeeds :: "strategy_epoch \<Rightarrow> strategy_epoch \<Rightarrow> bool" where
  "succeeds e e' \<longleftrightarrow>
     ep_sequence e' = Suc (ep_sequence e) \<and> ep_parent_version e' = Some (ep_strategy_version e)
     \<and> strip (ep_rationale e') \<noteq> []
     \<and> (\<forall>k\<in>set IMMUTABLE_AUTHORITY_KEYS. dict_get (ep_config e') k = dict_get (ep_config e) k)
     \<and> (if ep_protected_change e'
        then ep_evidence_refs e' \<noteq> [] \<and> (\<forall>r\<in>set (ep_evidence_refs e'). strip r \<noteq> [])
          \<and> (\<forall>k. k \<notin> set PROTECTED_STRATEGY_KEYS \<longrightarrow> dict_get (ep_config e') k = dict_get (ep_config e) k)
        else \<forall>k\<in>set PROTECTED_STRATEGY_KEYS. dict_get (ep_config e') k = dict_get (ep_config e) k)"

fun linked :: "evolution \<Rightarrow> bool" where
  "linked [] = True"
| "linked [e] = True"
| "linked (e # e' # es) = (succeeds e e' \<and> linked (e' # es))"

definition evolution_ok :: "(config \<Rightarrow> string) \<Rightarrow> evolution \<Rightarrow> bool" where
  "evolution_ok digest ev \<longleftrightarrow>
     ev \<noteq> [] \<and> ep_sequence (hd ev) = 1 \<and> ep_parent_version (hd ev) = None \<and> linked ev \<and> list_all (epoch_ok digest) ev"

lemma linked_snoc: "ev \<noteq> [] \<Longrightarrow> linked (ev @ [e]) \<longleftrightarrow> linked ev \<and> succeeds (last ev) e"
  by (induction ev rule: linked.induct) auto

lemma linked_append: "linked (xs @ ys) \<Longrightarrow> linked xs \<and> linked ys"
proof (induction xs rule: linked.induct)
  case (2 e)
  then show ?case by (cases ys) auto
qed auto

lemma linked_sequence: "linked ev \<Longrightarrow> i < length ev \<Longrightarrow> ep_sequence (ev ! i) = ep_sequence (hd ev) + i"
proof (induction ev arbitrary: i rule: linked.induct)
  case (3 e e' es)
  then show ?case by (cases i) (auto simp: succeeds_def)
qed auto

lemma last_sequence: "evolution_ok digest ev \<Longrightarrow> ep_sequence (last ev) = length ev"
  using linked_sequence [of ev "length ev - 1"] by (cases ev) (auto simp: evolution_ok_def last_conv_nth)

lemma update_config_get:
  "dict_ok changes \<Longrightarrow> dict_get (update_config changes c) k =
     (case dict_get changes k of None \<Rightarrow> dict_get c k | Some v \<Rightarrow> Some v)"
proof (induction changes arbitrary: c)
  case (Cons kv changes)
  obtain k' v where kv: "kv = (k', v)" by fastforce
  have fresh: "dict_get changes k' = None" and "dict_ok changes"
    using Cons.prems by (auto simp: kv dict_ok_def dict_get_eq_None)
  with Cons.IH [of "dict_set k' v c"] show ?case
    by (cases "k = k'") (auto simp: kv update_config_def split: option.splits)
qed (simp add: update_config_def)

lemma update_config_ok: "dict_ok c \<Longrightarrow> dict_ok (update_config changes c)"
  unfolding update_config_def
  by (induction changes arbitrary: c) (auto simp: od.ok_put)

lemma sort_empty: "sort xs = [] \<longleftrightarrow> xs = []"
  by (metis length_0_conv length_sort)

lemma keys_in_empty: "keys_in ks changes = [] \<longleftrightarrow> (\<forall>k\<in>set ks. dict_get changes k = None)"
  by (force simp: keys_in_def sort_empty filter_empty_conv dict_get_eq_None)

lemma keys_outside_empty: "keys_outside ks changes = [] \<longleftrightarrow> (\<forall>k. k \<notin> set ks \<longrightarrow> dict_get changes k = None)"
  by (force simp: keys_outside_def sort_empty filter_empty_conv dict_get_eq_None)

lemma new_evolution_ok:
  assumes "dict_ok initial" and "new_evolution digest now initial version = Inr ev"
  shows "evolution_ok digest ev"
proof -
  have "dict_ok (update_config initial (update_config CURRENT_PROTECTED_STRATEGY DEFAULT_AUTHORITY_BOUNDARY))"
    by (intro update_config_ok) (simp add: dict_ok_def DEFAULT_AUTHORITY_BOUNDARY_def)
  with assms show ?thesis
    by (auto simp: new_evolution_def Let_def bind_result_Inr_iff append_epoch_def evolution_ok_def epoch_ok_def)
qed

lemma append_epoch_ok:
  assumes ok: "evolution_ok digest ev" and "strip rationale \<noteq> []" and "dict_ok changes"
    and c: "c = update_config changes (ep_config (last ev))" and auth: "assert_authority c = Inr ()"
    and imm: "keys_in IMMUTABLE_AUTHORITY_KEYS changes = []"
    and kind: "if protected then refs \<noteq> [] \<and> (\<forall>r\<in>set refs. strip r \<noteq> []) \<and> keys_outside PROTECTED_STRATEGY_KEYS changes = []
       else keys_in PROTECTED_STRATEGY_KEYS changes = []"
  shows "evolution_ok digest (append_epoch digest now version (Some (ep_strategy_version (last ev))) rationale c refs protected ev)"
proof -
  have "epoch_ok digest (last ev)" and "ev \<noteq> []" using ok by (auto simp: evolution_ok_def list_all_iff)
  then have "dict_ok c" unfolding c by (intro update_config_ok) (simp add: epoch_ok_def)
  have get: "dict_get c k = (case dict_get changes k of None \<Rightarrow> dict_get (ep_config (last ev)) k | Some v \<Rightarrow> Some v)" for k
    unfolding c by (rule update_config_get) fact
  have "\<forall>k\<in>set IMMUTABLE_AUTHORITY_KEYS. dict_get c k = dict_get (ep_config (last ev)) k"
    using imm by (simp add: get keys_in_empty)
  moreover have "if protected
      then refs \<noteq> [] \<and> (\<forall>r\<in>set refs. strip r \<noteq> [])
        \<and> (\<forall>k. k \<notin> set PROTECTED_STRATEGY_KEYS \<longrightarrow> dict_get c k = dict_get (ep_config (last ev)) k)
      else \<forall>k\<in>set PROTECTED_STRATEGY_KEYS. dict_get c k = dict_get (ep_config (last ev)) k"
    using kind by (simp add: get keys_in_empty keys_outside_empty split: if_splits)
  ultimately have "succeeds (last ev) (last (append_epoch digest now version (Some (ep_strategy_version (last ev))) rationale c refs protected ev))"
    using assms(2) last_sequence [OF ok] by (simp add: append_epoch_def succeeds_def)
  with ok \<open>dict_ok c\<close> auth \<open>ev \<noteq> []\<close> show ?thesis
    by (simp add: append_epoch_def evolution_ok_def linked_snoc epoch_ok_def hd_append)
qed

lemma authority_mismatch_cong:
  "\<forall>k\<in>fst ` set rest. dict_get c' k = dict_get c k \<Longrightarrow> authority_mismatch rest c' = authority_mismatch rest c"
  by (induction rest) (auto split: option.split)

lemma authority_kept:
  assumes "dict_ok changes" and "keys_in IMMUTABLE_AUTHORITY_KEYS changes = []"
  shows "assert_authority (update_config changes c) = assert_authority c"
proof -
  have "authority_mismatch DEFAULT_AUTHORITY_BOUNDARY (update_config changes c) = authority_mismatch DEFAULT_AUTHORITY_BOUNDARY c"
  proof (rule authority_mismatch_cong)
    have "fst ` set DEFAULT_AUTHORITY_BOUNDARY = set IMMUTABLE_AUTHORITY_KEYS"
      by (simp add: DEFAULT_AUTHORITY_BOUNDARY_def IMMUTABLE_AUTHORITY_KEYS_def)
    with assms show "\<forall>k\<in>fst ` set DEFAULT_AUTHORITY_BOUNDARY. dict_get (update_config changes c) k = dict_get c k"
      by (simp add: update_config_get keys_in_empty)
  qed
  then show ?thesis by (simp add: assert_authority_def)
qed

lemma evolve_result:
  assumes ok: "evolution_ok digest ev" and "dict_ok changes" and "evolve digest now changes rationale version refs ev = Inr ev'"
  shows "evolution_ok digest ev' \<and> (\<exists>e. ev' = ev @ [e] \<and> ep_config e = update_config changes (ep_config (last ev)))"
proof -
  define c where "c = update_config changes (ep_config (last ev))"
  have "strip rationale \<noteq> []" "keys_in IMMUTABLE_AUTHORITY_KEYS changes = []" "keys_in PROTECTED_STRATEGY_KEYS changes = []"
    "assert_authority c = Inr ()"
    and ev': "ev' = append_epoch digest now (or_version version (''v5.2.e'' @ nat_text (ep_sequence (last ev))))
      (Some (ep_strategy_version (last ev))) rationale c refs False ev"
    using assms(3) by (auto simp: evolve_def current_epoch_def c_def Let_def bind_result_Inr_iff split: if_splits)
  then have "evolution_ok digest ev'"
    unfolding ev' using assms(1,2) c_def by (intro append_epoch_ok) simp_all
  then show ?thesis by (simp add: ev' append_epoch_def c_def)
qed

lemma evolve_protected_result:
  assumes ok: "evolution_ok digest ev" and "dict_ok changes"
    and "evolve_protected digest now changes rationale version refs ev = Inr ev'"
  shows "evolution_ok digest ev' \<and> (\<exists>e. ev' = ev @ [e] \<and> ep_config e = update_config changes (ep_config (last ev)))"
proof -
  define c where "c = update_config changes (ep_config (last ev))"
  have "strip rationale \<noteq> []" "keys_in IMMUTABLE_AUTHORITY_KEYS changes = []" "keys_outside PROTECTED_STRATEGY_KEYS changes = []"
    "assert_authority c = Inr ()" "refs \<noteq> [] \<and> (\<forall>r\<in>set refs. strip r \<noteq> [])"
    and ev': "ev' = append_epoch digest now (or_version version (''v5.2.p'' @ nat_text (ep_sequence (last ev))))
      (Some (ep_strategy_version (last ev))) rationale c refs True ev"
    using assms(3) by (auto simp: evolve_protected_def current_epoch_def c_def Let_def bind_result_Inr_iff split: if_splits)
  then have "evolution_ok digest ev'"
    unfolding ev' using assms(1,2) c_def by (intro append_epoch_ok) simp_all
  then show ?thesis by (simp add: ev' append_epoch_def c_def)
qed

lemma evolve_succeeds:
  assumes "evolution_ok digest ev" and "dict_ok changes" and "strip rationale \<noteq> []"
    and "keys_in IMMUTABLE_AUTHORITY_KEYS changes = []" and "keys_in PROTECTED_STRATEGY_KEYS changes = []"
  shows "\<exists>ev'. evolve digest now changes rationale version refs ev = Inr ev'"
proof -
  have "epoch_ok digest (last ev)" using assms(1) by (auto simp: evolution_ok_def list_all_iff)
  then have "assert_authority (update_config changes (ep_config (last ev))) = Inr ()"
    by (simp add: epoch_ok_def authority_kept assms)
  with assms show ?thesis by (simp add: evolve_def current_epoch_def Let_def)
qed

lemma evolve_protected_succeeds:
  assumes "evolution_ok digest ev" and "dict_ok changes" and "strip rationale \<noteq> []"
    and "keys_outside PROTECTED_STRATEGY_KEYS changes = []" and "changes \<noteq> []"
    and "refs \<noteq> []" and "\<forall>r\<in>set refs. strip r \<noteq> []"
  shows "\<exists>ev'. evolve_protected digest now changes rationale version refs ev = Inr ev'"
proof -
  have "\<forall>k\<in>set IMMUTABLE_AUTHORITY_KEYS. k \<notin> set PROTECTED_STRATEGY_KEYS"
    by (simp add: IMMUTABLE_AUTHORITY_KEYS_def PROTECTED_STRATEGY_KEYS_def)
  with assms(4) have imm: "keys_in IMMUTABLE_AUTHORITY_KEYS changes = []"
    by (simp add: keys_in_empty keys_outside_empty)
  have "epoch_ok digest (last ev)" using assms(1) by (auto simp: evolution_ok_def list_all_iff)
  then have "assert_authority (update_config changes (ep_config (last ev))) = Inr ()"
    by (simp add: epoch_ok_def authority_kept assms imm)
  with assms imm show ?thesis by (auto simp: evolve_protected_def current_epoch_def Let_def)
qed

subsection \<open>Changes are applied together\<close>

lemma dict_get_filter: "dict_get (filter (\<lambda>(k, v). P k) d) k = (if P k then dict_get d k else None)"
  by (induction d) auto

lemma dict_ok_filter: "dict_ok d \<Longrightarrow> dict_ok (filter P d)"
  unfolding dict_ok_def by (induction d) auto

lemma split_changes:
  "dict_get (ordinary_changes changes) k = (if k \<in> set PROTECTED_STRATEGY_KEYS then None else dict_get changes k)"
  "dict_get (protected_changes changes) k = (if k \<in> set PROTECTED_STRATEGY_KEYS then dict_get changes k else None)"
  by (simp_all add: ordinary_changes_def protected_changes_def dict_get_filter)

lemma split_changes_empty: "ordinary_changes changes = [] \<and> protected_changes changes = [] \<longleftrightarrow> changes = []"
  by (induction changes) (auto simp: ordinary_changes_def protected_changes_def)

lemma immutable_not_protected: "k \<in> set IMMUTABLE_AUTHORITY_KEYS \<Longrightarrow> k \<notin> set PROTECTED_STRATEGY_KEYS"
  by (auto simp: IMMUTABLE_AUTHORITY_KEYS_def PROTECTED_STRATEGY_KEYS_def)

lemma split_keys:
  "keys_in PROTECTED_STRATEGY_KEYS (ordinary_changes changes) = []"
  "keys_outside PROTECTED_STRATEGY_KEYS (protected_changes changes) = []"
  "keys_in IMMUTABLE_AUTHORITY_KEYS (ordinary_changes changes) = [] \<longleftrightarrow> keys_in IMMUTABLE_AUTHORITY_KEYS changes = []"
  using immutable_not_protected by (auto simp: keys_in_empty keys_outside_empty split_changes)

definition config_after :: "config \<Rightarrow> config \<Rightarrow> config" where
  "config_after changes c = update_config (protected_changes changes) (update_config (ordinary_changes changes) c)"

lemma config_after_get:
  assumes "dict_ok changes"
  shows "dict_get (config_after changes c) k =
    (case dict_get changes k of None \<Rightarrow> dict_get c k | Some v \<Rightarrow> Some v)"
  using assms
  by (simp add: config_after_def update_config_get split_changes dict_ok_filter
      ordinary_changes_def [THEN arg_cong, of dict_ok] protected_changes_def [THEN arg_cong, of dict_ok] split: option.split)

lemma update_config_Nil [simp]: "update_config [] c = c"
  by (simp add: update_config_def)

lemma apply_changes_refused:
  assumes "keys_in IMMUTABLE_AUTHORITY_KEYS changes \<noteq> []" and "strip rationale \<noteq> []"
  shows "\<exists>e. apply_changes digest now1 now2 changes rationale refs ev = (ev, Inl e)"
proof -
  have imm: "keys_in IMMUTABLE_AUTHORITY_KEYS (ordinary_changes changes) \<noteq> []" using assms split_keys by simp
  then have "ordinary_changes changes \<noteq> []" by (auto simp: keys_in_def)
  with imm assms(2) show ?thesis by (simp add: apply_changes_def evolve_def)
qed

lemma apply_changes_applied:
  assumes ok: "evolution_ok digest ev" and changes: "dict_ok changes" and rationale: "strip rationale \<noteq> []"
    and refs: "refs \<noteq> []" "\<forall>r\<in>set refs. strip r \<noteq> []" and imm: "keys_in IMMUTABLE_AUTHORITY_KEYS changes = []"
  shows "\<exists>es. apply_changes digest now1 now2 changes rationale refs ev = (ev @ es, Inr es)
    \<and> evolution_ok digest (ev @ es) \<and> ep_config (last (ev @ es)) = config_after changes (ep_config (last ev))
    \<and> (es = [] \<longleftrightarrow> changes = []) \<and> length es \<le> 2"
proof -
  have ok': "dict_ok (ordinary_changes changes)" "dict_ok (protected_changes changes)"
    using changes by (simp_all add: ordinary_changes_def protected_changes_def dict_ok_filter)
  define first where "first = (if ordinary_changes changes = [] then Inr (ev, []) else
    bind_result (evolve digest now1 (ordinary_changes changes) rationale None refs ev) (\<lambda>ev1. Inr (ev1, [current_epoch ev1])))"
  have "\<exists>es1. first = Inr (ev @ es1, es1) \<and> evolution_ok digest (ev @ es1)
      \<and> ep_config (last (ev @ es1)) = update_config (ordinary_changes changes) (ep_config (last ev))
      \<and> (es1 = [] \<longleftrightarrow> ordinary_changes changes = []) \<and> length es1 \<le> 1"
  proof (cases "ordinary_changes changes = []")
    case False
    obtain ev1 where ev1: "evolve digest now1 (ordinary_changes changes) rationale None refs ev = Inr ev1"
      using evolve_succeeds [OF ok ok'(1) rationale] imm split_keys by blast
    with evolve_result [OF ok ok'(1) ev1] False show ?thesis by (auto simp: first_def current_epoch_def)
  qed (use ok in \<open>simp add: first_def\<close>)
  then obtain es1 where es1: "first = Inr (ev @ es1, es1)" "evolution_ok digest (ev @ es1)"
    "ep_config (last (ev @ es1)) = update_config (ordinary_changes changes) (ep_config (last ev))"
    "es1 = [] \<longleftrightarrow> ordinary_changes changes = []" "length es1 \<le> 1" by blast
  have call: "apply_changes digest now1 now2 changes rationale refs ev =
    (if protected_changes changes = [] then (ev @ es1, Inr es1)
     else case evolve_protected digest now2 (protected_changes changes) rationale None refs (ev @ es1) of
         Inl e \<Rightarrow> (ev @ es1, Inl e)
       | Inr ev2 \<Rightarrow> (ev2, Inr (es1 @ [current_epoch ev2])))"
    unfolding apply_changes_def Let_def first_def [symmetric] es1(1) by simp
  show ?thesis
  proof (cases "protected_changes changes = []")
    case True
    with es1 split_changes_empty [of changes] show ?thesis by (auto simp: call config_after_def)
  next
    case False
    obtain ev2 where ev2: "evolve_protected digest now2 (protected_changes changes) rationale None refs (ev @ es1) = Inr ev2"
      using evolve_protected_succeeds [OF es1(2) ok'(2) rationale split_keys(2) False refs] by blast
    with evolve_protected_result [OF es1(2) ok'(2) ev2] False es1 split_changes_empty [of changes] show ?thesis
      by (fastforce simp: call config_after_def current_epoch_def)
  qed
qed

lemma strip_empty: "strip s = [] \<longleftrightarrow> (\<forall>c\<in>set s. is_space c)"
proof -
  have "strip s = [] \<longleftrightarrow> (\<forall>c\<in>set (dropWhile is_space s). is_space c)"
    by (simp add: strip_def dropWhile_eq_Nil_conv)
  also have "\<dots> \<longleftrightarrow> (\<forall>c\<in>set s. is_space c)"
    by (induction s) auto
  finally show ?thesis .
qed

lemma strip_visible: "c \<in> set s \<Longrightarrow> \<not> is_space c \<Longrightarrow> strip s \<noteq> []"
  by (auto simp: strip_empty)

lemma colon_visible: "\<not> is_space CHR 0x3A"
  by (simp add: is_space_def)

lemma promotion_rationale_visible: "strip (promotion_rationale float_text prefix winner ratio) \<noteq> []"
  by (rule strip_visible [OF _ colon_visible]) (simp add: promotion_rationale_def)

lemma winner_text_visible: "strip (''paired_policy:'' @ s) \<noteq> []"
  by (rule strip_visible [OF _ colon_visible]) simp

lemma promote_winner_result:
  assumes ok: "evolution_ok digest ev" and decision: "td_winner decision = Some w" "td_eligible decision"
    and configs: "policy_configs w = Some changes" "dict_ok changes"
  shows "(\<exists>e. promote_winner digest float_text now1 now2 decision policy_configs prefix ev = (ev, Inl e)
      \<and> (changes = [] \<or> keys_in IMMUTABLE_AUTHORITY_KEYS changes \<noteq> [])) \<or>
    (\<exists>es. promote_winner digest float_text now1 now2 decision policy_configs prefix ev = (ev @ es, Inr es)
      \<and> evolution_ok digest (ev @ es) \<and> es \<noteq> []
      \<and> ep_config (last (ev @ es)) = config_after changes (ep_config (last ev))
      \<and> keys_in IMMUTABLE_AUTHORITY_KEYS changes = [])"
proof (cases "changes = [] \<or> keys_in IMMUTABLE_AUTHORITY_KEYS changes \<noteq> []")
  case True
  with decision configs show ?thesis by (auto simp: promote_winner_def)
next
  case False
  define refs where "refs = [''paired_policy:'' @ w @ '':episodes='' @ nat_text (paired_episodes (td_scores decision))]"
  have refs: "refs \<noteq> []" "\<forall>r\<in>set refs. strip r \<noteq> []"
    by (simp add: refs_def) (simp only: refs_def list.set winner_text_visible ball_simps(7) ball_empty simp_thms insert_iff)
  have "promote_winner digest float_text now1 now2 decision policy_configs prefix ev =
    apply_changes digest now1 now2 changes (promotion_rationale float_text prefix w (td_improvement_ratio decision)) refs ev"
    using False decision configs by (simp add: promote_winner_def refs_def)
  with apply_changes_applied [OF ok configs(2) promotion_rationale_visible refs] False show ?thesis by metis
qed

subsection \<open>Runs of calls\<close>

datatype evolution_call =
    Evolve string config string "string option" "string list"
  | EvolveProtected string config string "string option" "string list"
  | FromTournament string tournament_decision "(string, config) dict" string
  | Promote string string tournament_decision "(string, config) dict" string

fun call_ok :: "evolution_call \<Rightarrow> bool" where
  "call_ok (Evolve now changes rationale version refs) = dict_ok changes"
| "call_ok (EvolveProtected now changes rationale version refs) = dict_ok changes"
| "call_ok (FromTournament now decision configs prefix) = list_all (\<lambda>(p, c). dict_ok c) configs"
| "call_ok (Promote now1 now2 decision configs prefix) = list_all (\<lambda>(p, c). dict_ok c) configs"

fun evolution_step ::
  "(config \<Rightarrow> string) \<Rightarrow> (real \<Rightarrow> string) \<Rightarrow> evolution \<Rightarrow> evolution_call \<Rightarrow> evolution \<times> strategy_epoch list result list" where
  "evolution_step digest ft ev (Evolve now changes rationale version refs) =
     (case evolve digest now changes rationale version refs ev of
        Inl e \<Rightarrow> (ev, [Inl e]) | Inr ev' \<Rightarrow> (ev', [Inr [current_epoch ev']]))"
| "evolution_step digest ft ev (EvolveProtected now changes rationale version refs) =
     (case evolve_protected digest now changes rationale version refs ev of
        Inl e \<Rightarrow> (ev, [Inl e]) | Inr ev' \<Rightarrow> (ev', [Inr [current_epoch ev']]))"
| "evolution_step digest ft ev (FromTournament now decision configs prefix) =
     (case evolve_from_tournament digest ft now decision (dict_get configs) prefix ev of
        Inl e \<Rightarrow> (ev, [Inl e])
      | Inr (ev', made) \<Rightarrow> (ev', [Inr (case made of None \<Rightarrow> [] | Some e \<Rightarrow> [e])]))"
| "evolution_step digest ft ev (Promote now1 now2 decision configs prefix) =
     (let (ev', r) = promote_winner digest ft now1 now2 decision (dict_get configs) prefix ev in (ev', [r]))"

lemma configs_ok: "list_all (\<lambda>(p, c). dict_ok c) configs \<Longrightarrow> dict_get configs w = Some c \<Longrightarrow> dict_ok c"
  using dict_get_in [of configs w c] by (auto simp: list_all_iff)

lemma evolution_step_grows:
  assumes ok: "evolution_ok digest ev" and call: "call_ok call"
  shows "evolution_ok digest (fst (evolution_step digest ft ev call)) \<and> (\<exists>es. fst (evolution_step digest ft ev call) = ev @ es)"
proof (cases call)
  case (Evolve now changes rationale version refs)
  with evolve_result [OF ok, of changes now rationale version refs] call ok show ?thesis
    by (auto split: sum.split)
next
  case (EvolveProtected now changes rationale version refs)
  with evolve_protected_result [OF ok, of changes now rationale version refs] call ok show ?thesis
    by (auto split: sum.split)
next
  case (FromTournament now decision configs prefix)
  show ?thesis
  proof (cases "evolve_from_tournament digest ft now decision (dict_get configs) prefix ev")
    case (Inr r)
    obtain ev' made where r: "r = (ev', made)" by fastforce
    have "ev' = ev \<or> (\<exists>w c now rationale version refs. dict_get configs w = Some c
        \<and> evolve digest now c rationale version refs ev = Inr ev')"
      using Inr r by (auto simp: evolve_from_tournament_def bind_result_Inr_iff split: option.splits if_splits)
    with call FromTournament configs_ok [of configs] evolve_result [OF ok] ok Inr r show ?thesis by fastforce
  qed (use FromTournament ok in simp)
next
  case (Promote now1 now2 decision configs prefix)
  show ?thesis
  proof (cases "\<exists>w c. td_winner decision = Some w \<and> td_eligible decision \<and> dict_get configs w = Some c")
    case True
    then obtain w c where w: "td_winner decision = Some w" "td_eligible decision" "dict_get configs w = Some c" by blast
    have "dict_ok c" using call w(3) Promote by (auto intro: configs_ok)
    with promote_winner_result [where policy_configs = "dict_get configs", OF ok w, of ft now1 now2 prefix] Promote ok show ?thesis
      by (auto simp: split_beta)
  next
    case False
    then have "fst (promote_winner digest ft now1 now2 decision (dict_get configs) prefix ev) = ev"
      by (auto simp: promote_winner_def split: option.split)
    with Promote ok show ?thesis by (simp add: split_beta)
  qed
qed

interpretation evolution_machine: invariant_machine "evolution_step digest ft" call_ok "evolution_ok digest" for digest ft
  by unfold_locales (simp add: evolution_step_grows)

lemma evolution_run_grows:
  "evolution_ok digest ev \<Longrightarrow> list_all call_ok calls \<Longrightarrow> \<exists>es. fst (run_machine (evolution_step digest ft) ev calls) = ev @ es"
proof (induction calls arbitrary: ev)
  case (Cons call calls)
  define ev1 where "ev1 = fst (evolution_step digest ft ev call)"
  have "evolution_ok digest ev1" "\<exists>es. ev1 = ev @ es"
    using evolution_step_grows [OF Cons.prems(1)] Cons.prems(2) by (auto simp: ev1_def)
  moreover from this Cons have "\<exists>es. fst (run_machine (evolution_step digest ft) ev1 calls) = ev1 @ es" by simp
  ultimately show ?case by (auto simp: split_beta Let_def ev1_def)
qed simp

lemma linked_nth: "linked ev \<Longrightarrow> Suc i < length ev \<Longrightarrow> succeeds (ev ! i) (ev ! Suc i)"
proof (induction ev arbitrary: i rule: linked.induct)
  case (3 e e' es)
  then show ?case by (cases i) auto
qed auto

lemma linked_authority:
  "linked ev \<Longrightarrow> e \<in> set ev \<Longrightarrow> k \<in> set IMMUTABLE_AUTHORITY_KEYS \<Longrightarrow> dict_get (ep_config e) k = dict_get (ep_config (hd ev)) k"
proof (induction ev arbitrary: e rule: linked.induct)
  case (3 e1 e2 es)
  then show ?case by (cases "e = e1") (auto simp: succeeds_def)
qed auto

text \<open>C17. The history of strategy epochs is append-only and every epoch is accounted for. Whatever calls
  are made, raising ones included, earlier epochs stay as they are, sequence numbers count up from one,
  every epoch names its parent and a rationale, and protected constraints change
  only in epochs that record validation references and change nothing else.\<close>

theorem every_epoch_is_audited:
  assumes "dict_ok initial" and "new_evolution digest now initial version = Inr ev0" and "list_all call_ok calls"
    and ev: "ev = fst (run_machine (evolution_step digest ft) ev0 calls)"
  shows "(\<exists>es. ev = ev0 @ es)
    \<and> (\<forall>i<length ev. ep_sequence (ev ! i) = i + 1
          \<and> ep_fingerprint (ev ! i) = config_fingerprint digest (ep_config (ev ! i)))
    \<and> (\<forall>i. Suc i < length ev \<longrightarrow> succeeds (ev ! i) (ev ! Suc i))"
proof -
  note ok0 = new_evolution_ok [OF assms(1,2)]
  have "evolution_ok digest ev" unfolding ev by (rule evolution_machine.run_inv [OF ok0 assms(3)])
  then have "linked ev" "ep_sequence (hd ev) = 1" "list_all (epoch_ok digest) ev" by (simp_all add: evolution_ok_def)
  with evolution_run_grows [OF ok0 assms(3), of ft] linked_sequence linked_nth show ?thesis
    by (auto simp: ev epoch_ok_def list_all_length)
qed

definition demo_initial :: config where
  "demo_initial = [(''runner_fraction'', Float (1/5))]"

definition demo_calls :: "evolution_call list" where
  "demo_calls =
     [Evolve ''t1'' [(''runner_fraction'', Float (1/4))] ''calibration'' None [],
      Evolve ''t2'' [(''chase_observe_only_fraction'', Float (1/2))] ''calibration'' None [],
      EvolveProtected ''t3'' [(''chase_observe_only_fraction'', Float (35/100))] ''validated'' None [''test:chase'']]"

lemma demo_start:
  "\<exists>ev0. new_evolution (\<lambda>c. ''digest'') ''t0'' demo_initial ''v5.2'' = Inr ev0
     \<and> length (fst (run_machine (evolution_step (\<lambda>c. ''digest'') (\<lambda>r. ''r'')) ev0 demo_calls)) = 3"
  by (simp add: new_evolution_def demo_initial_def demo_calls_def update_config_def CURRENT_PROTECTED_STRATEGY_def
      DEFAULT_AUTHORITY_BOUNDARY_def assert_authority_def py_equal_def append_epoch_def evolve_def evolve_protected_def
      keys_in_def keys_outside_def IMMUTABLE_AUTHORITY_KEYS_def PROTECTED_STRATEGY_KEYS_def current_epoch_def Let_def
      strip_def is_space_def)

theorem every_epoch_is_audited_witness:
  "\<exists>ev0 ev. new_evolution (\<lambda>c. ''digest'') ''t0'' demo_initial ''v5.2'' = Inr ev0
     \<and> ev = fst (run_machine (evolution_step (\<lambda>c. ''digest'') (\<lambda>r. ''r'')) ev0 demo_calls) \<and> length ev = 3
     \<and> succeeds (ev ! 1) (ev ! 2)"
proof -
  obtain ev0 where ev0: "new_evolution (\<lambda>c. ''digest'') ''t0'' demo_initial ''v5.2'' = Inr ev0"
    and three: "length (fst (run_machine (evolution_step (\<lambda>c. ''digest'') (\<lambda>r. ''r'')) ev0 demo_calls)) = 3"
    using demo_start by blast
  have "dict_ok demo_initial" "list_all call_ok demo_calls"
    by (simp_all add: demo_initial_def demo_calls_def dict_ok_def)
  from every_epoch_is_audited [OF this(1) ev0 this(2) refl, of "\<lambda>r. ''r''"]
  have "Suc 1 < 3 \<longrightarrow> succeeds (fst (run_machine (evolution_step (\<lambda>c. ''digest'') (\<lambda>r. ''r'')) ev0 demo_calls) ! 1)
      (fst (run_machine (evolution_step (\<lambda>c. ''digest'') (\<lambda>r. ''r'')) ev0 demo_calls) ! Suc 1)"
    unfolding three by blast
  with ev0 three show ?thesis by (auto simp: numeral_2_eq_2)
qed

lemma start_boundary:
  "(k, x) \<in> set DEFAULT_AUTHORITY_BOUNDARY \<Longrightarrow>
     dict_get (update_config CURRENT_PROTECTED_STRATEGY DEFAULT_AUTHORITY_BOUNDARY) k = Some x"
proof -
  have "update_config CURRENT_PROTECTED_STRATEGY DEFAULT_AUTHORITY_BOUNDARY = DEFAULT_AUTHORITY_BOUNDARY @ CURRENT_PROTECTED_STRATEGY"
    by (simp add: update_config_def CURRENT_PROTECTED_STRATEGY_def DEFAULT_AUTHORITY_BOUNDARY_def)
  moreover have "dict_ok (DEFAULT_AUTHORITY_BOUNDARY @ CURRENT_PROTECTED_STRATEGY)"
    by (simp add: dict_ok_def CURRENT_PROTECTED_STRATEGY_def DEFAULT_AUTHORITY_BOUNDARY_def)
  ultimately show "(k, x) \<in> set DEFAULT_AUTHORITY_BOUNDARY \<Longrightarrow> ?thesis" by (simp add: in_dict_get)
qed

text \<open>C16. The authority boundary is a type invariant of the history. In every epoch that calls of any kind
  can produce, the configuration is a dictionary whose four authority keys hold the very values, and so
  the types, they had at the start, equal to the boundary under Python's \<open>==\<close>; when the initial
  configuration does not mention them, they are the booleans of the boundary.\<close>

theorem authority_keys_keep_value_and_type:
  assumes "dict_ok initial" and "new_evolution digest now initial version = Inr ev0" and "list_all call_ok calls"
    and "e \<in> set (fst (run_machine (evolution_step digest ft) ev0 calls))"
    and boundary: "(k, expected) \<in> set DEFAULT_AUTHORITY_BOUNDARY"
  shows "dict_ok (ep_config e) \<and> dict_get (ep_config e) k = dict_get (ep_config (hd ev0)) k
    \<and> (\<exists>v. dict_get (ep_config e) k = Some v \<and> py_equal v expected \<and> (dict_get initial k = None \<longrightarrow> v = expected))"
proof -
  note ok0 = new_evolution_ok [OF assms(1,2)]
  define ev where "ev = fst (run_machine (evolution_step digest ft) ev0 calls)"
  have ok: "evolution_ok digest ev" unfolding ev_def by (rule evolution_machine.run_inv [OF ok0 assms(3)])
  obtain es where "ev = ev0 @ es" using evolution_run_grows [OF ok0 assms(3), of ft] by (auto simp: ev_def)
  moreover obtain e0 where e0: "ev0 = [e0]"
    "ep_config e0 = update_config initial (update_config CURRENT_PROTECTED_STRATEGY DEFAULT_AUTHORITY_BOUNDARY)"
    using assms(2) by (auto simp: new_evolution_def Let_def bind_result_Inr_iff append_epoch_def)
  ultimately have hd: "hd ev = e0" by simp
  have k: "k \<in> set IMMUTABLE_AUTHORITY_KEYS"
    using boundary by (auto simp: DEFAULT_AUTHORITY_BOUNDARY_def IMMUTABLE_AUTHORITY_KEYS_def)
  have e: "e \<in> set ev" and "epoch_ok digest e" and "linked ev"
    using assms(4) ok by (auto simp: ev_def evolution_ok_def list_all_iff)
  have same: "dict_get (ep_config e) k = dict_get (ep_config e0) k"
    using linked_authority [OF \<open>linked ev\<close> e k] hd by simp
  have "assert_authority (ep_config e) = Inr ()" and dict: "dict_ok (ep_config e)"
    using \<open>epoch_ok digest e\<close> by (simp_all add: epoch_ok_def)
  then have "\<exists>v. dict_get (ep_config e) k = Some v \<and> py_equal v expected"
    using boundary by (auto simp: assert_authority_def DEFAULT_AUTHORITY_BOUNDARY_def split: option.splits if_splits)
  moreover have "dict_get initial k = None \<Longrightarrow> dict_get (ep_config e0) k = Some expected"
    by (simp add: e0 update_config_get [OF assms(1)] start_boundary [OF boundary])
  ultimately show ?thesis using same dict e0(1) by auto
qed

theorem authority_keys_keep_value_and_type_witness:
  "\<exists>ev0. new_evolution (\<lambda>c. ''digest'') ''t0'' demo_initial ''v5.2'' = Inr ev0
     \<and> (let e = last (fst (run_machine (evolution_step (\<lambda>c. ''digest'') (\<lambda>r. ''r'')) ev0 demo_calls))
        in dict_get (ep_config e) ''signing_enabled'' = Some (Truth False))"
proof -
  obtain ev0 where ev0: "new_evolution (\<lambda>c. ''digest'') ''t0'' demo_initial ''v5.2'' = Inr ev0"
    and three: "length (fst (run_machine (evolution_step (\<lambda>c. ''digest'') (\<lambda>r. ''r'')) ev0 demo_calls)) = 3"
    using demo_start by blast
  define e where "e = last (fst (run_machine (evolution_step (\<lambda>c. ''digest'') (\<lambda>r. ''r'')) ev0 demo_calls))"
  have e: "e \<in> set (fst (run_machine (evolution_step (\<lambda>c. ''digest'') (\<lambda>r. ''r'')) ev0 demo_calls))"
    using three unfolding e_def by (intro last_in_set) auto
  have "dict_ok demo_initial" "list_all call_ok demo_calls" "(''signing_enabled'', Truth False) \<in> set DEFAULT_AUTHORITY_BOUNDARY"
    "dict_get demo_initial ''signing_enabled'' = None"
    by (simp_all add: demo_initial_def demo_calls_def dict_ok_def DEFAULT_AUTHORITY_BOUNDARY_def)
  with authority_keys_keep_value_and_type [OF this(1) ev0 this(2) e this(3)] ev0 show ?thesis
    by (auto simp: e_def)
qed


definition demo_decision :: tournament_decision where
  "demo_decision = \<lparr>td_winner = Some ''b'', td_incumbent = ''a'', td_eligible = True, td_improvement_ratio = Ratio 2,
     td_blockers = [], td_scores = []\<rparr>"

definition demo_changes :: config where
  "demo_changes = [(''chase_observe_only_fraction'', Float (45/100)), (''runner_fraction'', Float (1/4))]"


subsection \<open>Who wins a tournament\<close>

lemma max_score_in: "max_score best ss \<in> set (best # ss)"
  by (induction best ss rule: max_score.induct) auto

lemma max_score_ge: "s \<in> set (best # ss) \<Longrightarrow> pc_score s \<le> pc_score (max_score best ss)"
proof (induction best ss arbitrary: s rule: max_score.induct)
  case (2 best s' ss)
  define b where "b = (if pc_score s' > pc_score best then s' else best)"
  have "pc_score best \<le> pc_score b" "pc_score s' \<le> pc_score b" by (auto simp: b_def)
  moreover have "pc_score b \<le> pc_score (max_score b ss)" using "2.IH" [folded b_def] by simp
  moreover have "s \<in> set ss \<Longrightarrow> pc_score s \<le> pc_score (max_score b ss)" using "2.IH" [folded b_def] by simp
  ultimately show ?case using "2.prems" by (auto simp: b_def [symmetric])
qed simp

lemma fold_max_ge: "(a :: real) \<le> fold max xs a"
  by (induction xs arbitrary: a) (auto intro: order_trans [OF max.cobounded2])

lemma score_signs:
  "0 \<le> pc_max_drawdown (score_policy p os) \<and> 0 \<le> pc_execution_completion_rate (score_policy p os)
   \<and> (0 < pc_score (score_policy p os) \<longrightarrow>
        0 < pc_geometric_growth (score_policy p os) \<and> 0 < pc_execution_completion_rate (score_policy p os))
   \<and> pc_policy_id (score_policy p os) = p \<and> pc_episodes (score_policy p os) = length os"
proof -
  have d: "0 \<le> pc_max_drawdown (score_policy p os)" by (simp add: score_policy_def Let_def fold_max_ge)
  have c: "0 \<le> pc_execution_completion_rate (score_policy p os)" by (simp add: score_policy_def Let_def)
  have "pc_score (score_policy p os) =
    pc_geometric_growth (score_policy p os) * pc_execution_completion_rate (score_policy p os) / (1 + pc_max_drawdown (score_policy p os))"
    by (simp add: score_policy_def Let_def)
  with d c have "0 < pc_score (score_policy p os) \<Longrightarrow>
      0 < pc_geometric_growth (score_policy p os) \<and> 0 < pc_execution_completion_rate (score_policy p os)"
    by (auto simp: zero_less_divide_iff zero_less_mult_iff)
  with d c show ?thesis by (simp add: score_policy_def Let_def)
qed

lemma by_policy_get:
  "dict_get (by_policy p items d) s = Some u \<Longrightarrow>
     dict_get d s = Some u \<or> (u \<in> set items \<and> pu_policy_id u = p \<and> pu_stream_id u = s)"
proof (induction p items d rule: by_policy.induct)
  case (2 p item items d)
  then show ?case by (cases "pu_stream_id item = s") (auto split: if_splits)
qed simp

lemma by_policy_keys: "dict_ok d \<Longrightarrow> dict_ok (by_policy p items d)"
  by (induction p items d rule: by_policy.induct) (auto simp: od.ok_put)

lemma shared_streams_distinct: "distinct (shared_streams p ps items)"
proof -
  have "dict_ok (by_policy p items [])" by (rule by_policy_keys) simp
  then show ?thesis by (simp add: shared_streams_def dict_ok_def)
qed

lemma shared_streams_paired:
  assumes "s \<in> set (shared_streams inc ps items)" and "p \<in> set (inc # ps)"
  shows "\<exists>u\<in>set items. pu_policy_id u = p \<and> pu_stream_id u = s"
proof -
  have "\<exists>u. dict_get (by_policy p items []) s = Some u"
    using assms dict_get_eq_None [of "by_policy inc items []" s] by (auto simp: shared_streams_def image_iff)
  then show ?thesis using by_policy_get [of p items "[]" s] by auto
qed

lemma compare_winner:
  assumes "td_winner (compare_policies t incumbent challengers) = Some w"
  shows "w \<in> set challengers \<and> w \<noteq> incumbent \<and> td_eligible (compare_policies t incumbent challengers)
    \<and> (\<exists>shared. distinct shared \<and> to_min_paired_episodes t \<le> int (length shared)
        \<and> (\<forall>s\<in>set shared. \<forall>p\<in>set (incumbent # challengers).
              \<exists>u\<in>set (to_outcomes t). pu_policy_id u = p \<and> pu_stream_id u = s)
        \<and> (\<forall>c\<in>set (td_scores (compare_policies t incumbent challengers)). pc_episodes c = length shared))
    \<and> (\<exists>best\<in>set (td_scores (compare_policies t incumbent challengers)).
         \<exists>inc\<in>set (td_scores (compare_policies t incumbent challengers)).
           pc_policy_id best = w \<and> pc_policy_id inc = incumbent
           \<and> (\<forall>c\<in>set (td_scores (compare_policies t incumbent challengers)). pc_score c \<le> pc_score best)
           \<and> (0 < pc_score inc \<longrightarrow> to_min_improvement_ratio t * pc_score inc \<le> pc_score best)
           \<and> (1 < to_min_improvement_ratio t \<longrightarrow>
                0 < pc_geometric_growth best \<and> 0 < pc_execution_completion_rate best))"
proof -
  define d where "d = compare_policies t incumbent challengers"
  define shared where "shared = shared_streams incumbent challengers (to_outcomes t)"
  define scores where "scores = policy_scores t shared (incumbent # challengers)"
  define best where "best = max_score (hd scores) (tl scores)"
  define inc where "inc = hd (filter (\<lambda>s. pc_policy_id s = incumbent) scores)"
  have facts: "to_min_paired_episodes t \<le> int (length shared)" "scores \<noteq> []" "pc_policy_id best \<noteq> incumbent"
    "w = pc_policy_id best" "\<not> below (improvement_over inc best) (to_min_improvement_ratio t)"
    "td_scores d = scores" "td_eligible d"
    using assms
    by (auto simp: d_def compare_policies_def Let_def no_winner_def shared_def [symmetric] scores_def [symmetric]
        best_def [symmetric] inc_def [symmetric] split: if_splits)
  define scored where "scored = (\<lambda>p. score_policy p
    (map (\<lambda>s. the (dict_get (by_policy p (to_outcomes t) []) s)) shared))"
  have scores: "scores = map scored (incumbent # challengers)"
    using facts(2) by (simp add: scores_def policy_scores_def scored_def split: if_splits)
  have inc: "inc = scored incumbent" "inc \<in> set scores" "pc_policy_id inc = incumbent"
    using score_signs by (simp_all add: inc_def scores scored_def)
  have best: "best \<in> set scores" "c \<in> set scores \<Longrightarrow> pc_score c \<le> pc_score best" for c
    using max_score_in [of "hd scores" "tl scores"] max_score_ge [of c "hd scores" "tl scores"]
    using facts(2) by (cases scores; auto simp: best_def)+
  have member: "w \<in> set challengers"
    using best(1) facts(3,4) score_signs by (auto simp: scores scored_def)
  have episodes: "\<forall>c\<in>set scores. pc_episodes c = length shared"
    using score_signs by (auto simp: scores scored_def)
  have ratio: "0 < pc_score inc \<longrightarrow> to_min_improvement_ratio t * pc_score inc \<le> pc_score best"
    using facts(5) by (auto simp: improvement_over_def not_less le_divide_eq)
  have "0 < pc_score best" if "1 < to_min_improvement_ratio t"
  proof (cases "0 < pc_score inc")
    case True
    with best(2) [OF inc(2)] show ?thesis by simp
  next
    case False
    with facts(5) that show ?thesis by (auto simp: improvement_over_def split: if_splits)
  qed
  with best(1) score_signs have positive: "1 < to_min_improvement_ratio t \<longrightarrow>
      0 < pc_geometric_growth best \<and> 0 < pc_execution_completion_rate best"
    by (auto simp: scores scored_def)
  have "distinct shared \<and> to_min_paired_episodes t \<le> int (length shared)
      \<and> (\<forall>s\<in>set shared. \<forall>p\<in>set (incumbent # challengers).
            \<exists>u\<in>set (to_outcomes t). pu_policy_id u = p \<and> pu_stream_id u = s)
      \<and> (\<forall>c\<in>set scores. pc_episodes c = length shared)"
    using facts(1) episodes shared_streams_distinct shared_streams_paired by (auto simp: shared_def)
  moreover have "pc_policy_id best = w \<and> pc_policy_id inc = incumbent \<and> (\<forall>c\<in>set scores. pc_score c \<le> pc_score best)
      \<and> (0 < pc_score inc \<longrightarrow> to_min_improvement_ratio t * pc_score inc \<le> pc_score best)
      \<and> (1 < to_min_improvement_ratio t \<longrightarrow> 0 < pc_geometric_growth best \<and> 0 < pc_execution_completion_rate best)"
    using facts(4) inc(3) best(2) ratio positive by blast
  ultimately show ?thesis
    unfolding d_def [symmetric] facts(6) using member facts best(1) inc(2) by blast
qed


definition demo_tournament :: tournament where
  "demo_tournament = \<lparr>to_min_paired_episodes = 1, to_min_improvement_ratio = 103/100,
     to_outcomes = [\<lparr>pu_policy_id = ''a'', pu_stream_id = ''s'', pu_net_return = Number (1/100), pu_drawdown = 0, pu_execution_complete = True\<rparr>,
       \<lparr>pu_policy_id = ''b'', pu_stream_id = ''s'', pu_net_return = Number (3/100), pu_drawdown = 1/2, pu_execution_complete = True\<rparr>]\<rparr>"


end
