(* ===== verification/Governance.thy ===== *)
theory Governance
  imports Evolution "HOL-Library.Product_Lexorder"
begin

text \<open>
  Automatic promotion and demotion of strategy policies: \<open>v52_learning_governance.py\<close> with the functions that
  \<open>v52_learning_governance_hardening.py\<close> installs in their place. A tick generates challengers from missed
  opportunities, records what every policy would have returned on each observed stream, rolls the newest promotion
  back when it has deteriorated, and otherwise promotes the winner of a tournament over exact
  evidence. The tables are SQLite's; the strategy epochs live in the process and are replayed from
  the history table at a start. Time stamps are ISO texts, which are compared as texts. \<open>erf\<close>, the
  texts of floats, SHA-256 and the clock are arguments; the JSON columns that are written and never read are left out.
\<close>

definition INCUMBENT_ID :: string where
  "INCUMBENT_ID = ''canonical_v52''"

definition MIN_FORWARD_EPISODES :: int where
  "MIN_FORWARD_EPISODES = 30"

definition MIN_IMPROVEMENT_RATIO :: real where
  "MIN_IMPROVEMENT_RATIO = 105/100"

definition POSTERIOR_PROMOTION_PROBABILITY :: real where
  "POSTERIOR_PROMOTION_PROBABILITY = 95/100"

definition MAX_PROMOTION_DRAWDOWN :: real where
  "MAX_PROMOTION_DRAWDOWN = 35/100"

definition DEMOTION_RATIO :: real where
  "DEMOTION_RATIO = 95/100"

definition MIN_DEMOTION_EPISODES :: nat where
  "MIN_DEMOTION_EPISODES = 20"

definition FIXED_CHALLENGERS :: "(string, config) dict" where
  "FIXED_CHALLENGERS =
     [(''aggressive_sizing'',
        [(''target_sizing.bootstrap_fraction_clean'', Float (15/1000)),
         (''target_sizing.bootstrap_fraction_hazard_or_high_severity'', Float (75/10000)),
         (''position_management.starter_fraction_of_target'', Float (50/100))]),
      (''aggressive_continuation'',
        [(''position_management.max_scale_fraction_of_target_per_add'', Float (50/100)),
         (''position_management.runner_fraction_of_target'', Float (15/100))]),
      (''exit_capture'',
        [(''position_management.first_derisk_fraction_of_position'', Float (20/100)),
         (''position_management.second_derisk_fraction_of_position'', Float (40/100)),
         (''position_management.runner_fraction_of_target'', Float (20/100))]),
      (''wallet_acceleration'',
        [(''detection_intelligence.minimum_broad_independent_clusters'', Whole 4),
         (''detection_intelligence.minimum_wallet_quality'', Float (70/100))]),
      (''chase_optimization'',
        [(''chase_observe_only_fraction'', Float (45/100))]),
      (''concentration'',
        [(''target_sizing.bootstrap_fraction_clean'', Float (2/100)),
         (''position_management.starter_fraction_of_target'', Float (75/100))])]"

subsection \<open>Tables\<close>

record challenger_row =
  ch_id :: string
  ch_family :: string
  ch_trigger_reason :: string
  ch_config :: config
  ch_created_at :: string
  ch_status :: string

record tournament_row =
  tn_challenger_id :: string
  tn_stream_id :: string
  tn_lane :: string
  tn_observed_at :: string
  tn_net_return :: real
  tn_drawdown :: real
  tn_execution_complete :: bool
  tn_same_stream :: bool
  tn_prospective :: bool

record exact_row =
  xe_challenger_id :: string
  xe_stream_id :: string
  xe_lane :: string
  xe_observed_at :: string
  xe_net_return :: real
  xe_drawdown :: real
  xe_evidence_ref :: string
  xe_recorded_at :: string

record history_row =
  hi_action :: string
  hi_challenger_id :: string
  hi_observed_at :: string
  hi_from_fingerprint :: string
  hi_to_fingerprint :: string
  hi_changes :: config
  hi_rollback :: config

record advantage =
  ad_episodes :: nat
  ad_mean :: real
  ad_lower_90 :: real
  ad_probability_positive :: real

record decision_row =
  de_evaluated_at :: string
  de_decision :: tournament_decision
  de_posterior :: advantage
  de_action :: string

text \<open>Rows of the tables of other modules that a tick reads.\<close>

record signal_row =
  sg_source_signature :: string
  sg_lane :: string
  sg_observed_at :: string
  sg_position_fraction :: "real option"
  sg_realized_net_return :: "real option"
  sg_realized_mae :: "real option"
  sg_chase_fraction :: "real option"
  sg_decision :: "string option"
  sg_reason :: "string option"

record counterfactual_row =
  cr_source_signature :: string
  cr_lane :: string
  cr_observed_at :: string
  cr_hypothetical_fraction :: "real option"
  cr_net_return :: "real option"
  cr_executable_mae :: "real option"
  cr_chase_fraction :: "real option"
  cr_reason :: "string option"
  cr_resolved_at :: "string option"
  cr_opportunity_cost_usd :: "real option"
  cr_avoided_loss_usd :: "real option"

record governance =
  gv_challengers :: "challenger_row list"
  gv_outcomes :: "tournament_row list"
  gv_exact :: "exact_row list"
  gv_history :: "history_row list"
  gv_decisions :: "decision_row list"
  gv_events :: "(string \<times> string) list" \<comment> \<open>kind and challenger of the events appended to the log\<close>
  gv_evolution :: evolution

text \<open>What a call reads from its surroundings: digests, texts of floats, and the clock each time it is read.\<close>

record surroundings =
  su_digest :: "config \<Rightarrow> string"
  su_hash12 :: "string \<Rightarrow> string"
  su_float_text :: "real \<Rightarrow> string"
  su_fixed6 :: "real \<Rightarrow> string"
  su_fixed8 :: "real \<Rightarrow> string"
  su_erf :: "real \<Rightarrow> real"

record clock_readings =
  ck_cutoff :: string
  ck_named :: string
  ck_generated :: string
  ck_epoch1 :: string
  ck_epoch2 :: string
  ck_history :: string
  ck_reset :: string
  ck_decision :: string

subsection \<open>Challengers\<close>

fun contains_text :: "string \<Rightarrow> string \<Rightarrow> bool" where
  "contains_text p [] = (p = [])"
| "contains_text p (c # s) = (take (length p) (c # s) = p \<or> contains_text p s)"

definition challenger_family :: "string \<Rightarrow> string option" where
  "challenger_family reason =
     (let v = lower reason in
      if contains_text ''chase'' v then Some ''chase_optimization''
      else if contains_text ''priority'' v \<or> contains_text ''portfolio'' v \<or> contains_text ''capital'' v then Some ''concentration''
      else if contains_text ''wallet'' v \<or> contains_text ''evidence'' v \<or> contains_text ''cluster'' v then Some ''wallet_acceleration''
      else if contains_text ''scale'' v \<or> contains_text ''target'' v \<or> contains_text ''position'' v then Some ''aggressive_sizing''
      else if contains_text ''continuation'' v \<or> contains_text ''expiry'' v \<or> contains_text ''expired'' v then Some ''aggressive_continuation''
      else if contains_text ''exit'' v \<or> contains_text ''runner'' v \<or> contains_text ''capture'' v then Some ''exit_capture''
      else None)"

text \<open>\<open>INSERT OR IGNORE\<close> on the primary key.\<close>

definition insert_challenger :: "challenger_row \<Rightarrow> challenger_row list \<Rightarrow> challenger_row list" where
  "insert_challenger r rows = (if ch_id r \<in> ch_id ` set rows then rows else rows @ [r])"

definition ensure_named_challengers :: "string \<Rightarrow> governance \<Rightarrow> governance" where
  "ensure_named_challengers now g =
     g\<lparr>gv_challengers := fold (\<lambda>(i, c). insert_challenger
         \<lparr>ch_id = i, ch_family = i, ch_trigger_reason = ''canonical_named_forward_tournament'',
          ch_config = sort_key fst c, ch_created_at = now, ch_status = ''active''\<rparr>)
       FIXED_CHALLENGERS (gv_challengers g)\<rparr>"

definition stable_id :: "surroundings \<Rightarrow> string \<Rightarrow> string \<Rightarrow> string \<Rightarrow> string" where
  "stable_id su family lane reason =
     ''auto_'' @ family @ ''_'' @ lane @ ''_'' @ su_hash12 su (family @ [CHR 0x00] @ lane @ [CHR 0x00] @ reason)"

definition text_or_empty :: "string option \<Rightarrow> string" where
  "text_or_empty v = (case v of None \<Rightarrow> [] | Some s \<Rightarrow> s)"

definition number_or_zero :: "real option \<Rightarrow> real" where
  "number_or_zero v = (case v of None \<Rightarrow> 0 | Some x \<Rightarrow> x)"

text \<open>The groups of the aggregate query, at least eight resolved rows each; SQL leaves their order
  open, here they stand in the order of their first rows.\<close>

record missed_group =
  mg_lane :: string
  mg_reason :: "string option"
  mg_missed :: real
  mg_avoided :: real

definition missed_groups :: "string \<Rightarrow> counterfactual_row list \<Rightarrow> missed_group list" where
  "missed_groups cutoff rows =
     (let resolved = filter (\<lambda>r. case cr_resolved_at r of None \<Rightarrow> False | Some t \<Rightarrow> cutoff \<le> t) rows;
          group = (\<lambda>(lane, reason). filter (\<lambda>r. cr_lane r = lane \<and> cr_reason r = reason) resolved);
          keys = fromkeys (map (\<lambda>r. (cr_lane r, cr_reason r)) resolved)
      in map (\<lambda>k. \<lparr>mg_lane = fst k, mg_reason = snd k,
                mg_missed = sum_list (map (\<lambda>r. number_or_zero (cr_opportunity_cost_usd r)) (group k)),
                mg_avoided = sum_list (map (\<lambda>r. number_or_zero (cr_avoided_loss_usd r)) (group k))\<rparr>)
           (filter (\<lambda>k. 8 \<le> length (group k)) keys))"

definition generate_challenger :: "surroundings \<Rightarrow> string \<Rightarrow> missed_group \<Rightarrow> governance \<Rightarrow> governance" where
  "generate_challenger su now m g =
     (let reason = text_or_empty (mg_reason m) in
      case challenger_family reason of
        None \<Rightarrow> g
      | Some family \<Rightarrow>
          if mg_missed m \<le> max 1 (mg_avoided m * (125/100)) then g
          else
            let lane = (if mg_lane m = [] then ''default'' else mg_lane m);
                i = stable_id su family lane reason;
                config = the (dict_get FIXED_CHALLENGERS family)
            in if i \<in> ch_id ` set (gv_challengers g) then g
               else g\<lparr>gv_challengers := insert_challenger
                        \<lparr>ch_id = i, ch_family = family, ch_trigger_reason = reason, ch_config = sort_key fst config,
                         ch_created_at = now, ch_status = ''active''\<rparr> (gv_challengers g),
                      gv_events := gv_events g @ [(''v52_governed_challenger_created'', i)]\<rparr>)"

definition generate_stable_challengers ::
  "surroundings \<Rightarrow> clock_readings \<Rightarrow> counterfactual_row list option \<Rightarrow> governance \<Rightarrow> governance" where
  "generate_stable_challengers su ck rows g =
     (let g = ensure_named_challengers (ck_named ck) g
      in case rows of
           None \<Rightarrow> g
         | Some rows \<Rightarrow> fold (generate_challenger su (ck_generated ck)) (missed_groups (ck_cutoff ck) rows) g)"

definition active_challengers :: "governance \<Rightarrow> challenger_row list" where
  "active_challengers g =
     sort_key (\<lambda>r. (ch_created_at r, ch_id r)) (filter (\<lambda>r. ch_status r = ''active'') (gv_challengers g))"

subsection \<open>Outcomes on the same streams\<close>

record governed_stream =
  gs_stream_id :: string
  gs_lane :: string
  gs_observed_at :: string
  gs_net_return :: real
  gs_drawdown :: real
  gs_position_fraction :: real
  gs_chase_fraction :: real
  gs_entered :: bool
  gs_reason :: string

definition signal_stream :: "signal_row \<Rightarrow> governed_stream" where
  "signal_stream r =
     \<lparr>gs_stream_id = sg_lane r @ '':'' @ sg_source_signature r, gs_lane = sg_lane r, gs_observed_at = sg_observed_at r,
      gs_net_return = number_or_zero (sg_realized_net_return r),
      gs_drawdown = max 0 (number_or_zero (sg_realized_mae r)),
      gs_position_fraction = max 0 (number_or_zero (sg_position_fraction r)),
      gs_chase_fraction = number_or_zero (sg_chase_fraction r),
      gs_entered = (take 11 (text_or_empty (sg_decision r)) = ''paper_enter''),
      gs_reason = text_or_empty (sg_reason r)\<rparr>"

definition counterfactual_stream :: "counterfactual_row \<Rightarrow> governed_stream" where
  "counterfactual_stream r =
     \<lparr>gs_stream_id = cr_lane r @ '':'' @ cr_source_signature r, gs_lane = cr_lane r, gs_observed_at = cr_observed_at r,
      gs_net_return = number_or_zero (cr_net_return r),
      gs_drawdown = max 0 (number_or_zero (cr_executable_mae r)),
      gs_position_fraction = max 0 (number_or_zero (cr_hypothetical_fraction r)),
      gs_chase_fraction = number_or_zero (cr_chase_fraction r),
      gs_entered = False,
      gs_reason = text_or_empty (cr_reason r)\<rparr>"

fun add_counterfactual :: "counterfactual_row \<Rightarrow> (string, governed_stream) dict \<Rightarrow> (string, governed_stream) dict" where
  "add_counterfactual r d =
     (let s = counterfactual_stream r in
      if dict_get d (gs_stream_id s) = None then dict_set (gs_stream_id s) s d else d)"

definition stream_rows ::
  "string \<Rightarrow> signal_row list option \<Rightarrow> counterfactual_row list option \<Rightarrow> governed_stream list" where
  "stream_rows created_after signals counterfactuals =
     (let realized = filter (\<lambda>r. created_after \<le> sg_observed_at r \<and> sg_realized_net_return r \<noteq> None) (or_default signals []);
          resolved = filter (\<lambda>r. created_after \<le> cr_observed_at r \<and> cr_resolved_at r \<noteq> None \<and> cr_net_return r \<noteq> None)
                       (or_default counterfactuals []);
          streams = fold (\<lambda>r. dict_set (gs_stream_id (signal_stream r)) (signal_stream r)) realized []
      in dict_values (fold add_counterfactual resolved streams))"

definition strict_policy_stream_return :: "string \<Rightarrow> string \<Rightarrow> governed_stream \<Rightarrow> real \<times> bool" where
  "strict_policy_stream_return policy_id family s =
     (let trade_return = gs_net_return s; fraction = max 0 (gs_position_fraction s); entered = gs_entered s in
      if policy_id = INCUMBENT_ID then (if entered then trade_return * fraction else 0, True)
      else if \<not> entered \<and> challenger_family (gs_reason s) \<noteq> Some family then (0, False)
      else if family = ''chase_optimization'' \<and> \<not> entered \<and> gs_chase_fraction s > 45/100 then (0, False)
      else
        let multiplier =
              (if family = ''aggressive_sizing'' then 150/100
               else if family = ''aggressive_continuation'' then (if trade_return > 0 then 125/100 else 1)
               else if family = ''exit_capture'' then (if trade_return > 0 then 120/100 else 90/100)
               else if family = ''wallet_acceleration'' then (if trade_return > 0 then 115/100 else 1)
               else if family = ''concentration'' then (if trade_return > 0 then 175/100 else 125/100)
               else 1);
            exposure = (if fraction > 0 then fraction else 1/100)
        in (max (- (999/1000)) (trade_return * exposure * multiplier), False))"

text \<open>\<open>UNIQUE(challenger_id, stream_id)\<close>.\<close>

definition row_key :: "tournament_row \<Rightarrow> string \<times> string" where
  "row_key r = (tn_challenger_id r, tn_stream_id r)"

definition insert_outcome :: "tournament_row \<Rightarrow> tournament_row list \<Rightarrow> tournament_row list" where
  "insert_outcome r rows = (if row_key r \<in> row_key ` set rows then rows else rows @ [r])"

definition policy_row :: "governed_stream \<Rightarrow> string \<times> string \<Rightarrow> tournament_row" where
  "policy_row s p =
     (let (policy_id, family) = p; (net_return, complete) = strict_policy_stream_return policy_id family s
      in \<lparr>tn_challenger_id = policy_id, tn_stream_id = gs_stream_id s, tn_lane = gs_lane s, tn_observed_at = gs_observed_at s,
          tn_net_return = net_return, tn_drawdown = gs_drawdown s, tn_execution_complete = complete,
          tn_same_stream = True, tn_prospective = True\<rparr>)"

definition common_start :: "challenger_row list \<Rightarrow> string" where
  "common_start active = fold (\<lambda>r m. max (ch_created_at r) m) (tl active) (ch_created_at (hd active))"

definition record_same_stream_outcomes ::
  "string \<Rightarrow> signal_row list option \<Rightarrow> counterfactual_row list option \<Rightarrow> governance \<Rightarrow> governance" where
  "record_same_stream_outcomes now signals counterfactuals g =
     (let g = ensure_named_challengers now g; active = active_challengers g
      in if active = [] then g
         else
           let streams = stream_rows (common_start active) signals counterfactuals;
               policies = (INCUMBENT_ID, INCUMBENT_ID)
                 # map (\<lambda>r. (ch_id r, if ch_family r = [] then ch_id r else ch_family r)) active
           in g\<lparr>gv_outcomes := fold (\<lambda>s. fold (\<lambda>p. insert_outcome (policy_row s p)) policies) streams (gv_outcomes g)\<rparr>)"

text \<open>Exact evidence: the checks of \<open>math.isfinite(float(x))\<close> and the bound of the value.\<close>

definition check_drawdown :: "py_number \<Rightarrow> unit result" where
  "check_drawdown d =
     (case d of
        NotNumeric \<Rightarrow> Inl (TypeError ''must be real number'')
      | NonFinite \<Rightarrow> Inl (ValueError ''drawdown must be finite and non-negative'')
      | Number x \<Rightarrow> if x < 0 then Inl (ValueError ''drawdown must be finite and non-negative'') else Inr ())"

definition upsert_outcome :: "tournament_row \<Rightarrow> tournament_row list \<Rightarrow> tournament_row list" where
  "upsert_outcome r rows =
     (if row_key r \<in> row_key ` set rows then map (\<lambda>q. if row_key q = row_key r then r else q) rows else rows @ [r])"

definition record_exact_outcome ::
  "string \<Rightarrow> string \<Rightarrow> string \<Rightarrow> string \<Rightarrow> string \<Rightarrow> py_number \<Rightarrow> py_number \<Rightarrow> string \<Rightarrow> governance \<Rightarrow> (governance \<times> bool) result" where
  "record_exact_outcome now challenger_id stream_id lane observed_at net_return drawdown evidence_ref g =
     (if challenger_id = [] \<or> challenger_id = INCUMBENT_ID
      then Inl (ValueError ''challenger_id must identify a non-incumbent policy'')
      else if stream_id = [] \<or> lane = [] \<or> evidence_ref = []
      then Inl (ValueError ''stream_id, lane, and evidence_ref are required'')
      else bind_result (check_net_return net_return) (\<lambda>_. bind_result (check_drawdown drawdown) (\<lambda>_.
        if \<not> (\<exists>r\<in>set (gv_challengers g). ch_id r = challenger_id \<and> (ch_status r = ''active'' \<or> ch_status r = ''promoted''))
        then Inl (ValueError ''challenger is not active or promoted'')
        else (case find (\<lambda>r. row_key r = (INCUMBENT_ID, stream_id)) (gv_outcomes g) of
            None \<Rightarrow> Inl (ValueError ''same-stream incumbent outcome is required before challenger proof'')
          | Some inc \<Rightarrow>
              if tn_lane inc \<noteq> lane then Inl (ValueError ''challenger lane does not match incumbent stream lane'')
              else
                let x = finite_value net_return; d = finite_value drawdown in
                (case find (\<lambda>e. xe_challenger_id e = challenger_id \<and> xe_stream_id e = stream_id) (gv_exact g) of
                   Some prior \<Rightarrow>
                     if xe_evidence_ref prior = evidence_ref \<and> \<bar>xe_net_return prior - x\<bar> \<le> 1 / 10 ^ 12
                        \<and> \<bar>xe_drawdown prior - d\<bar> \<le> 1 / 10 ^ 12
                     then Inr (g, False)
                     else Inl (ValueError ''conflicting exact challenger evidence for immutable stream'')
                 | None \<Rightarrow>
                     Inr (g\<lparr>gv_exact := gv_exact g @ [\<lparr>xe_challenger_id = challenger_id, xe_stream_id = stream_id, xe_lane = lane,
                            xe_observed_at = observed_at, xe_net_return = x, xe_drawdown = d,
                            xe_evidence_ref = evidence_ref, xe_recorded_at = now\<rparr>],
                          gv_outcomes := upsert_outcome
                            \<lparr>tn_challenger_id = challenger_id, tn_stream_id = stream_id, tn_lane = lane, tn_observed_at = observed_at,
                             tn_net_return = x, tn_drawdown = d, tn_execution_complete = True, tn_same_stream = True,
                             tn_prospective = True\<rparr> (gv_outcomes g),
                          gv_events := gv_events g @ [(''v52_tournament_exact_challenger_outcome'', challenger_id)]\<rparr>, True))))))"

subsection \<open>Evaluation\<close>

definition no_advantage :: advantage where
  "no_advantage = \<lparr>ad_episodes = 0, ad_mean = 0, ad_lower_90 = -1, ad_probability_positive = 0\<rparr>"

definition variance_of :: "real list \<Rightarrow> real" where
  "variance_of xs =
     (if 1 < length xs
      then let m = sum_list xs / real (length xs) in sum_list (map (\<lambda>x. (x - m) ^ 2) xs) / real (length xs)
      else 1/100)"

definition advantage_of :: "(real \<Rightarrow> real) \<Rightarrow> real list \<Rightarrow> advantage" where
  "advantage_of erf gaps =
     (if gaps = [] then no_advantage
      else
        let n = real (length gaps);
            mean = sum_list gaps / n;
            posterior_mean = n * mean / (n + 8);
            posterior_var = (variance_of gaps + 1/100) / max 1 (n + 8);
            se = sqrt (max (1 / 10 ^ 12) posterior_var)
        in \<lparr>ad_episodes = length gaps, ad_mean = posterior_mean,
            ad_lower_90 = posterior_mean - 1645/1000 * se,
            ad_probability_positive = 5/10 * (1 + erf (posterior_mean / se / sqrt 2))\<rparr>)"

definition counted_row :: "string \<Rightarrow> tournament_row \<Rightarrow> bool" where
  "counted_row since r \<longleftrightarrow> since \<le> tn_observed_at r \<and> tn_execution_complete r \<and> tn_same_stream r \<and> tn_prospective r"

text \<open>The join of a policy's completed rows with the incumbent's on the same stream, in row order.\<close>

definition paired_rows :: "string \<Rightarrow> string \<Rightarrow> tournament_row list \<Rightarrow> (tournament_row \<times> tournament_row) list" where
  "paired_rows policy since rows =
     concat (map (\<lambda>w. map (\<lambda>i. (w, i)) (filter (\<lambda>i. tn_challenger_id i = INCUMBENT_ID \<and> tn_stream_id i = tn_stream_id w \<and> counted_row since i) rows))
       (filter (\<lambda>w. tn_challenger_id w = policy \<and> counted_row since w) rows))"

definition posterior_since :: "(real \<Rightarrow> real) \<Rightarrow> string \<Rightarrow> string \<Rightarrow> tournament_row list \<Rightarrow> advantage" where
  "posterior_since erf winner since rows =
     advantage_of erf (map (\<lambda>(w, i). tn_net_return w - tn_net_return i) (paired_rows winner since rows))"

definition outcome_of_row :: "tournament_row \<Rightarrow> policy_outcome" where
  "outcome_of_row r =
     \<lparr>pu_policy_id = tn_challenger_id r, pu_stream_id = tn_stream_id r, pu_net_return = Number (tn_net_return r),
      pu_drawdown = tn_drawdown r, pu_execution_complete = tn_execution_complete r\<rparr>"

fun record_rows :: "tournament_row list \<Rightarrow> tournament \<Rightarrow> tournament result" where
  "record_rows [] t = Inr t"
| "record_rows (r # rows) t = bind_result (record_outcome (outcome_of_row r) t) (record_rows rows)"

definition winner_blockers :: "tournament_decision \<Rightarrow> advantage \<Rightarrow> string list" where
  "winner_blockers d posterior =
     (case td_winner d of
        None \<Rightarrow> []
      | Some w \<Rightarrow>
          let score = find (\<lambda>c. pc_policy_id c = w) (td_scores d) in
          (case score of
             Some c \<Rightarrow> if pc_max_drawdown c > MAX_PROMOTION_DRAWDOWN then [''winner_drawdown_above_governed_maximum''] else []
           | None \<Rightarrow> [''winner_drawdown_above_governed_maximum''])
          @ (case score of
             Some c \<Rightarrow> if pc_execution_completion_rate c < 95/100 then [''winner_exact_execution_completion_below_minimum''] else []
           | None \<Rightarrow> [''winner_exact_execution_completion_below_minimum''])
          @ (if int (ad_episodes posterior) < MIN_FORWARD_EPISODES then [''insufficient_exact_paired_forward_episodes''] else [])
          @ (if ad_probability_positive posterior < POSTERIOR_PROMOTION_PROBABILITY
             then [''posterior_probability_below_promotion_threshold''] else [])
          @ (if ad_lower_90 posterior \<le> 0 then [''posterior_lower_advantage_not_positive''] else []))"

text \<open>The rows of the current epoch: those of the incumbent and the active challengers observed since every
  active challenger exists.\<close>

definition epoch_rows :: "governance \<Rightarrow> tournament_row list" where
  "epoch_rows g =
     (let active = active_challengers g
      in filter (\<lambda>r. tn_challenger_id r = INCUMBENT_ID \<or> tn_challenger_id r \<in> ch_id ` set active)
           (filter (\<lambda>r. common_start active \<le> tn_observed_at r \<and> tn_same_stream r \<and> tn_prospective r) (gv_outcomes g)))"

definition evaluate_fresh_tournament :: "surroundings \<Rightarrow> governance \<Rightarrow> (tournament_decision \<times> advantage) result" where
  "evaluate_fresh_tournament su g =
     (let active = active_challengers g in
      if active = [] then Inr (no_winner INCUMBENT_ID NoRatio [''no_active_challengers''] [], no_advantage)
      else bind_result (record_rows (epoch_rows g) (new_tournament MIN_FORWARD_EPISODES MIN_IMPROVEMENT_RATIO)) (\<lambda>t.
        let d = compare_policies t INCUMBENT_ID (map ch_id active);
            posterior = (case td_winner d of
                None \<Rightarrow> no_advantage
              | Some w \<Rightarrow> posterior_since (su_erf su) w (common_start active) (gv_outcomes g));
            incomplete = (\<exists>r\<in>set (epoch_rows g). tn_challenger_id r \<noteq> INCUMBENT_ID \<and> \<not> tn_execution_complete r);
            blockers = td_blockers d @ (if incomplete then [''challenger_execution_completion_is_not_exact''] else [])
              @ winner_blockers d posterior
        in Inr (if blockers = [] then d else d\<lparr>td_eligible := False, td_blockers := fromkeys blockers\<rparr>, posterior)))"

subsection \<open>Promotion\<close>

datatype governance_action = Hold string | Promoted string | Demoted string

text \<open>Where a step can be cut off: the transaction that writes the history raises, or the process ends before
  the forward epoch is reset.\<close>

datatype stop_point = NoStop | HistoryRaises string | ResetMissed

definition challenger_config :: "governance \<Rightarrow> string \<Rightarrow> config" where
  "challenger_config g i = (case find (\<lambda>r. ch_id r = i) (gv_challengers g) of None \<Rightarrow> [] | Some r \<Rightarrow> ch_config r)"

definition rollback_of :: "config \<Rightarrow> config \<Rightarrow> config" where
  "rollback_of before changes =
     map (\<lambda>(k, v). (k, case dict_get before k of None \<Rightarrow> Null | Some w \<Rightarrow> w)) changes"

definition set_status :: "string \<Rightarrow> string \<Rightarrow> challenger_row list \<Rightarrow> challenger_row list" where
  "set_status i status rows = map (\<lambda>r. if ch_id r = i then r\<lparr>ch_status := status\<rparr> else r) rows"

definition reset_epoch :: "string \<Rightarrow> challenger_row list \<Rightarrow> challenger_row list" where
  "reset_epoch now rows = map (\<lambda>r. if ch_status r = ''active'' then r\<lparr>ch_created_at := now\<rparr> else r) rows"

definition log_decision :: "clock_readings \<Rightarrow> tournament_decision \<Rightarrow> advantage \<Rightarrow> string \<Rightarrow> governance \<Rightarrow> governance" where
  "log_decision ck d posterior action g =
     g\<lparr>gv_decisions := gv_decisions g @
        [\<lparr>de_evaluated_at = ck_decision ck, de_decision = d, de_posterior = posterior, de_action = action\<rparr>]\<rparr>"

definition promote_challenger ::
  "surroundings \<Rightarrow> clock_readings \<Rightarrow> stop_point \<Rightarrow> string \<Rightarrow> tournament_decision \<Rightarrow> advantage \<Rightarrow> governance
     \<Rightarrow> governance \<times> governance_action result" where
  "promote_challenger su ck stop_at w d posterior g =
     (let changes = challenger_config g w;
          before = current_epoch (gv_evolution g);
          refs = [''paired_forward_tournament:'' @ w,
                  ''posterior_probability:'' @ su_fixed6 su (ad_probability_positive posterior),
                  ''posterior_lower_advantage:'' @ su_fixed8 su (ad_lower_90 posterior)];
          rationale = ''automatic_forward_promotion:'' @ w @ '':ratio='' @ improvement_text (su_float_text su) (td_improvement_ratio d)
      in case apply_changes (su_digest su) (ck_epoch1 ck) (ck_epoch2 ck) changes rationale refs (gv_evolution g) of
           (ev, Inl e) \<Rightarrow> (g\<lparr>gv_evolution := ev\<rparr>, Inl e)
         | (ev, Inr epochs) \<Rightarrow>
             let g1 = g\<lparr>gv_evolution := ev\<rparr> in
             if epochs = [] then (log_decision ck d posterior ''hold'' g1, Inr (Hold ''hold''))
             else (case stop_at of
                 HistoryRaises e \<Rightarrow> (g1, Inl (OperationalError e))
               | _ \<Rightarrow>
                   (log_decision ck d posterior ''promote''
                     (g1\<lparr>gv_history := gv_history g @
                           [\<lparr>hi_action = ''promote'', hi_challenger_id = w, hi_observed_at = ck_history ck,
                             hi_from_fingerprint = ep_fingerprint before, hi_to_fingerprint = ep_fingerprint (current_epoch ev),
                             hi_changes = changes, hi_rollback = rollback_of (ep_config before) changes\<rparr>],
                         gv_challengers := set_status w ''promoted'' (gv_challengers g),
                         gv_events := gv_events g @ [(''v52_strategy_automatic_promotion'', w)]\<rparr>),
                    Inr (Promoted w))))"

definition maybe_promote ::
  "surroundings \<Rightarrow> clock_readings \<Rightarrow> stop_point \<Rightarrow> governance \<Rightarrow> governance \<times> governance_action result" where
  "maybe_promote su ck stop_at g0 =
     (let g = ensure_named_challengers (ck_named ck) g0 in
      case evaluate_fresh_tournament su g of
        Inl e \<Rightarrow> (g, Inl e)
      | Inr (d, posterior) \<Rightarrow>
          (case td_winner d of
             None \<Rightarrow> (log_decision ck d posterior ''hold'' g, Inr (Hold ''hold''))
           | Some w \<Rightarrow>
               if td_eligible d \<and> w \<noteq> [] then promote_challenger su ck stop_at w d posterior g
               else (log_decision ck d posterior ''hold'' g, Inr (Hold ''hold''))))"

definition promote_with_fresh_epoch ::
  "surroundings \<Rightarrow> clock_readings \<Rightarrow> stop_point \<Rightarrow> governance \<Rightarrow> governance \<times> governance_action result" where
  "promote_with_fresh_epoch su ck stop_at g0 =
     (case maybe_promote su ck stop_at g0 of
        (g, Inr (Promoted w)) \<Rightarrow>
          if stop_at = ResetMissed then (g, Inr (Promoted w))
          else (g\<lparr>gv_challengers := reset_epoch (ck_reset ck) (gv_challengers g),
                  gv_events := gv_events g @ [(''v52_tournament_forward_epoch_reset'', w)]\<rparr>, Inr (Promoted w))
      | result \<Rightarrow> result)"

subsection \<open>Demotion\<close>

definition mean_growth :: "real list \<Rightarrow> real" where
  "mean_growth xs = exp (sum_list (map (\<lambda>x. ln (1 + max (- (999/1000)) x)) xs) / real (length xs)) - 1"

definition deterioration_ratio :: "real \<Rightarrow> real \<Rightarrow> real" where
  "deterioration_ratio incumbent promoted =
     (if incumbent > 0 then promoted / incumbent else if promoted \<ge> incumbent then 1 else 0)"

definition demote_once ::
  "surroundings \<Rightarrow> clock_readings \<Rightarrow> stop_point \<Rightarrow> governance \<Rightarrow> governance \<times> governance_action result" where
  "demote_once su ck stop_at g =
     (if gv_history g = [] \<or> hi_action (last (gv_history g)) \<noteq> ''promote'' then (g, Inr (Hold ''no_active_promotion''))
      else
        let promoted = last (gv_history g);
            w = hi_challenger_id promoted;
            since = hi_observed_at promoted;
            rows = paired_rows w since (gv_outcomes g);
            incumbent_growth = mean_growth (map (\<lambda>(c, i). tn_net_return i) rows);
            promoted_growth = mean_growth (map (\<lambda>(c, i). tn_net_return c) rows);
            ratio = deterioration_ratio incumbent_growth promoted_growth;
            posterior = posterior_since (su_erf su) w since (gv_outcomes g);
            rollback = hi_rollback promoted
        in if length rows < MIN_DEMOTION_EPISODES
           then (g, Inr (Hold ''insufficient_exact_post_promotion_forward_episodes''))
           else if ratio \<ge> DEMOTION_RATIO \<and> ad_probability_positive posterior \<ge> 50/100
           then (g, Inr (Hold ''promoted_policy_not_deteriorated''))
           else if rollback = [] then (g, Inr (Hold ''rollback_empty''))
           else
             let before = current_epoch (gv_evolution g);
                 refs = [''exact_post_promotion_forward_episodes:'' @ nat_text (length rows),
                         ''posterior_probability:'' @ su_fixed6 su (ad_probability_positive posterior)];
                 rationale = ''automatic_forward_demotion:'' @ w @ '':ratio='' @ su_float_text su ratio
             in case apply_changes (su_digest su) (ck_epoch1 ck) (ck_epoch2 ck) rollback rationale refs (gv_evolution g) of
                  (ev, Inl e) \<Rightarrow> (g\<lparr>gv_evolution := ev\<rparr>, Inl e)
                | (ev, Inr epochs) \<Rightarrow>
                    let g1 = g\<lparr>gv_evolution := ev\<rparr> in
                    if epochs = [] then (g1, Inr (Hold ''rollback_empty''))
                    else (case stop_at of
                        HistoryRaises e \<Rightarrow> (g1, Inl (OperationalError e))
                      | _ \<Rightarrow>
                          (g1\<lparr>gv_history := gv_history g @
                                [\<lparr>hi_action = ''demote'', hi_challenger_id = w, hi_observed_at = ck_reset ck,
                                  hi_from_fingerprint = ep_fingerprint before, hi_to_fingerprint = ep_fingerprint (current_epoch ev),
                                  hi_changes = rollback, hi_rollback = []\<rparr>],
                              gv_challengers := reset_epoch (ck_reset ck) (set_status w ''demoted'' (gv_challengers g)),
                              gv_events := gv_events g @ [(''v52_strategy_automatic_demotion'', w)]\<rparr>, Inr (Demoted w))))"

subsection \<open>Ticks and starts\<close>

definition governance_tick ::
  "surroundings \<Rightarrow> clock_readings \<Rightarrow> stop_point \<Rightarrow> signal_row list option \<Rightarrow> counterfactual_row list option \<Rightarrow> governance
     \<Rightarrow> governance \<times> governance_action result" where
  "governance_tick su ck stop_at signals counterfactuals g =
     (let g1 = generate_stable_challengers su ck counterfactuals g;
          g2 = record_same_stream_outcomes (ck_named ck) signals counterfactuals g1
      in case demote_once su ck stop_at g2 of
           (g3, Inl e) \<Rightarrow> (g3, Inl e)
         | (g3, Inr (Demoted w)) \<Rightarrow> (g3, Inr (Demoted w))
         | (g3, Inr _) \<Rightarrow> promote_with_fresh_epoch su ck stop_at g3)"

fun replay_rows :: "(config \<Rightarrow> string) \<Rightarrow> string \<Rightarrow> nat \<Rightarrow> history_row list \<Rightarrow> evolution \<Rightarrow> evolution \<times> unit result" where
  "replay_rows digest now i [] ev = (ev, Inr ())"
| "replay_rows digest now i (h # hs) ev =
     (if hi_changes h = [] then replay_rows digest now (Suc i) hs ev
      else case apply_changes digest now now (hi_changes h) (''replay:'' @ hi_action h @ '':'' @ hi_challenger_id h)
               [''governance_history:'' @ nat_text i] ev of
             (ev', Inl e) \<Rightarrow> (ev', Inl e)
           | (ev', Inr es) \<Rightarrow> replay_rows digest now (Suc i) hs ev')"

definition replay_governance_history :: "surroundings \<Rightarrow> string \<Rightarrow> governance \<Rightarrow> governance \<times> unit result" where
  "replay_governance_history su now g =
     (if ep_sequence (current_epoch (gv_evolution g)) > 1 then (g, Inr ())
      else let (ev, r) = replay_rows (su_digest su) now 1 (gv_history g) (gv_evolution g) in (g\<lparr>gv_evolution := ev\<rparr>, r))"

text \<open>A start: the tables stay, the epochs begin again at the baseline.\<close>

definition install_governance :: "surroundings \<Rightarrow> string \<Rightarrow> config \<Rightarrow> string \<Rightarrow> governance \<Rightarrow> governance \<times> unit result" where
  "install_governance su now baseline version g =
     (case new_evolution (su_digest su) now baseline version of
        Inl e \<Rightarrow> (g, Inl e)
      | Inr ev \<Rightarrow> replay_governance_history su now (ensure_named_challengers now (g\<lparr>gv_evolution := ev\<rparr>)))"

definition empty_governance :: governance where
  "empty_governance =
     \<lparr>gv_challengers = [], gv_outcomes = [], gv_exact = [], gv_history = [], gv_decisions = [], gv_events = [], gv_evolution = []\<rparr>"

end
