(* ===== verification/GovernanceRuns.thy ===== *)
theory GovernanceRuns
  imports Governance "HOL-Library.Multiset"
begin

text \<open>
  What any sequence of ticks, exact outcomes and starts keeps of the governance tables: the epochs of the process are
  the history replayed over the baseline, a demotion follows the promotion it undoes, and a completed
  outcome of a challenger is backed by exact evidence.
\<close>

subsection \<open>Configurations from the history\<close>

definition plain :: "config \<Rightarrow> bool" where
  "plain c \<longleftrightarrow> dict_ok c \<and> keys_in IMMUTABLE_AUTHORITY_KEYS c = []"

definition replayed :: "config \<Rightarrow> history_row list \<Rightarrow> config" where
  "replayed base hs = fold (\<lambda>h. config_after (hi_changes h)) hs base"

definition row_ok :: "config \<Rightarrow> history_row list \<Rightarrow> history_row \<Rightarrow> bool" where
  "row_ok base pre h \<longleftrightarrow> plain (hi_changes h) \<and> plain (hi_rollback h) \<and> hi_changes h \<noteq> [] \<and>
     (hi_action h = ''promote'' \<and> hi_rollback h = rollback_of (replayed base pre) (hi_changes h)
      \<or> hi_action h = ''demote'' \<and> pre \<noteq> [] \<and> hi_action (last pre) = ''promote''
        \<and> hi_challenger_id h = hi_challenger_id (last pre) \<and> hi_changes h = hi_rollback (last pre))"

fun history_ok :: "config \<Rightarrow> history_row list \<Rightarrow> history_row list \<Rightarrow> bool" where
  "history_ok base pre [] = True"
| "history_ok base pre (h # hs) = (row_ok base pre h \<and> history_ok base (pre @ [h]) hs)"

lemma history_ok_append: "history_ok base pre (xs @ ys) \<longleftrightarrow> history_ok base pre xs \<and> history_ok base (pre @ xs) ys"
  by (induction xs arbitrary: pre) auto

lemma replayed_snoc: "replayed base (hs @ [h]) = config_after (hi_changes h) (replayed base hs)"
  by (simp add: replayed_def)

definition same_lookups :: "config \<Rightarrow> config \<Rightarrow> bool" where
  "same_lookups c d \<longleftrightarrow> (\<forall>k. dict_get c k = dict_get d k)"

lemma config_after_lookups:
  "dict_ok changes \<Longrightarrow> same_lookups c d \<Longrightarrow> same_lookups (config_after changes c) (config_after changes d)"
  by (simp add: same_lookups_def config_after_get split: option.split)

lemma config_after_ok: "dict_ok c \<Longrightarrow> dict_ok (config_after changes c)"
  by (simp add: config_after_def update_config_ok)

lemma rollback_of_lookups: "same_lookups c d \<Longrightarrow> rollback_of c changes = rollback_of d changes"
  by (simp add: rollback_of_def same_lookups_def)

lemma rollback_of_get:
  "dict_get (rollback_of before changes) k =
     (case dict_get changes k of None \<Rightarrow> None
      | Some v \<Rightarrow> Some (case dict_get before k of None \<Rightarrow> Null | Some w \<Rightarrow> w))"
  by (induction changes) (auto simp: rollback_of_def)

lemma rollback_of_keys: "dict_ok (rollback_of before changes) \<longleftrightarrow> dict_ok changes"
  by (simp add: dict_ok_def rollback_of_def comp_def split_beta)

lemma rollback_of_plain: "plain changes \<Longrightarrow> plain (rollback_of before changes)"
  by (auto simp: plain_def keys_in_empty rollback_of_get rollback_of_keys split: option.split)

lemma rollback_of_empty: "rollback_of before changes = [] \<longleftrightarrow> changes = []"
  by (simp add: rollback_of_def)

lemma dict_ok_sorted: "dict_ok c \<Longrightarrow> dict_ok (sort_key fst c)"
  unfolding dict_ok_def by (metis mset_map mset_sort mset_eq_imp_distinct_iff)

lemma plain_sorted: "plain c \<Longrightarrow> plain (sort_key fst c)"
  by (auto simp: plain_def dict_ok_sorted keys_in_empty dict_get_eq_None)

lemma in_dict_iff: "dict_ok d \<Longrightarrow> (k, v) \<in> set d \<longleftrightarrow> dict_get d k = Some v"
  by (blast intro: in_dict_get dict_get_in)

lemma sorted_config_unique:
  assumes "same_lookups c d" and "dict_ok c" and "dict_ok d"
  shows "sort_key fst c = sort_key fst d"
proof -
  have "(k, v) \<in> set c \<longleftrightarrow> (k, v) \<in> set d" for k v
    using assms by (simp add: in_dict_iff same_lookups_def)
  then have set: "set (sort_key fst c) = set (sort_key fst d)" by auto
  have "distinct (map fst (sort_key fst c))" "distinct (map fst (sort_key fst d))"
    using dict_ok_sorted assms by (simp_all add: dict_ok_def)
  moreover from this set have "inj_on fst (set (sort_key fst c) \<union> set (sort_key fst d))"
    by (simp add: distinct_map)
  ultimately show ?thesis
    using set by (intro map_sorted_distinct_set_unique [of fst]) simp_all
qed

subsection \<open>The invariant\<close>

definition challengers_plain :: "challenger_row list \<Rightarrow> bool" where
  "challengers_plain rows \<longleftrightarrow> (\<forall>r\<in>set rows. plain (ch_config r))"

definition governance_ok :: "surroundings \<Rightarrow> config \<Rightarrow> governance \<Rightarrow> bool" where
  "governance_ok su base g \<longleftrightarrow> evolution_ok (su_digest su) (gv_evolution g)
     \<and> same_lookups (ep_config (last (gv_evolution g))) (replayed base (gv_history g))
     \<and> history_ok base [] (gv_history g) \<and> challengers_plain (gv_challengers g) \<and> assert_authority base = Inr ()"

lemma fixed_plain: "list_all (\<lambda>(i, c). plain c) FIXED_CHALLENGERS"
  by (simp add: FIXED_CHALLENGERS_def plain_def dict_ok_def keys_in_empty IMMUTABLE_AUTHORITY_KEYS_def)

lemma family_known: "challenger_family reason = Some f \<Longrightarrow> \<exists>c. dict_get FIXED_CHALLENGERS f = Some c \<and> plain c"
proof -
  assume "challenger_family reason = Some f"
  then have "f \<in> {''chase_optimization'', ''concentration'', ''wallet_acceleration'', ''aggressive_sizing'',
      ''aggressive_continuation'', ''exit_capture''}"
    unfolding challenger_family_def Let_def by (simp split: if_splits)
  then obtain c where c: "dict_get FIXED_CHALLENGERS f = Some c"
    by (auto simp: FIXED_CHALLENGERS_def)
  from dict_get_in [OF this] fixed_plain have "plain c" by (auto simp: list_all_iff)
  with c show ?thesis by blast
qed

lemma insert_challenger_plain:
  "challengers_plain rows \<Longrightarrow> plain (ch_config r) \<Longrightarrow> challengers_plain (insert_challenger r rows)"
  by (auto simp: challengers_plain_def insert_challenger_def)

lemma fold_insert_plain:
  "list_all (\<lambda>x. plain (ch_config (f x))) xs \<Longrightarrow> challengers_plain rows \<Longrightarrow>
     challengers_plain (fold (\<lambda>x. insert_challenger (f x)) xs rows)"
  by (induction xs arbitrary: rows) (auto simp: insert_challenger_plain)

lemma ensure_named_plain:
  assumes "challengers_plain (gv_challengers g)"
  shows "challengers_plain (gv_challengers (ensure_named_challengers now g))"
proof -
  let ?f = "\<lambda>x. \<lparr>ch_id = fst x, ch_family = fst x, ch_trigger_reason = ''canonical_named_forward_tournament'',
    ch_config = sort_key fst (snd x), ch_created_at = now, ch_status = ''active''\<rparr>"
  have "list_all (\<lambda>x. plain (ch_config (?f x))) FIXED_CHALLENGERS"
    using fixed_plain by (auto simp: list_all_iff plain_sorted)
  from fold_insert_plain [OF this assms] show ?thesis
    by (simp add: ensure_named_challengers_def case_prod_unfold)
qed

lemma generate_challenger_plain:
  "challengers_plain (gv_challengers g) \<Longrightarrow> challengers_plain (gv_challengers (generate_challenger su now m g))"
  using family_known [of "text_or_empty (mg_reason m)"]
  by (auto simp: generate_challenger_def Let_def plain_sorted intro!: insert_challenger_plain split: option.split)

text \<open>The steps that touch neither the epochs nor the history.\<close>

definition untouched :: "governance \<Rightarrow> governance \<Rightarrow> bool" where
  "untouched g g' \<longleftrightarrow> gv_evolution g' = gv_evolution g \<and> gv_history g' = gv_history g
     \<and> (challengers_plain (gv_challengers g) \<longrightarrow> challengers_plain (gv_challengers g'))"

lemma untouched_refl: "untouched g g"
  by (simp add: untouched_def)

lemma untouched_trans: "untouched g g' \<Longrightarrow> untouched g' g'' \<Longrightarrow> untouched g g''"
  by (auto simp: untouched_def)

lemma untouched_ok: "governance_ok su base g \<Longrightarrow> untouched g g' \<Longrightarrow> governance_ok su base g'"
  by (simp add: governance_ok_def untouched_def)

lemma ensure_named_untouched: "untouched g (ensure_named_challengers now g)"
  by (simp add: untouched_def ensure_named_plain) (simp add: ensure_named_challengers_def)

lemma generate_untouched: "untouched g (generate_stable_challengers su ck rows g)"
proof -
  have one: "untouched g (generate_challenger su now m g)" for now m g
    by (simp add: untouched_def generate_challenger_plain) (simp add: generate_challenger_def Let_def split: option.split)
  have "untouched g (fold (generate_challenger su now) ms g)" for now ms g
    by (induction ms arbitrary: g) (auto intro: untouched_refl untouched_trans one)
  note all = untouched_trans [OF ensure_named_untouched this]
  show ?thesis
    by (cases rows) (simp_all add: generate_stable_challengers_def Let_def ensure_named_untouched all)
qed

lemma record_same_stream_untouched: "untouched g (record_same_stream_outcomes now signals counterfactuals g)"
proof -
  have "untouched (ensure_named_challengers now g) (record_same_stream_outcomes now signals counterfactuals g)"
    by (simp add: record_same_stream_outcomes_def Let_def untouched_def)
  with ensure_named_untouched show ?thesis by (rule untouched_trans)
qed

lemma record_exact_untouched:
  "record_exact_outcome now i s lane t x d ref g = Inr (g', b) \<Longrightarrow> untouched g g'"
  unfolding record_exact_outcome_def Let_def
  by (auto simp: untouched_def bind_result_Inr_iff split: if_splits option.splits)

lemma log_decision_untouched: "untouched g (log_decision ck d p a g)"
  by (simp add: log_decision_def untouched_def)

lemma set_status_plain: "challengers_plain rows \<Longrightarrow> challengers_plain (set_status i s rows)"
  by (auto simp: challengers_plain_def set_status_def)

lemma reset_epoch_plain: "challengers_plain rows \<Longrightarrow> challengers_plain (reset_epoch now rows)"
  by (auto simp: challengers_plain_def reset_epoch_def)

lemma plain_Nil: "plain []"
  by (simp add: plain_def keys_in_def)

lemma challenger_config_plain:
  assumes "challengers_plain (gv_challengers g)"
  shows "plain (challenger_config g i)"
proof (cases "find (\<lambda>r. ch_id r = i) (gv_challengers g)")
  case (Some r)
  with find_result [OF Some] assms show ?thesis by (simp add: challenger_config_def challengers_plain_def)
qed (simp add: challenger_config_def plain_Nil)

subsection \<open>Promotions, demotions and starts keep it\<close>

lemma visible_refs:
  "strip (''paired_forward_tournament:'' @ w) \<noteq> []" "strip (''posterior_probability:'' @ w) \<noteq> []"
  "strip (''posterior_lower_advantage:'' @ w) \<noteq> []" "strip (''exact_post_promotion_forward_episodes:'' @ w) \<noteq> []"
  "strip (''governance_history:'' @ w) \<noteq> []" "strip (''automatic_forward_promotion:'' @ w) \<noteq> []"
  "strip (''automatic_forward_demotion:'' @ w) \<noteq> []" "strip (''replay:'' @ w) \<noteq> []"
  by (rule strip_visible [OF _ colon_visible]; simp)+

text \<open>Applying a plain, non-empty configuration and appending its row keeps the invariant.\<close>

lemma applied_step:
  assumes ok: "governance_ok su base g" and changes: "plain changes" and rationale: "strip rationale \<noteq> []"
    and refs: "refs \<noteq> []" "\<forall>r\<in>set refs. strip r \<noteq> []"
  obtains es where "apply_changes (su_digest su) t1 t2 changes rationale refs (gv_evolution g) = (gv_evolution g @ es, Inr es)"
    and "evolution_ok (su_digest su) (gv_evolution g @ es)" and "es = [] \<longleftrightarrow> changes = []"
    and "same_lookups (ep_config (last (gv_evolution g @ es))) (config_after changes (replayed base (gv_history g)))"
proof -
  have ev: "evolution_ok (su_digest su) (gv_evolution g)"
    and same: "same_lookups (ep_config (last (gv_evolution g))) (replayed base (gv_history g))"
    using ok by (simp_all add: governance_ok_def)
  obtain es where es: "apply_changes (su_digest su) t1 t2 changes rationale refs (gv_evolution g) = (gv_evolution g @ es, Inr es)"
    "evolution_ok (su_digest su) (gv_evolution g @ es)" "es = [] \<longleftrightarrow> changes = []"
    "ep_config (last (gv_evolution g @ es)) = config_after changes (ep_config (last (gv_evolution g)))"
    using apply_changes_applied [OF ev _ rationale refs] changes unfolding plain_def by blast
  moreover have "same_lookups (ep_config (last (gv_evolution g @ es))) (config_after changes (replayed base (gv_history g)))"
    unfolding es(4) using changes same by (intro config_after_lookups) (simp_all add: plain_def)
  ultimately show thesis using that by blast
qed

lemma promote_challenger_ok:
  assumes ok: "governance_ok su base g" and stop: "\<forall>e. stop \<noteq> HistoryRaises e"
  shows "governance_ok su base (fst (promote_challenger su ck stop w d posterior g))"
proof -
  define changes where "changes = challenger_config g w"
  have plain: "plain changes" using ok by (simp add: changes_def challenger_config_plain governance_ok_def)
  define refs where "refs = [''paired_forward_tournament:'' @ w,
    ''posterior_probability:'' @ su_fixed6 su (ad_probability_positive posterior),
    ''posterior_lower_advantage:'' @ su_fixed8 su (ad_lower_90 posterior)]"
  define rationale where "rationale = ''automatic_forward_promotion:'' @ w @ '':ratio='' @ improvement_text (su_float_text su) (td_improvement_ratio d)"
  have vis: "strip rationale \<noteq> []" unfolding rationale_def by (rule visible_refs)
  have refs: "refs \<noteq> []" "\<forall>r\<in>set refs. strip r \<noteq> []"
    by (simp add: refs_def) (simp only: refs_def list.set ball_simps visible_refs simp_thms not_False_eq_True)
  obtain es where es: "apply_changes (su_digest su) (ck_epoch1 ck) (ck_epoch2 ck) changes rationale refs (gv_evolution g)
      = (gv_evolution g @ es, Inr es)" "evolution_ok (su_digest su) (gv_evolution g @ es)" "es = [] \<longleftrightarrow> changes = []"
    "same_lookups (ep_config (last (gv_evolution g @ es))) (config_after changes (replayed base (gv_history g)))"
    by (rule applied_step [OF ok plain vis refs])
  have same: "same_lookups (ep_config (current_epoch (gv_evolution g))) (replayed base (gv_history g))"
    using ok by (simp add: governance_ok_def current_epoch_def)
  show ?thesis
  proof (cases "es = []")
    case True
    then have "fst (promote_challenger su ck stop w d posterior g) = log_decision ck d posterior ''hold'' (g\<lparr>gv_evolution := gv_evolution g\<rparr>)"
      using es(1) unfolding promote_challenger_def Let_def changes_def [symmetric] refs_def [symmetric] rationale_def [symmetric]
      by simp
    with untouched_ok [OF ok log_decision_untouched] show ?thesis by simp
  next
    case False
    define row where "row = \<lparr>hi_action = ''promote'', hi_challenger_id = w, hi_observed_at = ck_history ck,
      hi_from_fingerprint = ep_fingerprint (current_epoch (gv_evolution g)),
      hi_to_fingerprint = ep_fingerprint (current_epoch (gv_evolution g @ es)),
      hi_changes = changes, hi_rollback = rollback_of (ep_config (current_epoch (gv_evolution g))) changes\<rparr>"
    have "fst (promote_challenger su ck stop w d posterior g) = log_decision ck d posterior ''promote''
        (g\<lparr>gv_evolution := gv_evolution g @ es, gv_history := gv_history g @ [row],
           gv_challengers := set_status w ''promoted'' (gv_challengers g),
           gv_events := gv_events g @ [(''v52_strategy_automatic_promotion'', w)]\<rparr>)"
      using es(1) False stop
      unfolding promote_challenger_def Let_def changes_def [symmetric] refs_def [symmetric] rationale_def [symmetric]
      by (cases stop) (simp_all add: row_def)
    moreover have "row_ok base (gv_history g) row"
      using plain False es(3) rollback_of_plain [OF plain] rollback_of_lookups [OF same]
      by (simp add: row_ok_def row_def)
    ultimately show ?thesis
      using ok es(2,4)
      by (simp add: governance_ok_def log_decision_def history_ok_append replayed_snoc set_status_plain)
        (simp add: row_def)
  qed
qed

lemma maybe_promote_ok:
  assumes ok: "governance_ok su base g" and stop: "\<forall>e. stop \<noteq> HistoryRaises e"
  shows "governance_ok su base (fst (maybe_promote su ck stop g))"
proof -
  define g1 where "g1 = ensure_named_challengers (ck_named ck) g"
  have ok1: "governance_ok su base g1"
    unfolding g1_def by (rule untouched_ok [OF ok ensure_named_untouched])
  note hold = untouched_ok [OF ok1 log_decision_untouched]
  note promote = promote_challenger_ok [OF ok1 stop]
  show ?thesis
    unfolding maybe_promote_def Let_def g1_def [symmetric]
    using ok1 hold promote by (auto split: sum.split prod.split option.split)
qed

lemma reset_untouched: "untouched g (g\<lparr>gv_challengers := reset_epoch now (gv_challengers g), gv_events := es\<rparr>)"
  by (simp add: untouched_def reset_epoch_plain)

lemma promote_with_fresh_epoch_ok:
  assumes "governance_ok su base g" and "\<forall>e. stop \<noteq> HistoryRaises e"
  shows "governance_ok su base (fst (promote_with_fresh_epoch su ck stop g))"
proof -
  obtain g1 r where g1: "maybe_promote su ck stop g = (g1, r)" by fastforce
  with maybe_promote_ok [OF assms, of ck] have ok: "governance_ok su base g1" by simp
  then show ?thesis
    unfolding promote_with_fresh_epoch_def g1
    using untouched_ok [OF ok reset_untouched] by (simp split: sum.split governance_action.split)
qed

lemma demote_once_ok:
  assumes ok: "governance_ok su base g" and stop: "\<forall>e. stop \<noteq> HistoryRaises e"
  shows "governance_ok su base (fst (demote_once su ck stop g))"
proof (cases "gv_history g = [] \<or> hi_action (last (gv_history g)) \<noteq> ''promote''")
  case True
  with ok show ?thesis by (simp add: demote_once_def)
next
  case False
  define promoted where "promoted = last (gv_history g)"
  have last: "gv_history g = butlast (gv_history g) @ [promoted]" using False by (simp add: promoted_def)
  have "history_ok base [] (butlast (gv_history g) @ [promoted])"
    using ok last by (simp add: governance_ok_def)
  then have "row_ok base (butlast (gv_history g)) promoted" by (simp add: history_ok_append)
  then have plain: "plain (hi_rollback promoted)" by (simp add: row_ok_def)
  define rows where "rows = paired_rows (hi_challenger_id promoted) (hi_observed_at promoted) (gv_outcomes g)"
  define posterior where "posterior = posterior_since (su_erf su) (hi_challenger_id promoted) (hi_observed_at promoted) (gv_outcomes g)"
  define ratio where "ratio = deterioration_ratio (mean_growth (map (\<lambda>(c, i). tn_net_return i) rows)) (mean_growth (map (\<lambda>(c, i). tn_net_return c) rows))"
  define refs where "refs = [''exact_post_promotion_forward_episodes:'' @ nat_text (length rows),
    ''posterior_probability:'' @ su_fixed6 su (ad_probability_positive posterior)]"
  define rationale where "rationale = ''automatic_forward_demotion:'' @ hi_challenger_id promoted @ '':ratio='' @ su_float_text su ratio"
  define sound where "sound \<longleftrightarrow> ratio \<ge> DEMOTION_RATIO \<and> ad_probability_positive posterior \<ge> 50/100"
  note defs = promoted_def [symmetric] rows_def [symmetric] posterior_def [symmetric] ratio_def [symmetric]
    refs_def [symmetric] rationale_def [symmetric] sound_def [symmetric]
  show ?thesis
  proof (cases "length rows < MIN_DEMOTION_EPISODES \<or> sound \<or> hi_rollback promoted = []")
    case True
    then have "fst (demote_once su ck stop g) = g"
      unfolding demote_once_def Let_def defs by auto
    with ok show ?thesis by simp
  next
    case go: False
    have vis: "strip rationale \<noteq> []" unfolding rationale_def by (rule visible_refs)
    have refs: "refs \<noteq> []" "\<forall>r\<in>set refs. strip r \<noteq> []"
      by (simp add: refs_def) (simp only: refs_def list.set ball_simps visible_refs simp_thms not_False_eq_True)
    obtain es where es: "apply_changes (su_digest su) (ck_epoch1 ck) (ck_epoch2 ck) (hi_rollback promoted) rationale refs (gv_evolution g)
        = (gv_evolution g @ es, Inr es)" "evolution_ok (su_digest su) (gv_evolution g @ es)" "es = [] \<longleftrightarrow> hi_rollback promoted = []"
      "same_lookups (ep_config (last (gv_evolution g @ es))) (config_after (hi_rollback promoted) (replayed base (gv_history g)))"
      by (rule applied_step [OF ok plain vis refs])
    define row where "row = \<lparr>hi_action = ''demote'', hi_challenger_id = hi_challenger_id promoted, hi_observed_at = ck_reset ck,
      hi_from_fingerprint = ep_fingerprint (current_epoch (gv_evolution g)),
      hi_to_fingerprint = ep_fingerprint (current_epoch (gv_evolution g @ es)),
      hi_changes = hi_rollback promoted, hi_rollback = []\<rparr>"
    have "fst (demote_once su ck stop g) =
        g\<lparr>gv_evolution := gv_evolution g @ es, gv_history := gv_history g @ [row],
          gv_challengers := reset_epoch (ck_reset ck) (set_status (hi_challenger_id promoted) ''demoted'' (gv_challengers g)),
          gv_events := gv_events g @ [(''v52_strategy_automatic_demotion'', hi_challenger_id promoted)]\<rparr>"
      using es(1,3) go False stop unfolding demote_once_def Let_def defs
      by (cases stop) (simp_all add: row_def)
    moreover have "row_ok base (gv_history g) row"
      using plain go False plain_Nil by (simp add: row_ok_def row_def promoted_def)
    ultimately show ?thesis
      using ok es(2,4)
      by (simp add: governance_ok_def history_ok_append replayed_snoc set_status_plain reset_epoch_plain)
        (simp add: row_def)
  qed
qed

lemma governance_tick_ok:
  assumes ok: "governance_ok su base g" and stop: "\<forall>e. stop \<noteq> HistoryRaises e"
  shows "governance_ok su base (fst (governance_tick su ck stop signals counterfactuals g))"
proof -
  define g2 where "g2 = record_same_stream_outcomes (ck_named ck) signals counterfactuals (generate_stable_challengers su ck counterfactuals g)"
  have "governance_ok su base g2"
    unfolding g2_def by (intro untouched_ok [OF ok] untouched_trans [OF generate_untouched record_same_stream_untouched])
  from demote_once_ok [OF this stop, of ck] obtain g3 r where g3: "demote_once su ck stop g2 = (g3, r)" "governance_ok su base g3"
    by (cases "demote_once su ck stop g2") simp
  with promote_with_fresh_epoch_ok [OF g3(2) stop, of ck] show ?thesis
    unfolding governance_tick_def Let_def g2_def [symmetric] g3(1)
    by (simp split: sum.split governance_action.split)
qed

lemma replay_rows_ok:
  assumes "evolution_ok digest ev" and "same_lookups (ep_config (last ev)) (replayed base pre)" and "history_ok base pre hs"
  shows "\<exists>ev'. replay_rows digest now i hs ev = (ev', Inr ()) \<and> evolution_ok digest ev'
    \<and> same_lookups (ep_config (last ev')) (replayed base (pre @ hs))"
  using assms
proof (induction hs arbitrary: pre i ev)
  case (Cons h hs)
  have row: "row_ok base pre h" and hs: "history_ok base (pre @ [h]) hs" using Cons.prems(3) by simp_all
  define rationale where "rationale = ''replay:'' @ hi_action h @ '':'' @ hi_challenger_id h"
  define refs where "refs = [''governance_history:'' @ nat_text i]"
  have vis: "strip rationale \<noteq> []" unfolding rationale_def by (rule visible_refs)
  have refs: "refs \<noteq> []" "\<forall>r\<in>set refs. strip r \<noteq> []"
    by (simp add: refs_def) (simp only: refs_def list.set ball_simps visible_refs simp_thms not_False_eq_True)
  have plain: "dict_ok (hi_changes h)" "keys_in IMMUTABLE_AUTHORITY_KEYS (hi_changes h) = []" "hi_changes h \<noteq> []"
    using row by (simp_all add: row_ok_def plain_def)
  obtain es where es: "apply_changes digest now now (hi_changes h) rationale refs ev = (ev @ es, Inr es)"
    "evolution_ok digest (ev @ es)" "ep_config (last (ev @ es)) = config_after (hi_changes h) (ep_config (last ev))"
    using apply_changes_applied [OF Cons.prems(1) plain(1) vis refs plain(2)] by blast
  have "same_lookups (ep_config (last (ev @ es))) (replayed base (pre @ [h]))"
    unfolding es(3) replayed_snoc using plain(1) Cons.prems(2) by (rule config_after_lookups)
  from Cons.IH [OF es(2) this hs, of "Suc i"] show ?case
    using plain(3) es(1) by (simp add: rationale_def refs_def)
qed simp

subsection \<open>Runs\<close>

definition start_config :: "config \<Rightarrow> config" where
  "start_config baseline = update_config baseline (update_config CURRENT_PROTECTED_STRATEGY DEFAULT_AUTHORITY_BOUNDARY)"

lemma install_governance_ok:
  assumes "dict_ok baseline" and auth: "assert_authority (start_config baseline) = Inr ()"
    and hist: "history_ok (start_config baseline) [] (gv_history g)" and plain: "challengers_plain (gv_challengers g)"
  shows "\<exists>g'. install_governance su now baseline version g = (g', Inr ())
    \<and> governance_ok su (start_config baseline) g' \<and> gv_history g' = gv_history g"
proof -
  obtain ev where ev: "new_evolution (su_digest su) now baseline version = Inr ev" "ep_config (last ev) = start_config baseline"
    "ep_sequence (last ev) = 1"
    using auth by (simp add: new_evolution_def append_epoch_def start_config_def [symmetric] Let_def)
  define g1 where "g1 = ensure_named_challengers now (g\<lparr>gv_evolution := ev\<rparr>)"
  have g1: "gv_history g1 = gv_history g" "gv_evolution g1 = ev" "challengers_plain (gv_challengers g1)"
    using plain ensure_named_untouched [of "g\<lparr>gv_evolution := ev\<rparr>" now] by (simp_all add: g1_def untouched_def)
  have "same_lookups (ep_config (last ev)) (replayed (start_config baseline) [])"
    by (simp add: same_lookups_def ev(2) replayed_def)
  from replay_rows_ok [OF new_evolution_ok [OF assms(1) ev(1)] this hist, of now 1] obtain ev'
    where ev': "replay_rows (su_digest su) now 1 (gv_history g) ev = (ev', Inr ())" "evolution_ok (su_digest su) ev'"
      "same_lookups (ep_config (last ev')) (replayed (start_config baseline) (gv_history g))" by auto
  have "install_governance su now baseline version g = (g1\<lparr>gv_evolution := ev'\<rparr>, Inr ())"
    using ev ev'(1) g1(1,2)
    by (simp add: install_governance_def g1_def [symmetric] replay_governance_history_def current_epoch_def)
  with ev'(2,3) g1 hist auth show ?thesis by (simp add: governance_ok_def)
qed

datatype governance_event =
    Tick clock_readings stop_point "signal_row list option" "counterfactual_row list option"
  | Exact string string string string string py_number py_number string
  | Start string

text \<open>The history is only lost when its transaction raises after the epochs were appended.\<close>

fun history_written :: "governance_event \<Rightarrow> bool" where
  "history_written (Tick ck stop signals counterfactuals) = (case stop of HistoryRaises e \<Rightarrow> False | _ \<Rightarrow> True)"
| "history_written (Exact now i s lane t x d ref) = True"
| "history_written (Start now) = True"

fun governance_step ::
  "surroundings \<Rightarrow> config \<Rightarrow> string \<Rightarrow> governance \<Rightarrow> governance_event \<Rightarrow> governance \<times> governance_action result list" where
  "governance_step su baseline version g (Tick ck stop signals counterfactuals) =
     (let (g', r) = governance_tick su ck stop signals counterfactuals g in (g', [r]))"
| "governance_step su baseline version g (Exact now i s lane t x d ref) =
     (case record_exact_outcome now i s lane t x d ref g of Inl e \<Rightarrow> (g, [Inl e]) | Inr (g', b) \<Rightarrow> (g', []))"
| "governance_step su baseline version g (Start now) =
     (case install_governance su now baseline version g of (g', Inl e) \<Rightarrow> (g', [Inl e]) | (g', Inr _) \<Rightarrow> (g', []))"

interpretation governance_machine: invariant_machine "governance_step su baseline version" history_written
    "\<lambda>g. dict_ok baseline \<and> governance_ok su (start_config baseline) g" for su baseline version
proof unfold_locales
  fix g e
  assume inv: "dict_ok baseline \<and> governance_ok su (start_config baseline) g" and e: "history_written e"
  have "governance_ok su (start_config baseline) (fst (governance_step su baseline version g e))"
  proof (cases e)
    case (Tick ck stop signals counterfactuals)
    with e have "\<forall>e. stop \<noteq> HistoryRaises e" by auto
    from governance_tick_ok [OF _ this, of su "start_config baseline" g ck signals counterfactuals] inv Tick
    show ?thesis by (simp add: split_beta)
  next
    case (Exact now i s lane t x d ref)
    with inv record_exact_untouched [of now i s lane t x d ref g] show ?thesis
      by (auto intro: untouched_ok split: sum.split)
  next
    case (Start now)
    have "assert_authority (start_config baseline) = Inr ()" "history_ok (start_config baseline) [] (gv_history g)"
      "challengers_plain (gv_challengers g)" using inv by (simp_all add: governance_ok_def)
    with install_governance_ok [of baseline g su now version] inv Start show ?thesis by auto
  qed
  with inv show "dict_ok baseline \<and> governance_ok su (start_config baseline) (fst (governance_step su baseline version g e))"
    by blast
qed

lemma first_install_ok:
  assumes "dict_ok baseline" and "install_governance su now baseline version empty_governance = (g0, Inr ())"
  shows "governance_ok su (start_config baseline) g0"
proof -
  have "assert_authority (start_config baseline) = Inr ()"
    using assms(2) by (auto simp: install_governance_def new_evolution_def start_config_def Let_def bind_result_def split: sum.splits)
  with install_governance_ok [OF assms(1), of empty_governance su now version] assms(2) show ?thesis
    by (auto simp: empty_governance_def challengers_plain_def)
qed

text \<open>C18. A restart loses no promotion and no demotion. After any run of ticks, exact outcomes and starts in which the history
  was written, also one that is cut off before the reset of the forward epoch, a start succeeds, leaves the history
  alone, and the replayed epochs end in a configuration that reads the same under every key and has the
  same fingerprint as the one before.\<close>

theorem restart_replays_configuration:
  assumes "dict_ok baseline" and "install_governance su now baseline version empty_governance = (g0, Inr ())"
    and "list_all history_written events" and g: "g = fst (run_machine (governance_step su baseline version) g0 events)"
    and restart: "install_governance su later baseline version g = (g', r)"
  shows "r = Inr () \<and> gv_history g' = gv_history g
    \<and> (\<forall>k. dict_get (ep_config (current_epoch (gv_evolution g'))) k = dict_get (ep_config (current_epoch (gv_evolution g))) k)
    \<and> ep_fingerprint (current_epoch (gv_evolution g')) = ep_fingerprint (current_epoch (gv_evolution g))"
proof -
  have ok: "governance_ok su (start_config baseline) g"
    unfolding g using governance_machine.run_inv [of baseline su g0 events version] first_install_ok [OF assms(1,2)] assms(1,3)
    by blast
  then have facts: "assert_authority (start_config baseline) = Inr ()" "history_ok (start_config baseline) [] (gv_history g)"
    "challengers_plain (gv_challengers g)" by (simp_all add: governance_ok_def)
  from install_governance_ok [OF assms(1) facts, of su later version] restart
  have r: "r = Inr ()" and ok': "governance_ok su (start_config baseline) g'" and hist: "gv_history g' = gv_history g" by auto
  have same: "same_lookups (ep_config (current_epoch (gv_evolution g'))) (ep_config (current_epoch (gv_evolution g)))"
    using ok ok' hist by (simp add: governance_ok_def same_lookups_def current_epoch_def)
  have "epoch_ok (su_digest su) (current_epoch (gv_evolution g'))" "epoch_ok (su_digest su) (current_epoch (gv_evolution g))"
    using ok ok' by (auto simp: governance_ok_def evolution_ok_def list_all_iff current_epoch_def)
  with sorted_config_unique [OF same] same r hist show ?thesis
    by (simp add: epoch_ok_def config_fingerprint_def same_lookups_def)
qed

definition plain_surroundings :: surroundings where
  "plain_surroundings = \<lparr>su_digest = (\<lambda>c. ''digest''), su_hash12 = (\<lambda>s. ''hash''), su_float_text = (\<lambda>x. ''x''),
     su_fixed6 = (\<lambda>x. ''x''), su_fixed8 = (\<lambda>x. ''x''), su_erf = (\<lambda>x. if 0 < x then 1 else -1)\<rparr>"

lemma bare_start: "assert_authority (start_config []) = Inr ()"
  by (simp add: start_config_def update_config_def CURRENT_PROTECTED_STRATEGY_def DEFAULT_AUTHORITY_BOUNDARY_def
      assert_authority_def py_equal_def)

theorem restart_replays_configuration_witness:
  "\<exists>g0 g'. install_governance plain_surroundings ''t0'' [] ''v'' empty_governance = (g0, Inr ())
     \<and> install_governance plain_surroundings ''t2'' [] ''v''
         (fst (run_machine (governance_step plain_surroundings [] ''v'') g0 [Start ''t1''])) = (g', Inr ())"
proof -
  obtain g0 where g0: "install_governance plain_surroundings ''t0'' [] ''v'' empty_governance = (g0, Inr ())"
    using install_governance_ok [of "[]" empty_governance plain_surroundings "''t0''" "''v''"] bare_start
    by (auto simp: empty_governance_def challengers_plain_def)
  obtain g' r where g': "install_governance plain_surroundings ''t2'' [] ''v''
      (fst (run_machine (governance_step plain_surroundings [] ''v'') g0 [Start ''t1''])) = (g', r)" by fastforce
  from restart_replays_configuration [OF dict_ok_Nil g0 _ refl g'] g0 g' show ?thesis by auto
qed

subsection \<open>A demotion undoes a promotion\<close>

lemma history_row_ok: "history_ok base [] (pre @ h # post) \<Longrightarrow> row_ok base pre h"
  by (simp add: history_ok_append)

lemma rolled_back:
  assumes "plain changes"
  shows "dict_get (config_after (rollback_of before changes) (config_after changes before)) k =
    (if dict_get changes k \<noteq> None \<and> dict_get before k = None then Some Null else dict_get before k)"
proof -
  have "dict_ok (rollback_of before changes)" "dict_ok changes" using assms by (simp_all add: rollback_of_keys plain_def)
  then show ?thesis by (simp add: config_after_get rollback_of_get split: option.split)
qed

text \<open>C19. A demotion undoes exactly the promotion before it. In every state that a consistent one can reach
  with its history written, the configuration in force is the history replayed over the baseline; each demotion in the
  history directly follows a promotion of the same challenger, and after it every key has the value it had before that
  promotion (a key the configuration did not have is left as null). So a promotion is demoted at most
  once, and the promotions before it stay.\<close>

theorem demotion_undoes_its_promotion:
  assumes "dict_ok baseline" and "governance_ok su (start_config baseline) g0" and "list_all history_written events"
    and g: "g = fst (run_machine (governance_step su baseline version) g0 events)"
    and hist: "gv_history g = pre @ d # post" and demote: "hi_action d = ''demote''"
  shows "(\<forall>k. dict_get (ep_config (current_epoch (gv_evolution g))) k = dict_get (replayed (start_config baseline) (gv_history g)) k)
    \<and> (\<exists>before p. pre = before @ [p] \<and> hi_action p = ''promote'' \<and> hi_challenger_id p = hi_challenger_id d
        \<and> (\<forall>k. dict_get (replayed (start_config baseline) (pre @ [d])) k =
              (if dict_get (hi_changes p) k \<noteq> None \<and> dict_get (replayed (start_config baseline) before) k = None then Some Null
               else dict_get (replayed (start_config baseline) before) k)))"
proof -
  define base where "base = start_config baseline"
  have ok: "governance_ok su base g"
    unfolding g base_def using governance_machine.run_inv [of baseline su g0 events version] assms(1-3) by blast
  then have hok: "history_ok base [] (pre @ d # post)" using hist by (simp add: governance_ok_def)
  then have "row_ok base pre d" by (rule history_row_ok)
  then have d: "pre \<noteq> []" "hi_action (last pre) = ''promote''" "hi_challenger_id d = hi_challenger_id (last pre)"
    "hi_changes d = hi_rollback (last pre)"
    using demote by (auto simp: row_ok_def)
  define before where "before = butlast pre"
  define p where "p = last pre"
  have pre: "pre = before @ [p]" using d(1) by (simp add: before_def p_def)
  have "row_ok base before p"
    using hok history_row_ok [of base before p "d # post"] by (simp add: pre)
  then have p: "plain (hi_changes p)" "hi_rollback p = rollback_of (replayed base before) (hi_changes p)"
    using d(2) by (auto simp: row_ok_def p_def)
  have "replayed base (pre @ [d]) = config_after (rollback_of (replayed base before) (hi_changes p))
      (config_after (hi_changes p) (replayed base before))"
    unfolding pre using d(4) p(2) by (simp add: replayed_def p_def [symmetric])
  with rolled_back [OF p(1)] have "\<forall>k. dict_get (replayed base (pre @ [d])) k =
      (if dict_get (hi_changes p) k \<noteq> None \<and> dict_get (replayed base before) k = None then Some Null
       else dict_get (replayed base before) k)" by simp
  moreover have "\<forall>k. dict_get (ep_config (current_epoch (gv_evolution g))) k = dict_get (replayed base (gv_history g)) k"
    using ok by (simp add: governance_ok_def same_lookups_def current_epoch_def)
  ultimately show ?thesis
    unfolding base_def [symmetric] using pre d(2) d(3) [symmetric] unfolding p_def [symmetric] by blast
qed

definition demo_promotion :: history_row where
  "demo_promotion = \<lparr>hi_action = ''promote'', hi_challenger_id = ''chase_optimization'', hi_observed_at = ''t1'',
     hi_from_fingerprint = ''f'', hi_to_fingerprint = ''g'', hi_changes = [(''chase_observe_only_fraction'', Float (45/100))],
     hi_rollback = [(''chase_observe_only_fraction'', Float (40/100))]\<rparr>"

definition demo_demotion :: history_row where
  "demo_demotion = \<lparr>hi_action = ''demote'', hi_challenger_id = ''chase_optimization'', hi_observed_at = ''t2'',
     hi_from_fingerprint = ''g'', hi_to_fingerprint = ''f'', hi_changes = [(''chase_observe_only_fraction'', Float (40/100))],
     hi_rollback = []\<rparr>"

lemma demo_history_ok: "history_ok (start_config []) [] [demo_promotion, demo_demotion]"
  by (simp add: row_ok_def demo_promotion_def demo_demotion_def plain_def dict_ok_def keys_in_empty IMMUTABLE_AUTHORITY_KEYS_def
      rollback_of_def replayed_def start_config_def update_config_def CURRENT_PROTECTED_STRATEGY_def DEFAULT_AUTHORITY_BOUNDARY_def)

theorem demotion_undoes_its_promotion_witness:
  "\<exists>g. install_governance plain_surroundings ''t3'' [] ''v''
       (empty_governance\<lparr>gv_history := [demo_promotion, demo_demotion]\<rparr>) = (g, Inr ())
     \<and> gv_history g = [demo_promotion, demo_demotion]
     \<and> dict_get (ep_config (current_epoch (gv_evolution g))) ''chase_observe_only_fraction'' = Some (Float (40/100))"
proof -
  define tables where "tables = empty_governance\<lparr>gv_history := [demo_promotion, demo_demotion]\<rparr>"
  obtain g where g: "install_governance plain_surroundings ''t3'' [] ''v'' tables = (g, Inr ())"
    and ok: "governance_ok plain_surroundings (start_config []) g" and hist: "gv_history g = [demo_promotion, demo_demotion]"
    using install_governance_ok [of "[]" tables plain_surroundings "''t3''" "''v''"] bare_start demo_history_ok
    by (auto simp: tables_def empty_governance_def challengers_plain_def)
  have "hi_action demo_demotion = ''demote''" by (simp add: demo_demotion_def)
  from demotion_undoes_its_promotion [OF dict_ok_Nil ok _ _ _ this, of "[]" g "''v''" "[demo_promotion]" "[]"] hist
  have facts: "dict_get (ep_config (current_epoch (gv_evolution g))) k = dict_get (replayed (start_config []) [demo_promotion, demo_demotion]) k"
    "dict_get (replayed (start_config []) [demo_promotion, demo_demotion]) k =
       (if dict_get (hi_changes demo_promotion) k \<noteq> None \<and> dict_get (replayed (start_config []) []) k = None then Some Null
        else dict_get (replayed (start_config []) []) k)" for k by auto
  have "dict_get (replayed (start_config []) []) ''chase_observe_only_fraction'' = Some (Float (40/100))"
    by (simp add: replayed_def start_config_def update_config_def CURRENT_PROTECTED_STRATEGY_def DEFAULT_AUTHORITY_BOUNDARY_def)
  with facts [of "''chase_observe_only_fraction''"] g hist show ?thesis unfolding tables_def [symmetric] by auto
qed

end
