(* ===== verification/GovernanceEvidence.thy ===== *)
theory GovernanceEvidence
  imports GovernanceRuns
begin

text \<open>
  The evidence behind a promotion. A completed outcome of a challenger is always the copy of a row of
  exact evidence, and a tournament that names an eligible winner has seen nothing but completed
  challenger outcomes of its epoch.
\<close>

subsection \<open>Completed outcomes are backed\<close>

definition exact_key :: "exact_row \<Rightarrow> string \<times> string" where
  "exact_key e = (xe_challenger_id e, xe_stream_id e)"

definition backs :: "exact_row \<Rightarrow> tournament_row \<Rightarrow> bool" where
  "backs e r \<longleftrightarrow> exact_key e = row_key r \<and> xe_lane e = tn_lane r \<and> xe_observed_at e = tn_observed_at r
     \<and> xe_net_return e = tn_net_return r \<and> xe_drawdown e = tn_drawdown r \<and> xe_evidence_ref e \<noteq> []"

definition backed :: "governance \<Rightarrow> bool" where
  "backed g \<longleftrightarrow> distinct (map row_key (gv_outcomes g)) \<and> distinct (map exact_key (gv_exact g))
     \<and> (\<forall>r\<in>set (gv_outcomes g). tn_challenger_id r \<noteq> INCUMBENT_ID \<longrightarrow> tn_execution_complete r \<longrightarrow>
          (\<exists>e\<in>set (gv_exact g). backs e r))"

definition same_tables :: "governance \<Rightarrow> governance \<Rightarrow> bool" where
  "same_tables g g' \<longleftrightarrow> gv_outcomes g' = gv_outcomes g \<and> gv_exact g' = gv_exact g"

lemma same_tables_backed: "same_tables g g' \<Longrightarrow> backed g \<Longrightarrow> backed g'"
  by (simp add: same_tables_def backed_def)

lemma same_tables_trans: "same_tables g g' \<Longrightarrow> same_tables g' g'' \<Longrightarrow> same_tables g g''"
  by (simp add: same_tables_def)

lemma same_tables_refl: "same_tables g g"
  by (simp add: same_tables_def)

lemma ensure_named_tables: "same_tables g (ensure_named_challengers now g)"
  by (simp add: ensure_named_challengers_def same_tables_def)

lemma generate_tables: "same_tables g (generate_stable_challengers su ck rows g)"
proof -
  have one: "same_tables g (generate_challenger su now m g)" for now m g
    by (simp add: generate_challenger_def Let_def same_tables_def split: option.split)
  have "same_tables g (fold (generate_challenger su now) ms g)" for now ms g
    by (induction ms arbitrary: g) (auto intro: same_tables_refl same_tables_trans one)
  note all = same_tables_trans [OF ensure_named_tables this]
  show ?thesis
    by (cases rows) (simp_all add: generate_stable_challengers_def Let_def ensure_named_tables all)
qed

lemma promote_challenger_tables: "same_tables g (fst (promote_challenger su ck stop w d posterior g))"
  by (simp add: promote_challenger_def Let_def log_decision_def same_tables_def split: prod.split sum.split stop_point.split)

lemma maybe_promote_tables: "same_tables g (fst (maybe_promote su ck stop g))"
proof -
  have "same_tables (ensure_named_challengers (ck_named ck) g) (fst (maybe_promote su ck stop g))"
    unfolding maybe_promote_def Let_def
    by (simp add: log_decision_def same_tables_def [of _ "log_decision _ _ _ _ _"] same_tables_refl promote_challenger_tables
        split: sum.split prod.split option.split) (simp add: same_tables_def)
  with ensure_named_tables show ?thesis by (rule same_tables_trans)
qed

lemma promote_fresh_tables: "same_tables g (fst (promote_with_fresh_epoch su ck stop g))"
proof -
  obtain g1 r where g1: "maybe_promote su ck stop g = (g1, r)" by fastforce
  then have "same_tables g g1" using maybe_promote_tables [of g su ck stop] by simp
  then show ?thesis
    unfolding promote_with_fresh_epoch_def g1 by (simp add: same_tables_def split: sum.split governance_action.split)
qed

lemma demote_tables: "same_tables g (fst (demote_once su ck stop g))"
  by (simp add: demote_once_def Let_def same_tables_def split: prod.split sum.split stop_point.split)

lemma install_tables: "same_tables g (fst (install_governance su now baseline version g))"
  using ensure_named_tables
  by (simp add: install_governance_def replay_governance_history_def same_tables_def ensure_named_challengers_def Let_def
      split: sum.split prod.split)

lemma insert_outcome_backed:
  assumes "backed g" and "tn_challenger_id r \<noteq> INCUMBENT_ID \<Longrightarrow> \<not> tn_execution_complete r"
  shows "backed (g\<lparr>gv_outcomes := insert_outcome r (gv_outcomes g)\<rparr>)"
  using assms by (auto simp: backed_def insert_outcome_def)

lemma policy_row_incomplete: "tn_challenger_id (policy_row s p) \<noteq> INCUMBENT_ID \<Longrightarrow> \<not> tn_execution_complete (policy_row s p)"
  by (cases p) (auto simp: policy_row_def strict_policy_stream_return_def Let_def split: if_splits prod.splits)

lemma record_same_stream_backed:
  assumes "backed g"
  shows "backed (record_same_stream_outcomes now signals counterfactuals g)"
proof -
  have inner: "backed (g\<lparr>gv_outcomes := fold (\<lambda>p. insert_outcome (policy_row s p)) ps (gv_outcomes g)\<rparr>)"
    if "backed g" for g s ps
    using that
  proof (induction ps arbitrary: g)
    case (Cons p ps)
    have "backed (g\<lparr>gv_outcomes := insert_outcome (policy_row s p) (gv_outcomes g)\<rparr>)"
      by (rule insert_outcome_backed [OF Cons.prems policy_row_incomplete])
    from Cons.IH [OF this] show ?case by simp
  qed simp
  have outer: "backed (g\<lparr>gv_outcomes := fold (\<lambda>s. fold (\<lambda>p. insert_outcome (policy_row s p)) ps) ss (gv_outcomes g)\<rparr>)"
    if "backed g" for g ss ps
    using that
  proof (induction ss arbitrary: g)
    case (Cons s ss)
    from Cons.IH [OF inner [OF Cons.prems, of s ps]] show ?case by simp
  qed simp
  have "backed (ensure_named_challengers now g)" by (rule same_tables_backed [OF ensure_named_tables assms])
  with outer [OF this] show ?thesis
    unfolding record_same_stream_outcomes_def Let_def
    by (cases "active_challengers (ensure_named_challengers now g) = []") (simp_all only: if_True if_False simp_thms)
qed

lemma upsert_outcome_set:
  "set (upsert_outcome r rows) = insert r {q \<in> set rows. row_key q \<noteq> row_key r}"
proof (cases "row_key r \<in> row_key ` set rows")
  case True
  then obtain q where "q \<in> set rows" "row_key q = row_key r" by auto
  with True show ?thesis by (auto simp: upsert_outcome_def image_def)
next
  case False
  then have "q \<in> set rows \<Longrightarrow> row_key q \<noteq> row_key r" for q by (metis image_eqI)
  with False show ?thesis by (auto simp: upsert_outcome_def)
qed

lemma upsert_outcome_keys: "distinct (map row_key rows) \<Longrightarrow> distinct (map row_key (upsert_outcome r rows))"
proof (cases "row_key r \<in> row_key ` set rows")
  case True
  then have "map row_key (upsert_outcome r rows) = map row_key rows" by (auto simp: upsert_outcome_def)
  then show "distinct (map row_key rows) \<Longrightarrow> ?thesis" by simp
qed (simp add: upsert_outcome_def)

lemma record_exact_result:
  assumes "record_exact_outcome now i s lane t x d ref g = Inr (g', b)"
  shows "g' = g \<or> (i \<noteq> INCUMBENT_ID \<and> ref \<noteq> [] \<and> (i, s) \<notin> exact_key ` set (gv_exact g)
    \<and> gv_exact g' = gv_exact g @ [\<lparr>xe_challenger_id = i, xe_stream_id = s, xe_lane = lane, xe_observed_at = t,
        xe_net_return = finite_value x, xe_drawdown = finite_value d, xe_evidence_ref = ref, xe_recorded_at = now\<rparr>]
    \<and> gv_outcomes g' = upsert_outcome \<lparr>tn_challenger_id = i, tn_stream_id = s, tn_lane = lane, tn_observed_at = t,
        tn_net_return = finite_value x, tn_drawdown = finite_value d, tn_execution_complete = True, tn_same_stream = True,
        tn_prospective = True\<rparr> (gv_outcomes g))"
proof (cases "find (\<lambda>e. xe_challenger_id e = i \<and> xe_stream_id e = s) (gv_exact g)")
  case None
  then have "(i, s) \<notin> exact_key ` set (gv_exact g)" by (auto simp: find_None_iff exact_key_def)
  with None assms show ?thesis
    unfolding record_exact_outcome_def Let_def
    by (auto simp: bind_result_Inr_iff split: if_splits option.splits)
next
  case (Some prior)
  with assms show ?thesis
    unfolding record_exact_outcome_def Let_def
    by (auto simp: bind_result_Inr_iff split: if_splits option.splits)
qed

lemma record_exact_backed:
  assumes "backed g" and "record_exact_outcome now i s lane t x d ref g = Inr (g', b)"
  shows "backed g'"
  using record_exact_result [OF assms(2)]
proof (elim disjE conjE)
  assume ref: "ref \<noteq> []" and fresh: "(i, s) \<notin> exact_key ` set (gv_exact g)"
    and exact: "gv_exact g' = gv_exact g @ [\<lparr>xe_challenger_id = i, xe_stream_id = s, xe_lane = lane, xe_observed_at = t,
        xe_net_return = finite_value x, xe_drawdown = finite_value d, xe_evidence_ref = ref, xe_recorded_at = now\<rparr>]"
    and outcomes: "gv_outcomes g' = upsert_outcome \<lparr>tn_challenger_id = i, tn_stream_id = s, tn_lane = lane, tn_observed_at = t,
        tn_net_return = finite_value x, tn_drawdown = finite_value d, tn_execution_complete = True, tn_same_stream = True,
        tn_prospective = True\<rparr> (gv_outcomes g)"
  have "distinct (map row_key (gv_outcomes g'))" "distinct (map exact_key (gv_exact g'))"
    using assms(1) fresh by (simp_all add: backed_def outcomes exact upsert_outcome_keys exact_key_def)
  moreover have "\<exists>e\<in>set (gv_exact g'). backs e r"
    if "r \<in> set (gv_outcomes g')" "tn_challenger_id r \<noteq> INCUMBENT_ID" "tn_execution_complete r" for r
    using that assms(1) ref
    unfolding outcomes exact upsert_outcome_set by (fastforce simp: backed_def backs_def exact_key_def row_key_def)
  ultimately show ?thesis by (simp add: backed_def)
qed (use assms(1) in simp)

lemma governance_step_backed: "backed g \<Longrightarrow> backed (fst (governance_step su baseline version g e))"
proof (cases e)
  case (Tick ck stop signals counterfactuals)
  assume "backed g"
  define g2 where "g2 = record_same_stream_outcomes (ck_named ck) signals counterfactuals (generate_stable_challengers su ck counterfactuals g)"
  have "backed g2"
    unfolding g2_def by (intro record_same_stream_backed same_tables_backed [OF generate_tables \<open>backed g\<close>])
  obtain g3 r where g3: "demote_once su ck stop g2 = (g3, r)" by fastforce
  with demote_tables [of g2 su ck stop] \<open>backed g2\<close> have "backed g3" by (auto intro: same_tables_backed)
  with same_tables_backed [OF promote_fresh_tables] have "backed (fst (governance_tick su ck stop signals counterfactuals g))"
    unfolding governance_tick_def Let_def g2_def [symmetric] g3 by (simp split: sum.split governance_action.split)
  with Tick show ?thesis by (simp add: split_beta)
next
  case (Exact now i s lane t x d ref)
  assume "backed g"
  with Exact record_exact_backed show ?thesis by (auto split: sum.split)
next
  case (Start now)
  assume "backed g"
  with same_tables_backed [OF install_tables, of g su now baseline version] Start show ?thesis
    by (cases "install_governance su now baseline version g") (simp split: sum.split)
qed

interpretation evidence_machine: invariant_machine "governance_step su baseline version" "\<lambda>e. True" backed for su baseline version
  by unfold_locales (simp add: governance_step_backed)

lemma empty_backed: "backed empty_governance"
  by (simp add: backed_def empty_governance_def)

subsection \<open>What a promotion rests on\<close>

lemma record_rows_result:
  "record_rows rows t = Inr t' \<Longrightarrow> to_outcomes t' = to_outcomes t @ map outcome_of_row rows
     \<and> to_min_paired_episodes t' = to_min_paired_episodes t \<and> to_min_improvement_ratio t' = to_min_improvement_ratio t"
  by (induction rows arbitrary: t) (auto simp: bind_result_Inr_iff record_outcome_def)

lemma fromkeys_empty: "fromkeys xs = [] \<longleftrightarrow> xs = []"
  by (metis set_fromkeys set_empty)

lemma eligible_tournament:
  assumes "evaluate_fresh_tournament su g = Inr (d, posterior)" and "td_winner d = Some w" and "td_eligible d"
  obtains t where "record_rows (epoch_rows g) (new_tournament MIN_FORWARD_EPISODES MIN_IMPROVEMENT_RATIO) = Inr t"
    and "d = compare_policies t INCUMBENT_ID (map ch_id (active_challengers g))"
    and "posterior = posterior_since (su_erf su) w (common_start (active_challengers g)) (gv_outcomes g)"
    and "\<forall>r\<in>set (epoch_rows g). tn_challenger_id r \<noteq> INCUMBENT_ID \<longrightarrow> tn_execution_complete r"
    and "winner_blockers d posterior = []"
proof -
  let ?active = "active_challengers g"
  have "?active \<noteq> []" using assms by (auto simp: evaluate_fresh_tournament_def no_winner_def Let_def)
  with assms(1) obtain t where t: "record_rows (epoch_rows g) (new_tournament MIN_FORWARD_EPISODES MIN_IMPROVEMENT_RATIO) = Inr t"
    by (auto simp: evaluate_fresh_tournament_def Let_def bind_result_Inr_iff)
  define d0 where "d0 = compare_policies t INCUMBENT_ID (map ch_id ?active)"
  define p0 where "p0 = (case td_winner d0 of None \<Rightarrow> no_advantage
    | Some w \<Rightarrow> posterior_since (su_erf su) w (common_start ?active) (gv_outcomes g))"
  define incomplete where "incomplete \<longleftrightarrow> (\<exists>r\<in>set (epoch_rows g). tn_challenger_id r \<noteq> INCUMBENT_ID \<and> \<not> tn_execution_complete r)"
  define blockers where "blockers = td_blockers d0
    @ (if incomplete then [''challenger_execution_completion_is_not_exact''] else []) @ winner_blockers d0 p0"
  have "evaluate_fresh_tournament su g = Inr (if blockers = [] then d0 else d0\<lparr>td_eligible := False, td_blockers := fromkeys blockers\<rparr>, p0)"
    unfolding evaluate_fresh_tournament_def t bind_result_simps Let_def
    unfolding d0_def [symmetric] unfolding p0_def [symmetric] incomplete_def [symmetric]
    unfolding blockers_def [symmetric] append_assoc using \<open>?active \<noteq> []\<close> by (simp add: blockers_def)
  with assms(1) have "(d, posterior) = (if blockers = [] then d0 else d0\<lparr>td_eligible := False, td_blockers := fromkeys blockers\<rparr>, p0)"
    by simp
  with assms(3) have "blockers = []" "d = d0" "posterior = p0" by (auto split: if_splits)
  with that [OF t] assms(2) show thesis by (auto simp: d0_def p0_def blockers_def incomplete_def split: if_splits)
qed

lemma promoted_decision:
  assumes "promote_with_fresh_epoch su ck stop g = (g', Inr (Promoted w))"
  shows "\<exists>d posterior. evaluate_fresh_tournament su (ensure_named_challengers (ck_named ck) g) = Inr (d, posterior)
    \<and> td_winner d = Some w \<and> td_eligible d"
proof -
  obtain g1 where "maybe_promote su ck stop g = (g1, Inr (Promoted w))"
    using assms by (auto simp: promote_with_fresh_epoch_def split: prod.splits sum.splits governance_action.splits if_splits)
  then show ?thesis
    by (auto simp: maybe_promote_def Let_def promote_challenger_def
        split: sum.splits option.splits if_splits prod.splits stop_point.splits)
qed

lemma epoch_rows_member:
  "r \<in> set (epoch_rows g) \<Longrightarrow> r \<in> set (gv_outcomes g) \<and> common_start (active_challengers g) \<le> tn_observed_at r"
  by (simp add: epoch_rows_def Let_def)

lemma winner_blockers_empty:
  assumes "winner_blockers d posterior = []" and "td_winner d = Some w"
  shows "POSTERIOR_PROMOTION_PROBABILITY \<le> ad_probability_positive posterior" and "0 < ad_lower_90 posterior"
    and "MIN_FORWARD_EPISODES \<le> int (ad_episodes posterior)"
  using assms by (auto simp: winner_blockers_def Let_def not_less not_le split: if_splits)

text \<open>One outcome of a total loss stops every evaluation of its epoch: it can be recorded for the incumbent, whose
  return is not clamped, and the tournament refuses it.\<close>

lemma total_loss_recorded:
  "tn_net_return (policy_row \<lparr>gs_stream_id = ''s'', gs_lane = ''lane'', gs_observed_at = ''t1'', gs_net_return = -1, gs_drawdown = 1,
     gs_position_fraction = 1, gs_chase_fraction = 0, gs_entered = True, gs_reason = []\<rparr> (INCUMBENT_ID, INCUMBENT_ID)) = -1"
  by (simp add: policy_row_def strict_policy_stream_return_def Let_def)

lemma total_loss_stops_evaluation:
  assumes "r \<in> set (epoch_rows g)" and "tn_net_return r \<le> -1" and "active_challengers g \<noteq> []"
  shows "\<exists>e. evaluate_fresh_tournament su g = Inl e"
proof -
  have "r \<in> set rows \<Longrightarrow> \<exists>e. record_rows rows t = Inl e" for rows t
  proof (induction rows arbitrary: t)
    case (Cons q rows)
    then show ?case
      using assms(2) by (cases "record_outcome (outcome_of_row q) t")
        (auto simp: record_outcome_def outcome_of_row_def check_net_return_def split: if_splits)
  qed simp
  from this [OF assms(1)] obtain e
    where "record_rows (epoch_rows g) (new_tournament MIN_FORWARD_EPISODES MIN_IMPROVEMENT_RATIO) = Inl e" by blast
  with assms(3) show ?thesis by (simp add: evaluate_fresh_tournament_def Let_def)
qed

end
