(* ===== verification/PromotionLane.thy ===== *)
theory PromotionLane
  imports GovernanceEvidence
begin

text \<open>
  A concrete lane for the promotion theorems: thirty streams, two active challengers with exact evidence
  on each, and returns that do not change from stream to stream.
\<close>

subsection \<open>One promotion, three endings\<close>

lemma promote_challenger_endings:
  assumes ok: "governance_ok su base g" and changes: "challenger_config g w \<noteq> []"
  obtains es row where "es \<noteq> []" and "evolution_ok (su_digest su) (gv_evolution g @ es)"
    and "\<forall>e. promote_challenger su ck (HistoryRaises e) w d posterior g =
      (g\<lparr>gv_evolution := gv_evolution g @ es\<rparr>, Inl (OperationalError e))"
    and "\<forall>stop. (\<forall>e. stop \<noteq> HistoryRaises e) \<longrightarrow> promote_challenger su ck stop w d posterior g =
      (log_decision ck d posterior ''promote''
        (g\<lparr>gv_evolution := gv_evolution g @ es, gv_history := gv_history g @ [row],
           gv_challengers := set_status w ''promoted'' (gv_challengers g),
           gv_events := gv_events g @ [(''v52_strategy_automatic_promotion'', w)]\<rparr>), Inr (Promoted w))"
proof -
  define config where "config = challenger_config g w"
  have plain: "plain config" using ok by (simp add: config_def challenger_config_plain governance_ok_def)
  define refs where "refs = [''paired_forward_tournament:'' @ w,
    ''posterior_probability:'' @ su_fixed6 su (ad_probability_positive posterior),
    ''posterior_lower_advantage:'' @ su_fixed8 su (ad_lower_90 posterior)]"
  define rationale where "rationale = ''automatic_forward_promotion:'' @ w @ '':ratio='' @ improvement_text (su_float_text su) (td_improvement_ratio d)"
  have vis: "strip rationale \<noteq> []" unfolding rationale_def by (rule visible_refs)
  have refs: "refs \<noteq> []" "\<forall>r\<in>set refs. strip r \<noteq> []"
    by (simp add: refs_def) (simp only: refs_def list.set ball_simps visible_refs simp_thms not_False_eq_True)
  obtain es where es: "apply_changes (su_digest su) (ck_epoch1 ck) (ck_epoch2 ck) config rationale refs (gv_evolution g)
      = (gv_evolution g @ es, Inr es)" "evolution_ok (su_digest su) (gv_evolution g @ es)" "es = [] \<longleftrightarrow> config = []"
    by (rule applied_step [OF ok plain vis refs])
  have ne: "es \<noteq> []" using es(3) changes by (simp add: config_def)
  define row where "row = \<lparr>hi_action = ''promote'', hi_challenger_id = w, hi_observed_at = ck_history ck,
    hi_from_fingerprint = ep_fingerprint (current_epoch (gv_evolution g)),
    hi_to_fingerprint = ep_fingerprint (current_epoch (gv_evolution g @ es)),
    hi_changes = config, hi_rollback = rollback_of (ep_config (current_epoch (gv_evolution g))) config\<rparr>"
  note call = promote_challenger_def Let_def config_def [symmetric] refs_def [symmetric] rationale_def [symmetric]
  have "promote_challenger su ck (HistoryRaises e) w d posterior g =
      (g\<lparr>gv_evolution := gv_evolution g @ es\<rparr>, Inl (OperationalError e))" for e
    unfolding call using es(1) ne by simp
  moreover have "promote_challenger su ck stop w d posterior g =
      (log_decision ck d posterior ''promote''
        (g\<lparr>gv_evolution := gv_evolution g @ es, gv_history := gv_history g @ [row],
           gv_challengers := set_status w ''promoted'' (gv_challengers g),
           gv_events := gv_events g @ [(''v52_strategy_automatic_promotion'', w)]\<rparr>), Inr (Promoted w))"
    if "\<forall>e. stop \<noteq> HistoryRaises e" for stop
    unfolding call using es(1) ne that by (cases stop) (simp_all add: row_def)
  ultimately show thesis using that [OF ne es(2)] by blast
qed

lemma promoted_call:
  assumes "evaluate_fresh_tournament su (ensure_named_challengers (ck_named ck) g) = Inr (d, posterior)"
    and "td_winner d = Some w" and "td_eligible d" and "w \<noteq> []"
  shows "maybe_promote su ck stop g = promote_challenger su ck stop w d posterior (ensure_named_challengers (ck_named ck) g)"
  using assms by (simp add: maybe_promote_def Let_def)

subsection \<open>Constant returns\<close>

definition lane_row :: "string \<Rightarrow> real \<Rightarrow> string \<Rightarrow> tournament_row" where
  "lane_row p x s =
     \<lparr>tn_challenger_id = p, tn_stream_id = s, tn_lane = ''lane'', tn_observed_at = ''t1'', tn_net_return = x, tn_drawdown = 0,
      tn_execution_complete = True, tn_same_stream = True, tn_prospective = True\<rparr>"

lemma lane_row_simps [simp]:
  "tn_challenger_id (lane_row p x s) = p" "tn_stream_id (lane_row p x s) = s" "tn_lane (lane_row p x s) = ''lane''"
  "tn_observed_at (lane_row p x s) = ''t1''" "tn_net_return (lane_row p x s) = x" "tn_drawdown (lane_row p x s) = 0"
  "tn_execution_complete (lane_row p x s)" "tn_same_stream (lane_row p x s)" "tn_prospective (lane_row p x s)"
  by (simp_all add: lane_row_def)

lemma record_rows_valid:
  "\<forall>r\<in>set rows. -1 < tn_net_return r \<Longrightarrow>
     record_rows rows t = Inr (t\<lparr>to_outcomes := to_outcomes t @ map outcome_of_row rows\<rparr>)"
  by (induction rows arbitrary: t) (auto simp: record_outcome_def outcome_of_row_def check_net_return_def)

lemma by_policy_append: "by_policy p (xs @ ys) d = by_policy p ys (by_policy p xs d)"
  by (induction p xs d rule: by_policy.induct) auto

lemma by_policy_other: "\<forall>u\<in>set xs. pu_policy_id u \<noteq> p \<Longrightarrow> by_policy p xs d = d"
  by (induction p xs d rule: by_policy.induct) auto

lemma by_policy_own:
  "distinct ss \<Longrightarrow> \<forall>s\<in>set ss. dict_get d s = None \<Longrightarrow>
     by_policy p (map (\<lambda>s. outcome_of_row (lane_row p x s)) ss) d = d @ map (\<lambda>s. (s, outcome_of_row (lane_row p x s))) ss"
proof (induction ss arbitrary: d)
  case (Cons s ss)
  have set: "dict_set s v d = d @ [(s, v)]" for v using Cons.prems by (simp add: dict_set_fresh)
  have "\<forall>s'\<in>set ss. dict_get (d @ [(s, v)]) s' = None" for v
    using Cons.prems by (auto simp: dict_get_eq_None)
  with Cons.IH [of "d @ [(s, outcome_of_row (lane_row p x s))]"] Cons.prems show ?case
    by (simp add: outcome_of_row_def [of "lane_row p x s"] set [symmetric])
qed simp

lemma map_of_streams: "s \<in> set ss \<Longrightarrow> dict_get (map (\<lambda>s. (s, f s)) ss) s = Some (f s)"
  by (induction ss) auto

lemma sum_list_map_constant: "sum_list (map (\<lambda>_. c) xs) = real (length xs) * c"
  by (induction xs) (auto simp: algebra_simps)

lemma fold_max_zero: "fold max (map (\<lambda>_. 0 :: real) xs) 0 = 0"
  by (induction xs) auto

lemma score_constant:
  assumes "ss \<noteq> []" and "-1 < x"
  shows "score_policy p (map (\<lambda>s. outcome_of_row (lane_row p x s)) ss) =
    \<lparr>pc_policy_id = p, pc_episodes = length ss, pc_geometric_growth = x, pc_mean_return = x, pc_max_drawdown = 0,
     pc_execution_completion_rate = 1, pc_score = x\<rparr>"
proof -
  have "filter pu_execution_complete (map (\<lambda>s. outcome_of_row (lane_row p x s)) ss) = map (\<lambda>s. outcome_of_row (lane_row p x s)) ss"
    by (simp add: filter_id_conv outcome_of_row_def)
  with assms show ?thesis
    by (simp add: score_policy_def Let_def comp_def sum_list_map_constant fold_max_zero outcome_of_row_def)
qed

subsection \<open>The lane\<close>

definition lane_streams :: "string list" where
  "lane_streams = map (\<lambda>n. replicate (Suc n) CHR ''s'') [0..<30]"

lemma lane_streams: "distinct lane_streams" "length lane_streams = 30"
proof -
  have "inj_on (\<lambda>n. replicate (Suc n) CHR ''s'') A" for A
    by (rule inj_onI) (metis length_replicate nat.inject)
  then show "distinct lane_streams" by (simp add: lane_streams_def distinct_map)
qed (simp add: lane_streams_def)

definition lane_outcomes :: "tournament_row list" where
  "lane_outcomes = map (lane_row INCUMBENT_ID (1/100)) lane_streams
     @ map (lane_row ''concentration'' (6/10)) lane_streams @ map (lane_row ''exit_capture'' (2/100)) lane_streams"

definition lane_proof :: "string \<Rightarrow> real \<Rightarrow> string \<Rightarrow> exact_row" where
  "lane_proof p x s =
     \<lparr>xe_challenger_id = p, xe_stream_id = s, xe_lane = ''lane'', xe_observed_at = ''t1'', xe_net_return = x, xe_drawdown = 0,
      xe_evidence_ref = ''fill'', xe_recorded_at = ''t1''\<rparr>"

definition lane_challenger :: "string \<Rightarrow> string \<Rightarrow> challenger_row" where
  "lane_challenger i status =
     \<lparr>ch_id = i, ch_family = i, ch_trigger_reason = ''canonical_named_forward_tournament'',
      ch_config = the (dict_get FIXED_CHALLENGERS i), ch_created_at = ''t0'', ch_status = status\<rparr>"

definition lane_tables :: governance where
  "lane_tables = empty_governance
     \<lparr>gv_challengers := [lane_challenger ''aggressive_sizing'' ''demoted'', lane_challenger ''aggressive_continuation'' ''demoted'',
        lane_challenger ''exit_capture'' ''active'', lane_challenger ''wallet_acceleration'' ''demoted'',
        lane_challenger ''chase_optimization'' ''demoted'', lane_challenger ''concentration'' ''active''],
      gv_outcomes := lane_outcomes,
      gv_exact := map (lane_proof ''concentration'' (6/10)) lane_streams @ map (lane_proof ''exit_capture'' (2/100)) lane_streams\<rparr>"

lemma lane_ids: "INCUMBENT_ID \<noteq> ''concentration''" "INCUMBENT_ID \<noteq> ''exit_capture''"
  by (simp_all add: INCUMBENT_ID_def)

definition lane_tournament :: tournament where
  "lane_tournament = (new_tournament MIN_FORWARD_EPISODES MIN_IMPROVEMENT_RATIO)\<lparr>to_outcomes := map outcome_of_row lane_outcomes\<rparr>"

lemma lane_by_policy:
  "by_policy INCUMBENT_ID (map outcome_of_row lane_outcomes) [] = map (\<lambda>s. (s, outcome_of_row (lane_row INCUMBENT_ID (1/100) s))) lane_streams"
  "by_policy ''concentration'' (map outcome_of_row lane_outcomes) [] = map (\<lambda>s. (s, outcome_of_row (lane_row ''concentration'' (6/10) s))) lane_streams"
  "by_policy ''exit_capture'' (map outcome_of_row lane_outcomes) [] = map (\<lambda>s. (s, outcome_of_row (lane_row ''exit_capture'' (2/100) s))) lane_streams"
proof -
  have other: "by_policy p (map (\<lambda>s. outcome_of_row (lane_row q x s)) lane_streams) d = d" if "q \<noteq> p" for p q x d
    using that by (intro by_policy_other) (simp add: outcome_of_row_def)
  have own: "by_policy p (map (\<lambda>s. outcome_of_row (lane_row p x s)) lane_streams) []
      = map (\<lambda>s. (s, outcome_of_row (lane_row p x s))) lane_streams" for p x
    using by_policy_own [OF lane_streams(1), of "[]" p x] by simp
  have rows: "map outcome_of_row lane_outcomes = map (\<lambda>s. outcome_of_row (lane_row INCUMBENT_ID (1/100) s)) lane_streams
      @ map (\<lambda>s. outcome_of_row (lane_row ''concentration'' (6/10) s)) lane_streams
      @ map (\<lambda>s. outcome_of_row (lane_row ''exit_capture'' (2/100) s)) lane_streams"
    by (simp add: lane_outcomes_def)
  note ids = lane_ids lane_ids [symmetric]
  show "by_policy INCUMBENT_ID (map outcome_of_row lane_outcomes) [] = map (\<lambda>s. (s, outcome_of_row (lane_row INCUMBENT_ID (1/100) s))) lane_streams"
    unfolding rows by_policy_append own by (simp add: other ids)
  show "by_policy ''concentration'' (map outcome_of_row lane_outcomes) [] = map (\<lambda>s. (s, outcome_of_row (lane_row ''concentration'' (6/10) s))) lane_streams"
    unfolding rows by_policy_append by (simp add: other own ids)
  show "by_policy ''exit_capture'' (map outcome_of_row lane_outcomes) [] = map (\<lambda>s. (s, outcome_of_row (lane_row ''exit_capture'' (2/100) s))) lane_streams"
    unfolding rows by_policy_append by (simp add: other own ids)
qed

lemma lane_shared: "shared_streams INCUMBENT_ID [''concentration'', ''exit_capture''] (to_outcomes lane_tournament) = sort lane_streams"
proof -
  have "filter (\<lambda>s. \<forall>p\<in>set [''concentration'', ''exit_capture'']. dict_get (by_policy p (map outcome_of_row lane_outcomes) []) s \<noteq> None)
      lane_streams = lane_streams"
    by (rule filter_True) (simp add: lane_by_policy map_of_streams)
  then show ?thesis
    by (simp add: shared_streams_def lane_tournament_def lane_by_policy(1) comp_def)
qed

definition lane_score :: "string \<Rightarrow> real \<Rightarrow> policy_score" where
  "lane_score p x = \<lparr>pc_policy_id = p, pc_episodes = 30, pc_geometric_growth = x, pc_mean_return = x, pc_max_drawdown = 0,
     pc_execution_completion_rate = 1, pc_score = x\<rparr>"

lemma lane_scores:
  "policy_scores lane_tournament (sort lane_streams) [INCUMBENT_ID, ''concentration'', ''exit_capture''] =
     [lane_score INCUMBENT_ID (1/100), lane_score ''concentration'' (6/10), lane_score ''exit_capture'' (2/100)]"
proof -
  have ne: "sort lane_streams \<noteq> []" using lane_streams(2) by (metis length_sort list.size(3) zero_neq_numeral)
  have one: "score_policy p (map (\<lambda>s. the (dict_get (map (\<lambda>s. (s, outcome_of_row (lane_row p x s))) lane_streams) s)) (sort lane_streams))
      = lane_score p x" if "-1 < x" for p x
  proof -
    have rows: "map (\<lambda>s. the (dict_get (map (\<lambda>s. (s, outcome_of_row (lane_row p x s))) lane_streams) s)) (sort lane_streams)
        = map (\<lambda>s. outcome_of_row (lane_row p x s)) (sort lane_streams)"
      by (rule map_cong [OF refl]) (simp add: map_of_streams)
    show ?thesis unfolding rows using score_constant [OF ne that, of p] by (simp add: lane_score_def lane_streams(2))
  qed
  show ?thesis
    using ne by (simp add: policy_scores_def lane_tournament_def lane_by_policy one)
qed

lemma lane_decision:
  "compare_policies lane_tournament INCUMBENT_ID [''concentration'', ''exit_capture''] =
     \<lparr>td_winner = Some ''concentration'', td_incumbent = INCUMBENT_ID, td_eligible = True, td_improvement_ratio = Ratio 60,
      td_blockers = [], td_scores = [lane_score INCUMBENT_ID (1/100), lane_score ''concentration'' (6/10), lane_score ''exit_capture'' (2/100)]\<rparr>"
proof -
  have params: "to_min_paired_episodes lane_tournament = 30" "to_min_improvement_ratio lane_tournament = 105/100"
    by (simp_all add: lane_tournament_def new_tournament_def MIN_FORWARD_EPISODES_def MIN_IMPROVEMENT_RATIO_def)
  show ?thesis
    unfolding compare_policies_def lane_shared lane_scores Let_def
    using lane_ids by (simp add: params lane_streams(2) lane_score_def improvement_over_def)
qed

subsection \<open>Its posterior\<close>

lemma lane_outcomes_True: "\<forall>r\<in>set lane_outcomes. counted_row ''t0'' r"
  by (auto simp: lane_outcomes_def counted_row_def)

lemma filter_stream: "distinct ss \<Longrightarrow> s \<in> set ss \<Longrightarrow> filter (\<lambda>r. tn_stream_id r = s) (map (lane_row p x) ss) = [lane_row p x s]"
  by (induction ss) (auto simp: filter_empty_conv)

lemma lane_paired:
  "paired_rows ''concentration'' ''t0'' lane_outcomes =
     map (\<lambda>s. (lane_row ''concentration'' (6/10) s, lane_row INCUMBENT_ID (1/100) s)) lane_streams"
proof -
  have counted: "counted_row ''t0'' (lane_row p x s)" for p x s by (simp add: counted_row_def)
  have one: "filter (\<lambda>w. tn_challenger_id w = ''concentration'' \<and> counted_row ''t0'' w) lane_outcomes
      = map (lane_row ''concentration'' (6/10)) lane_streams"
    using lane_ids by (simp add: lane_outcomes_def filter_map comp_def counted)
  have inc: "filter (\<lambda>i. tn_challenger_id i = INCUMBENT_ID \<and> tn_stream_id i = s \<and> counted_row ''t0'' i) lane_outcomes
      = [lane_row INCUMBENT_ID (1/100) s]" if "s \<in> set lane_streams" for s
  proof -
    have "filter (\<lambda>i. tn_challenger_id i = INCUMBENT_ID \<and> tn_stream_id i = s \<and> counted_row ''t0'' i) lane_outcomes
      = filter (\<lambda>i. tn_stream_id i = s) (map (lane_row INCUMBENT_ID (1/100)) lane_streams)"
      using lane_ids by (simp add: lane_outcomes_def filter_map comp_def counted)
    then show ?thesis using filter_stream [OF lane_streams(1) that] by simp
  qed
  have "paired_rows ''concentration'' ''t0'' lane_outcomes =
      concat (map (\<lambda>s. [(lane_row ''concentration'' (6/10) s, lane_row INCUMBENT_ID (1/100) s)]) lane_streams)"
    unfolding paired_rows_def one map_map comp_def
    by (intro arg_cong [of _ _ concat] map_cong refl) (simp add: inc)
  then show ?thesis by (simp add: concat_map_singleton)
qed

definition lane_posterior :: advantage where
  "lane_posterior = posterior_since (su_erf plain_surroundings) ''concentration'' ''t0'' lane_outcomes"

lemma lane_advantage:
  "ad_episodes lane_posterior = 30" "1/10 \<le> ad_lower_90 lane_posterior" "ad_probability_positive lane_posterior = 1"
proof -
  have gaps: "map (\<lambda>(w, i). tn_net_return w - tn_net_return i) (paired_rows ''concentration'' ''t0'' lane_outcomes)
      = map (\<lambda>_. 59/100) lane_streams"
    by (simp add: lane_paired)
  have "variance_of (map (\<lambda>_. 59/100) lane_streams) = 0"
    by (simp add: variance_of_def sum_list_map_constant lane_streams(2) comp_def)
  moreover have "lane_streams \<noteq> []" using lane_streams(2) by auto
  ultimately have p: "lane_posterior =
      (let m = 30 * (59/100) / 38; se = sqrt (max (1 / 10 ^ 12) ((0 + 1/100) / 38)) in
       \<lparr>ad_episodes = 30, ad_mean = m, ad_lower_90 = m - 1645/1000 * se,
        ad_probability_positive = 5/10 * (1 + su_erf plain_surroundings (m / se / sqrt 2))\<rparr>)"
    unfolding lane_posterior_def posterior_since_def gaps advantage_of_def by (simp add: Let_def lane_streams(2) sum_list_map_constant)
  define se where "se = sqrt (max (1 / 10 ^ 12) ((0 + 1/100) / 38) :: real)"
  have se: "se = sqrt (1/3800)" by (simp add: se_def)
  have "sqrt (1/3800) \<le> (1/10 :: real)" by (rule real_le_lsqrt) (simp_all add: power2_eq_square)
  then have "se \<le> 1/10" by (simp only: se)
  moreover have "0 < se" by (simp add: se)
  ultimately show "ad_episodes lane_posterior = 30" "1/10 \<le> ad_lower_90 lane_posterior" "ad_probability_positive lane_posterior = 1"
    unfolding p Let_def se_def [symmetric] by (simp_all add: plain_surroundings_def)
qed

subsection \<open>The promotion happens\<close>

lemma lane_named: "ensure_named_challengers now lane_tables = lane_tables"
  by (simp add: ensure_named_challengers_def FIXED_CHALLENGERS_def insert_challenger_def lane_tables_def lane_challenger_def)

lemma install_challengers:
  "install_governance su now baseline version g = (g', Inr ()) \<Longrightarrow>
     gv_challengers g' = gv_challengers (ensure_named_challengers now g)"
  by (auto simp: install_governance_def replay_governance_history_def ensure_named_challengers_def Let_def
      split: sum.splits prod.splits if_splits)

definition lane_state :: "governance \<Rightarrow> bool" where
  "lane_state g \<longleftrightarrow> governance_ok plain_surroundings (start_config []) g \<and> backed g
     \<and> gv_challengers g = gv_challengers lane_tables \<and> gv_outcomes g = lane_outcomes"

lemma lane_backed: "backed lane_tables"
proof -
  have inj: "inj_on (\<lambda>s. (p, s)) A" for p :: string and A :: "string set" by (rule inj_onI) simp
  have keys: "distinct (map (\<lambda>s. (p, s)) lane_streams)" for p :: string
    using lane_streams(1) by (simp add: distinct_map inj)
  have "distinct (map row_key lane_outcomes)"
    using keys lane_ids by (auto simp: lane_outcomes_def row_key_def comp_def)
  moreover have "distinct (map exact_key (gv_exact lane_tables))"
    using keys by (auto simp: lane_tables_def exact_key_def lane_proof_def comp_def)
  moreover have "backs (lane_proof p x s) (lane_row p x s)" for p x s
    by (simp add: backs_def exact_key_def row_key_def lane_proof_def)
  then have "\<forall>r\<in>set lane_outcomes. tn_challenger_id r \<noteq> INCUMBENT_ID \<longrightarrow> (\<exists>e\<in>set (gv_exact lane_tables). backs e r)"
    by (auto simp: lane_outcomes_def lane_tables_def)
  ultimately show ?thesis by (simp add: backed_def lane_tables_def)
qed

lemma lane_exists: "\<exists>g. lane_state g"
proof -
  have fixed: "dict_get FIXED_CHALLENGERS i = Some c \<Longrightarrow> plain c" for i c
    using fixed_plain dict_get_in [of FIXED_CHALLENGERS i c] by (auto simp: list_all_iff)
  have known: "i \<in> {''aggressive_sizing'', ''aggressive_continuation'', ''exit_capture'', ''wallet_acceleration'',
      ''chase_optimization'', ''concentration''} \<Longrightarrow> \<exists>c. dict_get FIXED_CHALLENGERS i = Some c" for i
    by (auto simp: FIXED_CHALLENGERS_def)
  have "plain (ch_config (lane_challenger i s))" if "i \<in> {''aggressive_sizing'', ''aggressive_continuation'', ''exit_capture'',
      ''wallet_acceleration'', ''chase_optimization'', ''concentration''}" for i s
    using known [OF that] fixed by (auto simp: lane_challenger_def)
  then have "challengers_plain (gv_challengers lane_tables)"
    by (simp add: challengers_plain_def lane_tables_def)
  moreover have "history_ok (start_config []) [] (gv_history lane_tables)" by (simp add: lane_tables_def empty_governance_def)
  ultimately obtain g where g: "install_governance plain_surroundings ''t1'' [] ''v'' lane_tables = (g, Inr ())"
    "governance_ok plain_surroundings (start_config []) g"
    using install_governance_ok [OF dict_ok_Nil bare_start, of lane_tables plain_surroundings "''t1''" "''v''"] by blast
  have tables: "same_tables lane_tables g"
    using install_tables [of lane_tables plain_surroundings "''t1''" "[]" "''v''"] g(1) by simp
  have "gv_challengers g = gv_challengers lane_tables" using install_challengers [OF g(1)] by (simp add: lane_named)
  moreover have "gv_outcomes g = lane_outcomes" using tables by (simp add: same_tables_def lane_tables_def)
  ultimately show ?thesis
    using g(2) same_tables_backed [OF tables lane_backed] by (auto simp: lane_state_def)
qed

lemma lane_active:
  assumes "gv_challengers g = gv_challengers lane_tables"
  shows "active_challengers g = [lane_challenger ''concentration'' ''active'', lane_challenger ''exit_capture'' ''active'']"
  by (simp add: active_challengers_def assms lane_tables_def lane_challenger_def)

lemma lane_ensured: "lane_state g \<Longrightarrow> ensure_named_challengers now g = g"
  by (simp add: lane_state_def ensure_named_challengers_def FIXED_CHALLENGERS_def insert_challenger_def lane_tables_def lane_challenger_def)

lemma lane_epoch_rows:
  assumes "lane_state g"
  shows "epoch_rows g = lane_outcomes" and "common_start (active_challengers g) = ''t0''"
    and "map ch_id (active_challengers g) = [''concentration'', ''exit_capture'']"
proof -
  have active: "active_challengers g = [lane_challenger ''concentration'' ''active'', lane_challenger ''exit_capture'' ''active'']"
    using assms by (intro lane_active) (simp add: lane_state_def)
  then show start: "common_start (active_challengers g) = ''t0''"
    and ids: "map ch_id (active_challengers g) = [''concentration'', ''exit_capture'']"
    by (simp_all add: common_start_def lane_challenger_def)
  have members: "ch_id ` set (active_challengers g) = {''concentration'', ''exit_capture''}"
    by (simp add: active lane_challenger_def)
  have "\<forall>r\<in>set lane_outcomes. ''t0'' \<le> tn_observed_at r \<and> tn_same_stream r \<and> tn_prospective r
      \<and> (tn_challenger_id r = INCUMBENT_ID \<or> tn_challenger_id r \<in> {''concentration'', ''exit_capture''})"
    by (auto simp: lane_outcomes_def)
  then show "epoch_rows g = lane_outcomes"
    using assms by (simp add: epoch_rows_def Let_def start members lane_state_def filter_id_conv)
qed

lemma lane_evaluates:
  assumes "lane_state g"
  shows "evaluate_fresh_tournament plain_surroundings g =
    Inr (compare_policies lane_tournament INCUMBENT_ID [''concentration'', ''exit_capture''], lane_posterior)"
proof -
  have rows: "record_rows (epoch_rows g) (new_tournament MIN_FORWARD_EPISODES MIN_IMPROVEMENT_RATIO) = Inr lane_tournament"
  proof -
    have "\<forall>r\<in>set lane_outcomes. -1 < tn_net_return r" by (auto simp: lane_outcomes_def)
    from record_rows_valid [OF this] show ?thesis
      unfolding lane_epoch_rows(1) [OF assms] by (simp add: lane_tournament_def new_tournament_def)
  qed
  have complete: "\<forall>r\<in>set (epoch_rows g). tn_execution_complete r"
    unfolding lane_epoch_rows(1) [OF assms] by (auto simp: lane_outcomes_def)
  define d where "d = compare_policies lane_tournament INCUMBENT_ID [''concentration'', ''exit_capture'']"
  have d: "td_winner d = Some ''concentration''" "td_blockers d = []"
    "td_scores d = [lane_score INCUMBENT_ID (1/100), lane_score ''concentration'' (6/10), lane_score ''exit_capture'' (2/100)]"
    by (simp_all add: d_def lane_decision)
  have "find (\<lambda>c. pc_policy_id c = ''concentration'') (td_scores d) = Some (lane_score ''concentration'' (6/10))"
    using lane_ids by (simp add: d(3) lane_score_def)
  then have blockers: "winner_blockers d lane_posterior = []"
    using lane_advantage by (simp add: winner_blockers_def d(1) lane_score_def MAX_PROMOTION_DRAWDOWN_def MIN_FORWARD_EPISODES_def
        POSTERIOR_PROMOTION_PROBABILITY_def)
  have "active_challengers g \<noteq> []" using lane_epoch_rows(3) [OF assms] by auto
  moreover have "gv_outcomes g = lane_outcomes" using assms by (simp add: lane_state_def)
  ultimately show ?thesis
    unfolding evaluate_fresh_tournament_def rows bind_result_simps Let_def lane_epoch_rows(2,3) [OF assms] d_def [symmetric]
    using complete blockers by (simp add: d lane_posterior_def)
qed

lemma lane_promotes:
  assumes "lane_state g" and stop: "\<forall>e. stop \<noteq> HistoryRaises e"
  shows "\<exists>g'. promote_with_fresh_epoch plain_surroundings ck stop g = (g', Inr (Promoted ''concentration''))
    \<and> (stop = ResetMissed \<longrightarrow> gv_challengers g' = set_status ''concentration'' ''promoted'' (gv_challengers lane_tables))"
proof -
  have ok: "governance_ok plain_surroundings (start_config []) g" and ch: "gv_challengers g = gv_challengers lane_tables"
    using assms(1) by (simp_all add: lane_state_def)
  have config: "challenger_config g ''concentration'' \<noteq> []"
    by (simp add: challenger_config_def ch lane_tables_def lane_challenger_def FIXED_CHALLENGERS_def)
  define d where "d = compare_policies lane_tournament INCUMBENT_ID [''concentration'', ''exit_capture'']"
  have call: "maybe_promote plain_surroundings ck stop g = promote_challenger plain_surroundings ck stop ''concentration'' d lane_posterior g"
    using promoted_call [of plain_surroundings ck g d lane_posterior "''concentration''"] lane_evaluates [OF assms(1)]
      lane_ensured [OF assms(1)]
    by (simp add: d_def lane_decision)
  obtain es row where "\<forall>stop. (\<forall>e. stop \<noteq> HistoryRaises e) \<longrightarrow> promote_challenger plain_surroundings ck stop ''concentration'' d lane_posterior g =
      (log_decision ck d lane_posterior ''promote''
        (g\<lparr>gv_evolution := gv_evolution g @ es, gv_history := gv_history g @ [row],
           gv_challengers := set_status ''concentration'' ''promoted'' (gv_challengers g),
           gv_events := gv_events g @ [(''v52_strategy_automatic_promotion'', ''concentration'')]\<rparr>), Inr (Promoted ''concentration''))"
    by (rule promote_challenger_endings [OF ok config, where ck = ck and d = d and posterior = lane_posterior])
  with stop show ?thesis by (simp add: promote_with_fresh_epoch_def call log_decision_def ch)
qed

end
