(* ===== verification/Promotions.thy ===== *)
theory Promotions
  imports PromotionLane
begin

text \<open>
  What a promotion rests on, and what it leaves behind when it is cut off half way: before its history row is written, or
  before the forward epoch is reset. A lane of thirty streams with two active challengers serves as the
  concrete case.
\<close>

subsection \<open>Evidence\<close>

text \<open>C20. A promotion rests on exact, fresh and paired evidence. After any ticks, exact outcomes, starts and exceptions
  from a state whose completed challenger outcomes are backed, as the empty one is, a challenger is promoted only if at
  least thirty distinct streams have both an outcome of the incumbent and exact evidence of this challenger, all
  observed since the newest active challenger was created or the epoch reset; every outcome of every
  active challenger in that time is complete, and the posterior probability of an advantage is at least 0.95 with a
  positive lower bound. Estimates alone never promote.\<close>

theorem promotion_rests_on_exact_evidence:
  assumes "backed g0" and g: "g = fst (run_machine (governance_step su baseline version) g0 events)"
    and promoted: "promote_with_fresh_epoch su ck stop g = (g', Inr (Promoted w))"
  shows "let g1 = ensure_named_challengers (ck_named ck) g; start = common_start (active_challengers g1) in
    w \<in> ch_id ` set (active_challengers g1)
    \<and> (\<exists>shared. distinct shared \<and> 30 \<le> length shared \<and>
        (\<forall>s\<in>set shared.
          (\<exists>e\<in>set (gv_exact g). xe_challenger_id e = w \<and> xe_stream_id e = s \<and> start \<le> xe_observed_at e) \<and>
          (\<exists>i\<in>set (gv_outcomes g). row_key i = (INCUMBENT_ID, s) \<and> start \<le> tn_observed_at i)))
    \<and> (\<forall>r\<in>set (epoch_rows g1). tn_challenger_id r \<noteq> INCUMBENT_ID \<longrightarrow> (\<exists>e\<in>set (gv_exact g). backs e r))
    \<and> 95/100 \<le> ad_probability_positive (posterior_since (su_erf su) w start (gv_outcomes g))
    \<and> 0 < ad_lower_90 (posterior_since (su_erf su) w start (gv_outcomes g))"
proof -
  have "backed g" unfolding g by (rule evidence_machine.run_inv [OF assms(1)]) simp
  define g1 where "g1 = ensure_named_challengers (ck_named ck) g"
  have tables: "gv_outcomes g1 = gv_outcomes g" "gv_exact g1 = gv_exact g"
    using ensure_named_tables [of g "ck_named ck"] by (simp_all add: g1_def same_tables_def)
  define start where "start = common_start (active_challengers g1)"
  obtain d posterior where d: "evaluate_fresh_tournament su g1 = Inr (d, posterior)" "td_winner d = Some w" "td_eligible d"
    using promoted_decision [OF promoted] by (auto simp: g1_def)
  obtain t where t: "record_rows (epoch_rows g1) (new_tournament MIN_FORWARD_EPISODES MIN_IMPROVEMENT_RATIO) = Inr t"
    "d = compare_policies t INCUMBENT_ID (map ch_id (active_challengers g1))"
    "posterior = posterior_since (su_erf su) w start (gv_outcomes g)"
    "\<forall>r\<in>set (epoch_rows g1). tn_challenger_id r \<noteq> INCUMBENT_ID \<longrightarrow> tn_execution_complete r"
    "winner_blockers d posterior = []"
    by (rule eligible_tournament [OF d]) (auto simp: start_def tables)
  have tour: "to_outcomes t = map outcome_of_row (epoch_rows g1)" "to_min_paired_episodes t = 30"
    using record_rows_result [OF t(1)] by (simp_all add: new_tournament_def MIN_FORWARD_EPISODES_def)
  note win = compare_winner [OF d(2) [unfolded t(2)]]
  then have w: "w \<in> ch_id ` set (active_challengers g1)" "w \<noteq> INCUMBENT_ID" by auto
  obtain shared where shared: "distinct shared" "30 \<le> length shared"
    "\<forall>s\<in>set shared. \<forall>p\<in>set (INCUMBENT_ID # map ch_id (active_challengers g1)).
        \<exists>u\<in>set (to_outcomes t). pu_policy_id u = p \<and> pu_stream_id u = s"
    using win tour(2) by auto
  have paired: "\<exists>r\<in>set (epoch_rows g1). row_key r = (p, s)"
    if "s \<in> set shared" "p \<in> set (INCUMBENT_ID # map ch_id (active_challengers g1))" for p s
    using shared(3) that unfolding tour(1) by (fastforce simp: outcome_of_row_def row_key_def)
  have exact: "\<exists>e\<in>set (gv_exact g). backs e r" if "r \<in> set (epoch_rows g1)" "tn_challenger_id r \<noteq> INCUMBENT_ID" for r
    using that t(4) epoch_rows_member [OF that(1)] \<open>backed g\<close> by (auto simp: backed_def tables)
  have "\<exists>e\<in>set (gv_exact g). xe_challenger_id e = w \<and> xe_stream_id e = s \<and> start \<le> xe_observed_at e" if s: "s \<in> set shared" for s
  proof -
    have "w \<in> set (INCUMBENT_ID # map ch_id (active_challengers g1))" using w(1) by auto
    from paired [OF s this] obtain r where r: "r \<in> set (epoch_rows g1)" "row_key r = (w, s)" by blast
    with exact [of r] w(2) epoch_rows_member [OF r(1)] show ?thesis
      by (auto simp: row_key_def backs_def exact_key_def start_def)
  qed
  moreover have "\<exists>i\<in>set (gv_outcomes g). row_key i = (INCUMBENT_ID, s) \<and> start \<le> tn_observed_at i" if s: "s \<in> set shared" for s
    using paired [OF s, of INCUMBENT_ID] epoch_rows_member [of _ g1] by (auto simp: start_def tables)
  moreover have "95/100 \<le> ad_probability_positive (posterior_since (su_erf su) w start (gv_outcomes g))"
    "0 < ad_lower_90 (posterior_since (su_erf su) w start (gv_outcomes g))"
    using winner_blockers_empty [OF t(5) d(2)] by (simp_all add: t(3) POSTERIOR_PROMOTION_PROBABILITY_def)
  ultimately show ?thesis
    unfolding Let_def g1_def [symmetric] start_def [symmetric] using w(1) shared(1,2) exact by blast
qed

definition lane_clock :: clock_readings where
  "lane_clock = \<lparr>ck_cutoff = ''t0'', ck_named = ''t2'', ck_generated = ''t2'', ck_epoch1 = ''t2'', ck_epoch2 = ''t2'',
     ck_history = ''t2'', ck_reset = ''t3'', ck_decision = ''t3''\<rparr>"

theorem promotion_rests_on_exact_evidence_witness:
  "\<exists>g g'. lane_state g \<and> promote_with_fresh_epoch plain_surroundings lane_clock NoStop g = (g', Inr (Promoted ''concentration''))
     \<and> (\<exists>shared. distinct shared \<and> 30 \<le> length shared \<and>
          (\<forall>s\<in>set shared. \<exists>e\<in>set (gv_exact g). xe_challenger_id e = ''concentration'' \<and> xe_stream_id e = s))"
proof -
  obtain g where g: "lane_state g" using lane_exists by blast
  then obtain g' where g': "promote_with_fresh_epoch plain_surroundings lane_clock NoStop g = (g', Inr (Promoted ''concentration''))"
    using lane_promotes [of g NoStop lane_clock] by auto
  have "backed g" using g by (simp add: lane_state_def)
  have run: "g = fst (run_machine (governance_step plain_surroundings [] ''v'') g [])" by simp
  from promotion_rests_on_exact_evidence [OF \<open>backed g\<close> run g'] g g' show ?thesis
    unfolding Let_def by blast
qed

subsection \<open>Three endings\<close>

text \<open>When a promotion would happen, its three endings differ as follows.\<close>

lemma promotion_endings:
  assumes ok: "governance_ok su base g" and promoted: "promote_with_fresh_epoch su ck stop g = (g', Inr (Promoted w))"
  obtains es row where "es \<noteq> []" and "evolution_ok (su_digest su) (gv_evolution g @ es)"
    and "\<forall>e. promote_with_fresh_epoch su ck (HistoryRaises e) g =
      ((ensure_named_challengers (ck_named ck) g)\<lparr>gv_evolution := gv_evolution g @ es\<rparr>, Inl (OperationalError e))"
    and "\<exists>g1. promote_with_fresh_epoch su ck ResetMissed g = (g1, Inr (Promoted w)) \<and> gv_evolution g1 = gv_evolution g @ es
      \<and> gv_outcomes g1 = gv_outcomes g \<and> gv_history g1 = gv_history g @ [row]
      \<and> gv_challengers g1 = set_status w ''promoted'' (gv_challengers (ensure_named_challengers (ck_named ck) g))"
    and "\<exists>g2. promote_with_fresh_epoch su ck NoStop g = (g2, Inr (Promoted w)) \<and> gv_evolution g2 = gv_evolution g @ es
      \<and> gv_outcomes g2 = gv_outcomes g \<and> gv_history g2 = gv_history g @ [row]
      \<and> gv_challengers g2 = reset_epoch (ck_reset ck) (set_status w ''promoted'' (gv_challengers (ensure_named_challengers (ck_named ck) g)))"
proof -
  define g0 where "g0 = ensure_named_challengers (ck_named ck) g"
  have ok0: "governance_ok su base g0" unfolding g0_def by (rule untouched_ok [OF ok ensure_named_untouched])
  have same: "gv_evolution g0 = gv_evolution g" "gv_history g0 = gv_history g" "gv_outcomes g0 = gv_outcomes g"
    by (simp_all add: g0_def ensure_named_challengers_def)
  obtain gm where gm: "maybe_promote su ck stop g = (gm, Inr (Promoted w))"
    using promoted by (auto simp: promote_with_fresh_epoch_def split: prod.splits sum.splits governance_action.splits if_splits)
  then obtain d posterior where d: "evaluate_fresh_tournament su g0 = Inr (d, posterior)" "td_winner d = Some w" "td_eligible d" "w \<noteq> []"
    by (auto simp: maybe_promote_def Let_def promote_challenger_def g0_def
        split: sum.splits option.splits if_splits prod.splits stop_point.splits)
  note call = promoted_call [OF d(1) [unfolded g0_def] d(2-4), folded g0_def]
  have config: "challenger_config g0 w \<noteq> []"
  proof
    assume "challenger_config g0 w = []"
    with gm show False
      by (auto simp: call promote_challenger_def Let_def apply_changes_def ordinary_changes_def protected_changes_def)
  qed
  obtain es row where ends: "es \<noteq> []" "evolution_ok (su_digest su) (gv_evolution g0 @ es)"
    "\<forall>e. promote_challenger su ck (HistoryRaises e) w d posterior g0 =
      (g0\<lparr>gv_evolution := gv_evolution g0 @ es\<rparr>, Inl (OperationalError e))"
    "\<forall>stop. (\<forall>e. stop \<noteq> HistoryRaises e) \<longrightarrow> promote_challenger su ck stop w d posterior g0 =
      (log_decision ck d posterior ''promote''
        (g0\<lparr>gv_evolution := gv_evolution g0 @ es, gv_history := gv_history g0 @ [row],
           gv_challengers := set_status w ''promoted'' (gv_challengers g0),
           gv_events := gv_events g0 @ [(''v52_strategy_automatic_promotion'', w)]\<rparr>), Inr (Promoted w))"
    by (rule promote_challenger_endings [OF ok0 config, where ck = ck and d = d and posterior = posterior])
  have r1: "promote_with_fresh_epoch su ck (HistoryRaises e) g = (g0\<lparr>gv_evolution := gv_evolution g @ es\<rparr>, Inl (OperationalError e))" for e
    by (simp add: promote_with_fresh_epoch_def call ends(3) same)
  have r2: "\<exists>g1. promote_with_fresh_epoch su ck ResetMissed g = (g1, Inr (Promoted w)) \<and> gv_evolution g1 = gv_evolution g @ es
      \<and> gv_outcomes g1 = gv_outcomes g \<and> gv_history g1 = gv_history g @ [row]
      \<and> gv_challengers g1 = set_status w ''promoted'' (gv_challengers g0)"
    by (simp add: promote_with_fresh_epoch_def call ends(4) same log_decision_def)
  have r3: "\<exists>g2. promote_with_fresh_epoch su ck NoStop g = (g2, Inr (Promoted w)) \<and> gv_evolution g2 = gv_evolution g @ es
      \<and> gv_outcomes g2 = gv_outcomes g \<and> gv_history g2 = gv_history g @ [row]
      \<and> gv_challengers g2 = reset_epoch (ck_reset ck) (set_status w ''promoted'' (gv_challengers g0))"
    by (simp add: promote_with_fresh_epoch_def call ends(4) same log_decision_def)
  show thesis
    by (rule that [OF ends(1) ends(2) [unfolded same] allI [OF r1 [unfolded g0_def]] r2 [unfolded g0_def] r3 [unfolded g0_def]])
qed

subsection \<open>Active challengers and the epoch\<close>

lemma active_set: "set (active_challengers g) = {r \<in> set (gv_challengers g). ch_status r = ''active''}"
  by (auto simp: active_challengers_def)

lemma common_start_Max: "active \<noteq> [] \<Longrightarrow> common_start active = Max (ch_created_at ` set active)"
proof (cases active)
  case (Cons r rs)
  have "common_start active = fold max (map ch_created_at rs) (ch_created_at r)"
    by (simp add: common_start_def Cons fold_map comp_def)
  also have "\<dots> = Max (set (map ch_created_at (r # rs)))"
    by (simp only: list.map Max.set_eq_fold)
  finally show ?thesis by (simp add: Cons)
qed simp

lemma epoch_rows_iff:
  "r \<in> set (epoch_rows g) \<longleftrightarrow> r \<in> set (gv_outcomes g)
     \<and> (tn_challenger_id r = INCUMBENT_ID \<or> tn_challenger_id r \<in> ch_id ` set (active_challengers g))
     \<and> common_start (active_challengers g) \<le> tn_observed_at r \<and> tn_same_stream r \<and> tn_prospective r"
  by (auto simp: epoch_rows_def Let_def)

lemma promoted_active:
  assumes "gv_challengers g' = set_status w ''promoted'' (gv_challengers g)"
  shows "set (active_challengers g') = {r \<in> set (active_challengers g). ch_id r \<noteq> w}"
  unfolding active_set assms set_status_def by auto

lemma reset_active:
  assumes "gv_challengers g' = reset_epoch now rows"
  shows "\<forall>r\<in>set (active_challengers g'). ch_created_at r = now"
  unfolding active_set assms reset_epoch_def by auto

subsection \<open>A promotion that is cut off\<close>

text \<open>C21. A promotion whose history row is not written is in force and forgotten. When the transaction of the history raises, the
  epochs have been appended: the running strategy reads the winner's configuration, while the history and the
  status of the challenger stay as they were, so that every start goes back to the configuration before.\<close>

theorem unwritten_promotion_is_forgotten:
  assumes "dict_ok baseline" and ok: "governance_ok su (start_config baseline) g"
    and promoted: "promote_with_fresh_epoch su ck NoStop g = (g1, Inr (Promoted w))"
    and raised: "promote_with_fresh_epoch su ck (HistoryRaises e) g = (g2, r)"
  shows "r = Inl (OperationalError e) \<and> ep_config (current_epoch (gv_evolution g2)) = ep_config (current_epoch (gv_evolution g1))
    \<and> gv_history g2 = gv_history g \<and> gv_history g1 \<noteq> gv_history g
    \<and> gv_challengers g2 = gv_challengers (ensure_named_challengers (ck_named ck) g)
    \<and> (\<exists>g3. install_governance su later baseline version g2 = (g3, Inr ())
        \<and> same_lookups (ep_config (current_epoch (gv_evolution g3))) (ep_config (current_epoch (gv_evolution g))))"
proof -
  define g0 where "g0 = ensure_named_challengers (ck_named ck) g"
  obtain es row where ends: "\<forall>e. promote_with_fresh_epoch su ck (HistoryRaises e) g =
      (g0\<lparr>gv_evolution := gv_evolution g @ es\<rparr>, Inl (OperationalError e))"
    "\<exists>g2. promote_with_fresh_epoch su ck NoStop g = (g2, Inr (Promoted w)) \<and> gv_evolution g2 = gv_evolution g @ es
      \<and> gv_outcomes g2 = gv_outcomes g \<and> gv_history g2 = gv_history g @ [row]
      \<and> gv_challengers g2 = reset_epoch (ck_reset ck) (set_status w ''promoted'' (gv_challengers g0))"
    by (rule promotion_endings [OF ok promoted, folded g0_def])
  then have g1: "gv_evolution g1 = gv_evolution g @ es" "gv_history g1 = gv_history g @ [row]" using promoted by auto
  have g2: "g2 = g0\<lparr>gv_evolution := gv_evolution g @ es\<rparr>" "r = Inl (OperationalError e)" using ends(1) raised by auto
  have hist: "gv_history g2 = gv_history g" "gv_challengers g2 = gv_challengers g0"
    by (simp_all add: g2 g0_def ensure_named_challengers_def)
  have "governance_ok su (start_config baseline) g0" unfolding g0_def by (rule untouched_ok [OF ok ensure_named_untouched])
  then have facts: "assert_authority (start_config baseline) = Inr ()" "history_ok (start_config baseline) [] (gv_history g2)"
    "challengers_plain (gv_challengers g2)" using ok by (simp_all add: governance_ok_def hist)
  obtain g3 where g3: "install_governance su later baseline version g2 = (g3, Inr ())"
    "governance_ok su (start_config baseline) g3" "gv_history g3 = gv_history g"
    using install_governance_ok [OF assms(1) facts, of su later version] hist by auto
  then have "same_lookups (ep_config (current_epoch (gv_evolution g3))) (ep_config (current_epoch (gv_evolution g)))"
    using ok by (simp add: governance_ok_def same_lookups_def current_epoch_def)
  with g3(1) have "\<exists>g3. install_governance su later baseline version g2 = (g3, Inr ())
      \<and> same_lookups (ep_config (current_epoch (gv_evolution g3))) (ep_config (current_epoch (gv_evolution g)))" by blast
  with g1 g2 hist show ?thesis by (simp add: g0_def)
qed

theorem unwritten_promotion_is_forgotten_witness:
  "\<exists>g g1 g2 r. lane_state g \<and> promote_with_fresh_epoch plain_surroundings lane_clock NoStop g = (g1, Inr (Promoted ''concentration''))
     \<and> promote_with_fresh_epoch plain_surroundings lane_clock (HistoryRaises ''database is locked'') g = (g2, r)
     \<and> r = Inl (OperationalError ''database is locked'') \<and> gv_history g2 = gv_history g
     \<and> ep_config (current_epoch (gv_evolution g2)) = ep_config (current_epoch (gv_evolution g1))"
proof -
  obtain g where g: "lane_state g" using lane_exists by blast
  then obtain g1 where g1: "promote_with_fresh_epoch plain_surroundings lane_clock NoStop g = (g1, Inr (Promoted ''concentration''))"
    using lane_promotes [of g NoStop lane_clock] by auto
  obtain g2 r where g2: "promote_with_fresh_epoch plain_surroundings lane_clock (HistoryRaises ''database is locked'') g = (g2, r)"
    by fastforce
  have ok: "governance_ok plain_surroundings (start_config []) g" using g by (simp add: lane_state_def)
  from unwritten_promotion_is_forgotten [OF dict_ok_Nil ok g1 g2] g g1 g2 show ?thesis by blast
qed

text \<open>C22. A promotion whose reset is missed leaves its evidence to the next one. With the reset, the next tournament sees
  only outcomes observed since the promotion. When the process ends between the two transactions, the
  promotion counts, but every outcome that the tournament saw, except those of the winner, is still in the
  epoch of the challengers that remain.\<close>

theorem missed_reset_reuses_evidence:
  assumes ok: "governance_ok su base g" and missed: "promote_with_fresh_epoch su ck ResetMissed g = (g1, Inr (Promoted w))"
    and others: "active_challengers g1 \<noteq> []"
  shows "(\<forall>r\<in>set (epoch_rows (ensure_named_challengers (ck_named ck) g)). tn_challenger_id r \<noteq> w \<longrightarrow> r \<in> set (epoch_rows g1))
    \<and> (\<exists>g2. promote_with_fresh_epoch su ck NoStop g = (g2, Inr (Promoted w))
        \<and> (\<forall>r\<in>set (epoch_rows g2). ck_reset ck \<le> tn_observed_at r))"
proof -
  define g0 where "g0 = ensure_named_challengers (ck_named ck) g"
  obtain es row where ends:
    "\<exists>g1. promote_with_fresh_epoch su ck ResetMissed g = (g1, Inr (Promoted w)) \<and> gv_evolution g1 = gv_evolution g @ es
      \<and> gv_outcomes g1 = gv_outcomes g \<and> gv_history g1 = gv_history g @ [row]
      \<and> gv_challengers g1 = set_status w ''promoted'' (gv_challengers g0)"
    "\<exists>g2. promote_with_fresh_epoch su ck NoStop g = (g2, Inr (Promoted w)) \<and> gv_evolution g2 = gv_evolution g @ es
      \<and> gv_outcomes g2 = gv_outcomes g \<and> gv_history g2 = gv_history g @ [row]
      \<and> gv_challengers g2 = reset_epoch (ck_reset ck) (set_status w ''promoted'' (gv_challengers g0))"
    by (rule promotion_endings [OF ok missed, folded g0_def])
  then have g1: "gv_outcomes g1 = gv_outcomes g0" "gv_challengers g1 = set_status w ''promoted'' (gv_challengers g0)"
    using missed by (auto simp: g0_def ensure_named_challengers_def)
  note act = promoted_active [OF g1(2)]
  have "active_challengers g0 \<noteq> []" using others act by auto
  have "common_start (active_challengers g1) \<le> common_start (active_challengers g0)"
    unfolding common_start_Max [OF others] common_start_Max [OF \<open>active_challengers g0 \<noteq> []\<close>]
  proof (rule Max_mono)
    have "set (active_challengers g1) \<noteq> {}" using others by simp
    then show "ch_created_at ` set (active_challengers g1) \<noteq> {}" by blast
  qed (use act in auto)
  then have "\<forall>r\<in>set (epoch_rows g0). tn_challenger_id r \<noteq> w \<longrightarrow> r \<in> set (epoch_rows g1)"
    by (auto simp: epoch_rows_iff g1(1) act intro: order_trans)
  moreover obtain g2 where g2: "promote_with_fresh_epoch su ck NoStop g = (g2, Inr (Promoted w))"
    "gv_challengers g2 = reset_epoch (ck_reset ck) (gv_challengers g1)"
    using ends(2) g1(2) by auto
  obtain r where "r \<in> set (gv_challengers g1)" "ch_status r = ''active''"
    using others active_set [of g1] by (cases "active_challengers g1") auto
  then have "r\<lparr>ch_created_at := ck_reset ck\<rparr> \<in> set (active_challengers g2)"
    unfolding active_set g2(2) reset_epoch_def by (auto intro!: image_eqI [of _ _ r])
  then have some: "active_challengers g2 \<noteq> []" by auto
  moreover from this reset_active [OF g2(2)] have "common_start (active_challengers g2) = ck_reset ck"
    unfolding common_start_Max [OF some] by (intro Max_eqI) (auto simp: neq_Nil_conv)
  ultimately show ?thesis using g2(1) unfolding g0_def [symmetric] by (auto simp: epoch_rows_iff)
qed

theorem missed_reset_reuses_evidence_witness:
  "\<exists>g g1. lane_state g \<and> promote_with_fresh_epoch plain_surroundings lane_clock ResetMissed g = (g1, Inr (Promoted ''concentration''))
     \<and> (\<forall>r\<in>set lane_outcomes. tn_challenger_id r \<noteq> ''concentration'' \<longrightarrow> r \<in> set (epoch_rows g1))
     \<and> lane_row ''exit_capture'' (2/100) ''s'' \<in> set (epoch_rows g1)"
proof -
  obtain g where g: "lane_state g" using lane_exists by blast
  then obtain g1 where g1: "promote_with_fresh_epoch plain_surroundings lane_clock ResetMissed g = (g1, Inr (Promoted ''concentration''))"
    "gv_challengers g1 = set_status ''concentration'' ''promoted'' (gv_challengers lane_tables)"
    using lane_promotes [of g ResetMissed lane_clock] by auto
  have ok: "governance_ok plain_surroundings (start_config []) g" using g by (simp add: lane_state_def)
  have "lane_challenger ''exit_capture'' ''active'' \<in> set (active_challengers g1)"
    unfolding active_set g1(2) by (simp add: set_status_def lane_tables_def lane_challenger_def)
  then have "active_challengers g1 \<noteq> []" by auto
  from missed_reset_reuses_evidence [OF ok g1(1) this]
  have reused: "\<forall>r\<in>set lane_outcomes. tn_challenger_id r \<noteq> ''concentration'' \<longrightarrow> r \<in> set (epoch_rows g1)"
    by (simp add: lane_ensured [OF g] lane_epoch_rows(1) [OF g])
  have "''s'' \<in> set lane_streams" by (auto simp: lane_streams_def image_iff intro: bexI [of _ 0])
  then have "lane_row ''exit_capture'' (2/100) ''s'' \<in> set lane_outcomes" by (simp add: lane_outcomes_def)
  with reused g g1(1) show ?thesis by auto
qed

end
