(* ===== verification/Spec2Isabelle.thy ===== *)
theory Spec2Isabelle
  imports
    Prelude Models Strategy Authority Allocation Portfolio Engine Certification
    Capital Lanes Accounting Storage Risk Refinement Upside Curve
    Checkpoint Durable Budget Doubles Positions PositionBooks Lifecycle
    SharedCapital SharedBooks SharedRuns SharedFaults Evidence Evolution
    Governance GovernanceRuns GovernanceEvidence PromotionLane Promotions
begin

text \<open>
  \<^bold>\<open>The program.\<close> The repository is a paper-trading system for newly launched tokens. Its code is
  the Python package \<open>src/solana_roi\<close>. Signals about wallets and tokens arrive from the
  chains, a frozen strategy turns them into trade intents, a simulated portfolio executes the
  intents with a fixed drag, and everything is recorded so that profitability can be
  certified later. No component holds money, keys or signing authority.

  \<^bold>\<open>Parts and theories.\<close> File names are those under \<open>src/solana_roi\<close>; a Python name keeps its
  spelling where Isabelle allows it, without a leading underscore.

  \<^item> \<open>Models\<close>: the value types of \<open>models.py\<close> and the configuration of \<open>config.py\<close>.
  \<^item> \<open>Strategy\<close>: \<open>RoiConvergenceStrategy\<close> of \<open>strategy.py\<close>: \<open>first_touch\<close>, \<open>confirm\<close>,
    \<open>on_clock\<close>. Its contract is the lifecycle automaton \<open>phase_step\<close>, one per token.
  \<^item> \<open>Authority\<close>: \<open>strategy_v51_authority.py\<close>, the checks of the economic authority and the
    evidence burden of each hazard bin.
  \<^item> \<open>Allocation\<close>: the pure functions of \<open>portfolio.py\<close> (drawdown, exposure, family allocation,
    correlation diagnostic).
  \<^item> \<open>Portfolio\<close>: the capital ledger and \<open>PaperPortfolio\<close> of \<open>portfolio.py\<close>, the simulator of
    \<open>execution.py\<close>, and \<open>apply_exact_entry_if_available\<close> of \<open>execution_realism.py\<close>.
  \<^item> \<open>Engine\<close>: \<open>PaperTradingEngine\<close> of \<open>engine.py\<close>, which drives the strategy, applies each intent
    to the portfolio and appends to the evidence log, also when a call raises half way.
  \<^item> \<open>Certification\<close>: \<open>certification.py\<close>, the Wilson bound and the certifier of trade outcomes.
  \<^item> \<open>Capital\<close>: \<open>v51_atomic_paper_capital.py\<close>, the SQLite store in which concurrent lanes reserve,
    cancel and settle fractions of one paper portfolio.
  \<^item> \<open>Lanes\<close>: \<open>v52_lane_contract.py\<close> and \<open>v52_continuation_capture.py\<close>, the five lanes and the
    boundary at which observations are classified.
  \<^item> \<open>Accounting\<close>: \<open>v52_lossless_candidate_accounting.py\<close>, the reconciliation of observed
    candidates with their records and the readiness gate over it.
  \<^item> \<open>Storage\<close>: \<open>storage.py\<close>, the hash-chained event log and the point-in-time tables.
  \<^item> \<open>Risk\<close>: \<open>risk.py\<close>, entities as connected wallets and the risk snapshot composed from stored
    evidence; it calls \<open>Storage\<close> and produces the snapshot type of \<open>Models\<close>.
  \<^item> \<open>Refinement\<close>: \<open>v52_final_refinement.py\<close>, epochs, hysteresis, quote freshness, exit stress,
    flow response, competition for capital and the alpha-loss curve.
  \<^item> \<open>Upside\<close>: \<open>v52_upside_capture.py\<close>, the planners that open, scale, de-risk, keep a runner of
    and re-enter a position.
  \<^item> \<open>Curve\<close>: \<open>robinhood_chain_core.py\<close>, the ABI word codec, the bonding-curve quotes, the quoter
    calldata and the classification of context returns.
  \<^item> \<open>Checkpoint\<close>: the state document of \<open>durable_engine.py\<close>, a JSON tree written from the paper
    state and read back field by field.
  \<^item> \<open>Durable\<close>: \<open>DurablePaperTradingEngine\<close> of \<open>durable_engine.py\<close>, the engine that saves a checkpoint
    after each call and rebuilds itself from it, or refuses. After a restore the portfolio
    facade and its ledger hold separate positions, so the portfolio operations are
    given on both; before a restore they refine \<open>Engine\<close>.
  \<^item> \<open>Budget\<close>: \<open>robinhood_provider_capacity_budget.py\<close>, the monthly request allowance of each RPC
    provider, its usage file, the rolling limit and the pacing of background work.
  \<^item> \<open>Positions\<close>: \<open>v52_robinhood_position_lifecycle.py\<close>, positions built of lots: the choice of an
    entry, its validation and commit, the allocation of an exit, staged de-risking, runner,
    settlement, reports and the adoption of older trials at a start.
  \<^item> \<open>PositionBooks\<close> and \<open>Lifecycle\<close>: what these operations keep (\<open>book_ok\<close>) and their properties, with a lane of
    one token on which they are evaluated. \<open>Doubles\<close> holds the rounding they need: Python's \<open>round\<close>,
    and the true division of two integers.

  \<^item> \<open>SharedCapital\<close>: \<open>v52_robinhood_shared_capital_repair.py\<close>, which reserves an entry of \<open>Positions\<close> in the store of
    \<open>Capital\<close>, links the lot to the reservation and settles each slice that is sold, and the settlement of
    outcomes at a start (\<open>robinhood_chain_state.py\<close>). \<open>SharedBooks\<close> holds what an entry and a slice keep
    (\<open>shared_ok\<close>), \<open>SharedRuns\<close> the machine of entries, exits, crashes, starts and calls of other lanes,
    \<open>SharedFaults\<close> the theorems about what goes wrong.

  \<^item> \<open>Evidence\<close>: the evidence models of \<open>v52_continuous_evolution.py\<close>, from calibrated outcomes to the refined
    decision. \<open>Evolution\<close>: its policy tournament and its append-only strategy epochs, and the promotion of
    a winner (\<open>v52_strategy_promotion.py\<close>).
  \<^item> \<open>Governance\<close>: the automatic promotion and demotion of policies of \<open>v52_learning_governance.py\<close>, with the functions
    that \<open>v52_learning_governance_hardening.py\<close> installs in their place: challengers, outcomes, the tournament over exact
    evidence, history and replay. It calls \<open>Evolution\<close>. \<open>GovernanceRuns\<close> holds what ticks, exact outcomes, exceptions
    and starts keep of the history, \<open>GovernanceEvidence\<close> what they keep of the outcomes, \<open>Promotions\<close> what a promotion rests
    on and what is left when it is cut off; \<open>PromotionLane\<close> is a lane of thirty streams on which these are evaluated.

  \<^bold>\<open>Shared library.\<close> \<open>Prelude\<close> holds the errors, the dictionaries, the text functions and the
  interfaces. \<open>dictionary\<close> is the contract of an ordered dictionary; \<open>invariant_machine\<close> gives
  an invariant of one step to all runs and \<open>potential_machine\<close> makes the outputs of a run
  account for a potential of its end state; \<open>screening\<close> is the contract of a loop that either
  enters an element into a dictionary or leaves an error. \<open>Engine\<close> states what it needs of a
  portfolio as \<open>position_book\<close>, \<open>Curve\<close> the round trip of one ABI word as \<open>word_codec\<close>. Each is
  interpreted on the model's own functions in the theory that defines them.

  \<^bold>\<open>Conventions.\<close> Floats are exact reals and Python integers are \<open>int\<close>; an argument that \<open>float()\<close>
  converts is a \<open>py_number\<close>, finite, not finite, or not a number. A \<open>datetime\<close> is a
  number of microseconds. Exceptions are values of \<open>py_error\<close>: a call that can raise after it has
  changed its object returns the object beside the error. Strings are 8-bit, and case
  mapping is that of ASCII. SQLite tables are lists of rows in insertion order; a
  transaction under the store's lock is one step, a rollback leaves the old tables, and
  concurrent callers are the interleavings of such steps. Code that is not part of the
  repository is an argument: SHA-256, the JSON text of a payload, the wallet registry, the
  answers of the chain, \<open>erf\<close> and the texts of floats. What a call reads from its surroundings (clock, elapsed
  time, outcomes of the attempts to begin a transaction) is an argument too.

  \<^bold>\<open>What is shown.\<close>
  \<^item> Books: reservations never exceed capacity, a reservation is granted, settled and paid once;
    cash plus cost basis changes by realised profit only, up to the dust the code
    writes off; an exit settles the whole position and books one outcome per token.
  \<^item> Lifecycles: the strategy refines the lifecycle automaton, buys at most one full
    position, exits and harvests once; the upside planners never buy beyond what can be
    sold again and close a deteriorating position in three steps.
  \<^item> Evidence: the event chain is tamper evident up to a hash collision, a snapshot rests on
    fresh evidence known at its decision time and nothing received later changes it,
    entities are exactly the connected wallets, no observed candidate is lost.
  \<^item> Restarts: a restart rebuilds exactly the checkpointed books or is refused, a call that
    returned is never lost, and two theorems show what a restore loses; the request budget
    stays within its limits over restarts, behind the grants by at most the unwritten ones.
  \<^item> Positions: an open position holds exactly what its lots hold, an exit divides tokens, proceeds
    and gas without remainder, adds never average down; a full exit of lots that no
    double holds does nothing, an exit from an outdated row strands an add, and a refused lot is
    counted again at each restart.
  \<^item> Shared capital: what linked lots hold is covered by active reservations of their own and
    fits into the capacity, over crashes and restarts; a slice is settled once. An evidence refused
    once stays refused, a start after a crash books the wrong return, and the first link counts
    older lots twice.
  \<^item> Strategy epochs: every epoch is accounted for, the authority keys keep value and type whatever is
    called, a promotion happens as a whole or not at all, and a tournament is won on paired streams only;
    correlated evidence counts once, and a refined decision never passes a closed gate.
  \<^item> Promotions: a restart replays the configuration in force, a demotion undoes exactly the promotion before it, and a
    promotion rests on thirty paired streams of exact and fresh evidence. A promotion whose history is not
    written is in force and forgotten, a missed reset leaves its evidence to the next promotion, and a total loss
    stops the evaluations of its epoch (\<open>total_loss_stops_evaluation\<close>).
  \<^item> Numbers: drawdown, allocation, Wilson bound, curve quotes and ABI words against their
    specifications, with the bounds and the errors of each.

  \<^bold>\<open>Termination.\<close> Every definition is a total function. \<open>begin_immediate\<close> gives up after
  \<open>BUSY_RETRY_LIMIT\<close> = 8 retries. The worklist of \<open>component_loop\<close> ends because each round
  shortens the stack or marks a wallet of the finite link table; \<open>compete_loop\<close> removes
  one candidate a round. No definition uses fuel.

  \<^bold>\<open>Not modelled.\<close> Rounding of floats other than the quotient that allocates an exit; asyncio, websocket and HTTP transport; SQLite's own
  storage, schema migration and page budgets; the FastAPI routes and process start-up; the
  modules that patch other modules at import time; constant manifests. Of the learning modules the decay profiles
  of lanes, the posteriors of wallets and the features of distribution exits are left out, and so are the governance of market
  validation and measurements, wallet discovery and the other Robinhood modules: they hold further
  policy code, mostly reports over large SQL queries, that the development does not cover.
\<close>

end
